(* ===== verification/Prelude.thy ===== *)
theory Prelude
  imports Main "HOL-Library.Word" "HOL-Library.Sublist"
begin

text \<open>
  Shared vocabulary of the development: the machine integers of the C sources, the
  faults a C expression can run into (undefined behaviour is a value of the model, never
  an unspecified HOL term), the memory image of a 32 bit integer with \<open>memcmp\<close>, the
  decimal and hexadecimal conversions of \<open>sprintf\<close>, and the generic lemmas on lists
  and words that the component theories share.
\<close>

unbundle bit_operations_syntax

section \<open>Machine integers and faults\<close>

type_synonym u8 = "8 word"
type_synonym u16 = "16 word"
type_synonym u32 = "32 word"
type_synonym u64 = "64 word"

text \<open>Addresses of heap objects; 0 is the null pointer.\<close>

type_synonym addr = nat

text \<open>
  \<open>fault\<close> lists the ways a modelled function can leave the defined behaviour of C, and
  the wait for a lock that is never released by the caller itself (\<open>LockBlocked\<close>). A
  function that can do so returns \<open>fault + 'a\<close>, with \<open>Inl\<close> for the fault.
\<close>

datatype fault = NullDeref | OutOfBounds | BufferOverflow | Uninitialised | UseAfterFree | LockBlocked

type_synonym 'a cres = "fault + 'a"

definition cbind :: "'a cres \<Rightarrow> ('a \<Rightarrow> 'b cres) \<Rightarrow> 'b cres" where
  "cbind m f = (case m of Inl e \<Rightarrow> Inl e | Inr a \<Rightarrow> f a)"

named_theorems srx_defs \<open>definitions of small operations, unfolded by the automation\<close>
named_theorems srx_inv \<open>preservation of well-formedness invariants\<close>

lemma cbind_simps [simp]:
  "cbind (Inl e) f = Inl e"
  "cbind (Inr a) f = f a"
  by (simp_all add: cbind_def)

lemma cbind_eq_Inr: "cbind m f = Inr b \<longleftrightarrow> (\<exists>a. m = Inr a \<and> f a = Inr b)"
  by (cases m) simp_all

lemma cbind_assoc: "cbind (cbind m f) g = cbind m (\<lambda>a. cbind (f a) g)"
  by (cases m) simp_all

lemma cbind_fundef_cong:
  "m = m' \<Longrightarrow> (\<And>x. m' = Inr x \<Longrightarrow> f x = g x) \<Longrightarrow> cbind m f = cbind m' g"
  by (auto simp: cbind_def split: sum.splits)

text \<open>Computations that may also have no value at all, because a loop does not end or a thread waits.\<close>

definition tbind :: "'a cres option \<Rightarrow> ('a \<Rightarrow> 'b cres option) \<Rightarrow> 'b cres option" where
  "tbind m f = (case m of None \<Rightarrow> None | Some r \<Rightarrow> (case r of Inl e \<Rightarrow> Some (Inl e) | Inr a \<Rightarrow> f a))"

lemma tbind_simps [simp]:
  "tbind None f = None"
  "tbind (Some (Inl e)) f = Some (Inl e)"
  "tbind (Some (Inr a)) f = f a"
  by (simp_all add: tbind_def)

lemma tbind_eq_Inr: "tbind m f = Some (Inr b) \<longleftrightarrow> (\<exists>a. m = Some (Inr a) \<and> f a = Some (Inr b))"
  by (auto simp: tbind_def split: option.splits sum.splits)

lemma tbind_assoc: "tbind (tbind m f) g = tbind m (\<lambda>a. tbind (f a) g)"
  by (simp add: tbind_def split: option.splits sum.splits)

lemma tbind_mono [partial_function_mono]:
  assumes "mono_option B" "\<And>y. mono_option (\<lambda>f. C y f)"
  shows "mono_option (\<lambda>f. tbind (B f) (\<lambda>y. C y f))"
proof -
  have "(\<lambda>f. tbind (B f) (\<lambda>y. C y f)) = (\<lambda>f. Option.bind (B f) (\<lambda>r. case r of Inl e \<Rightarrow> Some (Inl e) | Inr a \<Rightarrow> C a f))"
    by (auto simp: tbind_def fun_eq_iff split: option.splits)
  moreover have "mono_option (\<lambda>f. case r of Inl e \<Rightarrow> Some (Inl e) | Inr a \<Rightarrow> C a f)" for r
    using assms(2) by (cases r) (auto intro: partial_function_mono)
  ultimately show ?thesis using assms(1) by (auto intro: bind_mono)
qed

text \<open>The same as a plain computation: what has no value never returns to its caller, like a thread that is blocked.\<close>

definition await :: "'a cres option \<Rightarrow> 'a cres" where
  "await m = (case m of None \<Rightarrow> Inl LockBlocked | Some r \<Rightarrow> r)"

lemma await_simps [simp]: "await None = Inl LockBlocked" "await (Some r) = r"
  by (simp_all add: await_def)

text \<open>A loop over the elements of a list.\<close>

fun cfold :: "('a \<Rightarrow> 's \<Rightarrow> 's cres) \<Rightarrow> 'a list \<Rightarrow> 's \<Rightarrow> 's cres" where
  "cfold f [] s = Inr s"
| "cfold f (x # xs) s = cbind (f x s) (cfold f xs)"

lemma cfold_cong [fundef_cong]:
  assumes "xs = ys" "s = t" "\<And>x u. x \<in> set ys \<Longrightarrow> f x u = g x u"
  shows "cfold f xs s = cfold g ys t"
proof -
  have "cfold f ys u = cfold g ys u" for u
    using assms(3)
  proof (induction ys arbitrary: u)
    case (Cons y ys)
    then have "cfold f ys v = cfold g ys v" for v by simp
    then show ?case using Cons.prems by (cases "g y u") simp_all
  qed simp
  then show ?thesis using assms(1,2) by simp
qed

lemma cfold_append: "cfold f (xs @ ys) s = cbind (cfold f xs s) (cfold f ys)"
proof (induction xs arbitrary: s)
  case (Cons x xs)
  then show ?case by (cases "f x s") simp_all
qed simp

text \<open>An invariant of the loop body is one of the loop.\<close>

lemma cfold_invariant:
  assumes "cfold f xs s = Inr t" "I s" "\<And>x u v. x \<in> set xs \<Longrightarrow> I u \<Longrightarrow> f x u = Inr v \<Longrightarrow> I v"
  shows "I t"
  using assms
proof (induction xs arbitrary: s)
  case (Cons x xs)
  from Cons.prems(1) obtain v where v: "f x s = Inr v" "cfold f xs v = Inr t" by (auto simp: cbind_eq_Inr)
  have "I v" using Cons.prems(2) v(1) by (intro Cons.prems(3) [of x s v]) simp_all
  then show ?case
  proof (rule Cons.IH [OF v(2)])
    fix y u w assume "y \<in> set xs" "I u" "f y u = Inr w"
    then show "I w" by (intro Cons.prems(3) [of y u w]) simp_all
  qed
qed simp

text \<open>Reading an element of an array through a pointer, \<open>None\<close> for the null pointer.\<close>

definition read_arr :: "'a list option \<Rightarrow> nat \<Rightarrow> 'a cres" where
  "read_arr p i = (case p of
      None \<Rightarrow> Inl NullDeref
    | Some xs \<Rightarrow> if i < length xs then Inr (xs ! i) else Inl OutOfBounds)"

lemma read_arr_simps [simp]:
  "read_arr None i = Inl NullDeref"
  "i < length xs \<Longrightarrow> read_arr (Some xs) i = Inr (xs ! i)"
  "\<not> i < length xs \<Longrightarrow> read_arr (Some xs) i = Inl OutOfBounds"
  by (simp_all add: read_arr_def)

section \<open>Lists\<close>

lemma list_update_self_map:
  "i < length xs \<Longrightarrow> map f (xs[i := x]) = (map f xs)[i := f x]"
  by (simp add: map_update)

lemma filter_length_Suc:
  "x \<in> set xs \<Longrightarrow> P x \<Longrightarrow> 0 < length (filter P xs)"
  by (auto simp: filter_empty_conv)

lemma distinct_map_filter_keep:
  "distinct (map f xs) \<Longrightarrow> distinct (map f (filter P xs))"
  by (induction xs) auto

lemma takeWhile_all_iff: "takeWhile P xs = xs \<longleftrightarrow> (\<forall>x \<in> set xs. P x)"
  by (induction xs) auto

lemma of_nat_u32_eq_0_iff: "n < 2 ^ 32 \<Longrightarrow> (of_nat n :: u32) = 0 \<longleftrightarrow> n = 0"
  by (auto simp: word_of_nat_eq_0_iff dest: dvd_imp_le)

section \<open>Memory images of integers\<close>

text \<open>
  The sources are built for a little endian host: the bytes of a 32 bit integer in memory
  start with its least significant byte.
\<close>

definition mem_bytes32 :: "u32 \<Rightarrow> u8 list" where
  "mem_bytes32 w = [ucast w, ucast (drop_bit 8 w), ucast (drop_bit 16 w), ucast (drop_bit 24 w)]"

text \<open>\<open>memcmp\<close> of the C library: the sign of the difference of the first bytes that differ.\<close>

fun memcmp :: "u8 list \<Rightarrow> u8 list \<Rightarrow> int" where
  "memcmp (x # xs) (y # ys) =
     (if x = y then memcmp xs ys else if x < y then -1 else 1)"
| "memcmp _ _ = 0"

lemma memcmp_eq_0_iff: "length xs = length ys \<Longrightarrow> memcmp xs ys = 0 \<longleftrightarrow> xs = ys"
  by (induction xs ys rule: list_induct2) auto

lemma bit_byte_of: "j < 8 \<Longrightarrow> bit (ucast (drop_bit k x) :: u8) j = bit (x :: u32) (k + j)"
  by (simp add: bit_simps)

lemma mem_bytes32_inject: "mem_bytes32 v = mem_bytes32 w \<longleftrightarrow> v = w"
proof
  assume "mem_bytes32 v = mem_bytes32 w"
  then have eq: "(ucast (drop_bit 0 v) :: u8) = ucast (drop_bit 0 w)"
    "(ucast (drop_bit 8 v) :: u8) = ucast (drop_bit 8 w)"
    "(ucast (drop_bit 16 v) :: u8) = ucast (drop_bit 16 w)"
    "(ucast (drop_bit 24 v) :: u8) = ucast (drop_bit 24 w)"
    by (simp_all add: mem_bytes32_def)
  have b: "bit v (k + j) = bit w (k + j)"
    if "(ucast (drop_bit k v) :: u8) = ucast (drop_bit k w)" "j < 8" for k j
    using that bit_byte_of by metis
  show "v = w"
  proof (rule bit_word_eqI)
    fix n :: nat
    assume "n < LENGTH(32)"
    then have "n < 8 \<or> (8 \<le> n \<and> n - 8 < 8) \<or> (16 \<le> n \<and> n - 16 < 8) \<or> (24 \<le> n \<and> n - 24 < 8)"
      by auto
    then show "bit v n = bit w n"
      using b [OF eq(1), of n] b [OF eq(2), of "n - 8"] b [OF eq(3), of "n - 16"]
        b [OF eq(4), of "n - 24"] by auto
  qed
qed simp

section \<open>Number conversions of \<open>sprintf\<close>\<close>

text \<open>
  C strings are byte lists without the terminating zero. \<open>base_digits b n\<close> are the digits
  of \<open>n\<close> in base \<open>b\<close>, most significant first, without leading zeros.
\<close>

type_synonym cstr = "u8 list"

fun base_digits :: "nat \<Rightarrow> nat \<Rightarrow> nat list" where
  "base_digits b n = (if b < 2 \<or> n < b then [n] else base_digits b (n div b) @ [n mod b])"

declare base_digits.simps [simp del]

definition digits_value :: "nat \<Rightarrow> nat list \<Rightarrow> nat" where
  "digits_value b ds = foldl (\<lambda>acc d. acc * b + d) 0 ds"

lemma digits_value_base_digits: "digits_value b (base_digits b n) = n"
proof (induction b n rule: base_digits.induct)
  case (1 b n)
  then show ?case
    by (subst base_digits.simps) (auto simp: digits_value_def)
qed

lemma base_digits_inject: "base_digits b m = base_digits b n \<longleftrightarrow> m = n"
  by (metis digits_value_base_digits)

lemma base_digits_less: "2 \<le> b \<Longrightarrow> d \<in> set (base_digits b n) \<Longrightarrow> d < b"
proof (induction b n arbitrary: d rule: base_digits.induct)
  case (1 b n)
  show ?case
  proof (cases "n < b")
    case True
    with 1 show ?thesis by (subst (asm) (2) base_digits.simps) auto
  next
    case False
    then have "base_digits b n = base_digits b (n div b) @ [n mod b]"
      using 1 by (subst base_digits.simps) auto
    with 1 False show ?thesis by auto
  qed
qed

lemma base_digits_not_Nil [simp]: "base_digits b n \<noteq> []"
  by (subst base_digits.simps) simp

lemma length_base_digits_le_iff:
  "2 \<le> b \<Longrightarrow> length (base_digits b n) \<le> Suc k \<longleftrightarrow> n < b ^ Suc k"
proof (induction k arbitrary: n)
  case 0
  have "0 < length (base_digits b (n div b))" by simp
  with 0 show ?case by (subst base_digits.simps) (auto simp del: length_greater_0_conv)
next
  case (Suc k)
  show ?case
  proof (cases "n < b")
    case True
    moreover have "b \<le> b ^ Suc (Suc k)"
      using Suc.prems by (intro self_le_power) simp_all
    ultimately have "n < b ^ Suc (Suc k)" by (rule less_le_trans)
    with True show ?thesis by (subst base_digits.simps) simp
  next
    case False
    then have "length (base_digits b n) = Suc (length (base_digits b (n div b)))"
      using Suc.prems by (subst base_digits.simps) auto
    moreover have "n div b < b ^ Suc k \<longleftrightarrow> n < b ^ Suc (Suc k)"
      using Suc.prems by (simp add: div_less_iff_less_mult mult.commute)
    ultimately show ?thesis using Suc.IH [OF Suc.prems, of "n div b"] by simp
  qed
qed

text \<open>The ASCII code of a digit in base 16 (upper case, as \<open>%X\<close> prints it).\<close>

definition digit_code :: "nat \<Rightarrow> u8" where
  "digit_code d = (if d < 10 then of_nat (48 + d) else of_nat (55 + d))"

lemma unat_digit_code: "d < 16 \<Longrightarrow> unat (digit_code d) = (if d < 10 then 48 + d else 55 + d)"
  unfolding digit_code_def by (simp add: unat_of_nat del: of_nat_add)

lemma digit_code_inject: "c < 16 \<Longrightarrow> d < 16 \<Longrightarrow> digit_code c = digit_code d \<longleftrightarrow> c = d"
  by (auto dest!: arg_cong [where f = unat] simp: unat_digit_code split: if_splits)

text \<open>\<open>%0<w>X\<close> of an unsigned 32 bit argument and \<open>%d\<close> of a 32 bit argument.\<close>

definition sprintf_X :: "nat \<Rightarrow> u32 \<Rightarrow> cstr" where
  "sprintf_X w v = (let ds = map digit_code (base_digits 16 (unat v))
                    in replicate (w - length ds) 48 @ ds)"

definition dec_str :: "nat \<Rightarrow> cstr" where
  "dec_str n = map digit_code (base_digits 10 n)"

definition sprintf_d :: "u32 \<Rightarrow> cstr" where
  "sprintf_d v = (if sint v < 0 then 45 # dec_str (nat (- sint v)) else dec_str (unat v))"

lemma inj_on_digit_code: "inj_on digit_code {..<16}"
  by (auto simp: inj_on_def digit_code_inject)

lemma dec_str_inject [simp]: "dec_str m = dec_str n \<longleftrightarrow> m = n"
proof
  assume "dec_str m = dec_str n"
  moreover have "set (base_digits 10 m) \<union> set (base_digits 10 n) \<subseteq> {..<16}"
    using base_digits_less [of 10] by fastforce
  ultimately have "base_digits 10 m = base_digits 10 n"
    unfolding dec_str_def by (metis map_inj_on inj_on_digit_code inj_on_subset)
  then show "m = n" by (simp add: base_digits_inject)
qed simp

lemma dec_str_not_Nil [simp]: "dec_str n \<noteq> []"
  by (simp add: dec_str_def)

lemma length_dec_str_le_iff: "length (dec_str n) \<le> Suc k \<longleftrightarrow> n < 10 ^ Suc k"
  by (simp add: dec_str_def length_base_digits_le_iff)

text \<open>A byte that is an ASCII decimal digit; the strings a trie of digits is indexed by.\<close>

definition is_digit :: "u8 \<Rightarrow> bool" where
  "is_digit c \<longleftrightarrow> 48 \<le> unat c \<and> unat c \<le> 57"

lemma dec_str_digits: "c \<in> set (dec_str n) \<Longrightarrow> is_digit c"
  using base_digits_less [of 10 _ n] unat_digit_code
  by (fastforce simp: dec_str_def is_digit_def)

lemma length_sprintf_X_ge: "w \<le> length (sprintf_X w v)"
  by (simp add: sprintf_X_def Let_def)

lemma length_sprintf_X_8: "length (sprintf_X 8 v) = 8"
proof -
  have "unat v < 16 ^ Suc 7" using unsigned_less [of v] by simp
  then have "length (base_digits 16 (unat v)) \<le> Suc 7"
    by (subst length_base_digits_le_iff) auto
  then show ?thesis by (simp add: sprintf_X_def Let_def)
qed

text \<open>The sign of a 32 bit argument, and the length of what \<open>%d\<close> prints.\<close>

lemma sint_u32: "sint (c :: u32) = (if uint c < 2147483648 then uint c else uint c - 4294967296)"
proof -
  have r: "0 \<le> uint c" "uint c < 4294967296" using uint_lt2p [of c] by simp_all
  have s: "sint c = (uint c + 2147483648) mod 4294967296 - 2147483648"
    by (simp add: sint_uint signed_take_bit_eq_take_bit_shift take_bit_eq_mod)
  show ?thesis
  proof (cases "uint c < 2147483648")
    case False
    then have "(uint c + 2147483648) mod 4294967296 = ((uint c - 2147483648) + 4294967296) mod 4294967296"
      by (simp add: add.commute)
    also have "\<dots> = uint c - 2147483648"
      using False r by (simp only: mod_add_self2) simp
    finally show ?thesis using s False by simp
  qed (use r s in simp)
qed

lemma unat_less_2p31_iff: "unat (c :: u32) < 2 ^ 31 \<longleftrightarrow> uint c < 2147483648"
  unfolding unat_eq_nat_uint by (subst nat_less_iff) simp_all

lemma sprintf_d_nonneg: "unat c < 2 ^ 31 \<Longrightarrow> sprintf_d c = dec_str (unat c)"
  unfolding unat_less_2p31_iff by (simp add: sprintf_d_def sint_u32)

lemma sprintf_d_neg: "\<not> unat c < 2 ^ 31 \<Longrightarrow> \<exists>n. sprintf_d c = 45 # dec_str n"
  unfolding unat_less_2p31_iff using uint_lt2p [of c] by (simp add: sprintf_d_def sint_u32)

section \<open>Single bits\<close>

lemma and_power_eq_iff: "(a AND 2 ^ n = 2 ^ n) = bit a n" if "n < LENGTH('a)" for a :: "'a::len word"
proof -
  have "bit (a AND 2 ^ n) n = bit a n" using that by (simp add: bit_simps)
  moreover have "bit (2 ^ n :: 'a word) n" using that by (simp add: bit_simps)
  moreover have "a AND 2 ^ n = 2 ^ n" if "bit a n" using that by (auto intro!: bit_word_eqI simp: bit_simps)
  ultimately show ?thesis by metis
qed

end
