(* ===== verification/SRx_Defs.thy ===== *)
theory SRx_Defs
  imports Prelude
begin

text \<open>
  The shared vocabulary of \<open>srx-server/src/shared/srx_defs.h\<close>: validation results, their
  sources, the bit flags that select a validation, the AS path types and the
  results of an ASPA lookup. The C enumerations are 32 bit integers and the stored results are
  bytes, so an out of range value received from a peer is a value of the model too.
\<close>

section \<open>Validation results\<close>

definition SRx_RESULT_VALID :: u8 where [simp]: "SRx_RESULT_VALID = 0"
definition SRx_RESULT_NOTFOUND :: u8 where [simp]: "SRx_RESULT_NOTFOUND = 1"
definition SRx_RESULT_INVALID :: u8 where [simp]: "SRx_RESULT_INVALID = 2"
definition SRx_RESULT_UNDEFINED :: u8 where [simp]: "SRx_RESULT_UNDEFINED = 3"
definition SRx_RESULT_DONOTUSE :: u8 where [simp]: "SRx_RESULT_DONOTUSE = 4"
definition SRx_RESULT_UNKNOWN :: u8 where [simp]: "SRx_RESULT_UNKNOWN = 5"
definition SRx_RESULT_UNVERIFIABLE :: u8 where [simp]: "SRx_RESULT_UNVERIFIABLE = 6"

record SRxResult =
  roaResult :: u8
  bgpsecResult :: u8
  aspaResult :: u8

definition SRxRS_SRX :: u32 where [simp]: "SRxRS_SRX = 0"
definition SRxRS_ROUTER :: u32 where [simp]: "SRxRS_ROUTER = 1"
definition SRxRS_IGP :: u32 where [simp]: "SRxRS_IGP = 2"
definition SRxRS_UNKNOWN :: u32 where [simp]: "SRxRS_UNKNOWN = 3"
definition SRxRS_DONOTUSE :: u32 where [simp]: "SRxRS_DONOTUSE = 128"

record SRxDefaultResult =
  resSourceROA :: u32
  resSourceBGPSEC :: u32
  resSourceASPA :: u32
  defResult :: SRxResult

section \<open>Which results a notification carries\<close>

definition VRT_NONE :: u32 where [simp]: "VRT_NONE = 0"
definition VRT_ROA :: u32 where [simp]: "VRT_ROA = 1"
definition VRT_BGPSEC :: u32 where [simp]: "VRT_BGPSEC = 2"
definition VRT_ASPA :: u32 where [simp]: "VRT_ASPA = 4"

record SRxValidationResult =
  valType :: u32
  valResult :: SRxResult
  valUpdateID :: u32

section \<open>AS paths and ASPA\<close>

definition AS_SET :: u32 where [simp]: "AS_SET = 1"
definition AS_SEQUENCE :: u32 where [simp]: "AS_SEQUENCE = 2"

definition ASPA_UNKNOWNSTREAM :: u32 where [simp]: "ASPA_UNKNOWNSTREAM = 0"
definition ASPA_UPSTREAM :: u32 where [simp]: "ASPA_UPSTREAM = 1"
definition ASPA_DOWNSTREAM :: u32 where [simp]: "ASPA_DOWNSTREAM = 2"

definition ASPA_RESULT_VALID :: u32 where [simp]: "ASPA_RESULT_VALID = 0"
definition ASPA_RESULT_INVALID :: u32 where [simp]: "ASPA_RESULT_INVALID = 1"
definition ASPA_RESULT_UNDEFINED :: u32 where [simp]: "ASPA_RESULT_UNDEFINED = 2"
definition ASPA_RESULT_UNKNOWN :: u32 where [simp]: "ASPA_RESULT_UNKNOWN = 4"
definition ASPA_RESULT_UNVERIFIABLE :: u32 where [simp]: "ASPA_RESULT_UNVERIFIABLE = 8"
definition ASPA_RESULT_NIBBLE_ZERO :: u32 where [simp]: "ASPA_RESULT_NIBBLE_ZERO = 16"

definition AFI_IP :: u16 where [simp]: "AFI_IP = 1"
definition AFI_IP6 :: u16 where [simp]: "AFI_IP6 = 2"

definition AS_REL_CUSTOMER :: u32 where [simp]: "AS_REL_CUSTOMER = 1"
definition AS_REL_PROVIDER :: u32 where [simp]: "AS_REL_PROVIDER = 2"
definition AS_REL_SIBLING :: u32 where [simp]: "AS_REL_SIBLING = 3"
definition AS_REL_LATERAL :: u32 where [simp]: "AS_REL_LATERAL = 4"

section \<open>Flags of requests and notifications\<close>

definition SRX_FLAG_ROA :: u8 where [simp]: "SRX_FLAG_ROA = 1"
definition SRX_FLAG_BGPSEC :: u8 where [simp]: "SRX_FLAG_BGPSEC = 2"
definition SRX_FLAG_ASPA :: u8 where [simp]: "SRX_FLAG_ASPA = 4"
definition SRX_FLAG_ROA_BGPSEC_ASPA :: u8 where [simp]: "SRX_FLAG_ROA_BGPSEC_ASPA = 7"
definition SRX_FLAG_REQUEST_RECEIPT :: u8 where [simp]: "SRX_FLAG_REQUEST_RECEIPT = 128"

section \<open>Error codes\<close>

definition SRXERR_WRONG_VERSION :: u16 where [simp]: "SRXERR_WRONG_VERSION = 0"
definition SRXERR_DUPLICATE_PROXY_ID :: u16 where [simp]: "SRXERR_DUPLICATE_PROXY_ID = 1"
definition SRXERR_INVALID_PACKET :: u16 where [simp]: "SRXERR_INVALID_PACKET = 2"
definition SRXERR_INTERNAL_ERROR :: u16 where [simp]: "SRXERR_INTERNAL_ERROR = 3"
definition SRXERR_ALGO_NOT_SUPPORTED :: u16 where [simp]: "SRXERR_ALGO_NOT_SUPPORTED = 4"
definition SRXERR_UPDATE_NOT_FOUND :: u16 where [simp]: "SRXERR_UPDATE_NOT_FOUND = 5"

section \<open>Byte order\<close>

text \<open>Network byte order on a little endian host.\<close>

definition ntohl :: "u32 \<Rightarrow> u32" where
  "ntohl w = push_bit 24 (w AND 0xFF) OR push_bit 8 (w AND 0xFF00) OR drop_bit 8 w AND 0xFF00 OR drop_bit 24 w"

definition ntohs :: "u16 \<Rightarrow> u16" where
  "ntohs w = push_bit 8 w OR drop_bit 8 w"

abbreviation htonl :: "u32 \<Rightarrow> u32" where "htonl \<equiv> ntohl"
abbreviation htons :: "u16 \<Rightarrow> u16" where "htons \<equiv> ntohs"

end
