(* ===== verification/Srx_Identifier.thy ===== *)
theory Srx_Identifier
  imports SRx_Defs
begin

text \<open>
  The identifiers of the server: \<open>shared/crc32.c\<close> (table driven CRC-32),
  \<open>shared/srx_identifier.c\<close> (the update identifier, a CRC over a hexadecimal image of the
  update, and the comparison of two identifiers) and the address types of
  \<open>util/prefix.h\<close> and \<open>util/prefix.c\<close> they are computed from.
  The main results: the 256 entries of the table are the CRC-32 residues of their indices and
  the table driven loop computes the bitwise CRC-32; the update identifier does not
  distinguish path bytes above \<open>0x7F\<close>, because the code prints a signed character.
\<close>

section \<open>CRC-32\<close>

definition crc32tab :: "u32 list" where
  "crc32tab = [
     0x00000000, 0x77073096, 0xEE0E612C, 0x990951BA,
     0x076DC419, 0x706AF48F, 0xE963A535, 0x9E6495A3,
     0x0EDB8832, 0x79DCB8A4, 0xE0D5E91E, 0x97D2D988,
     0x09B64C2B, 0x7EB17CBD, 0xE7B82D07, 0x90BF1D91,
     0x1DB71064, 0x6AB020F2, 0xF3B97148, 0x84BE41DE,
     0x1ADAD47D, 0x6DDDE4EB, 0xF4D4B551, 0x83D385C7,
     0x136C9856, 0x646BA8C0, 0xFD62F97A, 0x8A65C9EC,
     0x14015C4F, 0x63066CD9, 0xFA0F3D63, 0x8D080DF5,
     0x3B6E20C8, 0x4C69105E, 0xD56041E4, 0xA2677172,
     0x3C03E4D1, 0x4B04D447, 0xD20D85FD, 0xA50AB56B,
     0x35B5A8FA, 0x42B2986C, 0xDBBBC9D6, 0xACBCF940,
     0x32D86CE3, 0x45DF5C75, 0xDCD60DCF, 0xABD13D59,
     0x26D930AC, 0x51DE003A, 0xC8D75180, 0xBFD06116,
     0x21B4F4B5, 0x56B3C423, 0xCFBA9599, 0xB8BDA50F,
     0x2802B89E, 0x5F058808, 0xC60CD9B2, 0xB10BE924,
     0x2F6F7C87, 0x58684C11, 0xC1611DAB, 0xB6662D3D,
     0x76DC4190, 0x01DB7106, 0x98D220BC, 0xEFD5102A,
     0x71B18589, 0x06B6B51F, 0x9FBFE4A5, 0xE8B8D433,
     0x7807C9A2, 0x0F00F934, 0x9609A88E, 0xE10E9818,
     0x7F6A0DBB, 0x086D3D2D, 0x91646C97, 0xE6635C01,
     0x6B6B51F4, 0x1C6C6162, 0x856530D8, 0xF262004E,
     0x6C0695ED, 0x1B01A57B, 0x8208F4C1, 0xF50FC457,
     0x65B0D9C6, 0x12B7E950, 0x8BBEB8EA, 0xFCB9887C,
     0x62DD1DDF, 0x15DA2D49, 0x8CD37CF3, 0xFBD44C65,
     0x4DB26158, 0x3AB551CE, 0xA3BC0074, 0xD4BB30E2,
     0x4ADFA541, 0x3DD895D7, 0xA4D1C46D, 0xD3D6F4FB,
     0x4369E96A, 0x346ED9FC, 0xAD678846, 0xDA60B8D0,
     0x44042D73, 0x33031DE5, 0xAA0A4C5F, 0xDD0D7CC9,
     0x5005713C, 0x270241AA, 0xBE0B1010, 0xC90C2086,
     0x5768B525, 0x206F85B3, 0xB966D409, 0xCE61E49F,
     0x5EDEF90E, 0x29D9C998, 0xB0D09822, 0xC7D7A8B4,
     0x59B33D17, 0x2EB40D81, 0xB7BD5C3B, 0xC0BA6CAD,
     0xEDB88320, 0x9ABFB3B6, 0x03B6E20C, 0x74B1D29A,
     0xEAD54739, 0x9DD277AF, 0x04DB2615, 0x73DC1683,
     0xE3630B12, 0x94643B84, 0x0D6D6A3E, 0x7A6A5AA8,
     0xE40ECF0B, 0x9309FF9D, 0x0A00AE27, 0x7D079EB1,
     0xF00F9344, 0x8708A3D2, 0x1E01F268, 0x6906C2FE,
     0xF762575D, 0x806567CB, 0x196C3671, 0x6E6B06E7,
     0xFED41B76, 0x89D32BE0, 0x10DA7A5A, 0x67DD4ACC,
     0xF9B9DF6F, 0x8EBEEFF9, 0x17B7BE43, 0x60B08ED5,
     0xD6D6A3E8, 0xA1D1937E, 0x38D8C2C4, 0x4FDFF252,
     0xD1BB67F1, 0xA6BC5767, 0x3FB506DD, 0x48B2364B,
     0xD80D2BDA, 0xAF0A1B4C, 0x36034AF6, 0x41047A60,
     0xDF60EFC3, 0xA867DF55, 0x316E8EEF, 0x4669BE79,
     0xCB61B38C, 0xBC66831A, 0x256FD2A0, 0x5268E236,
     0xCC0C7795, 0xBB0B4703, 0x220216B9, 0x5505262F,
     0xC5BA3BBE, 0xB2BD0B28, 0x2BB45A92, 0x5CB36A04,
     0xC2D7FFA7, 0xB5D0CF31, 0x2CD99E8B, 0x5BDEAE1D,
     0x9B64C2B0, 0xEC63F226, 0x756AA39C, 0x026D930A,
     0x9C0906A9, 0xEB0E363F, 0x72076785, 0x05005713,
     0x95BF4A82, 0xE2B87A14, 0x7BB12BAE, 0x0CB61B38,
     0x92D28E9B, 0xE5D5BE0D, 0x7CDCEFB7, 0x0BDBDF21,
     0x86D3D2D4, 0xF1D4E242, 0x68DDB3F8, 0x1FDA836E,
     0x81BE16CD, 0xF6B9265B, 0x6FB077E1, 0x18B74777,
     0x88085AE6, 0xFF0F6A70, 0x66063BCA, 0x11010B5C,
     0x8F659EFF, 0xF862AE69, 0x616BFFD3, 0x166CCF45,
     0xA00AE278, 0xD70DD2EE, 0x4E048354, 0x3903B3C2,
     0xA7672661, 0xD06016F7, 0x4969474D, 0x3E6E77DB,
     0xAED16A4A, 0xD9D65ADC, 0x40DF0B66, 0x37D83BF0,
     0xA9BCAE53, 0xDEBB9EC5, 0x47B2CF7F, 0x30B5FFE9,
     0xBDBDF21C, 0xCABAC28A, 0x53B39330, 0x24B4A3A6,
     0xBAD03605, 0xCDD70693, 0x54DE5729, 0x23D967BF,
     0xB3667A2E, 0xC4614AB8, 0x5D681B02, 0x2A6F2B94,
     0xB40BBE37, 0xC30C8EA1, 0x5A05DF1B, 0x2D02EF8D]"

fun crc32_loop :: "u32 \<Rightarrow> u8 list \<Rightarrow> u32" where
  "crc32_loop pCrc32 [] = pCrc32"
| "crc32_loop pCrc32 (d # pData) =
     crc32_loop (drop_bit 8 pCrc32 XOR crc32tab ! unat (ucast d XOR (pCrc32 AND 0x000000FF))) pData"

definition crc32 :: "u8 list \<Rightarrow> u32" where
  "crc32 pData = NOT (crc32_loop 0xFFFFFFFF pData)"

subsection \<open>The bitwise reference\<close>

text \<open>
  One step divides by the polynomial named in the comment of the source, in its reflected
  form \<open>0xEDB88320\<close>; a byte is eight steps.
\<close>

definition crc_bit :: "u32 \<Rightarrow> u32" where
  "crc_bit c = (if bit c 0 then drop_bit 1 c XOR 0xEDB88320 else drop_bit 1 c)"

definition crc_byte :: "u32 \<Rightarrow> u32" where
  "crc_byte c = (crc_bit ^^ 8) c"

definition crc_ref :: "u8 list \<Rightarrow> u32" where
  "crc_ref bs = NOT (foldl (\<lambda>c b. crc_byte (c XOR ucast b)) (NOT 0) bs)"

lemma crc_bit_xor: "crc_bit (a XOR b) = crc_bit a XOR crc_bit b"
  by (cases "bit a 0"; cases "bit b 0") (simp_all add: crc_bit_def bit_simps ac_simps)

lemma crc_bits_xor: "(crc_bit ^^ n) (a XOR b) = (crc_bit ^^ n) a XOR (crc_bit ^^ n) b"
  by (induction n) (simp_all add: crc_bit_xor)

lemma crc_bits_low_zero:
  "\<forall>i < n. \<not> bit x i \<Longrightarrow> (crc_bit ^^ n) x = drop_bit n x"
  by (induction n) (simp_all add: crc_bit_def bit_simps)

lemma crc_byte_split: "crc_byte d = drop_bit 8 d XOR crc_byte (d AND 0xFF)"
proof -
  have m: "(0xFF :: u32) = mask 8" by (simp add: mask_eq_exp_minus_1)
  have "d = (d AND NOT (mask 8)) XOR (d AND mask 8)"
    by (rule bit_word_eqI) (auto simp: bit_simps)
  then have "crc_byte d = crc_byte (d AND NOT (mask 8)) XOR crc_byte (d AND mask 8)"
    unfolding crc_byte_def by (metis crc_bits_xor)
  moreover have "crc_byte (d AND NOT (mask 8)) = drop_bit 8 (d AND NOT (mask 8))"
    unfolding crc_byte_def by (rule crc_bits_low_zero) (simp add: bit_simps)
  moreover have "drop_bit 8 (d AND NOT (mask 8)) = drop_bit 8 d"
    by (rule bit_word_eqI) (auto simp: bit_simps dest: bit_imp_le_length)
  ultimately show ?thesis by (simp add: m)
qed

lemma crc32tab_length: "length crc32tab = 256"
  by (simp add: crc32tab_def)

text \<open>
  The residues of the indices below 16 and of the multiples of 16 are computed bit by bit;
  the other entries follow by linearity.
\<close>

lemma crc_byte_unfold:
  "crc_byte c = crc_bit (crc_bit (crc_bit (crc_bit (crc_bit (crc_bit (crc_bit (crc_bit c)))))))"
  by (simp add: crc_byte_def numeral_eq_Suc)

lemma crc_bit_numerals:
  "crc_bit 0 = 0"
  "crc_bit 1 = 0xEDB88320"
  "crc_bit (numeral n) = (if bit (numeral n :: u32) 0 then drop_bit 1 (numeral n) XOR 0xEDB88320
     else drop_bit 1 (numeral n))"
  by (simp_all add: crc_bit_def)

lemma crc_byte_nibble_residues:
  "crc_byte 0 = 0x00000000"
  "crc_byte 1 = 0x77073096"
  "crc_byte 2 = 0xEE0E612C"
  "crc_byte 3 = 0x990951BA"
  "crc_byte 4 = 0x076DC419"
  "crc_byte 5 = 0x706AF48F"
  "crc_byte 6 = 0xE963A535"
  "crc_byte 7 = 0x9E6495A3"
  "crc_byte 8 = 0x0EDB8832"
  "crc_byte 9 = 0x79DCB8A4"
  "crc_byte 10 = 0xE0D5E91E"
  "crc_byte 11 = 0x97D2D988"
  "crc_byte 12 = 0x09B64C2B"
  "crc_byte 13 = 0x7EB17CBD"
  "crc_byte 14 = 0xE7B82D07"
  "crc_byte 15 = 0x90BF1D91"
  "crc_byte 16 = 0x1DB71064"
  "crc_byte 32 = 0x3B6E20C8"
  "crc_byte 48 = 0x26D930AC"
  "crc_byte 64 = 0x76DC4190"
  "crc_byte 80 = 0x6B6B51F4"
  "crc_byte 96 = 0x4DB26158"
  "crc_byte 112 = 0x5005713C"
  "crc_byte 128 = 0xEDB88320"
  "crc_byte 144 = 0xF00F9344"
  "crc_byte 160 = 0xD6D6A3E8"
  "crc_byte 176 = 0xCB61B38C"
  "crc_byte 192 = 0x9B64C2B0"
  "crc_byte 208 = 0x86D3D2D4"
  "crc_byte 224 = 0xA00AE278"
  "crc_byte 240 = 0xBDBDF21C"
  by (simp_all add: crc_byte_unfold crc_bit_numerals)

lemma crc_byte_nibbles: "crc_byte x = crc_byte (x AND 0xFFFFFFF0) XOR crc_byte (x AND 0xF)"
proof -
  have m: "(0xFFFFFFF0 :: u32) = NOT (mask 4)" "(0xF :: u32) = mask 4"
    by (simp_all add: mask_eq_exp_minus_1)
  have "x = (x AND 0xFFFFFFF0) XOR (x AND 0xF)"
    unfolding m by (rule bit_word_eqI) (auto simp: bit_simps)
  then show ?thesis unfolding crc_byte_def by (metis crc_bits_xor)
qed

lemma upt_256: "[0..<256] = 0 # 1 # [2..<256]"
  by (simp add: upt_rec)

lemma crc32tab_residues: "crc32tab = map (\<lambda>i. crc_byte (of_nat i)) [0..<256]"
  by (subst crc_byte_nibbles, unfold upt_256)
    (simp add: crc32tab_def crc_byte_nibble_residues)

lemma crc32tab_nth: "x < 256 \<Longrightarrow> crc32tab ! unat x = crc_byte x"
proof -
  assume "x < 256"
  then have "unat x < 256" by unat_arith
  then show ?thesis by (simp add: crc32tab_residues)
qed

lemma ucast_xor_low_byte: "ucast (b :: u8) XOR (c AND 0xFF) = ((c XOR ucast b) AND 0xFF :: u32)"
proof -
  have m: "(0xFF :: u32) = mask 8" by (simp add: mask_eq_exp_minus_1)
  show ?thesis unfolding m by (rule bit_word_eqI) (auto simp: bit_simps dest: bit_imp_le_length)
qed

lemma crc32_step:
  "drop_bit 8 c XOR crc32tab ! unat (ucast (b :: u8) XOR (c AND 0xFF)) = crc_byte (c XOR ucast b)"
proof -
  have m: "(0xFF :: u32) = mask 8" by (simp add: mask_eq_exp_minus_1)
  have "(c XOR ucast b) AND 0xFF < (256 :: u32)"
    unfolding m using and_mask_lt_2p [of "c XOR ucast b" 8] by (simp add: word_less_def)
  then have "crc32tab ! unat ((c XOR ucast b) AND 0xFF) = crc_byte ((c XOR ucast b) AND 0xFF)"
    by (rule crc32tab_nth)
  moreover have "drop_bit 8 (c XOR ucast b) = drop_bit 8 c"
    by (rule bit_word_eqI) (auto simp: bit_simps dest: bit_imp_le_length)
  ultimately show ?thesis
    by (simp only: ucast_xor_low_byte crc_byte_split [of "c XOR ucast b"])
qed

lemma crc32_loop_eq: "crc32_loop c bs = foldl (\<lambda>c b. crc_byte (c XOR ucast b)) c bs"
  by (induction bs arbitrary: c) (simp_all only: crc32_loop.simps foldl.simps crc32_step)

section \<open>Addresses and prefixes\<close>

text \<open>
  \<open>IPAddress\<close> of \<open>util/prefix.h\<close> is a version and a union of 16 bytes; the 32 bit view of
  an IPv4 address are its first four bytes.
\<close>

record IPAddress =
  version :: u8
  addr :: "u8 list"

record IPPrefix =
  ip :: IPAddress
  plength :: u8

definition v4_u32 :: "IPAddress \<Rightarrow> u32" where
  "v4_u32 a = (ucast (addr a ! 0) OR push_bit 8 (ucast (addr a ! 1)))
     OR (push_bit 16 (ucast (addr a ! 2)) OR push_bit 24 (ucast (addr a ! 3)))"

definition GET_MAX_PREFIX_LEN :: "IPAddress \<Rightarrow> u8" where
  "GET_MAX_PREFIX_LEN a = (if version a = 4 then 32 else 128)"

text \<open>\<open>cpyPrefix\<close>: the return value and the destination after the call; a null pointer is
  \<open>None\<close>.\<close>

definition cpyPrefix :: "IPPrefix option \<Rightarrow> IPPrefix option \<Rightarrow> bool \<times> IPPrefix option" where
  "cpyPrefix dst src = (case (src, dst) of
      (Some s, Some d) \<Rightarrow>
        (True, Some (d\<lparr>plength := plength s,
                        ip := (ip d)\<lparr>version := version (ip s), addr := take 16 (addr (ip s))\<rparr>\<rparr>))
    | _ \<Rightarrow> (False, dst))"

text \<open>The attribute data an update is identified by (\<open>BGPSecData\<close> of \<open>srx_defs.h\<close>).\<close>

record BGPSecData =
  numberHops :: u16
  asPath :: "u32 list"
  attr_length :: u16
  bafi :: u16
  bsafi :: u8
  breserved :: u8
  local_as :: u32
  bgpsec_path_attr :: "u8 list option"

section \<open>The update identifier\<close>

text \<open>
  \<open>generateIdentifier\<close> prints into a buffer with \<open>sprintf\<close>, which always writes a
  terminating zero, and advances its write position by the number of characters it expects.
  \<open>tb_over\<close> counts the bytes written behind the end of the buffer.
\<close>

record text_buf =
  tb_mem :: "u8 list"
  tb_pos :: nat
  tb_over :: nat

definition tb_sprintf :: "cstr \<Rightarrow> nat \<Rightarrow> text_buf \<Rightarrow> text_buf" where
  "tb_sprintf str adv b =
     (let s = str @ [0]; p = tb_pos b; n = length (tb_mem b)
      in b\<lparr>tb_mem := take n (take p (tb_mem b) @ s @ drop (p + length s) (tb_mem b)),
           tb_pos := p + adv,
           tb_over := max (tb_over b) (p + length s - n)\<rparr>)"

definition id_blob :: "BGPSecData \<Rightarrow> u8 list \<times> nat" where
  "id_blob d = (case bgpsec_path_attr d of
      Some attr \<Rightarrow> (attr, unat (attr_length d))
    | None \<Rightarrow> (concat (map mem_bytes32 (asPath d)), unat (numberHops d) * 4))"

definition id_prefix_text :: "IPPrefix \<Rightarrow> text_buf \<Rightarrow> text_buf" where
  "id_prefix_text pfx b =
     (if version (ip pfx) = 4
      then tb_sprintf (sprintf_X 8 (v4_u32 (ip pfx)) @ sprintf_X 2 (ucast (plength pfx))) 10 b
      else tb_sprintf (sprintf_X 2 (ucast (plength pfx))) 2
             (fold (\<lambda>c. tb_sprintf (sprintf_X 2 (ucast c)) 2) (take 16 (addr (ip pfx))) b))"

text \<open>The blob is read through a pointer to \<open>char\<close>, which is signed: the argument of
  \<open>%02X\<close> is sign extended.\<close>

definition id_blob_text :: "u8 list \<Rightarrow> text_buf \<Rightarrow> text_buf" where
  "id_blob_text blob b = fold (\<lambda>c. tb_sprintf (sprintf_X 2 (scast c)) 2) blob b"

definition id_length :: "IPPrefix \<Rightarrow> nat \<Rightarrow> nat" where
  "id_length pfx blobLength = (4 + (if version (ip pfx) = 4 then 4 else 16) + 1 + blobLength) * 2"

definition id_text :: "u32 \<Rightarrow> IPPrefix \<Rightarrow> u8 list \<Rightarrow> text_buf" where
  "id_text originAS pfx blob =
     id_blob_text blob (id_prefix_text pfx (tb_sprintf (sprintf_X 8 originAS) 8
       \<lparr>tb_mem = replicate (id_length pfx (length blob)) 0, tb_pos = 0, tb_over = 0\<rparr>))"

text \<open>The buffer is an array on the stack; \<open>room n\<close> is the number of bytes the compiler reserves for an array of \<open>n\<close> bytes.
  Bytes written behind the reserved ones are a fault.\<close>

definition generateIdentifier :: "(nat \<Rightarrow> nat) \<Rightarrow> u32 \<Rightarrow> IPPrefix \<Rightarrow> BGPSecData \<Rightarrow> u32 cres" where
  "generateIdentifier room originAS pfx d =
     (case id_blob d of (blob, blobLength) \<Rightarrow>
       if length blob < blobLength \<or> (version (ip pfx) = 4 \<and> length (addr (ip pfx)) < 4)
            \<or> (version (ip pfx) \<noteq> 4 \<and> length (addr (ip pfx)) < 16)
       then Inl OutOfBounds
       else let dataText = id_text originAS pfx (take blobLength blob); n = id_length pfx blobLength
            in if room n < n + tb_over dataText then Inl BufferOverflow else Inr (crc32 (tb_mem dataText)))"

definition compareSrxUpdateID :: "u32 \<Rightarrow> u32 \<Rightarrow> int" where
  "compareSrxUpdateID u1 u2 = memcmp (mem_bytes32 u1) (mem_bytes32 u2)"

subsection \<open>The text that is hashed\<close>

lemma tb_sprintf_simps [simp]:
  "length (tb_mem (tb_sprintf str adv b)) = length (tb_mem b)"
  "tb_pos (tb_sprintf str adv b) = tb_pos b + adv"
  by (simp_all add: tb_sprintf_def Let_def)

lemma tb_sprintf_over:
  "tb_over (tb_sprintf str adv b) = max (tb_over b) (tb_pos b + length str + 1 - length (tb_mem b))"
  by (simp add: tb_sprintf_def Let_def)

lemma tb_sprintf_text:
  assumes "adv \<le> length str" "tb_pos b + adv \<le> length (tb_mem b)"
  shows "take (tb_pos b + adv) (tb_mem (tb_sprintf str adv b)) = take (tb_pos b) (tb_mem b) @ take adv str"
proof -
  have "adv \<le> length (tb_mem b) - tb_pos b" using assms(2) by arith
  then show ?thesis using assms by (simp add: tb_sprintf_def Let_def min_def)
qed

lemma fold_sprintf_simps [simp]:
  "length (tb_mem (fold (\<lambda>c. tb_sprintf (f c) k) cs b)) = length (tb_mem b)"
  "tb_pos (fold (\<lambda>c. tb_sprintf (f c) k) cs b) = tb_pos b + k * length cs"
  by (induction cs arbitrary: b) simp_all

lemma fold_sprintf_text:
  assumes "\<And>c. k \<le> length (f c)" "tb_pos b + k * length cs \<le> length (tb_mem b)"
  shows "take (tb_pos b + k * length cs) (tb_mem (fold (\<lambda>c. tb_sprintf (f c) k) cs b))
       = take (tb_pos b) (tb_mem b) @ concat (map (take k \<circ> f) cs)"
  using assms(2)
proof (induction cs arbitrary: b)
  case (Cons c cs)
  let ?b = "tb_sprintf (f c) k b"
  have "take (tb_pos ?b + k * length cs) (tb_mem (fold (\<lambda>c. tb_sprintf (f c) k) cs ?b))
      = take (tb_pos ?b) (tb_mem ?b) @ concat (map (take k \<circ> f) cs)"
    using Cons.prems by (intro Cons.IH) (simp add: algebra_simps)
  moreover have "take (tb_pos ?b) (tb_mem ?b) = take (tb_pos b) (tb_mem b) @ take k (f c)"
    using tb_sprintf_text [OF assms(1) [of c], of b] Cons.prems by simp
  ultimately show ?case by (simp add: algebra_simps comp_def)
qed simp

lemma length_sprintf_X_2: "unat v < 256 \<Longrightarrow> length (sprintf_X 2 v) = 2"
  using length_base_digits_le_iff [of 16 "unat v" 1] by (simp add: sprintf_X_def Let_def)

lemma sint_byte: "sint (c :: u8) = (if uint c < 128 then uint c else uint c - 256)"
proof -
  have r: "0 \<le> uint c" "uint c < 256" using uint_lt2p [of c] by simp_all
  have s: "sint c = (uint c + 128) mod 256 - 128"
    by (simp add: sint_uint signed_take_bit_eq_take_bit_shift take_bit_eq_mod)
  show ?thesis
  proof (cases "uint c < 128")
    case False
    then have "(uint c + 128) mod 256 = ((uint c - 128) + 256) mod 256"
      by (simp add: add.commute)
    also have "\<dots> = uint c - 128"
      using False r by (simp only: mod_add_self2) simp
    finally show ?thesis using s False by simp
  qed (use r s in simp)
qed

lemma uint_scast_byte:
  "uint (scast (c :: u8) :: u32) = (if uint c < 128 then uint c else 4294967040 + uint c)"
proof -
  have r: "0 \<le> uint c" "uint c < 256" using uint_lt2p [of c] by simp_all
  have s: "uint (scast c :: u32) = sint c mod 4294967296"
    unfolding scast_eq uint_word_of_int by simp
  show ?thesis
  proof (cases "uint c < 128")
    case False
    then have b: "0 \<le> sint c + 4294967296" "sint c + 4294967296 < 4294967296"
      using r by (simp_all add: sint_byte)
    have "sint c mod 4294967296 = (sint c + 4294967296) mod 4294967296"
      by (rule mod_add_self2 [symmetric])
    also have "\<dots> = sint c + 4294967296"
      using b by (rule mod_pos_pos_trivial)
    finally show ?thesis using s False by (simp add: sint_byte)
  qed (use r s in \<open>simp add: sint_byte\<close>)
qed

lemma unat_less_iff_uint: "unat (c :: u8) < 128 \<longleftrightarrow> uint c < 128"
  unfolding unat_eq_nat_uint by (subst nat_less_iff) simp_all

lemma unat_scast_byte:
  "unat (scast (c :: u8) :: u32) = (if unat c < 128 then unat c else 4294967040 + unat c)"
proof -
  have "int (unat (scast c :: u32)) = int (if unat c < 128 then unat c else 4294967040 + unat c)"
    using uint_scast_byte [of c] unat_less_iff_uint [of c] by simp
  then show ?thesis by (simp only: of_nat_eq_iff)
qed

lemma unat_ucast_byte: "unat (ucast (c :: u8) :: u32) = unat c"
  by (simp add: unsigned_ucast_eq take_bit_nat_eq_self_iff order_less_trans [OF unsigned_less])

text \<open>The two characters that survive of a printed path byte.\<close>

definition id_byte_text :: "u8 \<Rightarrow> cstr" where
  "id_byte_text c = (if unat c < 128 then sprintf_X 2 (ucast c) else [70, 70])"

lemma base_digits_high: "base_digits 16 (4294967040 + r) = [15, 15, 15, 15, 15, 15, r div 16, r mod 16]"
  if "r < 256"
proof -
  have "r div 16 < 16" using that by auto
  moreover have "(r + 268435440 * 16) div 16 = 268435440 + r div 16"
    "(r + 268435440 * 16) mod 16 = r mod 16"
    by (simp_all only: div_mult_self1 mod_mult_self1)
  moreover have "(r div 16 + 16777215 * 16) div 16 = 16777215"
    "(r div 16 + 16777215 * 16) mod 16 = r div 16"
    using \<open>r div 16 < 16\<close> by (simp_all only: div_mult_self1 mod_mult_self1) simp_all
  ultimately show ?thesis
    by (subst base_digits.simps, simp add: add.commute, subst base_digits.simps)
      (simp add: base_digits.simps add.commute)
qed

lemma take_sprintf_X_scast: "take 2 (sprintf_X 2 (scast c)) = id_byte_text c"
proof (cases "unat c < 128")
  case True
  then have "length (sprintf_X 2 (scast c)) = 2"
    by (intro length_sprintf_X_2) (simp add: unat_scast_byte)
  moreover have "scast c = (ucast c :: u32)"
    using True by (intro word_unat_eq_iff [THEN iffD2]) (simp add: unat_scast_byte unat_ucast_byte)
  ultimately show ?thesis using True by (simp add: id_byte_text_def)
next
  case False
  have "unat c < 256" using unsigned_less [of c] by simp
  with False show ?thesis
    by (simp add: id_byte_text_def sprintf_X_def Let_def unat_scast_byte base_digits_high digit_code_def)
qed

definition id_header_text :: "u32 \<Rightarrow> IPPrefix \<Rightarrow> cstr" where
  "id_header_text originAS pfx = sprintf_X 8 originAS @
     (if version (ip pfx) = 4 then sprintf_X 8 (v4_u32 (ip pfx))
      else concat (map (\<lambda>c. sprintf_X 2 (ucast c)) (take 16 (addr (ip pfx)))))
     @ sprintf_X 2 (ucast (plength pfx))"

definition addr_ok :: "IPPrefix \<Rightarrow> bool" where
  "addr_ok pfx \<longleftrightarrow> length (addr (ip pfx)) = 16"

lemma sprintf_X_2_byte: "length (sprintf_X 2 (ucast (c :: u8))) = 2"
proof -
  have "unat c < 256" using unsigned_less [of c] by simp
  then show ?thesis by (intro length_sprintf_X_2) (simp add: unat_ucast_byte)
qed

lemma take_2_sprintf_byte: "take 2 \<circ> (\<lambda>c. sprintf_X 2 (ucast (c :: u8))) = (\<lambda>c. sprintf_X 2 (ucast c))"
  by (rule ext) (simp add: sprintf_X_2_byte)

lemma id_prefix_text_pos:
  "addr_ok pfx \<Longrightarrow> tb_pos (id_prefix_text pfx b) = tb_pos b + (if version (ip pfx) = 4 then 10 else 34)"
  "length (tb_mem (id_prefix_text pfx b)) = length (tb_mem b)"
  by (simp_all add: id_prefix_text_def addr_ok_def)

lemma id_prefix_text_mem:
  assumes ok: "addr_ok pfx" and room: "tb_pos b + (if version (ip pfx) = 4 then 10 else 34) \<le> length (tb_mem b)"
  shows "take (tb_pos (id_prefix_text pfx b)) (tb_mem (id_prefix_text pfx b)) =
    take (tb_pos b) (tb_mem b) @
      (if version (ip pfx) = 4 then sprintf_X 8 (v4_u32 (ip pfx))
       else concat (map (\<lambda>c. sprintf_X 2 (ucast c)) (take 16 (addr (ip pfx)))))
      @ sprintf_X 2 (ucast (plength pfx))"
proof (cases "version (ip pfx) = 4")
  case True
  then show ?thesis
    using tb_sprintf_text [of 10 "sprintf_X 8 (v4_u32 (ip pfx)) @ sprintf_X 2 (ucast (plength pfx))" b] room
    by (simp add: id_prefix_text_def length_sprintf_X_8 sprintf_X_2_byte)
next
  case False
  let ?b = "fold (\<lambda>c. tb_sprintf (sprintf_X 2 (ucast c)) 2) (take 16 (addr (ip pfx))) b"
  have "take (tb_pos ?b) (tb_mem ?b) = take (tb_pos b) (tb_mem b) @
      concat (map (\<lambda>c. sprintf_X 2 (ucast c)) (take 16 (addr (ip pfx))))"
    using fold_sprintf_text [of 2 "\<lambda>c. sprintf_X 2 (ucast c)" b "take 16 (addr (ip pfx))"] False room ok
    by (simp add: sprintf_X_2_byte take_2_sprintf_byte addr_ok_def)
  then show ?thesis
    using tb_sprintf_text [of 2 "sprintf_X 2 (ucast (plength pfx))" ?b] False room ok
    by (simp add: id_prefix_text_def sprintf_X_2_byte addr_ok_def)
qed

lemma id_text_mem:
  assumes ok: "addr_ok pfx"
  shows "tb_mem (id_text originAS pfx blob)
       = id_header_text originAS pfx @ concat (map id_byte_text blob)"
proof -
  let ?n = "id_length pfx (length blob)"
  let ?b0 = "\<lparr>tb_mem = replicate ?n 0, tb_pos = 0, tb_over = 0\<rparr>"
  let ?b1 = "tb_sprintf (sprintf_X 8 originAS) 8 ?b0"
  let ?b2 = "id_prefix_text pfx ?b1"
  have n: "?n = 8 + (if version (ip pfx) = 4 then 10 else 34) + 2 * length blob"
    by (simp add: id_length_def)
  have "take (tb_pos ?b1) (tb_mem ?b1) = sprintf_X 8 originAS"
    using tb_sprintf_text [of 8 "sprintf_X 8 originAS" ?b0] n by (simp add: length_sprintf_X_8)
  then have h: "take (tb_pos ?b2) (tb_mem ?b2) = id_header_text originAS pfx"
    using id_prefix_text_mem [OF ok, of ?b1] n by (simp add: id_header_text_def)
  have p: "tb_pos ?b2 + 2 * length blob = ?n" "length (tb_mem ?b2) = ?n"
    using n by (simp_all add: id_prefix_text_pos ok)
  have "take (tb_pos ?b2 + 2 * length blob) (tb_mem (id_blob_text blob ?b2))
      = take (tb_pos ?b2) (tb_mem ?b2) @ concat (map (take 2 \<circ> (\<lambda>c. sprintf_X 2 (scast c))) blob)"
    unfolding id_blob_text_def using p by (intro fold_sprintf_text) (simp_all add: length_sprintf_X_ge)
  moreover have "take 2 \<circ> (\<lambda>c. sprintf_X 2 (scast (c :: u8))) = id_byte_text"
    by (rule ext) (simp add: take_sprintf_X_scast)
  moreover have "length (tb_mem (id_blob_text blob ?b2)) = ?n"
    using p by (simp add: id_blob_text_def)
  ultimately show ?thesis using h p by (simp add: id_text_def)
qed

lemma crc32_eq_ref: "crc32 bs = crc_ref bs"
proof -
  have "(0xFFFFFFFF :: u32) = NOT 0" by simp
  then show ?thesis by (simp only: crc32_def crc_ref_def crc32_loop_eq)
qed

lemma id_byte_text_high: "128 \<le> unat c \<Longrightarrow> id_byte_text c = [70, 70]"
  by (simp add: id_byte_text_def)

lemma compareSrxUpdateID_zero: "compareSrxUpdateID u1 u2 = 0 \<longleftrightarrow> u1 = u2"
proof -
  have "length (mem_bytes32 u1) = length (mem_bytes32 u2)" by (simp add: mem_bytes32_def)
  then show ?thesis by (simp add: compareSrxUpdateID_def memcmp_eq_0_iff mem_bytes32_inject)
qed

text \<open>The prefix 10.1.2.0/24 and a path of two hops.\<close>

definition sample_prefix :: IPPrefix where
  "sample_prefix = \<lparr>ip = \<lparr>version = 4, addr = [10, 1, 2, 0] @ replicate 12 0\<rparr>, plength = 24\<rparr>"

definition sample_data :: BGPSecData where
  "sample_data = \<lparr>numberHops = 2, asPath = [100, 200], attr_length = 3, bafi = 1, bsafi = 1, breserved = 0,
     local_as = 65000, bgpsec_path_attr = None\<rparr>"

text \<open>A printed byte has two characters, or eight when it is sign extended. So the last \<open>sprintf\<close> writes between one and seven
  bytes behind the array.\<close>

lemma length_sprintf_scast: "length (sprintf_X 2 (scast (c :: u8))) \<in> {2, 8}"
proof (cases "unat c < 128")
  case True
  then show ?thesis by (simp add: length_sprintf_X_2 unat_scast_byte)
next
  case False
  have "unat c < 256" using unsigned_less [of c] by simp
  with False show ?thesis by (simp add: sprintf_X_def Let_def unat_scast_byte base_digits_high)
qed

lemma fold_sprintf_over:
  assumes "\<And>c. length (f c) \<le> k + j" "tb_pos b + k * length cs \<le> length (tb_mem b)" "tb_over b \<le> Suc j"
  shows "tb_over (fold (\<lambda>c. tb_sprintf (f c) k) cs b) \<le> Suc j"
  using assms(2,3)
proof (induction cs arbitrary: b)
  case (Cons c cs)
  have "tb_over (tb_sprintf (f c) k b) \<le> Suc j" using assms(1) [of c] Cons.prems by (simp add: tb_sprintf_over)
  then show ?case using Cons by (simp add: algebra_simps)
qed simp

lemma id_text_over:
  assumes ok: "addr_ok pfx"
  shows "1 \<le> tb_over (id_text originAS pfx blob)" "tb_over (id_text originAS pfx blob) \<le> 7"
proof -
  let ?b0 = "\<lparr>tb_mem = replicate (id_length pfx (length blob)) 0, tb_pos = 0, tb_over = 0\<rparr>"
  let ?b1 = "tb_sprintf (sprintf_X 8 originAS) 8 ?b0"
  have one: "tb_over ?b1 = 0" by (simp add: tb_sprintf_over length_sprintf_X_8 id_length_def)
  have two: "tb_over (id_prefix_text pfx ?b1) \<le> 1"
  proof (cases "version (ip pfx) = 4")
    case True
    then show ?thesis using one by (simp add: id_prefix_text_def tb_sprintf_over length_sprintf_X_8 sprintf_X_2_byte id_length_def)
  next
    case False
    let ?b2 = "fold (\<lambda>c. tb_sprintf (sprintf_X 2 (ucast c)) 2) (take 16 (addr (ip pfx))) ?b1"
    have "tb_over ?b2 \<le> Suc 0"
      using False ok one by (intro fold_sprintf_over) (simp_all add: sprintf_X_2_byte id_length_def addr_ok_def)
    then show ?thesis using False ok by (simp add: id_prefix_text_def tb_sprintf_over sprintf_X_2_byte id_length_def addr_ok_def)
  qed
  have eight: "length (sprintf_X 2 (scast (c :: u8))) \<le> 2 + 6" for c using length_sprintf_scast [of c] by auto
  have "tb_over (id_blob_text blob (id_prefix_text pfx ?b1)) \<le> Suc 6"
    unfolding id_blob_text_def using ok two by (intro fold_sprintf_over eight) (simp_all add: id_prefix_text_pos id_length_def)
  then show "tb_over (id_text originAS pfx blob) \<le> 7" by (simp add: id_text_def)
  show "1 \<le> tb_over (id_text originAS pfx blob)"
  proof (cases blob rule: rev_cases)
    case Nil
    then show ?thesis using ok
      by (simp add: id_text_def id_blob_text_def id_prefix_text_def tb_sprintf_over addr_ok_def id_length_def length_sprintf_X_8 sprintf_X_2_byte)
  next
    case (snoc cs c)
    have "2 \<le> length (sprintf_X 2 (scast c))" by (rule length_sprintf_X_ge)
    then show ?thesis using snoc ok
      by (auto simp: id_text_def id_blob_text_def id_prefix_text_pos tb_sprintf_over id_length_def intro: max.coboundedI2)
  qed
qed

text \<open>With seven spare bytes behind every array the identifier is the CRC-32 of the text of the update.\<close>

definition id_text_of :: "u32 \<Rightarrow> IPPrefix \<Rightarrow> BGPSecData \<Rightarrow> cstr" where
  "id_text_of originAS pfx d = id_header_text originAS pfx @ concat (map id_byte_text (take (snd (id_blob d)) (fst (id_blob d))))"

lemma generateIdentifier_roomy:
  assumes "addr_ok pfx" "snd (id_blob d) \<le> length (fst (id_blob d))" "\<forall>n. n + 7 \<le> room n"
  shows "generateIdentifier room originAS pfx d = Inr (crc_ref (id_text_of originAS pfx d))"
proof -
  have "n + tb_over (id_text originAS pfx blob) \<le> room n" for n blob
    using id_text_over(2) [OF assms(1), of originAS blob] assms(3) [rule_format, of n] by linarith
  then show ?thesis
    using assms(1,2) by (cases "id_blob d") (simp add: generateIdentifier_def id_text_mem crc32_eq_ref addr_ok_def Let_def id_text_of_def linorder_not_less)
qed

subsection \<open>Properties\<close>

text \<open>C40. \<open>crc32\<close> computes the CRC-32 of its input: the loop over the 256 entry table gives
  for every byte string the value of the bitwise division by the reflected polynomial
  \<open>0xEDB88320\<close>, started and finished with inverted bits.\<close>

theorem crc32_computes_crc: "crc32 bs = crc_ref bs"
  by (rule crc32_eq_ref)

text \<open>C32. The identifier of an update. For a prefix whose address has its 16 bytes and a path as long as announced, \<open>generateIdentifier\<close> writes at least one and at most seven bytes
  behind the array for its text: when the compiler reserves no more than the size of the array, every call overruns it. When at least seven more bytes are reserved, the call returns the CRC-32 of
  the hexadecimal text of origin AS, prefix, prefix length and path bytes, in which every path byte above \<open>0x7F\<close> reads \<open>FF\<close>.\<close>

theorem generateIdentifier_spec:
  assumes "addr_ok pfx" "snd (id_blob d) \<le> length (fst (id_blob d))"
  shows "((\<forall>n. room n = n) \<longrightarrow> generateIdentifier room originAS pfx d = Inl BufferOverflow) \<and>
    ((\<forall>n. n + 7 \<le> room n) \<longrightarrow> generateIdentifier room originAS pfx d = Inr (crc_ref (id_header_text originAS pfx @
      concat (map id_byte_text (take (snd (id_blob d)) (fst (id_blob d)))))))"
proof (intro conjI impI)
  assume room: "\<forall>n. room n = n"
  have "0 < tb_over (id_text originAS pfx blob)" for blob using id_text_over(1) [OF assms(1), of originAS blob] by simp
  then show "generateIdentifier room originAS pfx d = Inl BufferOverflow"
    using assms room by (cases "id_blob d") (simp add: generateIdentifier_def addr_ok_def Let_def)
next
  assume "\<forall>n. n + 7 \<le> room n"
  from generateIdentifier_roomy [OF assms this, of originAS]
  show "generateIdentifier room originAS pfx d = Inr (crc_ref (id_header_text originAS pfx @
      concat (map id_byte_text (take (snd (id_blob d)) (fst (id_blob d))))))" unfolding id_text_of_def .
qed

theorem generateIdentifier_spec_witness:
  "generateIdentifier (\<lambda>n. n) 64512 sample_prefix sample_data = Inl BufferOverflow \<and>
   generateIdentifier (\<lambda>n. n + 16) 64512 sample_prefix sample_data = Inr (crc_ref (id_header_text 64512 sample_prefix @
     concat (map id_byte_text [100, 0, 0, 0, 200, 0, 0, 0])))"
  using generateIdentifier_spec [of sample_prefix sample_data "\<lambda>n. n" 64512] generateIdentifier_spec [of sample_prefix sample_data "\<lambda>n. n + 16" 64512]
  by (simp add: addr_ok_def sample_prefix_def sample_data_def id_blob_def mem_bytes32_def)

text \<open>Two updates of the same prefix and origin get the same identifier whenever their BGPsec
  path attributes have the same length and differ only in bytes above \<open>0x7F\<close>: the identifier
  does not depend on the value of such a byte.\<close>

lemma generateIdentifier_high_bytes_collide:
  assumes "addr_ok pfx" "unat (attr_length d) = length b1" "\<forall>n. n + 7 \<le> room n"
    "list_all2 (\<lambda>x y. x = y \<or> 128 \<le> unat x \<and> 128 \<le> unat y) b1 b2"
  shows "generateIdentifier room originAS pfx (d\<lparr>bgpsec_path_attr := Some b1\<rparr>) =
         generateIdentifier room originAS pfx (d\<lparr>bgpsec_path_attr := Some b2\<rparr>)"
proof -
  have "map id_byte_text b1 = map id_byte_text b2"
    using assms(4) by (induction rule: list_all2_induct) (auto simp: id_byte_text_high)
  moreover have "length b1 = length b2" using assms(4) by (rule list_all2_lengthD)
  ultimately show ?thesis
    using assms(2) by (simp add: generateIdentifier_roomy [OF assms(1) _ assms(3)] id_text_of_def id_blob_def)
qed

text \<open>\<open>compareSrxUpdateID\<close> is zero exactly for equal identifiers, but its sign is not their
  numeric order: it compares the memory images from the least significant byte on, so 256
  counts as smaller than 1.\<close>

theorem compareSrxUpdateID_order:
  "(compareSrxUpdateID u1 u2 = 0 \<longleftrightarrow> u1 = u2) \<and> compareSrxUpdateID 256 1 < 0"
  by (simp add: compareSrxUpdateID_zero) (simp add: compareSrxUpdateID_def mem_bytes32_def)

end
