(* ===== verification/Rpki_Queue.thy ===== *)
theory Rpki_Queue
  imports Srx_Identifier
begin

text \<open>
  The queue of updates that wait for revalidation, \<open>server/rpki_queue.c\<close>. ROA, key and
  ASPA changes arriving from the validation cache put update identifiers into it; the end of data
  handler drains it. The linked list is owned by the queue and its nodes are not shared, so it is
  a list here; the semaphore and the 32 bit element counter are kept as they are.

  The contract of the queue is the locale \<open>coalescing_queue\<close>, with the traces of its
  operations proved once for every implementation; the functions of the source interpret it.
\<close>

section \<open>Data\<close>

definition RQ_ROA :: u32 where [simp]: "RQ_ROA = 1"
definition RQ_KEY :: u32 where [simp]: "RQ_KEY = 2"
definition RQ_BOTH :: u32 where [simp]: "RQ_BOTH = 3"
definition RQ_ASPA :: u32 where [simp]: "RQ_ASPA = 4"
definition RQ_ALL :: u32 where [simp]: "RQ_ALL = 7"

record RPKI_QUEUE_ELEM =
  reason :: u32
  updateID :: u32

record RPKI_QUEUE =
  head :: "RPKI_QUEUE_ELEM list"
  qsize :: u32
  semaphore :: nat

section \<open>Operations\<close>

text \<open>A null queue pointer is \<open>None\<close>. \<open>sem_wait\<close> on a semaphore at zero does not return.\<close>

definition rq_lock :: "RPKI_QUEUE option \<Rightarrow> (bool \<times> RPKI_QUEUE option) cres" where
  "rq_lock rQueue = (case rQueue of
      None \<Rightarrow> Inr (False, None)
    | Some q \<Rightarrow> if semaphore q = 0 then Inl LockBlocked
                else Inr (True, Some (q\<lparr>semaphore := semaphore q - 1\<rparr>)))"

definition rq_unlock :: "RPKI_QUEUE \<Rightarrow> bool \<times> RPKI_QUEUE" where
  "rq_unlock q = (if semaphore q = 0 then (True, q\<lparr>semaphore := 1\<rparr>) else (False, q))"

definition rq_createQueueElem :: "u32 \<Rightarrow> u32 \<Rightarrow> RPKI_QUEUE_ELEM" where
  "rq_createQueueElem r uid = \<lparr>reason = r, updateID = uid\<rparr>"

text \<open>The unsynchronised removal; \<open>elem\<close> is the caller's element, \<open>None\<close> for a null
  pointer, and comes back filled.\<close>

definition rq_dequeue_nolock ::
  "RPKI_QUEUE \<Rightarrow> RPKI_QUEUE_ELEM option \<Rightarrow> (bool \<times> RPKI_QUEUE \<times> RPKI_QUEUE_ELEM option) cres" where
  "rq_dequeue_nolock q elem =
     (if qsize q \<noteq> 0
      then (case (head q, elem) of
          ([], _) \<Rightarrow> Inl NullDeref
        | (_, None) \<Rightarrow> Inl NullDeref
        | (e # es, Some _) \<Rightarrow> Inr (True, q\<lparr>head := es, qsize := qsize q - 1\<rparr>, Some e))
      else Inr (False, q, elem))"

definition rq_createQueue :: "bool \<Rightarrow> RPKI_QUEUE option" where
  "rq_createQueue sem_init_ok =
     (if sem_init_ok then Some \<lparr>head = [], qsize = 0, semaphore = 1\<rparr> else None)"

text \<open>The walk of \<open>rq_queue\<close> through a list that is not empty; the flag tells whether an
  element was added.\<close>

fun rq_walk :: "u32 \<Rightarrow> u32 \<Rightarrow> RPKI_QUEUE_ELEM \<Rightarrow> RPKI_QUEUE_ELEM list \<Rightarrow> RPKI_QUEUE_ELEM list \<times> bool" where
  "rq_walk r uid e es =
     (if compareSrxUpdateID (updateID e) uid \<noteq> 0
      then (case es of
          [] \<Rightarrow> ([e, rq_createQueueElem r uid], True)
        | e' # es' \<Rightarrow> (let (l, added) = rq_walk r uid e' es' in (e # l, added)))
      else ((if reason e \<noteq> r then e\<lparr>reason := RQ_ALL\<rparr> else e) # es, False))"

declare rq_walk.simps [simp del]

definition rq_queue_body :: "u32 \<Rightarrow> u32 \<Rightarrow> RPKI_QUEUE \<Rightarrow> RPKI_QUEUE" where
  "rq_queue_body r uid q = (case head q of
      e # es \<Rightarrow> (let (l, added) = rq_walk r uid e es
                 in q\<lparr>head := l, qsize := (if added then qsize q + 1 else qsize q)\<rparr>)
    | [] \<Rightarrow> q\<lparr>head := [rq_createQueueElem r uid], qsize := qsize q + 1\<rparr>)"

definition rq_queue :: "RPKI_QUEUE option \<Rightarrow> u32 \<Rightarrow> u32 \<Rightarrow> RPKI_QUEUE option cres" where
  "rq_queue queue r uid =
     cbind (rq_lock queue) (\<lambda>(locked, q).
       Inr (if locked then map_option (\<lambda>q. snd (rq_unlock (rq_queue_body r uid q))) q else q))"

definition rq_dequeue ::
  "RPKI_QUEUE option \<Rightarrow> RPKI_QUEUE_ELEM option \<Rightarrow>
     (bool \<times> RPKI_QUEUE option \<times> RPKI_QUEUE_ELEM option) cres" where
  "rq_dequeue queue elem =
     cbind (rq_lock queue) (\<lambda>(locked, q). case q of
         None \<Rightarrow> Inr (False, None, elem)
       | Some q \<Rightarrow> cbind (rq_dequeue_nolock q elem) (\<lambda>(ret, q, elem).
                    Inr (ret, Some (snd (rq_unlock q)), elem)))"

lemma rq_dequeue_nolock_size:
  "rq_dequeue_nolock q elem = Inr (True, q', elem') \<Longrightarrow> unat (qsize q') < unat (qsize q)"
  by (auto simp: rq_dequeue_nolock_def unat_minus_one unat_gt_0 split: if_splits list.splits option.splits)

text \<open>The loop of \<open>rq_empty\<close>.\<close>

function rq_empty_loop :: "RPKI_QUEUE \<Rightarrow> RPKI_QUEUE_ELEM option \<Rightarrow> RPKI_QUEUE cres" where
  "rq_empty_loop q elem = (case rq_dequeue_nolock q elem of
      Inl f \<Rightarrow> Inl f
    | Inr (ret, q', elem') \<Rightarrow> if ret then rq_empty_loop q' elem' else Inr q')"
  by pat_completeness auto
termination
  by (relation "measure (\<lambda>(q, elem). unat (qsize q))") (auto dest: rq_dequeue_nolock_size)

declare rq_empty_loop.simps [simp del]

text \<open>The local variable that receives the removed elements starts with an unknown value.\<close>

definition rq_empty :: "RPKI_QUEUE_ELEM \<Rightarrow> RPKI_QUEUE option \<Rightarrow> RPKI_QUEUE option cres" where
  "rq_empty garbage queue =
     cbind (rq_lock queue) (\<lambda>(locked, q). case q of
         None \<Rightarrow> Inr None
       | Some q \<Rightarrow> cbind (rq_empty_loop q (Some garbage)) (\<lambda>q. Inr (Some (snd (rq_unlock q)))))"

text \<open>After the call there is no queue.\<close>

definition rq_releaseQueue :: "RPKI_QUEUE_ELEM \<Rightarrow> RPKI_QUEUE option \<Rightarrow> RPKI_QUEUE option cres" where
  "rq_releaseQueue garbage queue = (case queue of
      None \<Rightarrow> Inr None
    | Some q \<Rightarrow> cbind (rq_empty garbage (Some q)) (\<lambda>_. Inr None))"

text \<open>\<open>rq_size\<close> returns the counter as a signed integer.\<close>

definition rq_size :: "RPKI_QUEUE option \<Rightarrow> int" where
  "rq_size queue = (case queue of None \<Rightarrow> 0 | Some q \<Rightarrow> sint (qsize q))"


section \<open>The contract of a coalescing queue\<close>

text \<open>
  Abstractly the queue is a list of identifiers with the reason each is queued for. Entering an
  identifier that is queued already merges the reasons in place; a new one goes to the end.
\<close>

fun coalesce :: "('r \<Rightarrow> 'r \<Rightarrow> 'r) \<Rightarrow> 'i \<Rightarrow> 'r \<Rightarrow> ('i \<times> 'r) list \<Rightarrow> ('i \<times> 'r) list" where
  "coalesce merge i r [] = [(i, r)]"
| "coalesce merge i r ((j, s) # l) = (if j = i then (j, merge s r) # l else (j, s) # coalesce merge i r l)"

lemma coalesce_ids:
  "map fst (coalesce merge i r l) = (if i \<in> set (map fst l) then map fst l else map fst l @ [i])"
proof (induction l)
  case (Cons p l)
  then show ?case by (cases p) (simp del: set_map)
qed simp

lemma coalesce_set_ids [simp]: "fst ` set (coalesce merge i r l) = insert i (fst ` set l)"
  using arg_cong [OF coalesce_ids [of merge i r l], of set] by (auto split: if_splits)

lemma coalesce_distinct: "distinct (map fst l) \<Longrightarrow> distinct (map fst (coalesce merge i r l))"
  by (simp add: coalesce_ids)

lemma coalesce_lookup:
  "map_of (coalesce merge i r l) = (map_of l)(i \<mapsto> (case map_of l i of None \<Rightarrow> r | Some s \<Rightarrow> merge s r))"
  by (induction l) (auto split: option.splits)

lemma length_coalesce: "length (coalesce merge i r l) \<le> Suc (length l)"
  by (induction l) auto

text \<open>The calls the threads of the server make. Every call holds the semaphore from its beginning
  to its end, so an execution is a sequence of calls.\<close>

datatype ('r, 'i) queue_call = Notify 'r 'i | Take

fun notified :: "('r, 'i) queue_call list \<Rightarrow> 'i list" where
  "notified [] = []"
| "notified (Notify r i # cs) = i # notified cs"
| "notified (Take # cs) = notified cs"

fun run_calls ::
  "('q \<Rightarrow> 'r \<Rightarrow> 'i \<Rightarrow> 'q cres) \<Rightarrow> ('q \<Rightarrow> 'e option \<Rightarrow> (bool \<times> 'q \<times> 'e option) cres) \<Rightarrow> 'e \<Rightarrow>
     'q \<Rightarrow> ('r, 'i) queue_call list \<Rightarrow> ('q \<times> 'e list) cres" where
  "run_calls enq deq x q [] = Inr (q, [])"
| "run_calls enq deq x q (Notify r i # cs) = cbind (enq q r i) (\<lambda>q. run_calls enq deq x q cs)"
| "run_calls enq deq x q (Take # cs) = cbind (deq q (Some x)) (\<lambda>(ok, q, e).
     cbind (run_calls enq deq x q cs) (\<lambda>(q, out). Inr (q, if ok then the e # out else out)))"

locale coalescing_queue =
  fixes enq :: "'q \<Rightarrow> 'r \<Rightarrow> 'i \<Rightarrow> 'q cres"
    and deq :: "'q \<Rightarrow> 'e option \<Rightarrow> (bool \<times> 'q \<times> 'e option) cres"
    and entries :: "'q \<Rightarrow> ('i \<times> 'r) list"
    and ent :: "'e \<Rightarrow> 'i \<times> 'r"
    and merge :: "'r \<Rightarrow> 'r \<Rightarrow> 'r"
    and inv :: "'q \<Rightarrow> bool"
    and room :: nat
  assumes inv_distinct: "inv q \<Longrightarrow> distinct (map fst (entries q))"
    and enq_ok: "inv q \<Longrightarrow> length (entries q) < room \<Longrightarrow>
      \<exists>q'. enq q r i = Inr q' \<and> inv q' \<and> entries q' = coalesce merge i r (entries q)"
    and deq_empty: "inv q \<Longrightarrow> entries q = [] \<Longrightarrow> deq q (Some x) = Inr (False, q, Some x)"
    and deq_next: "inv q \<Longrightarrow> entries q = p # ps \<Longrightarrow>
      \<exists>q' e. deq q (Some x) = Inr (True, q', Some e) \<and> ent e = p \<and> inv q' \<and> entries q' = ps"
begin

lemma run_ok:
  "inv q \<Longrightarrow> length (entries q) + length (notified cs) \<le> room \<Longrightarrow>
   \<exists>q' out. run_calls enq deq x q cs = Inr (q', out) \<and> inv q' \<and>
     fst ` ent ` set out \<union> fst ` set (entries q') = fst ` set (entries q) \<union> set (notified cs)"
proof (induction cs arbitrary: q)
  case (Cons c cs)
  show ?case
  proof (cases c)
    case (Notify r i)
    with Cons.prems obtain q1 where q1: "enq q r i = Inr q1" "inv q1"
      "entries q1 = coalesce merge i r (entries q)"
      using enq_ok [of q r i] by auto
    have "length (entries q1) + length (notified cs) \<le> room"
      using Cons.prems Notify q1 length_coalesce [of merge i r "entries q"] by simp
    with Cons.IH [OF q1(2)] q1 Notify show ?thesis by auto
  next
    case Take
    show ?thesis
    proof (cases "entries q")
      case Nil
      then have "deq q (Some x) = Inr (False, q, Some x)" using Cons.prems deq_empty by blast
      moreover obtain q' out where "run_calls enq deq x q cs = Inr (q', out)" "inv q'"
        "fst ` ent ` set out \<union> fst ` set (entries q') = fst ` set (entries q) \<union> set (notified cs)"
        using Cons.IH [of q] Cons.prems Take by auto
      ultimately show ?thesis using Take by simp
    next
      case (Cons p ps)
      with Cons.prems obtain q1 e where "deq q (Some x) = Inr (True, q1, Some e)" "ent e = p"
        "inv q1" "entries q1 = ps"
        using deq_next by blast
      with Cons.IH [of q1] Cons.prems Cons Take show ?thesis by fastforce
    qed
  qed
qed simp

lemma drained:
  "inv q \<Longrightarrow> \<exists>q' out. run_calls enq deq x q (replicate n Take) = Inr (q', out) \<and> inv q' \<and>
     map ent out = take n (entries q) \<and> entries q' = drop n (entries q)"
proof (induction n arbitrary: q)
  case (Suc n)
  show ?case
  proof (cases "entries q")
    case Nil
    with Suc deq_empty [of q x] show ?thesis by fastforce
  next
    case (Cons p ps)
    with Suc.prems obtain q1 e where "deq q (Some x) = Inr (True, q1, Some e)" "ent e = p"
      "inv q1" "entries q1 = ps"
      using deq_next by blast
    with Suc.IH [of q1] Cons show ?thesis by fastforce
  qed
qed simp

lemma notify_all:
  "inv q \<Longrightarrow> length (entries q) + length ns \<le> room \<Longrightarrow>
   \<exists>q'. run_calls enq deq x q (map (\<lambda>(r, i). Notify r i) ns) = Inr (q', []) \<and> inv q' \<and>
     entries q' = fold (\<lambda>(r, i). coalesce merge i r) ns (entries q)"
proof (induction ns arbitrary: q)
  case (Cons n ns)
  obtain r i where n: "n = (r, i)" by (cases n)
  from Cons.prems obtain q1 where q1: "enq q r i = Inr q1" "inv q1"
    "entries q1 = coalesce merge i r (entries q)"
    using enq_ok [of q r i] by auto
  have "length (entries q1) + length ns \<le> room"
    using Cons.prems q1 length_coalesce [of merge i r "entries q"] by simp
  with Cons.IH [OF q1(2)] q1 n show ?case by auto
qed simp

end

section \<open>The source implements the contract\<close>

definition rq_entries :: "RPKI_QUEUE option \<Rightarrow> (u32 \<times> u32) list" where
  "rq_entries queue = (case queue of None \<Rightarrow> [] | Some q \<Rightarrow> map (\<lambda>e. (updateID e, reason e)) (head q))"

definition rq_merge :: "u32 \<Rightarrow> u32 \<Rightarrow> u32" where
  "rq_merge s r = (if s \<noteq> r then RQ_ALL else s)"

text \<open>The queue exists, its lock is free, the counter counts, no identifier occurs twice.\<close>

definition rq_inv :: "RPKI_QUEUE option \<Rightarrow> bool" where
  "rq_inv queue \<longleftrightarrow> (case queue of None \<Rightarrow> False | Some q \<Rightarrow>
     semaphore q = 1 \<and> qsize q = of_nat (length (head q)) \<and> length (head q) < 2 ^ 32 \<and>
     distinct (map updateID (head q)))"

lemma rq_invE:
  assumes "rq_inv queue"
  obtains q where "queue = Some q" "semaphore q = 1" "qsize q = of_nat (length (head q))"
    "length (head q) < 2 ^ 32" "distinct (map updateID (head q))"
  using assms by (auto simp: rq_inv_def split: option.splits)

lemma rq_entries_ids: "map fst (map (\<lambda>e. (updateID e, reason e)) es) = map updateID es"
  by (simp add: comp_def)

lemma rq_walk_cases:
  "updateID e = uid \<Longrightarrow> rq_walk r uid e es = (e\<lparr>reason := rq_merge (reason e) r\<rparr> # es, False)"
  "updateID e \<noteq> uid \<Longrightarrow> rq_walk r uid e [] = ([e, rq_createQueueElem r uid], True)"
  "updateID e \<noteq> uid \<Longrightarrow> rq_walk r uid e (e' # es) =
     (e # fst (rq_walk r uid e' es), snd (rq_walk r uid e' es))"
  by (subst rq_walk.simps; auto simp: compareSrxUpdateID_zero rq_merge_def split: prod.split)+

lemma rq_walk_coalesce:
  "map (\<lambda>e. (updateID e, reason e)) (fst (rq_walk r uid e es)) =
     coalesce rq_merge uid r (map (\<lambda>e. (updateID e, reason e)) (e # es))"
  by (induction es arbitrary: e; case_tac "updateID e = uid")
    (simp_all add: rq_walk_cases rq_createQueueElem_def)

lemma rq_walk_added:
  "length (fst (rq_walk r uid e es)) = (if snd (rq_walk r uid e es) then 1 else 0) + length (e # es)"
  by (induction es arbitrary: e; case_tac "updateID e = uid") (simp_all add: rq_walk_cases)

lemma rq_queue_body_head:
  "map (\<lambda>e. (updateID e, reason e)) (head (rq_queue_body r uid q)) =
     coalesce rq_merge uid r (map (\<lambda>e. (updateID e, reason e)) (head q))"
proof (cases "head q")
  case (Cons e es)
  with rq_walk_coalesce [of r uid e es] show ?thesis
    by (simp add: rq_queue_body_def case_prod_beta)
qed (simp add: rq_queue_body_def rq_createQueueElem_def)

lemma rq_queue_body_size:
  "qsize q = of_nat (length (head q)) \<Longrightarrow>
   qsize (rq_queue_body r uid q) = of_nat (length (head (rq_queue_body r uid q)))"
  "semaphore (rq_queue_body r uid q) = semaphore q"
proof (cases "head q")
  case (Cons e es)
  assume "qsize q = of_nat (length (head q))"
  with Cons rq_walk_added [of r uid e es]
  show "qsize (rq_queue_body r uid q) = of_nat (length (head (rq_queue_body r uid q)))"
    by (simp add: rq_queue_body_def case_prod_beta)
qed (simp_all add: rq_queue_body_def case_prod_beta split: list.split)

lemma rq_queue_unfold:
  "semaphore q = 1 \<Longrightarrow> rq_queue (Some q) r uid = Inr (Some ((rq_queue_body r uid (q\<lparr>semaphore := 0\<rparr>))\<lparr>semaphore := 1\<rparr>))"
  by (simp add: rq_queue_def rq_lock_def rq_unlock_def rq_queue_body_size)

lemma rq_queue_contract:
  assumes "rq_inv queue" "length (rq_entries queue) < 2 ^ 32 - 1"
  shows "\<exists>q'. rq_queue queue r uid = Inr q' \<and> rq_inv q' \<and>
           rq_entries q' = coalesce rq_merge uid r (rq_entries queue)"
proof -
  from assms(1) obtain q where q: "queue = Some q" "semaphore q = 1"
    "qsize q = of_nat (length (head q))" "distinct (map updateID (head q))"
    by (rule rq_invE)
  let ?q = "(rq_queue_body r uid (q\<lparr>semaphore := 0\<rparr>))\<lparr>semaphore := 1\<rparr>"
  have e: "rq_entries (Some ?q) = coalesce rq_merge uid r (rq_entries queue)"
    using rq_queue_body_head [of r uid "q\<lparr>semaphore := 0\<rparr>"] q(1) by (simp add: rq_entries_def)
  have "length (rq_entries (Some ?q)) < 2 ^ 32"
    using length_coalesce [of rq_merge uid r "rq_entries queue"] assms(2) e by simp
  moreover have "distinct (map fst (rq_entries (Some ?q)))"
    using q coalesce_distinct [of "rq_entries queue"] unfolding e by (simp add: rq_entries_def comp_def)
  ultimately have "rq_inv (Some ?q)"
    using q(3) rq_queue_body_size(1) [of "q\<lparr>semaphore := 0\<rparr>" r uid]
    by (simp add: rq_inv_def rq_entries_def comp_def)
  with e q show ?thesis by (auto simp: rq_queue_unfold)
qed

lemma rq_dequeue_unfold:
  "semaphore q = 1 \<Longrightarrow> qsize q = of_nat (length (head q)) \<Longrightarrow> length (head q) < 2 ^ 32 \<Longrightarrow>
   rq_dequeue (Some q) (Some x) = Inr (case head q of
       [] \<Rightarrow> (False, Some q, Some x)
     | e # es \<Rightarrow> (True, Some (q\<lparr>head := es, qsize := of_nat (length es)\<rparr>), Some e))"
  using of_nat_u32_eq_0_iff [of "length (head q)"]
  by (cases "head q") (auto simp: rq_dequeue_def rq_lock_def rq_unlock_def rq_dequeue_nolock_def)

interpretation rq: coalescing_queue rq_queue rq_dequeue rq_entries "\<lambda>e. (updateID e, reason e)"
  rq_merge rq_inv "2 ^ 32 - 1"
proof
  fix q :: "RPKI_QUEUE option"
  assume inv: "rq_inv q"
  then show "distinct (map fst (rq_entries q))"
    by (auto elim!: rq_invE simp: rq_entries_def comp_def)
  fix r i
  assume "length (rq_entries q) < 2 ^ 32 - 1"
  with inv show "\<exists>q'. rq_queue q r i = Inr q' \<and> rq_inv q' \<and>
      rq_entries q' = coalesce rq_merge i r (rq_entries q)"
    by (rule rq_queue_contract)
next
  fix q :: "RPKI_QUEUE option" and x
  assume "rq_inv q" "rq_entries q = []"
  then show "rq_dequeue q (Some x) = Inr (False, q, Some x)"
    by (auto elim!: rq_invE simp: rq_entries_def rq_dequeue_unfold)
next
  fix q :: "RPKI_QUEUE option" and p ps x
  assume "rq_inv q" "rq_entries q = p # ps"
  then show "\<exists>q' e. rq_dequeue q (Some x) = Inr (True, q', Some e) \<and>
      (updateID e, reason e) = p \<and> rq_inv q' \<and> rq_entries q' = ps"
    by (elim rq_invE) (auto simp: rq_entries_def rq_dequeue_unfold rq_inv_def)
qed

lemma rq_create_inv: "rq_inv (rq_createQueue True)" "rq_entries (rq_createQueue True) = []"
  by (simp_all add: rq_inv_def rq_createQueue_def rq_entries_def)

lemma rq_empty_loop_ok:
  "qsize q = of_nat (length (head q)) \<Longrightarrow> length (head q) < 2 ^ 32 \<Longrightarrow>
   rq_empty_loop q (Some x) = Inr (q\<lparr>head := [], qsize := 0\<rparr>)"
proof (induction "head q" arbitrary: q x)
  case Nil
  then show ?case by (subst rq_empty_loop.simps) (simp add: rq_dequeue_nolock_def)
next
  case (Cons e es)
  let ?q = "q\<lparr>head := es, qsize := of_nat (length es)\<rparr>"
  have "rq_dequeue_nolock q (Some x) = Inr (True, ?q, Some e)"
    using Cons.prems of_nat_u32_eq_0_iff [of "length (head q)"] Cons.hyps(2) [symmetric]
    by (auto simp: rq_dequeue_nolock_def)
  moreover have "rq_empty_loop ?q (Some e) = Inr (?q\<lparr>head := [], qsize := 0\<rparr>)"
    using Cons.prems Cons.hyps(2) [symmetric] by (intro Cons.hyps(1)) simp_all
  ultimately show ?case by (subst rq_empty_loop.simps) simp
qed

section \<open>Properties\<close>

text \<open>The reason \<open>s\<close> covers the reason \<open>r\<close>: it has all bits of \<open>r\<close>, which is what the
  end of data handler tests.\<close>

definition covers :: "u32 \<Rightarrow> u32 \<Rightarrow> bool" where
  "covers s r \<longleftrightarrow> s AND r = r"

definition rq_reasons :: "u32 list" where
  "rq_reasons = [RQ_ROA, RQ_KEY, RQ_BOTH, RQ_ASPA, RQ_ALL]"

lemma rq_merge_covers:
  "s \<in> set rq_reasons \<Longrightarrow> r \<in> set rq_reasons \<Longrightarrow>
   rq_merge s r \<in> set rq_reasons \<and> covers (rq_merge s r) s \<and> covers (rq_merge s r) r"
  by (auto simp: rq_reasons_def rq_merge_def covers_def)

lemma covers_trans: "covers a b \<Longrightarrow> covers b c \<Longrightarrow> covers a c"
  by (metis covers_def and.assoc)

text \<open>The queue after the notifications \<open>ns\<close>, in their order.\<close>

definition coalesced :: "(u32 \<times> u32) list \<Rightarrow> (u32 \<times> u32) list" where
  "coalesced ns = fold (\<lambda>(r, i). coalesce rq_merge i r) ns []"

lemma coalesced_snoc: "coalesced (ns @ [(r, i)]) = coalesce rq_merge i r (coalesced ns)"
  by (simp add: coalesced_def)

lemma coalesced_ids: "map fst (coalesced ns) = rev (remdups (rev (map snd ns)))"
proof (induction ns rule: rev_induct)
  case (snoc n ns)
  have "set (map fst (coalesced ns)) = snd ` set ns" using snoc by simp
  with snoc show ?case
    by (cases n) (auto simp: coalesced_snoc coalesce_ids simp del: set_map)
qed (simp add: coalesced_def)

lemma coalesced_reasons:
  "fst ` set ns \<subseteq> set rq_reasons \<Longrightarrow> map_of (coalesced ns) i = Some s \<Longrightarrow> s \<in> set rq_reasons"
proof (induction ns arbitrary: i s rule: rev_induct)
  case (snoc n ns)
  then show ?case
    using rq_merge_covers
    by (cases n) (auto simp: coalesced_snoc coalesce_lookup split: if_splits option.splits)
qed (simp add: coalesced_def)

lemma coalesced_covers:
  "fst ` set ns \<subseteq> set rq_reasons \<Longrightarrow> (r, i) \<in> set ns \<Longrightarrow> \<exists>s. map_of (coalesced ns) i = Some s \<and> covers s r"
proof (induction ns arbitrary: r i rule: rev_induct)
  case (snoc n ns)
  obtain r' i' where n: "n = (r', i')" by (cases n)
  have sub: "fst ` set ns \<subseteq> set rq_reasons" "r' \<in> set rq_reasons" using snoc.prems n by auto
  note merge = rq_merge_covers [OF coalesced_reasons [OF sub(1)] sub(2)]
  show ?case
  proof (cases "(r, i) \<in> set ns")
    case True
    with snoc.IH sub obtain s where s: "map_of (coalesced ns) i = Some s" "covers s r" by blast
    then have "covers (rq_merge s r') r" using merge [of i s] covers_trans by blast
    with s show ?thesis by (auto simp: n coalesced_snoc coalesce_lookup)
  next
    case False
    with snoc.prems n have eq: "r' = r" "i' = i" by auto
    have "covers r r" by (simp add: covers_def)
    with merge [of i] eq show ?thesis
      by (auto simp: n coalesced_snoc coalesce_lookup split: option.split)
  qed
qed simp

text \<open>C20. The threads that notify and the one that drains cannot lose an update: for every
  sequence of fewer than \<open>2 ^ 32\<close> \<open>rq_queue\<close> calls and any number of \<open>rq_dequeue\<close>
  calls on a new queue every call returns, the lock is free again, the counter is the length of the
  list, no identifier is queued twice, and the identifiers that were handed out or are still queued
  are exactly the notified ones.\<close>

theorem rq_no_update_lost:
  assumes "length (notified cs) < 2 ^ 32"
  shows "\<exists>q out. run_calls rq_queue rq_dequeue x (rq_createQueue True) cs = Inr (q, out) \<and> rq_inv q \<and>
    updateID ` set out \<union> fst ` set (rq_entries q) = set (notified cs)"
  using rq.run_ok [of "rq_createQueue True" cs x] assms
  by (simp add: rq_create_inv image_image)

theorem rq_no_update_lost_witness:
  "\<exists>q out. run_calls rq_queue rq_dequeue (\<lparr>reason = 0, updateID = 0\<rparr>) (rq_createQueue True)
       [Notify RQ_ROA 7, Notify RQ_KEY 9, Take, Notify RQ_ROA 7] = Inr (q, out) \<and> rq_inv q \<and>
    updateID ` set out \<union> fst ` set (rq_entries q) = {7, 9}"
  using rq_no_update_lost [of "[Notify RQ_ROA 7, Notify RQ_KEY 9, Take, Notify RQ_ROA 7]" "\<lparr>reason = 0, updateID = 0\<rparr>"]
  by (simp add: insert_commute)

text \<open>Draining after a batch of notifications hands out every notified update once, in the
  order of the first notification, and its reason has all bits of every reason the update was
  notified for.\<close>

lemma rq_drain_after_notifications:
  assumes "length ns < 2 ^ 32" "length ns \<le> n" "fst ` set ns \<subseteq> set rq_reasons"
  shows "\<exists>q q' out.
    run_calls rq_queue rq_dequeue x (rq_createQueue True) (map (\<lambda>(r, i). Notify r i) ns) = Inr (q, []) \<and>
    run_calls rq_queue rq_dequeue x q (replicate n Take) = Inr (q', out) \<and> rq_entries q' = [] \<and>
    map updateID out = rev (remdups (rev (map snd ns))) \<and>
    (\<forall>(r, i) \<in> set ns. \<exists>e \<in> set out. updateID e = i \<and> covers (reason e) r)"
proof -
  obtain q where q: "run_calls rq_queue rq_dequeue x (rq_createQueue True) (map (\<lambda>(r, i). Notify r i) ns) = Inr (q, [])"
    "rq_inv q" "rq_entries q = coalesced ns"
    using rq.notify_all [of "rq_createQueue True" ns x] assms(1) by (auto simp: rq_create_inv coalesced_def)
  obtain q' out where out: "run_calls rq_queue rq_dequeue x q (replicate n Take) = Inr (q', out)"
    "map (\<lambda>e. (updateID e, reason e)) out = take n (coalesced ns)" "rq_entries q' = drop n (coalesced ns)"
    using rq.drained [OF q(2), of x n] q(3) by auto
  have "length (coalesced ns) = length (remdups (rev (map snd ns)))"
    using arg_cong [OF coalesced_ids [of ns], of length] by simp
  also have "\<dots> \<le> length ns" using length_remdups_leq [of "rev (map snd ns)"] by simp
  finally have len: "length (coalesced ns) \<le> n" using assms(2) by simp
  then have ents: "map (\<lambda>e. (updateID e, reason e)) out = coalesced ns" using out(2) by simp
  then have ids: "map updateID out = rev (remdups (rev (map snd ns)))"
    using coalesced_ids [of ns] by (metis (no_types, lifting) comp_def fst_conv map_map map_eq_conv)
  have "\<exists>e \<in> set out. updateID e = i \<and> covers (reason e) r" if notified: "(r, i) \<in> set ns" for r i
  proof -
    obtain s where "map_of (coalesced ns) i = Some s" "covers s r"
      using coalesced_covers [OF assms(3) notified] by blast
    then have "(i, s) \<in> set (map (\<lambda>e. (updateID e, reason e)) out)" unfolding ents by (simp add: map_of_SomeD)
    with \<open>covers s r\<close> show ?thesis by auto
  qed
  with q out ids len show ?thesis by auto
qed

theorem rq_drain_after_notifications_witness:
  "\<exists>q q' out.
    run_calls rq_queue rq_dequeue (\<lparr>reason = 0, updateID = 0\<rparr>) (rq_createQueue True)
      (map (\<lambda>(r, i). Notify r i) [(RQ_ROA, 7), (RQ_KEY, 9), (RQ_KEY, 7)]) = Inr (q, []) \<and>
    run_calls rq_queue rq_dequeue (\<lparr>reason = 0, updateID = 0\<rparr>) q (replicate 3 Take) = Inr (q', out) \<and> rq_entries q' = [] \<and>
    map updateID out = [7, 9] \<and>
    (\<exists>e \<in> set out. updateID e = 7 \<and> covers (reason e) RQ_ROA)"
  using rq_drain_after_notifications [of "[(RQ_ROA, 7), (RQ_KEY, 9), (RQ_KEY, 7)]" 3 "\<lparr>reason = 0, updateID = 0\<rparr>"]
  by (fastforce simp: rq_reasons_def)

text \<open>\<open>rq_empty\<close> returns on every queue whose counter is right and whose lock is free, with
  all elements gone and the lock free.\<close>

theorem rq_empty_empties:
  assumes "rq_inv queue"
  shows "\<exists>q. rq_empty garbage queue = Inr q \<and> rq_inv q \<and> rq_entries q = [] \<and> rq_size q = 0"
  using assms
  by (elim rq_invE)
    (auto simp: rq_empty_def rq_lock_def rq_unlock_def rq_empty_loop_ok rq_inv_def rq_entries_def rq_size_def)

theorem rq_empty_empties_witness:
  "\<exists>q. rq_empty \<lparr>reason = 0, updateID = 0\<rparr> (Some \<lparr>head = [\<lparr>reason = RQ_ROA, updateID = 7\<rparr>], qsize = 1, semaphore = 1\<rparr>) = Inr q \<and>
     rq_inv q \<and> rq_entries q = [] \<and> rq_size q = 0"
  using rq_empty_empties [of "Some \<lparr>head = [\<lparr>reason = RQ_ROA, updateID = 7\<rparr>], qsize = 1, semaphore = 1\<rparr>"
      "\<lparr>reason = 0, updateID = 0\<rparr>"]
  by (simp add: rq_inv_def)

end
