(* ===== verification/Fifo_Store.thy ===== *)
theory Fifo_Store
  imports Prelude
begin

text \<open>
  The contract of a queue in memory: elements are appended and taken out in the same order. The linked list and the packet queues
  of the server fulfil it. \<open>mem\<close> is what an addition takes from the allocator; \<open>used\<close> says what is in use.
\<close>

fun add_all :: "('m \<Rightarrow> 's \<Rightarrow> 'd \<Rightarrow> (bool \<times> 's) cres) \<Rightarrow> 's \<Rightarrow> ('m \<times> 'd) list \<Rightarrow> 's cres" where
  "add_all add s [] = Inr s"
| "add_all add s ((m, d) # ds) = cbind (add m s d) (\<lambda>(ok, s). add_all add s ds)"

fun shift_n :: "('s \<Rightarrow> ('d \<times> 's) cres) \<Rightarrow> 's \<Rightarrow> nat \<Rightarrow> ('d list \<times> 's) cres" where
  "shift_n shift s 0 = Inr ([], s)"
| "shift_n shift s (Suc k) = cbind (shift s) (\<lambda>(d, s). cbind (shift_n shift s k) (\<lambda>(ds, s). Inr (d # ds, s)))"

locale fifo_store =
  fixes inv :: "'s \<Rightarrow> bool"
    and items :: "'s \<Rightarrow> 'd list"
    and used :: "'s \<Rightarrow> 'm set"
    and null :: "'m"
    and add :: "'m \<Rightarrow> 's \<Rightarrow> 'd \<Rightarrow> (bool \<times> 's) cres"
    and shift :: "'s \<Rightarrow> ('d \<times> 's) cres"
  assumes add_ok: "inv s \<Longrightarrow> m \<notin> used s \<Longrightarrow> m \<noteq> null \<Longrightarrow>
      \<exists>s'. add m s d = Inr (True, s') \<and> inv s' \<and> items s' = items s @ [d] \<and> used s' = insert m (used s)"
    and shift_ok: "inv s \<Longrightarrow> items s = d # ds \<Longrightarrow> \<exists>s'. shift s = Inr (d, s') \<and> inv s' \<and> items s' = ds"
begin

lemma add_all_ok:
  "inv s \<Longrightarrow> distinct (map fst mds) \<Longrightarrow> fst ` set mds \<inter> used s = {} \<Longrightarrow> null \<notin> fst ` set mds \<Longrightarrow>
   \<exists>s'. add_all add s mds = Inr s' \<and> inv s' \<and> items s' = items s @ map snd mds"
proof (induction mds arbitrary: s)
  case (Cons md mds)
  obtain m d where md: "md = (m, d)" by (cases md)
  have fresh: "m \<notin> used s" "m \<noteq> null" using Cons.prems md by auto
  obtain s1 where s1: "add m s d = Inr (True, s1)" "inv s1" "items s1 = items s @ [d]" "used s1 = insert m (used s)"
    using add_ok [OF Cons.prems(1) fresh, of d] by blast
  have "distinct (map fst mds)" "fst ` set mds \<inter> used s1 = {}" "null \<notin> fst ` set mds"
    using Cons.prems md s1(4) by auto
  from Cons.IH [OF s1(2) this] s1 md show ?case by auto
qed simp

lemma shift_all:
  "inv s \<Longrightarrow> k \<le> length (items s) \<Longrightarrow>
   \<exists>s'. shift_n shift s k = Inr (take k (items s), s') \<and> inv s' \<and> items s' = drop k (items s)"
proof (induction k arbitrary: s)
  case (Suc k)
  then obtain d ds where ds: "items s = d # ds" by (cases "items s") auto
  with Suc.prems obtain s1 where "shift s = Inr (d, s1)" "inv s1" "items s1 = ds"
    using shift_ok by blast
  with Suc ds show ?case by fastforce
qed simp

text \<open>The list is a queue: what was added is taken out in the same order.\<close>

lemma fifo:
  assumes "inv s" "items s = []" "distinct (map fst mds)" "fst ` set mds \<inter> used s = {}" "null \<notin> fst ` set mds"
  shows "\<exists>s1 s2. add_all add s mds = Inr s1 \<and> shift_n shift s1 (length mds) = Inr (map snd mds, s2) \<and>
    inv s2 \<and> items s2 = []"
proof -
  obtain s1 where s1: "add_all add s mds = Inr s1" "inv s1" "items s1 = map snd mds"
    using add_all_ok [OF assms(1,3-5)] assms(2) by auto
  obtain s2 where "shift_n shift s1 (length mds) = Inr (map snd mds, s2)" "inv s2" "items s2 = []"
    using shift_all [OF s1(2), of "length mds"] s1(3) by auto
  with s1 show ?thesis by blast
qed

end

end
