(* ===== verification/SList.thy ===== *)
theory SList
  imports Fifo_Store
begin

text \<open>
  The singly linked list of \<open>util/slist.c\<close> on an explicit heap: nodes are records at addresses
  (0 is the null pointer), \<open>malloc\<close> is an argument of the allocating functions (\<open>None\<close> for
  exhausted memory, otherwise the new address), and reading a node that was freed or never allocated
  is a fault. The loops follow the \<open>next\<close> pointers and are \<open>partial_function\<close>s: on a cyclic
  list they have no value.

  The refinement relation \<open>slist_ok\<close> connects the heap with the list of node addresses; each
  operation is proved against the corresponding operation on lists, and the locale
  \<open>sequence_store\<close> states what the caches rely on.
\<close>

section \<open>Data\<close>

record SListNode =
  ndata :: addr
  allocSize :: nat
  nnext :: addr

record SList =
  root :: addr
  last_node :: addr
  lsize :: int

text \<open>The nodes, and the data blocks the list itself allocated.\<close>

record sl_heap =
  nodes :: "addr \<rightharpoonup> SListNode"
  blocks :: "addr set"

definition rd :: "sl_heap \<Rightarrow> addr \<Rightarrow> SListNode cres" where
  "rd h p = (case nodes h p of
      Some n \<Rightarrow> if p = 0 then Inl NullDeref else Inr n
    | None \<Rightarrow> Inl (if p = 0 then NullDeref else UseAfterFree))"

definition wr :: "addr \<Rightarrow> SListNode \<Rightarrow> sl_heap \<Rightarrow> sl_heap" where
  "wr p n h = h\<lparr>nodes := (nodes h)(p \<mapsto> n)\<rparr>"

definition free_node :: "addr \<Rightarrow> sl_heap \<Rightarrow> sl_heap" where
  "free_node p h = h\<lparr>nodes := (nodes h)(p := None)\<rparr>"

section \<open>Operations\<close>

text \<open>\<open>initSList\<close> leaves the last pointer as it is.\<close>

definition initSList :: "SList \<Rightarrow> SList" where
  "initSList self = self\<lparr>root := 0, lsize := 0\<rparr>"

partial_function (option) release_loop :: "sl_heap \<Rightarrow> addr \<Rightarrow> sl_heap cres option" where
  "release_loop h nextNode =
     (if nextNode = 0 then Some (Inr h)
      else case rd h nextNode of
          Inl f \<Rightarrow> Some (Inl f)
        | Inr n \<Rightarrow> release_loop
            (free_node nextNode (if allocSize n > 0 then h\<lparr>blocks := blocks h - {ndata n}\<rparr> else h)) (nnext n))"

definition releaseSList :: "sl_heap \<Rightarrow> SList \<Rightarrow> sl_heap cres option" where
  "releaseSList h self = (if lsize self > 0 then release_loop h (root self) else Some (Inr h))"

definition emptySList :: "sl_heap \<Rightarrow> SList \<Rightarrow> (sl_heap \<times> SList) cres option" where
  "emptySList h self = map_option (\<lambda>r. cbind r (\<lambda>h. Inr (h, initSList self))) (releaseSList h self)"

definition sizeOfSList :: "SList \<Rightarrow> int" where
  "sizeOfSList self = lsize self"

text \<open>The walk to the predecessor: \<open>for (index--; index > 0; index--) prevNode = prevNode->next\<close>.\<close>

fun walk :: "sl_heap \<Rightarrow> addr \<Rightarrow> nat \<Rightarrow> addr cres" where
  "walk h p 0 = Inr p"
| "walk h p (Suc k) = cbind (rd h p) (\<lambda>n. walk h (nnext n) k)"

text \<open>Linking the new node in at an index.\<close>

definition link_node :: "sl_heap \<Rightarrow> SList \<Rightarrow> int \<Rightarrow> addr \<Rightarrow> SListNode \<Rightarrow> (sl_heap \<times> SList) cres" where
  "link_node h self index a newNode =
     (if index = 0
      then Inr (wr a (newNode\<lparr>nnext := root self\<rparr>) h,
                self\<lparr>last_node := (if root self = 0 then a else last_node self), root := a\<rparr>)
      else if index = lsize self
      then cbind (rd h (last_node self)) (\<lambda>l.
             Inr (wr a (newNode\<lparr>nnext := 0\<rparr>) (wr (last_node self) (l\<lparr>nnext := a\<rparr>) h), self\<lparr>last_node := a\<rparr>))
      else cbind (walk h (root self) (nat (index - 1))) (\<lambda>p. cbind (rd h p) (\<lambda>prev.
             Inr (wr p (prev\<lparr>nnext := a\<rparr>) (wr a (newNode\<lparr>nnext := nnext prev\<rparr>) h), self))))"

text \<open>The result pointer is the data block when one was allocated, else the node.\<close>

definition insertIntoSList ::
  "addr option \<Rightarrow> addr option \<Rightarrow> sl_heap \<Rightarrow> SList \<Rightarrow> int \<Rightarrow> nat \<Rightarrow> (addr \<times> sl_heap \<times> SList) cres" where
  "insertIntoSList malloc1 malloc2 h self index dataSize =
     (if index > lsize self then Inr (0, h, self)
      else case malloc1 of
          None \<Rightarrow> Inr (0, h, self)
        | Some a \<Rightarrow>
            (case (if dataSize > 0 then malloc2 else Some 0) of
               None \<Rightarrow> Inr (0, h, self)
             | Some d \<Rightarrow>
                 let newNode = \<lparr>ndata = d, allocSize = dataSize, nnext = 0\<rparr>;
                     h = (if dataSize > 0 then h\<lparr>blocks := insert d (blocks h)\<rparr> else h)
                 in cbind (link_node h self index a newNode) (\<lambda>(h, self).
                      Inr (if dataSize > 0 then d else a, h, self\<lparr>lsize := lsize self + 1\<rparr>))))"

definition appendToSList ::
  "addr option \<Rightarrow> addr option \<Rightarrow> sl_heap \<Rightarrow> SList \<Rightarrow> nat \<Rightarrow> (addr \<times> sl_heap \<times> SList) cres" where
  "appendToSList malloc1 malloc2 h self dataSize = insertIntoSList malloc1 malloc2 h self (lsize self) dataSize"

definition insertDataIntoSList ::
  "addr option \<Rightarrow> sl_heap \<Rightarrow> SList \<Rightarrow> int \<Rightarrow> addr \<Rightarrow> (bool \<times> sl_heap \<times> SList) cres" where
  "insertDataIntoSList malloc1 h self index dat =
     cbind (insertIntoSList malloc1 None h self index 0) (\<lambda>(a, h, self).
       if a \<noteq> 0 then cbind (rd h a) (\<lambda>n. Inr (True, wr a (n\<lparr>ndata := dat\<rparr>) h, self)) else Inr (False, h, self))"

definition appendDataToSList ::
  "addr option \<Rightarrow> sl_heap \<Rightarrow> SList \<Rightarrow> addr \<Rightarrow> (bool \<times> sl_heap \<times> SList) cres" where
  "appendDataToSList malloc1 h self dat = insertDataIntoSList malloc1 h self (lsize self) dat"

definition unlink :: "sl_heap \<Rightarrow> SList \<Rightarrow> addr \<Rightarrow> addr \<Rightarrow> SListNode \<Rightarrow> (sl_heap \<times> SList) cres" where
  "unlink h self prev cur n =
     (if prev \<noteq> 0
      then cbind (rd h prev) (\<lambda>p.
             Inr (free_node cur (wr prev (p\<lparr>nnext := nnext n\<rparr>) h),
                  self\<lparr>last_node := (if nnext n = 0 then prev else last_node self), lsize := lsize self - 1\<rparr>))
      else Inr (free_node cur h, self\<lparr>root := nnext n, lsize := lsize self - 1\<rparr>))"

partial_function (option) delete_loop ::
  "sl_heap \<Rightarrow> SList \<Rightarrow> addr \<Rightarrow> addr \<Rightarrow> addr \<Rightarrow> (bool \<times> sl_heap \<times> SList) cres option" where
  "delete_loop h self prev cur dat =
     (if cur = 0 then Some (Inr (False, h, self))
      else case rd h cur of
          Inl f \<Rightarrow> Some (Inl f)
        | Inr n \<Rightarrow> if ndata n = dat
            then Some (cbind (unlink h self prev cur n) (\<lambda>(h, self). Inr (True, h, self)))
            else delete_loop h self cur (nnext n) dat)"

definition deleteFromSList :: "sl_heap \<Rightarrow> SList \<Rightarrow> addr \<Rightarrow> (bool \<times> sl_heap \<times> SList) cres option" where
  "deleteFromSList h self dat =
     (if lsize self > 0 then delete_loop h self 0 (root self) dat else Some (Inr (False, h, self)))"

definition shiftFromSList :: "sl_heap \<Rightarrow> SList \<Rightarrow> (addr \<times> sl_heap \<times> SList) cres" where
  "shiftFromSList h self =
     (if lsize self = 0 then Inr (0, h, self)
      else cbind (rd h (root self)) (\<lambda>n.
             Inr (ndata n, free_node (root self) h, self\<lparr>root := nnext n, lsize := lsize self - 1\<rparr>)))"

partial_function (option) exists_loop :: "sl_heap \<Rightarrow> addr \<Rightarrow> addr \<Rightarrow> bool cres option" where
  "exists_loop h cur dat =
     (if cur = 0 then Some (Inr False)
      else case rd h cur of
          Inl f \<Rightarrow> Some (Inl f)
        | Inr n \<Rightarrow> if ndata n = dat then Some (Inr True) else exists_loop h (nnext n) dat)"

definition existsInSList :: "sl_heap \<Rightarrow> SList \<Rightarrow> addr \<Rightarrow> bool cres option" where
  "existsInSList h self dat = (if lsize self > 0 then exists_loop h (root self) dat else Some (Inr False))"

definition getNodeFromSList :: "sl_heap \<Rightarrow> SList \<Rightarrow> int \<Rightarrow> addr cres" where
  "getNodeFromSList h self index =
     (if index \<ge> lsize self then Inr 0 else walk h (root self) (nat index))"

definition getFromSList :: "sl_heap \<Rightarrow> SList \<Rightarrow> int \<Rightarrow> addr cres" where
  "getFromSList h self index = cbind (getNodeFromSList h self index) (\<lambda>node.
     if node = 0 then Inr 0 else cbind (rd h node) (\<lambda>n. Inr (ndata n)))"

definition getNextNodeOfSListNode :: "sl_heap \<Rightarrow> addr \<Rightarrow> addr cres" where
  "getNextNodeOfSListNode h node = (if node = 0 then Inr 0 else cbind (rd h node) (\<lambda>n. Inr (nnext n)))"

definition getDataOfSListNode :: "sl_heap \<Rightarrow> addr \<Rightarrow> addr cres" where
  "getDataOfSListNode h node = (if node = 0 then Inr 0 else cbind (rd h node) (\<lambda>n. Inr (ndata n)))"

definition setDataOfSListNode :: "sl_heap \<Rightarrow> addr \<Rightarrow> addr \<Rightarrow> sl_heap cres" where
  "setDataOfSListNode h node dat = cbind (rd h node) (\<lambda>n.
     Inr (wr node (n\<lparr>allocSize := 0, ndata := dat\<rparr>)
            (if allocSize n > 0 then h\<lparr>blocks := blocks h - {ndata n}\<rparr> else h)))"

text \<open>\<open>moveSList\<close> leaves the last pointer of the source.\<close>

definition moveSList :: "sl_heap \<Rightarrow> SList \<Rightarrow> SList \<Rightarrow> (addr \<times> sl_heap \<times> SList \<times> SList) cres" where
  "moveSList h to from =
     (if lsize from = 0 then Inr (0, h, to, from)
      else if lsize to = 0
      then Inr (root from, h, to\<lparr>root := root from, last_node := last_node from, lsize := lsize from\<rparr>,
                from\<lparr>root := 0, lsize := 0\<rparr>)
      else cbind (rd h (last_node to)) (\<lambda>l.
             Inr (root from, wr (last_node to) (l\<lparr>nnext := root from\<rparr>) h,
                  to\<lparr>last_node := last_node from, lsize := lsize to + lsize from\<rparr>,
                  from\<lparr>root := 0, lsize := 0\<rparr>)))"

text \<open>\<open>moveSListNode\<close> between two different lists; it never touches the last pointer of the
  source.\<close>

definition moveSListNode ::
  "sl_heap \<Rightarrow> SList \<Rightarrow> SList \<Rightarrow> addr \<Rightarrow> addr \<Rightarrow> (sl_heap \<times> SList \<times> SList) cres" where
  "moveSListNode h to from node prevNode =
     cbind (if lsize to = 0 then Inr (h, to\<lparr>root := node\<rparr>)
            else cbind (rd h (last_node to)) (\<lambda>l. Inr (wr (last_node to) (l\<lparr>nnext := node\<rparr>) h, to))) (\<lambda>(h, to).
     cbind (rd h node) (\<lambda>n.
     cbind (if prevNode = 0 then Inr (h, from\<lparr>root := nnext n\<rparr>)
            else cbind (rd h prevNode) (\<lambda>p. Inr (wr prevNode (p\<lparr>nnext := nnext n\<rparr>) h, from))) (\<lambda>(h, from).
     cbind (rd h node) (\<lambda>n.
       Inr (wr node (n\<lparr>nnext := 0\<rparr>) h, to\<lparr>last_node := node, lsize := lsize to + 1\<rparr>,
            from\<lparr>lsize := lsize from - 1\<rparr>)))))"

section \<open>Lists in the heap\<close>

fun path :: "sl_heap \<Rightarrow> addr \<Rightarrow> addr list \<Rightarrow> addr \<Rightarrow> bool" where
  "path h p [] q \<longleftrightarrow> p = q"
| "path h p (x # xs) q \<longleftrightarrow> p = x \<and> x \<noteq> 0 \<and> (case nodes h x of None \<Rightarrow> False | Some n \<Rightarrow> path h (nnext n) xs q)"

definition slist_ok :: "sl_heap \<Rightarrow> SList \<Rightarrow> addr list \<Rightarrow> bool" where
  "slist_ok h l xs \<longleftrightarrow> path h (root l) xs 0 \<and> distinct xs \<and> lsize l = int (length xs) \<and>
     (xs \<noteq> [] \<longrightarrow> last_node l = last xs)"

definition data_at :: "sl_heap \<Rightarrow> addr \<Rightarrow> addr" where
  "data_at h x = (case nodes h x of Some n \<Rightarrow> ndata n | None \<Rightarrow> 0)"

abbreviation contents :: "sl_heap \<Rightarrow> addr list \<Rightarrow> addr list" where
  "contents h xs \<equiv> map (data_at h) xs"

text \<open>The abstraction function: follow the next pointers as often as the size says.\<close>

fun follow :: "sl_heap \<Rightarrow> addr \<Rightarrow> nat \<Rightarrow> addr list" where
  "follow h p 0 = []"
| "follow h p (Suc k) = p # follow h (case nodes h p of Some n \<Rightarrow> nnext n | None \<Rightarrow> 0) k"

definition slist_nodes :: "sl_heap \<Rightarrow> SList \<Rightarrow> addr list" where
  "slist_nodes h l = follow h (root l) (nat (lsize l))"

lemma path_append [simp]: "path h p (xs @ ys) q \<longleftrightarrow> (\<exists>r. path h p xs r \<and> path h r ys q)"
  by (induction xs arbitrary: p) (auto split: option.splits)

lemma path_wr [simp]: "y \<notin> set xs \<Longrightarrow> path (wr y n h) p xs q = path h p xs q"
  by (induction xs arbitrary: p) (auto simp: wr_def split: option.splits)

lemma path_free [simp]: "y \<notin> set xs \<Longrightarrow> path (free_node y h) p xs q = path h p xs q"
  by (induction xs arbitrary: p) (auto simp: free_node_def split: option.splits)

lemma path_blocks [simp]: "path (h\<lparr>blocks := b\<rparr>) p xs q = path h p xs q"
  by (induction xs arbitrary: p) (auto split: option.splits)

lemma nodes_simps [simp]:
  "nodes (wr p n h) = (nodes h)(p \<mapsto> n)" "nodes (free_node p h) = (nodes h)(p := None)"
  by (simp_all add: wr_def free_node_def)

lemma data_at_simps [simp]:
  "data_at (wr p n h) x = (if x = p then ndata n else data_at h x)"
  "x \<noteq> p \<Longrightarrow> data_at (free_node p h) x = data_at h x"
  "data_at (h\<lparr>blocks := b\<rparr>) x = data_at h x"
  by (simp_all add: data_at_def)

lemma rd_ok [simp]: "nodes h p = Some n \<Longrightarrow> p \<noteq> 0 \<Longrightarrow> rd h p = Inr n"
  by (simp add: rd_def)

lemma path_mem: "path h p xs q \<Longrightarrow> x \<in> set xs \<Longrightarrow> x \<noteq> 0 \<and> (\<exists>n. nodes h x = Some n)"
  by (induction xs arbitrary: p) (auto split: option.splits)

lemma path_Nil_start: "path h 0 xs q \<Longrightarrow> xs = [] \<and> q = 0"
  by (cases xs) auto

lemma follow_path: "path h p xs q \<Longrightarrow> follow h p (length xs) = xs"
  by (induction xs arbitrary: p) (auto split: option.splits)

lemma slist_nodes_eq: "slist_ok h l xs \<Longrightarrow> slist_nodes h l = xs"
  using follow_path by (auto simp: slist_ok_def slist_nodes_def)

lemma walk_path: "path h p (xs @ y # ys) q \<Longrightarrow> walk h p (length xs) = Inr y"
  by (induction xs arbitrary: p) (auto simp: rd_def split: option.splits)

text \<open>Linking a node in behind another one.\<close>

lemma path_link:
  assumes "path h r (ys @ p # zs) 0" "distinct (ys @ p # zs)" "nodes h p = Some n" "a \<notin> set (ys @ p # zs)" "a \<noteq> 0"
  shows "path (wr p (n\<lparr>nnext := a\<rparr>) (wr a (m\<lparr>nnext := nnext n\<rparr>) h)) r (ys @ p # a # zs) 0"
  using assms by auto

lemma link_node_ok:
  assumes ok: "slist_ok h l xs" and i: "i \<le> length xs" and a: "a \<noteq> 0" "a \<notin> set xs"
  shows "\<exists>h' l'. link_node h l (int i) a m = Inr (h', l') \<and>
    slist_ok h' (l'\<lparr>lsize := lsize l' + 1\<rparr>) (take i xs @ a # drop i xs) \<and>
    (\<forall>x. x \<noteq> a \<longrightarrow> data_at h' x = data_at h x) \<and> data_at h' a = ndata m \<and>
    nodes h' a \<noteq> None \<and> dom (nodes h') = insert a (dom (nodes h))"
proof (cases "i = 0")
  case True
  with ok a show ?thesis
    by (cases xs) (auto simp: link_node_def slist_ok_def split: option.splits)
next
  case False
  define ys p zs where "ys = take (i - 1) xs" and "p = xs ! (i - 1)" and "zs = drop i xs"
  have xs: "xs = ys @ p # zs" "length ys = i - 1" "take i xs = ys @ [p]"
    using False i id_take_nth_drop [of "i - 1" xs] take_Suc_conv_app_nth [of "i - 1" xs]
    by (simp_all add: ys_def p_def zs_def)
  then obtain n where n: "p \<noteq> 0" "nodes h p = Some n"
    using ok path_mem by (fastforce simp: slist_ok_def)
  let ?h = "wr p (n\<lparr>nnext := a\<rparr>) (wr a (m\<lparr>nnext := nnext n\<rparr>) h)"
  have chain: "path ?h (root l) (ys @ p # a # zs) 0"
    using path_link [of h "root l" ys p zs n a m] ok a n xs(1) by (simp add: slist_ok_def)
  have pa: "p \<noteq> a" using a xs by auto
  have new: "take i xs @ a # drop i xs = ys @ p # a # zs" using xs(3) by (simp add: zs_def)
  have okx: "slist_ok h l (ys @ p # zs)" "a \<notin> set (ys @ p # zs)" using ok a(2) xs(1) by simp_all
  have dat: "\<forall>x. x \<noteq> a \<longrightarrow> data_at ?h x = data_at h x" "data_at ?h a = ndata m"
    "nodes ?h a \<noteq> None" "dom (nodes ?h) = insert a (dom (nodes h))"
    using n pa by (auto simp: data_at_def)
  show ?thesis
  proof (cases "zs = []")
    case True
    then have "int i = lsize l" "last_node l = p" using ok xs False by (simp_all add: slist_ok_def)
    moreover have "nnext n = 0" using ok n xs True by (auto simp: slist_ok_def)
    moreover have "wr a (m\<lparr>nnext := 0\<rparr>) (wr p (n\<lparr>nnext := a\<rparr>) h) = wr p (n\<lparr>nnext := a\<rparr>) (wr a (m\<lparr>nnext := 0\<rparr>) h)"
      using pa by (simp add: wr_def fun_upd_twist)
    ultimately have "link_node h l (int i) a m = Inr (?h, l\<lparr>last_node := a\<rparr>)"
      using n False by (simp add: link_node_def)
    moreover have "slist_ok ?h (l\<lparr>last_node := a, lsize := lsize l + 1\<rparr>) (ys @ p # a # zs)"
      using okx chain True by (simp add: slist_ok_def)
    ultimately show ?thesis unfolding new using dat by auto
  next
    case zs: False
    then have "int i \<noteq> lsize l" "nat (int i - 1) = length ys" using ok xs False by (simp_all add: slist_ok_def)
    moreover have "walk h (root l) (length ys) = Inr p"
      using walk_path [of h "root l" ys p zs 0] ok xs(1) by (simp add: slist_ok_def)
    ultimately have "link_node h l (int i) a m = Inr (?h, l)"
      using n False by (simp add: link_node_def)
    moreover have "slist_ok ?h (l\<lparr>lsize := lsize l + 1\<rparr>) (ys @ p # a # zs)"
      using okx chain zs by (simp add: slist_ok_def)
    ultimately show ?thesis unfolding new using dat by auto
  qed
qed

lemma insertIntoSList_ok:
  assumes "slist_ok h l xs" "i \<le> length xs" "a \<noteq> 0" "a \<notin> set xs" "0 < sz \<Longrightarrow> d \<noteq> 0"
  shows "\<exists>h' l'. insertIntoSList (Some a) (Some d) h l (int i) sz = Inr (if 0 < sz then d else a, h', l') \<and>
    slist_ok h' l' (take i xs @ a # drop i xs) \<and>
    contents h' (take i xs @ a # drop i xs) = take i (contents h xs) @ (if 0 < sz then d else 0) # drop i (contents h xs) \<and>
    nodes h' a \<noteq> None \<and> dom (nodes h') = insert a (dom (nodes h))"
proof -
  let ?h = "if 0 < sz then h\<lparr>blocks := insert d (blocks h)\<rparr> else h"
  have ok: "slist_ok ?h l xs" using assms(1) by (simp add: slist_ok_def)
  let ?m = "\<lparr>ndata = (if 0 < sz then d else 0), allocSize = sz, nnext = 0\<rparr>"
  obtain h' l' where l': "link_node ?h l (int i) a ?m = Inr (h', l')"
    "slist_ok h' (l'\<lparr>lsize := lsize l' + 1\<rparr>) (take i xs @ a # drop i xs)"
    "\<forall>x. x \<noteq> a \<longrightarrow> data_at h' x = data_at ?h x" "data_at h' a = ndata ?m" "nodes h' a \<noteq> None"
    "dom (nodes h') = insert a (dom (nodes ?h))"
    using link_node_ok [OF ok assms(2-4), of ?m] by blast
  have same: "data_at h' x = data_at h x" if "x \<in> set xs" for x
    using that l'(3) assms(4) by (cases "x = a") auto
  then have "contents h' (take i xs) = take i (contents h xs)" "contents h' (drop i xs) = drop i (contents h xs)"
    by (auto simp: take_map drop_map intro!: same intro: in_set_takeD in_set_dropD)
  moreover have "\<not> int i > lsize l" using assms(1,2) by (simp add: slist_ok_def)
  moreover from this have "insertIntoSList (Some a) (Some d) h l (int i) sz =
      Inr (if 0 < sz then d else a, h', l'\<lparr>lsize := lsize l' + 1\<rparr>)"
    using l'(1) by (cases "0 < sz") (simp_all add: insertIntoSList_def Let_def)
  moreover have "dom (nodes ?h) = dom (nodes h)" by simp
  ultimately show ?thesis
    using l'(2,4,5,6) by (intro exI [of _ h'] exI [of _ "l'\<lparr>lsize := lsize l' + 1\<rparr>"]) simp
qed

lemma unlink_ok:
  assumes ok: "slist_ok h l (ys @ c # zs)" and n: "nodes h c = Some n"
  shows "\<exists>h' l'. unlink h l (if ys = [] then 0 else last ys) c n = Inr (h', l') \<and> slist_ok h' l' (ys @ zs) \<and>
    (\<forall>x. x \<noteq> c \<longrightarrow> data_at h' x = data_at h x) \<and> dom (nodes h') = dom (nodes h) - {c}"
proof (cases ys rule: rev_cases)
  case Nil
  with ok n show ?thesis by (auto simp: unlink_def slist_ok_def)
next
  case (snoc us p)
  then obtain np where p: "p \<noteq> 0" "nodes h p = Some np" "p \<noteq> c"
    using ok path_mem by (fastforce simp: slist_ok_def)
  let ?h = "free_node c (wr p (np\<lparr>nnext := nnext n\<rparr>) h)"
  let ?l = "l\<lparr>last_node := (if nnext n = 0 then p else last_node l), lsize := lsize l - 1\<rparr>"
  have "unlink h l (if ys = [] then 0 else last ys) c n = Inr (?h, ?l)"
    using p snoc by (simp add: unlink_def)
  moreover have "slist_ok ?h ?l (ys @ zs)"
    using ok n p snoc by (auto simp: slist_ok_def dest: path_Nil_start)
  ultimately show ?thesis using p by (auto simp: data_at_def split: option.splits)
qed

lemma delete_loop_ok:
  assumes "slist_ok h l (ys @ zs)" "path h cur zs 0" "d \<notin> set (contents h ys)"
  shows "if d \<in> set (contents h zs)
    then \<exists>h' l' xs. delete_loop h l (if ys = [] then 0 else last ys) cur d = Some (Inr (True, h', l')) \<and>
      slist_ok h' l' xs \<and> contents h' xs = remove1 d (contents h (ys @ zs))
    else delete_loop h l (if ys = [] then 0 else last ys) cur d = Some (Inr (False, h, l))"
  using assms
proof (induction zs arbitrary: ys cur)
  case Nil
  then show ?case by (subst delete_loop.simps) simp
next
  case (Cons z zs)
  then obtain n where n: "cur = z" "z \<noteq> 0" "nodes h z = Some n" "path h (nnext n) zs 0"
    by (auto split: option.splits)
  show ?case
  proof (cases "ndata n = d")
    case True
    obtain h' l' where u: "unlink h l (if ys = [] then 0 else last ys) z n = Inr (h', l')" "slist_ok h' l' (ys @ zs)"
      "\<forall>x. x \<noteq> z \<longrightarrow> data_at h' x = data_at h x"
      using unlink_ok [OF Cons.prems(1) n(3)] by blast
    have z: "z \<notin> set (ys @ zs)" using Cons.prems(1) by (simp add: slist_ok_def)
    have "contents h' (ys @ zs) = contents h (ys @ zs)" using u(3) z by auto
    moreover have "data_at h z = d" using n True by (simp add: data_at_def)
    ultimately have "contents h' (ys @ zs) = remove1 d (contents h (ys @ z # zs))"
      using Cons.prems(3) by (simp add: remove1_append)
    moreover have "delete_loop h l (if ys = [] then 0 else last ys) cur d = Some (Inr (True, h', l'))"
      using n True u(1) by (subst delete_loop.simps) simp
    ultimately show ?thesis using u(2) n True by (auto simp: data_at_def)
  next
    case False
    then have step: "delete_loop h l (if ys = [] then 0 else last ys) cur d = delete_loop h l z (nnext n) d"
      using n by (subst delete_loop.simps) simp
    have "data_at h z \<noteq> d" using n False by (simp add: data_at_def)
    with Cons.IH [of "ys @ [z]" "nnext n"] Cons.prems n(4) step show ?thesis
      by (cases "d \<in> data_at h ` set zs") simp_all
  qed
qed

text \<open>Deleting the data of a known node takes this node out.\<close>

lemma delete_loop_node:
  assumes "slist_ok h l (us @ ys @ c # zs)" "path h cur (ys @ c # zs) 0" "data_at h c = d" "d \<notin> set (contents h ys)"
  shows "\<exists>h' l'. delete_loop h l (if us = [] then 0 else last us) cur d = Some (Inr (True, h', l')) \<and>
    slist_ok h' l' (us @ ys @ zs) \<and> (\<forall>x. x \<noteq> c \<longrightarrow> data_at h' x = data_at h x) \<and> dom (nodes h') = dom (nodes h) - {c}"
  using assms
proof (induction ys arbitrary: us cur)
  case Nil
  then obtain n where n: "cur = c" "c \<noteq> 0" "nodes h c = Some n" "ndata n = d" by (auto simp: data_at_def split: option.splits)
  moreover obtain h' l' where "unlink h l (if us = [] then 0 else last us) c n = Inr (h', l')" "slist_ok h' l' (us @ zs)"
    "\<forall>x. x \<noteq> c \<longrightarrow> data_at h' x = data_at h x" "dom (nodes h') = dom (nodes h) - {c}"
    using unlink_ok [of h l us c zs n] Nil.prems(1) n(3) by auto
  ultimately show ?case by (subst delete_loop.simps) simp
next
  case (Cons y ys)
  then obtain n where n: "cur = y" "y \<noteq> 0" "nodes h y = Some n" "path h (nnext n) (ys @ c # zs) 0" "ndata n \<noteq> d"
    by (auto simp: data_at_def split: option.splits)
  have "delete_loop h l (if us = [] then 0 else last us) cur d = delete_loop h l y (nnext n) d"
    using n by (subst delete_loop.simps) simp
  then show ?case using Cons.IH [of "us @ [y]" "nnext n"] Cons.prems n(4) by simp
qed

lemma deleteFromSList_node:
  assumes "slist_ok h l (ys @ c # zs)" "data_at h c = d" "d \<notin> set (contents h ys)"
  shows "\<exists>h' l'. deleteFromSList h l d = Some (Inr (True, h', l')) \<and> slist_ok h' l' (ys @ zs) \<and>
    (\<forall>x. x \<noteq> c \<longrightarrow> data_at h' x = data_at h x) \<and> dom (nodes h') = dom (nodes h) - {c}"
  using delete_loop_node [of h l "[]" ys c zs "root l" d] assms by (simp add: deleteFromSList_def slist_ok_def)

lemma deleteFromSList_ok:
  assumes "slist_ok h l xs"
  shows "\<exists>h' l' xs'. deleteFromSList h l d = Some (Inr (d \<in> set (contents h xs), h', l')) \<and>
    slist_ok h' l' xs' \<and> contents h' xs' = remove1 d (contents h xs)"
proof (cases "lsize l > 0")
  case True
  from delete_loop_ok [of h l "[]" xs "root l" d] assms True show ?thesis
    by (auto simp: deleteFromSList_def slist_ok_def remove1_idem split: if_splits)
next
  case False
  with assms have "xs = []" by (simp add: slist_ok_def)
  with assms False show ?thesis by (auto simp: deleteFromSList_def)
qed

lemma shiftFromSList_ok:
  assumes "slist_ok h l (x # xs)"
  shows "\<exists>h' l'. shiftFromSList h l = Inr (data_at h x, h', l') \<and> slist_ok h' l' xs \<and>
    contents h' xs = contents h xs"
  using assms by (auto simp: shiftFromSList_def slist_ok_def data_at_def rd_def split: option.splits)

lemma exists_loop_ok: "path h p xs 0 \<Longrightarrow> exists_loop h p d = Some (Inr (d \<in> set (contents h xs)))"
proof (induction xs arbitrary: p)
  case (Cons x xs)
  then show ?case
    by (subst exists_loop.simps) (auto simp: data_at_def split: option.splits)
qed (subst exists_loop.simps, simp)

lemma release_loop_ok:
  "path h p xs 0 \<Longrightarrow> distinct xs \<Longrightarrow>
   \<exists>h'. release_loop h p = Some (Inr h') \<and> nodes h' = (\<lambda>x. if x \<in> set xs then None else nodes h x)"
proof (induction xs arbitrary: h p)
  case Nil
  then show ?case by (subst release_loop.simps) auto
next
  case (Cons x xs)
  then obtain n where n: "p = x" "x \<noteq> 0" "nodes h x = Some n" "path h (nnext n) xs 0" "x \<notin> set xs"
    by (auto split: option.splits)
  let ?h = "free_node x (if allocSize n > 0 then h\<lparr>blocks := blocks h - {ndata n}\<rparr> else h)"
  have "path ?h (nnext n) xs 0" using n by simp
  with Cons.IH [of ?h "nnext n"] Cons.prems n show ?case
    by (subst release_loop.simps) (auto simp: fun_eq_iff)
qed

section \<open>What the clients of the list rely on\<close>

text \<open>
  The caches and the command queue use the list as a sequence: append at the end, remove the first
  occurrence, take the first element.
\<close>

locale sequence_store = fifo_store inv items used null add shift
  for inv :: "'s \<Rightarrow> bool"
    and items :: "'s \<Rightarrow> 'd list"
    and used :: "'s \<Rightarrow> 'm set"
    and null :: "'m"
    and add :: "'m \<Rightarrow> 's \<Rightarrow> 'd \<Rightarrow> (bool \<times> 's) cres"
    and shift :: "'s \<Rightarrow> ('d \<times> 's) cres" +
  fixes del :: "'s \<Rightarrow> 'd \<Rightarrow> (bool \<times> 's) cres option"
  assumes del_ok: "inv s \<Longrightarrow>
      \<exists>s'. del s d = Some (Inr (d \<in> set (items s), s')) \<and> inv s' \<and> items s' = remove1 d (items s)"
begin

text \<open>Data that was added can be deleted again, wherever it stands.\<close>

lemma add_del:
  assumes "inv s" "m \<notin> used s" "m \<noteq> null" "d \<notin> set (items s)"
  shows "\<exists>s1 s2. add m s d = Inr (True, s1) \<and> del s1 d = Some (Inr (True, s2)) \<and> inv s2 \<and> items s2 = items s"
proof -
  obtain s1 where s1: "add m s d = Inr (True, s1)" "inv s1" "items s1 = items s @ [d]" using add_ok [OF assms(1-3)] by blast
  then obtain s2 where "del s1 d = Some (Inr (True, s2))" "inv s2" "items s2 = items s"
    using del_ok [of s1 d] assms(4) by (auto simp: remove1_append)
  with s1 show ?thesis by blast
qed

end

section \<open>The list implements the contract\<close>

type_synonym sl_state = "sl_heap \<times> SList"

definition sl_inv :: "sl_state \<Rightarrow> bool" where
  "sl_inv s = slist_ok (fst s) (snd s) (slist_nodes (fst s) (snd s))"

definition sl_items :: "sl_state \<Rightarrow> addr list" where
  "sl_items s = contents (fst s) (slist_nodes (fst s) (snd s))"

definition sl_used :: "sl_state \<Rightarrow> addr set" where
  "sl_used s = dom (nodes (fst s))"

definition sl_add :: "addr \<Rightarrow> sl_state \<Rightarrow> addr \<Rightarrow> (bool \<times> sl_state) cres" where
  "sl_add a s d = appendDataToSList (Some a) (fst s) (snd s) d"

definition sl_del :: "sl_state \<Rightarrow> addr \<Rightarrow> (bool \<times> sl_state) cres option" where
  "sl_del s d = deleteFromSList (fst s) (snd s) d"

definition sl_shift :: "sl_state \<Rightarrow> (addr \<times> sl_state) cres" where
  "sl_shift s = shiftFromSList (fst s) (snd s)"

lemma sl_inv_iff: "sl_inv (h, l) \<longleftrightarrow> (\<exists>xs. slist_ok h l xs)"
  using slist_nodes_eq by (auto simp: sl_inv_def)

lemma sl_items_eq: "slist_ok h l xs \<Longrightarrow> sl_items (h, l) = contents h xs"
  by (simp add: sl_items_def slist_nodes_eq)

lemma insert_no_data: "insertIntoSList (Some a) m h l i 0 = insertIntoSList (Some a) None h l i 0"
  by (simp add: insertIntoSList_def)

lemma appendData_ok:
  assumes "slist_ok h l xs" "nodes h a = None" "a \<noteq> 0"
  shows "\<exists>h' l'. appendDataToSList (Some a) h l d = Inr (True, h', l') \<and> slist_ok h' l' (xs @ [a]) \<and>
    contents h' (xs @ [a]) = contents h xs @ [d] \<and> dom (nodes h') = insert a (dom (nodes h))"
proof -
  have a: "a \<notin> set xs" using assms(1,2) path_mem by (fastforce simp: slist_ok_def)
  have size: "lsize l = int (length xs)" using assms(1) by (simp add: slist_ok_def)
  obtain h1 l1 where i: "insertIntoSList (Some a) None h l (int (length xs)) 0 = Inr (a, h1, l1)"
    "slist_ok h1 l1 (xs @ [a])" "contents h1 (xs @ [a]) = contents h xs @ [0]" "nodes h1 a \<noteq> None"
    "dom (nodes h1) = insert a (dom (nodes h))"
    using insertIntoSList_ok [OF assms(1) order_refl assms(3) a, of 0 0, unfolded insert_no_data [of a "Some 0"]]
    by auto
  then obtain n where n: "nodes h1 a = Some n" by auto
  let ?h = "wr a (n\<lparr>ndata := d\<rparr>) h1"
  have "slist_ok ?h l1 (xs @ [a])"
    using i(2) n assms(3) a by (auto simp: slist_ok_def)
  moreover have "contents ?h (xs @ [a]) = contents h xs @ [d]"
    using i(3) a by auto
  moreover have "appendDataToSList (Some a) h l d = Inr (True, ?h, l1)"
    using i(1) n assms(3) size by (simp add: appendDataToSList_def insertDataIntoSList_def)
  ultimately show ?thesis using i(5) by auto
qed

interpretation sl: sequence_store sl_inv sl_items sl_used 0 sl_add sl_shift sl_del
proof
  fix s :: sl_state and m d
  assume "sl_inv s" "m \<notin> sl_used s" "m \<noteq> 0"
  moreover obtain h l where s: "s = (h, l)" by (cases s)
  ultimately obtain xs where "slist_ok h l xs" "nodes h m = None" "m \<noteq> 0"
    by (auto simp: sl_inv_iff sl_used_def)
  then show "\<exists>s'. sl_add m s d = Inr (True, s') \<and> sl_inv s' \<and> sl_items s' = sl_items s @ [d] \<and>
      sl_used s' = insert m (sl_used s)"
    using appendData_ok [of h l xs m d]
    by (auto simp: s sl_add_def sl_used_def sl_inv_iff sl_items_eq)
next
  fix s :: sl_state and d ds
  assume "sl_inv s" "sl_items s = d # ds"
  moreover obtain h l where s: "s = (h, l)" by (cases s)
  ultimately obtain xs where xs: "slist_ok h l xs" "contents h xs = d # ds"
    by (auto simp: sl_inv_iff sl_items_eq)
  then obtain x ys where "xs = x # ys" "data_at h x = d" "contents h ys = ds" by (cases xs) auto
  then show "\<exists>s'. sl_shift s = Inr (d, s') \<and> sl_inv s' \<and> sl_items s' = ds"
    using shiftFromSList_ok [of h l x ys] xs
    by (auto simp: s sl_shift_def sl_inv_iff sl_items_eq)
next
  fix s :: sl_state and d
  assume "sl_inv s"
  moreover obtain h l where s: "s = (h, l)" by (cases s)
  ultimately obtain xs where "slist_ok h l xs" by (auto simp: sl_inv_iff)
  then show "\<exists>s'. sl_del s d = Some (Inr (d \<in> set (sl_items s), s')) \<and> sl_inv s' \<and>
      sl_items s' = remove1 d (sl_items s)"
    using deleteFromSList_ok [of h l xs d]
    by (fastforce simp: s sl_del_def sl_inv_iff sl_items_eq)
qed

section \<open>Properties\<close>

definition empty_list :: sl_state where
  "empty_list = (\<lparr>nodes = Map.empty, blocks = {}\<rparr>, initSList \<lparr>root = 7, last_node = 9, lsize = 5\<rparr>)"

text \<open>The list is a queue on the heap: on an initialised list, whatever its last pointer was,
  appending data through \<open>appendDataToSList\<close> with fresh node addresses and then removing as many
  elements with \<open>shiftFromSList\<close> returns the data in order, reads no freed or missing node, and
  leaves a well-formed empty list.\<close>

lemma slist_fifo:
  assumes "fst s = \<lparr>nodes = Map.empty, blocks = {}\<rparr>" "snd s = initSList l"
    "distinct (map fst mds)" "0 \<notin> fst ` set mds"
  shows "\<exists>s1 s2. add_all sl_add s mds = Inr s1 \<and> shift_n sl_shift s1 (length mds) = Inr (map snd mds, s2) \<and>
    sl_inv s2 \<and> sl_items s2 = []"
proof -
  have ok: "slist_ok (fst s) (snd s) []" using assms(1,2) by (simp add: slist_ok_def initSList_def)
  then have "sl_inv s" "sl_items s = []" using sl_inv_iff sl_items_eq by (cases s; auto)+
  moreover have "sl_used s = {}" using assms(1) by (simp add: sl_used_def)
  ultimately show ?thesis using sl.fifo assms(3,4) by simp
qed

theorem slist_fifo_witness:
  "\<exists>s1 s2. add_all sl_add empty_list [(10, 100), (11, 101), (12, 100)] = Inr s1 \<and>
    shift_n sl_shift s1 3 = Inr ([100, 101, 100], s2) \<and> sl_inv s2 \<and> sl_items s2 = []"
  using slist_fifo [of empty_list "\<lparr>root = 7, last_node = 9, lsize = 5\<rparr>" "[(10, 100), (11, 101), (12, 100)]"]
  by (simp add: empty_list_def numeral_3_eq_3)

text \<open>\<open>insertIntoSList\<close> refines insertion into a sequence: for a well-formed list, an index
  between 0 and the size, and memory for the node and its data, the call succeeds, the new element is
  at that index, the others keep their order, and root, last pointer, size and next pointers are
  consistent again.\<close>

lemma insertIntoSList_refines:
  assumes "slist_ok h l xs" "i \<le> length xs" "nodes h a = None" "a \<noteq> 0" "0 < sz" "d \<noteq> 0"
  shows "\<exists>h' l'. insertIntoSList (Some a) (Some d) h l (int i) sz = Inr (d, h', l') \<and> sl_inv (h', l') \<and>
    sl_items (h', l') = take i (sl_items (h, l)) @ d # drop i (sl_items (h, l)) \<and> sizeOfSList l' = sizeOfSList l + 1"
proof -
  have a: "a \<notin> set xs" using assms(1,3) path_mem by (fastforce simp: slist_ok_def)
  obtain h' l' where "insertIntoSList (Some a) (Some d) h l (int i) sz = Inr (d, h', l')"
    "slist_ok h' l' (take i xs @ a # drop i xs)"
    "contents h' (take i xs @ a # drop i xs) = take i (contents h xs) @ d # drop i (contents h xs)"
    using insertIntoSList_ok [OF assms(1,2,4) a, of sz d] assms(5,6) by auto
  moreover from this have "lsize l' = lsize l + 1"
    using assms(1,2) by (simp add: slist_ok_def)
  ultimately show ?thesis
    using assms(1) by (auto simp: sl_inv_iff sl_items_eq sizeOfSList_def)
qed

definition two_list :: sl_state where
  "two_list = (\<lparr>nodes = [10 \<mapsto> \<lparr>ndata = 100, allocSize = 0, nnext = 20\<rparr>, 20 \<mapsto> \<lparr>ndata = 200, allocSize = 0, nnext = 0\<rparr>],
     blocks = {}\<rparr>, \<lparr>root = 10, last_node = 20, lsize = 2\<rparr>)"

lemma two_list_ok: "slist_ok (fst two_list) (snd two_list) [10, 20]"
  by (simp add: two_list_def slist_ok_def)

theorem insertIntoSList_refines_witness:
  "\<exists>h' l'. insertIntoSList (Some 30) (Some 300) (fst two_list) (snd two_list) 1 8 = Inr (300, h', l') \<and>
    sl_inv (h', l') \<and> sl_items (h', l') = [100, 300, 200]"
proof -
  have "sl_items (fst two_list, snd two_list) = [100, 200]"
    using sl_items_eq [OF two_list_ok] by (simp add: two_list_def data_at_def)
  then show ?thesis
    using insertIntoSList_refines [OF two_list_ok, of 1 30 8 300] by (auto simp: two_list_def)
qed

text \<open>\<open>deleteFromSList\<close> terminates on every well-formed list, reports whether the data pointer is in
  the list, and removes its first occurrence and nothing else.\<close>

lemma deleteFromSList_refines:
  assumes "slist_ok h l xs"
  shows "\<exists>h' l'. deleteFromSList h l d = Some (Inr (d \<in> set (sl_items (h, l)), h', l')) \<and> sl_inv (h', l') \<and>
    sl_items (h', l') = remove1 d (sl_items (h, l))"
  using deleteFromSList_ok [OF assms, of d] assms by (fastforce simp: sl_inv_iff sl_items_eq)

theorem deleteFromSList_refines_witness:
  "\<exists>h' l'. deleteFromSList (fst two_list) (snd two_list) 200 = Some (Inr (True, h', l')) \<and> sl_inv (h', l') \<and>
    sl_items (h', l') = [100]"
proof -
  have "sl_items (fst two_list, snd two_list) = [100, 200]"
    using sl_items_eq [OF two_list_ok] by (simp add: two_list_def data_at_def)
  then show ?thesis using deleteFromSList_refines [OF two_list_ok, of 200] by simp
qed

text \<open>\<open>moveSListNode\<close> of the last node of a list leaves the last pointer of that list at the moved
  node, which now belongs to the other list: the list it came from is no longer well-formed, and the
  next append to it links the new node into the other list instead.\<close>

lemma moveSListNode_stale_last:
  assumes "slist_ok h from (ys @ [p, x])" "slist_ok h to []" "nodes h a = None" "a \<noteq> 0"
  shows "\<exists>h1 to1 from1 h2 from2. moveSListNode h to from x p = Inr (h1, to1, from1) \<and>
    slist_ok h1 to1 [x] \<and> path h1 (root from1) (ys @ [p]) 0 \<and> last_node from1 = x \<and>
    appendDataToSList (Some a) h1 from1 d = Inr (True, h2, from2) \<and>
    path h2 (root from2) (ys @ [p]) 0 \<and> path h2 (root to1) [x, a] 0"
proof -
  obtain np nx where n: "nodes h p = Some np" "nodes h x = Some nx" "p \<noteq> 0" "x \<noteq> 0" "nnext np = x" "nnext nx = 0"
    "path h (root from) ys p" "p \<noteq> x" "x \<notin> set ys" "p \<notin> set ys" "last_node from = x" "lsize from = int (length ys) + 2"
    using assms(1) by (auto simp: slist_ok_def split: option.splits)
  have a: "a \<noteq> p" "a \<noteq> x" "a \<notin> set ys" using n assms(3) path_mem [OF n(7), of a] by auto
  let ?h1 = "wr x (nx\<lparr>nnext := 0\<rparr>) (wr p (np\<lparr>nnext := 0\<rparr>) h)"
  let ?to = "to\<lparr>root := x, last_node := x, lsize := 1\<rparr>" and ?from = "from\<lparr>lsize := lsize from - 1\<rparr>"
  have "moveSListNode h to from x p = Inr (?h1, ?to, ?from)"
    using assms(2) n by (simp add: moveSListNode_def slist_ok_def)
  moreover have "slist_ok ?h1 ?to [x]" "path ?h1 (root ?from) (ys @ [p]) 0" "last_node ?from = x"
    using n by (simp_all add: slist_ok_def)
  moreover let ?h2 = "wr a (\<lparr>ndata = d, allocSize = 0, nnext = 0\<rparr>)
      (wr x (nx\<lparr>nnext := a\<rparr>) ?h1)"
  have "appendDataToSList (Some a) ?h1 ?from d = Inr (True, ?h2, ?from\<lparr>last_node := a, lsize := lsize from\<rparr>)"
    using n a assms(4)
    by (simp add: appendDataToSList_def insertDataIntoSList_def insertIntoSList_def link_node_def Let_def wr_def)
  moreover have "path ?h2 (root ?from) (ys @ [p]) 0" "path ?h2 (root ?to) [x, a] 0"
    using n a assms(4) by simp_all
  ultimately show ?thesis by fastforce
qed

theorem moveSListNode_stale_last_witness:
  "\<exists>h1 to1 from1 h2 from2. moveSListNode (fst two_list) (snd empty_list) (snd two_list) 20 10 = Inr (h1, to1, from1) \<and>
    slist_ok h1 to1 [20] \<and> path h1 (root from1) [10] 0 \<and> last_node from1 = 20 \<and>
    appendDataToSList (Some 30) h1 from1 300 = Inr (True, h2, from2) \<and>
    path h2 (root from2) [10] 0 \<and> path h2 (root to1) [20, 30] 0"
  using moveSListNode_stale_last [of "fst two_list" "snd two_list" "[]" 10 20 "snd empty_list" 30 300]
  by (simp add: two_list_def empty_list_def slist_ok_def initSList_def)

end
