(* ===== verification/Rw_Lock.thy ===== *)
theory Rw_Lock
  imports Prelude
begin

text \<open>
  The locks: the reader/writer lock of \<open>util/rwlock.c\<close> and the mutex of \<open>util/mutex.c\<close>,
  thin layers over \<open>pthread_rwlock_t\<close> and \<open>pthread_mutex_t\<close>. A lock
  is seen from the thread that runs the modelled function: an acquisition that would have to wait for
  a lock this thread itself left behind never returns (\<open>LockBlocked\<close>), and any use of a destroyed
  lock is undefined. A function whose path forgets an unlock therefore blocks the next caller in the
  model as it does in the server.
\<close>

datatype RWLock = Unlocked | ReadLocked nat | WriteLocked | Destroyed

definition createRWLock :: "bool \<Rightarrow> RWLock \<Rightarrow> bool \<times> RWLock" where
  "createRWLock init_ok self = (if init_ok then (True, Unlocked) else (False, self))"

fun pthread_unlock :: "RWLock \<Rightarrow> RWLock cres" where
  "pthread_unlock (ReadLocked n) = Inr (if n \<le> 1 then Unlocked else ReadLocked (n - 1))"
| "pthread_unlock WriteLocked = Inr Unlocked"
| "pthread_unlock Unlocked = Inr Unlocked"
| "pthread_unlock Destroyed = Inl UseAfterFree"

text \<open>\<open>releaseRWLock\<close> unlocks until the destruction succeeds.\<close>

definition releaseRWLock :: "RWLock \<Rightarrow> RWLock" where
  "releaseRWLock self = Destroyed"

fun acquireReadLock :: "RWLock \<Rightarrow> RWLock cres" where
  "acquireReadLock Unlocked = Inr (ReadLocked 1)"
| "acquireReadLock (ReadLocked n) = Inr (ReadLocked (n + 1))"
| "acquireReadLock WriteLocked = Inl LockBlocked"
| "acquireReadLock Destroyed = Inl UseAfterFree"

definition unlockReadLock :: "RWLock \<Rightarrow> RWLock cres" where
  "unlockReadLock self = pthread_unlock self"

fun acquireWriteLock :: "RWLock \<Rightarrow> RWLock cres" where
  "acquireWriteLock Unlocked = Inr WriteLocked"
| "acquireWriteLock (ReadLocked n) = Inl LockBlocked"
| "acquireWriteLock WriteLocked = Inl LockBlocked"
| "acquireWriteLock Destroyed = Inl UseAfterFree"

definition unlockWriteLock :: "RWLock \<Rightarrow> RWLock cres" where
  "unlockWriteLock self = pthread_unlock self"

definition changeReadToWriteLock :: "RWLock \<Rightarrow> RWLock cres" where
  "changeReadToWriteLock self = cbind (pthread_unlock self) acquireWriteLock"

definition changeWriteToReadLock :: "RWLock \<Rightarrow> RWLock cres" where
  "changeWriteToReadLock self = cbind (pthread_unlock self) acquireReadLock"

lemmas lock_defs [simp] =
  unlockReadLock_def unlockWriteLock_def changeReadToWriteLock_def changeWriteToReadLock_def

lemma acquireWriteLock_eq_Inr: "acquireWriteLock l = Inr l' \<longleftrightarrow> l = Unlocked \<and> l' = WriteLocked"
  by (cases l) auto

lemma acquireReadLock_then_unlock:
  "acquireReadLock l = Inr l' \<Longrightarrow> unlockReadLock l' = Inr l \<or> l = ReadLocked 0"
  by (cases l) auto

section \<open>Mutex\<close>

datatype Mutex = MutexFree | MutexLocked | MutexDestroyed

definition initMutex :: "bool \<Rightarrow> Mutex \<Rightarrow> bool \<times> Mutex" where
  "initMutex init_ok self = (if init_ok then (True, MutexFree) else (False, self))"

definition releaseMutex :: "Mutex \<Rightarrow> Mutex" where
  "releaseMutex self = MutexDestroyed"

fun lockMutex :: "Mutex \<Rightarrow> Mutex cres" where
  "lockMutex MutexFree = Inr MutexLocked"
| "lockMutex MutexLocked = Inl LockBlocked"
| "lockMutex MutexDestroyed = Inl UseAfterFree"

fun unlockMutex :: "Mutex \<Rightarrow> Mutex cres" where
  "unlockMutex MutexDestroyed = Inl UseAfterFree"
| "unlockMutex _ = Inr MutexFree"

lemma lockMutex_eq_Inr: "lockMutex m = Inr m' \<longleftrightarrow> m = MutexFree \<and> m' = MutexLocked"
  by (cases m) auto

end
