(* ===== verification/Aspa_Trie.thy ===== *)
theory Aspa_Trie
  imports SRx_Defs Rw_Lock
begin

text \<open>
  The ASPA database, \<open>server/aspa_trie.c\<close>, and the handler that fills it,
  \<open>handleAspaPdu\<close> of \<open>server/rpki_handler.c\<close>: a ten-way trie over the decimal digits of
  the customer AS number. A node owns its children, so the pointer structure is a recursive
  datatype; an index that is not a digit leaves the array of children and is \<open>OutOfBounds\<close>.
\<close>

section \<open>Data\<close>

text \<open>\<open>obj_addr\<close> is the address of the allocation, compared by \<open>insertAspaObj\<close>.\<close>

record ASPA_Object =
  obj_addr :: nat
  customerAsn :: u32
  providerAsCount :: u16
  providerAsns :: "u32 list option"
  afi :: u16

text \<open>\<open>userData\<close> is an address, 0 for null.\<close>

datatype TrieNode = TrieNode
  (data: u8) (children: "TrieNode option list") (is_leaf: bool) (userData: nat)
  (aspaObjects: "ASPA_Object option")

text \<open>\<open>countTrieNode\<close> is the file's static counter.\<close>

record ASPA_DBManager =
  tableRoot :: "TrieNode option"
  countAspaObj :: u32
  countTrieNode :: u32
  tableLock :: RWLock

section \<open>Nodes and objects\<close>

text \<open>The user data and the object handed to \<open>make_trienode\<close> are ignored.\<close>

definition make_trienode :: "u8 \<Rightarrow> nat \<Rightarrow> ASPA_Object option \<Rightarrow> TrieNode" where
  "make_trienode d ud obj = TrieNode d (replicate 10 None) False 0 None"

definition newAspaTrie :: TrieNode where
  "newAspaTrie = make_trienode 0 0 None"

text \<open>The nodes passed to \<open>free\<close>, in order; the objects they point to are not freed.\<close>

function free_trienode :: "TrieNode \<Rightarrow> TrieNode list" where
  "free_trienode (TrieNode d cs l u ob) =
     concat (map (\<lambda>c. case c of Some n \<Rightarrow> free_trienode n | None \<Rightarrow> []) cs) @ [TrieNode d cs l u ob]"
  by pat_completeness auto
termination
  by (relation "measure size") (auto dest!: size_list_estimation' [where f = "size_option size", OF _ order_refl])

definition initializeAspaDBManager :: "bool \<Rightarrow> ASPA_DBManager \<Rightarrow> bool \<times> ASPA_DBManager" where
  "initializeAspaDBManager lock_ok m =
     (let m = m\<lparr>tableRoot := Some newAspaTrie, countAspaObj := 0\<rparr>;
          (ok, l) = createRWLock lock_ok (tableLock m)
      in (ok, m\<lparr>tableLock := l\<rparr>))"

definition emptyAspaDB :: "ASPA_DBManager \<Rightarrow> ASPA_DBManager cres" where
  "emptyAspaDB self =
     cbind (acquireWriteLock (tableLock self)) (\<lambda>l.
       case tableRoot self of
         None \<Rightarrow> Inl NullDeref
       | Some root \<Rightarrow> cbind (unlockWriteLock l) (\<lambda>l.
           Inr (self\<lparr>tableRoot := None, countAspaObj := 0, tableLock := l\<rparr>)))"

definition releaseAspaDBManager :: "ASPA_DBManager option \<Rightarrow> ASPA_DBManager option cres" where
  "releaseAspaDBManager self = (case self of
      None \<Rightarrow> Inr None
    | Some m \<Rightarrow> cbind (emptyAspaDB (m\<lparr>tableLock := releaseRWLock (tableLock m)\<rparr>)) (\<lambda>m. Inr (Some m)))"

text \<open>The copy loop reads \<open>provAsns[idx]\<close> for each index below the count.\<close>

definition newASPAObject :: "nat \<Rightarrow> u32 \<Rightarrow> u16 \<Rightarrow> u32 list option \<Rightarrow> u16 \<Rightarrow> ASPA_Object cres" where
  "newASPAObject adr cusAsn pAsCount provAsns af =
     (let n = unat pAsCount;
          obj = \<lparr>obj_addr = adr, customerAsn = cusAsn, providerAsCount = pAsCount,
                 providerAsns = Some (replicate n 0), afi = af\<rparr>
      in case provAsns of
           None \<Rightarrow> Inr obj
         | Some ps \<Rightarrow> if length ps < n then Inl OutOfBounds
                      else Inr (obj\<lparr>providerAsns := Some (take n ps)\<rparr>))"

definition deleteASPAObject :: "ASPA_DBManager \<Rightarrow> ASPA_Object option \<Rightarrow> bool \<times> ASPA_DBManager" where
  "deleteASPAObject self obj = (case obj of
      Some _ \<Rightarrow> (True, self\<lparr>countAspaObj := countAspaObj self - 1\<rparr>)
    | None \<Rightarrow> (False, self))"

fun same_providers :: "u32 list option \<Rightarrow> u32 list option \<Rightarrow> nat list \<Rightarrow> bool cres" where
  "same_providers p q [] = Inr True"
| "same_providers p q (idx # ids) =
     cbind (read_arr p idx) (\<lambda>x. cbind (read_arr q idx) (\<lambda>y.
       if x \<noteq> y then Inr False else same_providers p q ids))"

definition compareAspaObject :: "ASPA_Object option \<Rightarrow> ASPA_Object option \<Rightarrow> bool cres" where
  "compareAspaObject obj1 obj2 = (case (obj1, obj2) of
      (Some o1, Some o2) \<Rightarrow>
        if customerAsn o1 \<noteq> customerAsn o2 then Inr False
        else if providerAsCount o1 \<noteq> providerAsCount o2 then Inr False
        else if afi o1 \<noteq> afi o2 then Inr False
        else same_providers (providerAsns o1) (providerAsns o2) [0..<unat (providerAsCount o1)]
    | _ \<Rightarrow> Inr False)"

section \<open>Trie operations\<close>

text \<open>\<open>temp->children[word[i] - '0']\<close>\<close>

definition child :: "TrieNode \<Rightarrow> u8 \<Rightarrow> TrieNode option cres" where
  "child t c = (if is_digit c then read_arr (Some (children t)) (unat c - 48) else Inl OutOfBounds)"

definition set_child :: "TrieNode \<Rightarrow> u8 \<Rightarrow> TrieNode option \<Rightarrow> TrieNode" where
  "set_child t c n = TrieNode (data t) ((children t)[unat c - 48 := n]) (is_leaf t) (userData t) (aspaObjects t)"

fun find_node :: "TrieNode \<Rightarrow> cstr \<Rightarrow> TrieNode option cres" where
  "find_node temp [] = Inr (Some temp)"
| "find_node temp (c # word) = cbind (child temp c) (\<lambda>n.
     case n of None \<Rightarrow> Inr None | Some n \<Rightarrow> find_node n word)"

text \<open>A loop over a word that is not empty dereferences the root at once.\<close>

definition find_root :: "TrieNode option \<Rightarrow> cstr \<Rightarrow> TrieNode option cres" where
  "find_root root word = (case root of
      None \<Rightarrow> if word = [] then Inr None else Inl NullDeref
    | Some t \<Rightarrow> find_node t word)"

definition search_trie :: "TrieNode option \<Rightarrow> cstr \<Rightarrow> int cres" where
  "search_trie root word = cbind (find_root root word) (\<lambda>temp.
     Inr (case temp of Some t \<Rightarrow> if is_leaf t then 1 else 0 | None \<Rightarrow> 0))"

definition findAspaObject :: "ASPA_DBManager \<Rightarrow> cstr \<Rightarrow> (ASPA_Object option \<times> ASPA_DBManager) cres" where
  "findAspaObject self word =
     cbind (acquireWriteLock (tableLock self)) (\<lambda>l.
     cbind (find_root (tableRoot self) word) (\<lambda>temp.
     cbind (unlockWriteLock l) (\<lambda>l.
       Inr (case temp of Some t \<Rightarrow> if is_leaf t then aspaObjects t else None | None \<Rightarrow> None,
            self\<lparr>tableLock := l\<rparr>))))"

text \<open>The walk of the insertion creates the missing nodes and ends with an update of the node
  reached.\<close>

fun insert_walk :: "TrieNode \<Rightarrow> cstr \<Rightarrow> nat \<Rightarrow> ASPA_Object option \<Rightarrow> (TrieNode \<Rightarrow> TrieNode) \<Rightarrow> TrieNode cres" where
  "insert_walk temp [] ud obj f = Inr (f temp)"
| "insert_walk temp (c # word) ud obj f = cbind (child temp c) (\<lambda>n.
     cbind (insert_walk (case n of None \<Rightarrow> make_trienode c ud obj | Some n \<Rightarrow> n) word ud obj f) (\<lambda>n.
       Inr (set_child temp c (Some n))))"

definition insert_leaf :: "nat \<Rightarrow> ASPA_Object option \<Rightarrow> TrieNode \<Rightarrow> TrieNode" where
  "insert_leaf ud obj t = TrieNode (data t) (children t) True ud obj"

text \<open>The object a new one replaces: \<open>temp->aspaObjects && temp->aspaObjects != obj\<close>.\<close>

definition substituted :: "ASPA_Object option \<Rightarrow> ASPA_Object option \<Rightarrow> ASPA_Object option" where
  "substituted old obj = (case old of
      None \<Rightarrow> None
    | Some ob \<Rightarrow> if map_option obj_addr obj = Some (obj_addr ob) then None else Some ob)"

definition insert_count :: "ASPA_Object option \<Rightarrow> ASPA_DBManager \<Rightarrow> ASPA_DBManager" where
  "insert_count subst self =
     (let self = (case subst of
          None \<Rightarrow> self
        | Some ob \<Rightarrow> (let m = snd (deleteASPAObject self (Some ob))
                       in m\<lparr>countTrieNode := countTrieNode m - 1\<rparr>))
      in self\<lparr>countTrieNode := countTrieNode self + 1, countAspaObj := countAspaObj self + 1\<rparr>)"

text \<open>The result is the node reached, null when there is no root and the word is empty.\<close>

definition insertAspaObj ::
  "ASPA_DBManager \<Rightarrow> cstr \<Rightarrow> nat \<Rightarrow> ASPA_Object option \<Rightarrow> (TrieNode option \<times> ASPA_DBManager) cres" where
  "insertAspaObj self word ud obj =
     cbind (acquireWriteLock (tableLock self)) (\<lambda>l.
     case tableRoot self of
       None \<Rightarrow> if word \<noteq> [] then Inl NullDeref
               else cbind (unlockWriteLock l) (\<lambda>l. Inr (None, self\<lparr>tableLock := l\<rparr>))
     | Some root \<Rightarrow>
         cbind (find_node root word) (\<lambda>old.
         cbind (insert_walk root word ud obj (insert_leaf ud obj)) (\<lambda>root'.
         cbind (find_node root' word) (\<lambda>temp.
         cbind (unlockWriteLock l) (\<lambda>l.
           Inr (temp, (insert_count (substituted (Option.bind old aspaObjects) obj) self)
                        \<lparr>tableRoot := Some root', tableLock := l\<rparr>))))))"

definition getCountTrieNode :: "ASPA_DBManager \<Rightarrow> u32" where
  "getCountTrieNode self = countTrieNode self"

text \<open>Removal looks the node up, compares its object and then clears the pointer in its parent, whatever
  the node has below it.\<close>

fun unlink_node :: "TrieNode \<Rightarrow> cstr \<Rightarrow> TrieNode cres" where
  "unlink_node temp [] = Inl NullDeref"
| "unlink_node temp [c] = Inr (set_child temp c None)"
| "unlink_node temp (c # word) = cbind (child temp c) (\<lambda>n. case n of
      None \<Rightarrow> Inl NullDeref
    | Some n \<Rightarrow> cbind (unlink_node n word) (\<lambda>n. Inr (set_child temp c (Some n))))"

definition delete_TrieNode_AspaObj ::
  "ASPA_DBManager \<Rightarrow> cstr \<Rightarrow> ASPA_Object option \<Rightarrow> (bool \<times> ASPA_DBManager) cres" where
  "delete_TrieNode_AspaObj self word obj =
     cbind (acquireWriteLock (tableLock self)) (\<lambda>l.
     cbind (find_root (tableRoot self) word) (\<lambda>temp.
     cbind (case temp of
         None \<Rightarrow> Inr False
       | Some t \<Rightarrow> if is_leaf t \<and> aspaObjects t \<noteq> None then compareAspaObject (aspaObjects t) obj
                    else Inr False) (\<lambda>match.
     cbind (if match
            then cbind (unlink_node (the (tableRoot self)) word) (\<lambda>root.
                   Inr ((snd (deleteASPAObject self (Option.bind temp aspaObjects)))\<lparr>tableRoot := Some root\<rparr>))
            else Inr self) (\<lambda>self.
     cbind (unlockWriteLock l) (\<lambda>l. Inr (match, self\<lparr>tableLock := l\<rparr>))))))"

section \<open>Lookup of a customer-provider pair\<close>

text \<open>\<open>sprintf\<close> into a buffer of \<open>n\<close> bytes, with its terminating zero.\<close>

definition sprintf_buf :: "nat \<Rightarrow> cstr \<Rightarrow> cstr cres" where
  "sprintf_buf n str = (if length str + 1 \<le> n then Inr str else Inl BufferOverflow)"

definition MAX_ASN_LENGTH :: nat where "MAX_ASN_LENGTH = 7"

fun provider_loop :: "ASPA_Object \<Rightarrow> u32 \<Rightarrow> u8 \<Rightarrow> nat list \<Rightarrow> u32 cres" where
  "provider_loop obj providerAsn af [] = Inr ASPA_RESULT_INVALID"
| "provider_loop obj providerAsn af (idx # ids) =
     cbind (read_arr (providerAsns obj) idx) (\<lambda>p.
       if p = providerAsn \<and> afi obj = ucast af then Inr ASPA_RESULT_VALID
       else provider_loop obj providerAsn af ids)"

definition ASPA_DB_lookup :: "ASPA_DBManager \<Rightarrow> u32 \<Rightarrow> u32 \<Rightarrow> u8 \<Rightarrow> (u32 \<times> ASPA_DBManager) cres" where
  "ASPA_DB_lookup self cusAsn providerAsn af =
     cbind (sprintf_buf MAX_ASN_LENGTH (sprintf_d cusAsn)) (\<lambda>strCusAsn.
     cbind (findAspaObject self strCusAsn) (\<lambda>(obj, self).
       case obj of
         None \<Rightarrow> Inr (ASPA_RESULT_UNKNOWN, self)
       | Some ob \<Rightarrow>
           if providerAsns ob \<noteq> None
           then cbind (provider_loop ob providerAsn af [0..<unat (providerAsCount ob)]) (\<lambda>r. Inr (r, self))
           else Inr (ASPA_RESULT_UNDEFINED, self)))"

section \<open>Announcements and withdrawals\<close>

text \<open>The three branches on the announce flag: announcement, withdrawal, anything else.\<close>

definition aspa_pdu_apply ::
  "nat \<Rightarrow> ASPA_DBManager \<Rightarrow> cstr \<Rightarrow> ASPA_Object \<Rightarrow> u8 \<Rightarrow> (int \<times> ASPA_DBManager) cres" where
  "aspa_pdu_apply buf m strWord aspaObj announce =
     (if announce = 1
      then cbind (insertAspaObj m strWord buf (Some aspaObj)) (\<lambda>(node, m).
             Inr (if node \<noteq> None then 1 else 0, m))
      else if announce = 0
      then cbind (delete_TrieNode_AspaObj m strWord (Some aspaObj)) (\<lambda>(res, m).
             Inr (if res then 1 else 0, m))
      else Inr (0, m))"

text \<open>\<open>handleAspaPdu\<close>; \<open>adr\<close> is the address of the new object, \<open>buf\<close> the address of the
  local buffer that is stored as user data of the node.\<close>

definition handleAspaPdu ::
  "nat \<Rightarrow> nat \<Rightarrow> ASPA_DBManager \<Rightarrow> u32 \<Rightarrow> u16 \<Rightarrow> u32 list option \<Rightarrow> u8 \<Rightarrow> u8 \<Rightarrow> (int \<times> ASPA_DBManager) cres" where
  "handleAspaPdu adr buf m cusAsn pAsCount provAsns addrFamilyType announce =
     (if addrFamilyType \<noteq> 0 \<and> addrFamilyType \<noteq> 1 then Inr (0, m)
      else
        (let af = (if addrFamilyType = 0 then AFI_IP else AFI_IP6)
         in cbind (newASPAObject adr cusAsn pAsCount provAsns af) (\<lambda>aspaObj.
            cbind (sprintf_buf 6 (sprintf_d cusAsn)) (\<lambda>strWord.
              aspa_pdu_apply buf m strWord aspaObj announce))))"

section \<open>Well-formed tries and what they store\<close>

text \<open>An object has as many providers as it says. Every node has ten children slots, and only leaves
  carry objects.\<close>

definition obj_wf :: "ASPA_Object \<Rightarrow> bool" where
  "obj_wf ob \<longleftrightarrow> (case providerAsns ob of None \<Rightarrow> False | Some ps \<Rightarrow> length ps = unat (providerAsCount ob))"

inductive trie_ok :: "TrieNode \<Rightarrow> bool" where
  "length cs = 10 \<Longrightarrow> (\<forall>x. ob = Some x \<longrightarrow> l \<and> obj_wf x) \<Longrightarrow> (\<forall>n. Some n \<in> set cs \<longrightarrow> trie_ok n) \<Longrightarrow>
   trie_ok (TrieNode d cs l u ob)"

inductive_simps trie_ok_simps: "trie_ok (TrieNode d cs l u ob)"

definition digit_word :: "cstr \<Rightarrow> bool" where
  "digit_word w \<longleftrightarrow> (\<forall>c \<in> set w. is_digit c)"

lemma digit_word_simps [simp]:
  "digit_word []" "digit_word (c # w) \<longleftrightarrow> is_digit c \<and> digit_word w"
  "digit_word (v @ w) \<longleftrightarrow> digit_word v \<and> digit_word w"
  "digit_word (dec_str n)"
  by (auto simp: digit_word_def dec_str_digits)

fun trie_get :: "TrieNode \<Rightarrow> cstr \<Rightarrow> ASPA_Object option" where
  "trie_get t [] = (if is_leaf t then aspaObjects t else None)"
| "trie_get t (c # w) = (case child t c of Inr (Some n) \<Rightarrow> trie_get n w | _ \<Rightarrow> None)"

lemma trie_okD:
  assumes "trie_ok t"
  shows "length (children t) = 10" "Some n \<in> set (children t) \<Longrightarrow> trie_ok n"
    "aspaObjects t = Some x \<Longrightarrow> is_leaf t \<and> obj_wf x"
  using assms by (cases t, auto simp: trie_ok_simps)+

lemma trie_ok_inner: "trie_ok t \<Longrightarrow> \<not> is_leaf t \<Longrightarrow> aspaObjects t = None"
  using trie_okD(3) by (cases "aspaObjects t") blast+

lemma trie_ok_iff:
  "trie_ok t \<longleftrightarrow> length (children t) = 10 \<and> (\<forall>x. aspaObjects t = Some x \<longrightarrow> is_leaf t \<and> obj_wf x) \<and>
     (\<forall>n. Some n \<in> set (children t) \<longrightarrow> trie_ok n)"
  by (cases t) (simp add: trie_ok_simps)

lemma digit_pos: "is_digit c \<Longrightarrow> unat c - 48 < 10"
  unfolding is_digit_def by arith

lemma digit_pos_inject: "is_digit c \<Longrightarrow> is_digit d \<Longrightarrow> unat c - 48 = unat d - 48 \<longleftrightarrow> c = d"
  unfolding is_digit_def word_unat_eq_iff by linarith

lemma child_ok: "trie_ok t \<Longrightarrow> is_digit c \<Longrightarrow> child t c = Inr (children t ! (unat c - 48))"
  using digit_pos [of c] by (simp add: child_def trie_okD(1))

lemma child_trie_ok: "trie_ok t \<Longrightarrow> child t c = Inr (Some n) \<Longrightarrow> trie_ok n"
  by (auto simp: child_def read_arr_def split: if_splits) (metis nth_mem trie_okD(2))

lemma child_set_child [simp]:
  "trie_ok t \<Longrightarrow> is_digit c \<Longrightarrow> child (set_child t c n) d = (if d = c then Inr n else child t d)"
  using digit_pos [of c] digit_pos [of d] digit_pos_inject [of c d] trie_okD(1) [of t]
  by (auto simp: child_def set_child_def)

lemma set_child_simps [simp]:
  "is_leaf (set_child t c n) = is_leaf t" "aspaObjects (set_child t c n) = aspaObjects t"
  "length (children (set_child t c n)) = length (children t)"
  by (simp_all add: set_child_def)

lemma set_child_ok:
  "trie_ok t \<Longrightarrow> (\<And>m. n = Some m \<Longrightarrow> trie_ok m) \<Longrightarrow> trie_ok (set_child t c n)"
  using set_update_subset_insert [of "children t" "unat c - 48" n]
  by (subst trie_ok_iff) (auto simp: trie_okD set_child_def)

lemma make_trienode_ok: "trie_ok (make_trienode c ud obj)"
  by (simp add: make_trienode_def trie_ok_simps)

lemma make_trienode_get: "trie_get (make_trienode c ud obj) w = None"
  by (cases w) (auto simp: make_trienode_def child_def read_arr_def)

lemma trie_get_other: "\<not> digit_word w \<Longrightarrow> trie_get t w = None"
  by (induction t w rule: trie_get.induct) (auto simp: child_def split: sum.splits option.splits)

text \<open>The search of the source finds what the trie stores.\<close>

lemma find_node_get:
  "trie_ok t \<Longrightarrow> digit_word w \<Longrightarrow>
   \<exists>r. find_node t w = Inr r \<and> trie_get t w = Option.bind r aspaObjects \<and>
       (\<forall>n. r = Some n \<longrightarrow> trie_ok n)"
proof (induction t w rule: find_node.induct)
  case (1 t)
  then show ?case using trie_ok_inner [of t] by auto
next
  case (2 t c w)
  then show ?case
    using child_trie_ok [of t c] by (auto simp: child_ok split: option.splits)
qed

lemma find_node_leaf: "trie_ok n \<Longrightarrow> (if is_leaf n then aspaObjects n else None) = aspaObjects n"
  using trie_ok_inner [of n] by auto

lemma insert_walk_ok:
  "trie_ok t \<Longrightarrow> digit_word w \<Longrightarrow> (\<And>x. obj = Some x \<Longrightarrow> obj_wf x) \<Longrightarrow>
   \<exists>t' n. insert_walk t w ud obj (insert_leaf ud obj) = Inr t' \<and> trie_ok t' \<and>
     trie_get t' = (trie_get t)(w := obj) \<and> find_node t' w = Inr (Some n)"
proof (induction w arbitrary: t)
  case Nil
  have "trie_ok (insert_leaf ud obj t)"
    using Nil by (simp add: trie_ok_iff [of t] insert_leaf_def trie_ok_simps)
  moreover have "trie_get (insert_leaf ud obj t) v = ((trie_get t)([] := obj)) v" for v
    by (cases v) (simp_all add: insert_leaf_def child_def)
  ultimately show ?case by auto
next
  case (Cons c w)
  define m where "m = (case children t ! (unat c - 48) of None \<Rightarrow> make_trienode c ud obj | Some n \<Rightarrow> n)"
  have c: "is_digit c" "child t c = Inr (children t ! (unat c - 48))"
    using Cons.prems by (simp_all add: child_ok)
  have "trie_ok m"
    using child_trie_ok [OF Cons.prems(1)] c make_trienode_ok by (auto simp: m_def split: option.split)
  with Cons obtain m' n where m': "insert_walk m w ud obj (insert_leaf ud obj) = Inr m'" "trie_ok m'"
    "trie_get m' = (trie_get m)(w := obj)" "find_node m' w = Inr (Some n)"
    by (metis digit_word_simps(2))
  have get_m: "trie_get m v = trie_get t (c # v)" for v
    using c by (simp add: m_def make_trienode_get split: option.split)
  let ?t = "set_child t c (Some m')"
  have "trie_get ?t v = ((trie_get t)(c # w := obj)) v" for v
    using Cons.prems c m'(3) get_m by (cases v) auto
  then show ?case
    using Cons.prems c m' set_child_ok [of t "Some m'" c] by (auto simp: m_def [symmetric])
qed

lemma unlink_node_ok:
  "trie_ok t \<Longrightarrow> digit_word w \<Longrightarrow> w \<noteq> [] \<Longrightarrow> find_node t w = Inr (Some n) \<Longrightarrow>
   \<exists>t'. unlink_node t w = Inr t' \<and> trie_ok t' \<and>
     trie_get t' = (\<lambda>v. if prefix w v then None else trie_get t v)"
proof (induction t w rule: unlink_node.induct)
  case (2 t c)
  have "trie_get (set_child t c None) v = (if prefix [c] v then None else trie_get t v)" for v
    using 2 by (cases v) auto
  then show ?case using 2 set_child_ok [of t None c] by auto
next
  case (3 t c d w)
  then obtain m where m: "child t c = Inr (Some m)" "find_node m (d # w) = Inr (Some n)"
    by (auto simp: cbind_eq_Inr split: option.splits)
  with 3 obtain m' where m': "unlink_node m (d # w) = Inr m'" "trie_ok m'"
    "trie_get m' = (\<lambda>v. if prefix (d # w) v then None else trie_get m v)"
    by (metis child_trie_ok digit_word_simps(2) list.discI)
  have "trie_get (set_child t c (Some m')) v = (if prefix (c # d # w) v then None else trie_get t v)" for v
    using 3 m m'(3) by (cases v) auto
  then show ?case using 3 m m' set_child_ok [of t "Some m'" c] by auto
qed simp_all

section \<open>The trie as a store with keys\<close>

text \<open>
  What the database expects of its store: an insertion defines one key and leaves the others, a
  removal takes away the keys \<open>below\<close> the removed one.
\<close>

fun put_all :: "('s \<Rightarrow> 'k \<Rightarrow> 'v \<Rightarrow> 's cres) \<Rightarrow> 's \<Rightarrow> ('k \<times> 'v) list \<Rightarrow> 's cres" where
  "put_all put s [] = Inr s"
| "put_all put s ((k, v) # kvs) = cbind (put s k v) (\<lambda>s. put_all put s kvs)"

locale key_store =
  fixes get :: "'s \<Rightarrow> 'k \<rightharpoonup> 'v"
    and put :: "'s \<Rightarrow> 'k \<Rightarrow> 'v \<Rightarrow> 's cres"
    and del :: "'s \<Rightarrow> 'k \<Rightarrow> 's cres"
    and inv :: "'s \<Rightarrow> bool"
    and key_ok :: "'k \<Rightarrow> bool"
    and val_ok :: "'v \<Rightarrow> bool"
    and below :: "'k \<Rightarrow> 'k \<Rightarrow> bool"
  assumes put_ok: "inv s \<Longrightarrow> key_ok k \<Longrightarrow> val_ok v \<Longrightarrow>
      \<exists>s'. put s k v = Inr s' \<and> inv s' \<and> get s' = (get s)(k \<mapsto> v)"
    and del_ok: "inv s \<Longrightarrow> key_ok k \<Longrightarrow> get s k \<noteq> None \<Longrightarrow>
      \<exists>s'. del s k = Inr s' \<and> inv s' \<and> get s' = (\<lambda>j. if below k j then None else get s j)"
    and finite_get: "inv s \<Longrightarrow> finite (dom (get s))"
    and below_refl: "below k k"
begin

lemma put_all_ok:
  "inv s \<Longrightarrow> \<forall>(k, v) \<in> set kvs. key_ok k \<and> val_ok v \<Longrightarrow>
   \<exists>s'. put_all put s kvs = Inr s' \<and> inv s' \<and> get s' = get s ++ map_of (rev kvs)"
proof (induction kvs arbitrary: s)
  case (Cons kv kvs)
  obtain k v where kv: "kv = (k, v)" by (cases kv)
  with Cons.prems obtain s1 where s1: "put s k v = Inr s1" "inv s1" "get s1 = (get s)(k \<mapsto> v)"
    using put_ok [of s k v] by auto
  have "\<forall>(k, v) \<in> set kvs. key_ok k \<and> val_ok v" using Cons.prems by simp
  then obtain s2 where "put_all put s1 kvs = Inr s2" "inv s2" "get s2 = get s1 ++ map_of (rev kvs)"
    using Cons.IH [OF s1(2)] by blast
  moreover have "get s1 ++ map_of (rev kvs) = get s ++ map_of (rev (kv # kvs))"
    by (rule ext) (simp add: s1(3) kv map_add_def split: option.split)
  ultimately show ?case using s1(1) kv by simp
qed simp

lemma del_card:
  assumes "inv s" "get s k \<noteq> None" "get s' = (\<lambda>j. if below k j then None else get s j)"
  shows "card (dom (get s)) = card (dom (get s')) + card {j \<in> dom (get s). below k j}"
    "0 < card {j \<in> dom (get s). below k j}"
proof -
  let ?lost = "{j \<in> dom (get s). below k j}"
  have "dom (get s') = dom (get s) - ?lost"
    using assms(3) by (auto split: if_splits)
  moreover have "card ?lost \<le> card (dom (get s))" "finite ?lost"
    using finite_get [OF assms(1)] by (auto intro: card_mono)
  ultimately show "card (dom (get s)) = card (dom (get s')) + card ?lost" "0 < card ?lost"
    using assms(2) below_refl [of k] by (auto simp: card_Diff_subset card_gt_0_iff)
qed

lemma put_card:
  assumes "inv s" "get s' = (get s)(k \<mapsto> v)"
  shows "card (dom (get s')) = (if get s k = None then Suc (card (dom (get s))) else card (dom (get s)))"
  using assms(2) finite_get [OF assms(1)] by (auto simp: card_insert_if domIff)

end

lemma trie_get_Cons_dom:
  "trie_ok t \<Longrightarrow> dom (trie_get t) \<subseteq> insert [] (\<Union>n \<in> {n. Some n \<in> set (children t)}. \<Union>c. Cons c ` dom (trie_get n))"
proof
  fix w
  assume t: "trie_ok t" "w \<in> dom (trie_get t)"
  show "w \<in> insert [] (\<Union>n \<in> {n. Some n \<in> set (children t)}. \<Union>c. Cons c ` dom (trie_get n))"
  proof (cases w)
    case (Cons c v)
    with t obtain n where n: "child t c = Inr (Some n)" "v \<in> dom (trie_get n)"
      by (fastforce split: sum.splits option.splits)
    then have "Some n \<in> set (children t)"
      by (auto simp: child_def read_arr_def split: if_splits) (metis nth_mem)
    with n Cons show ?thesis by auto
  qed simp
qed

lemma trie_finite: "trie_ok t \<Longrightarrow> finite (dom (trie_get t))"
proof (induction t rule: trie_ok.induct)
  case (1 cs ob l d u)
  let ?t = "TrieNode d cs l u ob"
  have fin: "finite {n. Some n \<in> set cs}"
    by (rule finite_surj [of "set cs" _ the]) (force simp: image_iff)+
  have "finite (\<Union>c. Cons (c :: u8) ` dom (trie_get n))" if "Some n \<in> set cs" for n
    using 1(3) that by auto
  then have "finite (insert [] (\<Union>n \<in> {n. Some n \<in> set (children ?t)}. \<Union>c. Cons c ` dom (trie_get n)))"
    using fin by simp
  moreover have "trie_ok ?t" using 1 by (auto simp: trie_ok_simps)
  ultimately show ?case using trie_get_Cons_dom finite_subset by blast
qed

definition trie_put :: "nat \<Rightarrow> TrieNode \<Rightarrow> cstr \<Rightarrow> ASPA_Object \<Rightarrow> TrieNode cres" where
  "trie_put ud t w ob = insert_walk t w ud (Some ob) (insert_leaf ud (Some ob))"

interpretation trie: key_store trie_get "trie_put ud" unlink_node trie_ok
  "\<lambda>w. digit_word w \<and> w \<noteq> []" obj_wf prefix for ud
proof
  fix t w ob
  assume "trie_ok t" "digit_word w \<and> w \<noteq> []" "obj_wf ob"
  then show "\<exists>t'. trie_put ud t w ob = Inr t' \<and> trie_ok t' \<and> trie_get t' = (trie_get t)(w \<mapsto> ob)"
    using insert_walk_ok [of t w "Some ob" ud] by (auto simp: trie_put_def)
next
  fix t w
  assume *: "trie_ok t" "digit_word w \<and> w \<noteq> []" "trie_get t w \<noteq> None"
  then obtain n where "find_node t w = Inr (Some n)"
    using find_node_get [of t w] by (auto simp: bind_eq_Some_conv)
  with * show "\<exists>t'. unlink_node t w = Inr t' \<and> trie_ok t' \<and>
      trie_get t' = (\<lambda>v. if prefix w v then None else trie_get t v)"
    using unlink_node_ok by blast
qed (simp_all add: trie_finite)

section \<open>The database\<close>

definition db_ok :: "ASPA_DBManager \<Rightarrow> bool" where
  "db_ok m \<longleftrightarrow> tableLock m = Unlocked \<and> (case tableRoot m of None \<Rightarrow> False | Some t \<Rightarrow> trie_ok t)"

definition db_words :: "ASPA_DBManager \<Rightarrow> cstr \<rightharpoonup> ASPA_Object" where
  "db_words m = (case tableRoot m of None \<Rightarrow> Map.empty | Some t \<Rightarrow> trie_get t)"

text \<open>The ASPA of a customer AS.\<close>

definition db_aspa :: "ASPA_DBManager \<Rightarrow> nat \<rightharpoonup> ASPA_Object" where
  "db_aspa m n = db_words m (dec_str n)"

lemma db_aspa_eq: "db_aspa m = (\<lambda>n. db_words m (dec_str n))"
  by (rule ext) (simp add: db_aspa_def)

definition db_counted :: "ASPA_DBManager \<Rightarrow> bool" where
  "db_counted m \<longleftrightarrow> countAspaObj m = of_nat (card (dom (db_words m)))"

lemma db_okE:
  assumes "db_ok m"
  obtains t where "tableLock m = Unlocked" "tableRoot m = Some t" "trie_ok t" "db_words m = trie_get t"
  using assms by (auto simp: db_ok_def db_words_def split: option.splits)

lemma db_ok_init: "db_ok (snd (initializeAspaDBManager True m))"
  "db_words (snd (initializeAspaDBManager True m)) = Map.empty"
  "db_counted (snd (initializeAspaDBManager True m))"
  by (auto simp: initializeAspaDBManager_def createRWLock_def db_ok_def db_words_def newAspaTrie_def
      make_trienode_ok make_trienode_get db_counted_def dom_def)

lemma findAspaObject_ok:
  assumes "db_ok m" "digit_word w"
  shows "findAspaObject m w = Inr (db_words m w, m)"
proof -
  from assms(1) obtain t where t: "tableLock m = Unlocked" "tableRoot m = Some t" "trie_ok t"
    "db_words m = trie_get t" by (rule db_okE)
  then obtain r where "find_node t w = Inr r" "trie_get t w = Option.bind r aspaObjects"
    "\<forall>n. r = Some n \<longrightarrow> trie_ok n"
    using find_node_get assms(2) by blast
  with t show ?thesis
    by (cases r) (simp_all add: findAspaObject_def find_root_def find_node_leaf)
qed

lemma insertAspaObj_db_ok:
  assumes "db_ok m" "digit_word w" "obj_wf ob"
  shows "\<exists>n m'. insertAspaObj m w ud (Some ob) = Inr (Some n, m') \<and> db_ok m' \<and>
    db_words m' = (db_words m)(w \<mapsto> ob)"
proof -
  from assms(1) obtain t where t: "tableLock m = Unlocked" "tableRoot m = Some t" "trie_ok t"
    "db_words m = trie_get t" by (rule db_okE)
  obtain r where "find_node t w = Inr r" using find_node_get t(3) assms(2) by blast
  moreover obtain t' n where "insert_walk t w ud (Some ob) (insert_leaf ud (Some ob)) = Inr t'" "trie_ok t'"
    "trie_get t' = (trie_get t)(w := Some ob)" "find_node t' w = Inr (Some n)"
    using insert_walk_ok [OF t(3) assms(2), of "Some ob" ud] assms(3) by auto
  ultimately show ?thesis using t by (auto simp: insertAspaObj_def db_ok_def db_words_def)
qed

lemma insertAspaObj_count:
  assumes "db_ok m" "digit_word w" "insertAspaObj m w ud (Some ob) = Inr (n, m')"
    "\<forall>x. db_words m w = Some x \<longrightarrow> obj_addr x \<noteq> obj_addr ob"
  shows "countAspaObj m' = (if db_words m w = None then countAspaObj m + 1 else countAspaObj m)"
proof -
  from assms(1) obtain t where t: "tableLock m = Unlocked" "tableRoot m = Some t" "trie_ok t"
    "db_words m = trie_get t" by (rule db_okE)
  obtain r where r: "find_node t w = Inr r" "trie_get t w = Option.bind r aspaObjects"
    using find_node_get t(3) assms(2) by blast
  then show ?thesis
    using assms(3,4) t
    by (auto simp: insertAspaObj_def cbind_eq_Inr insert_count_def substituted_def deleteASPAObject_def Let_def
        split: option.splits)
qed

lemma compareAspaObject_wf:
  assumes "obj_wf o1" "obj_wf o2"
  shows "compareAspaObject (Some o1) (Some o2) =
    Inr (customerAsn o1 = customerAsn o2 \<and> providerAsns o1 = providerAsns o2 \<and> afi o1 = afi o2 \<and>
      providerAsCount o1 = providerAsCount o2)"
proof -
  have same: "same_providers (Some p) (Some q) ids = Inr (\<forall>i \<in> set ids. p ! i = q ! i)"
    if "\<forall>i \<in> set ids. i < length p \<and> i < length q" for p q :: "u32 list" and ids
    using that by (induction ids) auto
  obtain p q where p: "providerAsns o1 = Some p" "length p = unat (providerAsCount o1)"
    "providerAsns o2 = Some q" "length q = unat (providerAsCount o2)"
    using assms by (auto simp: obj_wf_def split: option.splits)
  then show ?thesis
    using same [of "[0..<unat (providerAsCount o1)]" p q]
    by (auto simp: compareAspaObject_def list_eq_iff_nth_eq)
qed

lemma delete_ok:
  assumes "db_ok m" "digit_word w" "w \<noteq> []" "compareAspaObject (db_words m w) (Some ob) = Inr match"
  shows "\<exists>m'. delete_TrieNode_AspaObj m w (Some ob) = Inr (match, m') \<and> db_ok m' \<and>
    db_words m' = (if match then (\<lambda>v. if prefix w v then None else db_words m v) else db_words m) \<and>
    countAspaObj m' = (if match then countAspaObj m - 1 else countAspaObj m)"
proof -
  from assms(1) obtain t where t: "tableLock m = Unlocked" "tableRoot m = Some t" "trie_ok t"
    "db_words m = trie_get t" by (rule db_okE)
  obtain r where r: "find_node t w = Inr r" "trie_get t w = Option.bind r aspaObjects"
    "\<forall>n. r = Some n \<longrightarrow> trie_ok n"
    using find_node_get [OF t(3) assms(2)] by blast
  show ?thesis
  proof (cases "trie_get t w")
    case None
    with assms(4) t r show ?thesis
      by (cases r) (auto simp: delete_TrieNode_AspaObj_def find_root_def compareAspaObject_def db_ok_def db_words_def)
  next
    case (Some x)
    with r obtain n where n: "r = Some n" "aspaObjects n = Some x" "is_leaf n"
      using trie_okD(3) by (cases r) auto
    obtain t' where t': "unlink_node t w = Inr t'" "trie_ok t'"
      "trie_get t' = (\<lambda>v. if prefix w v then None else trie_get t v)"
      using unlink_node_ok t(3) assms(2,3) r(1) n(1) by blast
    have "compareAspaObject (Some x) (Some ob) = Inr match" using assms(4) t(4) Some by simp
    with t r n t' show ?thesis
      by (auto simp: delete_TrieNode_AspaObj_def find_root_def deleteASPAObject_def db_ok_def db_words_def)
  qed
qed

text \<open>The object \<open>handleAspaPdu\<close> builds from a PDU.\<close>

definition pdu_object :: "nat \<Rightarrow> u32 \<Rightarrow> u32 list \<Rightarrow> u8 \<Rightarrow> ASPA_Object" where
  "pdu_object adr cus provs fam =
     \<lparr>obj_addr = adr, customerAsn = cus, providerAsCount = of_nat (length provs),
      providerAsns = Some provs, afi = (if fam = 0 then AFI_IP else AFI_IP6)\<rparr>"

lemma pdu_object_wf: "length provs < 2 ^ 16 \<Longrightarrow> obj_wf (pdu_object adr cus provs fam)"
  by (simp add: obj_wf_def pdu_object_def unat_of_nat)

lemma newASPAObject_pdu:
  "length provs < 2 ^ 16 \<Longrightarrow>
   newASPAObject adr cus (of_nat (length provs)) (Some provs) (if fam = 0 then AFI_IP else AFI_IP6) =
     Inr (pdu_object adr cus provs fam)"
  by (simp add: newASPAObject_def pdu_object_def unat_of_nat Let_def)

lemma db_words_wf:
  assumes "db_ok m" "db_words m w = Some x"
  shows "obj_wf x"
proof -
  from assms(1) obtain t where t: "trie_ok t" "db_words m = trie_get t" by (rule db_okE)
  with assms(2) have "digit_word w" using trie_get_other by fastforce
  then obtain r where "trie_get t w = Option.bind r aspaObjects" "\<forall>n. r = Some n \<longrightarrow> trie_ok n"
    using find_node_get t(1) by blast
  with assms(2) t(2) show ?thesis by (cases r) (auto dest: trie_okD(3))
qed

lemma compare_stored:
  assumes "db_ok m" "length provs < 2 ^ 16"
  shows "compareAspaObject (db_words m w) (Some (pdu_object adr cus provs fam)) =
    Inr (case db_words m w of None \<Rightarrow> False | Some x \<Rightarrow>
      customerAsn x = cus \<and> providerAsns x = Some provs \<and> afi x = (if fam = 0 then AFI_IP else AFI_IP6))"
proof (cases "db_words m w")
  case (Some x)
  have "obj_wf x" using db_words_wf assms(1) Some by blast
  then have "providerAsns x = Some provs \<Longrightarrow> providerAsCount x = of_nat (length provs)"
    by (simp add: obj_wf_def)
  with Some \<open>obj_wf x\<close> show ?thesis
    using compareAspaObject_wf [OF \<open>obj_wf x\<close> pdu_object_wf [OF assms(2)], of adr cus fam]
    by (auto simp: pdu_object_def)
qed (simp add: compareAspaObject_def)

lemma sprintf_buf_asn:
  assumes "unat c < 10 ^ Suc k" "Suc k < 10"
  shows "sprintf_buf (Suc (Suc k)) (sprintf_d c) = Inr (dec_str (unat c))"
proof -
  have "(10 :: nat) ^ Suc k \<le> 10 ^ 9" using assms(2) by (intro power_increasing) simp_all
  also have "\<dots> < (2 :: nat) ^ 31" by simp
  finally have "sprintf_d c = dec_str (unat c)" using assms(1) by (intro sprintf_d_nonneg) simp
  then show ?thesis using length_dec_str_le_iff [of "unat c" k] assms(1) by (simp add: sprintf_buf_def)
qed

text \<open>The relation of a customer and a provider that the database records.\<close>

definition db_hop :: "ASPA_DBManager \<Rightarrow> u8 \<Rightarrow> u32 \<Rightarrow> u32 \<Rightarrow> u32" where
  "db_hop m af c p = (case db_aspa m (unat c) of
      None \<Rightarrow> ASPA_RESULT_UNKNOWN
    | Some ob \<Rightarrow> if p \<in> set (the (providerAsns ob)) \<and> afi ob = ucast af then ASPA_RESULT_VALID
                 else ASPA_RESULT_INVALID)"

lemma provider_loop_ok:
  "providerAsns ob = Some ps \<Longrightarrow> \<forall>i \<in> set ids. i < length ps \<Longrightarrow>
   provider_loop ob p af ids =
     Inr (if p \<in> nth ps ` set ids \<and> afi ob = ucast af then ASPA_RESULT_VALID else ASPA_RESULT_INVALID)"
  by (induction ids) auto

lemma ASPA_DB_lookup_ok:
  assumes "db_ok m" "unat c < 1000000"
  shows "ASPA_DB_lookup m c p af = Inr (db_hop m af c p, m)"
proof -
  have w: "sprintf_buf MAX_ASN_LENGTH (sprintf_d c) = Inr (dec_str (unat c))"
    using sprintf_buf_asn [of c 5] assms(2) by (simp add: MAX_ASN_LENGTH_def)
  have f: "findAspaObject m (dec_str (unat c)) = Inr (db_words m (dec_str (unat c)), m)"
    using findAspaObject_ok assms(1) by simp
  show ?thesis
  proof (cases "db_words m (dec_str (unat c))")
    case (Some ob)
    then obtain ps where ps: "providerAsns ob = Some ps" "length ps = unat (providerAsCount ob)"
      using db_words_wf [OF assms(1) Some] by (auto simp: obj_wf_def split: option.splits)
    have "nth ps ` {0..<unat (providerAsCount ob)} = set ps"
      using nth_image [of "unat (providerAsCount ob)" ps] ps(2) by simp
    with ps provider_loop_ok [OF ps(1), of "[0..<unat (providerAsCount ob)]" p af]
    show ?thesis using Some w f by (simp add: ASPA_DB_lookup_def db_hop_def db_aspa_def)
  qed (use w f in \<open>simp add: ASPA_DB_lookup_def db_hop_def db_aspa_def\<close>)
qed

lemma sprintf_buf_fails:
  assumes "\<not> unat c < 10 ^ Suc k" "sprintf_buf (Suc (Suc k)) (sprintf_d c) = Inr w"
  shows "\<exists>v. w = 45 # v"
proof (cases "unat c < 2 ^ 31")
  case True
  then have "sprintf_d c = dec_str (unat c)" by (rule sprintf_d_nonneg)
  then show ?thesis
    using assms length_dec_str_le_iff [of "unat c" k] by (simp add: sprintf_buf_def split: if_splits)
next
  case False
  then obtain n where "sprintf_d c = 45 # dec_str n" using sprintf_d_neg by blast
  then have "w = 45 # dec_str n" using assms(2) by (simp add: sprintf_buf_def split: if_splits)
  then show ?thesis by blast
qed

lemma find_root_minus: "\<exists>f. find_root r (45 # w) = Inl f"
  by (cases r) (simp_all add: find_root_def child_def is_digit_def)

text \<open>A database with the ASPAs of the AS numbers 1 and 12.\<close>

definition sample_db :: ASPA_DBManager where
  "sample_db = \<lparr>tableRoot = Some (TrieNode 0 ((replicate 10 None)[1 :=
       Some (TrieNode 49 ((replicate 10 None)[2 :=
          Some (TrieNode 50 (replicate 10 None) True 2 (Some (pdu_object 3 12 [7] 0)))])
        True 2 (Some (pdu_object 1 1 [5] 0)))]) False 0 None),
     countAspaObj = 2, countTrieNode = 2, tableLock = Unlocked\<rparr>"

lemma dec_str_digits_of: "dec_str 1 = [49]" "dec_str (Suc 0) = [49]" "dec_str 12 = [49, 50]" "dec_str 5 = [53]"
  by (simp_all add: dec_str_def base_digits.simps digit_code_def)

lemma sample_db_ok: "db_ok sample_db"
  by (simp add: sample_db_def db_ok_def trie_ok_simps pdu_object_def obj_wf_def eval_nat_numeral)

lemma sample_db_aspa:
  "countAspaObj sample_db = 2"
  "db_aspa sample_db 1 = Some (pdu_object 1 1 [5] 0)"
  "db_aspa sample_db (Suc 0) = Some (pdu_object 1 1 [5] 0)"
  "db_aspa sample_db 12 = Some (pdu_object 3 12 [7] 0)"
  by (simp_all add: db_aspa_def db_words_def sample_db_def dec_str_digits_of child_def is_digit_def)

lemma withdraw_exact:
  assumes "db_ok m" "unat cus < 100000" "length provs < 2 ^ 16" "fam = 0 \<or> fam = 1"
  shows "\<exists>m'. db_ok m' \<and>
    (case db_aspa m (unat cus) of
       Some x \<Rightarrow>
         if customerAsn x = cus \<and> providerAsns x = Some provs \<and> afi x = (if fam = 0 then AFI_IP else AFI_IP6)
         then handleAspaPdu adr buf m cus (of_nat (length provs)) (Some provs) fam 0 = Inr (1, m') \<and>
           db_words m' = (\<lambda>v. if prefix (dec_str (unat cus)) v then None else db_words m v) \<and>
           countAspaObj m' = countAspaObj m - 1
         else handleAspaPdu adr buf m cus (of_nat (length provs)) (Some provs) fam 0 = Inr (0, m') \<and>
           db_words m' = db_words m
     | None \<Rightarrow> handleAspaPdu adr buf m cus (of_nat (length provs)) (Some provs) fam 0 = Inr (0, m') \<and>
           db_words m' = db_words m)"
proof -
  let ?w = "dec_str (unat cus)" and ?ob = "pdu_object adr cus provs fam"
  have w: "sprintf_buf 6 (sprintf_d cus) = Inr ?w"
    using sprintf_buf_asn [of cus 4] assms(2) by simp
  define match where "match \<longleftrightarrow> (case db_words m ?w of None \<Rightarrow> False | Some x \<Rightarrow>
    customerAsn x = cus \<and> providerAsns x = Some provs \<and> afi x = (if fam = 0 then AFI_IP else AFI_IP6))"
  have cmp: "compareAspaObject (db_words m ?w) (Some ?ob) = Inr match"
    using compare_stored [OF assms(1,3), of ?w adr cus fam] by (simp add: match_def)
  obtain m' where m': "delete_TrieNode_AspaObj m ?w (Some ?ob) = Inr (match, m')" "db_ok m'"
    "db_words m' = (if match then (\<lambda>v. if prefix ?w v then None else db_words m v) else db_words m)"
    "countAspaObj m' = (if match then countAspaObj m - 1 else countAspaObj m)"
    using delete_ok [OF assms(1) _ _ cmp] by auto
  have "handleAspaPdu adr buf m cus (of_nat (length provs)) (Some provs) fam 0 = Inr (if match then 1 else 0, m')"
    using assms(4) newASPAObject_pdu [OF assms(3), of adr cus fam] w m'(1)
    by (auto simp: handleAspaPdu_def aspa_pdu_apply_def Let_def)
  with m'(2-4) show ?thesis
    by (intro exI [of _ m']) (auto simp: db_aspa_def fun_eq_iff match_def split: option.splits)
qed

text \<open>The runs of the database: it is initialised, receives PDUs and answers lookups.\<close>

inductive aspa_reachable :: "ASPA_DBManager \<Rightarrow> bool" where
  init: "aspa_reachable (snd (initializeAspaDBManager True m))"
| pdu: "aspa_reachable m \<Longrightarrow> handleAspaPdu adr buf m cus cnt provs fam announce = Inr (r, m') \<Longrightarrow>
    aspa_reachable m'"
| lookup: "aspa_reachable m \<Longrightarrow> ASPA_DB_lookup m c p af = Inr (r, m') \<Longrightarrow> aspa_reachable m'"

lemma newASPAObject_wf: "newASPAObject adr cus cnt provs af = Inr ob \<Longrightarrow> obj_wf ob"
  by (auto simp: newASPAObject_def obj_wf_def Let_def split: option.splits if_splits)

lemma find_minus_fails:
  assumes "db_ok m"
  shows "\<exists>f. insertAspaObj m (45 # v) ud ob = Inl f" "\<exists>f. delete_TrieNode_AspaObj m (45 # v) ob = Inl f"
    "\<exists>f. findAspaObject m (45 # v) = Inl f"
proof -
  from assms obtain t where t: "tableLock m = Unlocked" "tableRoot m = Some t" by (rule db_okE)
  obtain f where "find_node t (45 # v) = Inl f"
    using find_root_minus [of "Some t" v] by (auto simp: find_root_def)
  with t show "\<exists>f. insertAspaObj m (45 # v) ud ob = Inl f" "\<exists>f. delete_TrieNode_AspaObj m (45 # v) ob = Inl f"
    "\<exists>f. findAspaObject m (45 # v) = Inl f"
    by (simp_all add: insertAspaObj_def delete_TrieNode_AspaObj_def findAspaObject_def find_root_def)
qed

lemma sprintf_buf_word:
  assumes "sprintf_buf (Suc (Suc k)) (sprintf_d c) = Inr w" "Suc k < 10"
  shows "(\<exists>v. w = 45 # v) \<or> w = dec_str (unat c)"
  using assms sprintf_buf_fails [OF _ assms(1)] sprintf_buf_asn [of c k] by (cases "unat c < 10 ^ Suc k") auto

lemma handleAspaPdu_db_ok:
  assumes "db_ok m" "handleAspaPdu adr buf m cus cnt provs fam announce = Inr (r, m')"
  shows "db_ok m'"
proof (cases "fam = 0 \<or> fam = 1")
  case True
  with assms(2) obtain ob w where "newASPAObject adr cus cnt provs (if fam = 0 then AFI_IP else AFI_IP6) = Inr ob"
    and w: "sprintf_buf 6 (sprintf_d cus) = Inr w" and run: "aspa_pdu_apply buf m w ob announce = Inr (r, m')"
    by (auto simp: handleAspaPdu_def Let_def cbind_eq_Inr)
  then have ob: "obj_wf ob" using newASPAObject_wf by blast
  consider (minus) v where "w = 45 # v" | (word) "w = dec_str (unat cus)"
    using sprintf_buf_word [of 4 cus w] w by auto
  then show ?thesis
  proof cases
    case minus
    with run assms(1) find_minus_fails [OF assms(1), of v] show ?thesis
      by (auto simp: aspa_pdu_apply_def split: if_splits) (metis cbind_simps(1) sum.distinct(1))+
  next
    case word
    obtain match where cmp: "compareAspaObject (db_words m w) (Some ob) = Inr match"
      using compareAspaObject_wf [OF _ ob] db_words_wf [OF assms(1), of w]
      by (cases "db_words m w") (auto simp: compareAspaObject_def)
    show ?thesis
      using run assms(1) word ob insertAspaObj_db_ok [OF assms(1) _ ob, of w buf] delete_ok [OF assms(1) _ _ cmp]
      by (auto simp: aspa_pdu_apply_def split: if_splits)
  qed
qed (use assms in \<open>auto simp: handleAspaPdu_def\<close>)

lemma aspa_reachable_ok: "aspa_reachable m \<Longrightarrow> db_ok m"
proof (induction rule: aspa_reachable.induct)
  case (lookup m c p af r m')
  obtain w where w: "sprintf_buf 7 (sprintf_d c) = Inr w" "\<exists>x. findAspaObject m w = Inr x"
    using lookup.hyps(2) by (auto simp: ASPA_DB_lookup_def cbind_eq_Inr MAX_ASN_LENGTH_def)
  have "w \<noteq> 45 # v" for v using w(2) find_minus_fails(3) [OF lookup.IH, of v] by auto
  then have "w = dec_str (unat c)" using sprintf_buf_word [of 5 c w] w(1) by auto
  then have "findAspaObject m w = Inr (db_words m w, m)" using findAspaObject_ok lookup.IH by simp
  with w lookup show ?case
    by (auto simp: ASPA_DB_lookup_def cbind_eq_Inr MAX_ASN_LENGTH_def split: option.splits if_splits)
qed (auto intro: db_ok_init handleAspaPdu_db_ok)

lemma announce_stored:
  assumes "db_ok m" "unat cus < 100000" "length provs < 2 ^ 16" "fam = 0 \<or> fam = 1"
  shows "\<exists>n m'. handleAspaPdu adr buf m cus (of_nat (length provs)) (Some provs) fam 1 = Inr (1, m') \<and> db_ok m' \<and>
    insertAspaObj m (dec_str (unat cus)) buf (Some (pdu_object adr cus provs fam)) = Inr (n, m') \<and>
    db_words m' = (db_words m)(dec_str (unat cus) \<mapsto> pdu_object adr cus provs fam)"
proof -
  have w: "sprintf_buf 6 (sprintf_d cus) = Inr (dec_str (unat cus))"
    using sprintf_buf_asn [of cus 4] assms(2) by simp
  obtain n m' where ins: "insertAspaObj m (dec_str (unat cus)) buf (Some (pdu_object adr cus provs fam)) = Inr (Some n, m')"
    "db_ok m'" "db_words m' = (db_words m)(dec_str (unat cus) \<mapsto> pdu_object adr cus provs fam)"
    using insertAspaObj_db_ok [OF assms(1) _ pdu_object_wf [OF assms(3)], where w = "dec_str (unat cus)" and ud = buf]
    by (metis digit_word_simps(4))
  then show ?thesis
    using assms(4) newASPAObject_pdu [OF assms(3), of adr cus fam] w
    by (auto simp: handleAspaPdu_def aspa_pdu_apply_def Let_def)
qed

lemma announce_counted:
  assumes "db_ok m" "db_counted m" "unat cus < 100000" "length provs < 2 ^ 16" "fam = 0 \<or> fam = 1"
    "db_aspa m (unat cus) = Some x" "obj_addr x \<noteq> adr"
  shows "\<exists>m'. handleAspaPdu adr buf m cus (of_nat (length provs)) (Some provs) fam 1 = Inr (1, m') \<and> db_counted m'"
proof -
  let ?w = "dec_str (unat cus)" and ?ob = "pdu_object adr cus provs fam"
  obtain n m' where m': "handleAspaPdu adr buf m cus (of_nat (length provs)) (Some provs) fam 1 = Inr (1, m')"
    "insertAspaObj m ?w buf (Some ?ob) = Inr (n, m')" "db_words m' = (db_words m)(?w \<mapsto> ?ob)" "db_ok m'"
    using announce_stored [OF assms(1,3-5)] by blast
  have "countAspaObj m' = countAspaObj m"
    using insertAspaObj_count [OF assms(1) _ m'(2)] assms(6,7) by (simp add: db_aspa_def pdu_object_def)
  moreover obtain t t' where "trie_ok t" "db_words m = trie_get t" "db_words m' = trie_get t'"
    using assms(1) m'(4) by (meson db_okE)
  then have "card (dom (db_words m')) = card (dom (db_words m))"
    using trie.put_card [of t t' ?w ?ob] m'(3) assms(6) by (simp add: db_aspa_def)
  ultimately show ?thesis using m'(1) assms(2) by (auto simp: db_counted_def)
qed

lemma withdraw_counted:
  assumes "db_ok m" "db_counted m" "unat cus < 100000" "length provs < 2 ^ 16" "fam = 0 \<or> fam = 1"
    "db_aspa m (unat cus) = Some x" "customerAsn x = cus" "providerAsns x = Some provs"
    "afi x = (if fam = 0 then AFI_IP else AFI_IP6)"
  shows "\<exists>m'. handleAspaPdu adr buf m cus (of_nat (length provs)) (Some provs) fam 0 = Inr (1, m') \<and>
    countAspaObj m' = of_nat (card (dom (db_words m')) +
        (card {v \<in> dom (db_words m). prefix (dec_str (unat cus)) v} - 1))"
proof -
  let ?w = "dec_str (unat cus)"
  let ?lost = "{v \<in> dom (db_words m). prefix ?w v}"
  obtain m' where m': "handleAspaPdu adr buf m cus (of_nat (length provs)) (Some provs) fam 0 = Inr (1, m')"
    "db_ok m'" "db_words m' = (\<lambda>v. if prefix ?w v then None else db_words m v)"
    "countAspaObj m' = countAspaObj m - 1"
    using withdraw_exact [OF assms(1,3-5), of adr buf] assms(6-9) by auto
  obtain t t' where t: "trie_ok t" "db_words m = trie_get t" "db_words m' = trie_get t'"
    using assms(1) m'(2) by (meson db_okE)
  have "trie_get t' = (\<lambda>v. if prefix ?w v then None else trie_get t v)"
    using m'(3) unfolding t(2,3) .
  from trie.del_card [OF t(1) _ this] assms(6)
  have "card (dom (db_words m)) = card (dom (db_words m')) + card ?lost" "0 < card ?lost"
    by (simp_all add: db_aspa_def t(2,3))
  then have "card (dom (db_words m)) = Suc (card (dom (db_words m')) + (card ?lost - 1))" by simp
  then show ?thesis using m'(1,4) assms(2) by (auto simp: db_counted_def simp del: of_nat_add)
qed

lemma sample_child:
  "child (TrieNode d ((replicate 10 None)[i := n]) l u ob) c =
     (if is_digit c then Inr (if unat c - 48 = i then n else None) else Inl OutOfBounds)"
  "child (TrieNode d (replicate 10 None) l u ob) c = (if is_digit c then Inr None else Inl OutOfBounds)"
  using digit_pos [of c] by (auto simp: child_def nth_list_update)

lemma digit_is: "is_digit c \<Longrightarrow> unat c - 48 = 1 \<longleftrightarrow> c = 49" "is_digit c \<Longrightarrow> unat c - 48 = 2 \<longleftrightarrow> c = 50"
  using digit_pos_inject [of c 49] digit_pos_inject [of c 50] by (auto simp: is_digit_def)

lemma sample_db_words:
  "db_words sample_db w = (if w = [49] then Some (pdu_object 1 1 [5] 0)
     else if w = [49, 50] then Some (pdu_object 3 12 [7] 0) else None)"
proof (cases w)
  case (Cons c v)
  show ?thesis
  proof (cases v)
    case Nil
    with Cons show ?thesis
      by (simp add: db_words_def sample_db_def sample_child digit_is [simplified] is_digit_def)
  next
    case c2: (Cons d u)
    with Cons show ?thesis
      by (cases u) (simp_all add: db_words_def sample_db_def sample_child digit_is [simplified] is_digit_def)
  qed
qed (simp add: db_words_def sample_db_def)

lemma sample_db_counted: "db_counted sample_db"
proof -
  have "dom (db_words sample_db) = {[49], [49, 50]}"
    by (auto simp: sample_db_words split: if_splits)
  then show ?thesis by (simp add: db_counted_def sample_db_aspa)
qed

section \<open>Properties\<close>

text \<open>C21. An announcement that fits the buffers is stored: \<open>handleAspaPdu\<close> returns 1, and the
  database holds the announced object for its customer AS and is unchanged for every other AS. The
  object replaces whatever the customer had, so an announcement for one address family removes the
  providers announced for the other one.\<close>

theorem handleAspaPdu_announce:
  assumes "db_ok m" "unat cus < 100000" "length provs < 2 ^ 16" "fam = 0 \<or> fam = 1"
  shows "\<exists>m'. handleAspaPdu adr buf m cus (of_nat (length provs)) (Some provs) fam 1 = Inr (1, m') \<and>
    db_ok m' \<and> db_aspa m' = (db_aspa m)(unat cus \<mapsto> pdu_object adr cus provs fam)"
  using announce_stored [OF assms, of adr buf] by (auto simp: db_aspa_def fun_eq_iff)

theorem handleAspaPdu_announce_witness:
  "\<exists>m'. handleAspaPdu 9 2 sample_db 12 2 (Some [7, 8]) 1 1 = Inr (1, m') \<and>
    db_ok m' \<and> db_aspa m' = (db_aspa sample_db)(12 \<mapsto> pdu_object 9 12 [7, 8] 1)"
  using handleAspaPdu_announce [of sample_db 12 "[7, 8]" 1 9 2]
  by (simp add: sample_db_ok sample_db_aspa pdu_object_def)

text \<open>\<open>handleAspaPdu\<close> does not survive an AS number above 99999: for every announcement
  or withdrawal with a known address family and such a customer it overflows the buffer of six bytes
  or reads outside of a trie node.\<close>

lemma handleAspaPdu_large_asn:
  assumes "db_ok m" "100000 \<le> unat cus" "fam = 0 \<or> fam = 1" "announce = 0 \<or> announce = 1"
  shows "\<exists>f. handleAspaPdu adr buf m cus cnt provs fam announce = Inl f"
proof -
  let ?af = "if fam = 0 then AFI_IP else AFI_IP6"
  show ?thesis
  proof (cases "newASPAObject adr cus cnt provs ?af")
    case (Inr ob)
    show ?thesis
    proof (cases "sprintf_buf 6 (sprintf_d cus)")
      case w: (Inr w)
      then obtain v where v: "w = 45 # v" using sprintf_buf_fails [of cus 4 w] assms(2) by auto
      from assms(1) obtain t where t: "tableLock m = Unlocked" "tableRoot m = Some t" by (rule db_okE)
      obtain f where "find_node t (45 # v) = Inl f"
        using find_root_minus [of "Some t" v] by (auto simp: find_root_def)
      with v t have "insertAspaObj m w buf (Some ob) = Inl f" "delete_TrieNode_AspaObj m w (Some ob) = Inl f"
        by (simp_all add: insertAspaObj_def delete_TrieNode_AspaObj_def find_root_def)
      with w Inr assms(3,4) show ?thesis by (auto simp: handleAspaPdu_def aspa_pdu_apply_def Let_def)
    qed (use Inr assms(3) in \<open>auto simp: handleAspaPdu_def aspa_pdu_apply_def Let_def\<close>)
  qed (use assms(3) in \<open>auto simp: handleAspaPdu_def aspa_pdu_apply_def Let_def\<close>)
qed

text \<open>C22. A withdrawal for a customer AS below 100000, with a known address family, that matches the stored object removes it, and with it every stored ASPA
  whose customer AS number starts with the same decimal digits: the node is freed with everything
  below it. A withdrawal for such a customer that does not match leaves the stored objects as they are. For every larger customer AS number \<open>handleAspaPdu\<close> does not return normally: the number overruns
  the buffer of six bytes, or is printed with a minus sign and the trie is read outside of a node.\<close>

theorem handleAspaPdu_withdraw:
  assumes "db_ok m" "length provs < 2 ^ 16" "fam = 0 \<or> fam = 1"
  shows "if unat cus < 100000
    then \<exists>m'. db_ok m' \<and>
      (case db_aspa m (unat cus) of
         Some x \<Rightarrow>
           if customerAsn x = cus \<and> providerAsns x = Some provs \<and> afi x = (if fam = 0 then AFI_IP else AFI_IP6)
           then handleAspaPdu adr buf m cus (of_nat (length provs)) (Some provs) fam 0 = Inr (1, m') \<and>
             db_aspa m' = (\<lambda>n. if prefix (dec_str (unat cus)) (dec_str n) then None else db_aspa m n) \<and>
             countAspaObj m' = countAspaObj m - 1
           else handleAspaPdu adr buf m cus (of_nat (length provs)) (Some provs) fam 0 = Inr (0, m') \<and>
             db_aspa m' = db_aspa m
       | None \<Rightarrow> handleAspaPdu adr buf m cus (of_nat (length provs)) (Some provs) fam 0 = Inr (0, m') \<and>
             db_aspa m' = db_aspa m)
    else \<exists>f. handleAspaPdu adr buf m cus (of_nat (length provs)) (Some provs) fam 0 = Inl f"
proof (cases "unat cus < 100000")
  case True
  obtain m' where "db_ok m'" and "case db_aspa m (unat cus) of
      Some x \<Rightarrow> if customerAsn x = cus \<and> providerAsns x = Some provs \<and> afi x = (if fam = 0 then AFI_IP else AFI_IP6)
        then handleAspaPdu adr buf m cus (of_nat (length provs)) (Some provs) fam 0 = Inr (1, m') \<and>
          db_words m' = (\<lambda>v. if prefix (dec_str (unat cus)) v then None else db_words m v) \<and>
          countAspaObj m' = countAspaObj m - 1
        else handleAspaPdu adr buf m cus (of_nat (length provs)) (Some provs) fam 0 = Inr (0, m') \<and> db_words m' = db_words m
    | None \<Rightarrow> handleAspaPdu adr buf m cus (of_nat (length provs)) (Some provs) fam 0 = Inr (0, m') \<and> db_words m' = db_words m"
    using withdraw_exact [OF assms(1) True assms(2,3), of adr buf] by blast
  then show ?thesis unfolding if_P [OF True]
    by (intro exI [of _ m']) (auto simp: db_aspa_eq db_aspa_def split: option.splits if_splits)
next
  case False
  then have "100000 \<le> unat cus" "(0 :: u8) = 0 \<or> (0 :: u8) = 1" by simp_all
  from handleAspaPdu_large_asn [OF assms(1) this(1) assms(3) this(2)] show ?thesis unfolding if_not_P [OF False] .
qed

theorem handleAspaPdu_withdraw_witness:
  "\<exists>m'. db_ok m' \<and> handleAspaPdu 9 2 sample_db 1 1 (Some [5]) 0 0 = Inr (1, m') \<and>
     db_aspa m' = (\<lambda>n. if prefix [49] (dec_str n) then None else db_aspa sample_db n) \<and>
     countAspaObj m' = 1"
  using handleAspaPdu_withdraw [of sample_db "[5]" 0 1 9 2]
  by (auto simp: sample_db_ok sample_db_aspa pdu_object_def dec_str_digits_of)

text \<open>C23. \<open>ASPA_DB_lookup\<close> answers for every customer AS number below one million what the
  database records: UNKNOWN without an ASPA, VALID for a listed provider of the same address family,
  INVALID otherwise. For every larger AS number, which are most of the 32 bit numbers, it does not
  return normally: the number does not fit the buffer of seven bytes, or it is printed with a minus
  sign and the trie is read outside of a node.\<close>

theorem ASPA_DB_lookup_correct:
  assumes "db_ok m"
  shows "if unat c < 1000000 then ASPA_DB_lookup m c p af = Inr (db_hop m af c p, m)
         else \<exists>f. ASPA_DB_lookup m c p af = Inl f"
proof (cases "unat c < 1000000")
  case False
  show ?thesis
  proof (cases "sprintf_buf MAX_ASN_LENGTH (sprintf_d c)")
    case (Inr w)
    then obtain v where "w = 45 # v"
      using sprintf_buf_fails [of c 5 w] False by (auto simp: MAX_ASN_LENGTH_def)
    with Inr False find_root_minus [of "tableRoot m" v] assms show ?thesis
      by (auto simp: ASPA_DB_lookup_def findAspaObject_def db_ok_def)
  qed (use False in \<open>simp add: ASPA_DB_lookup_def\<close>)
qed (simp add: ASPA_DB_lookup_ok assms)

theorem ASPA_DB_lookup_correct_witness:
  "ASPA_DB_lookup sample_db 12 7 1 = Inr (ASPA_RESULT_VALID, sample_db) \<and>
   ASPA_DB_lookup sample_db 12 5 1 = Inr (ASPA_RESULT_INVALID, sample_db) \<and>
   (\<exists>f. ASPA_DB_lookup sample_db 4200000000 5 1 = Inl f)"
  using ASPA_DB_lookup_correct [OF sample_db_ok, of 12 7 1] ASPA_DB_lookup_correct [OF sample_db_ok, of 12 5 1]
    ASPA_DB_lookup_correct [OF sample_db_ok, of 4200000000 5 1]
  by (simp add: db_hop_def sample_db_aspa pdu_object_def)

theorem handleAspaPdu_large_asn_witness:
  "\<exists>f. handleAspaPdu 9 2 sample_db 200000 1 (Some [5]) 0 1 = Inl f"
  using handleAspaPdu_large_asn [OF sample_db_ok, of 200000 0 1 9 2 1 "Some [5]"] by simp

text \<open>After a matching withdrawal for one customer AS the database no longer knows the ASPA of
  another customer whose number continues the same digits: its lookup turns from VALID or INVALID
  to UNKNOWN, although its ASPA was never withdrawn.\<close>

lemma withdrawal_forgets_longer_asns:
  assumes "db_ok m" "unat cus < 100000" "length provs < 2 ^ 16"
    "db_aspa m (unat cus) = Some x" "customerAsn x = cus" "providerAsns x = Some provs" "afi x = AFI_IP"
    "db_aspa m (unat c) = Some y" "prefix (dec_str (unat cus)) (dec_str (unat c))" "unat c < 1000000"
  shows "\<exists>m' r. handleAspaPdu adr buf m cus (of_nat (length provs)) (Some provs) 0 0 = Inr (1, m') \<and>
    ASPA_DB_lookup m c p af = Inr (r, m) \<and> r \<noteq> ASPA_RESULT_UNKNOWN \<and>
    ASPA_DB_lookup m' c p af = Inr (ASPA_RESULT_UNKNOWN, m')"
proof -
  obtain m' where "handleAspaPdu adr buf m cus (of_nat (length provs)) (Some provs) 0 0 = Inr (1, m')"
    "db_ok m'" "db_aspa m' (unat c) = None"
    using withdraw_exact [OF assms(1-3), of 0 adr buf] assms(4-7,9) by (auto simp: db_aspa_def)
  then show ?thesis
    using assms(8,10) ASPA_DB_lookup_ok [OF assms(1,10), of p af] ASPA_DB_lookup_ok [of m' c p af]
    by (auto simp: db_hop_def)
qed

theorem withdrawal_forgets_longer_asns_witness:
  "\<exists>m' r. handleAspaPdu 9 2 sample_db 1 1 (Some [5]) 0 0 = Inr (1, m') \<and>
    ASPA_DB_lookup sample_db 12 7 1 = Inr (r, sample_db) \<and> r \<noteq> ASPA_RESULT_UNKNOWN \<and>
    ASPA_DB_lookup m' 12 7 1 = Inr (ASPA_RESULT_UNKNOWN, m')"
  using withdrawal_forgets_longer_asns [OF sample_db_ok, of 1 "[5]" "pdu_object 1 1 [5] 0" 12 "pdu_object 3 12 [7] 0" 9 2 7 1]
  by (simp add: sample_db_aspa dec_str_digits_of pdu_object_def)

text \<open>C24. No PDU and no lookup damages the database: in every state that is reachable from its
  initialisation by handling PDUs with arbitrary contents and by lookups, as long as these return, the
  lock is free, every node of the trie has its ten slots, and every stored object has as many providers
  as it announces.\<close>

theorem aspa_database_invariant:
  assumes "aspa_reachable m"
  shows "db_ok m"
  using assms by (rule aspa_reachable_ok)

theorem aspa_database_invariant_witness:
  "db_ok (snd (initializeAspaDBManager True sample_db))"
  by (rule aspa_database_invariant) (rule aspa_reachable.init)

text \<open>The counter of stored objects: an announcement whose object is at a fresh address keeps it
  equal to the number of stored ASPAs; a matching withdrawal leaves it too high by the number of
  ASPAs that were lost together with the withdrawn one.\<close>

theorem aspa_counter:
  assumes "db_ok m" "db_counted m" "unat cus < 100000" "length provs < 2 ^ 16" "fam = 0 \<or> fam = 1"
    "db_aspa m (unat cus) = Some x" "obj_addr x \<noteq> adr"
    "customerAsn x = cus" "providerAsns x = Some provs" "afi x = (if fam = 0 then AFI_IP else AFI_IP6)"
  shows "(\<exists>m'. handleAspaPdu adr buf m cus (of_nat (length provs)) (Some provs) fam 1 = Inr (1, m') \<and> db_counted m') \<and>
    (\<exists>m'. handleAspaPdu adr buf m cus (of_nat (length provs)) (Some provs) fam 0 = Inr (1, m') \<and>
      countAspaObj m' = of_nat (card (dom (db_words m')) +
        (card {v \<in> dom (db_words m). prefix (dec_str (unat cus)) v} - 1)))"
  using announce_counted [OF assms(1-5)] withdraw_counted [OF assms(1-5)] assms(6-10) by blast

theorem aspa_counter_witness:
  "(\<exists>m'. handleAspaPdu 9 2 sample_db 12 1 (Some [7]) 0 1 = Inr (1, m') \<and> db_counted m') \<and>
    (\<exists>m'. handleAspaPdu 9 2 sample_db 12 1 (Some [7]) 0 0 = Inr (1, m') \<and>
      countAspaObj m' = of_nat (card (dom (db_words m')) +
        (card {v \<in> dom (db_words sample_db). prefix [49, 50] v} - 1)))"
  using aspa_counter [OF sample_db_ok sample_db_counted, of 12 "[7]" 0 "pdu_object 3 12 [7] 0" 9 2]
  by (simp add: sample_db_aspa dec_str_digits_of pdu_object_def)

text \<open>\<open>releaseAspaDBManager\<close> never finishes properly: it destroys the lock first and then
  acquires the destroyed lock to empty the database.\<close>

theorem releaseAspaDBManager_uses_destroyed_lock:
  "releaseAspaDBManager (Some m) = Inl UseAfterFree"
  by (simp add: releaseAspaDBManager_def releaseRWLock_def emptyAspaDB_def)

end
