(* ===== verification/Aspa_Validation.thy ===== *)
theory Aspa_Validation
  imports Aspa_Trie
begin

text \<open>
  \<open>validateASPA\<close> of \<open>server/command_handler.c\<close>: the verification of an AS path against
  the ASPA database. The loops call the database through \<open>lk\<close>, which stands for
  \<open>ASPA_DB_lookup\<close> with the database and the address family of the call; the locale
  \<open>hop_relation\<close> states what they rely on, and the database interprets it.

  The main results give the verdicts in terms of the hops of the path alone: upstream, every hop has to
  be a customer to provider hop; downstream, the path climbs to one hop and descends after it.
\<close>

section \<open>The source\<close>

definition isSet :: "u32 \<Rightarrow> u32 \<Rightarrow> bool" where
  "isSet bitmask bits \<longleftrightarrow> bitmask AND bits = bits"

text \<open>\<open>reverse(arr, i, n)\<close>: saves \<open>arr[i]\<close>, recurses and stores it at its mirrored
  position. The call is only made with the length of the array.\<close>

function reverse_arr :: "u32 list \<Rightarrow> nat \<Rightarrow> nat \<Rightarrow> u32 list" where
  "reverse_arr arr i n = (if i \<ge> n then arr else (reverse_arr arr (i + 1) n)[n - i - 1 := arr ! i])"
  by pat_completeness auto
termination
  by (relation "measure (\<lambda>(arr, i, n). n - i)") auto

declare reverse_arr.simps [simp del]

text \<open>The upstream loop over the hops; \<open>Some v\<close> is the early return of \<open>v\<close>.\<close>

fun upstream_loop :: "(u32 \<Rightarrow> u32 \<Rightarrow> u32 cres) \<Rightarrow> u32 list \<Rightarrow> nat list \<Rightarrow> u16 \<Rightarrow> (u8 option \<times> u16) cres" where
  "upstream_loop lk l [] result = Inr (None, result)"
| "upstream_loop lk l (idx # ids) result =
     cbind (read_arr (Some l) idx) (\<lambda>customerAS. cbind (read_arr (Some l) (idx + 1)) (\<lambda>providerAS.
     cbind (lk customerAS providerAS) (\<lambda>currentResult.
       let result = result OR ucast currentResult
       in if currentResult = ASPA_RESULT_VALID \<or> currentResult = ASPA_RESULT_UNKNOWN
          then upstream_loop lk l ids result
          else if currentResult = ASPA_RESULT_INVALID then Inr (Some SRx_RESULT_INVALID, result)
          else upstream_loop lk l ids result)))"

text \<open>The loops that find \<open>iMax\<close> and \<open>jMax\<close>: go on as long as the hop is VALID and remember
  the last index that was.\<close>

fun max_valid :: "(u32 \<Rightarrow> u32 \<Rightarrow> u32 cres) \<Rightarrow> u32 list \<Rightarrow> (nat \<Rightarrow> nat \<times> nat) \<Rightarrow> nat list \<Rightarrow> nat \<Rightarrow> nat cres" where
  "max_valid lk l pos [] m = Inr m"
| "max_valid lk l pos (i # ids) m =
     cbind (read_arr (Some l) (fst (pos i))) (\<lambda>customerAS. cbind (read_arr (Some l) (snd (pos i))) (\<lambda>providerAS.
     cbind (lk customerAS providerAS) (\<lambda>tempResult.
       if tempResult = ASPA_RESULT_VALID then max_valid lk l pos ids i else Inr m)))"

definition find_iMax :: "(u32 \<Rightarrow> u32 \<Rightarrow> u32 cres) \<Rightarrow> u32 list \<Rightarrow> nat \<Rightarrow> nat cres" where
  "find_iMax lk l len = max_valid lk l (\<lambda>i. (i - 1, i)) [1..<len - 1] 0"

definition find_jMax :: "(u32 \<Rightarrow> u32 \<Rightarrow> u32 cres) \<Rightarrow> u32 list \<Rightarrow> nat \<Rightarrow> nat \<Rightarrow> nat cres" where
  "find_jMax lk l len K = max_valid lk l (\<lambda>j. (len - j, len - (j + 1))) [1..<len - K] 0"

text \<open>The forward check: the first INVALID hop is \<open>u_val\<close>, the hops before it set UNKNOWN.\<close>

fun forward_loop :: "(u32 \<Rightarrow> u32 \<Rightarrow> u32 cres) \<Rightarrow> u32 list \<Rightarrow> nat list \<Rightarrow> u16 \<Rightarrow> (nat \<times> u16) cres" where
  "forward_loop lk l [] result = Inr (0, result)"
| "forward_loop lk l (i # ids) result =
     cbind (read_arr (Some l) (i - 1)) (\<lambda>customerAS. cbind (read_arr (Some l) i) (\<lambda>providerAS.
     cbind (lk customerAS providerAS) (\<lambda>tempResult.
       if tempResult = ASPA_RESULT_INVALID then Inr (i, result)
       else forward_loop lk l ids (result OR ucast ASPA_RESULT_UNKNOWN))))"

fun backward_loop :: "(u32 \<Rightarrow> u32 \<Rightarrow> u32 cres) \<Rightarrow> u32 list \<Rightarrow> nat list \<Rightarrow> u16 \<Rightarrow> (u8 option \<times> u16) cres" where
  "backward_loop lk l [] result = Inr (None, result)"
| "backward_loop lk l (j # ids) result =
     cbind (read_arr (Some l) j) (\<lambda>customerAS. cbind (read_arr (Some l) (j - 1)) (\<lambda>providerAS.
     cbind (lk customerAS providerAS) (\<lambda>tempResult.
       if tempResult = ASPA_RESULT_INVALID then Inr (Some SRx_RESULT_INVALID, result)
       else backward_loop lk l ids (result OR ucast ASPA_RESULT_UNKNOWN))))"

text \<open>The evaluation of the ASes between \<open>K\<close> and \<open>L\<close>: forward, and backward behind an
  INVALID hop.\<close>

definition interim :: "(u32 \<Rightarrow> u32 \<Rightarrow> u32 cres) \<Rightarrow> u32 list \<Rightarrow> nat \<Rightarrow> nat \<Rightarrow> u16 \<Rightarrow> (u8 option \<times> u16) cres" where
  "interim lk l K L result =
     cbind (forward_loop lk l [K..<L - 1] result) (\<lambda>(u, result).
       if u \<noteq> 0 then backward_loop lk l [u + 1..<L] result else Inr (None, result))"

text \<open>
  The downstream branch. All its indices fit a byte, because the length does. The two log calls read
  \<open>list[K_val - 1]\<close> and \<open>list[L_val - 1]\<close>.
\<close>

definition downstream :: "(u32 \<Rightarrow> u32 \<Rightarrow> u32 cres) \<Rightarrow> u32 list \<Rightarrow> nat \<Rightarrow> u16 \<Rightarrow> (u8 option \<times> u16) cres" where
  "downstream lk l len result =
     (if len = 1 then Inr (None, result OR ucast ASPA_RESULT_VALID)
      else cbind (find_iMax lk l len) (\<lambda>iMax.
        let K = iMax + 1
        in if int K = int len - 1 then Inr (None, result OR ucast ASPA_RESULT_VALID)
           else cbind (read_arr (Some l) (K - 1)) (\<lambda>_.
                cbind (find_jMax lk l len K) (\<lambda>jMax.
                let L = len - jMax
                in cbind (if L = 0 then Inl OutOfBounds else read_arr (Some l) (L - 1)) (\<lambda>_.
                   if int L - int K \<le> 1 then Inr (None, result OR ucast ASPA_RESULT_VALID)
                   else interim lk l K L result)))))"

definition final_result :: "u16 \<Rightarrow> u8" where
  "final_result res =
     (let result = res AND 0x0f
      in if result = ucast ASPA_RESULT_VALID then SRx_RESULT_VALID
         else if result AND ucast ASPA_RESULT_UNKNOWN \<noteq> 0 \<and> result AND ucast ASPA_RESULT_UNVERIFIABLE = 0
         then SRx_RESULT_UNKNOWN
         else if result AND ucast ASPA_RESULT_UNVERIFIABLE \<noteq> 0 \<and> result AND ucast ASPA_RESULT_UNKNOWN = 0
         then SRx_RESULT_UNVERIFIABLE
         else if result AND ucast ASPA_RESULT_UNVERIFIABLE \<noteq> 0 \<and> result AND ucast ASPA_RESULT_UNKNOWN \<noteq> 0
         then SRx_RESULT_UNVERIFIABLE
         else SRx_RESULT_UNDEFINED)"

definition aspa_lookup :: "ASPA_DBManager \<Rightarrow> u8 \<Rightarrow> u32 \<Rightarrow> u32 \<Rightarrow> u32 cres" where
  "aspa_lookup m af c p = cbind (ASPA_DB_lookup m c p af) (\<lambda>(r, _). Inr r)"

definition initial_result :: "u32 \<Rightarrow> u16" where
  "initial_result asType = (if asType = AS_SET \<or> asType \<noteq> AS_SEQUENCE
     then ucast ASPA_RESULT_NIBBLE_ZERO OR ucast ASPA_RESULT_UNVERIFIABLE else ucast ASPA_RESULT_NIBBLE_ZERO)"

text \<open>
  The whole function. A path that is not a sequence writes \<open>hopResult[0]\<close>, which an empty path
  does not have; a direction above 2 leaves \<open>isUpStream\<close> without a value.
\<close>

definition validateASPA :: "u32 list \<Rightarrow> u8 \<Rightarrow> u32 \<Rightarrow> u32 \<Rightarrow> u8 \<Rightarrow> ASPA_DBManager \<Rightarrow> u8 cres" where
  "validateASPA asPathList plen asType direction af m =
     (let len = unat plen; lk = aspa_lookup m af
      in if (asType = AS_SET \<or> asType \<noteq> AS_SEQUENCE) \<and> len = 0 then Inl OutOfBounds
         else if length asPathList < len then Inl OutOfBounds
         else let l = reverse_arr (take len asPathList) 0 len
              in if direction = ASPA_UNKNOWNSTREAM \<or> direction = ASPA_UPSTREAM
                 then cbind (upstream_loop lk l [0..<len - 1] (initial_result asType)) (\<lambda>(ret, result).
                        Inr (case ret of Some v \<Rightarrow> v | None \<Rightarrow> final_result result))
                 else if direction = ASPA_DOWNSTREAM
                 then cbind (downstream lk l len (initial_result asType)) (\<lambda>(ret, result).
                        Inr (case ret of Some v \<Rightarrow> v | None \<Rightarrow> final_result result))
                 else Inl Uninitialised)"

section \<open>The lookup does not change the database\<close>

lemma findAspaObject_pure: "findAspaObject m w = Inr (ob, m') \<Longrightarrow> m' = m"
  by (auto simp: findAspaObject_def cbind_eq_Inr acquireWriteLock_eq_Inr)

lemma ASPA_DB_lookup_pure: "ASPA_DB_lookup m c p af = Inr (r, m') \<Longrightarrow> m' = m"
  by (auto simp: ASPA_DB_lookup_def cbind_eq_Inr dest!: findAspaObject_pure split: option.splits if_splits)

lemma reverse_arr_length [simp]: "length (reverse_arr arr i n) = length arr"
  by (induction arr i n rule: reverse_arr.induct) (subst reverse_arr.simps, auto)

lemma reverse_arr_nth:
  "n = length arr \<Longrightarrow> k < n \<Longrightarrow>
   reverse_arr arr i n ! k = (if k < n - i then arr ! (n - k - 1) else arr ! k)"
proof (induction arr i n rule: reverse_arr.induct)
  case (1 arr i n)
  show ?case
  proof (cases "i \<ge> n")
    case True
    then show ?thesis by (subst reverse_arr.simps) simp
  next
    case False
    with 1 have "reverse_arr arr (i + 1) n ! k = (if k < n - (i + 1) then arr ! (n - k - 1) else arr ! k)"
      by simp
    moreover have "n - (n - i - 1) - 1 = i" using False by simp
    ultimately show ?thesis
      using False 1 by (subst reverse_arr.simps) (auto simp: nth_list_update)
  qed
qed

lemma reverse_arr_rev: "reverse_arr arr 0 (length arr) = rev arr"
  by (rule nth_equalityI) (simp_all add: reverse_arr_nth rev_nth)

section \<open>Verdicts on the hops of a path\<close>

text \<open>
  The path runs from the origin; hop \<open>i\<close>, for \<open>i\<close> from 1, is between its \<open>i\<close>-th AS and the
  next one. Going up, the earlier AS is the customer; going down, the later one is.
\<close>

definition up_hop :: "(u32 \<Rightarrow> u32 \<Rightarrow> u32) \<Rightarrow> u32 list \<Rightarrow> nat \<Rightarrow> u32" where
  "up_hop rel l i = rel (l ! (i - 1)) (l ! i)"

definition down_hop :: "(u32 \<Rightarrow> u32 \<Rightarrow> u32) \<Rightarrow> u32 list \<Rightarrow> nat \<Rightarrow> u32" where
  "down_hop rel l i = rel (l ! i) (l ! (i - 1))"

definition upstream_verdict :: "(u32 \<Rightarrow> u32 \<Rightarrow> u32) \<Rightarrow> u32 list \<Rightarrow> u8" where
  "upstream_verdict rel l =
     (if \<exists>i \<in> {1..<length l}. up_hop rel l i = ASPA_RESULT_INVALID then SRx_RESULT_INVALID
      else if \<forall>i \<in> {1..<length l}. up_hop rel l i = ASPA_RESULT_VALID then SRx_RESULT_VALID
      else SRx_RESULT_UNKNOWN)"

text \<open>A valley: an INVALID hop going up that is followed by an INVALID hop going down.\<close>

definition valley :: "(u32 \<Rightarrow> u32 \<Rightarrow> u32) \<Rightarrow> u32 list \<Rightarrow> bool" where
  "valley rel l \<longleftrightarrow> (\<exists>u \<in> {1..<length l}. \<exists>w \<in> {u<..<length l}.
     up_hop rel l u = ASPA_RESULT_INVALID \<and> down_hop rel l w = ASPA_RESULT_INVALID)"

text \<open>All hops before some hop climb and all hops after it descend.\<close>

definition climb_descend :: "(u32 \<Rightarrow> u32 \<Rightarrow> u32) \<Rightarrow> u32 list \<Rightarrow> bool" where
  "climb_descend rel l \<longleftrightarrow> length l \<le> 1 \<or> (\<exists>m \<in> {1..<length l}.
     (\<forall>i \<in> {1..<m}. up_hop rel l i = ASPA_RESULT_VALID) \<and>
     (\<forall>i \<in> {m<..<length l}. down_hop rel l i = ASPA_RESULT_VALID))"

definition downstream_verdict :: "(u32 \<Rightarrow> u32 \<Rightarrow> u32) \<Rightarrow> u32 list \<Rightarrow> u8" where
  "downstream_verdict rel l =
     (if valley rel l then SRx_RESULT_INVALID
      else if climb_descend rel l then SRx_RESULT_VALID
      else SRx_RESULT_UNKNOWN)"

text \<open>A path that is not a plain sequence cannot be better than UNVERIFIABLE.\<close>

definition typed_verdict :: "u32 \<Rightarrow> u8 \<Rightarrow> u8" where
  "typed_verdict asType v =
     (if asType = AS_SEQUENCE \<or> v = SRx_RESULT_INVALID then v else SRx_RESULT_UNVERIFIABLE)"

lemma climb_descend_no_valley: "climb_descend rel l \<Longrightarrow> \<not> valley rel l"
proof
  assume "climb_descend rel l" "valley rel l"
  then obtain u w where "1 \<le> u" "u < w" "w < length l" "up_hop rel l u = 1" "down_hop rel l w = 1"
    by (auto simp: valley_def)
  moreover from this \<open>climb_descend rel l\<close> obtain m where
    "\<forall>i \<in> {1..<m}. up_hop rel l i = 0" "\<forall>i \<in> {m<..<length l}. down_hop rel l i = 0"
    by (auto simp: climb_descend_def)
  ultimately show False by (cases "u < m") auto
qed

section \<open>The loops compute the verdicts\<close>

lemma downstream_unfold:
  assumes "find_iMax lk l (length l) = Inr iMax" "find_jMax lk l (length l) (iMax + 1) = Inr jMax"
    "iMax + 2 < length l" "jMax < length l"
  shows "downstream lk l (length l) result =
    (if length l - jMax \<le> iMax + 2 then Inr (None, result)
     else interim lk l (iMax + 1) (length l - jMax) result)"
proof -
  have "int (iMax + 1) \<noteq> int (length l) - 1" "iMax < length l" "length l \<noteq> 1"
    "length l - jMax \<noteq> 0" "length l - jMax - 1 < length l"
    "int (length l - jMax) - int (iMax + 1) \<le> 1 \<longleftrightarrow> length l - jMax \<le> iMax + 2"
    using assms(3,4) by auto
  then show ?thesis using assms(1,2) by (simp add: downstream_def Let_def del: of_nat_Suc of_nat_diff)
qed

locale hop_relation =
  fixes lk :: "u32 \<Rightarrow> u32 \<Rightarrow> u32 cres"
    and rel :: "u32 \<Rightarrow> u32 \<Rightarrow> u32"
    and known :: "u32 \<Rightarrow> bool"
  assumes lk_rel: "known c \<Longrightarrow> lk c p = Inr (rel c p)"
    and rel_range: "known c \<Longrightarrow>
      rel c p = ASPA_RESULT_VALID \<or> rel c p = ASPA_RESULT_INVALID \<or> rel c p = ASPA_RESULT_UNKNOWN"
begin

lemma known_nth: "list_all known l \<Longrightarrow> i < length l \<Longrightarrow> lk (l ! i) p = Inr (rel (l ! i) p)"
  by (simp add: list_all_length lk_rel)

lemma upstream_loop_ok:
  assumes "list_all known l" "\<forall>i \<in> set ids. Suc i < length l"
  shows "if \<exists>i \<in> set ids. up_hop rel l (Suc i) = ASPA_RESULT_INVALID
    then \<exists>r. upstream_loop lk l ids result = Inr (Some SRx_RESULT_INVALID, r)
    else upstream_loop lk l ids result = Inr (None, result OR
      (if \<forall>i \<in> set ids. up_hop rel l (Suc i) = ASPA_RESULT_VALID then 0 else 4))"
  using assms(2)
proof (induction ids arbitrary: result)
  case (Cons i ids)
  have h: "lk (l ! i) (l ! Suc i) = Inr (up_hop rel l (Suc i))"
    using known_nth [OF assms(1), of i] Cons.prems by (simp add: up_hop_def)
  have IH: "if \<exists>i \<in> set ids. up_hop rel l (Suc i) = ASPA_RESULT_INVALID
    then \<exists>r. upstream_loop lk l ids result = Inr (Some SRx_RESULT_INVALID, r)
    else upstream_loop lk l ids result = Inr (None, result OR
      (if \<forall>i \<in> set ids. up_hop rel l (Suc i) = ASPA_RESULT_VALID then 0 else 4))" for result
    by (rule Cons.IH) (use Cons.prems in simp)
  have "known (l ! i)" using assms(1) Cons.prems by (simp add: list_all_length)
  then consider "up_hop rel l (Suc i) = 0" | "up_hop rel l (Suc i) = 1" | "up_hop rel l (Suc i) = 4"
    using rel_range [of "l ! i" "l ! Suc i"] by (auto simp: up_hop_def)
  then show ?case
    using h Cons.prems IH [of result] IH [of "result OR 4"]
    by cases (auto simp: Let_def or.assoc split: if_splits)
qed simp

lemma max_valid_ok:
  assumes "list_all known l" "\<forall>i. a \<le> i \<and> i < b \<longrightarrow> fst (pos i) < length l \<and> snd (pos i) < length l" "1 \<le> a" "a \<le> b"
  shows "\<exists>m. max_valid lk l pos [a..<b] (a - 1) = Inr m \<and> a - 1 \<le> m \<and> m \<le> b - 1 \<and>
    (\<forall>i. a \<le> i \<and> i \<le> m \<longrightarrow> rel (l ! fst (pos i)) (l ! snd (pos i)) = ASPA_RESULT_VALID) \<and>
    (m < b - 1 \<longrightarrow> rel (l ! fst (pos (Suc m))) (l ! snd (pos (Suc m))) \<noteq> ASPA_RESULT_VALID)"
  using assms(2-4)
proof (induction "b - a" arbitrary: a)
  case (Suc n)
  have ab: "a < b" and n: "n = b - Suc a" using Suc.hyps(2) by simp_all
  have h: "lk (l ! fst (pos a)) (l ! snd (pos a)) = Inr (rel (l ! fst (pos a)) (l ! snd (pos a)))"
    using known_nth [OF assms(1)] Suc.prems(1) ab by blast
  show ?case
  proof (cases "rel (l ! fst (pos a)) (l ! snd (pos a)) = ASPA_RESULT_VALID")
    case True
    obtain m where m: "max_valid lk l pos [Suc a..<b] a = Inr m" "a \<le> m" "m \<le> b - 1"
      "\<forall>i. Suc a \<le> i \<and> i \<le> m \<longrightarrow> rel (l ! fst (pos i)) (l ! snd (pos i)) = ASPA_RESULT_VALID"
      "m < b - 1 \<longrightarrow> rel (l ! fst (pos (Suc m))) (l ! snd (pos (Suc m))) \<noteq> ASPA_RESULT_VALID"
      using Suc.hyps(1) [of "Suc a"] n Suc.prems ab by (auto simp del: One_nat_def)
    have "max_valid lk l pos [a..<b] (a - 1) = Inr m"
      using h True m(1) Suc.prems(1) ab by (simp add: upt_conv_Cons)
    moreover have "rel (l ! fst (pos i)) (l ! snd (pos i)) = ASPA_RESULT_VALID" if "a \<le> i" "i \<le> m" for i
      using that True m(4) by (cases "i = a") auto
    ultimately show ?thesis using m by auto
  next
    case False
    then have "max_valid lk l pos [a..<b] (a - 1) = Inr (a - 1)"
      using h Suc.prems(1) ab by (simp add: upt_conv_Cons)
    then show ?thesis using False Suc.prems(2) ab by (intro exI [of _ "a - 1"]) auto
  qed
qed (auto intro!: exI [of _ "a - 1" for a])

lemma forward_loop_ok:
  assumes "list_all known l" "1 \<le> a" "b \<le> length l"
  shows "if \<exists>i \<in> {a..<b}. up_hop rel l i = ASPA_RESULT_INVALID
    then \<exists>u r. forward_loop lk l [a..<b] result = Inr (u, r) \<and> a \<le> u \<and> u < b \<and>
      up_hop rel l u = ASPA_RESULT_INVALID \<and> (\<forall>i \<in> {a..<u}. up_hop rel l i \<noteq> ASPA_RESULT_INVALID) \<and>
      r = result OR (if a < u then 4 else 0)
    else forward_loop lk l [a..<b] result = Inr (0, result OR (if a < b then 4 else 0))"
  using assms(2)
proof (induction "b - a" arbitrary: a result)
  case (Suc n)
  have ab: "a < b" and n: "n = b - Suc a" using Suc.hyps(2) by simp_all
  have h: "lk (l ! (a - 1)) (l ! a) = Inr (up_hop rel l a)"
    using known_nth [OF assms(1), of "a - 1"] ab assms(3) by (simp add: up_hop_def)
  have rd: "a - 1 < length l" "a < length l" using ab assms(3) by simp_all
  note IH = Suc.hyps(1) [OF n, of "result OR 4"]
  show ?case
  proof (cases "up_hop rel l a = ASPA_RESULT_INVALID")
    case True
    then have "forward_loop lk l [a..<b] result = Inr (a, result)"
      using h rd ab by (simp add: upt_conv_Cons)
    then show ?thesis using True ab by auto
  next
    case False
    then have step: "forward_loop lk l [a..<b] result = forward_loop lk l [Suc a..<b] (result OR 4)"
      using h rd ab by (simp add: upt_conv_Cons)
    have split: "{a..<b} = insert a {Suc a..<b}" using ab by auto
    show ?thesis
    proof (cases "\<exists>i \<in> {Suc a..<b}. up_hop rel l i = ASPA_RESULT_INVALID")
      case True
      with IH obtain u where u: "forward_loop lk l [Suc a..<b] (result OR 4) = Inr (u, result OR 4 OR (if Suc a < u then 4 else 0))"
        "Suc a \<le> u" "u < b" "up_hop rel l u = ASPA_RESULT_INVALID"
        "\<forall>i \<in> {Suc a..<u}. up_hop rel l i \<noteq> ASPA_RESULT_INVALID" by auto
      have "\<forall>i \<in> {a..<u}. up_hop rel l i \<noteq> ASPA_RESULT_INVALID"
        using u(5) False by (metis atLeastLessThan_iff le_eq_less_or_eq Suc_leI)
      with True u step split show ?thesis by (auto simp: or.assoc intro!: exI [of _ u])
    next
      case F: False
      with IH step split False ab show ?thesis by (auto simp: or.assoc)
    qed
  qed
qed auto

lemma backward_loop_ok:
  assumes "list_all known l" "\<forall>j \<in> set ids. j < length l"
  shows "if \<exists>j \<in> set ids. down_hop rel l j = ASPA_RESULT_INVALID
    then \<exists>r. backward_loop lk l ids result = Inr (Some SRx_RESULT_INVALID, r)
    else backward_loop lk l ids result = Inr (None, result OR (if ids = [] then 0 else 4))"
  using assms(2)
proof (induction ids arbitrary: result)
  case (Cons j ids)
  have h: "lk (l ! j) (l ! (j - 1)) = Inr (down_hop rel l j)"
    using known_nth [OF assms(1), of j] Cons.prems by (simp add: down_hop_def)
  have rd: "j < length l" "j - 1 < length l" using Cons.prems by auto
  have IH: "if \<exists>j \<in> set ids. down_hop rel l j = ASPA_RESULT_INVALID
    then \<exists>r. backward_loop lk l ids (result OR 4) = Inr (Some SRx_RESULT_INVALID, r)
    else backward_loop lk l ids (result OR 4) = Inr (None, (result OR 4) OR (if ids = [] then 0 else 4))"
    by (rule Cons.IH) (use Cons.prems in simp)
  then show ?case
    using h rd by (auto simp: or.assoc split: if_splits)
qed simp

lemma find_iMax_ok:
  assumes "list_all known l" "2 \<le> length l"
  obtains m where "find_iMax lk l (length l) = Inr m" "m \<le> length l - 2"
    "\<forall>i \<in> {1..m}. up_hop rel l i = ASPA_RESULT_VALID"
    "m < length l - 2 \<Longrightarrow> up_hop rel l (Suc m) \<noteq> ASPA_RESULT_VALID"
proof -
  have pos: "\<forall>i. 1 \<le> i \<and> i < length l - 1 \<longrightarrow>
      fst ((\<lambda>i. (i - 1, i)) i) < length l \<and> snd ((\<lambda>i. (i - 1, i)) i) < length l" by auto
  have b: "1 \<le> length l - 1" using assms(2) by arith
  obtain m where m: "find_iMax lk l (length l) = Inr m" "m \<le> length l - 1 - 1"
    "\<forall>i. 1 \<le> i \<and> i \<le> m \<longrightarrow> up_hop rel l i = ASPA_RESULT_VALID"
    "m < length l - 1 - 1 \<longrightarrow> up_hop rel l (Suc m) \<noteq> ASPA_RESULT_VALID"
    using max_valid_ok [OF assms(1) pos order_refl b] by (auto simp: find_iMax_def up_hop_def)
  show ?thesis by (rule that [of m]) (use m in auto)
qed

lemma find_jMax_ok:
  assumes "list_all known l" "1 \<le> K" "K \<le> length l - 2"
  obtains m where "find_jMax lk l (length l) K = Inr m" "m \<le> length l - K - 1"
    "\<forall>i \<in> {length l - m..<length l}. down_hop rel l i = ASPA_RESULT_VALID"
    "m < length l - K - 1 \<Longrightarrow> down_hop rel l (length l - m - 1) \<noteq> ASPA_RESULT_VALID"
proof -
  let ?n = "length l" and ?pos = "\<lambda>j. (length l - j, length l - (j + 1))"
  have pos: "\<forall>j. 1 \<le> j \<and> j < ?n - K \<longrightarrow> fst (?pos j) < length l \<and> snd (?pos j) < length l" by auto
  have b: "1 \<le> ?n - K" using assms(2,3) by arith
  obtain m where m: "find_jMax lk l ?n K = Inr m" "m \<le> ?n - K - 1"
    "\<forall>j. 1 \<le> j \<and> j \<le> m \<longrightarrow> down_hop rel l (?n - j) = ASPA_RESULT_VALID"
    "m < ?n - K - 1 \<longrightarrow> down_hop rel l (?n - Suc m) \<noteq> ASPA_RESULT_VALID"
    using max_valid_ok [OF assms(1) pos order_refl b] by (auto simp: find_jMax_def down_hop_def)
  have "down_hop rel l i = ASPA_RESULT_VALID" if "i \<in> {?n - m..<?n}" for i
  proof -
    from that have "1 \<le> ?n - i \<and> ?n - i \<le> m" "?n - (?n - i) = i" by auto
    with m(3) show ?thesis by metis
  qed
  with m that show ?thesis by auto
qed

text \<open>What the bounds \<open>K\<close> and \<open>L\<close> mean for the path.\<close>

lemma climb_descend_bounds:
  assumes "1 \<le> K" "K < L" "L \<le> length l"
    "\<forall>i \<in> {1..<K}. up_hop rel l i = ASPA_RESULT_VALID" "up_hop rel l K \<noteq> ASPA_RESULT_VALID"
    "\<forall>i \<in> {L..<length l}. down_hop rel l i = ASPA_RESULT_VALID"
    "K + 1 < L \<Longrightarrow> down_hop rel l (L - 1) \<noteq> ASPA_RESULT_VALID" "K < length l - 1"
  shows "climb_descend rel l \<longleftrightarrow> L \<le> K + 1"
proof
  assume "climb_descend rel l"
  then obtain m where m: "1 \<le> m" "m < length l" "\<forall>i \<in> {1..<m}. up_hop rel l i = ASPA_RESULT_VALID"
    "\<forall>i \<in> {m<..<length l}. down_hop rel l i = ASPA_RESULT_VALID"
    using assms(8) by (auto simp: climb_descend_def)
  then have "m \<le> K" using assms(1,5) by (meson atLeastLessThan_iff not_le)
  show "L \<le> K + 1"
  proof (rule ccontr)
    assume "\<not> L \<le> K + 1"
    then have "L - 1 \<in> {m<..<length l}" using \<open>m \<le> K\<close> assms(3) by auto
    with m(4) assms(7) \<open>\<not> L \<le> K + 1\<close> show False by auto
  qed
next
  assume "L \<le> K + 1"
  with assms show "climb_descend rel l"
    unfolding climb_descend_def by (intro disjI2 bexI [of _ K]) auto
qed

lemma valley_bounds:
  assumes "1 \<le> K" "L \<le> length l"
    "\<forall>i \<in> {1..<K}. up_hop rel l i = ASPA_RESULT_VALID"
    "\<forall>i \<in> {L..<length l}. down_hop rel l i = ASPA_RESULT_VALID"
  shows "valley rel l \<longleftrightarrow> (\<exists>u \<in> {K..<L - 1}. \<exists>w \<in> {u<..<L}.
    up_hop rel l u = ASPA_RESULT_INVALID \<and> down_hop rel l w = ASPA_RESULT_INVALID)"
proof
  assume "valley rel l"
  then obtain u w where uw: "1 \<le> u" "u < w" "w < length l"
    "up_hop rel l u = ASPA_RESULT_INVALID" "down_hop rel l w = ASPA_RESULT_INVALID"
    by (auto simp: valley_def)
  have "K \<le> u" using uw(1,4) assms(3) by (rule_tac ccontr) auto
  moreover have "w < L" using uw(3,5) assms(4) by (rule_tac ccontr) auto
  ultimately show "\<exists>u \<in> {K..<L - 1}. \<exists>w \<in> {u<..<L}.
      up_hop rel l u = ASPA_RESULT_INVALID \<and> down_hop rel l w = ASPA_RESULT_INVALID"
    using uw by (intro bexI [of _ u] bexI [of _ w]) auto
next
  assume "\<exists>u \<in> {K..<L - 1}. \<exists>w \<in> {u<..<L}.
      up_hop rel l u = ASPA_RESULT_INVALID \<and> down_hop rel l w = ASPA_RESULT_INVALID"
  then show "valley rel l"
    using assms(1,2) unfolding valley_def by (meson atLeastLessThan_iff greaterThanLessThan_iff le_trans less_le_trans less_trans)
qed

text \<open>The two checks between \<open>K\<close> and \<open>L\<close>.\<close>

lemma interim_ok:
  assumes "list_all known l" "1 \<le> K" "K + 1 < L" "L \<le> length l"
  shows "if \<exists>u \<in> {K..<L - 1}. \<exists>w \<in> {u<..<L}.
      up_hop rel l u = ASPA_RESULT_INVALID \<and> down_hop rel l w = ASPA_RESULT_INVALID
    then \<exists>r. interim lk l K L result = Inr (Some SRx_RESULT_INVALID, r)
    else interim lk l K L result = Inr (None, result OR 4)"
proof -
  have b: "L - 1 \<le> length l" using assms(4) by arith
  show ?thesis
proof (cases "\<exists>i \<in> {K..<L - 1}. up_hop rel l i = ASPA_RESULT_INVALID")
  case False
  with forward_loop_ok [OF assms(1,2) b, of result] assms(3) show ?thesis
    by (auto simp: interim_def)
next
  case True
  with forward_loop_ok [OF assms(1,2) b, of result] obtain u where
    u: "forward_loop lk l [K..<L - 1] result = Inr (u, result OR (if K < u then 4 else 0))" "K \<le> u" "u < L - 1"
    "up_hop rel l u = ASPA_RESULT_INVALID" "\<forall>i \<in> {K..<u}. up_hop rel l i \<noteq> ASPA_RESULT_INVALID"
    by auto
  have eq: "(\<exists>u' \<in> {K..<L - 1}. \<exists>w \<in> {u'<..<L}. up_hop rel l u' = ASPA_RESULT_INVALID \<and> down_hop rel l w = ASPA_RESULT_INVALID)
      \<longleftrightarrow> (\<exists>j \<in> set [u + 1..<L]. down_hop rel l j = ASPA_RESULT_INVALID)"
  proof
    assume "\<exists>u' \<in> {K..<L - 1}. \<exists>w \<in> {u'<..<L}. up_hop rel l u' = ASPA_RESULT_INVALID \<and> down_hop rel l w = ASPA_RESULT_INVALID"
    then obtain u' w where "K \<le> u'" "u' < w" "w < L" "up_hop rel l u' = ASPA_RESULT_INVALID" "down_hop rel l w = ASPA_RESULT_INVALID"
      by auto
    moreover have "u \<le> u'" using calculation u(5) by (rule_tac ccontr) auto
    ultimately show "\<exists>j \<in> set [u + 1..<L]. down_hop rel l j = ASPA_RESULT_INVALID" by auto
  next
    assume "\<exists>j \<in> set [u + 1..<L]. down_hop rel l j = ASPA_RESULT_INVALID"
    then obtain j where "u < j" "j < L" "down_hop rel l j = ASPA_RESULT_INVALID" by (auto simp: Suc_le_eq)
    then show "\<exists>u' \<in> {K..<L - 1}. \<exists>w \<in> {u'<..<L}. up_hop rel l u' = ASPA_RESULT_INVALID \<and> down_hop rel l w = ASPA_RESULT_INVALID"
      using u by (intro bexI [of _ u] bexI [of _ j]) auto
  qed
  let ?r = "result OR (if K < u then 4 else 0)"
  have run: "interim lk l K L result = backward_loop lk l [u + 1..<L] ?r"
    using u assms(2) by (simp add: interim_def)
  have "u + 1 < L" using u(3) by arith
  then have ne: "[u + 1..<L] \<noteq> []" by simp
  have bw: "if \<exists>j \<in> set [u + 1..<L]. down_hop rel l j = ASPA_RESULT_INVALID
    then \<exists>r. backward_loop lk l [u + 1..<L] ?r = Inr (Some SRx_RESULT_INVALID, r)
    else backward_loop lk l [u + 1..<L] ?r = Inr (None, ?r OR (if [u + 1..<L] = [] then 0 else 4))"
    by (rule backward_loop_ok [OF assms(1)]) (use assms(4) in simp)
  have "?r OR 4 = result OR 4" by (simp add: or.assoc)
  then show ?thesis
    unfolding eq run using bw by (simp only: ne if_False)
qed
qed

lemma downstream_ok:
  assumes "list_all known l" "1 \<le> length l"
  shows "if valley rel l then \<exists>r. downstream lk l (length l) result = Inr (Some SRx_RESULT_INVALID, r)
    else downstream lk l (length l) result = Inr (None, result OR (if climb_descend rel l then 0 else 4))"
proof (cases "length l = 1")
  case True
  then show ?thesis by (simp add: downstream_def valley_def climb_descend_def)
next
  case False
  let ?n = "length l"
  have n: "2 \<le> ?n" using False assms(2) by simp
  obtain iMax where i: "find_iMax lk l ?n = Inr iMax" "iMax \<le> ?n - 2"
    "\<forall>i \<in> {1..iMax}. up_hop rel l i = ASPA_RESULT_VALID"
    "iMax < ?n - 2 \<Longrightarrow> up_hop rel l (Suc iMax) \<noteq> ASPA_RESULT_VALID"
    using find_iMax_ok [OF assms(1) n] by blast
  define K where "K = iMax + 1"
  have up: "\<forall>i \<in> {1..<K}. up_hop rel l i = ASPA_RESULT_VALID" using i(3) by (simp add: K_def)
  show ?thesis
  proof (cases "K = ?n - 1")
    case True
    then have "climb_descend rel l"
      using up n unfolding climb_descend_def by (intro disjI2 bexI [of _ "?n - 1"]) auto
    moreover have "\<not> valley rel l"
      using True up valley_bounds [of K ?n l] n by simp
    moreover have "downstream lk l ?n result = Inr (None, result)"
    proof -
      have "int K = int ?n - 1" using True n by arith
      then show ?thesis using i(1) False by (simp add: downstream_def K_def)
    qed
    ultimately show ?thesis by simp
  next
    case K: False
    then have K_less: "K \<le> ?n - 2" "1 \<le> K" "up_hop rel l K \<noteq> ASPA_RESULT_VALID"
      using i n by (simp_all add: K_def)
    obtain jMax where j: "find_jMax lk l ?n K = Inr jMax" "jMax \<le> ?n - K - 1"
      "\<forall>i \<in> {?n - jMax..<?n}. down_hop rel l i = ASPA_RESULT_VALID"
      "jMax < ?n - K - 1 \<Longrightarrow> down_hop rel l (?n - jMax - 1) \<noteq> ASPA_RESULT_VALID"
      using find_jMax_ok [OF assms(1) K_less(2,1)] by blast
    define L where "L = ?n - jMax"
    have L: "K < L" "L \<le> ?n" using j(2) K_less n by (simp_all add: L_def)
    have down: "\<forall>i \<in> {L..<?n}. down_hop rel l i = ASPA_RESULT_VALID"
      "K + 1 < L \<Longrightarrow> down_hop rel l (L - 1) \<noteq> ASPA_RESULT_VALID"
      using j(3,4) by (simp_all add: L_def)
    have cd: "climb_descend rel l \<longleftrightarrow> L \<le> K + 1"
      using K_less L up down n by (intro climb_descend_bounds) auto
    note v = valley_bounds [OF K_less(2) L(2) up down(1)]
    have run: "downstream lk l ?n result =
      (if L \<le> K + 1 then Inr (None, result) else interim lk l K L result)"
      using downstream_unfold [OF i(1), of jMax result] j(1) K_less n L by (simp add: K_def L_def)
    show ?thesis
    proof (cases "L \<le> K + 1")
      case True
      with L have "L = K + 1" by simp
      then have "\<not> valley rel l" unfolding v by auto
      with True run cd show ?thesis by simp
    next
      case False
      then have "K + 1 < L" by simp
      from interim_ok [OF assms(1) K_less(2) this L(2), of result, folded v] False run cd
      show ?thesis by (cases "valley rel l") simp_all
    qed
  qed
qed

lemma upstream_verdict_ok:
  assumes "list_all known l"
  shows "\<exists>ret r. upstream_loop lk l [0..<length l - 1] (initial_result asType) = Inr (ret, r) \<and>
    (case ret of Some v \<Rightarrow> v | None \<Rightarrow> final_result r) = typed_verdict asType (upstream_verdict rel l)"
proof -
  have hops: "(\<forall>i \<in> set [0..<length l - 1]. P (Suc i)) \<longleftrightarrow> (\<forall>i \<in> {1..<length l}. P i)" for P
  proof
    assume *: "\<forall>i \<in> set [0..<length l - 1]. P (Suc i)"
    show "\<forall>i \<in> {1..<length l}. P i"
    proof
      fix i assume "i \<in> {1..<length l}"
      then have "i - 1 \<in> set [0..<length l - 1]" "Suc (i - 1) = i" by auto
      with * show "P i" by metis
    qed
  qed auto
  have ids: "\<forall>i \<in> set [0..<length l - 1]. Suc i < length l" by auto
  show ?thesis
    using upstream_loop_ok [OF assms ids, of "initial_result asType"]
      hops [of "\<lambda>i. up_hop rel l i \<noteq> ASPA_RESULT_INVALID"] hops [of "\<lambda>i. up_hop rel l i = ASPA_RESULT_VALID"]
    by (auto simp: upstream_verdict_def typed_verdict_def initial_result_def final_result_def Let_def
        split: if_splits)
qed

lemma downstream_verdict_ok:
  assumes "list_all known l" "1 \<le> length l"
  shows "\<exists>ret r. downstream lk l (length l) (initial_result asType) = Inr (ret, r) \<and>
    (case ret of Some v \<Rightarrow> v | None \<Rightarrow> final_result r) = typed_verdict asType (downstream_verdict rel l)"
  using downstream_ok [OF assms, of "initial_result asType"]
  by (auto simp: downstream_verdict_def typed_verdict_def initial_result_def final_result_def Let_def
      split: if_splits)

end

interpretation db: hop_relation "aspa_lookup m af" "db_hop m af" "\<lambda>c. db_ok m \<and> unat c < 1000000" for m af
  by unfold_locales (auto simp: aspa_lookup_def ASPA_DB_lookup_ok db_hop_def split: option.splits)

section \<open>Properties\<close>

definition path_ok :: "ASPA_DBManager \<Rightarrow> u32 list \<Rightarrow> bool" where
  "path_ok m path \<longleftrightarrow> db_ok m \<and> length path < 256 \<and> list_all (\<lambda>c. unat c < 1000000) path"

text \<open>In the sample database AS 5 is a provider of AS 1 and AS 7 a provider of AS 12.\<close>

lemma sample_hops:
  "db_hop sample_db 1 1 5 = ASPA_RESULT_VALID" "db_hop sample_db 1 12 7 = ASPA_RESULT_VALID"
  "db_hop sample_db 1 12 5 = ASPA_RESULT_INVALID"
  by (simp_all add: db_hop_def sample_db_aspa pdu_object_def)

lemma path_known: "path_ok m path \<Longrightarrow> list_all (\<lambda>c. db_ok m \<and> unat c < 1000000) (rev path)"
  by (simp add: path_ok_def list_all_iff)

lemma path_len: "path_ok m path \<Longrightarrow> unat (of_nat (length path) :: u8) = length path"
  by (simp add: path_ok_def unat_of_nat)

lemma validate_upstream:
  assumes "path_ok m path" "direction = ASPA_UPSTREAM \<or> direction = ASPA_UNKNOWNSTREAM"
    "asType = AS_SEQUENCE \<or> path \<noteq> []"
  shows "validateASPA path (of_nat (length path)) asType direction af m =
    Inr (typed_verdict asType (upstream_verdict (db_hop m af) (rev path)))"
proof -
  obtain ret r where
    "upstream_loop (aspa_lookup m af) (rev path) [0..<length (rev path) - 1] (initial_result asType) = Inr (ret, r)"
    "(case ret of Some v \<Rightarrow> v | None \<Rightarrow> final_result r) = typed_verdict asType (upstream_verdict (db_hop m af) (rev path))"
    using db.upstream_verdict_ok [OF path_known [OF assms(1)], of af asType] by blast
  with assms(2,3) show ?thesis
    by (auto simp: validateASPA_def path_len [OF assms(1)] reverse_arr_rev Let_def)
qed

lemma validate_downstream:
  assumes "path_ok m path" "path \<noteq> []"
  shows "validateASPA path (of_nat (length path)) asType ASPA_DOWNSTREAM af m =
    Inr (typed_verdict asType (downstream_verdict (db_hop m af) (rev path)))"
proof -
  have "1 \<le> length (rev path)" using assms(2) by (simp add: Suc_le_eq)
  from db.downstream_verdict_ok [OF path_known [OF assms(1)] this, of af asType]
  obtain ret r where
    "downstream (aspa_lookup m af) (rev path) (length (rev path)) (initial_result asType) = Inr (ret, r)"
    "(case ret of Some v \<Rightarrow> v | None \<Rightarrow> final_result r) = typed_verdict asType (downstream_verdict (db_hop m af) (rev path))"
    by blast
  with assms(2) show ?thesis
    by (auto simp: validateASPA_def path_len [OF assms(1)] reverse_arr_rev Let_def)
qed

text \<open>C7. Upstream verification of a path received from a customer or lateral peer, for AS numbers
  the database can look up: the result is INVALID exactly when some hop from the origin on is not
  authorised by the ASPA of its customer, VALID when every hop is authorised, and UNKNOWN otherwise;
  a path that is not an AS_SEQUENCE is UNVERIFIABLE unless it is INVALID.\<close>

theorem validateASPA_upstream:
  assumes "path_ok m path" "direction = ASPA_UPSTREAM \<or> direction = ASPA_UNKNOWNSTREAM"
    "asType = AS_SEQUENCE \<or> path \<noteq> []"
  shows "validateASPA path (of_nat (length path)) asType direction af m =
    Inr (typed_verdict asType (upstream_verdict (db_hop m af) (rev path)))"
  using validate_upstream [OF assms] .

theorem validateASPA_upstream_witness:
  "validateASPA [5, 1] 2 AS_SEQUENCE ASPA_UPSTREAM 1 sample_db = Inr SRx_RESULT_VALID \<and>
   validateASPA [5, 12] 2 AS_SET ASPA_UPSTREAM 1 sample_db = Inr SRx_RESULT_INVALID"
  using validateASPA_upstream [of sample_db "[5, 1]" ASPA_UPSTREAM AS_SEQUENCE 1]
    validateASPA_upstream [of sample_db "[5, 12]" ASPA_UPSTREAM AS_SET 1]
  by (simp add: path_ok_def sample_db_ok upstream_verdict_def up_hop_def typed_verdict_def sample_hops [simplified]
      atLeastLessThan_upt)

text \<open>C8. Downstream verification of a path received from a provider, for AS numbers the database can
  look up: the result is INVALID exactly when the path has a valley, a hop that the ASPA of its
  earlier AS forbids as a step up before a hop that the ASPA of its later AS forbids as a step down;
  VALID exactly when all hops before some hop are authorised steps up and all hops after it are
  authorised steps down; UNKNOWN otherwise, and UNVERIFIABLE instead of VALID or UNKNOWN for a path
  that is not an AS_SEQUENCE.\<close>

theorem validateASPA_downstream:
  assumes "path_ok m path" "path \<noteq> []"
  shows "validateASPA path (of_nat (length path)) asType ASPA_DOWNSTREAM af m =
    Inr (typed_verdict asType (downstream_verdict (db_hop m af) (rev path)))"
  using validate_downstream [OF assms] .

theorem validateASPA_downstream_witness:
  "validateASPA [12, 7, 5, 1] 4 AS_SEQUENCE ASPA_DOWNSTREAM 1 sample_db = Inr SRx_RESULT_VALID"
proof -
  have i: "i < 2 \<Longrightarrow> Suc 0 \<le> i \<Longrightarrow> i = 1" "2 < i \<Longrightarrow> i < 4 \<Longrightarrow> i = 3" for i :: nat by arith+
  have "climb_descend (db_hop sample_db 1) [1, 5, 7, 12]"
    unfolding climb_descend_def
    by (intro disjI2 bexI [of _ 2] conjI ballI)
      (auto dest!: i simp: up_hop_def down_hop_def sample_hops [simplified] numeral_3_eq_3 simp del: One_nat_def)
  then show ?thesis
    using validateASPA_downstream [of sample_db "[12, 7, 5, 1]" AS_SEQUENCE 1]
      climb_descend_no_valley [of "db_hop sample_db 1" "[1, 5, 7, 12]"]
    by (simp add: path_ok_def sample_db_ok downstream_verdict_def typed_verdict_def)
qed

text \<open>The results of \<open>validateASPA\<close>. For a path that is not empty, with AS numbers the database can look up, and one of the three defined
  directions, the function returns, with VALID, INVALID or UNKNOWN for a path that is a sequence and with INVALID or UNVERIFIABLE for any other
  path; it never reads outside the path, and none of the codes by which the caches are told to keep a result is returned.\<close>

lemma validateASPA_results:
  assumes "path_ok m path" "path \<noteq> []" "direction \<in> {ASPA_UNKNOWNSTREAM, ASPA_UPSTREAM, ASPA_DOWNSTREAM}"
  shows "\<exists>v. validateASPA path (of_nat (length path)) asType direction af m = Inr v \<and>
    v \<in> (if asType = AS_SEQUENCE then {SRx_RESULT_VALID, SRx_RESULT_INVALID, SRx_RESULT_UNKNOWN} else {SRx_RESULT_INVALID, SRx_RESULT_UNVERIFIABLE})"
proof (cases "direction = ASPA_DOWNSTREAM")
  case True
  then show ?thesis using validate_downstream [OF assms(1,2), of asType af]
    by (auto simp: typed_verdict_def downstream_verdict_def)
next
  case False
  then show ?thesis using validate_upstream [OF assms(1), of direction asType af] assms(2,3)
    by (auto simp: typed_verdict_def upstream_verdict_def)
qed

theorem validateASPA_results_witness:
  "\<exists>v. validateASPA [5, 1] 2 AS_SEQUENCE ASPA_DOWNSTREAM 1 sample_db = Inr v \<and> v \<in> {SRx_RESULT_VALID, SRx_RESULT_INVALID, SRx_RESULT_UNKNOWN}"
  using validateASPA_results [of sample_db "[5, 1]" ASPA_DOWNSTREAM AS_SEQUENCE 1] by (simp add: path_ok_def sample_db_ok)

text \<open>A path of one AS, and an empty AS_SEQUENCE path received upstream, are VALID whatever the
  database holds; an empty path of another type, or an empty path received downstream, makes the
  function access its arrays out of bounds, and a direction other than 0, 1 and 2 makes it branch on an
  uninitialised variable.\<close>

lemma validateASPA_edge_cases:
  "validateASPA [a] 1 AS_SEQUENCE ASPA_UPSTREAM af m = Inr SRx_RESULT_VALID \<and>
   validateASPA [a] 1 AS_SEQUENCE ASPA_DOWNSTREAM af m = Inr SRx_RESULT_VALID \<and>
   validateASPA [] 0 AS_SEQUENCE ASPA_UPSTREAM af m = Inr SRx_RESULT_VALID \<and>
   validateASPA [] 0 AS_SET direction af m = Inl OutOfBounds \<and>
   validateASPA [] 0 AS_SEQUENCE ASPA_DOWNSTREAM af m = Inl OutOfBounds \<and>
   validateASPA [a] 1 AS_SEQUENCE 3 af m = Inl Uninitialised"
  by (auto simp: validateASPA_def initial_result_def final_result_def downstream_def find_iMax_def Let_def)

end
