(* ===== verification/Uthash.thy ===== *)
theory Uthash
  imports Prelude
begin

text \<open>
  The interface of the \<open>uthash\<close> library, which the update cache and the AS path cache keep their entries in. The library is
  not part of the sources. Its macros are a record of functions, a parameter of every operation that uses a
  table; \<open>uthash_laws\<close> states what its documentation promises. A table maps 32 bit keys to the addresses of
  the items, and a table of functions shows that the laws can hold.
\<close>

text \<open>The macros of \<open>uthash\<close> on a table of entries with a 32 bit key; the null pointer is 0.\<close>

record 't uthash =
  HASH_NIL :: 't
  HASH_FIND :: "u32 \<Rightarrow> 't \<Rightarrow> addr"
  HASH_ADD :: "u32 \<Rightarrow> addr \<Rightarrow> 't \<Rightarrow> 't"
  HASH_DEL :: "addr \<Rightarrow> 't \<Rightarrow> 't"
  HASH_ITER :: "'t \<Rightarrow> addr list"

text \<open>What the \<open>uthash\<close> documentation promises for the macros used: an empty table finds nothing,
  adding an item under a key that is not in use makes it the one found there, deleting an item
  removes the key it is stored under, nothing else changes, and an iteration visits the items in the
  order they were added.\<close>

definition uthash_laws :: "'t uthash \<Rightarrow> bool" where
  "uthash_laws T \<longleftrightarrow>
     (\<forall>k. HASH_FIND T k (HASH_NIL T) = 0) \<and>
     (\<forall>k k' a t. a \<noteq> 0 \<longrightarrow> HASH_FIND T k t = 0 \<longrightarrow>
        HASH_FIND T k' (HASH_ADD T k a t) = (if k' = k then a else HASH_FIND T k' t)) \<and>
     (\<forall>k k' a t. a \<noteq> 0 \<longrightarrow> HASH_FIND T k t = a \<longrightarrow> (\<forall>j. HASH_FIND T j t = a \<longrightarrow> j = k) \<longrightarrow>
        HASH_FIND T k' (HASH_DEL T a t) = (if k' = k then 0 else HASH_FIND T k' t)) \<and>
     HASH_ITER T (HASH_NIL T) = [] \<and> (\<forall>k a t. HASH_ITER T (HASH_ADD T k a t) = HASH_ITER T t @ [a]) \<and>
     (\<forall>a t. HASH_ITER T (HASH_DEL T a t) = remove1 a (HASH_ITER T t))"

lemma uthash_lawsD:
  assumes "uthash_laws T"
  shows uthash_nil: "HASH_FIND T k (HASH_NIL T) = 0"
    and uthash_add: "a \<noteq> 0 \<Longrightarrow> HASH_FIND T k t = 0 \<Longrightarrow>
      HASH_FIND T k' (HASH_ADD T k a t) = (if k' = k then a else HASH_FIND T k' t)"
    and uthash_del: "a \<noteq> 0 \<Longrightarrow> HASH_FIND T k t = a \<Longrightarrow> (\<And>j. HASH_FIND T j t = a \<Longrightarrow> j = k) \<Longrightarrow>
      HASH_FIND T k' (HASH_DEL T a t) = (if k' = k then 0 else HASH_FIND T k' t)"
    and uthash_iter: "HASH_ITER T (HASH_NIL T) = []" "HASH_ITER T (HASH_ADD T k a t) = HASH_ITER T t @ [a]"
      "HASH_ITER T (HASH_DEL T a t) = remove1 a (HASH_ITER T t)"
  using assms unfolding uthash_laws_def by blast+

section \<open>A table with the promised behaviour\<close>

definition fun_table :: "((u32 \<Rightarrow> addr) \<times> addr list) uthash" where
  "fun_table = \<lparr>HASH_NIL = (\<lambda>_. 0, []), HASH_FIND = (\<lambda>k t. fst t k),
     HASH_ADD = (\<lambda>k a t. ((fst t)(k := a), snd t @ [a])),
     HASH_DEL = (\<lambda>a t. (\<lambda>k. if fst t k = a then 0 else fst t k, remove1 a (snd t))), HASH_ITER = snd\<rparr>"

lemma fun_table_sel [simp]:
  "HASH_NIL fun_table = (\<lambda>_. 0, [])" "HASH_FIND fun_table k t = fst t k" "HASH_ADD fun_table k a t = ((fst t)(k := a), snd t @ [a])"
  "HASH_DEL fun_table a t = (\<lambda>k. if fst t k = a then 0 else fst t k, remove1 a (snd t))" "HASH_ITER fun_table t = snd t"
  by (simp_all add: fun_table_def)

lemma fun_table_laws: "uthash_laws fun_table"
  unfolding uthash_laws_def
proof (intro conjI)
  show "\<forall>k k' a t. a \<noteq> 0 \<longrightarrow> HASH_FIND fun_table k t = a \<longrightarrow> (\<forall>j. HASH_FIND fun_table j t = a \<longrightarrow> j = k) \<longrightarrow>
      HASH_FIND fun_table k' (HASH_DEL fun_table a t) = (if k' = k then 0 else HASH_FIND fun_table k' t)"
    unfolding fun_table_sel fst_conv by metis
qed simp_all

end
