(* ===== verification/Update_Cache.thy ===== *)
theory Update_Cache
  imports Srx_Identifier Rw_Lock Uthash
begin

text \<open>
  The update cache, \<open>server/update_cache.c\<close>: every update the routers asked about, with its results,
  the clients that use it and the path data it is validated with. The hash table is the \<open>uthash\<close>
  library, which is not part of the sources: it is the parameter \<open>T\<close> of the operations, a record of
  its macros, and \<open>uthash_laws\<close> states what its documentation promises. The entries live at
  addresses, as the table stores pointers to them. The list \<open>allItems\<close> of all entries is the
  sequence of the entry pointers (see the list component for its representation). Calls
  into the SKI cache and notifications of the registered callback are recorded in the order they happen.
\<close>

section \<open>Data\<close>

record SCA_Prefix =
  sca_afi :: u16
  sca_safi :: u8
  sca_length :: u8
  sca_addr :: "u8 list"

record UC_UpdateData =
  hops :: u16
  asn_path :: "u32 list option"
  myAS :: u32
  nlri :: SCA_Prefix
  bgpsec_length :: int
  bgpsec_path :: "u8 list option"

text \<open>\<open>clients\<close> is the allocated array, \<open>None\<close> after a failed reallocation.\<close>

record CacheEntry =
  clients :: "u8 list option"
  noPossibleClients :: u8
  ceUpdateID :: u32
  ceAsn :: u32
  cePrefix :: IPPrefix
  srxResult :: SRxResult
  defaultResult :: SRxDefaultResult
  roaRefCount :: u32
  gcFlag :: u16
  pathData :: UC_UpdateData
  aspathCacheID :: u32

record ProxyClientMapping =
  proxyID :: u32
  socket :: addr
  isActive :: bool
  preDefined :: bool
  crashed :: int
  updateCount :: u32

datatype ski_call = SkiRegister u32 "u8 list option" | SkiUnregister u32 "u8 list option" | SkiCleanUpdates

record 't UpdateCache =
  defaultKeepWindow :: int
  resChangedCallback :: bool
  itemMutex :: Mutex
  allItems :: "addr list"
  availItems :: addr
  itemsUsed :: nat
  ucTableLock :: RWLock
  table :: 't
  entries :: "addr \<rightharpoonup> CacheEntry"
  minNumberOfClients :: u8
  lockedClients :: "bool list option"
  notifications :: "SRxValidationResult list"
  ski_calls :: "ski_call list"

definition NUM_PREALLOC :: nat where [simp]: "NUM_PREALLOC = 1"

definition entry_at :: "'t UpdateCache \<Rightarrow> addr \<Rightarrow> CacheEntry cres" where
  "entry_at self a = (case entries self a of
      Some e \<Rightarrow> if a = 0 then Inl NullDeref else Inr e
    | None \<Rightarrow> Inl (if a = 0 then NullDeref else UseAfterFree))"

definition set_entry :: "addr \<Rightarrow> CacheEntry \<Rightarrow> 't UpdateCache \<Rightarrow> 't UpdateCache" where
  "set_entry a e self = self\<lparr>entries := (entries self)(a \<mapsto> e)\<rparr>"

section \<open>Path data\<close>

definition zero_nlri :: SCA_Prefix where
  "zero_nlri = \<lparr>sca_afi = 0, sca_safi = 0, sca_length = 0, sca_addr = replicate 16 0\<rparr>"

definition zero_path :: UC_UpdateData where
  "zero_path = \<lparr>hops = 0, asn_path = None, myAS = 0, nlri = zero_nlri, bgpsec_length = 0, bgpsec_path = None\<rparr>"

definition cleanCachPathData :: "CacheEntry \<Rightarrow> CacheEntry" where
  "cleanCachPathData e = e\<lparr>pathData := zero_path\<rparr>"

definition blob_nlri :: "BGPSecData \<Rightarrow> IPPrefix option \<Rightarrow> SCA_Prefix" where
  "blob_nlri d pfx = (case pfx of
      None \<Rightarrow> zero_nlri
    | Some p \<Rightarrow> zero_nlri\<lparr>sca_afi := bafi d, sca_safi := bsafi d, sca_length := plength p,
        sca_addr := (if version (ip p) = 4 then take 4 (addr (ip p)) @ replicate 12 0 else take 16 (addr (ip p)))\<rparr>)"

text \<open>The copies read as many bytes as announced from the request.\<close>

definition storeCacheEntryBlob :: "CacheEntry option \<Rightarrow> BGPSecData \<Rightarrow> IPPrefix option \<Rightarrow> (bool \<times> CacheEntry option) cres" where
  "storeCacheEntryBlob cEntry d pfx = (case cEntry of
      None \<Rightarrow> Inr (False, None)
    | Some e \<Rightarrow>
        if asn_path (pathData e) = None \<and> bgpsec_path (pathData e) = None
        then if length (asPath d) < unat (numberHops d) then Inl OutOfBounds
          else cbind (if attr_length d = 0 then Inr None
                      else case bgpsec_path_attr d of
                          None \<Rightarrow> Inl NullDeref
                        | Some bs \<Rightarrow> if length bs < unat (attr_length d) then Inl OutOfBounds
                                     else Inr (Some (take (unat (attr_length d)) bs))) (\<lambda>attr.
            let pd = (pathData e)\<lparr>nlri := blob_nlri d pfx, myAS := local_as d\<rparr>;
                pd = (if numberHops d > 0
                      then pd\<lparr>hops := numberHops d, asn_path := Some (take (unat (numberHops d)) (asPath d))\<rparr> else pd);
                pd = (if attr_length d \<noteq> 0 then pd\<lparr>bgpsec_length := int (unat (attr_length d)), bgpsec_path := attr\<rparr> else pd)
            in Inr (True, Some (e\<lparr>pathData := pd\<rparr>)))
        else Inr (False, Some e))"

section \<open>The table\<close>

definition tableFind :: "'t uthash \<Rightarrow> 't UpdateCache \<Rightarrow> u32 \<Rightarrow> (addr \<times> 't UpdateCache) cres" where
  "tableFind T self uid =
     cbind (acquireReadLock (ucTableLock self)) (\<lambda>l. cbind (unlockReadLock l) (\<lambda>l.
       Inr (HASH_FIND T uid (table self), self\<lparr>ucTableLock := l\<rparr>)))"

definition tableAdd :: "'t uthash \<Rightarrow> 't UpdateCache \<Rightarrow> addr \<Rightarrow> 't UpdateCache cres" where
  "tableAdd T self a =
     cbind (acquireWriteLock (ucTableLock self)) (\<lambda>l. cbind (entry_at self a) (\<lambda>e. cbind (unlockWriteLock l) (\<lambda>l.
       Inr (self\<lparr>table := HASH_ADD T (ceUpdateID e) a (table self), ucTableLock := l\<rparr>))))"

definition tableDel :: "'t uthash \<Rightarrow> 't UpdateCache \<Rightarrow> addr \<Rightarrow> 't UpdateCache cres" where
  "tableDel T self a =
     cbind (acquireWriteLock (ucTableLock self)) (\<lambda>l. cbind (unlockWriteLock l) (\<lambda>l.
       Inr (self\<lparr>table := HASH_DEL T a (table self), ucTableLock := l\<rparr>)))"

text \<open>\<open>lockedClients\<close> is an array of 32 bit integers in a block of 256 bytes: 64 elements.\<close>

definition createUpdateCache ::
  "'t uthash \<Rightarrow> bool \<Rightarrow> bool \<Rightarrow> 't UpdateCache \<Rightarrow> bool \<Rightarrow> u8 \<Rightarrow> int \<Rightarrow> bool \<times> 't UpdateCache" where
  "createUpdateCache T mutex_ok lock_ok self chCallback minClients keepWindow =
     (let (ok, m) = initMutex mutex_ok (itemMutex self); self = self\<lparr>itemMutex := m\<rparr>
      in if \<not> ok then (False, self)
         else let (ok, l) = createRWLock lock_ok (ucTableLock self); self = self\<lparr>ucTableLock := l\<rparr>
              in if \<not> ok then (False, self\<lparr>itemMutex := releaseMutex (itemMutex self)\<rparr>)
                 else (True, self\<lparr>resChangedCallback := chCallback, table := HASH_NIL T, itemsUsed := NUM_PREALLOC,
                        minNumberOfClients := minClients, lockedClients := Some (replicate 64 False),
                        defaultKeepWindow := keepWindow, allItems := []\<rparr>))"

section \<open>Client references\<close>

text \<open>The search for a slot: the first that is empty or holds the client already; \<open>Some (i, True)\<close>
  is an empty slot.\<close>

fun slot_loop :: "u8 list option \<Rightarrow> u8 \<Rightarrow> nat list \<Rightarrow> (nat \<times> bool) option cres" where
  "slot_loop cs clientID [] = Inr None"
| "slot_loop cs clientID (idx # ids) = cbind (read_arr cs idx) (\<lambda>c.
     if c = 0 then Inr (Some (idx, True))
     else if c = clientID then Inr (Some (idx, False))
     else slot_loop cs clientID ids)"

text \<open>A full array is reallocated; \<open>realloc_ok\<close> tells whether that succeeds. The old contents below
  the number of possible clients are kept, the rest is cleared.\<close>

definition extend_clients :: "bool \<Rightarrow> u8 \<Rightarrow> CacheEntry \<Rightarrow> u8 \<Rightarrow> (bool \<times> CacheEntry) cres" where
  "extend_clients realloc_ok minClients e clientID =
     (let n = unat (noPossibleClients e); newSize = n + unat minClients
      in if \<not> realloc_ok then Inr (False, e\<lparr>clients := None\<rparr>)
         else let cs = map (\<lambda>i. if i < n then (case clients e of Some old \<Rightarrow> old ! i | None \<Rightarrow> 0) else 0) [0..<newSize]
              in if n < newSize
                 then Inr (True, e\<lparr>clients := Some (cs[n := clientID]), noPossibleClients := of_nat newSize\<rparr>)
                 else Inl BufferOverflow)"

definition addClientReference ::
  "bool \<Rightarrow> u8 \<Rightarrow> CacheEntry \<Rightarrow> u8 \<Rightarrow> ProxyClientMapping option \<Rightarrow>
     (bool \<times> CacheEntry \<times> ProxyClientMapping option) cres" where
  "addClientReference realloc_ok minClients e clientID mapping =
     cbind (slot_loop (clients e) clientID [0..<unat (noPossibleClients e)]) (\<lambda>slot. case slot of
         Some (idx, True) \<Rightarrow>
           (case mapping of
              None \<Rightarrow> Inl NullDeref
            | Some m \<Rightarrow> Inr (True, e\<lparr>clients := map_option (\<lambda>cs. cs[idx := clientID]) (clients e), gcFlag := 0\<rparr>,
                            Some (m\<lparr>updateCount := updateCount m + 1\<rparr>)))
       | Some (idx, False) \<Rightarrow> Inr (True, e\<lparr>gcFlag := 0\<rparr>, mapping)
       | None \<Rightarrow> cbind (extend_clients realloc_ok minClients e clientID) (\<lambda>(added, e). Inr (added, e, mapping)))"

section \<open>Queries\<close>

definition getUpdateResult ::
  "'t uthash \<Rightarrow> bool \<Rightarrow> 't UpdateCache \<Rightarrow> u32 \<Rightarrow> u8 \<Rightarrow> ProxyClientMapping option \<Rightarrow>
     (bool \<times> SRxResult \<times> SRxDefaultResult \<times> u32 option \<times> 't UpdateCache \<times> ProxyClientMapping option) cres" where
  "getUpdateResult T realloc_ok self uid clientID mapping =
     cbind (tableFind T self uid) (\<lambda>(a, self).
       if a \<noteq> 0
       then cbind (entry_at self a) (\<lambda>e.
              cbind (if clientID > 0
                     then cbind (addClientReference realloc_ok (minNumberOfClients self) e clientID mapping) (\<lambda>(_, e', m).
                            Inr (set_entry a e' self, m))
                     else Inr (self, mapping)) (\<lambda>(self, mapping).
                Inr (True, srxResult e, defaultResult e, Some (aspathCacheID e), self, mapping)))
       else Inr (False,
              \<lparr>roaResult = SRx_RESULT_UNDEFINED, bgpsecResult = SRx_RESULT_UNDEFINED, aspaResult = SRx_RESULT_UNDEFINED\<rparr>,
              \<lparr>resSourceROA = SRxRS_DONOTUSE, resSourceBGPSEC = SRxRS_DONOTUSE, resSourceASPA = SRxRS_DONOTUSE,
               defResult = \<lparr>roaResult = SRx_RESULT_DONOTUSE, bgpsecResult = SRx_RESULT_DONOTUSE,
                            aspaResult = SRx_RESULT_DONOTUSE\<rparr>\<rparr>,
              None, self, mapping))"

definition getUpdateData :: "'t uthash \<Rightarrow> 't UpdateCache \<Rightarrow> u32 \<Rightarrow> (UC_UpdateData option \<times> 't UpdateCache) cres" where
  "getUpdateData T self uid = cbind (tableFind T self uid) (\<lambda>(a, self).
     if a \<noteq> 0 then cbind (entry_at self a) (\<lambda>e. Inr (Some (pathData e), self)) else Inr (None, self))"

section \<open>Storing an update\<close>

definition unknown_default :: SRxDefaultResult where
  "unknown_default = \<lparr>resSourceROA = SRxRS_UNKNOWN, resSourceBGPSEC = SRxRS_UNKNOWN, resSourceASPA = SRxRS_UNKNOWN,
     defResult = \<lparr>roaResult = SRx_RESULT_UNDEFINED, bgpsecResult = SRx_RESULT_UNDEFINED, aspaResult = SRx_RESULT_UNDEFINED\<rparr>\<rparr>"

definition getGCTime :: "nat \<Rightarrow> u16 \<Rightarrow> u16" where
  "getGCTime now keepTime = of_nat (now + unat keepTime)"

definition setGCFlag :: "CacheEntry \<Rightarrow> u16 \<Rightarrow> CacheEntry" where
  "setGCFlag e timeOfDeletion = e\<lparr>gcFlag := timeOfDeletion\<rparr>"

text \<open>The fields set first; \<open>garbage\<close> is the content of the newly allocated block.\<close>

definition init_entry :: "CacheEntry \<Rightarrow> u32 \<Rightarrow> u32 \<Rightarrow> u32 \<Rightarrow> IPPrefix option \<Rightarrow> SRxDefaultResult option \<Rightarrow> CacheEntry" where
  "init_entry garbage uid asn pathId pfx defRes =
     garbage\<lparr>ceUpdateID := uid, ceAsn := asn, aspathCacheID := pathId,
       cePrefix := the (snd (cpyPrefix (Some (cePrefix garbage)) pfx)),
       srxResult := \<lparr>roaResult = SRx_RESULT_UNDEFINED, bgpsecResult = SRx_RESULT_UNDEFINED, aspaResult = SRx_RESULT_UNDEFINED\<rparr>,
       defaultResult := (case defRes of Some d \<Rightarrow> d | None \<Rightarrow> unknown_default)\<rparr>"

text \<open>Path data: without request data the code reads and frees the pointers of the new block, which
  were never set.\<close>

definition init_path :: "CacheEntry \<Rightarrow> BGPSecData option \<Rightarrow> IPPrefix option \<Rightarrow> (CacheEntry \<times> ski_call list) cres" where
  "init_path e bgpData pfx = (case bgpData of
      None \<Rightarrow> Inl Uninitialised
    | Some d \<Rightarrow> cbind (storeCacheEntryBlob (Some (e\<lparr>pathData := zero_path\<rparr>)) d pfx) (\<lambda>(ok, e).
        Inr (the e, if ok then [SkiRegister (ceUpdateID (the e)) (bgpsec_path_attr d)] else [])))"

definition init_clients ::
  "bool \<Rightarrow> nat \<Rightarrow> 't UpdateCache \<Rightarrow> CacheEntry \<Rightarrow> u8 \<Rightarrow> ProxyClientMapping option \<Rightarrow>
     (int \<times> CacheEntry \<times> ProxyClientMapping option) cres" where
  "init_clients realloc_ok now self e clientID mapping =
     (let e = e\<lparr>clients := Some (replicate (unat (minNumberOfClients self)) 0),
                noPossibleClients := minNumberOfClients self\<rparr>
      in if clientID > 0
         then cbind (addClientReference realloc_ok (minNumberOfClients self) e clientID mapping) (\<lambda>(ok, e, m).
                Inr (if ok then 1 else - 1, e, m))
         else Inr (1, e\<lparr>gcFlag := getGCTime now (word_of_int (defaultKeepWindow self))\<rparr>, mapping))"

text \<open>Taking the next free entry; \<open>alloc\<close> is the block \<open>appendToSList\<close> returns.\<close>

definition next_item :: "addr option \<Rightarrow> 't UpdateCache \<Rightarrow> (addr \<times> 't UpdateCache) option" where
  "next_item alloc self =
     (if itemsUsed self = NUM_PREALLOC
      then (case alloc of
              None \<Rightarrow> None
            | Some a \<Rightarrow> Some (a, self\<lparr>allItems := allItems self @ [a], availItems := a, itemsUsed := 1\<rparr>))
      else Some (availItems self + itemsUsed self, self\<lparr>itemsUsed := itemsUsed self + 1\<rparr>))"

definition storeUpdate ::
  "'t uthash \<Rightarrow> addr option \<Rightarrow> CacheEntry \<Rightarrow> bool \<Rightarrow> nat \<Rightarrow> 't UpdateCache \<Rightarrow> u8 \<Rightarrow> ProxyClientMapping option \<Rightarrow>
     u32 \<Rightarrow> IPPrefix option \<Rightarrow> u32 \<Rightarrow> SRxDefaultResult option \<Rightarrow> BGPSecData option \<Rightarrow> u32 \<Rightarrow>
     (int \<times> 't UpdateCache \<times> ProxyClientMapping option) cres" where
  "storeUpdate T alloc garbage realloc_ok now self clientID mapping uid pfx asn defRes bgpData pathId =
     cbind (tableFind T self uid) (\<lambda>(a, self).
       if a \<noteq> 0 then Inr (0, self, mapping)
       else cbind (lockMutex (itemMutex self)) (\<lambda>mtx.
         let self = self\<lparr>itemMutex := mtx\<rparr>
         in case next_item alloc self of
              None \<Rightarrow> Inr (- 1, self, mapping)
            | Some (a, self) \<Rightarrow>
                cbind (init_path (init_entry garbage uid asn pathId pfx defRes) bgpData pfx) (\<lambda>(e, calls).
                cbind (init_clients realloc_ok now self e clientID mapping) (\<lambda>(ret, e, mapping).
                cbind (tableAdd T (set_entry a e (self\<lparr>ski_calls := ski_calls self @ calls\<rparr>)) a) (\<lambda>self.
                cbind (unlockMutex (itemMutex self)) (\<lambda>mtx.
                  Inr (ret, self\<lparr>itemMutex := mtx\<rparr>, mapping)))))))"

section \<open>Modifying results\<close>

text \<open>The new results of an entry and the notification: a ROA or BGPsec result is reported when it
  changes, an ASPA result whenever it is given.\<close>

definition modify_entry :: "CacheEntry \<Rightarrow> u32 \<Rightarrow> SRxResult \<Rightarrow> CacheEntry \<times> SRxValidationResult" where
  "modify_entry e uid result =
     (let old = srxResult e;
          roa = roaResult result \<noteq> SRx_RESULT_DONOTUSE \<and> roaResult result \<noteq> roaResult old;
          sec = bgpsecResult result \<noteq> SRx_RESULT_DONOTUSE \<and> bgpsecResult result \<noteq> bgpsecResult old;
          aspa = aspaResult result \<noteq> SRx_RESULT_DONOTUSE;
          new = old\<lparr>roaResult := (if roa then roaResult result else roaResult old),
                    bgpsecResult := (if sec then bgpsecResult result else bgpsecResult old),
                    aspaResult := (if aspa then aspaResult result else aspaResult old)\<rparr>
      in (e\<lparr>srxResult := new\<rparr>,
          \<lparr>valType = VRT_NONE OR (if roa then VRT_ROA else 0) OR (if sec then VRT_BGPSEC else 0) OR (if aspa then VRT_ASPA else 0),
           valResult = new, valUpdateID = uid\<rparr>))"

definition modifyUpdateResult ::
  "'t uthash \<Rightarrow> 't UpdateCache \<Rightarrow> u32 \<Rightarrow> SRxResult \<Rightarrow> bool \<Rightarrow> (bool \<times> 't UpdateCache) cres" where
  "modifyUpdateResult T self uid result suppressNotification =
     cbind (tableFind T self uid) (\<lambda>(a, self).
       if a = 0 then Inr (False, self)
       else cbind (lockMutex (itemMutex self)) (\<lambda>mtx. cbind (entry_at self a) (\<lambda>e.
         let (e', valRes) = modify_entry e uid result;
             self = set_entry a e' self;
             notify = \<not> suppressNotification \<and> valType valRes \<noteq> VRT_NONE;
             self = (if notify \<and> resChangedCallback self
                     then self\<lparr>notifications := notifications self @ [valRes]\<rparr> else self)
         in cbind (unlockMutex mtx) (\<lambda>mtx.
              Inr (\<not> notify \<or> resChangedCallback self, self\<lparr>itemMutex := mtx\<rparr>)))))"

definition modifyUpdateCacheResultWithAspaVal ::
  "'t uthash \<Rightarrow> 't UpdateCache \<Rightarrow> u32 \<Rightarrow> SRxResult \<Rightarrow> (bool \<times> 't UpdateCache) cres" where
  "modifyUpdateCacheResultWithAspaVal T self uid result =
     cbind (tableFind T self uid) (\<lambda>(a, self).
       if a = 0 then Inr (False, self)
       else cbind (lockMutex (itemMutex self)) (\<lambda>mtx. cbind (entry_at self a) (\<lambda>e.
         let change = aspaResult result \<noteq> SRx_RESULT_DONOTUSE \<and> aspaResult result \<noteq> aspaResult (srxResult e);
             self = (if change then set_entry a (e\<lparr>srxResult := (srxResult e)\<lparr>aspaResult := aspaResult result\<rparr>\<rparr>) self else self)
         in cbind (unlockMutex mtx) (\<lambda>mtx. Inr (change, self\<lparr>itemMutex := mtx\<rparr>)))))"

section \<open>Removing references\<close>

text \<open>The loop over the client slots: the client is cleared, the clients behind it move up one slot.\<close>

fun client_loop :: "u8 \<Rightarrow> nat list \<Rightarrow> u8 list \<Rightarrow> bool \<Rightarrow> bool \<Rightarrow> (u8 list \<times> bool \<times> bool) cres" where
  "client_loop clientID [] cs found others = Inr (cs, found, others)"
| "client_loop clientID (idx # ids) cs found others = cbind (read_arr (Some cs) idx) (\<lambda>c.
     if c = clientID then client_loop clientID ids (cs[idx := 0]) True others
     else if c \<noteq> 0
     then (if found then client_loop clientID ids (cs[idx - 1 := c, idx := 0]) found True
           else client_loop clientID ids cs found True)
     else client_loop clientID ids cs found others)"

definition deleteUpdateFromCache_clientMgmt :: "CacheEntry \<Rightarrow> u8 \<Rightarrow> (int \<times> CacheEntry) cres" where
  "deleteUpdateFromCache_clientMgmt e clientID = (case clients e of
      None \<Rightarrow> if noPossibleClients e = 0 then Inr (- 1, e) else Inl NullDeref
    | Some cs \<Rightarrow> cbind (client_loop clientID [0..<unat (noPossibleClients e)] cs False False) (\<lambda>(cs, found, others).
        Inr (if \<not> found then - 1 else if others then 1 else 0, e\<lparr>clients := Some cs\<rparr>)))"

definition deleteUpdateFromCache_entry :: "u8 \<Rightarrow> CacheEntry \<Rightarrow> u16 \<Rightarrow> (bool \<times> CacheEntry) cres" where
  "deleteUpdateFromCache_entry clientID e timeOfDeletion =
     cbind (deleteUpdateFromCache_clientMgmt e clientID) (\<lambda>(r, e).
       Inr (if r = - 1 then (False, e) else if r = 0 then (True, setGCFlag e timeOfDeletion) else (True, e)))"

definition deleteUpdateFromCache :: "'t uthash \<Rightarrow> nat \<Rightarrow> 't UpdateCache \<Rightarrow> u8 \<Rightarrow> u32 \<Rightarrow> u16 \<Rightarrow> (bool \<times> 't UpdateCache) cres" where
  "deleteUpdateFromCache T now self clientID uid keepTime =
     (let keepTime = (if int (unat keepTime) < defaultKeepWindow self then word_of_int (defaultKeepWindow self) else keepTime)
      in cbind (tableFind T self uid) (\<lambda>(a, self).
         if a = 0 then Inr (False, self)
         else cbind (entry_at self a) (\<lambda>e.
              cbind (deleteUpdateFromCache_entry clientID e (getGCTime now keepTime)) (\<lambda>(ret, e).
                let self = set_entry a e self
                in Inr (ret, if ret \<and> bgpsec_path (pathData e) \<noteq> None
                             then self\<lparr>ski_calls := ski_calls self @ [SkiUnregister uid (bgpsec_path (pathData e))]\<rparr>
                             else self)))))"

text \<open>Garbage collection of one entry. \<open>removeUpdate\<close> of the prefix cache does nothing and its result
  is only logged.\<close>

definition gcTestAndDeleteUpdate :: "'t uthash \<Rightarrow> 't UpdateCache \<Rightarrow> addr \<Rightarrow> bool \<Rightarrow> (bool \<times> 't UpdateCache) cres" where
  "gcTestAndDeleteUpdate T self a force =
     (let delete = \<not> force
      in if delete
         then cbind (entry_at self a) (\<lambda>e. cbind (tableDel T self a) (\<lambda>self.
                Inr (True, self\<lparr>allItems := remove1 a (allItems self), entries := (entries self)(a := None)\<rparr>)))
         else Inr (False, self))"

fun unregister_loop ::
  "u8 \<Rightarrow> u16 \<Rightarrow> addr list \<Rightarrow> 't UpdateCache \<Rightarrow> ProxyClientMapping \<Rightarrow> int \<Rightarrow>
     (int \<times> 't UpdateCache \<times> ProxyClientMapping) cres" where
  "unregister_loop clientID t [] self m n = Inr (n, self, m)"
| "unregister_loop clientID t (a # as) self m n =
     cbind (if a = 0 then Inr (self, m, n)
            else cbind (entry_at self a) (\<lambda>e. cbind (deleteUpdateFromCache_entry clientID e t) (\<lambda>(ret, e).
                   let self = set_entry a e self
                   in Inr (if ret then (self, m\<lparr>updateCount := updateCount m - 1\<rparr>, n + 1) else (self, m, n)))))
       (\<lambda>(self, m, n). if updateCount m = 0 then Inr (n, self, m) else unregister_loop clientID t as self m n)"

definition unregisterClientID ::
  "'t UpdateCache \<Rightarrow> u8 \<Rightarrow> ProxyClientMapping option \<Rightarrow> u32 \<Rightarrow> (int \<times> 't UpdateCache \<times> ProxyClientMapping option) cres" where
  "unregisterClientID self clientID mapping keepTime =
     cbind (acquireWriteLock (ucTableLock self)) (\<lambda>l. cbind (lockMutex (itemMutex self)) (\<lambda>mtx.
     cbind (read_arr (lockedClients self) (unat clientID)) (\<lambda>locked.
     cbind (if locked then Inr (- 1, self, mapping)
            else if allItems self = [] then Inr (0, self, mapping)
            else case mapping of
                None \<Rightarrow> Inl NullDeref
              | Some m \<Rightarrow> cbind (unregister_loop clientID (ucast keepTime) (allItems self) self m 0) (\<lambda>(n, self, m).
                            Inr (n, self, Some m))) (\<lambda>(n, self, mapping).
     cbind (unlockMutex mtx) (\<lambda>mtx. cbind (unlockWriteLock l) (\<lambda>l.
       Inr (n, self\<lparr>itemMutex := mtx, ucTableLock := l\<rparr>, mapping)))))))"

section \<open>Other operations\<close>

text \<open>All blocks of the list, which are the entries, are freed.\<close>

definition emptyUpdateCache :: "'t uthash \<Rightarrow> 't UpdateCache \<Rightarrow> 't UpdateCache cres" where
  "emptyUpdateCache T self =
     cbind (acquireWriteLock (ucTableLock self)) (\<lambda>l. cbind (lockMutex (itemMutex self)) (\<lambda>mtx.
     cbind (unlockMutex mtx) (\<lambda>mtx. cbind (unlockWriteLock l) (\<lambda>l.
       Inr (self\<lparr>entries := (\<lambda>a. if a \<in> set (allItems self) then None else entries self a), allItems := [],
                 ski_calls := ski_calls self @ [SkiCleanUpdates], itemMutex := mtx,
                 table := HASH_NIL T, itemsUsed := NUM_PREALLOC, ucTableLock := l\<rparr>)))))"

definition releaseUpdateCache :: "'t uthash \<Rightarrow> 't UpdateCache option \<Rightarrow> 't UpdateCache option cres" where
  "releaseUpdateCache T self = (case self of
      None \<Rightarrow> Inr None
    | Some uc \<Rightarrow> cbind (emptyUpdateCache T (uc\<lparr>ucTableLock := releaseRWLock (ucTableLock uc), itemMutex := releaseMutex (itemMutex uc)\<rparr>))
        (\<lambda>uc. Inr (Some (uc\<lparr>lockedClients := None, allItems := []\<rparr>))))"

definition setMinClients :: "'t UpdateCache \<Rightarrow> u8 \<Rightarrow> 't UpdateCache" where
  "setMinClients self noClients = self\<lparr>minNumberOfClients := noClients\<rparr>"

text \<open>\<open>getClientIDsOfUpdate\<close>: the count and the identifiers written to the caller's array.\<close>

definition getClientIDsOfUpdate :: "'t uthash \<Rightarrow> 't UpdateCache \<Rightarrow> u32 \<Rightarrow> u8 \<Rightarrow> (int \<times> u8 list \<times> 't UpdateCache) cres" where
  "getClientIDsOfUpdate T self uid siz =
     cbind (tableFind T self uid) (\<lambda>(a, self).
       if a = 0 then Inr (0, [], self)
       else cbind (entry_at self a) (\<lambda>e.
         if noPossibleClients e \<le> siz
         then (case clients e of
                 None \<Rightarrow> if noPossibleClients e = 0 then Inr (0, [], self) else Inl NullDeref
               | Some cs \<Rightarrow> if length cs < unat (noPossibleClients e) then Inl OutOfBounds
                   else let ids = filter (\<lambda>c. c \<noteq> 0) (take (unat (noPossibleClients e)) cs)
                        in Inr (int (length ids), ids, self))
         else Inr (- 1, [], self)))"

text \<open>\<open>memcmp(p, q, n)\<close> through pointers that may be null, as used for the two paths.\<close>

definition memcmp_differs :: "'a list option \<Rightarrow> 'a list option \<Rightarrow> nat \<Rightarrow> bool cres" where
  "memcmp_differs p q n = (if n = 0 then Inr False else case (p, q) of
      (Some xs, Some ys) \<Rightarrow> if length xs < n \<or> length ys < n then Inl OutOfBounds else Inr (take n xs \<noteq> take n ys)
    | _ \<Rightarrow> Inl NullDeref)"

definition detectCollision :: "'t uthash \<Rightarrow> 't UpdateCache \<Rightarrow> u32 \<Rightarrow> IPPrefix \<Rightarrow> u32 \<Rightarrow> BGPSecData \<Rightarrow> (bool \<times> 't UpdateCache) cres" where
  "detectCollision T self uid pfx asn d =
     cbind (tableFind T self uid) (\<lambda>(a, self).
       if a = 0 then Inr (False, self)
       else cbind (entry_at self a) (\<lambda>e.
         if ceAsn e = asn \<and> hops (pathData e) = numberHops d
         then let bytes = (if version (ip (cePrefix e)) = 4 then 4 else 16)
              in cbind (read_arr (Some (addr (ip pfx))) bytes) (\<lambda>x. cbind (read_arr (Some (addr (ip (cePrefix e)))) bytes) (\<lambda>y.
                 cbind (memcmp_differs (asn_path (pathData e)) (Some (asPath d)) (unat (hops (pathData e)))) (\<lambda>collision.
                 if collision then Inr (True, self)
                 else cbind (memcmp_differs (bgpsec_path (pathData e)) (bgpsec_path_attr d) (nat (bgpsec_length (pathData e)))) (\<lambda>c.
                      Inr (c, self)))))
         else Inr (True, self)))"


record UpdSigResult =
  containsError :: bool
  errorCode :: u16
  signatureLength :: u32
  signatureBlock :: "u8 list option"

definition getUpdateSignature :: "'t uthash \<Rightarrow> 't UpdateCache \<Rightarrow> u32 \<Rightarrow> (UpdSigResult \<times> 't UpdateCache) cres" where
  "getUpdateSignature T self uid = cbind (tableFind T self uid) (\<lambda>(a, self).
     Inr (\<lparr>containsError = True, errorCode = (if a = 0 then SRXERR_UPDATE_NOT_FOUND else SRXERR_ALGO_NOT_SUPPORTED),
           signatureLength = 0, signatureBlock = None\<rparr>, self))"

section \<open>The client array of an entry\<close>

text \<open>An array without holes: the clients, each once, followed by empty slots.\<close>

definition client_list :: "u8 list \<Rightarrow> u8 list" where
  "client_list cs = takeWhile (\<lambda>c. c \<noteq> 0) cs"

definition hole_free :: "u8 list \<Rightarrow> bool" where
  "hole_free cs \<longleftrightarrow> distinct (client_list cs) \<and> cs = client_list cs @ replicate (length cs - length (client_list cs)) 0"

definition entry_wf :: "CacheEntry \<Rightarrow> bool" where
  "entry_wf e \<longleftrightarrow> (case clients e of None \<Rightarrow> False
     | Some cs \<Rightarrow> length cs = unat (noPossibleClients e) \<and> hole_free cs)"

definition entry_clients :: "CacheEntry \<Rightarrow> u8 list" where
  "entry_clients e = (case clients e of None \<Rightarrow> [] | Some cs \<Rightarrow> client_list cs)"

lemma client_list_append: "0 \<notin> set ks \<Longrightarrow> client_list (ks @ replicate m 0) = ks"
  by (induction ks) (auto simp: client_list_def)

lemma hole_freeI: "0 \<notin> set ks \<Longrightarrow> distinct ks \<Longrightarrow> hole_free (ks @ replicate m 0)"
  by (simp add: hole_free_def client_list_append)

lemma entry_wfE:
  assumes "entry_wf e"
  obtains ks m where "clients e = Some (ks @ replicate m 0)" "0 \<notin> set ks" "distinct ks"
    "unat (noPossibleClients e) = length ks + m" "entry_clients e = ks"
proof -
  from assms obtain cs where cs: "clients e = Some cs" "length cs = unat (noPossibleClients e)" "hole_free cs"
    by (auto simp: entry_wf_def split: option.splits)
  define ks where "ks = client_list cs"
  define m where "m = length cs - length ks"
  have eq: "cs = ks @ replicate m 0" "distinct ks" using cs(3) by (auto simp: hole_free_def ks_def m_def)
  have "0 \<notin> set ks" by (auto simp: ks_def client_list_def dest: set_takeWhileD)
  moreover have "unat (noPossibleClients e) = length ks + m" using cs(2) eq(1) by (metis length_append length_replicate)
  ultimately show ?thesis using that cs(1) eq by (simp add: entry_clients_def client_list_append)
qed

lemma entry_wfI:
  "clients e = Some (ks @ replicate m 0) \<Longrightarrow> 0 \<notin> set ks \<Longrightarrow> distinct ks \<Longrightarrow>
   unat (noPossibleClients e) = length ks + m \<Longrightarrow> entry_wf e \<and> entry_clients e = ks"
  by (simp add: entry_wf_def entry_clients_def hole_freeI client_list_append)

text \<open>Reading an array through an index list from \<open>i\<close> on is reading the suffix.\<close>

fun slot :: "u8 \<Rightarrow> u8 list \<Rightarrow> nat \<Rightarrow> (nat \<times> bool) option" where
  "slot c [] i = None"
| "slot c (x # xs) i = (if x = 0 then Some (i, True) else if x = c then Some (i, False) else slot c xs (Suc i))"

lemma slot_loop_slot: "slot_loop (Some (as @ bs)) c [length as..<length (as @ bs)] = Inr (slot c bs (length as))"
proof (induction bs arbitrary: as)
  case (Cons b bs)
  have up: "[length as..<length (as @ b # bs)] = length as # [length (as @ [b])..<length ((as @ [b]) @ bs)]"
    by (subst upt_conv_Cons) simp_all
  show ?case
    using Cons.IH [of "as @ [b]"] unfolding up by simp
qed simp

lemma slot_hole_free:
  "0 \<notin> set ks \<Longrightarrow> c \<noteq> 0 \<Longrightarrow> slot c (ks @ replicate m 0) i =
     (if c \<in> set ks then Some (i + length (takeWhile (\<lambda>x. x \<noteq> c) ks), False)
      else if m = 0 then None else Some (i + length ks, True))"
  by (induction ks arbitrary: i) (cases m, auto)

lemma slot_loop_ok:
  assumes "0 \<notin> set ks" "c \<noteq> 0"
  shows "slot_loop (Some (ks @ replicate m 0)) c [0..<length ks + m] =
    Inr (if c \<in> set ks then Some (length (takeWhile (\<lambda>x. x \<noteq> c) ks), False)
         else if m = 0 then None else Some (length ks, True))"
  using slot_loop_slot [of "[]" "ks @ replicate m 0" c] slot_hole_free [OF assms, of m 0] by simp

text \<open>A client is registered with the entry, and the entry stays without holes. Only the first two
  branches of the source touch the counter of the client and the garbage collection time.\<close>

lemma addClientReference_ok:
  assumes "entry_wf e" "c \<noteq> 0" "0 < minC"
    and room: "c \<notin> set (entry_clients e) \<Longrightarrow> length (entry_clients e) = unat (noPossibleClients e) \<Longrightarrow>
      unat (noPossibleClients e) + unat minC < 256"
  shows "\<exists>e' m'. addClientReference True minC e c (Some mp) = Inr (True, e', Some m') \<and> entry_wf e' \<and>
    entry_clients e' = (if c \<in> set (entry_clients e) then entry_clients e else entry_clients e @ [c]) \<and>
    e'\<lparr>clients := clients e, noPossibleClients := noPossibleClients e, gcFlag := gcFlag e\<rparr> = e \<and>
    (let full = (c \<notin> set (entry_clients e) \<and> length (entry_clients e) = unat (noPossibleClients e))
     in updateCount m' = updateCount mp + (if c \<in> set (entry_clients e) \<or> full then 0 else 1) \<and>
        gcFlag e' = (if full then gcFlag e else 0) \<and>
        noPossibleClients e' = (if full then noPossibleClients e + minC else noPossibleClients e))"
proof -
  from assms(1) obtain ks m where ks: "clients e = Some (ks @ replicate m 0)" "0 \<notin> set ks" "distinct ks"
    "unat (noPossibleClients e) = length ks + m" "entry_clients e = ks" by (rule entry_wfE)
  note slot = slot_loop_ok [OF ks(2) assms(2), of m]
  consider (known) "c \<in> set ks" | (free) k where "c \<notin> set ks" "m = Suc k" | (full) "c \<notin> set ks" "m = 0"
    by (cases m) auto
  then show ?thesis
  proof cases
    case known
    then have "addClientReference True minC e c (Some mp) = Inr (True, e\<lparr>gcFlag := 0\<rparr>, Some mp)"
      using slot ks(1,4) by (simp add: addClientReference_def)
    moreover have "entry_wf (e\<lparr>gcFlag := 0\<rparr>)" "entry_clients (e\<lparr>gcFlag := 0\<rparr>) = ks"
      using assms(1) ks(5) by (auto simp: entry_wf_def entry_clients_def split: option.splits)
    ultimately show ?thesis using known ks(5) by (auto simp: Let_def)
  next
    case free
    let ?e = "e\<lparr>clients := Some ((ks @ [c]) @ replicate k 0), gcFlag := 0\<rparr>"
    have "addClientReference True minC e c (Some mp) = Inr (True, ?e, Some (mp\<lparr>updateCount := updateCount mp + 1\<rparr>))"
      using slot ks(1,4) free by (simp add: addClientReference_def)
    moreover have "entry_wf ?e \<and> entry_clients ?e = ks @ [c]"
      by (rule entry_wfI [where m = k]) (use ks free assms(2) in auto)
    ultimately show ?thesis using free ks(4,5) by (auto simp: Let_def)
  next
    case full
    let ?n = "length ks" and ?min = "unat minC"
    let ?e = "e\<lparr>clients := Some ((ks @ [c]) @ replicate (?min - 1) 0), noPossibleClients := of_nat (?n + ?min)\<rparr>"
    have min: "0 < ?min" using assms(3) by (simp add: word_less_nat_alt)
    have size: "unat (of_nat (?n + ?min) :: u8) = ?n + ?min"
      using room ks(4,5) full by (simp add: unat_of_nat take_bit_nat_eq_self del: of_nat_add)
    have "map (\<lambda>i. if i < ?n then (case clients e of Some old \<Rightarrow> old ! i | None \<Rightarrow> 0) else 0) [0..<?n + ?min] =
        ks @ replicate ?min 0"
      using ks(1) full by (intro nth_equalityI) (auto simp: nth_append)
    moreover have "(ks @ replicate ?min 0)[?n := c] = (ks @ [c]) @ replicate (?min - 1) 0"
      using min by (cases ?min) auto
    ultimately have "addClientReference True minC e c (Some mp) = Inr (True, ?e, Some mp)"
      using slot ks(1,4) full min by (simp add: addClientReference_def extend_clients_def Let_def)
    moreover have "entry_wf ?e \<and> entry_clients ?e = ks @ [c]"
      by (rule entry_wfI [where m = "?min - 1"]) (use ks full assms(2) min size in \<open>auto simp del: of_nat_add\<close>)
    moreover have "of_nat (unat (noPossibleClients e)) = noPossibleClients e" by simp
    then have "(of_nat ?n :: u8) = noPossibleClients e" unfolding ks(4) using full by simp
    ultimately show ?thesis using full ks(4,5) by (auto simp: Let_def)
  qed
qed

lemma client_loop_zeros:
  "c \<noteq> 0 \<Longrightarrow> \<forall>i \<in> set ids. i < length cs \<and> cs ! i = 0 \<Longrightarrow> client_loop c ids cs f ot = Inr (cs, f, ot)"
  by (induction ids) auto

lemma client_loop_found:
  "c \<noteq> 0 \<Longrightarrow> 0 \<notin> set bs \<Longrightarrow> c \<notin> set bs \<Longrightarrow>
   client_loop c [Suc (length as)..<Suc (length as) + length bs + m] (as @ 0 # bs @ replicate m 0) True ot =
     Inr (as @ bs @ replicate (Suc m) 0, True, ot \<or> bs \<noteq> [])"
proof (induction bs arbitrary: as ot)
  case Nil
  have "client_loop c [Suc (length as)..<Suc (length as) + m] (as @ 0 # replicate m 0) True ot =
      Inr (as @ 0 # replicate m 0, True, ot)"
    using Nil by (intro client_loop_zeros) (auto simp: nth_append nth_Cons')
  then show ?case by simp
next
  case (Cons b bs)
  have up: "[Suc (length as)..<Suc (length as) + length (b # bs) + m] =
      Suc (length as) # [Suc (length (as @ [b]))..<Suc (length (as @ [b])) + length bs + m]"
    by (subst upt_conv_Cons) simp_all
  have upd: "(as @ 0 # (b # bs) @ replicate m 0)[length as := b, Suc (length as) := 0] = (as @ [b]) @ 0 # bs @ replicate m 0"
    by (simp add: list_update_append)
  show ?case
    using Cons.IH [of "as @ [b]" True] Cons.prems unfolding up
    by (auto simp add: nth_append upd [simplified] simp del: upt_Suc)
qed

lemma client_loop_ok:
  "c \<noteq> 0 \<Longrightarrow> 0 \<notin> set bs \<Longrightarrow> distinct bs \<Longrightarrow>
   client_loop c [length as..<length as + length bs + m] (as @ bs @ replicate m 0) False ot =
     Inr (if c \<in> set bs then (as @ remove1 c bs @ replicate (Suc m) 0, True, ot \<or> remove1 c bs \<noteq> [])
          else (as @ bs @ replicate m 0, False, ot \<or> bs \<noteq> []))"
proof (induction bs arbitrary: as ot)
  case Nil
  then have "client_loop c [length as..<length as + m] (as @ replicate m 0) False ot = Inr (as @ replicate m 0, False, ot)"
    by (intro client_loop_zeros) (auto simp: nth_append)
  then show ?case by simp
next
  case (Cons b bs)
  have up: "[length as..<length as + length (b # bs) + m] = length as # [Suc (length as)..<Suc (length as) + length bs + m]"
    by (subst upt_conv_Cons) simp_all
  show ?case
  proof (cases "b = c")
    case True
    then have "client_loop c [length as..<length as + length (b # bs) + m] (as @ (b # bs) @ replicate m 0) False ot =
        client_loop c [Suc (length as)..<Suc (length as) + length bs + m] (as @ 0 # bs @ replicate m 0) True ot"
      unfolding up by (simp add: list_update_append del: upt_Suc)
    then show ?thesis using client_loop_found [of c bs as m ot] Cons.prems True by (simp del: upt_Suc)
  next
    case False
    then show ?thesis
      using Cons.IH [of "as @ [b]" True] Cons.prems unfolding up by (simp del: upt_Suc)
  qed
qed


lemma deleteUpdateFromCache_clientMgmt_ok:
  assumes "entry_wf e" "c \<noteq> 0"
  shows "\<exists>e'. deleteUpdateFromCache_clientMgmt e c =
      Inr (if c \<notin> set (entry_clients e) then - 1 else if entry_clients e = [c] then 0 else 1, e') \<and>
    entry_wf e' \<and> entry_clients e' = remove1 c (entry_clients e) \<and> e'\<lparr>clients := clients e\<rparr> = e"
proof -
  from assms(1) obtain ks m where ks: "clients e = Some (ks @ replicate m 0)" "0 \<notin> set ks" "distinct ks"
    "unat (noPossibleClients e) = length ks + m" "entry_clients e = ks" by (rule entry_wfE)
  note loop = client_loop_ok [OF assms(2) ks(2,3), of "[]" m False]
  show ?thesis
  proof (cases "c \<in> set ks")
    case True
    then have single: "remove1 c ks = [] \<longleftrightarrow> ks = [c]"
      by (cases ks) (auto split: if_splits)
    have "deleteUpdateFromCache_clientMgmt e c =
        Inr (if ks = [c] then 0 else 1, e\<lparr>clients := Some (remove1 c ks @ replicate (Suc m) 0)\<rparr>)"
      using loop True single ks(1,4) by (simp add: deleteUpdateFromCache_clientMgmt_def)
    moreover have "length ks = Suc (length (remove1 c ks))" using True length_pos_if_in_set [OF True] by (simp add: length_remove1)
    then have "entry_wf (e\<lparr>clients := Some (remove1 c ks @ replicate (Suc m) 0)\<rparr>) \<and>
        entry_clients (e\<lparr>clients := Some (remove1 c ks @ replicate (Suc m) 0)\<rparr>) = remove1 c ks"
      using ks by (intro entry_wfI [where m = "Suc m"]) (auto dest: notin_set_remove1)
    ultimately show ?thesis using True ks(5) by auto
  next
    case False
    then have "deleteUpdateFromCache_clientMgmt e c = Inr (- 1, e\<lparr>clients := clients e\<rparr>)"
      using loop ks(1,4) by (simp add: deleteUpdateFromCache_clientMgmt_def)
    then show ?thesis using False ks(5) assms(1) by (simp add: remove1_idem)
  qed
qed

section \<open>The cache as a map\<close>

text \<open>The entry stored under an update identifier.\<close>

definition uc_entry :: "'t uthash \<Rightarrow> 't UpdateCache \<Rightarrow> u32 \<rightharpoonup> CacheEntry" where
  "uc_entry T uc k = (let a = HASH_FIND T k (table uc) in if a = 0 then None else entries uc a)"

text \<open>The invariant between two operations: no lock is held, and the table and the list hold the same
  entries, each under its own identifier and with a client array without holes.\<close>

definition uc_ok :: "'t uthash \<Rightarrow> 't UpdateCache \<Rightarrow> bool" where
  "uc_ok T uc \<longleftrightarrow> itemMutex uc = MutexFree \<and> ucTableLock uc = Unlocked \<and> itemsUsed uc = NUM_PREALLOC \<and>
     0 < minNumberOfClients uc \<and> distinct (allItems uc) \<and> 0 \<notin> set (allItems uc) \<and>
     (\<forall>k. HASH_FIND T k (table uc) \<noteq> 0 \<longrightarrow> HASH_FIND T k (table uc) \<in> set (allItems uc)) \<and>
     (\<forall>k. HASH_FIND T k (table uc) \<noteq> 0 \<longrightarrow>
        (\<exists>e. entries uc (HASH_FIND T k (table uc)) = Some e \<and> ceUpdateID e = k \<and> entry_wf e)) \<and>
     (\<forall>a \<in> set (allItems uc). \<exists>e. entries uc a = Some e \<and> HASH_FIND T (ceUpdateID e) (table uc) = a)"

lemma tableFind_ok: "ucTableLock uc = Unlocked \<Longrightarrow> tableFind T uc k = Inr (HASH_FIND T k (table uc), uc)"
  by (simp add: tableFind_def)

lemma uc_ok_locks:
  assumes "uc_ok T uc"
  shows "itemMutex uc = MutexFree" "ucTableLock uc = Unlocked" "itemsUsed uc = NUM_PREALLOC" "0 < minNumberOfClients uc"
  using assms by (simp_all add: uc_ok_def)

lemma uc_ok_found:
  assumes "uc_ok T uc" "HASH_FIND T k (table uc) \<noteq> 0"
  shows "HASH_FIND T k (table uc) \<in> set (allItems uc)"
    and "\<exists>e. entries uc (HASH_FIND T k (table uc)) = Some e \<and> ceUpdateID e = k \<and> entry_wf e"
  using assms unfolding uc_ok_def by blast+

lemma uc_ok_item:
  assumes "uc_ok T uc" "a \<in> set (allItems uc)"
  shows "a \<noteq> 0" "\<exists>e. entries uc a = Some e \<and> HASH_FIND T (ceUpdateID e) (table uc) = a"
proof -
  show "a \<noteq> 0" using assms unfolding uc_ok_def by metis
  show "\<exists>e. entries uc a = Some e \<and> HASH_FIND T (ceUpdateID e) (table uc) = a"
    using assms unfolding uc_ok_def by blast
qed

lemma uc_entry_Some:
  assumes "uc_ok T uc" "uc_entry T uc k = Some e"
  obtains a where "HASH_FIND T k (table uc) = a" "a \<noteq> 0" "entries uc a = Some e" "ceUpdateID e = k" "entry_wf e"
    "a \<in> set (allItems uc)" "entry_at uc a = Inr e" "tableFind T uc k = Inr (a, uc)"
proof -
  let ?a = "HASH_FIND T k (table uc)"
  have a: "?a \<noteq> 0" "entries uc ?a = Some e" using assms(2) by (auto simp: uc_entry_def Let_def split: if_splits)
  then have "ceUpdateID e = k" "entry_wf e" using uc_ok_found(2) [OF assms(1) a(1)] by simp_all
  moreover have "entry_at uc ?a = Inr e" using a by (simp add: entry_at_def)
  moreover have "tableFind T uc k = Inr (?a, uc)" using uc_ok_locks(2) [OF assms(1)] by (simp add: tableFind_ok)
  ultimately show ?thesis using that [OF refl a] uc_ok_found(1) [OF assms(1) a(1)] by simp
qed

lemma uc_entry_None:
  assumes "uc_ok T uc" "uc_entry T uc k = None"
  shows "HASH_FIND T k (table uc) = 0" "tableFind T uc k = Inr (0, uc)"
proof -
  show *: "HASH_FIND T k (table uc) = 0"
    using assms(2) uc_ok_found(2) [OF assms(1), of k] by (auto simp: uc_entry_def Let_def split: if_splits)
  show "tableFind T uc k = Inr (0, uc)" using * uc_ok_locks(2) [OF assms(1)] by (simp add: tableFind_ok)
qed

lemma uc_entry_find: "uc_entry T uc k = Some e \<Longrightarrow> HASH_FIND T k (table uc) \<noteq> 0"
  by (auto simp: uc_entry_def Let_def split: if_splits)

text \<open>Replacing the entry of an identifier is a point update of the map and keeps the invariant.\<close>

lemma set_entry_refines:
  assumes "uc_ok T uc" "uc_entry T uc k = Some e" "ceUpdateID e' = k" "entry_wf e'"
  defines "uc' \<equiv> set_entry (HASH_FIND T k (table uc)) e' uc"
  shows "uc_ok T uc'" "uc_entry T uc' = (uc_entry T uc)(k \<mapsto> e')"
proof -
  from assms(1,2) obtain a where a: "HASH_FIND T k (table uc) = a" "a \<noteq> 0" "entries uc a = Some e" "ceUpdateID e = k"
    by (rule uc_entry_Some)
  have own: "j = k" if j: "HASH_FIND T j (table uc) = a" for j
    using uc_ok_found(2) [OF assms(1), of j] j a by auto
  show "uc_entry T uc' = (uc_entry T uc)(k \<mapsto> e')"
  proof
    fix j
    show "uc_entry T uc' j = ((uc_entry T uc)(k \<mapsto> e')) j"
      using a(1,2) own [of j] by (cases "j = k") (auto simp: uc_entry_def uc'_def set_entry_def Let_def)
  qed
  have uc': "table uc' = table uc" "allItems uc' = allItems uc" "entries uc' = (entries uc)(a \<mapsto> e')"
    "itemMutex uc' = itemMutex uc" "ucTableLock uc' = ucTableLock uc" "itemsUsed uc' = itemsUsed uc"
    "minNumberOfClients uc' = minNumberOfClients uc"
    by (simp_all add: uc'_def set_entry_def a(1))
  show "uc_ok T uc'"
    unfolding uc_ok_def uc'
  proof (intro conjI allI ballI impI)
    fix j assume "HASH_FIND T j (table uc) \<noteq> 0"
    then show "\<exists>x. ((entries uc)(a \<mapsto> e')) (HASH_FIND T j (table uc)) = Some x \<and> ceUpdateID x = j \<and> entry_wf x"
      using uc_ok_found(2) [OF assms(1)] assms(3,4) own by (cases "HASH_FIND T j (table uc) = a") auto
  next
    fix b assume "b \<in> set (allItems uc)"
    then show "\<exists>x. ((entries uc)(a \<mapsto> e')) b = Some x \<and> HASH_FIND T (ceUpdateID x) (table uc) = b"
      using uc_ok_item(2) [OF assms(1)] assms(3) a(1) by (cases "b = a") auto
  qed (use assms(1) in \<open>simp_all add: uc_ok_def\<close>)
qed


section \<open>Storing an update\<close>

text \<open>A request whose buffers hold what its header announces, and the path data stored for it.\<close>

definition blob_ok :: "BGPSecData \<Rightarrow> bool" where
  "blob_ok d \<longleftrightarrow> unat (numberHops d) \<le> length (asPath d) \<and>
     (attr_length d \<noteq> 0 \<longrightarrow> (case bgpsec_path_attr d of None \<Rightarrow> False | Some bs \<Rightarrow> unat (attr_length d) \<le> length bs))"

definition path_of :: "BGPSecData \<Rightarrow> IPPrefix option \<Rightarrow> UC_UpdateData" where
  "path_of d pfx = \<lparr>hops = numberHops d,
     asn_path = (if numberHops d = 0 then None else Some (take (unat (numberHops d)) (asPath d))),
     myAS = local_as d, nlri = blob_nlri d pfx, bgpsec_length = int (unat (attr_length d)),
     bgpsec_path = (if attr_length d = 0 then None else map_option (take (unat (attr_length d))) (bgpsec_path_attr d))\<rparr>"

lemma storeCacheEntryBlob_ok:
  assumes "blob_ok d" "pathData e = zero_path"
  shows "storeCacheEntryBlob (Some e) d pfx = Inr (True, Some (e\<lparr>pathData := path_of d pfx\<rparr>))"
proof -
  have "\<not> length (asPath d) < unat (numberHops d)" using assms(1) by (simp add: blob_ok_def)
  moreover have "0 < numberHops d \<longleftrightarrow> numberHops d \<noteq> 0" by (simp add: word_neq_0_conv)
  ultimately show ?thesis using assms
    by (cases "attr_length d = 0"; cases "numberHops d = 0"; cases "bgpsec_path_attr d")
      (auto simp: storeCacheEntryBlob_def blob_ok_def path_of_def zero_path_def Let_def)
qed

lemma init_clients_ok:
  assumes "0 < minNumberOfClients uc"
  shows "\<exists>e' m'. init_clients True now uc e c (Some mp) = Inr (1, e', Some m') \<and> entry_wf e' \<and>
    entry_clients e' = (if c = 0 then [] else [c]) \<and>
    e'\<lparr>clients := clients e, noPossibleClients := noPossibleClients e, gcFlag := gcFlag e\<rparr> = e \<and>
    updateCount m' = updateCount mp + (if c = 0 then 0 else 1) \<and>
    gcFlag e' = (if c = 0 then getGCTime now (word_of_int (defaultKeepWindow uc)) else 0) \<and>
    noPossibleClients e' = minNumberOfClients uc"
proof -
  let ?n = "unat (minNumberOfClients uc)"
  let ?e = "e\<lparr>clients := Some (replicate ?n 0), noPossibleClients := minNumberOfClients uc\<rparr>"
  have wf: "entry_wf ?e" "entry_clients ?e = []" using entry_wfI [of ?e "[]" ?n] by simp_all
  have n: "0 < ?n" using assms by (simp add: word_less_nat_alt)
  show ?thesis
  proof (cases "c = 0")
    case True
    let ?e' = "?e\<lparr>gcFlag := getGCTime now (word_of_int (defaultKeepWindow uc))\<rparr>"
    have "entry_wf ?e' \<and> entry_clients ?e' = []" by (rule entry_wfI [where m = ?n]) simp_all
    then show ?thesis using True by (simp add: init_clients_def Let_def)
  next
    case False
    then obtain e' m' where a: "addClientReference True (minNumberOfClients uc) ?e c (Some mp) = Inr (True, e', Some m')"
      "entry_wf e'" "entry_clients e' = [c]" 
      "e'\<lparr>clients := clients ?e, noPossibleClients := noPossibleClients ?e, gcFlag := gcFlag ?e\<rparr> = ?e"
      "updateCount m' = updateCount mp + 1" "gcFlag e' = 0" "noPossibleClients e' = minNumberOfClients uc"
      using addClientReference_ok [OF wf(1) False assms, of mp] wf(2) n by (auto simp: Let_def)
    have "e'\<lparr>clients := clients e, noPossibleClients := noPossibleClients e, gcFlag := gcFlag e\<rparr> =
        (e'\<lparr>clients := clients ?e, noPossibleClients := noPossibleClients ?e, gcFlag := gcFlag ?e\<rparr>)
          \<lparr>clients := clients e, noPossibleClients := noPossibleClients e\<rparr>" by simp
    also have "\<dots> = e" unfolding a(4) by simp
    finally have "e'\<lparr>clients := clients e, noPossibleClients := noPossibleClients e, gcFlag := gcFlag e\<rparr> = e" .
    moreover have "0 < c" using False by (simp add: word_neq_0_conv)
    ultimately show ?thesis using False a by (simp add: init_clients_def Let_def)
  qed
qed

text \<open>A new entry is a new key of the map.\<close>

definition add_entry :: "'t uthash \<Rightarrow> addr \<Rightarrow> CacheEntry \<Rightarrow> 't UpdateCache \<Rightarrow> 't UpdateCache" where
  "add_entry T a e uc = uc\<lparr>allItems := allItems uc @ [a], availItems := a, itemsUsed := 1,
     entries := (entries uc)(a \<mapsto> e), table := HASH_ADD T (ceUpdateID e) a (table uc)\<rparr>"

lemma add_entry_refines:
  assumes T: "uthash_laws T" and uc: "uc_ok T uc" "uc_entry T uc (ceUpdateID e) = None"
    and a: "a \<noteq> 0" "a \<notin> set (allItems uc)" and wf: "entry_wf e"
  defines "uc' \<equiv> add_entry T a e uc"
  shows "uc_ok T uc'" "uc_entry T uc' = (uc_entry T uc)(ceUpdateID e \<mapsto> e)"
proof -
  let ?k = "ceUpdateID e" let ?f = "\<lambda>j. HASH_FIND T j (table uc)"
  have find: "HASH_FIND T j (table uc') = (if j = ?k then a else ?f j)" for j
    using uthash_add [OF T a(1) uc_entry_None(1) [OF uc], of j] by (simp add: uc'_def add_entry_def)
  have new: "?f j \<noteq> a" for j using uc_ok_found(1) [OF uc(1), of j] a by (cases "?f j = 0") auto
  have uc': "allItems uc' = allItems uc @ [a]" "entries uc' = (entries uc)(a \<mapsto> e)"
    "itemMutex uc' = itemMutex uc" "ucTableLock uc' = ucTableLock uc" "itemsUsed uc' = 1"
    "minNumberOfClients uc' = minNumberOfClients uc"
    by (simp_all add: uc'_def add_entry_def)
  show "uc_entry T uc' = (uc_entry T uc)(?k \<mapsto> e)"
  proof
    fix j
    show "uc_entry T uc' j = ((uc_entry T uc)(?k \<mapsto> e)) j"
      using a(1) new [of j] by (simp add: uc_entry_def find uc'(2) Let_def)
  qed
  have k0: "?f ?k = 0" by (rule uc_entry_None [OF uc])
  show "uc_ok T uc'"
    unfolding uc_ok_def find uc'
  proof (intro conjI allI ballI impI)
    fix j assume j: "(if j = ?k then a else ?f j) \<noteq> 0"
    show "\<exists>x. ((entries uc)(a \<mapsto> e)) (if j = ?k then a else ?f j) = Some x \<and> ceUpdateID x = j \<and> entry_wf x"
      using uc_ok_found(2) [OF uc(1), of j] j wf new [of j] by (cases "j = ?k") auto
    show "(if j = ?k then a else ?f j) \<in> set (allItems uc @ [a])"
      using uc_ok_found(1) [OF uc(1), of j] j by (cases "j = ?k") auto
  next
    fix b assume b: "b \<in> set (allItems uc @ [a])"
    show "\<exists>x. ((entries uc)(a \<mapsto> e)) b = Some x \<and> (if ceUpdateID x = ?k then a else ?f (ceUpdateID x)) = b"
    proof (cases "b = a")
      case False
      then have "b \<in> set (allItems uc)" using b by simp
      with uc_ok_item [OF uc(1)] obtain x where x: "entries uc b = Some x" "?f (ceUpdateID x) = b" "b \<noteq> 0" by blast
      then have "ceUpdateID x \<noteq> ?k" using k0 by metis
      then show ?thesis using x False by simp
    qed simp
  qed (use uc(1) a in \<open>simp_all add: uc_ok_def\<close>)
qed


lemma ski_calls_irrelevant [simp]:
  "uc_ok T (uc\<lparr>ski_calls := s\<rparr>) = uc_ok T uc" "uc_entry T (uc\<lparr>ski_calls := s\<rparr>) = uc_entry T uc"
  "uc_ok T (uc\<lparr>notifications := n\<rparr>) = uc_ok T uc" "uc_entry T (uc\<lparr>notifications := n\<rparr>) = uc_entry T uc"
  by (auto simp: uc_ok_def uc_entry_def Let_def)

lemma entry_same_data:
  assumes "e\<lparr>clients := x, noPossibleClients := y, gcFlag := z\<rparr> = e'"
  shows "ceUpdateID e = ceUpdateID e' \<and> ceAsn e = ceAsn e' \<and> cePrefix e = cePrefix e' \<and> srxResult e = srxResult e' \<and>
    defaultResult e = defaultResult e' \<and> pathData e = pathData e' \<and> aspathCacheID e = aspathCacheID e'"
  unfolding assms [symmetric] by simp

lemma storeUpdate_new_ok:
  assumes T: "uthash_laws T" and uc: "uc_ok T uc" "uc_entry T uc uid = None"
    and a: "a \<noteq> 0" "a \<notin> set (allItems uc)" and d: "blob_ok d"
  shows "\<exists>e m'. storeUpdate T (Some a) garbage True now uc c (Some mp) uid pfx asn defRes (Some d) pathId =
      Inr (1, (add_entry T a e uc)\<lparr>ski_calls := ski_calls uc @ [SkiRegister uid (bgpsec_path_attr d)]\<rparr>, Some m') \<and>
    entry_wf e \<and> entry_clients e = (if c = 0 then [] else [c]) \<and>
    e\<lparr>clients := clients garbage, noPossibleClients := noPossibleClients garbage, gcFlag := gcFlag garbage\<rparr> =
      (init_entry garbage uid asn pathId pfx defRes)\<lparr>pathData := path_of d pfx\<rparr> \<and>
    updateCount m' = updateCount mp + (if c = 0 then 0 else 1) \<and>
    gcFlag e = (if c = 0 then getGCTime now (word_of_int (defaultKeepWindow uc)) else 0) \<and>
    noPossibleClients e = minNumberOfClients uc"
proof -
  let ?i = "init_entry garbage uid asn pathId pfx defRes"
  let ?uc = "uc\<lparr>itemMutex := MutexLocked, allItems := allItems uc @ [a], availItems := a, itemsUsed := 1\<rparr>"
  have path: "init_path ?i (Some d) pfx = Inr (?i\<lparr>pathData := path_of d pfx\<rparr>, [SkiRegister uid (bgpsec_path_attr d)])"
    using storeCacheEntryBlob_ok [OF d, of "?i\<lparr>pathData := zero_path\<rparr>" pfx]
    by (simp add: init_path_def) (simp add: init_entry_def)
  obtain e m' where e: "init_clients True now ?uc (?i\<lparr>pathData := path_of d pfx\<rparr>) c (Some mp) = Inr (1, e, Some m')"
    "entry_wf e" "entry_clients e = (if c = 0 then [] else [c])"
    "e\<lparr>clients := clients ?i, noPossibleClients := noPossibleClients ?i, gcFlag := gcFlag ?i\<rparr> = ?i\<lparr>pathData := path_of d pfx\<rparr>"
    "updateCount m' = updateCount mp + (if c = 0 then 0 else 1)"
    "gcFlag e = (if c = 0 then getGCTime now (word_of_int (defaultKeepWindow uc)) else 0)"
    "noPossibleClients e = minNumberOfClients uc"
    using init_clients_ok [of ?uc now "?i\<lparr>pathData := path_of d pfx\<rparr>" c mp] uc_ok_locks(4) [OF uc(1)] by auto
  have "ceUpdateID e = uid" using entry_same_data [OF e(4)] by (simp add: init_entry_def)
  then have "storeUpdate T (Some a) garbage True now uc c (Some mp) uid pfx asn defRes (Some d) pathId =
      Inr (1, (add_entry T a e uc)\<lparr>ski_calls := ski_calls uc @ [SkiRegister uid (bgpsec_path_attr d)]\<rparr>, Some m')"
    using uc_entry_None(2) [OF uc] uc_ok_locks [OF uc(1)] path e(1) a(1)
    by (simp add: storeUpdate_def next_item_def set_entry_def tableAdd_def entry_at_def add_entry_def)
  moreover have "clients ?i = clients garbage" "noPossibleClients ?i = noPossibleClients garbage" "gcFlag ?i = gcFlag garbage"
    by (simp_all add: init_entry_def)
  ultimately show ?thesis using e by auto
qed

lemma storeUpdate_fresh:
  assumes T: "uthash_laws T" and uc: "uc_ok T uc" "uc_entry T uc uid = None"
    and a: "a \<noteq> 0" "a \<notin> set (allItems uc)" and d: "blob_ok d"
  shows "\<exists>uc' m' e. storeUpdate T (Some a) garbage True now uc c (Some mp) uid (Some pfx) asn defRes (Some d) pathId =
      Inr (1, uc', Some m') \<and>
    uc_ok T uc' \<and> uc_entry T uc' = (uc_entry T uc)(uid \<mapsto> e) \<and> allItems uc' = allItems uc @ [a] \<and>
    ceUpdateID e = uid \<and> ceAsn e = asn \<and> aspathCacheID e = pathId \<and>
    version (ip (cePrefix e)) = version (ip pfx) \<and> plength (cePrefix e) = plength pfx \<and>
    addr (ip (cePrefix e)) = take 16 (addr (ip pfx)) \<and> pathData e = path_of d (Some pfx) \<and>
    srxResult e = \<lparr>roaResult = SRx_RESULT_UNDEFINED, bgpsecResult = SRx_RESULT_UNDEFINED, aspaResult = SRx_RESULT_UNDEFINED\<rparr> \<and>
    defaultResult e = (case defRes of Some r \<Rightarrow> r | None \<Rightarrow> unknown_default) \<and>
    entry_clients e = (if c = 0 then [] else [c]) \<and> updateCount m' = updateCount mp + (if c = 0 then 0 else 1) \<and>
    ski_calls uc' = ski_calls uc @ [SkiRegister uid (bgpsec_path_attr d)] \<and> notifications uc' = notifications uc"
proof -
  from storeUpdate_new_ok [OF assms, where pfx = "Some pfx" and garbage = garbage and now = now and c = c and mp = mp
      and asn = asn and defRes = defRes and pathId = pathId]
  obtain e m' where s: "storeUpdate T (Some a) garbage True now uc c (Some mp) uid (Some pfx) asn defRes (Some d) pathId =
      Inr (1, (add_entry T a e uc)\<lparr>ski_calls := ski_calls uc @ [SkiRegister uid (bgpsec_path_attr d)]\<rparr>, Some m')"
    "entry_wf e" "entry_clients e = (if c = 0 then [] else [c])"
    "e\<lparr>clients := clients garbage, noPossibleClients := noPossibleClients garbage, gcFlag := gcFlag garbage\<rparr> =
      (init_entry garbage uid asn pathId (Some pfx) defRes)\<lparr>pathData := path_of d (Some pfx)\<rparr>"
    "updateCount m' = updateCount mp + (if c = 0 then 0 else 1)" by blast
  have f: "ceUpdateID e = uid" "ceAsn e = asn" "aspathCacheID e = pathId" "version (ip (cePrefix e)) = version (ip pfx)"
    "plength (cePrefix e) = plength pfx" "addr (ip (cePrefix e)) = take 16 (addr (ip pfx))"
    "pathData e = path_of d (Some pfx)"
    "srxResult e = \<lparr>roaResult = SRx_RESULT_UNDEFINED, bgpsecResult = SRx_RESULT_UNDEFINED, aspaResult = SRx_RESULT_UNDEFINED\<rparr>"
    "defaultResult e = (case defRes of Some r \<Rightarrow> r | None \<Rightarrow> unknown_default)"
    using entry_same_data [OF s(4)] by (simp_all add: init_entry_def cpyPrefix_def)
  have "uc_entry T uc (ceUpdateID e) = None" using f(1) uc(2) by simp
  note r = add_entry_refines [OF T uc(1) this a s(2)]
  show ?thesis
    by (intro exI conjI, rule s(1)) (use r f s(3,5) in \<open>simp_all add: add_entry_def\<close>)
qed

text \<open>C9. Storing an update the cache does not hold: with a freshly allocated block and a request whose
  buffers hold what they announce, \<open>storeUpdate\<close> returns 1, keeps the invariant, adds exactly one
  entry to the map and leaves all others as they are. The entry has the request's AS number, path
  identifier, prefix (address cut to 16 bytes) and path data, all three results undefined, the given default
  or the unknown one, and the requesting client as its only reference, which its update counter counts; the
  update is registered once with the SKI cache and nobody is notified.\<close>

theorem storeUpdate_new:
  assumes T: "uthash_laws T" and uc: "uc_ok T uc" "uc_entry T uc uid = None"
    and a: "a \<noteq> 0" "a \<notin> set (allItems uc)" and d: "blob_ok d"
  shows "\<exists>uc' m' e. storeUpdate T (Some a) garbage True now uc c (Some mp) uid (Some pfx) asn defRes (Some d) pathId =
      Inr (1, uc', Some m') \<and>
    uc_ok T uc' \<and> uc_entry T uc' = (uc_entry T uc)(uid \<mapsto> e) \<and> allItems uc' = allItems uc @ [a] \<and>
    ceUpdateID e = uid \<and> ceAsn e = asn \<and> aspathCacheID e = pathId \<and>
    version (ip (cePrefix e)) = version (ip pfx) \<and> plength (cePrefix e) = plength pfx \<and>
    addr (ip (cePrefix e)) = take 16 (addr (ip pfx)) \<and> pathData e = path_of d (Some pfx) \<and>
    srxResult e = \<lparr>roaResult = SRx_RESULT_UNDEFINED, bgpsecResult = SRx_RESULT_UNDEFINED, aspaResult = SRx_RESULT_UNDEFINED\<rparr> \<and>
    defaultResult e = (case defRes of Some r \<Rightarrow> r | None \<Rightarrow> unknown_default) \<and>
    entry_clients e = (if c = 0 then [] else [c]) \<and> updateCount m' = updateCount mp + (if c = 0 then 0 else 1) \<and>
    ski_calls uc' = ski_calls uc @ [SkiRegister uid (bgpsec_path_attr d)] \<and> notifications uc' = notifications uc"
  using assms by (rule storeUpdate_fresh)

text \<open>An update the cache holds already is not stored again: \<open>storeUpdate\<close> returns 0 and
  changes neither the cache nor the client's counter, whatever the request carries. When no block can be
  allocated for a new update the result is -1, but the item mutex stays locked: the next attempt to store a
  new update never returns.\<close>

lemma storeUpdate_errors:
  assumes uc: "uc_ok T uc"
  shows "(uc_entry T uc uid = Some e \<longrightarrow>
      storeUpdate T alloc garbage realloc_ok now uc c mp uid pfx asn defRes bgpData pathId = Inr (0, uc, mp)) \<and>
    (uc_entry T uc uid = None \<longrightarrow>
      storeUpdate T None garbage realloc_ok now uc c mp uid pfx asn defRes bgpData pathId =
        Inr (- 1, uc\<lparr>itemMutex := MutexLocked\<rparr>, mp) \<and>
      storeUpdate T alloc garbage realloc_ok now (uc\<lparr>itemMutex := MutexLocked\<rparr>) c mp uid pfx asn defRes bgpData pathId =
        Inl LockBlocked)"
proof (intro conjI impI)
  assume "uc_entry T uc uid = Some e"
  with uc obtain a where "a \<noteq> 0" "tableFind T uc uid = Inr (a, uc)" by (rule uc_entry_Some)
  then show "storeUpdate T alloc garbage realloc_ok now uc c mp uid pfx asn defRes bgpData pathId = Inr (0, uc, mp)"
    by (simp add: storeUpdate_def)
next
  assume none: "uc_entry T uc uid = None"
  note f = uc_entry_None [OF uc none] uc_ok_locks [OF uc]
  then show "storeUpdate T None garbage realloc_ok now uc c mp uid pfx asn defRes bgpData pathId =
        Inr (- 1, uc\<lparr>itemMutex := MutexLocked\<rparr>, mp)"
    by (simp add: storeUpdate_def next_item_def)
  from f show "storeUpdate T alloc garbage realloc_ok now (uc\<lparr>itemMutex := MutexLocked\<rparr>) c mp uid pfx asn defRes bgpData pathId =
        Inl LockBlocked"
    by (simp add: storeUpdate_def tableFind_ok)
qed


section \<open>Reading and modifying results\<close>

lemma getUpdateResult_ok:
  assumes "uc_ok T uc" "uc_entry T uc uid = Some e" "c \<noteq> 0"
    and room: "c \<notin> set (entry_clients e) \<Longrightarrow> length (entry_clients e) = unat (noPossibleClients e) \<Longrightarrow>
      unat (noPossibleClients e) + unat (minNumberOfClients uc) < 256"
  shows "\<exists>uc' m' e'. getUpdateResult T True uc uid c (Some mp) =
      Inr (True, srxResult e, defaultResult e, Some (aspathCacheID e), uc', Some m') \<and>
    uc_ok T uc' \<and> uc_entry T uc' = (uc_entry T uc)(uid \<mapsto> e') \<and>
    entry_clients e' = (if c \<in> set (entry_clients e) then entry_clients e else entry_clients e @ [c]) \<and>
    e'\<lparr>clients := clients e, noPossibleClients := noPossibleClients e, gcFlag := gcFlag e\<rparr> = e"
proof -
  from assms(1,2) obtain a where a: "HASH_FIND T uid (table uc) = a" "a \<noteq> 0" "ceUpdateID e = uid" "entry_wf e"
    "entry_at uc a = Inr e" "tableFind T uc uid = Inr (a, uc)" by (rule uc_entry_Some)
  from addClientReference_ok [OF a(4) assms(3) uc_ok_locks(4) [OF assms(1)] room, of mp]
  obtain e' m' where e': "addClientReference True (minNumberOfClients uc) e c (Some mp) = Inr (True, e', Some m')"
    "entry_wf e'" "entry_clients e' = (if c \<in> set (entry_clients e) then entry_clients e else entry_clients e @ [c])"
    "e'\<lparr>clients := clients e, noPossibleClients := noPossibleClients e, gcFlag := gcFlag e\<rparr> = e" by blast
  have "ceUpdateID e' = uid" using entry_same_data [OF e'(4)] a(3) by simp
  note r = set_entry_refines [OF assms(1,2) this e'(2)]
  have "0 < c" using assms(3) by (simp add: word_neq_0_conv)
  then have "getUpdateResult T True uc uid c (Some mp) =
      Inr (True, srxResult e, defaultResult e, Some (aspathCacheID e), set_entry a e' uc, Some m')"
    using a e'(1) by (simp add: getUpdateResult_def)
  then show ?thesis using r e'(3,4) a(1) by blast
qed

text \<open>The effect of new results on an entry: each result other than \<open>SRx_RESULT_DONOTUSE\<close> is taken.\<close>

definition merge_result :: "SRxResult \<Rightarrow> SRxResult \<Rightarrow> SRxResult" where
  "merge_result old new = \<lparr>roaResult = (if roaResult new = SRx_RESULT_DONOTUSE then roaResult old else roaResult new),
     bgpsecResult = (if bgpsecResult new = SRx_RESULT_DONOTUSE then bgpsecResult old else bgpsecResult new),
     aspaResult = (if aspaResult new = SRx_RESULT_DONOTUSE then aspaResult old else aspaResult new)\<rparr>"

lemma modify_entry_result: "srxResult (fst (modify_entry e uid res)) = merge_result (srxResult e) res"
  by (cases "srxResult e") (simp add: modify_entry_def merge_result_def Let_def)

lemma modify_entry_keeps:
  "ceUpdateID (fst (modify_entry e uid res)) = ceUpdateID e" "entry_clients (fst (modify_entry e uid res)) = entry_clients e"
  "(fst (modify_entry e uid res))\<lparr>srxResult := srxResult e\<rparr> = e"
  "valResult (snd (modify_entry e uid res)) = srxResult (fst (modify_entry e uid res))"
  "valUpdateID (snd (modify_entry e uid res)) = uid"
  by (simp_all add: modify_entry_def entry_clients_def Let_def)

lemma modify_entry_wf: "entry_wf e \<Longrightarrow> entry_wf (fst (modify_entry e uid res))"
  by (auto simp: modify_entry_def entry_wf_def Let_def split: option.splits)

lemma modify_entry_none:
  "valType (snd (modify_entry e uid res)) = VRT_NONE \<longleftrightarrow>
     roaResult (merge_result (srxResult e) res) = roaResult (srxResult e) \<and>
     bgpsecResult (merge_result (srxResult e) res) = bgpsecResult (srxResult e) \<and> aspaResult res = SRx_RESULT_DONOTUSE"
  by (auto simp: modify_entry_def merge_result_def Let_def)

lemma modify_entry_type:
  "bit (valType (snd (modify_entry e uid res))) 0 \<longleftrightarrow> roaResult (merge_result (srxResult e) res) \<noteq> roaResult (srxResult e)"
  "bit (valType (snd (modify_entry e uid res))) 1 \<longleftrightarrow> bgpsecResult (merge_result (srxResult e) res) \<noteq> bgpsecResult (srxResult e)"
  "bit (valType (snd (modify_entry e uid res))) 2 \<longleftrightarrow> aspaResult res \<noteq> SRx_RESULT_DONOTUSE"
  by (auto simp: modify_entry_def merge_result_def Let_def bit_simps)


text \<open>A stored update can be queried: right after \<open>storeUpdate\<close> stored it for one client,
  \<open>getUpdateResult\<close> by any client finds it, reports undefined results, the default result and the path
  identifier it was stored with, and registers the asking client behind the first one; no other
  entry is affected.\<close>

lemma store_get_roundtrip:
  assumes T: "uthash_laws T" and uc: "uc_ok T uc" "uc_entry T uc uid = None"
    and a: "a \<noteq> 0" "a \<notin> set (allItems uc)" and d: "blob_ok d"
    and c: "c \<noteq> 0" "c' \<noteq> 0" "1 < minNumberOfClients uc"
  shows "\<exists>uc1 m1 uc2 m2. storeUpdate T (Some a) garbage True now uc c (Some mp) uid pfx asn (Some r) (Some d) pathId =
      Inr (1, uc1, Some m1) \<and>
    getUpdateResult T True uc1 uid c' (Some mp') =
      Inr (True, \<lparr>roaResult = SRx_RESULT_UNDEFINED, bgpsecResult = SRx_RESULT_UNDEFINED, aspaResult = SRx_RESULT_UNDEFINED\<rparr>,
           r, Some pathId, uc2, Some m2) \<and>
    uc_ok T uc2 \<and> map_option entry_clients (uc_entry T uc2 uid) = Some (if c' = c then [c] else [c, c']) \<and>
    (\<forall>k. k \<noteq> uid \<longrightarrow> uc_entry T uc2 k = uc_entry T uc k)"
proof -
  from storeUpdate_new_ok [OF T uc a d, where pfx = pfx and garbage = garbage and now = now and c = c and mp = mp
      and asn = asn and defRes = "Some r" and pathId = pathId] c(1)
  obtain e m1 where s: "storeUpdate T (Some a) garbage True now uc c (Some mp) uid pfx asn (Some r) (Some d) pathId =
      Inr (1, (add_entry T a e uc)\<lparr>ski_calls := ski_calls uc @ [SkiRegister uid (bgpsec_path_attr d)]\<rparr>, Some m1)"
    "entry_wf e" "entry_clients e = [c]"
    "e\<lparr>clients := clients garbage, noPossibleClients := noPossibleClients garbage, gcFlag := gcFlag garbage\<rparr> =
      (init_entry garbage uid asn pathId pfx (Some r))\<lparr>pathData := path_of d pfx\<rparr>"
    "noPossibleClients e = minNumberOfClients uc" by auto
  let ?uc1 = "(add_entry T a e uc)\<lparr>ski_calls := ski_calls uc @ [SkiRegister uid (bgpsec_path_attr d)]\<rparr>"
  have f: "ceUpdateID e = uid" "aspathCacheID e = pathId" "defaultResult e = r"
    "srxResult e = \<lparr>roaResult = SRx_RESULT_UNDEFINED, bgpsecResult = SRx_RESULT_UNDEFINED, aspaResult = SRx_RESULT_UNDEFINED\<rparr>"
    using entry_same_data [OF s(4)] by (simp_all add: init_entry_def)
  have "uc_entry T uc (ceUpdateID e) = None" using f(1) uc(2) by simp
  note r = add_entry_refines [OF T uc(1) this a s(2)]
  have n: "length (entry_clients e) \<noteq> unat (noPossibleClients e)"
    using c(3) s(3,5) by (simp add: word_less_nat_alt)
  obtain uc2 m2 e2 where g: "getUpdateResult T True ?uc1 uid c' (Some mp') =
      Inr (True, srxResult e, defaultResult e, Some (aspathCacheID e), uc2, Some m2)"
    "uc_ok T uc2" "uc_entry T uc2 = (uc_entry T ?uc1)(uid \<mapsto> e2)"
    "entry_clients e2 = (if c' \<in> set (entry_clients e) then entry_clients e else entry_clients e @ [c'])"
    using getUpdateResult_ok [of T ?uc1 uid e c' mp'] r f(1) c(2) n by auto
  show ?thesis
    by (intro exI conjI, rule s(1), rule g(1) [unfolded f]) (use g(2-4) r f(1) s(3) in auto)
qed


lemma modifyUpdateResult_ok:
  fixes res suppress
  assumes uc: "uc_ok T uc" and e: "uc_entry T uc uid = Some e"
  defines "new \<equiv> merge_result (srxResult e) res"
  defines "notify \<equiv> \<not> suppress \<and> (roaResult new \<noteq> roaResult (srxResult e) \<or> bgpsecResult new \<noteq> bgpsecResult (srxResult e) \<or>
                      aspaResult res \<noteq> SRx_RESULT_DONOTUSE)"
  shows "\<exists>uc'. modifyUpdateResult T uc uid res suppress = Inr (\<not> notify \<or> resChangedCallback uc, uc') \<and>
            uc_ok T uc' \<and> uc_entry T uc' = (uc_entry T uc)(uid \<mapsto> e\<lparr>srxResult := new\<rparr>) \<and>
            map (\<lambda>v. (valUpdateID v, valResult v)) (notifications uc') =
              map (\<lambda>v. (valUpdateID v, valResult v)) (notifications uc) @
              (if notify \<and> resChangedCallback uc then [(uid, new)] else [])"
proof -
  from uc e obtain a where a: "HASH_FIND T uid (table uc) = a" "a \<noteq> 0" "ceUpdateID e = uid" "entry_wf e"
    "entry_at uc a = Inr e" "tableFind T uc uid = Inr (a, uc)" by (rule uc_entry_Some)
  obtain e' v where ev: "modify_entry e uid res = (e', v)" by force
  have e': "srxResult e' = new" "ceUpdateID e' = uid" "entry_wf e'" "e'\<lparr>srxResult := srxResult e\<rparr> = e"
    "valResult v = new" "valUpdateID v = uid" "valType v \<noteq> VRT_NONE \<longleftrightarrow> notify \<or> valType v \<noteq> VRT_NONE \<and> suppress"
    using modify_entry_result [of e uid res] modify_entry_keeps [of e uid res] modify_entry_wf [OF a(4), of uid res]
      modify_entry_none [of e uid res] a(3) ev
    by (auto simp: new_def notify_def)
  have upd: "e' = e\<lparr>srxResult := new\<rparr>"
    using e'(1,4) by (metis CacheEntry.surjective CacheEntry.update_convs(6))
  let ?uc = "set_entry a e' uc"
  let ?uc' = "if notify \<and> resChangedCallback uc then ?uc\<lparr>notifications := notifications uc @ [v]\<rparr> else ?uc"
  have set: "itemMutex ?uc = itemMutex uc" "resChangedCallback ?uc = resChangedCallback uc" "notifications ?uc = notifications uc"
    by (simp_all add: set_entry_def)
  have "modifyUpdateResult T uc uid res suppress = Inr (\<not> notify \<or> resChangedCallback uc, ?uc')"
    using a(2,5,6) ev set uc_ok_locks(1) [OF uc] e'(7)
    by (cases suppress; cases notify; cases "resChangedCallback uc")
      (auto simp: modifyUpdateResult_def set_entry_def Let_def notify_def)
  moreover have "uc_ok T ?uc'" "uc_entry T ?uc' = (uc_entry T uc)(uid \<mapsto> e\<lparr>srxResult := new\<rparr>)"
    using set_entry_refines [OF uc e e'(2,3)] a(1) upd by auto
  moreover have "map (\<lambda>v. (valUpdateID v, valResult v)) (notifications ?uc') =
      map (\<lambda>v. (valUpdateID v, valResult v)) (notifications uc) @ (if notify \<and> resChangedCallback uc then [(uid, new)] else [])"
    using set e'(5,6) by simp
  ultimately show ?thesis by blast
qed

text \<open>C10. \<open>modifyUpdateResult\<close> on a stored update: every result other than
  \<open>SRx_RESULT_DONOTUSE\<close> replaces the stored one, clients, path and all other entries stay as they are, and
  no lock is left behind. The routers are notified, with the new results and the identifier, when the ROA or the
  BGPsec result changed or an ASPA result was given (changed or not), unless the notification is suppressed; the
  call fails only when such a notification has no receiver. An unknown update is refused without any
  change.\<close>

theorem modifyUpdateResult_refines:
  assumes uc: "uc_ok T uc"
  shows "(uc_entry T uc uid = None \<longrightarrow> modifyUpdateResult T uc uid res suppress = Inr (False, uc)) \<and>
    (\<forall>e. uc_entry T uc uid = Some e \<longrightarrow>
      (let new = merge_result (srxResult e) res; old = srxResult e;
           notify = \<not> suppress \<and> (roaResult new \<noteq> roaResult old \<or> bgpsecResult new \<noteq> bgpsecResult old \<or>
                      aspaResult res \<noteq> SRx_RESULT_DONOTUSE)
       in \<exists>uc'. modifyUpdateResult T uc uid res suppress = Inr (\<not> notify \<or> resChangedCallback uc, uc') \<and>
            uc_ok T uc' \<and> uc_entry T uc' = (uc_entry T uc)(uid \<mapsto> e\<lparr>srxResult := new\<rparr>) \<and>
            map (\<lambda>v. (valUpdateID v, valResult v)) (notifications uc') =
              map (\<lambda>v. (valUpdateID v, valResult v)) (notifications uc) @
              (if notify \<and> resChangedCallback uc then [(uid, new)] else [])))"
  using modifyUpdateResult_ok [OF uc, of uid _ res suppress] uc_entry_None [OF uc, of uid]
  by (auto simp: Let_def modifyUpdateResult_def)

section \<open>Removing client references\<close>

text \<open>An entry without the client: nothing else but the garbage collection time may differ.\<close>

definition dropped :: "u8 \<Rightarrow> CacheEntry \<Rightarrow> CacheEntry \<Rightarrow> bool" where
  "dropped c e e' \<longleftrightarrow> entry_wf e' \<and> entry_clients e' = remove1 c (entry_clients e) \<and>
     e'\<lparr>clients := clients e, gcFlag := gcFlag e\<rparr> = e"

lemma dropped_refl: "entry_wf e \<Longrightarrow> c \<notin> set (entry_clients e) \<Longrightarrow> dropped c e e"
  by (simp add: dropped_def remove1_idem)

lemma dropped_id: "dropped c e e' \<Longrightarrow> ceUpdateID e' = ceUpdateID e \<and> pathData e' = pathData e"
  unfolding dropped_def by (metis CacheEntry.select_convs(3,10) CacheEntry.surjective CacheEntry.update_convs(1,9))

lemma deleteUpdateFromCache_entry_ok:
  assumes "entry_wf e" "c \<noteq> 0"
  shows "\<exists>e'. deleteUpdateFromCache_entry c e time = Inr (c \<in> set (entry_clients e), e') \<and> dropped c e e' \<and>
    gcFlag e' = (if entry_clients e = [c] then time else gcFlag e)"
proof -
  from deleteUpdateFromCache_clientMgmt_ok [OF assms] obtain e1 where e1:
    "deleteUpdateFromCache_clientMgmt e c = Inr (if c \<notin> set (entry_clients e) then - 1 else if entry_clients e = [c] then 0 else 1, e1)"
    "entry_wf e1" "entry_clients e1 = remove1 c (entry_clients e)" "e1\<lparr>clients := clients e\<rparr> = e" by blast
  have gc: "gcFlag e1 = gcFlag e" "e1\<lparr>clients := clients e, gcFlag := gcFlag e\<rparr> = e"
    using arg_cong [OF e1(4), of gcFlag] arg_cong [OF e1(4), of "\<lambda>x. x\<lparr>gcFlag := gcFlag e\<rparr>"] by simp_all
  have wf: "entry_wf (e1\<lparr>gcFlag := time\<rparr>)" "entry_clients (e1\<lparr>gcFlag := time\<rparr>) = entry_clients e1"
    using e1(2) by (auto simp: entry_wf_def entry_clients_def split: option.splits)
  consider "c \<notin> set (entry_clients e)" | "entry_clients e = [c]" | "c \<in> set (entry_clients e)" "entry_clients e \<noteq> [c]" by blast
  then show ?thesis
    using e1 gc wf
    by cases (auto simp: deleteUpdateFromCache_entry_def dropped_def setGCFlag_def)
qed


lemma deleteUpdateFromCache_ok:
  assumes uc: "uc_ok T uc" "uc_entry T uc uid = Some e" and c: "c \<noteq> 0"
  shows "\<exists>uc' e'. deleteUpdateFromCache T now uc c uid keep = Inr (c \<in> set (entry_clients e), uc') \<and>
    uc_ok T uc' \<and> uc_entry T uc' = (uc_entry T uc)(uid \<mapsto> e') \<and> dropped c e e' \<and>
    ski_calls uc' = ski_calls uc @ (if c \<in> set (entry_clients e) \<and> bgpsec_path (pathData e) \<noteq> None
      then [SkiUnregister uid (bgpsec_path (pathData e))] else [])"
proof -
  from uc obtain a where a: "HASH_FIND T uid (table uc) = a" "a \<noteq> 0" "ceUpdateID e = uid" "entry_wf e"
    "entry_at uc a = Inr e" "tableFind T uc uid = Inr (a, uc)" by (rule uc_entry_Some)
  let ?keep = "if int (unat keep) < defaultKeepWindow uc then word_of_int (defaultKeepWindow uc) else keep"
  from deleteUpdateFromCache_entry_ok [OF a(4) c, of "getGCTime now ?keep"]
  obtain e' where e': "deleteUpdateFromCache_entry c e (getGCTime now ?keep) = Inr (c \<in> set (entry_clients e), e')"
    "dropped c e e'" by blast
  have id: "ceUpdateID e' = uid" "entry_wf e'" "pathData e' = pathData e"
    using dropped_id [OF e'(2)] e'(2) a(3) by (simp_all add: dropped_def)
  note r = set_entry_refines [OF uc id(1,2), unfolded a(1)]
  show ?thesis
    using a(2,5,6) e' id(3) r
    by (cases "c \<in> set (entry_clients e) \<and> bgpsec_path (pathData e) \<noteq> None")
      (auto simp: deleteUpdateFromCache_def Let_def set_entry_def)
qed

text \<open>C25. A client withdraws an update: \<open>deleteUpdateFromCache\<close> succeeds exactly when the
  client is registered with it. The entry loses this client and keeps all others in their order, with no hole in
  the array; data, results and all other entries are untouched. A
  successful call unregisters the update's path attribute with the SKI cache, also while other clients still use the
  update. The update itself stays in the cache, and an unknown one is refused.\<close>

theorem deleteUpdateFromCache_refines:
  assumes uc: "uc_ok T uc" and c: "c \<noteq> 0"
  shows "(uc_entry T uc uid = None \<longrightarrow> deleteUpdateFromCache T now uc c uid keep = Inr (False, uc)) \<and>
    (\<forall>e. uc_entry T uc uid = Some e \<longrightarrow>
      (\<exists>uc' e'. deleteUpdateFromCache T now uc c uid keep = Inr (c \<in> set (entry_clients e), uc') \<and>
        uc_ok T uc' \<and> uc_entry T uc' = (uc_entry T uc)(uid \<mapsto> e') \<and>
        entry_clients e' = remove1 c (entry_clients e) \<and> e'\<lparr>clients := clients e, gcFlag := gcFlag e\<rparr> = e \<and>
        ski_calls uc' = ski_calls uc @ (if c \<in> set (entry_clients e) \<and> bgpsec_path (pathData e) \<noteq> None
          then [SkiUnregister uid (bgpsec_path (pathData e))] else [])))"
proof (intro conjI impI allI)
  assume "uc_entry T uc uid = None"
  from uc_entry_None [OF uc this] show "deleteUpdateFromCache T now uc c uid keep = Inr (False, uc)"
    by (simp add: deleteUpdateFromCache_def Let_def)
next
  fix e assume "uc_entry T uc uid = Some e"
  from deleteUpdateFromCache_ok [OF uc this c, of now keep]
  show "\<exists>uc' e'. deleteUpdateFromCache T now uc c uid keep = Inr (c \<in> set (entry_clients e), uc') \<and>
        uc_ok T uc' \<and> uc_entry T uc' = (uc_entry T uc)(uid \<mapsto> e') \<and>
        entry_clients e' = remove1 c (entry_clients e) \<and> e'\<lparr>clients := clients e, gcFlag := gcFlag e\<rparr> = e \<and>
        ski_calls uc' = ski_calls uc @ (if c \<in> set (entry_clients e) \<and> bgpsec_path (pathData e) \<noteq> None
          then [SkiUnregister uid (bgpsec_path (pathData e))] else [])"
    unfolding dropped_def by blast
qed

text \<open>Unregistering a client: the walk over the list of all entries.\<close>

definition uses :: "u8 \<Rightarrow> 't UpdateCache \<Rightarrow> addr \<Rightarrow> bool" where
  "uses c uc a \<longleftrightarrow> (case entries uc a of None \<Rightarrow> False | Some e \<Rightarrow> c \<in> set (entry_clients e))"

lemma unregister_loop_ok:
  assumes "\<forall>a \<in> set as. a \<noteq> 0 \<and> (\<exists>e. entries uc a = Some e \<and> entry_wf e)" "distinct as" "c \<noteq> 0"
    "length (filter (uses c uc) as) = unat (updateCount m)"
  shows "\<exists>f m'. unregister_loop c time as uc m n = Inr (n + int (unat (updateCount m)), uc\<lparr>entries := f\<rparr>, m') \<and>
    updateCount m' = 0 \<and> (\<forall>a \<in> set as. \<exists>e e'. entries uc a = Some e \<and> f a = Some e' \<and> dropped c e e') \<and>
    (\<forall>a. a \<notin> set as \<longrightarrow> f a = entries uc a)"
  using assms
proof (induction as arbitrary: uc m n)
  case Nil
  then have "updateCount m = 0" by (metis filter.simps(1) list.size(3) unat_eq_zero)
  then show ?case by (auto intro!: exI [of _ "entries uc"])
next
  case (Cons a as)
  from Cons.prems(1) obtain e where e: "a \<noteq> 0" "entries uc a = Some e" "entry_wf e" by auto
  from deleteUpdateFromCache_entry_ok [OF e(3) Cons.prems(3), of time] obtain e' where
    e': "deleteUpdateFromCache_entry c e time = Inr (c \<in> set (entry_clients e), e')" "dropped c e e'" by blast
  let ?u = "c \<in> set (entry_clients e)"
  let ?uc = "set_entry a e' uc" and ?m = "if ?u then m\<lparr>updateCount := updateCount m - 1\<rparr> else m"
  have step: "unregister_loop c time (a # as) uc m n =
      (if updateCount ?m = 0 then Inr (n + (if ?u then 1 else 0), ?uc, ?m)
       else unregister_loop c time as ?uc ?m (n + (if ?u then 1 else 0)))"
    using e e'(1) by (simp add: entry_at_def)
  have others: "entries ?uc b = entries uc b" if "b \<in> set as" for b
    using that Cons.prems(2) by (auto simp: set_entry_def)
  have "filter (uses c ?uc) as = filter (uses c uc) as"
    using others by (intro filter_cong) (simp_all add: uses_def)
  moreover have ua: "uses c uc a \<longleftrightarrow> ?u" using e(2) by (simp add: uses_def)
  moreover have dec: "unat (updateCount m - 1) = unat (updateCount m) - 1" if "0 < unat (updateCount m)"
    using that by (intro unat_minus_one) auto
  ultimately have count: "length (filter (uses c ?uc) as) = unat (updateCount ?m)"
    and sum: "unat (updateCount m) = (if ?u then 1 else 0) + unat (updateCount ?m)"
    using Cons.prems(4) by (auto split: if_splits)
  have total: "int (unat (updateCount m)) = (if ?u then 1 else 0) + int (unat (updateCount ?m))"
    using arg_cong [OF sum, of int] by (cases ?u) simp_all
  show ?case
  proof (cases "updateCount ?m = 0")
    case True
    then have "\<forall>b \<in> set as. \<not> uses c uc b" using count \<open>filter (uses c ?uc) as = _\<close> by (auto simp: filter_empty_conv)
    then have "\<forall>b \<in> set as. \<exists>x. entries uc b = Some x \<and> dropped c x x"
      using Cons.prems(1) by (fastforce simp: uses_def intro: dropped_refl)
    then have "\<forall>b \<in> set (a # as). \<exists>x x'. entries uc b = Some x \<and> entries ?uc b = Some x' \<and> dropped c x x'"
      using e(2) e'(2) others by (auto simp: set_entry_def)
    moreover have "unregister_loop c time (a # as) uc m n =
        Inr (n + int (unat (updateCount m)), uc\<lparr>entries := entries ?uc\<rparr>, ?m)"
      unfolding step total using True by (simp add: set_entry_def)
    moreover have "\<forall>b. b \<notin> set (a # as) \<longrightarrow> entries ?uc b = entries uc b" by (simp add: set_entry_def)
    ultimately show ?thesis using True by blast
  next
    case False
    from Cons.IH [of ?uc ?m "n + (if ?u then 1 else 0)"] Cons.prems others count
    obtain f m' where f: "unregister_loop c time as ?uc ?m (n + (if ?u then 1 else 0)) =
        Inr (n + (if ?u then 1 else 0) + int (unat (updateCount ?m)), ?uc\<lparr>entries := f\<rparr>, m')" "updateCount m' = 0"
      "\<forall>b \<in> set as. \<exists>x x'. entries ?uc b = Some x \<and> f b = Some x' \<and> dropped c x x'" "\<forall>b. b \<notin> set as \<longrightarrow> f b = entries ?uc b"
      by auto
    have "f a = Some e'" using f(4) Cons.prems(2) by (simp add: set_entry_def)
    then have "\<forall>b \<in> set (a # as). \<exists>x x'. entries uc b = Some x \<and> f b = Some x' \<and> dropped c x x'"
      using f(3) others e(2) e'(2) by auto
    moreover have "unregister_loop c time (a # as) uc m n = Inr (n + int (unat (updateCount m)), uc\<lparr>entries := f\<rparr>, m')"
      unfolding step total using False f(1) by (simp add: set_entry_def)
    moreover have "\<forall>b. b \<notin> set (a # as) \<longrightarrow> f b = entries uc b" using f(4) by (simp add: set_entry_def)
    ultimately show ?thesis using f(2) by blast
  qed
qed


text \<open>Dropping a client in every entry keeps the invariant.\<close>

lemma drop_all_ok:
  assumes uc: "uc_ok T uc" and f: "\<forall>a \<in> set (allItems uc). \<exists>e e'. entries uc a = Some e \<and> f a = Some e' \<and> dropped c e e'"
  shows "uc_ok T (uc\<lparr>entries := f\<rparr>)" "rel_option (dropped c) (uc_entry T uc k) (uc_entry T (uc\<lparr>entries := f\<rparr>) k)"
proof -
  have found: "\<exists>e e'. entries uc (HASH_FIND T j (table uc)) = Some e \<and> f (HASH_FIND T j (table uc)) = Some e' \<and> dropped c e e' \<and>
      ceUpdateID e' = j \<and> entry_wf e'" if "HASH_FIND T j (table uc) \<noteq> 0" for j
  proof -
    from f uc_ok_found(1) [OF uc that] obtain e e' where e: "entries uc (HASH_FIND T j (table uc)) = Some e"
      "f (HASH_FIND T j (table uc)) = Some e'" "dropped c e e'" by blast
    moreover have "ceUpdateID e = j" using uc_ok_found(2) [OF uc that] e(1) by simp
    ultimately show ?thesis using dropped_id [OF e(3)] unfolding dropped_def by blast
  qed
  have item: "\<exists>e. f a = Some e \<and> HASH_FIND T (ceUpdateID e) (table uc) = a" if a: "a \<in> set (allItems uc)" for a
  proof -
    from f a obtain e e' where e: "entries uc a = Some e" "f a = Some e'" "dropped c e e'" by blast
    then show ?thesis using uc_ok_item(2) [OF uc a] dropped_id [OF e(3)] by simp
  qed
  show "uc_ok T (uc\<lparr>entries := f\<rparr>)"
    unfolding uc_ok_def
  proof (intro conjI allI ballI impI)
    fix j assume j: "HASH_FIND T j (table (uc\<lparr>entries := f\<rparr>)) \<noteq> 0"
    show "\<exists>e. entries (uc\<lparr>entries := f\<rparr>) (HASH_FIND T j (table (uc\<lparr>entries := f\<rparr>))) = Some e \<and> ceUpdateID e = j \<and> entry_wf e"
      using found [of j] j by auto
    show "HASH_FIND T j (table (uc\<lparr>entries := f\<rparr>)) \<in> set (allItems (uc\<lparr>entries := f\<rparr>))"
      using uc_ok_found(1) [OF uc] j by simp
  qed (use uc item in \<open>simp_all add: uc_ok_def\<close>)
  show "rel_option (dropped c) (uc_entry T uc k) (uc_entry T (uc\<lparr>entries := f\<rparr>) k)"
    using found [of k] by (cases "HASH_FIND T k (table uc) = 0") (auto simp: uc_entry_def)
qed

lemma uses_count:
  assumes uc: "uc_ok T uc"
  shows "length (filter (uses c uc) (allItems uc)) = card {k. \<exists>e. uc_entry T uc k = Some e \<and> c \<in> set (entry_clients e)}"
proof -
  let ?K = "{k. \<exists>e. uc_entry T uc k = Some e \<and> c \<in> set (entry_clients e)}" and ?f = "\<lambda>k. HASH_FIND T k (table uc)"
  have "set (filter (uses c uc) (allItems uc)) = ?f ` ?K"
  proof (intro set_eqI iffI)
    fix a assume a: "a \<in> set (filter (uses c uc) (allItems uc))"
    then obtain e where e: "entries uc a = Some e" "?f (ceUpdateID e) = a" "a \<noteq> 0" using uc_ok_item [OF uc] by fastforce
    then have "ceUpdateID e \<in> ?K" using a by (simp add: uses_def uc_entry_def)
    then show "a \<in> ?f ` ?K" using e(2) by blast
  next
    fix a assume "a \<in> ?f ` ?K"
    then obtain k e where k: "a = ?f k" "uc_entry T uc k = Some e" "c \<in> set (entry_clients e)" by blast
    from uc k(2) obtain b where "?f k = b" "entries uc b = Some e" "b \<in> set (allItems uc)" by (rule uc_entry_Some)
    then show "a \<in> set (filter (uses c uc) (allItems uc))" using k(1,3) by (simp add: uses_def)
  qed
  moreover have "inj_on ?f ?K"
  proof (rule inj_onI)
    fix j k assume j: "j \<in> ?K" and k: "k \<in> ?K" and eq: "?f j = ?f k"
    from j obtain x where x: "uc_entry T uc j = Some x" by blast
    from k obtain y where y: "uc_entry T uc k = Some y" by blast
    from uc x have xj: "entries uc (?f j) = Some x \<and> ceUpdateID x = j" by (rule uc_entry_Some) simp
    from uc y have "entries uc (?f k) = Some y \<and> ceUpdateID y = k" by (rule uc_entry_Some) simp
    then show "j = k" using xj eq by simp
  qed
  moreover have "length (filter (uses c uc) (allItems uc)) = card (set (filter (uses c uc) (allItems uc)))"
    using uc by (metis distinct_card distinct_filter uc_ok_def)
  ultimately show ?thesis by (simp add: card_image)
qed

text \<open>C26. A client disconnects: if its update counter agrees with the number of updates it is registered with,
  its identifier is below 64 and its slot is not locked, \<open>unregisterClientID\<close> returns that number, ends with the
  counter at zero, removes the client from every entry of the cache and changes nothing else of any entry but
  the garbage collection time. All locks are released.\<close>

theorem unregisterClientID_complete:
  assumes uc: "uc_ok T uc" and c: "c \<noteq> 0" "lockedClients uc = Some ls" "unat c < length ls" "\<not> ls ! unat c"
    and count: "unat (updateCount m) = card {k. \<exists>e. uc_entry T uc k = Some e \<and> c \<in> set (entry_clients e)}"
  shows "\<exists>uc' m'. unregisterClientID uc c (Some m) keepTime = Inr (int (unat (updateCount m)), uc', Some m') \<and>
    updateCount m' = 0 \<and> uc_ok T uc' \<and>
    (\<forall>k. rel_option (\<lambda>e e'. entry_clients e' = remove1 c (entry_clients e) \<and> c \<notin> set (entry_clients e') \<and>
           e'\<lparr>clients := clients e, gcFlag := gcFlag e\<rparr> = e) (uc_entry T uc k) (uc_entry T uc' k))"
proof -
  have wf: "\<forall>a \<in> set (allItems uc). a \<noteq> 0 \<and> (\<exists>e. entries uc a = Some e \<and> entry_wf e)"
    using uc_ok_item [OF uc] uc_ok_found(2) [OF uc] by fastforce
  have dist: "distinct (allItems uc)" using uc by (simp add: uc_ok_def)
  note cnt = uses_count [OF uc, of c, folded count]
  from unregister_loop_ok [OF wf dist c(1) cnt, of "ucast keepTime" 0]
  obtain f m' where f: "unregister_loop c (ucast keepTime) (allItems uc) uc m 0 = Inr (int (unat (updateCount m)), uc\<lparr>entries := f\<rparr>, m')"
    "updateCount m' = 0" "\<forall>a \<in> set (allItems uc). \<exists>e e'. entries uc a = Some e \<and> f a = Some e' \<and> dropped c e e'" by auto
  have drop: "entry_clients e' = remove1 c (entry_clients e) \<and> c \<notin> set (entry_clients e') \<and>
      e'\<lparr>clients := clients e, gcFlag := gcFlag e\<rparr> = e" if "dropped c e e'" "entry_wf e" for e e'
    using that by (auto simp: dropped_def elim: entry_wfE)
  define g where "g = (if allItems uc = [] then entries uc else f)"
  define m2 where "m2 = (if allItems uc = [] then m else m')"
  have g: "\<forall>a \<in> set (allItems uc). \<exists>e e'. entries uc a = Some e \<and> g a = Some e' \<and> dropped c e e'" using f(3) by (auto simp: g_def)
  have m2: "updateCount m2 = 0" using f(2) cnt by (auto simp: m2_def unat_eq_zero)
  have "unregisterClientID uc c (Some m) keepTime = Inr (int (unat (updateCount m)), uc\<lparr>entries := g\<rparr>, Some m2)"
    using f(1) c uc_ok_locks [OF uc] m2
    by (cases "allItems uc = []") (simp_all add: unregisterClientID_def g_def m2_def)
  moreover have "rel_option (\<lambda>e e'. entry_clients e' = remove1 c (entry_clients e) \<and> c \<notin> set (entry_clients e') \<and>
           e'\<lparr>clients := clients e, gcFlag := gcFlag e\<rparr> = e) (uc_entry T uc k) (uc_entry T (uc\<lparr>entries := g\<rparr>) k)" for k
  proof (cases "uc_entry T uc k")
    case (Some e)
    with uc have wf: "entry_wf e" by (rule uc_entry_Some)
    from drop_all_ok(2) [OF uc g, of k] Some obtain e' where "uc_entry T (uc\<lparr>entries := g\<rparr>) k = Some e'" and d: "dropped c e e'"
      by (cases "uc_entry T (uc\<lparr>entries := g\<rparr>) k") auto
    then show ?thesis using drop [OF d wf] Some by auto
  qed (use drop_all_ok(2) [OF uc g, of k] in auto)
  ultimately show ?thesis using m2 drop_all_ok(1) [OF uc g] by blast
qed


text \<open>The array of locked clients has 64 elements (256 bytes, but elements of four bytes) while client identifiers
  are bytes: on a cache as \<open>createUpdateCache\<close> leaves it, unregistering a client with an identifier of 64 or more
  reads behind the array, whatever the cache holds.\<close>

theorem unregisterClientID_limit:
  assumes "createUpdateCache T True True uc0 cb minC window = (True, uc)" "64 \<le> unat c"
  shows "unregisterClientID uc c m keepTime = Inl OutOfBounds"
  using assms by (auto simp: createUpdateCache_def initMutex_def createRWLock_def unregisterClientID_def)

section \<open>Collisions\<close>

text \<open>\<open>detectCollision\<close> for a stored IPv4 update: it reports a collision exactly when the AS number, the
  number of hops, the AS path or the BGPsec attribute of the request differs from the stored one. The prefix of
  the request has no influence: two updates that differ in the prefix only are taken to be the same. For a stored
  IPv6 update the same comparison reads one byte behind the address.\<close>

lemma detectCollision_ignores_prefix:
  assumes uc: "uc_ok T uc" "uc_entry T uc uid = Some e"
    and req: "blob_ok d" "length (addr (ip pfx)) = 16"
    and stored: "blob_ok d'" "pathData e = path_of d' pfx'" "length (addr (ip (cePrefix e))) = 16" "attr_length d = attr_length d'"
  shows "(version (ip (cePrefix e)) = 4 \<longrightarrow>
      detectCollision T uc uid pfx asn d = Inr (ceAsn e \<noteq> asn \<or> numberHops d' \<noteq> numberHops d \<or>
        asn_path (path_of d' pfx') \<noteq> asn_path (path_of d (Some pfx)) \<or> bgpsec_path (path_of d' pfx') \<noteq> bgpsec_path (path_of d (Some pfx)), uc)) \<and>
    (version (ip (cePrefix e)) \<noteq> 4 \<and> ceAsn e = asn \<and> numberHops d' = numberHops d \<longrightarrow>
      detectCollision T uc uid pfx asn d = Inl OutOfBounds)"
proof -
  from uc obtain a where a: "a \<noteq> 0" "entry_at uc a = Inr e" "tableFind T uc uid = Inr (a, uc)" by (rule uc_entry_Some)
  have path: "memcmp_differs (asn_path (path_of d' pfx')) (Some (asPath d)) (unat (numberHops d')) =
      Inr (asn_path (path_of d' pfx') \<noteq> asn_path (path_of d (Some pfx)))" if "numberHops d' = numberHops d"
    using req(1) stored(1) that by (auto simp: memcmp_differs_def path_of_def blob_ok_def unat_eq_zero)
  have attr: "memcmp_differs (bgpsec_path (path_of d' pfx')) (bgpsec_path_attr d) (unat (attr_length d')) =
      Inr (bgpsec_path (path_of d' pfx') \<noteq> bgpsec_path (path_of d (Some pfx)))"
    using req(1) stored(1,4)
    by (auto simp: memcmp_differs_def path_of_def blob_ok_def unat_eq_zero split: option.splits)
  have sel: "hops (path_of d' pfx') = numberHops d'" "nat (bgpsec_length (path_of d' pfx')) = unat (attr_length d')"
    by (simp_all add: path_of_def)
  show ?thesis
    using a path attr req(2) stored(2,3) by (auto simp: detectCollision_def Let_def sel)
qed


section \<open>A sample cache\<close>

definition request_data :: BGPSecData where
  "request_data = sample_data\<lparr>bgpsec_path_attr := Some [1, 2, 3]\<rparr>"

definition sample_entry :: CacheEntry where
  "sample_entry = \<lparr>clients = Some [5, 7, 0], noPossibleClients = 3, ceUpdateID = 9, ceAsn = 65001,
     cePrefix = \<lparr>ip = \<lparr>version = 4, addr = [10, 1, 0, 0] @ replicate 12 0\<rparr>, plength = 16\<rparr>,
     srxResult = \<lparr>roaResult = SRx_RESULT_VALID, bgpsecResult = SRx_RESULT_UNDEFINED, aspaResult = SRx_RESULT_UNDEFINED\<rparr>,
     defaultResult = unknown_default, roaRefCount = 0, gcFlag = 0, pathData = path_of request_data None, aspathCacheID = 77\<rparr>"

definition sample_cache :: "((u32 \<Rightarrow> addr) \<times> addr list) UpdateCache" where
  "sample_cache = \<lparr>defaultKeepWindow = 900, resChangedCallback = True, itemMutex = MutexFree, allItems = [4], availItems = 4,
     itemsUsed = 1, ucTableLock = Unlocked, table = ((\<lambda>_. 0)(9 := 4), [4]), entries = [4 \<mapsto> sample_entry],
     minNumberOfClients = 3, lockedClients = Some (replicate 64 False), notifications = [], ski_calls = []\<rparr>"

definition sample_mapping :: ProxyClientMapping where
  "sample_mapping = \<lparr>proxyID = 1, socket = 1, isActive = True, preDefined = False, crashed = 0, updateCount = 1\<rparr>"

lemma sample_entry_wf: "entry_wf sample_entry" "entry_clients sample_entry = [5, 7]"
  by (simp_all add: sample_entry_def entry_wf_def entry_clients_def hole_free_def client_list_def)

lemma sample_entry_sel [simp]: "ceUpdateID sample_entry = 9" "pathData sample_entry = path_of request_data None"
  "noPossibleClients sample_entry = 3" "ceAsn sample_entry = 65001" "version (ip (cePrefix sample_entry)) = 4"
  "length (addr (ip (cePrefix sample_entry))) = 16"
  by (simp_all add: sample_entry_def)

lemma sample_cache_ok: "uc_ok fun_table sample_cache"
  using sample_entry_wf(1) by (auto simp: uc_ok_def sample_cache_def fun_table_def split: if_splits)

lemma sample_cache_entry: "uc_entry fun_table sample_cache k = (if k = 9 then Some sample_entry else None)"
  by (simp add: uc_entry_def sample_cache_def fun_table_def)

lemma sample_cache_sel [simp]: "allItems sample_cache = [4]" "minNumberOfClients sample_cache = 3"
  "lockedClients sample_cache = Some (replicate 64 False)"
  by (simp_all add: sample_cache_def)

lemma request_blob: "blob_ok request_data"
  by (simp add: blob_ok_def request_data_def sample_data_def)

lemma sample_cache_users: "card {k. \<exists>e. uc_entry fun_table sample_cache k = Some e \<and> 7 \<in> set (entry_clients e)} = 1"
proof -
  have "{k. \<exists>e. uc_entry fun_table sample_cache k = Some e \<and> 7 \<in> set (entry_clients e)} = {9}"
    by (auto simp: sample_cache_entry sample_entry_wf split: if_splits)
  then show ?thesis by simp
qed

lemma storeUpdate_new_witness:
  "\<exists>uc' m' e. storeUpdate fun_table (Some 8) sample_entry True 0 sample_cache 3 (Some sample_mapping) 10 (Some sample_prefix)
      65002 None (Some request_data) 78 = Inr (1, uc', Some m') \<and>
    uc_entry fun_table uc' = (uc_entry fun_table sample_cache)(10 \<mapsto> e) \<and> entry_clients e = [3] \<and> updateCount m' = 2"
  using storeUpdate_new [OF fun_table_laws sample_cache_ok, of 10 8 request_data sample_entry 0 3 sample_mapping sample_prefix 65002 None 78]
  by (auto simp: sample_cache_entry request_blob sample_mapping_def)

lemma storeUpdate_errors_witness:
  "storeUpdate fun_table None sample_entry True 0 sample_cache 3 None 9 None 65002 None None 78 = Inr (0, sample_cache, None) \<and>
   storeUpdate fun_table None sample_entry True 0 sample_cache 3 None 10 None 65002 None None 78 =
     Inr (- 1, sample_cache\<lparr>itemMutex := MutexLocked\<rparr>, None)"
  using storeUpdate_errors [OF sample_cache_ok, of 9 sample_entry None sample_entry True 0 3 None None 65002 None None 78]
    storeUpdate_errors [OF sample_cache_ok, of 10 sample_entry None sample_entry True 0 3 None None 65002 None None 78]
  by (simp add: sample_cache_entry)

lemma store_get_roundtrip_witness:
  "\<exists>uc1 m1 uc2 m2. storeUpdate fun_table (Some 8) sample_entry True 0 sample_cache 3 (Some sample_mapping) 10 (Some sample_prefix)
      65002 (Some unknown_default) (Some request_data) 78 = Inr (1, uc1, Some m1) \<and>
    getUpdateResult fun_table True uc1 10 6 (Some sample_mapping) =
      Inr (True, \<lparr>roaResult = SRx_RESULT_UNDEFINED, bgpsecResult = SRx_RESULT_UNDEFINED, aspaResult = SRx_RESULT_UNDEFINED\<rparr>,
        unknown_default, Some 78, uc2, Some m2) \<and> map_option entry_clients (uc_entry fun_table uc2 10) = Some [3, 6]"
  using store_get_roundtrip [OF fun_table_laws sample_cache_ok, of 10 8 request_data 3 6 sample_entry 0 sample_mapping
      "Some sample_prefix" 65002 unknown_default 78 sample_mapping]
  by (auto simp: sample_cache_entry request_blob)

lemma modifyUpdateResult_refines_witness:
  "\<exists>uc'. modifyUpdateResult fun_table sample_cache 9 \<lparr>roaResult = 2, bgpsecResult = 4, aspaResult = 4\<rparr> False = Inr (True, uc') \<and>
    uc_entry fun_table uc' 9 = Some (sample_entry\<lparr>srxResult := \<lparr>roaResult = 2, bgpsecResult = 3, aspaResult = 3\<rparr>\<rparr>)"
proof -
  have r: "srxResult sample_entry = \<lparr>roaResult = 0, bgpsecResult = 3, aspaResult = 3\<rparr>" "resChangedCallback sample_cache"
    by (simp_all add: sample_entry_def sample_cache_def)
  show ?thesis
    using modifyUpdateResult_refines [OF sample_cache_ok, of 9 "\<lparr>roaResult = 2, bgpsecResult = 4, aspaResult = 4\<rparr>" False]
    by (auto simp: sample_cache_entry merge_result_def r Let_def)
qed

lemma deleteUpdateFromCache_refines_witness:
  "\<exists>uc' e'. deleteUpdateFromCache fun_table 0 sample_cache 5 9 10 = Inr (True, uc') \<and> uc_entry fun_table uc' 9 = Some e' \<and>
    entry_clients e' = [7]"
  using deleteUpdateFromCache_refines [OF sample_cache_ok, of 5 9 0 10]
  by (auto simp: sample_cache_entry sample_entry_wf)

lemma unregisterClientID_complete_witness:
  "\<exists>uc' m' e'. unregisterClientID sample_cache 7 (Some sample_mapping) 10 = Inr (1, uc', Some m') \<and> updateCount m' = 0 \<and>
    uc_entry fun_table uc' 9 = Some e' \<and> entry_clients e' = [5]"
proof -
  have count: "unat (updateCount sample_mapping) = 1" by (simp add: sample_mapping_def)
  obtain uc' m' where u: "unregisterClientID sample_cache 7 (Some sample_mapping) 10 = Inr (1, uc', Some m')" "updateCount m' = 0"
    and r: "\<forall>k. rel_option (\<lambda>e e'. entry_clients e' = remove1 7 (entry_clients e) \<and> 7 \<notin> set (entry_clients e') \<and>
           e'\<lparr>clients := clients e, gcFlag := gcFlag e\<rparr> = e) (uc_entry fun_table sample_cache k) (uc_entry fun_table uc' k)"
    using unregisterClientID_complete [OF sample_cache_ok, of 7 "replicate 64 False" sample_mapping 10]
    by (auto simp: count sample_cache_users)
  from r [THEN spec, of 9] show ?thesis
    using u by (cases "uc_entry fun_table uc' 9") (auto simp: sample_cache_entry sample_entry_wf)
qed

lemma unregisterClientID_limit_witness:
  "unregisterClientID (snd (createUpdateCache fun_table True True sample_cache True 2 900)) 64 None 0 = Inl OutOfBounds"
  by (rule unregisterClientID_limit [of fun_table sample_cache True 2 900])
    (simp_all add: createUpdateCache_def initMutex_def createRWLock_def)

lemma detectCollision_ignores_prefix_witness:
  "detectCollision fun_table sample_cache 9 sample_prefix 65001 request_data = Inr (False, sample_cache)"
  using detectCollision_ignores_prefix [OF sample_cache_ok, of 9 sample_entry request_data sample_prefix request_data None 65001]
  by (simp add: sample_cache_entry request_blob path_of_def sample_prefix_def)

end
