(* ===== verification/Prefix_Cache.thy ===== *)
theory Prefix_Cache
  imports Update_Cache Rpki_Queue "HOL-Library.Tree"
begin

text \<open>
  The prefix cache, \<open>server/prefix_cache.c\<close>: prefix origin validation. Every prefix of an update or of a ROA
  white list entry is a node of a patricia tree; the node's data holds the ROAs attached to the prefix, grouped by
  AS number, and the updates of the prefix in a list of valid ones and a list of the others. The patricia tree is a
  library that is not part of the sources: it is the parameter \<open>P\<close> of the operations. The code reads three
  things of a node: the length of its prefix, the nodes reached by the parent pointers, and the tree of nodes reached by the
  pointers \<open>l\<close> and \<open>r\<close>; the parameter gives exactly these. \<open>PC_Update\<close> and \<open>PC_ROA\<close>
  objects are shared by pointer and live at addresses; a \<open>PC_Prefix\<close> is reached through its node.
\<close>

text \<open>The recursive operations call themselves in the second argument of a bind.\<close>

declare cbind_fundef_cong [fundef_cong]

section \<open>Data\<close>

record prefix_t =
  family :: u32
  bitlen :: u8
  add :: "u8 list"

definition AF_INET :: u32 where [simp]: "AF_INET = 2"
definition AF_INET6 :: u32 where [simp]: "AF_INET6 = 10"

text \<open>\<open>patricia_lookup\<close> returns the node of a prefix, which it inserts when it is missing, and whether the given
  \<open>prefix_t\<close> is referenced by the tree afterwards; \<open>None\<close> is the null pointer.\<close>

record 'p patricia =
  patricia_lookup :: "'p \<Rightarrow> prefix_t \<Rightarrow> (addr \<times> bool) option \<times> 'p"
  node_bitlen :: "'p \<Rightarrow> addr \<Rightarrow> nat"
  node_parents :: "'p \<Rightarrow> addr \<Rightarrow> addr list"
  node_tree :: "'p \<Rightarrow> addr \<Rightarrow> addr tree"

record PC_Update =
  pu_updateID :: u32
  pu_as :: u32
  pu_treeNode :: addr
  roa_match :: u16

record PC_ROA =
  roa_as :: u32
  max_len :: u8
  roa_count :: u16
  deferred_count :: u16
  valCacheID :: u32
  roa_update_count :: u32

record PC_AS =
  as_asn :: u32
  as_roas :: "addr list"
  as_update_count :: u32

text \<open>A list of updates: the nodes reached from its root, and by how many its size field exceeds their number.
  The last pointer is the last of these nodes, or null when there is none.\<close>

record ulist =
  chain :: "addr list"
  lost :: nat

record PC_Prefix =
  roa_coverage :: u32
  state_of_other :: u8
  valid :: ulist
  other :: ulist
  asn :: "PC_AS list"

record ('p, 't) PrefixCache =
  updateCache :: "'t UpdateCache option"
  prefixTree :: "'p option"
  updates :: "addr list"
  pc_updates :: "addr \<rightharpoonup> PC_Update"
  pc_roas :: "addr \<rightharpoonup> PC_ROA"
  node_data :: "addr \<rightharpoonup> PC_Prefix"
  updatesMutex :: Mutex
  treeLock :: RWLock
  otherLock :: RWLock
  validLock :: RWLock
  asLock :: RWLock
  rpkiQueue :: "RPKI_QUEUE option"

text \<open>The allocations whose failure the code handles.\<close>

datatype alloc_site = AllocUpdates | AllocOther | AllocValid | AllocAS

definition obj_at :: "(addr \<rightharpoonup> 'a) \<Rightarrow> addr \<Rightarrow> 'a cres" where
  "obj_at m a = (case m a of Some x \<Rightarrow> Inr x | None \<Rightarrow> Inl (if a = 0 then NullDeref else UseAfterFree))"

definition set_update :: "addr \<Rightarrow> PC_Update \<Rightarrow> ('p, 't) PrefixCache \<Rightarrow> ('p, 't) PrefixCache" where
  "set_update a u pc = pc\<lparr>pc_updates := (pc_updates pc)(a \<mapsto> u)\<rparr>"

definition set_roa :: "addr \<Rightarrow> PC_ROA \<Rightarrow> ('p, 't) PrefixCache \<Rightarrow> ('p, 't) PrefixCache" where
  "set_roa a r pc = pc\<lparr>pc_roas := (pc_roas pc)(a \<mapsto> r)\<rparr>"

definition set_prefix :: "addr \<Rightarrow> PC_Prefix \<Rightarrow> ('p, 't) PrefixCache \<Rightarrow> ('p, 't) PrefixCache" where
  "set_prefix n p pc = pc\<lparr>node_data := (node_data pc)(n \<mapsto> p)\<rparr>"

section \<open>Initialisation and helpers\<close>

text \<open>The locks are created one after the other; on a failure the ones created are destroyed again. \<open>tree\<close> is the
  result of \<open>New_Patricia\<close>, the flags tell which of the four locks can be created.\<close>

definition initializePrefixCache ::
  "'p option \<Rightarrow> bool \<Rightarrow> bool \<times> bool \<times> bool \<times> bool \<Rightarrow> ('p, 't) PrefixCache \<Rightarrow> 't UpdateCache option \<Rightarrow>
     bool \<times> ('p, 't) PrefixCache" where
  "initializePrefixCache tree mutex_ok locks_ok self uc =
     (let self = self\<lparr>prefixTree := tree\<rparr>
      in if tree = None then (False, self)
         else let (ok, m) = initMutex mutex_ok (updatesMutex self); self = self\<lparr>updatesMutex := m\<rparr>
         in if \<not> ok then (False, self\<lparr>prefixTree := None\<rparr>)
         else case locks_ok of (tree_ok, as_ok, valid_ok, other_ok) \<Rightarrow>
           (let fail = (\<lambda>self :: ('p, 't) PrefixCache. (False, self\<lparr>prefixTree := None\<rparr>));
                (ok, l) = createRWLock tree_ok (treeLock self); self = self\<lparr>treeLock := l\<rparr>
            in if \<not> ok then fail self
               else let (ok, l) = createRWLock as_ok (asLock self); self = self\<lparr>asLock := l\<rparr>
            in if \<not> ok then fail (self\<lparr>treeLock := releaseRWLock (treeLock self)\<rparr>)
               else let (ok, l) = createRWLock valid_ok (validLock self); self = self\<lparr>validLock := l\<rparr>
            in if \<not> ok then fail (self\<lparr>asLock := releaseRWLock (asLock self), treeLock := releaseRWLock (treeLock self)\<rparr>)
               else let (ok, l) = createRWLock other_ok (otherLock self); self = self\<lparr>otherLock := l\<rparr>
            in if \<not> ok then fail (self\<lparr>validLock := releaseRWLock (validLock self), asLock := releaseRWLock (asLock self),
                                       treeLock := releaseRWLock (treeLock self)\<rparr>)
               else (True, self\<lparr>updateCache := uc, updates := []\<rparr>)))"

definition ipPrefixToPrefix_t :: "IPPrefix \<Rightarrow> prefix_t" where
  "ipPrefixToPrefix_t from =
     (if version (ip from) = 4 then \<lparr>family = AF_INET, bitlen = plength from, add = take 4 (addr (ip from))\<rparr>
      else \<lparr>family = AF_INET6, bitlen = plength from, add = take 16 (addr (ip from))\<rparr>)"

definition notifyUpdateCacheForROAChange ::
  "'t uthash \<Rightarrow> ('p, 't) PrefixCache \<Rightarrow> u32 \<Rightarrow> u8 \<Rightarrow> bool \<Rightarrow> ('p, 't) PrefixCache cres" where
  "notifyUpdateCacheForROAChange T pc uid newROAResult suppressNotification = (case updateCache pc of
      None \<Rightarrow> Inr pc
    | Some uc \<Rightarrow>
        cbind (modifyUpdateResult T uc uid
                 \<lparr>roaResult = newROAResult, bgpsecResult = SRx_RESULT_DONOTUSE, aspaResult = SRx_RESULT_DONOTUSE\<rparr>
                 suppressNotification) (\<lambda>(ok, uc).
          let pc = pc\<lparr>updateCache := Some uc\<rparr>
          in if ok \<and> suppressNotification
             then cbind (rq_queue (rpkiQueue pc) RQ_ROA uid) (\<lambda>q. Inr (pc\<lparr>rpkiQueue := q\<rparr>))
             else Inr pc))"

text \<open>The next node up the parent pointers that holds a \<open>PC_Prefix\<close>, with the nodes above it.\<close>

fun getParent :: "(addr \<rightharpoonup> PC_Prefix) \<Rightarrow> addr list \<Rightarrow> (addr \<times> addr list) option" where
  "getParent d [] = None"
| "getParent d (n # ns) = (if d n \<noteq> None then Some (n, ns) else getParent d ns)"

text \<open>\<open>getChildren\<close>: the nearest nodes below with a \<open>PC_Prefix\<close>, each as the tree rooted at it.\<close>

fun children_from :: "(addr \<rightharpoonup> PC_Prefix) \<Rightarrow> addr tree \<Rightarrow> addr tree list" where
  "children_from d Leaf = []"
| "children_from d (Node l n r) = (if d n \<noteq> None then [Node l n r] else children_from d l @ children_from d r)"

fun getChildren :: "(addr \<rightharpoonup> PC_Prefix) \<Rightarrow> addr tree \<Rightarrow> addr tree list" where
  "getChildren d Leaf = []"
| "getChildren d (Node l n r) = children_from d l @ children_from d r"

fun find_as :: "u32 \<Rightarrow> PC_AS list \<Rightarrow> nat option" where
  "find_as a [] = None"
| "find_as a (x # xs) = (if as_asn x = a then Some 0 else map_option Suc (find_as a xs))"

text \<open>\<open>getASFromPrefix\<close>: the index of the AS, which is appended when it is missing; \<open>None\<close> when that
  fails.\<close>

definition getASFromPrefix :: "bool \<Rightarrow> PC_Prefix \<Rightarrow> u32 \<Rightarrow> nat option \<times> PC_Prefix" where
  "getASFromPrefix append_ok p a = (case find_as a (asn p) of
      Some i \<Rightarrow> (Some i, p)
    | None \<Rightarrow> if append_ok
              then (Some (length (asn p)), p\<lparr>asn := asn p @ [\<lparr>as_asn = a, as_roas = [], as_update_count = 0\<rparr>]\<rparr>)
              else (None, p))"

text \<open>\<open>appendDataToSList\<close> on a list of updates whose size may exceed its nodes.\<close>

definition append_update :: "bool \<Rightarrow> addr \<Rightarrow> ulist \<Rightarrow> (bool \<times> ulist) cres" where
  "append_update append_ok a l =
     (if \<not> append_ok then Inr (False, l)
      else if chain l = [] \<and> 0 < lost l then Inl NullDeref
      else Inr (True, l\<lparr>chain := chain l @ [a]\<rparr>))"

definition delete_update :: "addr \<Rightarrow> ulist \<Rightarrow> ulist" where
  "delete_update a l = l\<lparr>chain := remove1 a (chain l)\<rparr>"

definition new_prefix :: "u8 \<Rightarrow> PC_Prefix" where
  "new_prefix state = \<lparr>roa_coverage = 0, state_of_other = state, valid = \<lparr>chain = [], lost = 0\<rparr>,
     other = \<lparr>chain = [], lost = 0\<rparr>, asn = []\<rparr>"


section \<open>Validation of an update\<close>

definition prefix_at :: "('p, 't) PrefixCache \<Rightarrow> addr \<Rightarrow> PC_Prefix cres" where
  "prefix_at pc n = (case node_data pc n of Some p \<Rightarrow> Inr p | None \<Rightarrow> Inl NullDeref)"

definition bitlen_at :: "'p patricia \<Rightarrow> ('p, 't) PrefixCache \<Rightarrow> addr \<Rightarrow> nat" where
  "bitlen_at P pc n = (case prefixTree pc of Some t \<Rightarrow> node_bitlen P t n | None \<Rightarrow> 0)"

definition parents_of :: "'p patricia \<Rightarrow> ('p, 't) PrefixCache \<Rightarrow> addr \<Rightarrow> addr list" where
  "parents_of P pc n = (case prefixTree pc of Some t \<Rightarrow> node_parents P t n | None \<Rightarrow> [])"

definition tree_of :: "'p patricia \<Rightarrow> ('p, 't) PrefixCache \<Rightarrow> addr \<Rightarrow> addr tree" where
  "tree_of P pc n = (case prefixTree pc of Some t \<Rightarrow> node_tree P t n | None \<Rightarrow> Leaf)"

text \<open>The ROAs attached to a prefix, each with the AS it is listed under.\<close>

definition prefix_roas :: "PC_Prefix \<Rightarrow> (u32 \<times> addr) list" where
  "prefix_roas p = concat (map (\<lambda>x. map (Pair (as_asn x)) (as_roas x)) (asn p))"

definition cover_roa ::
  "'p patricia \<Rightarrow> addr \<Rightarrow> addr \<Rightarrow> u32 \<Rightarrow> bool \<Rightarrow> u32 \<times> addr \<Rightarrow> ('p, 't) PrefixCache \<Rightarrow> ('p, 't) PrefixCache cres" where
  "cover_roa P po u a isNew x pc = (case x of (x_as, r) \<Rightarrow>
     cbind (obj_at (pc_roas pc) r) (\<lambda>roa.
       if bitlen_at P pc po \<le> unat (max_len roa)
       then cbind (prefix_at pc po) (\<lambda>p. cbind (obj_at (pc_updates pc) u) (\<lambda>upd.
              let pc = (if isNew then set_prefix po (p\<lparr>roa_coverage := roa_coverage p + 1\<rparr>) pc else pc)
              in Inr (if x_as = a
                      then set_update u (upd\<lparr>roa_match := roa_match upd + roa_count roa\<rparr>)
                             (set_roa r (roa\<lparr>roa_update_count := roa_update_count roa + 1\<rparr>) pc)
                      else pc)))
       else Inr pc))"

definition performUpdateValidation_PrefixIsCovereByAROA ::
  "'p patricia \<Rightarrow> addr \<Rightarrow> addr \<Rightarrow> addr \<Rightarrow> u32 \<Rightarrow> bool \<Rightarrow> ('p, 't) PrefixCache \<Rightarrow> ('p, 't) PrefixCache cres" where
  "performUpdateValidation_PrefixIsCovereByAROA P po n u a isNew pc =
     cbind (prefix_at pc n) (\<lambda>p. cfold (cover_roa P po u a isNew) (prefix_roas p) pc)"

text \<open>The \<open>while\<close> loop of \<open>performUpdateValidationKnownPrefix\<close>: it climbs from node \<open>n\<close> with the nodes
  \<open>ns\<close> above it.\<close>

lemma getParent_shorter: "getParent d ns = Some (m, ms) \<Longrightarrow> length ms < length ns"
  by (induction ns) (auto split: if_splits)

function cover_walk ::
  "'p patricia \<Rightarrow> addr \<Rightarrow> addr \<Rightarrow> u32 \<Rightarrow> bool \<Rightarrow> addr \<Rightarrow> addr list \<Rightarrow> ('p, 't) PrefixCache \<Rightarrow> ('p, 't) PrefixCache cres" where
  "cover_walk P po u a isNew n ns pc =
     cbind (prefix_at pc n) (\<lambda>p.
       if (isNew \<and> state_of_other p = SRx_RESULT_INVALID) \<or> (\<not> isNew \<and> 0 < roa_coverage p)
       then cbind (performUpdateValidation_PrefixIsCovereByAROA P po n u a isNew pc) (\<lambda>pc.
              case getParent (node_data pc) ns of
                None \<Rightarrow> Inr pc
              | Some (m, ms) \<Rightarrow> cover_walk P po u a isNew m ms pc)
       else Inr pc)"
  by pat_completeness auto
termination
  by (relation "measure (\<lambda>(P, po, u, a, isNew, n, ns, pc). length ns)") (auto dest: getParent_shorter)

declare cover_walk.simps [simp del]

definition performUpdateValidation_PrefixNotCovered ::
  "'t uthash \<Rightarrow> (alloc_site \<Rightarrow> bool) \<Rightarrow> ('p, 't) PrefixCache \<Rightarrow> addr \<Rightarrow> addr \<Rightarrow> (bool \<times> ('p, 't) PrefixCache) cres" where
  "performUpdateValidation_PrefixNotCovered T ok pc n u =
     cbind (prefix_at pc n) (\<lambda>p. cbind (obj_at (pc_updates pc) u) (\<lambda>upd.
       if roa_match upd = 0
       then cbind (append_update (ok AllocOther) u (other p)) (\<lambda>(added, l).
              if added
              then cbind (notifyUpdateCacheForROAChange T (set_prefix n (p\<lparr>other := l\<rparr>) pc) (pu_updateID upd) (state_of_other p) False)
                     (\<lambda>pc. Inr (True, pc))
              else Inr (False, pc))
       else cbind (append_update (ok AllocValid) u (valid p)) (\<lambda>(added, l).
              if added
              then cbind (notifyUpdateCacheForROAChange T (set_prefix n (p\<lparr>valid := l\<rparr>) pc) (pu_updateID upd) SRx_RESULT_VALID False)
                     (\<lambda>pc. Inr (True, pc))
              else Inr (False, pc))))"

definition count_as_update :: "nat \<Rightarrow> PC_Prefix \<Rightarrow> PC_Prefix" where
  "count_as_update i p = p\<lparr>asn := (asn p)[i := (asn p ! i)\<lparr>as_update_count := as_update_count (asn p ! i) + 1\<rparr>]\<rparr>"

definition performUpdateValidationKnownPrefix ::
  "'t uthash \<Rightarrow> 'p patricia \<Rightarrow> (alloc_site \<Rightarrow> bool) \<Rightarrow> ('p, 't) PrefixCache \<Rightarrow> addr \<Rightarrow> addr \<Rightarrow> u32 \<Rightarrow> bool \<Rightarrow>
     (bool \<times> ('p, 't) PrefixCache) cres" where
  "performUpdateValidationKnownPrefix T P ok pc n u a isNew =
     cbind (prefix_at pc n) (\<lambda>p. case getASFromPrefix (ok AllocAS) p a of
         (None, p) \<Rightarrow> Inl NullDeref
       | (Some i, p) \<Rightarrow>
           let pc = set_prefix n (count_as_update i p) pc
           in cbind (cover_walk P n u a isNew n (parents_of P pc n) pc) (\<lambda>pc.
                performUpdateValidation_PrefixNotCovered T ok pc n u))"

definition inherited_state :: "'p patricia \<Rightarrow> ('p, 't) PrefixCache \<Rightarrow> addr \<Rightarrow> u8" where
  "inherited_state P pc n = (case getParent (node_data pc) (parents_of P pc n) of
      None \<Rightarrow> SRx_RESULT_NOTFOUND
    | Some (m, _) \<Rightarrow> (case node_data pc m of Some p \<Rightarrow> state_of_other p | None \<Rightarrow> SRx_RESULT_NOTFOUND))"

definition performUpdateValidationNewPrefix ::
  "'t uthash \<Rightarrow> 'p patricia \<Rightarrow> (alloc_site \<Rightarrow> bool) \<Rightarrow> ('p, 't) PrefixCache \<Rightarrow> addr \<Rightarrow> addr \<Rightarrow> u32 \<Rightarrow>
     (bool \<times> ('p, 't) PrefixCache) cres" where
  "performUpdateValidationNewPrefix T P ok pc n u a =
     (if node_data pc n \<noteq> None then Inr (False, pc)
      else performUpdateValidationKnownPrefix T P ok (set_prefix n (new_prefix (inherited_state P pc n)) pc) n u a True)"

definition drop_update :: "addr \<Rightarrow> ('p, 't) PrefixCache \<Rightarrow> ('p, 't) PrefixCache" where
  "drop_update u pc = pc\<lparr>updates := remove1 u (updates pc), pc_updates := (pc_updates pc)(u := None)\<rparr>"

text \<open>The part of \<open>requestUpdateValidation\<close> after the lookup of the node.\<close>

definition validate_at_node ::
  "'t uthash \<Rightarrow> 'p patricia \<Rightarrow> (alloc_site \<Rightarrow> bool) \<Rightarrow> addr \<Rightarrow> ('p, 't) PrefixCache \<Rightarrow> addr \<Rightarrow> bool \<Rightarrow> u32 \<Rightarrow> u32 \<Rightarrow>
     (bool \<times> ('p, 't) PrefixCache) cres" where
  "validate_at_node T P ok u pc n referenced uid a =
     (if referenced then performUpdateValidationNewPrefix T P ok pc n u a
      else cbind (prefix_at pc n) (\<lambda>p.
        if 0 < roa_coverage p then performUpdateValidationKnownPrefix T P ok pc n u a False
        else cbind (append_update (ok AllocOther) u (other p)) (\<lambda>(added, l).
          if \<not> added then Inr (False, drop_update u pc)
          else case getASFromPrefix (ok AllocAS) (p\<lparr>other := l\<rparr>) a of
              (None, p) \<Rightarrow> Inr (False, drop_update u (set_prefix n (p\<lparr>other := delete_update u (other p)\<rparr>) pc))
            | (Some i, p) \<Rightarrow>
                cbind (notifyUpdateCacheForROAChange T (set_prefix n (count_as_update i p) pc) uid (state_of_other p) False)
                  (\<lambda>pc. Inr (True, pc)))))"

definition requestUpdateValidation ::
  "'t uthash \<Rightarrow> 'p patricia \<Rightarrow> (alloc_site \<Rightarrow> bool) \<Rightarrow> addr \<Rightarrow> ('p, 't) PrefixCache \<Rightarrow> u32 \<Rightarrow> IPPrefix \<Rightarrow> u32 \<Rightarrow>
     (bool \<times> ('p, 't) PrefixCache) cres" where
  "requestUpdateValidation T P ok u pc uid pfx a =
     (if \<not> ok AllocUpdates then Inr (False, pc)
      else let pc = set_update u \<lparr>pu_updateID = uid, pu_as = a, pu_treeNode = 0, roa_match = 0\<rparr> (pc\<lparr>updates := updates pc @ [u]\<rparr>)
      in case prefixTree pc of
           None \<Rightarrow> Inl NullDeref
         | Some t \<Rightarrow> (case patricia_lookup P t (ipPrefixToPrefix_t pfx) of
             (None, t) \<Rightarrow> Inr (False, drop_update u (pc\<lparr>prefixTree := Some t\<rparr>))
           | (Some (n, referenced), t) \<Rightarrow>
               validate_at_node T P ok u
                 (set_update u \<lparr>pu_updateID = uid, pu_as = a, pu_treeNode = n, roa_match = 0\<rparr> (pc\<lparr>prefixTree := Some t\<rparr>))
                 n referenced uid a))"

text \<open>\<open>removeUpdate\<close> is not implemented and reports success.\<close>

definition removeUpdate :: "('p, 't) PrefixCache \<Rightarrow> u32 \<Rightarrow> IPPrefix \<Rightarrow> u32 \<Rightarrow> bool \<times> ('p, 't) PrefixCache" where
  "removeUpdate pc uid pfx a = (True, pc)"


section \<open>Adding a ROA white list entry\<close>

definition belongsToRfc5398 :: "u32 \<Rightarrow> bool" where
  "belongsToRfc5398 a \<longleftrightarrow> 64496 \<le> a \<and> a \<le> 64511 \<or> 65536 \<le> a \<and> a \<le> 65551"

text \<open>\<open>addROAwl_CheckCoverage\<close>: the walk up from node \<open>m\<close> with the nodes \<open>ms\<close> above it; the
  prefix length is the one of the white list entry.\<close>

definition coverage_of_roas :: "u8 \<Rightarrow> addr \<Rightarrow> u32 \<times> addr \<Rightarrow> ('p, 't) PrefixCache \<Rightarrow> ('p, 't) PrefixCache cres" where
  "coverage_of_roas prefixLen n x pc =
     cbind (obj_at (pc_roas pc) (snd x)) (\<lambda>roa. cbind (prefix_at pc n) (\<lambda>p.
       Inr (if prefixLen \<le> max_len roa then set_prefix n (p\<lparr>roa_coverage := roa_coverage p + ucast (roa_count roa)\<rparr>) pc else pc)))"

function addROAwl_CheckCoverage ::
  "u8 \<Rightarrow> addr \<Rightarrow> (addr \<times> addr list) option \<Rightarrow> ('p, 't) PrefixCache \<Rightarrow> ('p, 't) PrefixCache cres" where
  "addROAwl_CheckCoverage prefixLen n parent pc = (case parent of
      None \<Rightarrow> Inr pc
    | Some (m, ms) \<Rightarrow> cbind (prefix_at pc m) (\<lambda>p.
        if 0 < roa_coverage p
        then cbind (cfold (coverage_of_roas prefixLen n) (prefix_roas p) pc) (\<lambda>pc.
               addROAwl_CheckCoverage prefixLen n (getParent (node_data pc) ms) pc)
        else Inr pc))"
  by pat_completeness auto
termination
proof (relation "measure (\<lambda>(prefixLen, n, parent, pc). case parent of None \<Rightarrow> 0 | Some (m, ms) \<Rightarrow> Suc (length ms))", goal_cases)
  case (2 prefixLen n parent pc x m ms p pc')
  then show ?case by (auto split: option.splits dest: getParent_shorter)
qed simp

declare addROAwl_CheckCoverage.simps [simp del]

definition count_valid :: "addr \<Rightarrow> addr \<Rightarrow> ('p, 't) PrefixCache \<Rightarrow> ('p, 't) PrefixCache cres" where
  "count_valid r u pc = cbind (obj_at (pc_updates pc) u) (\<lambda>upd. cbind (obj_at (pc_roas pc) r) (\<lambda>roa.
     Inr (if pu_as upd = roa_as roa
          then set_roa r (roa\<lparr>roa_update_count := roa_update_count roa + 1\<rparr>)
                 (set_update u (upd\<lparr>roa_match := roa_match upd + 1\<rparr>) pc)
          else pc)))"

text \<open>The loop that takes the matching updates out of a list.\<close>

fun move_matched ::
  "'t uthash \<Rightarrow> bool \<Rightarrow> addr \<Rightarrow> addr list \<Rightarrow> addr list \<Rightarrow> addr list \<Rightarrow> ('p, 't) PrefixCache \<Rightarrow>
     (addr list \<times> addr list \<times> ('p, 't) PrefixCache) cres" where
  "move_matched T suppress r [] kept moved pc = Inr (kept, moved, pc)"
| "move_matched T suppress r (u # us) kept moved pc =
     cbind (obj_at (pc_updates pc) u) (\<lambda>upd. cbind (obj_at (pc_roas pc) r) (\<lambda>roa.
       if pu_as upd = roa_as roa
       then cbind (notifyUpdateCacheForROAChange T
                    (set_roa r (roa\<lparr>roa_update_count := roa_update_count roa + 1\<rparr>) (set_update u (upd\<lparr>roa_match := roa_match upd + 1\<rparr>) pc))
                    (pu_updateID upd) SRx_RESULT_VALID suppress)
              (move_matched T suppress r us kept (moved @ [u]))
       else move_matched T suppress r us (kept @ [u]) moved pc))"

definition addROAwl_moveMatchedUpdatesToValid ::
  "'t uthash \<Rightarrow> bool \<Rightarrow> addr \<Rightarrow> addr \<Rightarrow> ('p, 't) PrefixCache \<Rightarrow> ('p, 't) PrefixCache cres" where
  "addROAwl_moveMatchedUpdatesToValid T suppress r n pc =
     cbind (prefix_at pc n) (\<lambda>p.
     cbind (move_matched T suppress r (chain (other p)) [] [] pc) (\<lambda>(kept, moved, pc).
       Inr (set_prefix n (p\<lparr>valid := (valid p)\<lparr>chain := chain (valid p) @ moved\<rparr>, other := (other p)\<lparr>chain := kept\<rparr>\<rparr>) pc)))"

definition notify_other :: "'t uthash \<Rightarrow> u8 \<Rightarrow> bool \<Rightarrow> addr \<Rightarrow> ('p, 't) PrefixCache \<Rightarrow> ('p, 't) PrefixCache cres" where
  "notify_other T newState suppress u pc =
     cbind (obj_at (pc_updates pc) u) (\<lambda>upd. notifyUpdateCacheForROAChange T pc (pu_updateID upd) newState suppress)"

definition ROAwl_changeStateOfOther ::
  "'t uthash \<Rightarrow> addr \<Rightarrow> u8 \<Rightarrow> bool \<Rightarrow> ('p, 't) PrefixCache \<Rightarrow> ('p, 't) PrefixCache cres" where
  "ROAwl_changeStateOfOther T n newState suppress pc =
     cbind (prefix_at pc n) (\<lambda>p.
       cfold (notify_other T newState suppress) (chain (other p)) (set_prefix n (p\<lparr>state_of_other := newState\<rparr>) pc))"

text \<open>One prefix of \<open>addROAwl_verifyUpdates\<close>; the result tells whether its children are checked.\<close>

definition verify_prefix ::
  "'t uthash \<Rightarrow> 'p patricia \<Rightarrow> bool \<Rightarrow> addr \<Rightarrow> addr \<Rightarrow> ('p, 't) PrefixCache \<Rightarrow> (bool \<times> ('p, 't) PrefixCache) cres" where
  "verify_prefix T P suppress r n pc =
     cbind (prefix_at pc n) (\<lambda>p. cbind (obj_at (pc_roas pc) r) (\<lambda>roa.
       if bitlen_at P pc n \<le> unat (max_len roa)
       then let pc = set_prefix n (p\<lparr>roa_coverage := roa_coverage p + 1\<rparr>) pc
            in cbind (cfold (count_valid r) (chain (valid p)) pc) (\<lambda>pc.
               cbind (addROAwl_moveMatchedUpdatesToValid T suppress r n pc) (\<lambda>pc.
               cbind (if state_of_other p = SRx_RESULT_NOTFOUND then ROAwl_changeStateOfOther T n SRx_RESULT_INVALID suppress pc else Inr pc)
                 (\<lambda>pc. Inr (True, pc))))
       else if state_of_other p = SRx_RESULT_NOTFOUND
       then cbind (ROAwl_changeStateOfOther T n SRx_RESULT_INVALID suppress pc) (\<lambda>pc. Inr (True, pc))
       else Inr (False, pc)))"

lemma children_from_smaller: "c \<in> set (children_from d t) \<Longrightarrow> size c \<le> size t"
  by (induction t) (auto split: if_splits)

lemma getChildren_smaller: "c \<in> set (getChildren d t) \<Longrightarrow> size c < size t"
  by (cases t) (auto dest: children_from_smaller)

function addROAwl_verifyUpdates ::
  "'t uthash \<Rightarrow> 'p patricia \<Rightarrow> bool \<Rightarrow> addr \<Rightarrow> addr tree \<Rightarrow> ('p, 't) PrefixCache \<Rightarrow> ('p, 't) PrefixCache cres" where
  "addROAwl_verifyUpdates T P suppress r Leaf pc = Inr pc"
| "addROAwl_verifyUpdates T P suppress r (Node lt n rt) pc =
     cbind (verify_prefix T P suppress r n pc) (\<lambda>(checkChildren, pc).
       if checkChildren
       then cfold (\<lambda>c pc. addROAwl_verifyUpdates T P suppress r c pc) (getChildren (node_data pc) (Node lt n rt)) pc
       else Inr pc)"
  by pat_completeness auto
termination
proof (relation "measure (\<lambda>(T, P, suppress, r, t, pc). size t)", goal_cases)
  case (2 T P suppress r lt n rt pc x check pc' c pc'')
  then have "size c < size (Node lt n rt)" by (intro getChildren_smaller)
  then show ?case by simp
qed simp

fun find_roa :: "(addr \<rightharpoonup> PC_ROA) \<Rightarrow> u32 \<Rightarrow> u8 \<Rightarrow> addr list \<Rightarrow> addr option cres" where
  "find_roa m vc ml [] = Inr None"
| "find_roa m vc ml (r # rs) = cbind (obj_at m r) (\<lambda>roa.
     if valCacheID roa = vc \<and> max_len roa = ml then Inr (Some r) else find_roa m vc ml rs)"

definition roa_prefix :: "'p patricia \<Rightarrow> u8 \<Rightarrow> addr \<Rightarrow> ('p, 't) PrefixCache \<Rightarrow> ('p, 't) PrefixCache cres" where
  "roa_prefix P len n pc = (if node_data pc n \<noteq> None then Inr pc
     else let pc' = set_prefix n (new_prefix (inherited_state P pc n)) pc
          in if inherited_state P pc n \<noteq> SRx_RESULT_NOTFOUND
             then addROAwl_CheckCoverage len n (getParent (node_data pc) (parents_of P pc n)) pc' else Inr pc')"

definition addROAwl ::
  "'t uthash \<Rightarrow> 'p patricia \<Rightarrow> addr \<Rightarrow> ('p, 't) PrefixCache \<Rightarrow> u32 \<Rightarrow> IPPrefix \<Rightarrow> u8 \<Rightarrow> u32 \<Rightarrow> u32 \<Rightarrow> bool \<Rightarrow>
     (bool \<times> ('p, 't) PrefixCache) cres" where
  "addROAwl T P newROA pc originAS pfx maxLen session_id vc suppress =
     (if belongsToRfc5398 originAS then Inr (False, pc)
      else case prefixTree pc of
           None \<Rightarrow> Inl NullDeref
         | Some t \<Rightarrow> (case patricia_lookup P t (ipPrefixToPrefix_t pfx) of
             (None, t) \<Rightarrow> Inr (False, pc\<lparr>prefixTree := Some t\<rparr>)
           | (Some (n, _), t) \<Rightarrow>
               cbind (roa_prefix P (plength pfx) n (pc\<lparr>prefixTree := Some t\<rparr>)) (\<lambda>pc. cbind (prefix_at pc n) (\<lambda>p.
               case getASFromPrefix True p originAS of
                 (None, p) \<Rightarrow> Inl NullDeref
               | (Some i, p) \<Rightarrow> cbind (find_roa (pc_roas pc) vc maxLen (as_roas (asn p ! i))) (\<lambda>found.
                   cbind (case found of
                       None \<Rightarrow> Inr (newROA, set_roa newROA \<lparr>roa_as = originAS, max_len = maxLen, roa_count = 1, deferred_count = 0,
                           valCacheID = vc, roa_update_count = 0\<rparr>
                         (set_prefix n (p\<lparr>asn := (asn p)[i := (asn p ! i)\<lparr>as_roas := as_roas (asn p ! i) @ [newROA]\<rparr>]\<rparr>) pc))
                     | Some r \<Rightarrow> cbind (obj_at (pc_roas pc) r) (\<lambda>roa.
                         Inr (r, set_roa r (roa\<lparr>roa_count := roa_count roa + 1\<rparr>) (set_prefix n p pc)))) (\<lambda>(r, pc).
                   cbind (addROAwl_verifyUpdates T P suppress r (tree_of P pc n) pc) (\<lambda>pc. Inr (True, pc))))))))"


section \<open>Removing a ROA white list entry\<close>

text \<open>The loop of \<open>delROAwl_moveToOther\<close> over the valid updates. \<open>prevNode\<close> advances only past updates of another
  AS: \<open>kept\<close> are the nodes up to it, \<open>pending\<close> the nodes after it that stay for now. Moving a node links
  \<open>prevNode\<close> to the node's successor, which cuts the pending ones off; they are counted in \<open>gone\<close>. The result has
  the remaining chain, the moved updates and the number of nodes cut off.\<close>

fun other_loop ::
  "'t uthash \<Rightarrow> bool \<Rightarrow> addr \<Rightarrow> u8 \<Rightarrow> addr list \<Rightarrow> addr list \<Rightarrow> addr list \<Rightarrow> addr list \<Rightarrow> nat \<Rightarrow> ('p, 't) PrefixCache \<Rightarrow>
     (addr list \<times> addr list \<times> nat \<times> ('p, 't) PrefixCache) cres" where
  "other_loop T suppress r state [] kept pending moved gone pc = Inr (kept @ pending, moved, gone, pc)"
| "other_loop T suppress r state (u # us) kept pending moved gone pc =
     cbind (obj_at (pc_roas pc) r) (\<lambda>roa.
       if roa_update_count roa = 0 then Inr (kept @ pending @ u # us, moved, gone, pc)
       else cbind (obj_at (pc_updates pc) u) (\<lambda>upd.
         if pu_as upd = roa_as roa
         then let upd' = upd\<lparr>roa_match := roa_match upd - 1\<rparr>;
                  roa' = (if roa_count roa = 1 then roa\<lparr>roa_update_count := roa_update_count roa - 1\<rparr> else roa);
                  pc = set_roa r roa' (set_update u upd' pc)
              in if roa_match upd' = 0
                 then cbind (notifyUpdateCacheForROAChange T pc (pu_updateID upd) state suppress)
                        (other_loop T suppress r state us kept [] (moved @ [u]) (gone + length pending))
                 else other_loop T suppress r state us kept (pending @ [u]) moved gone pc
         else other_loop T suppress r state us (kept @ pending @ [u]) [] moved gone pc))"

definition delROAwl_moveToOther ::
  "'t uthash \<Rightarrow> bool \<Rightarrow> addr \<Rightarrow> addr \<Rightarrow> ('p, 't) PrefixCache \<Rightarrow> ('p, 't) PrefixCache cres" where
  "delROAwl_moveToOther T suppress r n pc =
     cbind (prefix_at pc n) (\<lambda>p.
     cbind (other_loop T suppress r (state_of_other p) (chain (valid p)) [] [] [] 0 pc) (\<lambda>(left, moved, gone, pc).
       Inr (set_prefix n (p\<lparr>valid := \<lparr>chain = left, lost = lost (valid p) + gone\<rparr>,
                           other := (other p)\<lparr>chain := chain (other p) @ moved\<rparr>\<rparr>) pc)))"

definition revalidate_prefix ::
  "'t uthash \<Rightarrow> 'p patricia \<Rightarrow> bool \<Rightarrow> addr \<Rightarrow> u8 \<Rightarrow> addr \<Rightarrow> ('p, 't) PrefixCache \<Rightarrow> (bool \<times> ('p, 't) PrefixCache) cres" where
  "revalidate_prefix T P suppress r parentState n pc =
     cbind (prefix_at pc n) (\<lambda>p. cbind (obj_at (pc_roas pc) r) (\<lambda>roa.
       if bitlen_at P pc n \<le> unat (max_len roa)
       then let p = p\<lparr>roa_coverage := roa_coverage p - 1\<rparr>; pc = set_prefix n p pc
            in cbind (if parentState = SRx_RESULT_NOTFOUND \<and> roa_coverage p = 0
                      then ROAwl_changeStateOfOther T n SRx_RESULT_NOTFOUND suppress pc else Inr pc) (\<lambda>pc.
               cbind (delROAwl_moveToOther T suppress r n pc) (\<lambda>pc. Inr (True, pc)))
       else if roa_coverage p = 0 \<and> parentState = SRx_RESULT_NOTFOUND
       then cbind (ROAwl_changeStateOfOther T n SRx_RESULT_NOTFOUND suppress pc) (\<lambda>pc. Inr (True, pc))
       else Inr (False, pc)))"

function delROAwl_validateUpdates ::
  "'t uthash \<Rightarrow> 'p patricia \<Rightarrow> bool \<Rightarrow> addr \<Rightarrow> u8 \<Rightarrow> addr tree \<Rightarrow> ('p, 't) PrefixCache \<Rightarrow> ('p, 't) PrefixCache cres" where
  "delROAwl_validateUpdates T P suppress r parentState Leaf pc = Inr pc"
| "delROAwl_validateUpdates T P suppress r parentState (Node lt n rt) pc =
     cbind (revalidate_prefix T P suppress r parentState n pc) (\<lambda>(checkForChildren, pc).
       if checkForChildren
       then cfold (\<lambda>c pc. cbind (prefix_at pc n) (\<lambda>p. delROAwl_validateUpdates T P suppress r (state_of_other p) c pc))
              (getChildren (node_data pc) (Node lt n rt)) pc
       else Inr pc)"
  by pat_completeness auto
termination
proof (relation "measure (\<lambda>(T, P, suppress, r, st, t, pc). size t)", goal_cases)
  case (2 T P suppress r st lt n rt pc x check pc' c pc'' p)
  then have "size c < size (Node lt n rt)" by (intro getChildren_smaller)
  then show ?case by simp
qed simp

text \<open>After the updates are checked again the counter of the entry goes down; at zero the entry, an AS without entry and
  update, and a prefix without AS are freed. The node stays in the tree.\<close>

definition release_roa :: "addr \<Rightarrow> nat \<Rightarrow> addr \<Rightarrow> ('p, 't) PrefixCache \<Rightarrow> ('p, 't) PrefixCache cres" where
  "release_roa n i r pc =
     cbind (obj_at (pc_roas pc) r) (\<lambda>roa.
       let roa = roa\<lparr>roa_count := roa_count roa - 1\<rparr>
       in if roa_count roa \<noteq> 0 then Inr (set_roa r roa pc)
          else cbind (prefix_at pc n) (\<lambda>p.
            let x = (asn p ! i)\<lparr>as_roas := remove1 r (as_roas (asn p ! i))\<rparr>;
                pc = pc\<lparr>pc_roas := (pc_roas pc)(r := None)\<rparr>
            in if as_roas x \<noteq> [] \<or> as_update_count x \<noteq> 0 then Inr (set_prefix n (p\<lparr>asn := (asn p)[i := x]\<rparr>) pc)
               else let xs = take i (asn p) @ drop (Suc i) (asn p)
                    in Inr (if xs = [] then pc\<lparr>node_data := (node_data pc)(n := None)\<rparr>
                            else set_prefix n (p\<lparr>asn := xs\<rparr>) pc)))"

definition delROAwl ::
  "'t uthash \<Rightarrow> 'p patricia \<Rightarrow> ('p, 't) PrefixCache \<Rightarrow> u32 \<Rightarrow> IPPrefix \<Rightarrow> u8 \<Rightarrow> u32 \<Rightarrow> u32 \<Rightarrow> bool \<Rightarrow>
     (bool \<times> ('p, 't) PrefixCache) cres" where
  "delROAwl T P pc originAS pfx maxLen session_id vc suppress = (case prefixTree pc of
      None \<Rightarrow> Inl NullDeref
    | Some t \<Rightarrow> (case patricia_lookup P t (ipPrefixToPrefix_t pfx) of
        (None, t) \<Rightarrow> Inr (False, pc\<lparr>prefixTree := Some t\<rparr>)
      | (Some (n, _), t) \<Rightarrow>
          let pc = pc\<lparr>prefixTree := Some t\<rparr>
          in (case node_data pc n of
               None \<Rightarrow> Inr (False, pc)
             | Some p \<Rightarrow> (case find_as originAS (asn p) of
                 None \<Rightarrow> Inr (False, pc)
               | Some i \<Rightarrow> cbind (find_roa (pc_roas pc) vc maxLen (as_roas (asn p ! i))) (\<lambda>found.
                   (case found of
                     None \<Rightarrow> Inr (False, pc)
                   | Some r \<Rightarrow>
                       cbind (delROAwl_validateUpdates T P suppress r (inherited_state P pc n) (tree_of P pc n) pc) (\<lambda>pc.
                       cbind (release_roa n i r pc) (\<lambda>pc. Inr (True, pc)))))))))"

definition cleanAllROAwl :: "('p, 't) PrefixCache \<Rightarrow> u32 \<Rightarrow> u32 \<Rightarrow> bool \<Rightarrow> int \<times> ('p, 't) PrefixCache" where
  "cleanAllROAwl pc session_id vc deferredOnly = (1, pc)"

definition flagAllROAwl :: "('p, 't) PrefixCache \<Rightarrow> u32 \<Rightarrow> u32 \<Rightarrow> int \<times> ('p, 't) PrefixCache" where
  "flagAllROAwl pc sessionID vc = (1, pc)"

end
