(* ===== verification/Origin_Validation.thy ===== *)
theory Origin_Validation
  imports Prefix_Cache
begin

text \<open>
  Prefix origin validation as RFC 6811 defines it, and that the request path of the prefix cache computes it. The ROAs
  that cover a prefix are the ones attached to its node and to the nodes reached by the parent pointers. An update is
  valid when one of them has the update's AS and a maximum length that admits the prefix, invalid when there are some but
  none of this kind, and not found when there are none.
\<close>

section \<open>The ROAs on a path of nodes\<close>

definition roas_on :: "(addr \<rightharpoonup> PC_Prefix) \<Rightarrow> addr list \<Rightarrow> (u32 \<times> addr) list" where
  "roas_on d ns = concat (map (\<lambda>n. case d n of None \<Rightarrow> [] | Some p \<Rightarrow> prefix_roas p) ns)"

definition admits :: "(addr \<rightharpoonup> PC_ROA) \<Rightarrow> nat \<Rightarrow> addr \<Rightarrow> bool" where
  "admits roas len r \<longleftrightarrow> (case roas r of None \<Rightarrow> False | Some roa \<Rightarrow> len \<le> unat (max_len roa))"

definition origin_state :: "(addr \<rightharpoonup> PC_ROA) \<Rightarrow> nat \<Rightarrow> u32 \<Rightarrow> (u32 \<times> addr) list \<Rightarrow> u8" where
  "origin_state roas len a xs =
     (if \<exists>(x, r) \<in> set xs. x = a \<and> admits roas len r then SRx_RESULT_VALID
      else if xs = [] then SRx_RESULT_NOTFOUND else SRx_RESULT_INVALID)"

lemma roas_on_simps [simp]:
  "roas_on d [] = []" "roas_on d (n # ns) = (case d n of None \<Rightarrow> [] | Some p \<Rightarrow> prefix_roas p) @ roas_on d ns"
  by (simp_all add: roas_on_def)

lemma getParent_None: "getParent d ns = None \<Longrightarrow> roas_on d ns = []"
  by (induction ns) (auto split: if_splits)

lemma getParent_Some:
  "getParent d ns = Some (m, ms) \<Longrightarrow>
     roas_on d ns = roas_on d (m # ms) \<and> d m \<noteq> None \<and> (\<exists>us. ns = us @ m # ms)"
proof (induction ns)
  case (Cons n ns)
  then show ?case by (cases "d n") (auto split: if_splits intro: exI [of _ "n # us" for us] exI [of _ "[]"])
qed simp

section \<open>Counting the matching ROAs\<close>

text \<open>The count of one ROA and the sum over a list, in the 16 bit arithmetic of \<open>roa_match\<close>.\<close>

definition match_count :: "(addr \<rightharpoonup> PC_ROA) \<Rightarrow> nat \<Rightarrow> u32 \<Rightarrow> u32 \<times> addr \<Rightarrow> u16" where
  "match_count roas len a x = (case roas (snd x) of
      Some roa \<Rightarrow> if fst x = a \<and> len \<le> unat (max_len roa) then roa_count roa else 0 | None \<Rightarrow> 0)"

definition match_sum :: "(addr \<rightharpoonup> PC_ROA) \<Rightarrow> nat \<Rightarrow> u32 \<Rightarrow> (u32 \<times> addr) list \<Rightarrow> u16" where
  "match_sum roas len a xs = sum_list (map (match_count roas len a) xs)"

lemma match_sum_simps [simp]:
  "match_sum roas len a [] = 0" "match_sum roas len a (x # xs) = match_count roas len a x + match_sum roas len a xs"
  "match_sum roas len a (xs @ ys) = match_sum roas len a xs + match_sum roas len a ys"
  by (simp_all add: match_sum_def)

lemma match_sum_0: "\<forall>x \<in> set xs. \<not> (fst x = a \<and> admits roas len (snd x)) \<Longrightarrow> match_sum roas len a xs = 0"
  by (induction xs) (auto simp: match_count_def admits_def split: option.splits)

text \<open>Without a wrap-around the sum is zero only if nothing matches.\<close>

lemma unat_sum_list: "sum_list (map unat xs) < 2 ^ 16 \<Longrightarrow> unat (sum_list xs :: u16) = sum_list (map unat xs)"
proof (induction xs)
  case (Cons x xs)
  then show ?case by (simp add: unat_word_ariths)
qed simp

lemma match_sum_eq_0:
  assumes "sum_list (map (\<lambda>x. unat (match_count roas len a x)) xs) < 2 ^ 16"
    and "\<forall>x \<in> set xs. \<exists>roa. roas (snd x) = Some roa \<and> roa_count roa \<noteq> 0"
  shows "match_sum roas len a xs = 0 \<longleftrightarrow> \<not> (\<exists>(x, r) \<in> set xs. x = a \<and> admits roas len r)"
proof -
  have "unat (match_sum roas len a xs) = sum_list (map (\<lambda>x. unat (match_count roas len a x)) xs)"
    using unat_sum_list [of "map (match_count roas len a) xs"] assms(1) by (simp add: match_sum_def o_def)
  then have "match_sum roas len a xs = 0 \<longleftrightarrow> (\<forall>x \<in> set xs. match_count roas len a x = 0)"
    by (auto simp flip: unat_eq_0)
  also have "\<dots> \<longleftrightarrow> \<not> (\<exists>(x, r) \<in> set xs. x = a \<and> admits roas len r)"
    using assms(2) by (fastforce simp: match_count_def admits_def split: if_splits)
  finally show ?thesis .
qed

text \<open>Only counters of the ROAs and the coverage of prefixes change while an update is matched.\<close>

definition roa_core :: "PC_ROA \<Rightarrow> PC_ROA" where
  "roa_core r = r\<lparr>roa_update_count := 0\<rparr>"

definition prefix_core :: "PC_Prefix \<Rightarrow> PC_Prefix" where
  "prefix_core p = p\<lparr>roa_coverage := 0\<rparr>"

definition similar :: "addr \<Rightarrow> addr \<Rightarrow> ('p, 't) PrefixCache \<Rightarrow> ('p, 't) PrefixCache \<Rightarrow> bool" where
  "similar po u pc pc' \<longleftrightarrow> updateCache pc' = updateCache pc \<and> prefixTree pc' = prefixTree pc \<and> rpkiQueue pc' = rpkiQueue pc \<and>
     updates pc' = updates pc \<and> (\<forall>v. v \<noteq> u \<longrightarrow> pc_updates pc' v = pc_updates pc v) \<and>
     (\<forall>r. map_option roa_core (pc_roas pc' r) = map_option roa_core (pc_roas pc r)) \<and>
     (\<forall>n. map_option prefix_core (node_data pc' n) = map_option prefix_core (node_data pc n)) \<and>
     (\<forall>n. n \<noteq> po \<longrightarrow> node_data pc' n = node_data pc n)"

lemma similar_refl [simp]: "similar po u pc pc"
  by (simp add: similar_def)

lemma similar_trans: "similar po u pc pc' \<Longrightarrow> similar po u pc' pc'' \<Longrightarrow> similar po u pc pc''"
  by (simp add: similar_def)

lemma similar_bitlen: "similar po u pc pc' \<Longrightarrow> bitlen_at P pc' n = bitlen_at P pc n"
  by (simp add: similar_def bitlen_at_def)

lemma core_roa_cases:
  assumes "similar po u pc pc'"
  obtains "pc_roas pc r = None" "pc_roas pc' r = None"
  | x y where "pc_roas pc r = Some x" "pc_roas pc' r = Some y" "max_len y = max_len x" "roa_count y = roa_count x"
proof -
  have core: "map_option roa_core (pc_roas pc' r) = map_option roa_core (pc_roas pc r)"
    using assms by (simp add: similar_def)
  show ?thesis
  proof (cases "pc_roas pc r")
    case None
    then show ?thesis using core that(1) by simp
  next
    case (Some x)
    then obtain y where y: "pc_roas pc' r = Some y" "roa_core y = roa_core x" using core by auto
    have "max_len y = max_len x" "roa_count y = roa_count x"
      using arg_cong [OF y(2), of max_len] arg_cong [OF y(2), of roa_count] by (simp_all add: roa_core_def)
    then show ?thesis using that(2) Some y(1) by blast
  qed
qed

lemma core_roa:
  assumes "similar po u pc pc'"
  shows "match_count (pc_roas pc') len a = match_count (pc_roas pc) len a" "admits (pc_roas pc') len = admits (pc_roas pc) len"
    and "pc_roas pc' r = None \<longleftrightarrow> pc_roas pc r = None"
proof -
  show "match_count (pc_roas pc') len a = match_count (pc_roas pc) len a"
  proof
    fix x show "match_count (pc_roas pc') len a x = match_count (pc_roas pc) len a x"
      using assms by (rule core_roa_cases [where r = "snd x"]) (simp_all add: match_count_def)
  qed
  show "admits (pc_roas pc') len = admits (pc_roas pc) len"
  proof
    fix x show "admits (pc_roas pc') len x = admits (pc_roas pc) len x"
      using assms by (rule core_roa_cases [where r = x]) (simp_all add: admits_def)
  qed
  show "pc_roas pc' r = None \<longleftrightarrow> pc_roas pc r = None"
    using assms by (rule core_roa_cases [where r = r]) simp_all
qed

lemma core_prefix:
  assumes "similar po u pc pc'" "node_data pc n = Some p"
  obtains p' where "node_data pc' n = Some p'" "asn p' = asn p" "state_of_other p' = state_of_other p" "valid p' = valid p"
    "other p' = other p" "prefix_roas p' = prefix_roas p"
proof -
  have "map_option prefix_core (node_data pc' n) = map_option prefix_core (node_data pc n)"
    using assms(1) by (simp add: similar_def)
  then obtain p' where p': "node_data pc' n = Some p'" "prefix_core p' = prefix_core p" using assms(2) by auto
  have sel: "asn p' = asn p" "state_of_other p' = state_of_other p" "valid p' = valid p" "other p' = other p"
    using arg_cong [OF p'(2), of asn] arg_cong [OF p'(2), of state_of_other] arg_cong [OF p'(2), of valid]
      arg_cong [OF p'(2), of other] by (simp_all add: prefix_core_def)
  then show ?thesis using that p'(1) by (simp add: prefix_roas_def)
qed

lemma core_roas_on:
  assumes "similar po u pc pc'"
  shows "roas_on (node_data pc') ns = roas_on (node_data pc) ns" "node_data pc' n = None \<longleftrightarrow> node_data pc n = None"
    "getParent (node_data pc') ns = getParent (node_data pc) ns"
proof -
  have none: "node_data pc' n = None \<longleftrightarrow> node_data pc n = None" for n
  proof -
    have "map_option prefix_core (node_data pc' n) = map_option prefix_core (node_data pc n)" using assms by (simp add: similar_def)
    then show ?thesis by (metis map_option_is_None)
  qed
  then show "node_data pc' n = None \<longleftrightarrow> node_data pc n = None" .
  show "getParent (node_data pc') ns = getParent (node_data pc) ns" using none by (induction ns) simp_all
  have "(case node_data pc' n of None \<Rightarrow> [] | Some p \<Rightarrow> prefix_roas p) = (case node_data pc n of None \<Rightarrow> [] | Some p \<Rightarrow> prefix_roas p)" for n
  proof (cases "node_data pc n")
    case (Some p)
    with assms obtain p' where "node_data pc' n = Some p'" "prefix_roas p' = prefix_roas p" by (rule core_prefix)
    then show ?thesis using Some by simp
  qed (use none [of n] in simp)
  then show "roas_on (node_data pc') ns = roas_on (node_data pc) ns" by (simp add: roas_on_def)
qed


section \<open>The walk up the tree\<close>

lemma obj_at_Some [simp]: "m a = Some x \<Longrightarrow> obj_at m a = Inr x"
  by (simp add: obj_at_def)

lemma prefix_at_Some [simp]: "node_data pc n = Some p \<Longrightarrow> prefix_at pc n = Inr p"
  by (simp add: prefix_at_def)

lemma cover_roa_ok:
  assumes "pc_roas pc (snd x) \<noteq> None" "node_data pc po \<noteq> None" "pc_updates pc u = Some upd"
  shows "\<exists>pc'. cover_roa P po u a isNew x pc = Inr pc' \<and> similar po u pc pc' \<and> (\<not> isNew \<longrightarrow> node_data pc' = node_data pc) \<and>
    pc_updates pc' u = Some (upd\<lparr>roa_match := roa_match upd + match_count (pc_roas pc) (bitlen_at P pc po) a x\<rparr>)"
proof -
  obtain xa r where x: "x = (xa, r)" by force
  from assms obtain roa p where "pc_roas pc r = Some roa" "node_data pc po = Some p" by (auto simp: x)
  then show ?thesis
    using assms(3)
    by (cases "bitlen_at P pc po \<le> unat (max_len roa)"; cases isNew; cases "xa = a")
      (auto simp: cover_roa_def x match_count_def similar_def set_update_def set_roa_def set_prefix_def roa_core_def prefix_core_def Let_def)
qed

lemma cover_fold_ok:
  assumes "\<forall>x \<in> set xs. pc_roas pc (snd x) \<noteq> None" "node_data pc po \<noteq> None" "pc_updates pc u = Some upd"
  shows "\<exists>pc'. cfold (cover_roa P po u a isNew) xs pc = Inr pc' \<and> similar po u pc pc' \<and> (\<not> isNew \<longrightarrow> node_data pc' = node_data pc) \<and>
    pc_updates pc' u = Some (upd\<lparr>roa_match := roa_match upd + match_sum (pc_roas pc) (bitlen_at P pc po) a xs\<rparr>)"
  using assms
proof (induction xs arbitrary: pc upd)
  case (Cons x xs)
  from Cons.prems have "pc_roas pc (snd x) \<noteq> None" by simp
  from cover_roa_ok [OF this Cons.prems(2,3), of P a isNew]
  obtain pc1 where pc1: "cover_roa P po u a isNew x pc = Inr pc1" "similar po u pc pc1" "\<not> isNew \<longrightarrow> node_data pc1 = node_data pc"
    "pc_updates pc1 u = Some (upd\<lparr>roa_match := roa_match upd + match_count (pc_roas pc) (bitlen_at P pc po) a x\<rparr>)" by blast
  note same = core_roa [OF pc1(2)] core_roas_on(2) [OF pc1(2)] similar_bitlen [OF pc1(2)]
  have "\<forall>y \<in> set xs. pc_roas pc1 (snd y) \<noteq> None" "node_data pc1 po \<noteq> None" using Cons.prems(1,2) same(3,4) by auto
  from Cons.IH [OF this pc1(4)] obtain pc2 where pc2: "cfold (cover_roa P po u a isNew) xs pc1 = Inr pc2" "similar po u pc1 pc2"
    "\<not> isNew \<longrightarrow> node_data pc2 = node_data pc1"
    "pc_updates pc2 u = Some (upd\<lparr>roa_match := roa_match upd + match_count (pc_roas pc) (bitlen_at P pc po) a x +
       match_sum (pc_roas pc1) (bitlen_at P pc1 po) a xs\<rparr>)" by auto
  have "match_sum (pc_roas pc1) (bitlen_at P pc1 po) a xs = match_sum (pc_roas pc) (bitlen_at P pc po) a xs"
    by (simp add: match_sum_def same)
  then show ?case using pc1 pc2 similar_trans [OF pc1(2) pc2(2)] by (auto simp: add.assoc)
qed simp

text \<open>What the walk relies on for each node of the path that holds a prefix: for a new prefix, that the state of the
  other updates is invalid exactly when a ROA is attached here or above; for a known prefix, that its coverage is positive exactly
  when such a ROA admits it.\<close>

fun states_ok :: "(addr \<rightharpoonup> PC_Prefix) \<Rightarrow> addr list \<Rightarrow> bool" where
  "states_ok d [] = True"
| "states_ok d (n # ns) = (states_ok d ns \<and> (case d n of None \<Rightarrow> True | Some p \<Rightarrow>
     state_of_other p = (if roas_on d (n # ns) = [] then SRx_RESULT_NOTFOUND else SRx_RESULT_INVALID)))"

fun coverage_ok :: "(addr \<Rightarrow> nat) \<Rightarrow> (addr \<rightharpoonup> PC_ROA) \<Rightarrow> (addr \<rightharpoonup> PC_Prefix) \<Rightarrow> addr list \<Rightarrow> bool" where
  "coverage_ok bl roas d [] = True"
| "coverage_ok bl roas d (n # ns) = (coverage_ok bl roas d ns \<and> (\<forall>m \<in> set ns. bl m \<le> bl n) \<and> (case d n of None \<Rightarrow> True | Some p \<Rightarrow>
     (0 < roa_coverage p \<longleftrightarrow> (\<exists>x \<in> set (roas_on d (n # ns)). admits roas (bl n) (snd x)))))"

lemma states_ok_suffix: "states_ok d (us @ ns) \<Longrightarrow> states_ok d ns"
  by (induction us) auto

lemma coverage_ok_suffix: "coverage_ok bl roas d (us @ ns) \<Longrightarrow> coverage_ok bl roas d ns"
  by (induction us) auto

lemma states_ok_similar:
  assumes "similar po u pc pc'"
  shows "states_ok (node_data pc') ns = states_ok (node_data pc) ns"
proof (induction ns)
  case (Cons n ns)
  show ?case
  proof (cases "node_data pc n")
    case None
    then have "node_data pc' n = None" using core_roas_on(2) [OF assms] by simp
    then show ?thesis using None Cons.IH by simp
  next
    case (Some p)
    with assms obtain p' where "node_data pc' n = Some p'" "state_of_other p' = state_of_other p" "prefix_roas p' = prefix_roas p"
      by (rule core_prefix)
    then show ?thesis using Some Cons.IH core_roas_on(1) [OF assms] by simp
  qed
qed simp

lemma admits_mono: "admits roas len r \<Longrightarrow> len' \<le> len \<Longrightarrow> admits roas len' r"
  by (auto simp: admits_def split: option.splits)

definition walk_ok :: "'p patricia \<Rightarrow> addr \<Rightarrow> bool \<Rightarrow> ('p, 't) PrefixCache \<Rightarrow> addr list \<Rightarrow> bool" where
  "walk_ok P po isNew pc ns \<longleftrightarrow> (if isNew then states_ok (node_data pc) ns
     else coverage_ok (bitlen_at P pc) (pc_roas pc) (node_data pc) ns \<and> (\<forall>m \<in> set ns. bitlen_at P pc m \<le> bitlen_at P pc po))"

lemma walk_ok_suffix: "walk_ok P po isNew pc (us @ ns) \<Longrightarrow> walk_ok P po isNew pc ns"
  by (auto simp: walk_ok_def dest: states_ok_suffix coverage_ok_suffix split: if_splits)

lemma walk_ok_similar:
  assumes "similar po u pc pc'" "\<not> isNew \<longrightarrow> node_data pc' = node_data pc" "walk_ok P po isNew pc ns"
  shows "walk_ok P po isNew pc' ns"
proof -
  have "bitlen_at P pc' = bitlen_at P pc" using similar_bitlen [OF assms(1), of P] by blast
  moreover have "coverage_ok bl (pc_roas pc') d ks = coverage_ok bl (pc_roas pc) d ks" for bl d ks
    by (induction ks) (simp_all add: core_roa [OF assms(1)] split: option.splits)
  ultimately show ?thesis using assms(2,3) states_ok_similar [OF assms(1)] by (simp add: walk_ok_def)
qed

lemma walk_ok_stop:
  assumes "walk_ok P po isNew pc (n # ns)" "node_data pc n = Some p"
    and stop: "\<not> ((isNew \<and> state_of_other p = SRx_RESULT_INVALID) \<or> (\<not> isNew \<and> 0 < roa_coverage p))"
  shows "match_sum (pc_roas pc) (bitlen_at P pc po) a (roas_on (node_data pc) (n # ns)) = 0"
proof (rule match_sum_0, intro ballI)
  fix x assume x: "x \<in> set (roas_on (node_data pc) (n # ns))"
  show "\<not> (fst x = a \<and> admits (pc_roas pc) (bitlen_at P pc po) (snd x))"
  proof (cases isNew)
    case True
    then have "roas_on (node_data pc) (n # ns) = []" using assms by (auto simp: walk_ok_def split: if_splits)
    then show ?thesis using x by simp
  next
    case False
    then have "\<not> admits (pc_roas pc) (bitlen_at P pc n) (snd x)" "bitlen_at P pc n \<le> bitlen_at P pc po"
      using assms x by (auto simp: walk_ok_def)
    then show ?thesis using admits_mono by blast
  qed
qed

text \<open>The walk adds up the matching ROAs of the whole path: where it stops, none is left above.\<close>

lemma cover_walk_ok:
  assumes "pc_updates pc u = Some upd" "node_data pc n \<noteq> None" "node_data pc po \<noteq> None"
    and "\<forall>x \<in> set (roas_on (node_data pc) (n # ns)). pc_roas pc (snd x) \<noteq> None"
    and "walk_ok P po isNew pc (n # ns)"
  shows "\<exists>pc'. cover_walk P po u a isNew n ns pc = Inr pc' \<and> similar po u pc pc' \<and> (\<not> isNew \<longrightarrow> node_data pc' = node_data pc) \<and>
    pc_updates pc' u = Some (upd\<lparr>roa_match := roa_match upd +
      match_sum (pc_roas pc) (bitlen_at P pc po) a (roas_on (node_data pc) (n # ns))\<rparr>)"
  using assms
proof (induction "length ns" arbitrary: n ns pc upd rule: less_induct)
  case less
  from less.prems(2) obtain p where p: "node_data pc n = Some p" by blast
  let ?go = "(isNew \<and> state_of_other p = SRx_RESULT_INVALID) \<or> (\<not> isNew \<and> 0 < roa_coverage p)"
  show ?case
  proof (cases ?go)
    case False
    moreover have "cover_walk P po u a isNew n ns pc = Inr pc" using False p by (subst cover_walk.simps) auto
    ultimately show ?thesis using less.prems(1) walk_ok_stop [OF less.prems(5) p False, of a] by auto
  next
    case True
    have "\<forall>x \<in> set (prefix_roas p). pc_roas pc (snd x) \<noteq> None" using less.prems(4) p by simp
    from cover_fold_ok [OF this less.prems(3,1), of P a isNew]
    obtain pc1 where pc1: "cfold (cover_roa P po u a isNew) (prefix_roas p) pc = Inr pc1" "similar po u pc pc1"
      "\<not> isNew \<longrightarrow> node_data pc1 = node_data pc"
      "pc_updates pc1 u = Some (upd\<lparr>roa_match := roa_match upd + match_sum (pc_roas pc) (bitlen_at P pc po) a (prefix_roas p)\<rparr>)" by blast
    note same = core_roa [OF pc1(2)] core_roas_on [OF pc1(2)]
    have walk: "cover_walk P po u a isNew n ns pc = (case getParent (node_data pc) ns of
        None \<Rightarrow> Inr pc1 | Some (m, ms) \<Rightarrow> cover_walk P po u a isNew m ms pc1)"
      using True p pc1(1) same(6) by (subst cover_walk.simps) (auto simp: performUpdateValidation_PrefixIsCovereByAROA_def)
    show ?thesis
    proof (cases "getParent (node_data pc) ns")
      case None
      then show ?thesis using walk pc1(2-4) getParent_None [OF None] p by simp
    next
      case (Some mm)
      then obtain m ms us where m: "getParent (node_data pc) ns = Some (m, ms)" "roas_on (node_data pc) ns = roas_on (node_data pc) (m # ms)"
        "node_data pc m \<noteq> None" "ns = us @ m # ms"
        by (metis getParent_Some prod.exhaust)
      have "walk_ok P po isNew pc ((n # us) @ m # ms)" using less.prems(5) m(4) by simp
      from walk_ok_similar [OF pc1(2,3) walk_ok_suffix [OF this]]
      have w: "walk_ok P po isNew pc1 (m # ms)" .
      have "\<forall>x \<in> set (roas_on (node_data pc1) (m # ms)). pc_roas pc1 (snd x) \<noteq> None"
        unfolding same(3,4) using less.prems(4) m(2) by auto
      moreover have "length ms < length ns" "node_data pc1 m \<noteq> None" "node_data pc1 po \<noteq> None"
        using m(3,4) same(5) less.prems(3) by simp_all
      ultimately obtain pc2 where pc2: "cover_walk P po u a isNew m ms pc1 = Inr pc2" "similar po u pc1 pc2"
        "\<not> isNew \<longrightarrow> node_data pc2 = node_data pc1"
        "pc_updates pc2 u = Some (upd\<lparr>roa_match := roa_match upd + match_sum (pc_roas pc) (bitlen_at P pc po) a (prefix_roas p) +
           match_sum (pc_roas pc1) (bitlen_at P pc1 po) a (roas_on (node_data pc1) (m # ms))\<rparr>)"
        using less.hyps [of ms pc1 _ m, OF _ pc1(4)] w by auto
      moreover have "match_sum (pc_roas pc1) (bitlen_at P pc1 po) a (roas_on (node_data pc1) (m # ms)) =
          match_sum (pc_roas pc) (bitlen_at P pc po) a (roas_on (node_data pc) ns)"
        by (simp add: match_sum_def same(1,4) m(2) similar_bitlen [OF pc1(2)] del: roas_on_simps)
      ultimately show ?thesis
        using walk m(1) p pc1(3) similar_trans [OF pc1(2) pc2(2)] by (auto simp: add.assoc)
    qed
  qed
qed


section \<open>Recording the result\<close>

abbreviation roa_set :: "u8 \<Rightarrow> CacheEntry \<Rightarrow> CacheEntry" where
  "roa_set s e \<equiv> e\<lparr>srxResult := (srxResult e)\<lparr>roaResult := s\<rparr>\<rparr>"

text \<open>The result of an update is written to the update cache.\<close>

definition recorded :: "'t uthash \<Rightarrow> ('p, 't) PrefixCache \<Rightarrow> ('p, 't) PrefixCache \<Rightarrow> u32 \<Rightarrow> u8 \<Rightarrow> bool" where
  "recorded T pc pc' uid s \<longleftrightarrow> (\<exists>uc uc' e. updateCache pc = Some uc \<and> updateCache pc' = Some uc' \<and> uc_entry T uc uid = Some e \<and>
     uc_ok T uc' \<and> uc_entry T uc' = (uc_entry T uc)(uid \<mapsto> roa_set s e))"

lemma notify_ok:
  assumes "updateCache pc = Some uc" "uc_ok T uc" "uc_entry T uc uid = Some e" "s \<noteq> SRx_RESULT_DONOTUSE"
  shows "\<exists>uc'. notifyUpdateCacheForROAChange T pc uid s False = Inr (pc\<lparr>updateCache := Some uc'\<rparr>) \<and>
    recorded T pc (pc\<lparr>updateCache := Some uc'\<rparr>) uid s"
proof -
  let ?res = "\<lparr>roaResult = s, bgpsecResult = SRx_RESULT_DONOTUSE, aspaResult = SRx_RESULT_DONOTUSE\<rparr>"
  have m: "merge_result (srxResult e) ?res = (srxResult e)\<lparr>roaResult := s\<rparr>"
    using assms(4) by (cases "srxResult e") (simp add: merge_result_def)
  from modifyUpdateResult_ok [OF assms(2,3), of ?res False] obtain b uc' where
    "modifyUpdateResult T uc uid ?res False = Inr (b, uc')" "uc_ok T uc'" "uc_entry T uc' = (uc_entry T uc)(uid \<mapsto> roa_set s e)"
    unfolding m by blast
  then show ?thesis using assms(1,3) by (auto simp: notifyUpdateCacheForROAChange_def recorded_def)
qed

section \<open>The prefix of the update\<close>

lemma find_as_bound: "find_as a xs = Some i \<Longrightarrow> i < length xs"
  by (induction xs arbitrary: i) (auto split: if_splits)

text \<open>Counting the update at its AS changes neither ROAs nor state, coverage and lists.\<close>

lemma counted_prefix:
  assumes "getASFromPrefix True p a = (i, p')"
  shows "i \<noteq> None" "prefix_roas (count_as_update (the i) p') = prefix_roas p"
    "state_of_other (count_as_update (the i) p') = state_of_other p" "roa_coverage (count_as_update (the i) p') = roa_coverage p"
    "valid (count_as_update (the i) p') = valid p" "other (count_as_update (the i) p') = other p"
proof -
  let ?f = "\<lambda>x. map (Pair (as_asn x)) (as_roas x)"
  have upd: "map ?f (xs[j := (xs ! j)\<lparr>as_update_count := c\<rparr>]) = map ?f xs" if "j < length xs" for xs :: "PC_AS list" and j c
    using that by (simp add: map_update list_update_same_conv)
  show "i \<noteq> None"
  proof (cases "find_as a (asn p)")
    case (Some j)
    then have "i = Some j" using assms by (simp add: getASFromPrefix_def)
    then show ?thesis by simp
  qed (use assms in \<open>auto simp: getASFromPrefix_def\<close>)
  show "prefix_roas (count_as_update (the i) p') = prefix_roas p"
  proof (cases "find_as a (asn p)")
    case None
    then show ?thesis using assms by (auto simp: getASFromPrefix_def prefix_roas_def count_as_update_def)
  next
    case (Some j)
    then have "i = Some j" "p' = p" using assms by (simp_all add: getASFromPrefix_def)
    then show ?thesis using upd [OF find_as_bound [OF Some]] by (simp add: prefix_roas_def count_as_update_def)
  qed
  show "state_of_other (count_as_update (the i) p') = state_of_other p" "roa_coverage (count_as_update (the i) p') = roa_coverage p"
    "valid (count_as_update (the i) p') = valid p" "other (count_as_update (the i) p') = other p"
    using assms by (auto simp: getASFromPrefix_def count_as_update_def split: option.splits)
qed

lemma roas_on_upd:
  assumes "prefix_roas p' = (case d n of None \<Rightarrow> [] | Some p \<Rightarrow> prefix_roas p)"
  shows "roas_on (d(n \<mapsto> p')) ns = roas_on d ns"
  using assms by (induction ns) auto

lemma walk_ok_upd:
  assumes "node_data pc n = Some p" "prefix_roas p' = prefix_roas p" "state_of_other p' = state_of_other p"
    "roa_coverage p' = roa_coverage p"
  shows "walk_ok P po isNew (set_prefix n p' pc) ns = walk_ok P po isNew pc ns"
proof -
  define d d' where "d = node_data pc" and "d' = (node_data pc)(n \<mapsto> p')"
  have r: "roas_on d' ks = roas_on d ks" for ks unfolding d_def d'_def using assms(1,2) by (intro roas_on_upd) simp
  have at: "d' n = Some p'" "d n = Some p" "m \<noteq> n \<Longrightarrow> d' m = d m" for m using assms(1) by (simp_all add: d_def d'_def)
  have states: "states_ok d' ks = states_ok d ks" for ks
  proof (induction ks)
    case (Cons k ks)
    then show ?case using at r [of "k # ks"] assms(3) by (cases "k = n") (simp_all del: roas_on_simps)
  qed simp
  have "coverage_ok bl roas d' ks = coverage_ok bl roas d ks" for bl roas ks
  proof (induction ks)
    case (Cons k ks)
    then show ?case using at assms(4) unfolding coverage_ok.simps r by (cases "k = n") simp_all
  qed simp
  moreover have "bitlen_at P (set_prefix n p' pc) = bitlen_at P pc" by (simp add: bitlen_at_def set_prefix_def fun_eq_iff)
  ultimately show ?thesis using states by (simp add: walk_ok_def set_prefix_def d_def d'_def)
qed

lemma append_update_ok: "lost l = 0 \<Longrightarrow> append_update True u l = Inr (True, l\<lparr>chain := chain l @ [u]\<rparr>)"
  by (simp add: append_update_def)

text \<open>The last step puts the update into the list that its count of matches decides and reports the result.\<close>

lemma prefixNotCovered_ok:
  assumes "node_data pc n = Some p" "pc_updates pc u = Some upd" "pu_updateID upd = uid" "lost (valid p) = 0" "lost (other p) = 0"
    and "updateCache pc = Some uc" "uc_ok T uc" "uc_entry T uc uid = Some e" "state_of_other p \<noteq> SRx_RESULT_DONOTUSE"
  defines "s \<equiv> if roa_match upd = 0 then state_of_other p else SRx_RESULT_VALID"
  shows "\<exists>pc' p'. performUpdateValidation_PrefixNotCovered T (\<lambda>_. True) pc n u = Inr (True, pc') \<and> recorded T pc pc' uid s \<and>
    node_data pc' n = Some p' \<and> u \<in> set (chain (if roa_match upd = 0 then other p' else valid p'))"
proof -
  let ?p = "if roa_match upd = 0 then p\<lparr>other := (other p)\<lparr>chain := chain (other p) @ [u]\<rparr>\<rparr>
     else p\<lparr>valid := (valid p)\<lparr>chain := chain (valid p) @ [u]\<rparr>\<rparr>"
  have uc: "updateCache (set_prefix n ?p pc) = Some uc" using assms(6) by (simp add: set_prefix_def)
  have "s \<noteq> SRx_RESULT_DONOTUSE" using assms(9) by (simp add: s_def)
  from notify_ok [OF uc assms(7,8) this] obtain uc' where
    n: "notifyUpdateCacheForROAChange T (set_prefix n ?p pc) uid s False = Inr ((set_prefix n ?p pc)\<lparr>updateCache := Some uc'\<rparr>)"
    "recorded T (set_prefix n ?p pc) ((set_prefix n ?p pc)\<lparr>updateCache := Some uc'\<rparr>) uid s" by blast
  have "performUpdateValidation_PrefixNotCovered T (\<lambda>_. True) pc n u = Inr (True, (set_prefix n ?p pc)\<lparr>updateCache := Some uc'\<rparr>)"
    using assms(1-5) n(1)
    by (cases "roa_match upd = 0") (simp_all add: performUpdateValidation_PrefixNotCovered_def append_update_ok s_def)
  moreover have "recorded T pc ((set_prefix n ?p pc)\<lparr>updateCache := Some uc'\<rparr>) uid s"
    using n(2) by (simp add: recorded_def set_prefix_def)
  ultimately show ?thesis by (auto simp: set_prefix_def)
qed


text \<open>A path whose ROAs exist, with counts that are positive and add up to less than \<open>2 ^ 16\<close>.\<close>

definition roas_ok :: "(addr \<rightharpoonup> PC_ROA) \<Rightarrow> nat \<Rightarrow> u32 \<Rightarrow> (u32 \<times> addr) list \<Rightarrow> bool" where
  "roas_ok roas len a xs \<longleftrightarrow> (\<forall>x \<in> set xs. \<exists>roa. roas (snd x) = Some roa \<and> roa_count roa \<noteq> 0) \<and>
     sum_list (map (\<lambda>x. unat (match_count roas len a x)) xs) < 2 ^ 16"

lemma performUpdateValidationKnownPrefix_ok:
  fixes P :: "'p patricia" and a :: u32
  assumes p: "node_data pc n = Some p" "lost (valid p) = 0" "lost (other p) = 0"
    and u: "pc_updates pc u = Some upd" "pu_updateID upd = uid" "roa_match upd = 0"
    and uc: "updateCache pc = Some uc" "uc_ok T uc" "uc_entry T uc uid = Some e"
  defines "ns \<equiv> n # parents_of P pc n" and "len \<equiv> bitlen_at P pc n"
  defines "xs \<equiv> roas_on (node_data pc) ns"
  assumes roas: "roas_ok (pc_roas pc) len a xs" and walk: "walk_ok P n isNew pc ns"
    and state: "state_of_other p = (if xs = [] then SRx_RESULT_NOTFOUND else SRx_RESULT_INVALID)"
  shows "\<exists>pc' p'. performUpdateValidationKnownPrefix T P (\<lambda>_. True) pc n u a isNew = Inr (True, pc') \<and>
    recorded T pc pc' uid (origin_state (pc_roas pc) len a xs) \<and> node_data pc' n = Some p' \<and>
    u \<in> set (chain (if origin_state (pc_roas pc) len a xs = SRx_RESULT_VALID then valid p' else other p'))"
proof -
  obtain i p1 where as: "getASFromPrefix True p a = (i, p1)" by force
  note c = counted_prefix [OF as]
  define p2 where "p2 = count_as_update (the i) p1"
  define pc1 where "pc1 = set_prefix n p2 pc"
  have pc1: "node_data pc1 n = Some p2" "pc_updates pc1 = pc_updates pc" "pc_roas pc1 = pc_roas pc" "updateCache pc1 = updateCache pc"
    "bitlen_at P pc1 n = len" "parents_of P pc1 n = parents_of P pc n"
    by (simp_all add: pc1_def set_prefix_def len_def bitlen_at_def parents_of_def)
  have xs: "roas_on (node_data pc1) ns = xs"
    unfolding pc1_def set_prefix_def xs_def using c(2) p(1) by (simp add: roas_on_upd p2_def del: roas_on_simps)
  have w: "walk_ok P n isNew pc1 ns" using walk_ok_upd [OF p(1) c(2-4)] walk by (simp add: pc1_def p2_def)
  have ex: "\<forall>x \<in> set xs. pc_roas pc1 (snd x) \<noteq> None" using roas pc1(3) by (fastforce simp: roas_ok_def)
  from cover_walk_ok [of pc1 u upd n n "parents_of P pc n" P isNew a] u(1) pc1 ex w xs
  obtain pc2 where pc2: "cover_walk P n u a isNew n (parents_of P pc n) pc1 = Inr pc2" "similar n u pc1 pc2"
    "pc_updates pc2 u = Some (upd\<lparr>roa_match := match_sum (pc_roas pc) len a xs\<rparr>)"
    unfolding ns_def u(3) by (auto simp del: roas_on_simps)
  from pc2(2) pc1(1) obtain p3 where p3: "node_data pc2 n = Some p3" "state_of_other p3 = state_of_other p" "valid p3 = valid p" "other p3 = other p"
    by (rule core_prefix) (simp add: p2_def c)
  have s: "match_sum (pc_roas pc) len a xs = 0 \<longleftrightarrow> origin_state (pc_roas pc) len a xs \<noteq> SRx_RESULT_VALID"
    using match_sum_eq_0 [of "pc_roas pc" len a xs] roas by (auto simp: roas_ok_def origin_state_def)
  have os: "(if match_sum (pc_roas pc) len a xs = 0 then state_of_other p else SRx_RESULT_VALID) = origin_state (pc_roas pc) len a xs"
    using s state by (auto simp: origin_state_def split: if_splits)
  have uc2: "updateCache pc2 = Some uc" using pc2(2) pc1(4) uc(1) by (simp add: similar_def)
  have "state_of_other p3 \<noteq> SRx_RESULT_DONOTUSE" using p3(2) state by simp
  have os3: "(if match_sum (pc_roas pc) len a xs = 0 then state_of_other p3 else SRx_RESULT_VALID) = origin_state (pc_roas pc) len a xs"
    unfolding p3(2) by (rule os)
  from prefixNotCovered_ok [OF p3(1) pc2(3) _ _ _ uc2 uc(2,3) \<open>state_of_other p3 \<noteq> SRx_RESULT_DONOTUSE\<close>] u(2) p(2,3) p3(3,4)
  obtain pc' p' where r: "performUpdateValidation_PrefixNotCovered T (\<lambda>_. True) pc2 n u = Inr (True, pc')"
    "recorded T pc2 pc' uid (origin_state (pc_roas pc) len a xs)" "node_data pc' n = Some p'"
    "u \<in> set (chain (if match_sum (pc_roas pc) len a xs = 0 then other p' else valid p'))"
    by (auto simp: os3 simp del: SRx_RESULT_VALID_def)
  have "recorded T pc pc' uid (origin_state (pc_roas pc) len a xs)" using r(2) uc2 uc(1) by (simp add: recorded_def)
  moreover obtain j where j: "i = Some j" using c(1) by blast
  then have "set_prefix n (count_as_update j p1) pc = pc1" by (simp add: pc1_def p2_def)
  then have "performUpdateValidationKnownPrefix T P (\<lambda>_. True) pc n u a isNew = Inr (True, pc')"
    using p(1) as j pc2(1) r(1) pc1(6) by (simp add: performUpdateValidationKnownPrefix_def)
  ultimately show ?thesis using r(3,4) s by (auto split: if_splits)
qed


section \<open>A request\<close>

lemma inherited_state_ok:
  assumes "states_ok (node_data pc) (parents_of P pc n)"
  shows "inherited_state P pc n =
    (if roas_on (node_data pc) (parents_of P pc n) = [] then SRx_RESULT_NOTFOUND else SRx_RESULT_INVALID)"
proof (cases "getParent (node_data pc) (parents_of P pc n)")
  case None
  then show ?thesis using getParent_None [OF None] by (simp add: inherited_state_def)
next
  case (Some mm)
  then obtain m ms us p where m: "getParent (node_data pc) (parents_of P pc n) = Some (m, ms)"
    "roas_on (node_data pc) (parents_of P pc n) = roas_on (node_data pc) (m # ms)" "node_data pc m = Some p" "parents_of P pc n = us @ m # ms"
    by (metis getParent_Some option.exhaust prod.exhaust)
  then have "states_ok (node_data pc) (m # ms)" using assms states_ok_suffix by metis
  then have "state_of_other p = (if roas_on (node_data pc) (m # ms) = [] then SRx_RESULT_NOTFOUND else SRx_RESULT_INVALID)"
    using m(3) by simp
  then show ?thesis using m(1-3) by (simp add: inherited_state_def del: roas_on_simps)
qed

lemma states_ok_new:
  assumes "states_ok d ns" "d n = None" "n \<notin> set ns" "prefix_roas p = []"
    "state_of_other p = (if roas_on d ns = [] then SRx_RESULT_NOTFOUND else SRx_RESULT_INVALID)"
  shows "states_ok (d(n \<mapsto> p)) (n # ns)"
proof -
  define d' where "d' = d(n \<mapsto> p)"
  have r: "roas_on d' ks = roas_on d ks" for ks unfolding d'_def using assms(2,4) by (intro roas_on_upd) simp
  have at: "d' n = Some p" "m \<noteq> n \<Longrightarrow> d' m = d m" for m by (simp_all add: d'_def)
  have "states_ok d' ks" if "states_ok d ks" "n \<notin> set ks" for ks
    using that
  proof (induction ks)
    case (Cons k ks)
    then show ?case using at(2) [of k] unfolding states_ok.simps r by simp
  qed simp
  moreover have "roas_on d' (n # ns) = roas_on d ns" using r [of "n # ns"] assms(2) by simp
  ultimately have "states_ok d' (n # ns)" using assms(1,3,5) at(1) by (simp del: roas_on_simps)
  then show ?thesis by (simp only: d'_def)
qed

text \<open>A new prefix: it has no ROA of its own and inherits its state.\<close>

lemma validate_new_ok:
  fixes P :: "'p patricia" and a :: u32
  assumes u: "pc_updates pc u = Some upd" "pu_updateID upd = uid" "roa_match upd = 0"
    and uc: "updateCache pc = Some uc" "uc_ok T uc" "uc_entry T uc uid = Some e"
    and n: "node_data pc n = None" "n \<notin> set (parents_of P pc n)"
  defines "ns \<equiv> n # parents_of P pc n" and "len \<equiv> bitlen_at P pc n"
  defines "xs \<equiv> roas_on (node_data pc) ns"
  assumes roas: "roas_ok (pc_roas pc) len a xs" and states: "states_ok (node_data pc) ns"
  shows "\<exists>pc' p'. validate_at_node T P (\<lambda>_. True) u pc n True uid a = Inr (True, pc') \<and>
    recorded T pc pc' uid (origin_state (pc_roas pc) len a xs) \<and> node_data pc' n = Some p' \<and>
    u \<in> set (chain (if origin_state (pc_roas pc) len a xs = SRx_RESULT_VALID then valid p' else other p'))"
proof -
  define p where "p = new_prefix (inherited_state P pc n)"
  define pc1 where "pc1 = set_prefix n p pc"
  have st: "states_ok (node_data pc) (parents_of P pc n)" using states by (simp add: ns_def)
  have xs_eq: "xs = roas_on (node_data pc) (parents_of P pc n)" using n(1) by (simp add: xs_def ns_def)
  have p: "prefix_roas p = []" "state_of_other p = (if xs = [] then SRx_RESULT_NOTFOUND else SRx_RESULT_INVALID)"
    "lost (valid p) = 0" "lost (other p) = 0"
    using inherited_state_ok [OF st] by (simp_all add: p_def new_prefix_def prefix_roas_def xs_eq)
  have pc1: "node_data pc1 n = Some p" "pc_updates pc1 = pc_updates pc" "pc_roas pc1 = pc_roas pc" "updateCache pc1 = updateCache pc"
    "bitlen_at P pc1 n = len" "parents_of P pc1 n = parents_of P pc n" "node_data pc1 = (node_data pc)(n \<mapsto> p)"
    by (simp_all add: pc1_def set_prefix_def len_def bitlen_at_def parents_of_def)
  have xs1: "roas_on (node_data pc1) ns = xs"
    unfolding pc1(7) xs_def using n(1) p(1) by (intro roas_on_upd) simp
  have "states_ok (node_data pc1) ns"
    unfolding pc1(7) ns_def using st n p(1,2) xs_eq by (intro states_ok_new) simp_all
  then have w: "walk_ok P n True pc1 ns" by (simp add: walk_ok_def)
  have run: "validate_at_node T P (\<lambda>_. True) u pc n True uid a = performUpdateValidationKnownPrefix T P (\<lambda>_. True) pc1 n u a True"
    using n(1) by (simp add: validate_at_node_def performUpdateValidationNewPrefix_def pc1_def p_def)
  from performUpdateValidationKnownPrefix_ok [OF pc1(1) p(3,4), of u upd uid uc T e P a True] u uc pc1 xs1 roas w p(2)
  show ?thesis unfolding run ns_def [symmetric] by (auto simp: recorded_def ns_def [symmetric] simp del: SRx_RESULT_VALID_def)
qed

text \<open>A known prefix.\<close>

lemma validate_known_ok:
  fixes P :: "'p patricia" and a :: u32
  assumes u: "pc_updates pc u = Some upd" "pu_updateID upd = uid" "roa_match upd = 0"
    and uc: "updateCache pc = Some uc" "uc_ok T uc" "uc_entry T uc uid = Some e"
    and p: "node_data pc n = Some p" "lost (valid p) = 0" "lost (other p) = 0"
  defines "ns \<equiv> n # parents_of P pc n" and "len \<equiv> bitlen_at P pc n"
  defines "xs \<equiv> roas_on (node_data pc) ns"
  assumes roas: "roas_ok (pc_roas pc) len a xs" and states: "states_ok (node_data pc) ns"
    and cover: "coverage_ok (bitlen_at P pc) (pc_roas pc) (node_data pc) ns"
  shows "\<exists>pc' p'. validate_at_node T P (\<lambda>_. True) u pc n False uid a = Inr (True, pc') \<and>
    recorded T pc pc' uid (origin_state (pc_roas pc) len a xs) \<and> node_data pc' n = Some p' \<and>
    u \<in> set (chain (if origin_state (pc_roas pc) len a xs = SRx_RESULT_VALID then valid p' else other p'))"
proof -
  have state: "state_of_other p = (if xs = [] then SRx_RESULT_NOTFOUND else SRx_RESULT_INVALID)"
    using states p(1) unfolding ns_def xs_def by (simp del: roas_on_simps)
  show ?thesis
  proof (cases "0 < roa_coverage p")
    case True
    have "walk_ok P n False pc ns" using cover by (auto simp: walk_ok_def ns_def)
    then show ?thesis
      using performUpdateValidationKnownPrefix_ok [OF p u uc, where P = P and a = a and isNew = False] True p(1) roas state
      unfolding ns_def len_def xs_def by (simp add: validate_at_node_def del: SRx_RESULT_VALID_def roas_on_simps)
  next
    case False
    then have "\<not> (\<exists>x \<in> set xs. admits (pc_roas pc) len (snd x))"
      using cover p(1) unfolding ns_def xs_def len_def by (simp del: roas_on_simps)
    then have s: "origin_state (pc_roas pc) len a xs = state_of_other p" "state_of_other p \<noteq> SRx_RESULT_VALID" "state_of_other p \<noteq> SRx_RESULT_DONOTUSE"
      using state by (auto simp: origin_state_def)
    obtain i p1 where as: "getASFromPrefix True (p\<lparr>other := (other p)\<lparr>chain := chain (other p) @ [u]\<rparr>\<rparr>) a = (i, p1)" by force
    note c = counted_prefix [OF as]
    then obtain j where j: "i = Some j" by blast
    define pc1 where "pc1 = set_prefix n (count_as_update j p1) pc"
    have uc1: "updateCache pc1 = Some uc" using uc(1) by (simp add: pc1_def set_prefix_def)
    have so: "state_of_other p1 = state_of_other p" using c(3) by (simp add: count_as_update_def)
    from notify_ok [OF uc1 uc(2,3) s(3)] obtain uc' where nt:
      "notifyUpdateCacheForROAChange T pc1 uid (state_of_other p) False = Inr (pc1\<lparr>updateCache := Some uc'\<rparr>)"
      "recorded T pc1 (pc1\<lparr>updateCache := Some uc'\<rparr>) uid (state_of_other p)" by blast
    have "validate_at_node T P (\<lambda>_. True) u pc n False uid a = Inr (True, pc1\<lparr>updateCache := Some uc'\<rparr>)"
      using False p as j nt(1) so by (simp add: validate_at_node_def append_update_ok pc1_def)
    moreover have "recorded T pc (pc1\<lparr>updateCache := Some uc'\<rparr>) uid (state_of_other p)"
      using nt(2) uc(1) uc1 by (simp add: recorded_def)
    moreover have "u \<in> set (chain (other (count_as_update j p1)))" using c(6) j by simp
    ultimately show ?thesis unfolding s(1) using s(2) by (auto simp: pc1_def set_prefix_def)
  qed
qed

lemma requestUpdateValidation_ok:
  fixes P :: "'p patricia" and pc :: "('p, 't) PrefixCache" and a :: u32
  assumes tree: "prefixTree pc = Some t" "patricia_lookup P t (ipPrefixToPrefix_t pfx) = (Some (n, new), t')"
    and known: "new \<longleftrightarrow> node_data pc n = None" and n: "n \<notin> set (node_parents P t' n)"
    and lists: "\<And>p. node_data pc n = Some p \<Longrightarrow> lost (valid p) = 0 \<and> lost (other p) = 0"
    and uc: "updateCache pc = Some uc" "uc_ok T uc" "uc_entry T uc uid = Some e"
    and states: "states_ok (node_data pc) (n # node_parents P t' n)"
    and cover: "coverage_ok (node_bitlen P t') (pc_roas pc) (node_data pc) (n # node_parents P t' n)"
    and roas: "roas_ok (pc_roas pc) (node_bitlen P t' n) a (roas_on (node_data pc) (n # node_parents P t' n))"
  shows "\<exists>pc' uc' p'. requestUpdateValidation T P (\<lambda>_. True) u pc uid pfx a = Inr (True, pc') \<and>
    updateCache pc' = Some uc' \<and> uc_ok T uc' \<and> node_data pc' n = Some p' \<and>
    (let s = origin_state (pc_roas pc) (node_bitlen P t' n) a (roas_on (node_data pc) (n # node_parents P t' n))
     in uc_entry T uc' = (uc_entry T uc)(uid \<mapsto> roa_set s e) \<and>
        u \<in> set (chain (if s = SRx_RESULT_VALID then valid p' else other p')))"
proof -
  define s where "s = origin_state (pc_roas pc) (node_bitlen P t' n) a (roas_on (node_data pc) (n # node_parents P t' n))"
  define upd where "upd = \<lparr>pu_updateID = uid, pu_as = a, pu_treeNode = n, roa_match = 0\<rparr>"
  define pc1 where "pc1 = pc\<lparr>updates := updates pc @ [u], prefixTree := Some t', pc_updates := (pc_updates pc)(u \<mapsto> upd)\<rparr>"
  have pc1: "node_data pc1 = node_data pc" "pc_roas pc1 = pc_roas pc" "updateCache pc1 = updateCache pc" "pc_updates pc1 u = Some upd"
    "bitlen_at P pc1 = node_bitlen P t'" "parents_of P pc1 = node_parents P t'"
    by (simp_all add: pc1_def bitlen_at_def parents_of_def fun_eq_iff)
  have upd: "pu_updateID upd = uid" "roa_match upd = 0" by (simp_all add: upd_def)
  have run: "requestUpdateValidation T P (\<lambda>_. True) u pc uid pfx a = validate_at_node T P (\<lambda>_. True) u pc1 n new uid a"
    using tree by (simp add: requestUpdateValidation_def set_update_def pc1_def upd_def)
  have "\<exists>pc' p'. validate_at_node T P (\<lambda>_. True) u pc1 n new uid a = Inr (True, pc') \<and> recorded T pc1 pc' uid s \<and>
      node_data pc' n = Some p' \<and> u \<in> set (chain (if s = SRx_RESULT_VALID then valid p' else other p'))"
  proof (cases new)
    case True
    then show ?thesis
      using validate_new_ok [OF pc1(4) upd, of uc T e n P a] known n uc states roas
      unfolding pc1 s_def by (simp del: roas_on_simps states_ok.simps SRx_RESULT_VALID_def)
  next
    case False
    then obtain p where p: "node_data pc n = Some p" using known by blast
    then show ?thesis
      using validate_known_ok [OF pc1(4) upd, of uc T e n p P a] lists [OF p] uc states roas cover False
      unfolding pc1 s_def by (simp del: roas_on_simps states_ok.simps coverage_ok.simps SRx_RESULT_VALID_def)
  qed
  then show ?thesis
    using uc unfolding run s_def [symmetric] recorded_def pc1(3) Let_def by (elim exE conjE) (rule exI conjI | simp)+
qed

text \<open>C11. Origin validation of a new update. If the prefix cache is consistent on the path from the update's prefix to the root of
  the tree (the state of a prefix is invalid exactly when some ROA is attached to it or above, its coverage is positive exactly when
  such a ROA admits its length, the counts of the matching ROAs stay below \<open>2 ^ 16\<close>, and the node of the prefix is new in the tree exactly when it has no data) and memory is available, then \<open>requestUpdateValidation\<close>
  succeeds, for a prefix that is new in the tree as for a known one, and records for the update exactly the state of RFC 6811: valid, invalid or
  not found. All other results of the update and all other updates keep theirs, the update is kept in the list of valid or of other
  updates of its prefix accordingly.\<close>

theorem requestUpdateValidation_rfc6811:
  fixes P :: "'p patricia" and pc :: "('p, 't) PrefixCache" and a :: u32
  assumes tree: "prefixTree pc = Some t" "patricia_lookup P t (ipPrefixToPrefix_t pfx) = (Some (n, new), t')"
    and known: "new \<longleftrightarrow> node_data pc n = None" and n: "n \<notin> set (node_parents P t' n)"
    and lists: "\<And>p. node_data pc n = Some p \<Longrightarrow> lost (valid p) = 0 \<and> lost (other p) = 0"
    and uc: "updateCache pc = Some uc" "uc_ok T uc" "uc_entry T uc uid = Some e"
    and states: "states_ok (node_data pc) (n # node_parents P t' n)"
    and cover: "coverage_ok (node_bitlen P t') (pc_roas pc) (node_data pc) (n # node_parents P t' n)"
    and roas: "roas_ok (pc_roas pc) (node_bitlen P t' n) a (roas_on (node_data pc) (n # node_parents P t' n))"
  shows "\<exists>pc' uc' p'. requestUpdateValidation T P (\<lambda>_. True) u pc uid pfx a = Inr (True, pc') \<and>
    updateCache pc' = Some uc' \<and> uc_ok T uc' \<and> node_data pc' n = Some p' \<and>
    (let s = origin_state (pc_roas pc) (node_bitlen P t' n) a (roas_on (node_data pc) (n # node_parents P t' n))
     in uc_entry T uc' = (uc_entry T uc)(uid \<mapsto> roa_set s e) \<and>
        u \<in> set (chain (if s = SRx_RESULT_VALID then valid p' else other p')))"
  by (rule requestUpdateValidation_ok [OF tree known n lists uc states cover roas])

section \<open>A withdrawn prefix\<close>

text \<open>What \<open>patricia_lookup\<close> documents: a prefix that is in the tree is found again, and the prefix given for the search
  is then not referenced by the tree.\<close>

definition patricia_laws :: "'p patricia \<Rightarrow> bool" where
  "patricia_laws P \<longleftrightarrow> (\<forall>t k n b t'. patricia_lookup P t k = (Some (n, b), t') \<longrightarrow> patricia_lookup P t' k = (Some (n, False), t'))"

lemma request_known_node_without_data:
  assumes "patricia_laws P" "patricia_lookup P t (ipPrefixToPrefix_t pfx) = (Some (n, b), t')" "prefixTree pc = Some t'" "node_data pc n = None"
  shows "requestUpdateValidation T P (\<lambda>_. True) u pc uid pfx a = Inl NullDeref"
proof -
  have "patricia_lookup P t' (ipPrefixToPrefix_t pfx) = (Some (n, False), t')" using assms(1,2) unfolding patricia_laws_def by blast
  then show ?thesis
    using assms(3,4) by (simp add: requestUpdateValidation_def set_update_def validate_at_node_def prefix_at_def)
qed

text \<open>C27. A null pointer after a withdrawal. The prefix of an update has no data in the prefix cache. When a ROA for it is withdrawn, although none was announced, the call fails, but its search leaves a node
  without data in the tree, and the next \<open>requestUpdateValidation\<close> for this prefix dereferences the null pointer. The same happens after a ROA was announced and withdrawn: if its AS number is not one that RFC 5398 reserves, the node of the prefix has neither
  parents nor children in the tree, and the prefix is not longer than the maximum length of the ROA, then both calls succeed, the data of the prefix is freed, its node stays, and the next \<open>requestUpdateValidation\<close> crashes. Memory is available, and the
  tree finds a node again that it has inserted.\<close>

theorem update_after_withdrawal_crashes:
  assumes P: "patricia_laws P" and tree: "prefixTree pc = Some t" "patricia_lookup P t (ipPrefixToPrefix_t pfx) = (Some (n, b), t')"
    and new: "node_data pc n = None"
  shows "(\<exists>pc'. delROAwl T P pc as' pfx maxLen sid vc suppress = Inr (False, pc') \<and>
       requestUpdateValidation T P (\<lambda>_. True) u pc' uid pfx a = Inl NullDeref) \<and>
    (\<not> belongsToRfc5398 as' \<and> node_parents P t' n = [] \<and> node_tree P t' n = Node Leaf n Leaf \<and> node_bitlen P t' n \<le> unat maxLen \<longrightarrow>
     (\<exists>pc1 pc2. addROAwl T P r pc as' pfx maxLen sid vc suppress = Inr (True, pc1) \<and>
       delROAwl T P pc1 as' pfx maxLen sid vc suppress = Inr (True, pc2) \<and>
       requestUpdateValidation T P (\<lambda>_. True) u pc2 uid pfx a = Inl NullDeref))"
proof (intro conjI impI)
  have "delROAwl T P pc as' pfx maxLen sid vc suppress = Inr (False, pc\<lparr>prefixTree := Some t'\<rparr>)"
    using tree new by (simp add: delROAwl_def)
  then show "\<exists>pc'. delROAwl T P pc as' pfx maxLen sid vc suppress = Inr (False, pc') \<and>
       requestUpdateValidation T P (\<lambda>_. True) u pc' uid pfx a = Inl NullDeref"
    using request_known_node_without_data [OF P tree(2), of "pc\<lparr>prefixTree := Some t'\<rparr>"] new by simp
next
  assume h: "\<not> belongsToRfc5398 as' \<and> node_parents P t' n = [] \<and> node_tree P t' n = Node Leaf n Leaf \<and> node_bitlen P t' n \<le> unat maxLen"
  let ?roa = "\<lparr>roa_as = as', max_len = maxLen, roa_count = 1, deferred_count = 0, valCacheID = vc, roa_update_count = 0\<rparr>"
  let ?p = "\<lparr>roa_coverage = 1, state_of_other = SRx_RESULT_INVALID, valid = \<lparr>chain = [], lost = 0\<rparr>,
     other = \<lparr>chain = [], lost = 0\<rparr>, asn = [\<lparr>as_asn = as', as_roas = [r], as_update_count = 0\<rparr>]\<rparr>"
  define pc1 where "pc1 = pc\<lparr>prefixTree := Some t', node_data := (node_data pc)(n \<mapsto> ?p), pc_roas := (pc_roas pc)(r \<mapsto> ?roa)\<rparr>"
  have again: "patricia_lookup P t' (ipPrefixToPrefix_t pfx) = (Some (n, False), t')" using P tree(2) unfolding patricia_laws_def by blast
  have add: "addROAwl T P r pc as' pfx maxLen sid vc suppress = Inr (True, pc1)"
    using h tree new
    by (simp add: addROAwl_def roa_prefix_def inherited_state_def parents_of_def tree_of_def bitlen_at_def prefix_at_def new_prefix_def
        getASFromPrefix_def set_prefix_def set_roa_def verify_prefix_def obj_at_def addROAwl_moveMatchedUpdatesToValid_def
        ROAwl_changeStateOfOther_def pc1_def)
  have "\<exists>pc2. delROAwl T P pc1 as' pfx maxLen sid vc suppress = Inr (True, pc2) \<and> prefixTree pc2 = Some t' \<and> node_data pc2 n = None"
    using h again
    by (simp add: delROAwl_def inherited_state_def parents_of_def tree_of_def bitlen_at_def prefix_at_def set_prefix_def set_roa_def
        revalidate_prefix_def obj_at_def delROAwl_moveToOther_def ROAwl_changeStateOfOther_def release_roa_def pc1_def)
  then show "\<exists>pc1 pc2. addROAwl T P r pc as' pfx maxLen sid vc suppress = Inr (True, pc1) \<and>
       delROAwl T P pc1 as' pfx maxLen sid vc suppress = Inr (True, pc2) \<and>
       requestUpdateValidation T P (\<lambda>_. True) u pc2 uid pfx a = Inl NullDeref"
    using add request_known_node_without_data [OF P tree(2)] by blast
qed


section \<open>A tree with the documented behaviour\<close>

text \<open>The prefixes in the order of their insertion; the node of a prefix is its position.\<close>

definition address_bits :: "u8 list \<Rightarrow> bool list" where
  "address_bits bs = concat (map (\<lambda>b. map (bit b) [7, 6, 5, 4, 3, 2, 1, 0]) bs)"

definition covers_prefix :: "prefix_t \<Rightarrow> prefix_t \<Rightarrow> bool" where
  "covers_prefix p q \<longleftrightarrow> family p = family q \<and> bitlen p \<le> bitlen q \<and>
     take (unat (bitlen p)) (address_bits (add p)) = take (unat (bitlen p)) (address_bits (add q))"

fun position :: "prefix_t \<Rightarrow> prefix_t list \<Rightarrow> nat" where
  "position k [] = 0"
| "position k (x # xs) = (if x = k then 0 else Suc (position k xs))"

definition list_lookup :: "prefix_t list \<Rightarrow> prefix_t \<Rightarrow> (addr \<times> bool) option \<times> prefix_t list" where
  "list_lookup t k = (if k \<in> set t then (Some (Suc (position k t), False), t) else (Some (Suc (length t), True), t @ [k]))"

definition list_nodes :: "prefix_t list \<Rightarrow> (prefix_t \<Rightarrow> bool) \<Rightarrow> addr list" where
  "list_nodes t f = map Suc (sort_key (\<lambda>i. unat (bitlen (t ! i))) (filter (\<lambda>i. f (t ! i)) [0..<length t]))"

definition list_patricia :: "prefix_t list patricia" where
  "list_patricia = \<lparr>patricia_lookup = list_lookup, node_bitlen = (\<lambda>t n. unat (bitlen (t ! (n - 1)))),
     node_parents = (\<lambda>t n. rev (list_nodes t (\<lambda>p. p \<noteq> t ! (n - 1) \<and> covers_prefix p (t ! (n - 1))))),
     node_tree = (\<lambda>t n. Node Leaf n (foldr (\<lambda>m acc. Node Leaf m acc)
       (list_nodes t (\<lambda>p. p \<noteq> t ! (n - 1) \<and> covers_prefix (t ! (n - 1)) p)) Leaf))\<rparr>"

lemma position_append: "k \<notin> set t \<Longrightarrow> position k (t @ [k]) = length t"
  by (induction t) auto

lemma list_patricia_laws: "patricia_laws list_patricia"
  by (auto simp: patricia_laws_def list_patricia_def list_lookup_def position_append split: if_splits)

definition p8 :: prefix_t where
  "p8 = \<lparr>family = AF_INET, bitlen = 8, add = [10, 0, 0, 0]\<rparr>"

definition sample_roa :: PC_ROA where
  "sample_roa = \<lparr>roa_as = 65001, max_len = 24, roa_count = 1, deferred_count = 0, valCacheID = 1, roa_update_count = 0\<rparr>"

definition roa_node :: PC_Prefix where
  "roa_node = \<lparr>roa_coverage = 1, state_of_other = SRx_RESULT_INVALID, valid = \<lparr>chain = [], lost = 0\<rparr>,
     other = \<lparr>chain = [], lost = 0\<rparr>, asn = [\<lparr>as_asn = 65001, as_roas = [1], as_update_count = 0\<rparr>]\<rparr>"

definition sample_pc :: "(prefix_t list, (u32 \<Rightarrow> addr) \<times> addr list) PrefixCache" where
  "sample_pc = \<lparr>updateCache = Some sample_cache, prefixTree = Some [p8], updates = [], pc_updates = Map.empty,
     pc_roas = [1 \<mapsto> sample_roa], node_data = [1 \<mapsto> roa_node], updatesMutex = MutexFree, treeLock = Unlocked, otherLock = Unlocked,
     validLock = Unlocked, asLock = Unlocked, rpkiQueue = None\<rparr>"

lemma sample_lookup:
  "patricia_lookup list_patricia [p8] (ipPrefixToPrefix_t sample_prefix) = (Some (2, True), [p8, ipPrefixToPrefix_t sample_prefix])"
  "node_parents list_patricia [p8, ipPrefixToPrefix_t sample_prefix] 2 = [1]"
  "node_bitlen list_patricia [p8, ipPrefixToPrefix_t sample_prefix] 2 = 24" "node_bitlen list_patricia [p8, ipPrefixToPrefix_t sample_prefix] 1 = 8"
  by (simp_all add: list_patricia_def list_lookup_def list_nodes_def covers_prefix_def address_bits_def p8_def ipPrefixToPrefix_t_def sample_prefix_def)

lemma requestUpdateValidation_rfc6811_witness:
  "\<exists>pc' uc'. requestUpdateValidation fun_table list_patricia (\<lambda>_. True) 5 sample_pc 9 sample_prefix 65001 = Inr (True, pc') \<and>
    updateCache pc' = Some uc' \<and> uc_entry fun_table uc' 9 = Some (roa_set SRx_RESULT_VALID sample_entry)"
proof -
  let ?t = "[p8, ipPrefixToPrefix_t sample_prefix]"
  have sel: "prefixTree sample_pc = Some [p8]" "node_data sample_pc = [1 \<mapsto> roa_node]" "updateCache sample_pc = Some sample_cache"
    "pc_roas sample_pc = [1 \<mapsto> sample_roa]" by (simp_all add: sample_pc_def)
  have xs: "roas_on [1 \<mapsto> roa_node] [2, 1] = [(65001, 1)]" by (simp add: prefix_roas_def roa_node_def)
  have s: "origin_state [1 \<mapsto> sample_roa] 24 65001 [(65001, 1)] = SRx_RESULT_VALID"
    by (simp add: origin_state_def admits_def sample_roa_def)
  have "states_ok [1 \<mapsto> roa_node] [2, 1]" by (simp add: prefix_roas_def roa_node_def)
  moreover have "coverage_ok (node_bitlen list_patricia ?t) [1 \<mapsto> sample_roa] [1 \<mapsto> roa_node] [2, 1]"
    unfolding coverage_ok.simps using sample_lookup by (simp add: prefix_roas_def roa_node_def admits_def sample_roa_def)
  moreover have "roas_ok [1 \<mapsto> sample_roa] 24 65001 [(65001, 1)]" by (simp add: roas_ok_def match_count_def sample_roa_def)
  moreover have "uc_entry fun_table sample_cache 9 = Some sample_entry" by (simp add: sample_cache_entry)
  ultimately obtain pc' uc' where "requestUpdateValidation fun_table list_patricia (\<lambda>_. True) 5 sample_pc 9 sample_prefix 65001 = Inr (True, pc')"
    "updateCache pc' = Some uc'" "uc_entry fun_table uc' = (uc_entry fun_table sample_cache)(9 \<mapsto> roa_set SRx_RESULT_VALID sample_entry)"
    using requestUpdateValidation_rfc6811 [OF sel(1) sample_lookup(1), of sample_cache fun_table 9 sample_entry 65001 5] sample_cache_ok
    unfolding sample_lookup sel xs s Let_def by (auto simp del: SRx_RESULT_VALID_def states_ok.simps coverage_ok.simps)
  then show ?thesis by auto
qed

lemma update_after_withdrawal_crashes_witness:
  "\<exists>pc1 pc2. addROAwl fun_table list_patricia 7 (sample_pc\<lparr>prefixTree := Some [], node_data := Map.empty\<rparr>) 65001 sample_prefix 24 0 1 False = Inr (True, pc1) \<and>
    delROAwl fun_table list_patricia pc1 65001 sample_prefix 24 0 1 False = Inr (True, pc2) \<and>
    requestUpdateValidation fun_table list_patricia (\<lambda>_. True) 5 pc2 9 sample_prefix 65001 = Inl NullDeref"
proof -
  let ?k = "ipPrefixToPrefix_t sample_prefix"
  have look: "patricia_lookup list_patricia [] ?k = (Some (1, True), [?k])" "node_parents list_patricia [?k] 1 = []"
    "node_tree list_patricia [?k] 1 = Node Leaf 1 Leaf" "node_bitlen list_patricia [?k] 1 = 24"
    by (simp_all add: list_patricia_def list_lookup_def list_nodes_def ipPrefixToPrefix_t_def sample_prefix_def)
  show ?thesis
    using update_after_withdrawal_crashes [OF list_patricia_laws _ look(1), of "sample_pc\<lparr>prefixTree := Some [], node_data := Map.empty\<rparr>"
        fun_table 65001 24 0 1 False 5 9 65001 7] look(2-4)
    by (simp add: belongsToRfc5398_def)
qed

end
