(* ===== verification/Aspath_Cache.thy ===== *)
theory Aspath_Cache
  imports Update_Cache Aspa_Validation
begin

text \<open>
  The AS path cache, \<open>server/aspath_cache.c\<close>: the AS paths of the updates with the result of their ASPA validation,
  under the path identifier that \<open>makePathId\<close> computes. The entries live at addresses in a table of the \<open>uthash\<close>
  library, the parameter \<open>T\<close>; allocation succeeds, as the code relies on it. Network byte order is converted
  as on a little endian host.
\<close>

section \<open>Data\<close>

record AS_PATH_LIST =
  apl_pathID :: u32
  asPathLength :: u8
  asPathList :: "u32 list option"
  aspaValResult :: u8
  apl_asType :: u32
  apl_asRelDir :: u32
  apl_afi :: u16
  apl_lastModified :: nat

record PathListCacheTable =
  pl_pathId :: u32
  pl_hops :: u16
  pl_asPathList :: "u32 list option"
  pl_aspaResult :: u8
  pl_asType :: u32
  pl_asRelDir :: u32
  pl_afi :: u16
  pl_lastModified :: nat

record 't AspathCache =
  aspathCacheTable :: 't
  ac_entries :: "addr \<rightharpoonup> PathListCacheTable"
  ac_tableLock :: RWLock

section \<open>The table\<close>

definition createAspathCache :: "'t uthash \<Rightarrow> bool \<Rightarrow> 't AspathCache \<Rightarrow> bool \<times> 't AspathCache" where
  "createAspathCache T lock_ok self =
     (let (ok, l) = createRWLock lock_ok (ac_tableLock self); self = self\<lparr>ac_tableLock := l\<rparr>
      in if \<not> ok then (False, self) else (True, self\<lparr>aspathCacheTable := HASH_NIL T\<rparr>))"

definition emptyAspathCache :: "'t uthash \<Rightarrow> 't AspathCache \<Rightarrow> 't AspathCache cres" where
  "emptyAspathCache T self =
     cbind (acquireWriteLock (ac_tableLock self)) (\<lambda>l. cbind (unlockWriteLock l) (\<lambda>l.
       Inr (self\<lparr>aspathCacheTable := HASH_NIL T, ac_tableLock := l\<rparr>)))"

definition releaseAspathCache :: "'t uthash \<Rightarrow> 't AspathCache option \<Rightarrow> 't AspathCache option cres" where
  "releaseAspathCache T self = (case self of
      None \<Rightarrow> Inr None
    | Some c \<Rightarrow> cbind (emptyAspathCache T (c\<lparr>ac_tableLock := releaseRWLock (ac_tableLock c)\<rparr>)) (\<lambda>c. Inr (Some c)))"

definition add_AspathList :: "'t uthash \<Rightarrow> 't AspathCache \<Rightarrow> addr \<Rightarrow> PathListCacheTable \<Rightarrow> 't AspathCache cres" where
  "add_AspathList T self a e =
     cbind (acquireWriteLock (ac_tableLock self)) (\<lambda>l. cbind (unlockWriteLock l) (\<lambda>l.
       Inr (self\<lparr>aspathCacheTable := HASH_ADD T (pl_pathId e) a (aspathCacheTable self),
                 ac_entries := (ac_entries self)(a \<mapsto> e), ac_tableLock := l\<rparr>)))"

definition find_AspathList :: "'t uthash \<Rightarrow> 't AspathCache \<Rightarrow> u32 \<Rightarrow> (addr \<times> 't AspathCache) cres" where
  "find_AspathList T self pathId =
     cbind (acquireReadLock (ac_tableLock self)) (\<lambda>l. cbind (unlockReadLock l) (\<lambda>l.
       Inr (HASH_FIND T pathId (aspathCacheTable self), self\<lparr>ac_tableLock := l\<rparr>)))"

definition del_AspathList :: "'t uthash \<Rightarrow> 't AspathCache \<Rightarrow> addr \<Rightarrow> 't AspathCache cres" where
  "del_AspathList T self a =
     cbind (acquireWriteLock (ac_tableLock self)) (\<lambda>l. cbind (unlockWriteLock l) (\<lambda>l.
       Inr (self\<lparr>aspathCacheTable := HASH_DEL T a (aspathCacheTable self), ac_tableLock := l\<rparr>)))"

section \<open>Operations\<close>

text \<open>\<open>newAspathListEntry\<close>: the length is an 8 bit field of the new entry, the list has all elements.\<close>

definition newAspathListEntry ::
  "u32 \<Rightarrow> u32 list option \<Rightarrow> u32 \<Rightarrow> u32 \<Rightarrow> u32 \<Rightarrow> u16 \<Rightarrow> bool \<Rightarrow> AS_PATH_LIST option cres" where
  "newAspathListEntry len pdat pathId asType asRelDir af bBigEndian =
     (if len = 0 then Inr None
      else case pdat of
          None \<Rightarrow> Inl NullDeref
        | Some ps \<Rightarrow>
            if length ps < unat len then Inl OutOfBounds
            else Inr (Some \<lparr>apl_pathID = pathId, asPathLength = ucast len,
              asPathList = Some (map (if bBigEndian then ntohl else id) (take (unat len) ps)), aspaValResult = 0,
              apl_asType = asType, apl_asRelDir = asRelDir, apl_afi = (if bBigEndian then ntohs af else af), apl_lastModified = 0\<rparr>))"

definition deleteAspathListEntry :: "AS_PATH_LIST option \<Rightarrow> bool" where
  "deleteAspathListEntry aspl = (aspl \<noteq> None)"

definition ac_entry_at :: "'t AspathCache \<Rightarrow> addr \<Rightarrow> PathListCacheTable cres" where
  "ac_entry_at self a = (case ac_entries self a of Some e \<Rightarrow> Inr e | None \<Rightarrow> Inl UseAfterFree)"

definition modifyAspaValidationResultToAspathCache ::
  "'t uthash \<Rightarrow> 't AspathCache \<Rightarrow> u32 \<Rightarrow> u8 \<Rightarrow> AS_PATH_LIST option \<Rightarrow> (bool \<times> 't AspathCache) cres" where
  "modifyAspaValidationResultToAspathCache T self pathId modAspaResult pathlistEntry =
     cbind (find_AspathList T self pathId) (\<lambda>(a, self).
       if a = 0 then Inr (False, self)
       else if modAspaResult = SRx_RESULT_DONOTUSE then Inr (True, self)
       else cbind (ac_entry_at self a) (\<lambda>e. case pathlistEntry of
           None \<Rightarrow> Inl NullDeref
         | Some p \<Rightarrow> Inr (True, self\<lparr>ac_entries := (ac_entries self)(a \<mapsto>
             e\<lparr>pl_lastModified := apl_lastModified p, pl_aspaResult := modAspaResult\<rparr>)\<rparr>)))"

text \<open>\<open>storeAspathList\<close>: \<open>a\<close> is the address of the new entry, whose memory is cleared.\<close>

definition storeAspathList ::
  "'t uthash \<Rightarrow> addr \<Rightarrow> 't AspathCache \<Rightarrow> SRxDefaultResult option \<Rightarrow> u32 \<Rightarrow> u32 \<Rightarrow> AS_PATH_LIST option \<Rightarrow> (int \<times> 't AspathCache) cres" where
  "storeAspathList T a self srxRes pathId asType pathlistEntry = (case pathlistEntry of
      None \<Rightarrow> Inr (- 1, self)
    | Some p \<Rightarrow>
        cbind (find_AspathList T self pathId) (\<lambda>(found, self).
          if found \<noteq> 0 then Inr (0, self)
          else let n = unat (asPathLength p)
               in cbind (case asPathList p of
                           None \<Rightarrow> Inr None
                         | Some ps \<Rightarrow> if n = 0 then Inr None else if length ps < n then Inl OutOfBounds else Inr (Some (take n ps))) (\<lambda>ps.
                  cbind (add_AspathList T self a
                    \<lparr>pl_pathId = pathId, pl_hops = ucast (asPathLength p), pl_asPathList = ps,
                     pl_aspaResult = (case srxRes of Some r \<Rightarrow> aspaResult (defResult r) | None \<Rightarrow> 0), pl_asType = asType,
                     pl_asRelDir = apl_asRelDir p, pl_afi = apl_afi p, pl_lastModified = apl_lastModified p\<rparr>) (\<lambda>self.
                  Inr (1, self)))))"

definition deleteAspathCache :: "'t uthash \<Rightarrow> 't AspathCache \<Rightarrow> u32 \<Rightarrow> (bool \<times> 't AspathCache) cres" where
  "deleteAspathCache T self pathId =
     cbind (find_AspathList T self pathId) (\<lambda>(a, self).
       if a = 0 then Inr (False, self) else cbind (del_AspathList T self a) (\<lambda>self. Inr (True, self)))"

text \<open>\<open>getAspathListFromAspathCache\<close>: a new list with the contents of the entry; the ASPA result is also
  written to the caller's result. The 8 bit length counts the elements copied.\<close>

definition getAspathListFromAspathCache ::
  "'t uthash \<Rightarrow> 't AspathCache \<Rightarrow> u32 \<Rightarrow> SRxResult \<Rightarrow> (AS_PATH_LIST option \<times> SRxResult \<times> 't AspathCache) cres" where
  "getAspathListFromAspathCache T self pathId srxRes =
     (if pathId = 0 then Inr (None, srxRes, self)
      else cbind (find_AspathList T self pathId) (\<lambda>(a, self).
        if a = 0 then Inr (None, srxRes\<lparr>aspaResult := SRx_RESULT_UNDEFINED\<rparr>, self)
        else cbind (ac_entry_at self a) (\<lambda>e.
          let len = (ucast (pl_hops e) :: u8); n = unat len
          in cbind (case pl_asPathList e of
                      None \<Rightarrow> Inr (replicate n 0)
                    | Some ps \<Rightarrow> if length ps < n then Inl OutOfBounds else Inr (take n ps)) (\<lambda>ps.
             Inr (Some \<lparr>apl_pathID = pl_pathId e, asPathLength = len, asPathList = Some ps, aspaValResult = pl_aspaResult e,
                    apl_asType = pl_asType e, apl_asRelDir = pl_asRelDir e, apl_afi = pl_afi e, apl_lastModified = pl_lastModified e\<rparr>,
                  srxRes\<lparr>aspaResult := pl_aspaResult e\<rparr>, self)))))"

text \<open>\<open>makePathId\<close>: the checksum of the path as hexadecimal text, followed by the type and the terminating zero. The buffer has
  room for one digit of the type.\<close>

definition makePathId :: "u8 \<Rightarrow> u32 list option \<Rightarrow> u32 \<Rightarrow> bool \<Rightarrow> u32 cres" where
  "makePathId len path asType bBigEndian = (case path of
      None \<Rightarrow> Inr 0
    | Some ps \<Rightarrow>
        if length ps < unat len then Inl OutOfBounds
        else if 16 \<le> unat asType then Inl BufferOverflow
        else Inr (crc32 (concat (map (\<lambda>p. sprintf_X 8 (if bBigEndian then ntohl p else p)) (take (unat len) ps)) @
                         sprintf_X 1 asType @ [0])))"

definition getCountAsPathCache :: "'t uthash \<Rightarrow> 't AspathCache \<Rightarrow> (u8 \<times> 't AspathCache) cres" where
  "getCountAsPathCache T self =
     cbind (acquireWriteLock (ac_tableLock self)) (\<lambda>l. cbind (unlockWriteLock l) (\<lambda>l.
       Inr (of_nat (length (HASH_ITER T (aspathCacheTable self))), self\<lparr>ac_tableLock := l\<rparr>)))"

text \<open>The order of \<open>sortByPathId\<close>: the difference of two unsigned identifiers read as a signed integer.\<close>

definition idSort :: "PathListCacheTable \<Rightarrow> PathListCacheTable \<Rightarrow> int" where
  "idSort a b = sint (pl_pathId a - pl_pathId b)"


section \<open>The cache as a map\<close>

definition ac_entry :: "'t uthash \<Rightarrow> 't AspathCache \<Rightarrow> u32 \<rightharpoonup> PathListCacheTable" where
  "ac_entry T c k = (let a = HASH_FIND T k (aspathCacheTable c) in if a = 0 then None else ac_entries c a)"

text \<open>An entry whose list has as many elements as its number of hops, which fits into a byte.\<close>

definition path_wf :: "PathListCacheTable \<Rightarrow> bool" where
  "path_wf e \<longleftrightarrow> pl_hops e < 256 \<and>
     (case pl_asPathList e of None \<Rightarrow> pl_hops e = 0 | Some ps \<Rightarrow> length ps = unat (pl_hops e) \<and> ps \<noteq> [])"

definition ac_ok :: "'t uthash \<Rightarrow> 't AspathCache \<Rightarrow> bool" where
  "ac_ok T c \<longleftrightarrow> ac_tableLock c = Unlocked \<and>
     (\<forall>k. HASH_FIND T k (aspathCacheTable c) \<noteq> 0 \<longrightarrow>
        (\<exists>e. ac_entries c (HASH_FIND T k (aspathCacheTable c)) = Some e \<and> pl_pathId e = k \<and> path_wf e))"

lemma find_AspathList_ok: "ac_ok T c \<Longrightarrow> find_AspathList T c k = Inr (HASH_FIND T k (aspathCacheTable c), c)"
  by (simp add: find_AspathList_def ac_ok_def)

lemma ac_entry_None:
  assumes "ac_ok T c"
  shows "ac_entry T c k = None \<longleftrightarrow> HASH_FIND T k (aspathCacheTable c) = 0"
proof
  assume none: "ac_entry T c k = None"
  show "HASH_FIND T k (aspathCacheTable c) = 0"
  proof (rule ccontr)
    assume nz: "HASH_FIND T k (aspathCacheTable c) \<noteq> 0"
    then have "\<exists>e. ac_entries c (HASH_FIND T k (aspathCacheTable c)) = Some e" using assms unfolding ac_ok_def by blast
    then show False using none nz by (auto simp: ac_entry_def)
  qed
qed (simp add: ac_entry_def)

lemma ac_entry_Some:
  assumes "ac_ok T c" "ac_entry T c k = Some e"
  obtains a where "a \<noteq> 0" "HASH_FIND T k (aspathCacheTable c) = a" "ac_entries c a = Some e" "pl_pathId e = k" "path_wf e"
    "find_AspathList T c k = Inr (a, c)"
proof -
  let ?a = "HASH_FIND T k (aspathCacheTable c)"
  have a: "?a \<noteq> 0" "ac_entries c ?a = Some e" using assms(2) by (auto simp: ac_entry_def Let_def split: if_splits)
  then have "\<exists>e. ac_entries c ?a = Some e \<and> pl_pathId e = k \<and> path_wf e" using assms(1) unfolding ac_ok_def by blast
  then show ?thesis using that [OF a(1) refl a(2)] a(2) find_AspathList_ok [OF assms(1)] by simp
qed

text \<open>Changing the entry of an identifier is a point update of the map.\<close>

lemma ac_update_refines:
  assumes c: "ac_ok T c" "ac_entry T c k = Some e" and e': "pl_pathId e' = k" "path_wf e'"
  defines "c' \<equiv> c\<lparr>ac_entries := (ac_entries c)(HASH_FIND T k (aspathCacheTable c) \<mapsto> e')\<rparr>"
  shows "ac_ok T c' \<and> ac_entry T c' = (ac_entry T c)(k \<mapsto> e')"
proof -
  from c obtain a where a: "a \<noteq> 0" "HASH_FIND T k (aspathCacheTable c) = a" "ac_entries c a = Some e" "pl_pathId e = k" by (rule ac_entry_Some)
  have own: "j = k" if j: "HASH_FIND T j (aspathCacheTable c) = a" for j
  proof -
    have "\<exists>x. ac_entries c a = Some x \<and> pl_pathId x = j" using c(1) a(1) j unfolding ac_ok_def by blast
    then show ?thesis using a(3,4) by simp
  qed
  have c': "aspathCacheTable c' = aspathCacheTable c" "ac_entries c' = (ac_entries c)(a \<mapsto> e')" "ac_tableLock c' = ac_tableLock c"
    by (simp_all add: c'_def a(2))
  have "\<exists>x. ac_entries c' (HASH_FIND T j (aspathCacheTable c)) = Some x \<and> pl_pathId x = j \<and> path_wf x"
    if "HASH_FIND T j (aspathCacheTable c) \<noteq> 0" for j
  proof (cases "HASH_FIND T j (aspathCacheTable c) = a")
    case True
    then show ?thesis using own [OF True] e' c'(2) by simp
  next
    case False
    then show ?thesis using c(1) that c'(2) unfolding ac_ok_def by simp
  qed
  moreover have "ac_tableLock c' = Unlocked" using c(1) c'(3) by (simp add: ac_ok_def)
  moreover have "ac_entry T c' j = ((ac_entry T c)(k \<mapsto> e')) j" for j
    using a(1,2) own [of j] by (cases "j = k") (auto simp: ac_entry_def c' Let_def)
  ultimately show ?thesis by (auto simp: ac_ok_def c'(1))
qed

lemma ac_add_refines:
  assumes T: "uthash_laws T" and c: "ac_ok T c" "ac_entry T c (pl_pathId e) = None"
    and a: "a \<noteq> 0" "ac_entries c a = None" and e: "path_wf e"
  defines "c' \<equiv> c\<lparr>aspathCacheTable := HASH_ADD T (pl_pathId e) a (aspathCacheTable c), ac_entries := (ac_entries c)(a \<mapsto> e)\<rparr>"
  shows "ac_ok T c' \<and> ac_entry T c' = (ac_entry T c)(pl_pathId e \<mapsto> e)"
proof -
  let ?f = "\<lambda>j. HASH_FIND T j (aspathCacheTable c)"
  have zero: "?f (pl_pathId e) = 0" using ac_entry_None [OF c(1)] c(2) by simp
  have find: "HASH_FIND T j (aspathCacheTable c') = (if j = pl_pathId e then a else ?f j)" for j
    using uthash_add [OF T a(1) zero, of j] by (simp add: c'_def)
  have found: "\<exists>x. ac_entries c (?f j) = Some x \<and> pl_pathId x = j \<and> path_wf x" if "?f j \<noteq> 0" for j
    using c(1) that unfolding ac_ok_def by blast
  have new: "?f j \<noteq> a" if "?f j \<noteq> 0" for j using found [OF that] a(2) by auto
  have c': "ac_entries c' = (ac_entries c)(a \<mapsto> e)" "ac_tableLock c' = ac_tableLock c" by (simp_all add: c'_def)
  have "ac_entry T c' j = ((ac_entry T c)(pl_pathId e \<mapsto> e)) j" for j
    using a(1) new [of j] by (cases "?f j = 0") (simp_all add: ac_entry_def find c'(1))
  moreover have "ac_ok T c'"
    unfolding ac_ok_def find c'
  proof (intro conjI allI impI)
    show "ac_tableLock c = Unlocked" using c(1) by (simp add: ac_ok_def)
    fix j assume "(if j = pl_pathId e then a else ?f j) \<noteq> 0"
    then show "\<exists>x. ((ac_entries c)(a \<mapsto> e)) (if j = pl_pathId e then a else ?f j) = Some x \<and> pl_pathId x = j \<and> path_wf x"
      using found [of j] new [of j] e by (cases "j = pl_pathId e") auto
  qed
  ultimately show ?thesis by blast
qed

text \<open>Removing an entry removes the identifier from the map.\<close>

lemma ac_delete_refines:
  assumes T: "uthash_laws T" and c: "ac_ok T c" "ac_entry T c k = Some e"
  obtains c' where "deleteAspathCache T c k = Inr (True, c')" "ac_ok T c'" "ac_entry T c' = (ac_entry T c)(k := None)"
proof -
  from c obtain a where a: "a \<noteq> 0" "HASH_FIND T k (aspathCacheTable c) = a" "ac_entries c a = Some e" "pl_pathId e = k"
    "find_AspathList T c k = Inr (a, c)" by (rule ac_entry_Some)
  have own: "j = k" if j: "HASH_FIND T j (aspathCacheTable c) = a" for j
  proof -
    have "\<exists>x. ac_entries c a = Some x \<and> pl_pathId x = j" using c(1) a(1) j unfolding ac_ok_def by blast
    then show ?thesis using a(3,4) by simp
  qed
  define c' where "c' = c\<lparr>aspathCacheTable := HASH_DEL T a (aspathCacheTable c)\<rparr>"
  have lock: "ac_tableLock c = Unlocked" using c(1) by (simp add: ac_ok_def)
  have find: "HASH_FIND T j (aspathCacheTable c') = (if j = k then 0 else HASH_FIND T j (aspathCacheTable c))" for j
    using uthash_del [OF T a(1,2) own] by (simp add: c'_def)
  have c': "ac_entries c' = ac_entries c" "ac_tableLock c' = Unlocked" by (simp_all add: c'_def lock)
  have "deleteAspathCache T c k = Inr (True, c')"
    using a(1) by (simp add: deleteAspathCache_def a(5) del_AspathList_def lock c'_def)
  moreover have "ac_ok T c'" using c(1) unfolding ac_ok_def find c' by (simp split: if_splits)
  moreover have "ac_entry T c' = (ac_entry T c)(k := None)" by (rule ext) (simp add: ac_entry_def find c'(1) Let_def)
  ultimately show ?thesis by (rule that)
qed

text \<open>A stored path is returned by a look up, with the result it was stored with.\<close>

lemma ac_lookup:
  assumes c: "ac_ok T c" "ac_entry T c k = Some e" and k: "k \<noteq> 0"
  shows "getAspathListFromAspathCache T c k r =
     Inr (Some \<lparr>apl_pathID = k, asPathLength = ucast (pl_hops e), asPathList = Some (case pl_asPathList e of None \<Rightarrow> [] | Some ps \<Rightarrow> ps),
                aspaValResult = pl_aspaResult e, apl_asType = pl_asType e, apl_asRelDir = pl_asRelDir e, apl_afi = pl_afi e,
                apl_lastModified = pl_lastModified e\<rparr>,
          r\<lparr>aspaResult := pl_aspaResult e\<rparr>, c)"
proof -
  from c obtain a where a: "a \<noteq> 0" "ac_entries c a = Some e" "pl_pathId e = k" "path_wf e" "find_AspathList T c k = Inr (a, c)"
    by (rule ac_entry_Some)
  have "unat (ucast (pl_hops e) :: u8) = unat (pl_hops e)"
    using a(4) by (simp add: path_wf_def unsigned_ucast_eq take_bit_eq_mod word_less_nat_alt)
  then show ?thesis
    using a k by (auto simp: getAspathListFromAspathCache_def ac_entry_at_def Let_def path_wf_def split: option.splits)
qed

lemma ac_lookup_missing:
  assumes "ac_ok T c" "ac_entry T c k = None" "k \<noteq> 0"
  shows "getAspathListFromAspathCache T c k r = Inr (None, r\<lparr>aspaResult := SRx_RESULT_UNDEFINED\<rparr>, c)"
  using assms ac_entry_None [OF assms(1)] by (simp add: getAspathListFromAspathCache_def find_AspathList_ok)

text \<open>A new result of a stored path.\<close>

lemma ac_modify_ok:
  assumes c: "ac_ok T c" "ac_entry T c k = Some p" and v: "v \<noteq> SRx_RESULT_DONOTUSE"
  shows "\<exists>c'. modifyAspaValidationResultToAspathCache T c k v (Some l) = Inr (True, c') \<and> ac_ok T c' \<and>
    ac_entry T c' = (ac_entry T c)(k \<mapsto> p\<lparr>pl_lastModified := apl_lastModified l, pl_aspaResult := v\<rparr>)"
proof -
  let ?p = "p\<lparr>pl_lastModified := apl_lastModified l, pl_aspaResult := v\<rparr>"
  from c obtain a where a: "a \<noteq> 0" "HASH_FIND T k (aspathCacheTable c) = a" "ac_entries c a = Some p" "pl_pathId p = k"
    "path_wf p" "find_AspathList T c k = Inr (a, c)" by (rule ac_entry_Some)
  have "pl_pathId ?p = k" "path_wf ?p" using a(4,5) by (simp_all add: path_wf_def split: option.splits)
  from ac_update_refines [OF c this] show ?thesis
    using a v by (simp add: modifyAspaValidationResultToAspathCache_def ac_entry_at_def)
qed

text \<open>Storing a new path of 1 to 255 hops adds its entry.\<close>

definition path_entry :: "u32 \<Rightarrow> u32 list \<Rightarrow> u32 \<Rightarrow> u32 \<Rightarrow> u32 \<Rightarrow> u16 \<Rightarrow> bool \<Rightarrow> u8 \<Rightarrow> PathListCacheTable" where
  "path_entry len ps pathId asType asRelDir af be res =
     \<lparr>pl_pathId = pathId, pl_hops = ucast (ucast len :: u8), pl_asPathList = Some (map (if be then ntohl else id) ps),
      pl_aspaResult = res, pl_asType = asType, pl_asRelDir = asRelDir, pl_afi = (if be then ntohs af else af), pl_lastModified = 0\<rparr>"

lemma ac_store_new:
  assumes T: "uthash_laws T" and c: "ac_ok T c" "ac_entry T c pathId = None"
    and a: "a \<noteq> 0" "ac_entries c a = None" and len: "0 < len" "len < 256" "length ps = unat len"
  shows "\<exists>p c'. newAspathListEntry len (Some ps) pathId asType asRelDir af be = Inr (Some p) \<and>
    p = \<lparr>apl_pathID = pathId, asPathLength = ucast len, asPathList = Some (map (if be then ntohl else id) ps), aspaValResult = 0,
         apl_asType = asType, apl_asRelDir = asRelDir, apl_afi = (if be then ntohs af else af), apl_lastModified = 0\<rparr> \<and>
    storeAspathList T a c (Some res) pathId asType (Some p) = Inr (1, c') \<and> ac_ok T c' \<and>
    ac_entry T c' = (ac_entry T c)(pathId \<mapsto> path_entry len ps pathId asType asRelDir af be (aspaResult (defResult res)))"
proof -
  have n: "unat (ucast len :: u8) = unat len" using len(2) by (simp add: unsigned_ucast_eq take_bit_eq_mod word_less_nat_alt)
  have byte: "unat (ucast b :: u16) = unat b" for b :: u8
    by (simp add: unsigned_ucast_eq take_bit_nat_eq_self_iff order_less_trans [OF unsigned_less])
  have pos: "0 < unat len" using len(1) by (simp add: word_less_nat_alt)
  define l where "l = map (if be then ntohl else id) ps"
  define p where "p = \<lparr>apl_pathID = pathId, asPathLength = ucast len, asPathList = Some l, aspaValResult = 0,
    apl_asType = asType, apl_asRelDir = asRelDir, apl_afi = (if be then ntohs af else af), apl_lastModified = 0\<rparr>"
  define e where "e = path_entry len ps pathId asType asRelDir af be (aspaResult (defResult res))"
  have e_id: "pl_pathId e = pathId" by (simp add: e_def path_entry_def)
  define c' where "c' = c\<lparr>aspathCacheTable := HASH_ADD T pathId a (aspathCacheTable c), ac_entries := (ac_entries c)(a \<mapsto> e)\<rparr>"
  have l: "length l = unat len" "l \<noteq> []" using len(3) pos by (auto simp: l_def)
  have lock: "ac_tableLock c = Unlocked" using c(1) by (simp add: ac_ok_def)
  have "path_wf e" using l len(2) n byte by (simp add: path_wf_def e_def path_entry_def l_def word_less_nat_alt)
  then have c': "ac_ok T c'" "ac_entry T c' = (ac_entry T c)(pathId \<mapsto> e)"
    using ac_add_refines [OF T c(1) _ a, of e] c(2) unfolding c'_def e_id by simp_all
  have new: "newAspathListEntry len (Some ps) pathId asType asRelDir af be = Inr (Some p)"
    using len by (auto simp: newAspathListEntry_def p_def l_def)
  have "find_AspathList T c pathId = Inr (0, c)" using find_AspathList_ok [OF c(1)] ac_entry_None [OF c(1)] c(2) by simp
  then have store: "storeAspathList T a c (Some res) pathId asType (Some p) = Inr (1, c')"
    using l n pos lock unfolding c'_def by (simp add: storeAspathList_def p_def e_def path_entry_def l_def add_AspathList_def)
  show ?thesis using new store c' p_def unfolding e_def l_def by blast
qed

section \<open>Properties\<close>

text \<open>An AS path of 1 to 255 hops that is not yet in the cache makes the whole round trip: \<open>newAspathListEntry\<close> builds
  its list, \<open>storeAspathList\<close> reports 1 and keeps the cache well formed, the entries of all other path identifiers
  stay as they are, and \<open>getAspathListFromAspathCache\<close> then returns exactly the stored list with the ASPA result it
  was stored with, which it also writes to the caller's result. Storing the path once more reports 0 and changes nothing.\<close>

lemma aspath_store_lookup:
  assumes T: "uthash_laws T" and c: "ac_ok T c" "ac_entry T c pathId = None" and pathId: "pathId \<noteq> 0"
    and a: "a \<noteq> 0" "ac_entries c a = None" and len: "0 < len" "len < 256" "length ps = unat len"
  shows "\<exists>p c'. newAspathListEntry len (Some ps) pathId asType asRelDir af be = Inr (Some p) \<and>
    asPathList p = Some (map (if be then ntohl else id) ps) \<and>
    storeAspathList T a c (Some res) pathId asType (Some p) = Inr (1, c') \<and> ac_ok T c' \<and>
    (\<forall>k. k \<noteq> pathId \<longrightarrow> ac_entry T c' k = ac_entry T c k) \<and>
    (\<forall>r. getAspathListFromAspathCache T c' pathId r =
       Inr (Some (p\<lparr>aspaValResult := aspaResult (defResult res)\<rparr>), r\<lparr>aspaResult := aspaResult (defResult res)\<rparr>, c')) \<and>
    (\<forall>b. storeAspathList T b c' (Some res) pathId asType (Some p) = Inr (0, c'))"
proof -
  have byte: "ucast (ucast b :: u16) = b" for b :: u8
    by (simp add: unsigned_ucast_eq take_bit_word_eq_self order_less_trans [OF unsigned_less])
  define e where "e = path_entry len ps pathId asType asRelDir af be (aspaResult (defResult res))"
  obtain p c' where p: "newAspathListEntry len (Some ps) pathId asType asRelDir af be = Inr (Some p)"
    "p = \<lparr>apl_pathID = pathId, asPathLength = ucast len, asPathList = Some (map (if be then ntohl else id) ps), aspaValResult = 0,
         apl_asType = asType, apl_asRelDir = asRelDir, apl_afi = (if be then ntohs af else af), apl_lastModified = 0\<rparr>"
    and c': "storeAspathList T a c (Some res) pathId asType (Some p) = Inr (1, c')" "ac_ok T c'" "ac_entry T c' = (ac_entry T c)(pathId \<mapsto> e)"
    using ac_store_new [OF T c a len, of asType asRelDir af be res] unfolding e_def by blast
  have "\<forall>r. getAspathListFromAspathCache T c' pathId r =
       Inr (Some (p\<lparr>aspaValResult := aspaResult (defResult res)\<rparr>), r\<lparr>aspaResult := aspaResult (defResult res)\<rparr>, c')"
    using ac_lookup [OF c'(2) _ pathId, of e] c'(3) byte by (simp add: e_def path_entry_def p(2))
  moreover have "\<forall>b. storeAspathList T b c' (Some res) pathId asType (Some p) = Inr (0, c')"
  proof -
    obtain a' where "a' \<noteq> 0" "find_AspathList T c' pathId = Inr (a', c')"
      using ac_entry_Some [OF c'(2), of pathId e] c'(3) by (metis fun_upd_same)
    then show ?thesis by (simp add: storeAspathList_def)
  qed
  ultimately show ?thesis using p c' by (intro exI [of _ p] exI [of _ c']) simp
qed

definition empty_aspath_cache :: "((u32 \<Rightarrow> addr) \<times> addr list) AspathCache" where
  "empty_aspath_cache = \<lparr>aspathCacheTable = HASH_NIL fun_table, ac_entries = Map.empty, ac_tableLock = Unlocked\<rparr>"

lemma empty_aspath_cache_ok: "ac_ok fun_table empty_aspath_cache" "ac_entry fun_table empty_aspath_cache k = None"
  by (simp_all add: empty_aspath_cache_def ac_ok_def ac_entry_def)

theorem aspath_store_lookup_witness:
  "\<exists>p c'. newAspathListEntry 2 (Some [65000, 65001]) 7 2 1 1 False = Inr (Some p) \<and> asPathList p = Some [65000, 65001] \<and>
     storeAspathList fun_table 1 empty_aspath_cache (Some unknown_default) 7 2 (Some p) = Inr (1, c') \<and>
     getAspathListFromAspathCache fun_table c' 7 (defResult unknown_default) =
       Inr (Some (p\<lparr>aspaValResult := aspaResult (defResult unknown_default)\<rparr>), defResult unknown_default, c')"
  using aspath_store_lookup [OF fun_table_laws empty_aspath_cache_ok, of 7 1 2 "[65000, 65001]" 2 1 1 False unknown_default]
  by (auto simp: empty_aspath_cache_def unknown_default_def)

text \<open>The length of an AS path is kept in eight bits by \<open>newAspathListEntry\<close>: a path of 256 hops or more is stored and
  returned as its first \<open>len mod 256\<close> hops, and the rest is lost without an error.\<close>

lemma aspath_length_truncated:
  assumes "ac_ok T c" "ac_entry T c pathId = None" "256 \<le> len" "length ps = unat len" "unat len mod 256 \<noteq> 0"
  shows "\<exists>p c'. newAspathListEntry len (Some ps) pathId asType asRelDir af False = Inr (Some p) \<and> asPathList p = Some ps \<and>
    storeAspathList T a c srxRes pathId asType (Some p) = Inr (1, c') \<and>
    map_option pl_asPathList (ac_entries c' a) = Some (Some (take (unat len mod 256) ps)) \<and> unat len mod 256 < length ps"
proof -
  have n: "unat (ucast len :: u8) = unat len mod 256" by (simp add: unsigned_ucast_eq take_bit_eq_mod)
  have big: "256 \<le> unat len" using assms(3) by (simp add: word_le_nat_alt)
  then have "len \<noteq> 0" by auto
  have mod: "unat len mod 256 < unat len" using big by (meson mod_less_divisor le_trans not_le zero_less_numeral)
  have lock: "ac_tableLock c = Unlocked" using assms(1) by (simp add: ac_ok_def)
  have "find_AspathList T c pathId = Inr (0, c)" using find_AspathList_ok [OF assms(1)] ac_entry_None [OF assms(1)] assms(2) by simp
  then show ?thesis using \<open>len \<noteq> 0\<close> n mod assms(4,5) lock
    by (simp add: newAspathListEntry_def storeAspathList_def add_AspathList_def Let_def)
qed

text \<open>\<open>releaseAspathCache\<close> destroys the lock before it empties the table under that lock.\<close>

lemma releaseAspathCache_uses_destroyed_lock: "releaseAspathCache T (Some c) = Inl UseAfterFree"
  by (simp add: releaseAspathCache_def emptyAspathCache_def releaseRWLock_def)

text \<open>The comparison of \<open>sortByPathId\<close> is not transitive.\<close>

lemma idSort_not_transitive:
  "\<exists>a b c. idSort a b < 0 \<and> idSort b c < 0 \<and> 0 < idSort a c"
proof -
  define e where "e k = \<lparr>pl_pathId = k, pl_hops = 0, pl_asPathList = None, pl_aspaResult = 0, pl_asType = 0, pl_asRelDir = 0,
    pl_afi = 0, pl_lastModified = 0\<rparr>" for k
  have "idSort (e 0) (e 0x60000000) < 0" "idSort (e 0x60000000) (e 0xC0000000) < 0" "0 < idSort (e 0) (e 0xC0000000)"
    by (simp_all add: idSort_def e_def)
  then show ?thesis by blast
qed

end
