(* ===== verification/Proxy_Map.thy ===== *)
theory Proxy_Map
  imports Update_Cache
begin

text \<open>
  The proxy map of \<open>server/server_connection_handler.c\<close>: an array of 256 elements that assigns the proxies (routers) to the
  internal client identifiers 1 to 255, with the number of mappings in an 8 bit counter. The conditional code for
  gRPC is not part of the model. The array has 256 elements in every state, so an index of 8 bits is always in range.
\<close>

section \<open>Data\<close>

definition MAX_PROXY_CLIENT_ELEMENTS :: nat where [simp]: "MAX_PROXY_CLIENT_ELEMENTS = 256"

record ProxyTable =
  proxyMap :: "ProxyClientMapping list"
  noMappings :: u8

definition zero_mapping :: ProxyClientMapping where
  "zero_mapping = \<lparr>proxyID = 0, socket = 0, isActive = False, preDefined = False, crashed = 0, updateCount = 0\<rparr>"

definition mapping_at :: "'a ProxyTable_scheme \<Rightarrow> u8 \<Rightarrow> ProxyClientMapping" where
  "mapping_at self clientID = proxyMap self ! unat clientID"

definition set_mapping :: "u8 \<Rightarrow> ProxyClientMapping \<Rightarrow> 'a ProxyTable_scheme \<Rightarrow> 'a ProxyTable_scheme" where
  "set_mapping clientID m self = self\<lparr>proxyMap := (proxyMap self)[unat clientID := m]\<rparr>"

section \<open>Operations\<close>

text \<open>\<open>findClientID\<close>: the search ends at the end of the array or after as many used elements as the counter says.\<close>

fun find_loop :: "ProxyClientMapping list \<Rightarrow> u32 \<Rightarrow> nat list \<Rightarrow> nat \<Rightarrow> nat" where
  "find_loop ms pid [] n = 0"
| "find_loop ms pid (i # is) n =
     (if 0 < n
      then if 0 < proxyID (ms ! i)
           then (if proxyID (ms ! i) = pid then i else find_loop ms pid is (n - 1))
           else find_loop ms pid is n
      else 0)"

definition findClientID :: "'a ProxyTable_scheme \<Rightarrow> u32 \<Rightarrow> u8" where
  "findClientID self pid = (if pid = 0 then 0
     else of_nat (find_loop (proxyMap self) pid [1..<MAX_PROXY_CLIENT_ELEMENTS] (unat (noMappings self))))"

fun create_loop :: "ProxyClientMapping list \<Rightarrow> nat list \<Rightarrow> u8" where
  "create_loop ms [] = 0"
| "create_loop ms (i # is) = (if proxyID (ms ! i) = 0 then of_nat i else create_loop ms is)"

definition createClientID :: "'a ProxyTable_scheme \<Rightarrow> u8" where
  "createClientID self = create_loop (proxyMap self) [1..<MAX_PROXY_CLIENT_ELEMENTS]"

text \<open>The test of \<open>addMapping\<close>: whether the mapping can be made.\<close>

definition mapping_possible :: "'a ProxyTable_scheme \<Rightarrow> u32 \<Rightarrow> u8 \<Rightarrow> addr \<Rightarrow> bool" where
  "mapping_possible self pid clientID cSocket =
     (let registeredClientID = findClientID self pid; m = mapping_at self clientID
      in if registeredClientID = 0 then proxyID m = 0 \<and> \<not> isActive m
         else if registeredClientID = clientID then \<not> isActive m \<or> socket m = cSocket
         else False)"

definition addMapping :: "'a ProxyTable_scheme \<Rightarrow> u32 \<Rightarrow> u8 \<Rightarrow> addr \<Rightarrow> bool \<Rightarrow> bool \<times> 'a ProxyTable_scheme" where
  "addMapping self pid clientID cSocket activate =
     (if mapping_possible self pid clientID cSocket
      then let m = mapping_at self clientID;
               self = (if proxyID m = 0 then self\<lparr>noMappings := noMappings self + 1\<rparr> else self);
               m = (if proxyID m = 0 then m\<lparr>proxyID := pid\<rparr> else m);
               m = m\<lparr>socket := cSocket, isActive := activate, crashed := 0\<rparr>;
               m = (if activate then m else m\<lparr>preDefined := True\<rparr>)
           in (True, set_mapping clientID m self)
      else (False, self))"

fun configure_loop :: "u32 list \<Rightarrow> nat list \<Rightarrow> 'a ProxyTable_scheme \<Rightarrow> bool \<times> 'a ProxyTable_scheme" where
  "configure_loop mappings [] self = (True, self)"
| "configure_loop mappings (idx # ids) self =
     (let (ok, self) = (if 0 < mappings ! idx then addMapping self (mappings ! idx) (of_nat idx) 0 False else (True, self));
          (ok', self) = configure_loop mappings ids self
      in (ok \<and> ok', self))"

definition configureProxyMap :: "'a ProxyTable_scheme \<Rightarrow> u32 list \<Rightarrow> bool \<times> 'a ProxyTable_scheme" where
  "configureProxyMap self mappings = configure_loop mappings [0..<MAX_PROXY_CLIENT_ELEMENTS] self"

definition setActivationFlag :: "'a ProxyTable_scheme \<Rightarrow> u8 \<Rightarrow> bool \<Rightarrow> bool \<times> 'a ProxyTable_scheme" where
  "setActivationFlag self clientID v =
     (if 0 < clientID \<and> 0 < proxyID (mapping_at self clientID)
      then (True, set_mapping clientID ((mapping_at self clientID)\<lparr>isActive := v\<rparr>) self)
      else (False, self))"

definition delMapping ::
  "'t UpdateCache \<Rightarrow> 'a ProxyTable_scheme \<Rightarrow> u8 \<Rightarrow> u16 \<Rightarrow> (bool \<times> 't UpdateCache \<times> 'a ProxyTable_scheme) cres" where
  "delMapping uc self clientID keepWindow =
     (let m = mapping_at self clientID
      in if isActive m then Inr (False, uc, self)
         else cbind (if 0 < updateCount m
                     then cbind (unregisterClientID uc clientID (Some m) (ucast keepWindow)) (\<lambda>(_, uc, m'). Inr (uc, the m'))
                     else Inr (uc, m)) (\<lambda>(uc, m).
           let m = (if \<not> preDefined m \<and> crashed m = 0 then m\<lparr>proxyID := 0, preDefined := False\<rparr> else m)
           in Inr (True, uc, set_mapping clientID (m\<lparr>socket := 0\<rparr>) self)))"

text \<open>\<open>now\<close> is the time of the call in seconds.\<close>

definition deactivateConnectionMapping ::
  "int \<Rightarrow> int \<Rightarrow> 't UpdateCache \<Rightarrow> 'a ProxyTable_scheme \<Rightarrow> u8 \<Rightarrow> bool \<Rightarrow> u16 \<Rightarrow> ('t UpdateCache \<times> 'a ProxyTable_scheme) cres" where
  "deactivateConnectionMapping defKeepWindow now uc self clientID crash keepWindow =
     (let keepWindow = (if keepWindow < word_of_int defKeepWindow then word_of_int defKeepWindow else keepWindow);
          self = set_mapping clientID ((mapping_at self clientID)\<lparr>isActive := False, crashed := (if crash then now else 0)\<rparr>) self
      in cbind (delMapping uc self clientID keepWindow) (\<lambda>(_, uc, self).
           Inr (uc, set_mapping clientID ((mapping_at self clientID)\<lparr>updateCount := 0\<rparr>) self)))"

section \<open>The invariant\<close>

text \<open>The used elements are counted and no proxy has two clients. An element without a proxy is not active, unless a proxy with the
  identifier zero was registered (\<open>zero\<close>).\<close>

definition used :: "'a ProxyTable_scheme \<Rightarrow> nat set" where
  "used s = {i. i < 256 \<and> proxyID (proxyMap s ! i) \<noteq> 0}"

definition pm_inv :: "bool \<Rightarrow> 'a ProxyTable_scheme \<Rightarrow> bool" where
  "pm_inv zero s \<longleftrightarrow> length (proxyMap s) = 256 \<and> card (used s) \<le> unat (noMappings s) \<and>
     (\<forall>i<256. \<not> zero \<longrightarrow> isActive (proxyMap s ! i) \<longrightarrow> i \<in> used s) \<and>
     (\<forall>i j. 0 < i \<longrightarrow> 0 < j \<longrightarrow> i \<in> used s \<longrightarrow> j \<in> used s \<longrightarrow> proxyID (proxyMap s ! i) = proxyID (proxyMap s ! j) \<longrightarrow> i = j)"

abbreviation pm_ok :: "'a ProxyTable_scheme \<Rightarrow> bool" where
  "pm_ok \<equiv> pm_inv False"

lemma pm_invD:
  assumes "pm_inv z s"
  shows "length (proxyMap s) = 256" "card (used s) \<le> unat (noMappings s)"
    and "i < 256 \<Longrightarrow> \<not> z \<Longrightarrow> isActive (proxyMap s ! i) \<Longrightarrow> i \<in> used s"
    and "0 < i \<Longrightarrow> 0 < j \<Longrightarrow> i \<in> used s \<Longrightarrow> j \<in> used s \<Longrightarrow> proxyID (proxyMap s ! i) = proxyID (proxyMap s ! j) \<Longrightarrow> i = j"
  using assms unfolding pm_inv_def by blast+

lemma pm_inv_mono: "pm_inv z s \<Longrightarrow> (z \<Longrightarrow> z') \<Longrightarrow> pm_inv z' s"
  unfolding pm_inv_def by blast

lemma finite_used [simp]: "finite (used s)"
  by (simp add: used_def)

lemma unat_u8 [simp]: "unat (c :: u8) < 256"
  using unsigned_less [of c] by simp

lemma find_loop_hit:
  assumes "distinct is" "card {i \<in> set is. proxyID (ms ! i) \<noteq> 0} \<le> n" "k \<in> set is" "proxyID (ms ! k) = pid" "pid \<noteq> 0"
    "\<And>i. i \<in> set is \<Longrightarrow> proxyID (ms ! i) = pid \<Longrightarrow> i = k"
  shows "find_loop ms pid is n = k"
  using assms
proof (induction "is" arbitrary: n)
  case (Cons i "is")
  let ?U = "\<lambda>is. {i \<in> set is. proxyID (ms ! i) \<noteq> 0}"
  have fin: "finite (?U js)" for js by simp
  have "k \<in> ?U (i # is)" using Cons.prems(3-5) by simp
  then have "0 < card (?U (i # is))" using card_gt_0_iff fin by blast
  then have n: "0 < n" using Cons.prems(2) by simp
  show ?case
  proof (cases "proxyID (ms ! i) = pid")
    case True
    then have "i = k" using Cons.prems(6) [of i] by simp
    then show ?thesis using True n Cons.prems(5) by (simp add: word_gt_0)
  next
    case False
    then have k: "k \<in> set is" using Cons.prems(3,4) by auto
    have rest: "find_loop ms pid is n' = k" if "card (?U is) \<le> n'" for n'
    proof (rule Cons.IH [OF _ that k Cons.prems(4,5)])
      show "distinct is" using Cons.prems(1) by simp
      show "j = k" if "j \<in> set is" "proxyID (ms ! j) = pid" for j using Cons.prems(6) [of j] that by simp
    qed
    show ?thesis
    proof (cases "proxyID (ms ! i) = 0")
      case True
      then have "?U (i # is) = ?U is" by auto
      then show ?thesis using True n rest Cons.prems(2) by simp
    next
      case used: False
      then have "?U (i # is) = insert i (?U is)" by auto
      then have "card (?U is) \<le> n - 1" using Cons.prems(1,2) by (auto simp: card_insert_if)
      then show ?thesis using used False n rest by (simp add: word_gt_0)
    qed
  qed
qed simp

lemma find_loop_miss: "(\<And>i. i \<in> set is \<Longrightarrow> proxyID (ms ! i) \<noteq> pid) \<Longrightarrow> find_loop ms pid is n = 0"
  by (induction "is" arbitrary: n) auto

text \<open>The look up is exact under the invariant.\<close>

lemma findClientID_hit:
  assumes ok: "pm_inv z s" and i: "0 < i" "i < 256" "proxyID (proxyMap s ! i) = pid" and pid: "pid \<noteq> 0"
  shows "findClientID s pid = of_nat i"
proof -
  have "{i \<in> set [1..<256]. proxyID (proxyMap s ! i) \<noteq> 0} \<subseteq> used s" by (auto simp: used_def)
  then have "card {i \<in> set [1..<256]. proxyID (proxyMap s ! i) \<noteq> 0} \<le> unat (noMappings s)"
    using card_mono [OF finite_used] pm_invD(2) [OF ok] le_trans by blast
  moreover have "j = i" if "j \<in> set [1..<256]" "proxyID (proxyMap s ! j) = pid" for j
    using pm_invD(4) [OF ok, of j i] that i pid by (simp add: used_def)
  ultimately have "find_loop (proxyMap s) pid [1..<256] (unat (noMappings s)) = i"
    using i pid by (intro find_loop_hit) auto
  then show ?thesis using pid by (simp add: findClientID_def)
qed

lemma findClientID_miss:
  "(\<And>i. 0 < i \<Longrightarrow> i < 256 \<Longrightarrow> proxyID (proxyMap s ! i) \<noteq> pid) \<Longrightarrow> findClientID s pid = 0"
  using find_loop_miss [of "[1..<256]" "proxyMap s" pid] by (simp add: findClientID_def)

lemma unat_of_nat_u8 [simp]: "i < 256 \<Longrightarrow> unat (of_nat i :: u8) = i"
  by (simp add: unat_of_nat)

lemma findClientID_zero_iff:
  assumes "pm_inv z s" "pid \<noteq> 0"
  shows "findClientID s pid = 0 \<longleftrightarrow> (\<forall>i. 0 < i \<longrightarrow> i < 256 \<longrightarrow> proxyID (proxyMap s ! i) \<noteq> pid)"
proof
  assume zero: "findClientID s pid = 0"
  show "\<forall>i. 0 < i \<longrightarrow> i < 256 \<longrightarrow> proxyID (proxyMap s ! i) \<noteq> pid"
  proof (intro allI impI notI)
    fix i assume i: "0 < i" "i < 256" "proxyID (proxyMap s ! i) = pid"
    have "(of_nat i :: u8) = 0" using findClientID_hit [OF assms(1) i assms(2)] zero by simp
    then have "unat (of_nat i :: u8) = 0" by simp
    then show False using i by simp
  qed
qed (rule findClientID_miss, blast)

lemma findClientID_nonzero:
  assumes "pm_inv z s" "pid \<noteq> 0" "findClientID s pid = c" "c \<noteq> 0"
  shows "proxyID (mapping_at s c) = pid"
proof -
  obtain i where i: "0 < i" "i < 256" "proxyID (proxyMap s ! i) = pid"
    using findClientID_zero_iff [OF assms(1,2)] assms(3,4) by auto
  then have "c = of_nat i" using findClientID_hit [OF assms(1) i assms(2)] assms(3) by simp
  then show ?thesis using i by (simp add: mapping_at_def)
qed

lemma set_mapping_nth:
  "length (proxyMap s) = 256 \<Longrightarrow> i < 256 \<Longrightarrow> proxyMap (set_mapping c m s) ! i = (if i = unat c then m else proxyMap s ! i)"
  by (simp add: set_mapping_def nth_list_update)

lemma set_mapping_sel [simp]:
  "noMappings (set_mapping c m s) = noMappings s" "length (proxyMap (set_mapping c m s)) = length (proxyMap s)"
  "length (proxyMap s) = 256 \<Longrightarrow> mapping_at (set_mapping c m s) c = m"
  by (simp_all add: set_mapping_def mapping_at_def)

lemma used_set_mapping:
  "length (proxyMap s) = 256 \<Longrightarrow> used (set_mapping c m s) = (if proxyID m = 0 then used s - {unat c} else insert (unat c) (used s))"
  by (auto simp: used_def set_mapping_nth split: if_splits)

lemma used_noMappings [simp]: "used (s\<lparr>noMappings := n\<rparr>) = used s"
  by (simp add: used_def)

lemma pm_set_ok:
  assumes ok: "pm_inv z s" and active: "\<not> z \<Longrightarrow> isActive m \<Longrightarrow> proxyID m \<noteq> 0"
    and fresh: "\<And>j. proxyID m \<noteq> 0 \<Longrightarrow> 0 < unat c \<Longrightarrow> 0 < j \<Longrightarrow> j \<in> used s \<Longrightarrow> j \<noteq> unat c \<Longrightarrow> proxyID (proxyMap s ! j) \<noteq> proxyID m"
    and count: "card (used (set_mapping c m s)) \<le> unat n"
  shows "pm_inv z (set_mapping c m (s\<lparr>noMappings := n\<rparr>))"
proof -
  have len: "length (proxyMap (s\<lparr>noMappings := n\<rparr>)) = 256" using pm_invD(1) [OF ok] by simp
  have used: "used (set_mapping c m (s\<lparr>noMappings := n\<rparr>)) = used (set_mapping c m s)"
    using len by (simp add: used_set_mapping pm_invD(1) [OF ok])
  have sub: "used (set_mapping c m s) \<subseteq> insert (unat c) (used s)" by (auto simp: used_set_mapping pm_invD(1) [OF ok])
  have nth: "proxyMap (set_mapping c m (s\<lparr>noMappings := n\<rparr>)) ! i = (if i = unat c then m else proxyMap s ! i)" if "i < 256" for i
    using set_mapping_nth [OF len that] by simp
  have bound: "i \<in> used s \<Longrightarrow> i < 256" for i by (simp add: used_def)
  show ?thesis
    unfolding pm_inv_def used
  proof (intro conjI allI impI)
    show "length (proxyMap (set_mapping c m (s\<lparr>noMappings := n\<rparr>))) = 256" using len by simp
    show "card (used (set_mapping c m s)) \<le> unat (noMappings (set_mapping c m (s\<lparr>noMappings := n\<rparr>)))" using count by simp
  next
    fix i assume i: "i < 256" "\<not> z" "isActive (proxyMap (set_mapping c m (s\<lparr>noMappings := n\<rparr>)) ! i)"
    show "i \<in> used (set_mapping c m s)"
      using i pm_invD(3) [OF ok, of i] active by (auto simp: nth used_set_mapping pm_invD(1) [OF ok] split: if_splits)
  next
    fix i j assume ij: "0 < i" "0 < j" "i \<in> used (set_mapping c m s)" "j \<in> used (set_mapping c m s)"
      "proxyID (proxyMap (set_mapping c m (s\<lparr>noMappings := n\<rparr>)) ! i) = proxyID (proxyMap (set_mapping c m (s\<lparr>noMappings := n\<rparr>)) ! j)"
    have in_used: "k \<in> used s \<or> k = unat c \<and> proxyID m \<noteq> 0" if "k \<in> used (set_mapping c m s)" for k
      using that by (auto simp: used_set_mapping pm_invD(1) [OF ok] split: if_splits)
    have lt: "i < 256" "j < 256" using ij(3,4) sub bound by auto
    have neq: "k \<noteq> unat c \<Longrightarrow> k \<in> used s" if "k \<in> used (set_mapping c m s)" for k using in_used [OF that] by blast
    have m: "unat c \<in> used (set_mapping c m s) \<Longrightarrow> proxyID m \<noteq> 0" by (auto simp: used_set_mapping pm_invD(1) [OF ok] split: if_splits)
    show "i = j"
      using ij(5) pm_invD(4) [OF ok ij(1,2)] fresh [of i] fresh [of j] neq [OF ij(3)] neq [OF ij(4)] m ij(1-4)
      unfolding nth [OF lt(1)] nth [OF lt(2)] by (cases "i = unat c"; cases "j = unat c") auto
  qed
qed

lemma addMapping_ok:
  assumes ok: "pm_inv z s" and pid: "pid = 0 \<longrightarrow> z" and room: "unat (noMappings s) < 255" and add: "addMapping s pid c sock act = (r, s')"
  shows "pm_inv z s'" "unat (noMappings s') \<le> Suc (unat (noMappings s))" "r \<Longrightarrow> proxyID (mapping_at s' c) = pid"
proof -
  have n: "unat (noMappings s + 1) = Suc (unat (noMappings s))" using room by (simp add: unat_word_ariths)
  let ?m = "mapping_at s c"
  have len: "length (proxyMap s) = 256" by (rule pm_invD(1) [OF ok])
  have "pm_inv z s' \<and> unat (noMappings s') \<le> Suc (unat (noMappings s)) \<and> (r \<longrightarrow> proxyID (mapping_at s' c) = pid)"
  proof (cases "mapping_possible s pid c sock")
    case False
    then show ?thesis using add ok by (simp add: addMapping_def)
  next
    case True
    define m where "m = (if act then ?m\<lparr>proxyID := pid, socket := sock, isActive := act, crashed := 0\<rparr>
      else ?m\<lparr>proxyID := pid, socket := sock, isActive := act, crashed := 0, preDefined := True\<rparr>)"
    have m: "proxyID m = pid" by (simp add: m_def)
    show ?thesis
    proof (cases "findClientID s pid = 0")
      case new: True
      then have free: "proxyID ?m = 0" using True by (simp add: mapping_possible_def Let_def)
      have s': "s' = set_mapping c m (s\<lparr>noMappings := noMappings s + 1\<rparr>)" "r"
        using add True free by (auto simp: addMapping_def Let_def m_def)
      have "pm_inv z s'" unfolding s'
      proof (rule pm_set_ok [OF ok])
        show "\<not> z \<Longrightarrow> isActive m \<Longrightarrow> proxyID m \<noteq> 0" using m pid by simp
        show "proxyID (proxyMap s ! j) \<noteq> proxyID m" if "proxyID m \<noteq> 0" "0 < j" "j \<in> used s" for j
          using findClientID_zero_iff [OF ok, of pid] new that m by (simp add: used_def)
        show "card (used (set_mapping c m s)) \<le> unat (noMappings s + 1)"
          using m n pm_invD(2) [OF ok] card_insert_le_m1 [of "Suc (unat (noMappings s))" "used s" "unat c"] card_Diff1_le [of "used s" "unat c"]
          by (simp add: used_set_mapping len)
      qed
      then show ?thesis using n s' len m by simp
    next
      case old: False
      then have reg: "findClientID s pid = c" using True by (simp add: mapping_possible_def Let_def split: if_splits)
      have pid: "pid \<noteq> 0" using old by (auto simp: findClientID_def)
      then have pm: "proxyID ?m = pid" using findClientID_nonzero [OF ok pid reg] old reg by simp
      then have mm: "?m\<lparr>proxyID := pid\<rparr> = ?m" by simp
      have s': "s' = set_mapping c m (s\<lparr>noMappings := noMappings s\<rparr>)" "r"
        using add True pm pid by (auto simp: addMapping_def Let_def m_def mm)
      have c: "unat c \<in> used s" using pm pid by (simp add: used_def mapping_at_def)
      have "pm_inv z s'" unfolding s'
      proof (rule pm_set_ok [OF ok])
        show "\<not> z \<Longrightarrow> isActive m \<Longrightarrow> proxyID m \<noteq> 0" using m pid by simp
        show "proxyID (proxyMap s ! j) \<noteq> proxyID m" if "0 < unat c" "0 < j" "j \<in> used s" "j \<noteq> unat c" for j
          using pm_invD(4) [OF ok that(2,1,3) c] that(4) pm m by (auto simp: mapping_at_def)
        show "card (used (set_mapping c m s)) \<le> unat (noMappings s)"
          using m pid c pm_invD(2) [OF ok] by (simp add: used_set_mapping len insert_absorb)
      qed
      then show ?thesis using s' len m by simp
    qed
  qed
  then show "pm_inv z s'" "unat (noMappings s') \<le> Suc (unat (noMappings s))" "r \<Longrightarrow> proxyID (mapping_at s' c) = pid" by simp_all
qed

text \<open>Unregistering changes nothing of the mapping but the number of updates.\<close>

lemma unregister_loop_mapping: "unregister_loop c t as uc m n = Inr (n', uc', m') \<Longrightarrow> \<exists>v. m' = m\<lparr>updateCount := v\<rparr>"
proof (induction "as" arbitrary: uc m n)
  case Nil
  then show ?case by (auto intro: exI [of _ "updateCount m"])
next
  case (Cons a "as")
  obtain uc1 m1 n1 v where m1: "m1 = m\<lparr>updateCount := v\<rparr>"
    and rest: "(if updateCount m1 = 0 then Inr (n1, uc1, m1) else unregister_loop c t as uc1 m1 n1) = Inr (n', uc', m')"
  proof (cases "a = 0")
    case True
    then show thesis using Cons.prems that [of m "updateCount m" n uc] by simp
  next
    case False
    then obtain e r e' where "entry_at uc a = Inr e" "deleteUpdateFromCache_entry c e t = Inr (r, e')"
      using Cons.prems by (auto simp: cbind_eq_Inr)
    then show thesis
      using Cons.prems False that [of m "updateCount m" n "set_entry a e' uc"]
        that [of "m\<lparr>updateCount := updateCount m - 1\<rparr>" "updateCount m - 1" "n + 1" "set_entry a e' uc"]
      by (cases r) simp_all
  qed
  show ?case using rest Cons.IH [of uc1 m1 n1] m1 by (auto split: if_splits)
qed

lemma unregisterClientID_mapping:
  assumes "unregisterClientID uc c (Some m) k = Inr (n, uc', m')"
  shows "\<exists>v. m' = Some (m\<lparr>updateCount := v\<rparr>)"
proof -
  have same: "\<exists>v. Some m = Some (m\<lparr>updateCount := v\<rparr>)" by (auto intro: exI [of _ "updateCount m"])
  show ?thesis using assms same
    by (auto simp: unregisterClientID_def cbind_eq_Inr split: if_splits dest!: unregister_loop_mapping)
qed

lemma delMapping_shape:
  assumes "delMapping uc s c kw = Inr (r, uc', s')"
  shows "s' = s \<or> (\<exists>m. s' = set_mapping c m s \<and> isActive m = isActive (mapping_at s c) \<and>
    (proxyID m = 0 \<and> \<not> isActive m \<or> proxyID m = proxyID (mapping_at s c)))"
proof (cases "isActive (mapping_at s c)")
  case True
  then show ?thesis using assms by (simp add: delMapping_def)
next
  case False
  let ?m = "mapping_at s c"
  obtain uc1 m1 where m1: "(if 0 < updateCount ?m
      then cbind (unregisterClientID uc c (Some ?m) (ucast kw)) (\<lambda>(_, uc, m'). Inr (uc, the m')) else Inr (uc, ?m)) = Inr (uc1, m1)"
    and s': "s' = set_mapping c ((if \<not> preDefined m1 \<and> crashed m1 = 0 then m1\<lparr>proxyID := 0, preDefined := False\<rparr> else m1)\<lparr>socket := 0\<rparr>) s"
    using assms False by (auto simp: delMapping_def Let_def cbind_eq_Inr)
  have "\<exists>v. m1 = ?m\<lparr>updateCount := v\<rparr>"
  proof (cases "0 < updateCount ?m")
    case True
    then show ?thesis using m1 by (auto simp: cbind_eq_Inr dest!: unregisterClientID_mapping)
  next
    case False
    then show ?thesis using m1 by (auto intro: exI [of _ "updateCount ?m"])
  qed
  then show ?thesis using False s' by auto
qed

lemma set_mapping_twice [simp]: "set_mapping c m (set_mapping c m' s) = set_mapping c m s"
  by (simp add: set_mapping_def)

text \<open>A mapping that is changed without getting a new proxy keeps the invariant.\<close>

lemma pm_keep_ok:
  assumes ok: "pm_inv z s" and m: "\<not> z \<Longrightarrow> isActive m \<Longrightarrow> proxyID m \<noteq> 0" "proxyID m = 0 \<or> proxyID m = proxyID (mapping_at s c)"
  shows "pm_inv z (set_mapping c m s)"
proof -
  have len: "length (proxyMap s) = 256" by (rule pm_invD(1) [OF ok])
  have c: "unat c \<in> used s" if "proxyID m \<noteq> 0" using that m(2) by (auto simp: used_def mapping_at_def)
  have "pm_inv z (set_mapping c m (s\<lparr>noMappings := noMappings s\<rparr>))"
  proof (rule pm_set_ok [OF ok m(1)])
    show "proxyID (proxyMap s ! j) \<noteq> proxyID m" if j: "proxyID m \<noteq> 0" "0 < unat c" "0 < j" "j \<in> used s" "j \<noteq> unat c" for j
      using pm_invD(4) [OF ok j(3,2,4) c [OF j(1)]] j(1,5) m(2) by (auto simp: mapping_at_def)
    show "card (used (set_mapping c m s)) \<le> unat (noMappings s)"
    proof (cases "proxyID m = 0")
      case True
      then show ?thesis using pm_invD(2) [OF ok] card_Diff1_le [of "used s" "unat c"] by (simp add: used_set_mapping len)
    next
      case False
      then show ?thesis using pm_invD(2) [OF ok] c by (simp add: used_set_mapping len insert_absorb)
    qed
  qed
  then show ?thesis by simp
qed

lemma deactivate_shape:
  assumes "length (proxyMap s) = 256" "deactivateConnectionMapping dkw now uc s c crash kw = Inr (uc', s')"
  shows "\<exists>m. s' = set_mapping c m s \<and> \<not> isActive m \<and> (proxyID m = 0 \<or> proxyID m = proxyID (mapping_at s c)) \<and> updateCount m = 0"
proof -
  define s1 where "s1 = set_mapping c ((mapping_at s c)\<lparr>isActive := False, crashed := (if crash then now else 0)\<rparr>) s"
  obtain r s2 where s2: "delMapping uc s1 c (if kw < word_of_int dkw then word_of_int dkw else kw) = Inr (r, uc', s2)"
    and s': "s' = set_mapping c ((mapping_at s2 c)\<lparr>updateCount := 0\<rparr>) s2"
    using assms(2) by (auto simp: deactivateConnectionMapping_def Let_def s1_def cbind_eq_Inr)
  have "\<exists>m. s2 = set_mapping c m s \<and> \<not> isActive m \<and> (proxyID m = 0 \<or> proxyID m = proxyID (mapping_at s c))"
    using delMapping_shape [OF s2] assms(1) by (auto simp: s1_def)
  then show ?thesis using s' assms(1) by fastforce
qed

lemma deactivate_ok:
  assumes "pm_inv z s" "deactivateConnectionMapping dkw now uc s c crash kw = Inr (uc', s')"
  shows "pm_inv z s' \<and> noMappings s' = noMappings s"
  using deactivate_shape [OF pm_invD(1) [OF assms(1)] assms(2)] pm_keep_ok [OF assms(1)] by fastforce

lemma setActivationFlag_ok:
  assumes "pm_inv z s" "setActivationFlag s c v = (r, s')"
  shows "pm_inv z s' \<and> noMappings s' = noMappings s"
proof (cases "0 < c \<and> 0 < proxyID (mapping_at s c)")
  case True
  then have "pm_inv z (set_mapping c ((mapping_at s c)\<lparr>isActive := v\<rparr>) s)" by (intro pm_keep_ok [OF assms(1)]) auto
  then show ?thesis using assms(2) True by (auto simp: setActivationFlag_def)
next
  case False
  then show ?thesis using assms by (auto simp: setActivationFlag_def)
qed

section \<open>Reachable proxy maps\<close>

text \<open>The maps the server can get to, with the identifiers of the proxies and the number of registrations on the way. Registering an update for a client changes
  the counter of its mapping, outside of this component.\<close>

definition empty_map :: ProxyTable where
  "empty_map = \<lparr>proxyMap = replicate 256 zero_mapping, noMappings = 0\<rparr>"

inductive pm_reach :: "u32 set \<Rightarrow> nat \<Rightarrow> 't UpdateCache \<Rightarrow> ProxyTable \<Rightarrow> bool" where
  init: "pm_reach {} 0 uc empty_map"
| register: "pm_reach ids n uc s \<Longrightarrow> addMapping s pid c sock act = (r, s') \<Longrightarrow> pm_reach (insert pid ids) (Suc n) uc s'"
| activation: "pm_reach ids n uc s \<Longrightarrow> setActivationFlag s c v = (r, s') \<Longrightarrow> pm_reach ids n uc s'"
| deactivate: "pm_reach ids n uc s \<Longrightarrow> deactivateConnectionMapping dkw now uc s c crash kw = Inr (uc', s') \<Longrightarrow> pm_reach ids n uc' s'"
| updates: "pm_reach ids n uc s \<Longrightarrow> pm_reach ids n uc' (set_mapping c ((mapping_at s c)\<lparr>updateCount := k\<rparr>) s)"

lemma empty_map_used: "used empty_map = {}"
  by (auto simp: used_def empty_map_def zero_mapping_def)

lemma empty_map_ok: "pm_ok empty_map"
  unfolding pm_inv_def empty_map_used by (simp add: empty_map_def zero_mapping_def)

lemma pm_reach_ok: "pm_reach ids n uc s \<Longrightarrow> n < 256 \<Longrightarrow> pm_inv (0 \<in> ids) s \<and> unat (noMappings s) \<le> n"
proof (induction rule: pm_reach.induct)
  case (init uc)
  then show ?case using empty_map_ok by (simp add: empty_map_def)
next
  case (register ids n uc s pid c sock act r s')
  then have ok: "pm_inv (0 \<in> ids) s" "unat (noMappings s) \<le> n" "unat (noMappings s) < 255" by simp_all
  then have "pm_inv (0 \<in> insert pid ids) s" by (auto elim: pm_inv_mono)
  then show ?case using addMapping_ok(1,2) [OF _ _ ok(3) register.hyps(2)] ok(2) by fastforce
next
  case (activation ids n uc s c v r s')
  then show ?case using setActivationFlag_ok by fastforce
next
  case (deactivate ids n uc s dkw now c crash kw uc' s')
  then show ?case using deactivate_ok by fastforce
next
  case (updates ids n uc s uc' c k)
  have "isActive (mapping_at s c) \<Longrightarrow> proxyID (mapping_at s c) \<noteq> 0" if "0 \<notin> ids"
    using updates that pm_invD(3) [of "0 \<in> ids" s "unat c"] by (auto simp: mapping_at_def used_def)
  then show ?case using updates pm_keep_ok [of "0 \<in> ids" s "(mapping_at s c)\<lparr>updateCount := k\<rparr>" c] by simp
qed

section \<open>Properties\<close>

text \<open>C12. As long as fewer than 256 registrations were made since the start, the proxy map is a proper assignment: every proxy, other than one with the identifier 0,
  has at most one client identifier from 1 to 255, \<open>findClientID\<close> returns exactly that identifier and 0
  for a proxy without one; and unless a proxy with the identifier 0 was ever registered, which the server accepts, only elements that have a proxy are active.\<close>

theorem proxy_map_invariant:
  assumes "pm_reach ids n uc s" "n < 256" "pid \<noteq> 0"
  shows "(\<forall>i. 0 < i \<and> i < 256 \<and> proxyID (proxyMap s ! i) = pid \<longrightarrow> findClientID s pid = of_nat i \<and> unat (findClientID s pid) = i) \<and>
    (findClientID s pid = 0 \<longleftrightarrow> (\<forall>i. 0 < i \<and> i < 256 \<longrightarrow> proxyID (proxyMap s ! i) \<noteq> pid)) \<and>
    (0 \<notin> ids \<longrightarrow> (\<forall>i. i < 256 \<and> isActive (proxyMap s ! i) \<longrightarrow> proxyID (proxyMap s ! i) \<noteq> 0))"
proof -
  have ok: "pm_inv (0 \<in> ids) s" using pm_reach_ok [OF assms(1,2)] by blast
  have "findClientID s pid = of_nat i" if "0 < i \<and> i < 256 \<and> proxyID (proxyMap s ! i) = pid" for i
    using findClientID_hit [OF ok _ _ _ assms(3)] that by blast
  then show ?thesis
    using findClientID_zero_iff [OF ok assms(3)] pm_invD(3) [OF ok] by (auto simp: used_def)
qed

definition one_proxy :: ProxyTable where
  "one_proxy = \<lparr>proxyMap = (replicate 256 zero_mapping)[1 := zero_mapping\<lparr>proxyID := 7, socket := 5, isActive := True\<rparr>], noMappings = 1\<rparr>"

lemma free_registration:
  assumes "findClientID s pid = 0" "mapping_at s c = zero_mapping"
  shows "addMapping s pid c sock True =
    (True, set_mapping c (zero_mapping\<lparr>proxyID := pid, socket := sock, isActive := True\<rparr>) (s\<lparr>noMappings := noMappings s + 1\<rparr>))"
  using assms by (simp add: addMapping_def mapping_possible_def zero_mapping_def)

lemma one_proxy_reach: "pm_reach {7} 1 uc one_proxy"
proof -
  have "findClientID empty_map 7 = 0" by (rule findClientID_miss) (simp add: empty_map_def zero_mapping_def)
  moreover have "mapping_at empty_map 1 = zero_mapping" by (simp add: mapping_at_def empty_map_def)
  ultimately have "addMapping empty_map 7 1 5 True = (True, one_proxy)"
    using free_registration [of empty_map 7 1 5] by (simp add: one_proxy_def set_mapping_def empty_map_def)
  from pm_reach.register [OF pm_reach.init this] show ?thesis by simp
qed

theorem proxy_map_invariant_witness: "findClientID one_proxy 7 = 1 \<and> findClientID one_proxy 8 = 0"
proof -
  note inv = proxy_map_invariant [OF one_proxy_reach [of sample_cache]]
  have "\<forall>i. 0 < i \<and> i < 256 \<longrightarrow> proxyID (proxyMap one_proxy ! i) \<noteq> 8"
    by (auto simp: one_proxy_def zero_mapping_def nth_list_update)
  then have "findClientID one_proxy 8 = 0" using inv [of 8] by simp
  moreover have seven: "0 < (1 :: nat) \<and> (1 :: nat) < 256 \<and> proxyID (proxyMap one_proxy ! 1) = 7" by (simp add: one_proxy_def)
  have "(1 :: nat) < 256" "(7 :: u32) \<noteq> 0" by simp_all
  from conjunct1 [OF inv [OF this], rule_format, OF seven] have "findClientID one_proxy 7 = 1" by simp
  ultimately show ?thesis by blast
qed

text \<open>One proxy stays connected while others come and go: after each of them the map is as before, but the counter has
  grown.\<close>

definition busy :: "nat \<Rightarrow> ProxyTable" where
  "busy k = one_proxy\<lparr>noMappings := of_nat k\<rparr>"

lemma one_proxy_nth: "i < 256 \<Longrightarrow> proxyMap one_proxy ! i = (if i = 1 then zero_mapping\<lparr>proxyID := 7, socket := 5, isActive := True\<rparr> else zero_mapping)"
  by (simp add: one_proxy_def nth_list_update)

lemma one_proxy_length [simp]: "length (proxyMap one_proxy) = 256"
  by (simp add: one_proxy_def)

definition visitor :: ProxyClientMapping where
  "visitor = zero_mapping\<lparr>proxyID := 8, socket := 6, isActive := True\<rparr>"

lemma busy_visitor: "addMapping (busy k) 8 2 6 True = (True, set_mapping 2 visitor (busy (Suc k)))"
proof -
  have "findClientID (busy k) 8 = 0"
    by (rule findClientID_miss) (auto simp: busy_def one_proxy_nth zero_mapping_def)
  moreover have "mapping_at (busy k) 2 = zero_mapping" by (simp add: busy_def mapping_at_def one_proxy_nth)
  ultimately show ?thesis
    using free_registration [of "busy k" 8 2 6] by (simp add: busy_def visitor_def add.commute)
qed

lemma visitor_leaves:
  "deactivateConnectionMapping 0 0 uc (set_mapping 2 visitor (busy k)) 2 False 0 = Inr (uc, busy k)"
proof -
  have "set_mapping 2 zero_mapping (busy k) = busy k"
    using list_update_id [of "proxyMap one_proxy" 2] by (simp add: set_mapping_def busy_def one_proxy_nth)
  moreover have "mapping_at (busy k) 2 = zero_mapping" by (simp add: busy_def mapping_at_def one_proxy_nth)
  moreover have "length (proxyMap (busy k)) = 256" by (simp add: busy_def)
  ultimately show ?thesis
    by (simp add: deactivateConnectionMapping_def delMapping_def visitor_def zero_mapping_def Let_def)
qed

lemma busy_reach: "pm_reach (if k = 0 then {7} else {7, 8}) (Suc k) uc (busy (Suc k))"
proof (induction k)
  case 0
  then show ?case using one_proxy_reach by (simp add: busy_def one_proxy_def)
next
  case (Suc k)
  have "insert 8 (if k = 0 then {7} else {7, 8}) = {7, 8 :: u32}" by auto
  with pm_reach.register [OF Suc busy_visitor] have "pm_reach {7, 8} (Suc (Suc k)) uc (set_mapping 2 visitor (busy (Suc (Suc k))))" by simp
  from pm_reach.deactivate [OF this visitor_leaves] show ?case by simp
qed

text \<open>The bound is needed: the counter of the mappings is never decreased and wraps at 256. One proxy that stays connected
  while other proxies come and go is not found any more once 256 registrations were made, and a second connection with
  its identifier is then accepted: two active clients with the same proxy.\<close>

lemma proxy_map_duplicate:
  "\<exists>s i j. pm_reach {7, 8} 257 uc s \<and> i < 256 \<and> j < 256 \<and> i \<noteq> j \<and> proxyID (proxyMap s ! i) = 7 \<and> proxyID (proxyMap s ! j) = 7 \<and>
    isActive (proxyMap s ! i) \<and> isActive (proxyMap s ! j)"
proof -
  define s where "s = set_mapping 2 visitor (busy 256)"
  define s' where "s' = set_mapping 3 (zero_mapping\<lparr>proxyID := 7, socket := 9, isActive := True\<rparr>) (s\<lparr>noMappings := 1\<rparr>)"
  have "pm_reach {7, 8} 255 uc (busy 255)" using busy_reach [of 254] by simp
  moreover have "insert 8 {7, 8} = {7, 8 :: u32}" by auto
  ultimately have s: "pm_reach {7, 8} 256 uc s" using pm_reach.register [of "{7, 8}" 255 uc "busy 255", OF _ busy_visitor] by (simp add: s_def)
  have no: "noMappings s = 0" by (simp add: s_def busy_def)
  have nth: "proxyMap s ! i = (if i = 2 then visitor else proxyMap one_proxy ! i)" if "i < 256" for i
    using that by (simp add: s_def busy_def set_mapping_nth)
  have "find_loop ms 7 is 0 = 0" for ms "is" by (cases "is") simp_all
  then have "findClientID s 7 = 0" using no by (simp add: findClientID_def)
  moreover have "mapping_at s 3 = zero_mapping" by (simp add: mapping_at_def nth one_proxy_nth)
  ultimately have "addMapping s 7 3 9 True = (True, s')"
    using free_registration [of s 7 3 9] no by (simp add: s'_def)
  from pm_reach.register [OF s this] have "pm_reach {7, 8} 257 uc s'" by simp
  moreover have len: "length (proxyMap (s\<lparr>noMappings := 1\<rparr>)) = 256" by (simp add: s_def busy_def)
  have "proxyMap s' ! 1 = proxyMap one_proxy ! 1" "proxyMap s' ! 3 = zero_mapping\<lparr>proxyID := 7, socket := 9, isActive := True\<rparr>"
    unfolding s'_def by (subst set_mapping_nth [OF len]; simp add: nth)+
  ultimately show ?thesis by (intro exI [of _ s'] exI [of _ "1 :: nat"] exI [of _ "3 :: nat"]) (simp add: one_proxy_nth)
qed

end
