(* ===== verification/Command_Queue.thy ===== *)
theory Command_Queue
  imports SList Rw_Lock SRx_Defs
begin

text \<open>
  The command queue, \<open>server/command_queue.c\<close>: the requests that wait for the command handler, in a linked list whose
  nodes own the command items. A pointer marks the next command to fetch; commands that were fetched stay in the list until they are
  deleted. The list is the heap list of the list component, the packet of a command has the type parameter \<open>'d\<close>, and the results
  of the allocations are arguments. A consumer that has to wait for a command has no result (\<open>None\<close>).
\<close>

section \<open>Data\<close>

definition COMMAND_TYPE_SRX_PROXY :: u32 where [simp]: "COMMAND_TYPE_SRX_PROXY = 0"
definition COMMAND_TYPE_SHUTDOWN :: u32 where [simp]: "COMMAND_TYPE_SHUTDOWN = 1"

record 'd CommandQueueItem =
  ci_serverSocket :: addr
  ci_client :: addr
  cmdType :: u32
  dataID :: u32
  consumed :: bool
  dataLength :: u32
  ci_data :: "'d option"

record 'd CommandQueue =
  cq_heap :: sl_heap
  cq_items :: "addr \<rightharpoonup> 'd CommandQueueItem"
  queue :: SList
  nextItemNode :: addr
  cmdQueueMutex :: Mutex
  totalItems :: int
  unprocessedItems :: int
  alive :: bool

definition item_size :: nat where "item_size = 40"

definition item_at :: "'d CommandQueue \<Rightarrow> addr \<Rightarrow> 'd CommandQueueItem cres" where
  "item_at self a = (case cq_items self a of
      Some it \<Rightarrow> if a = 0 then Inl NullDeref else Inr it
    | None \<Rightarrow> Inl (if a = 0 then NullDeref else UseAfterFree))"

section \<open>Operations\<close>

definition initializeCommandQueue :: "bool \<Rightarrow> bool \<Rightarrow> 'd CommandQueue \<Rightarrow> bool \<times> 'd CommandQueue" where
  "initializeCommandQueue mutex_ok cond_ok self =
     (if alive self then (False, self)
      else let (ok, m) = initMutex mutex_ok (cmdQueueMutex self); self = self\<lparr>cmdQueueMutex := m\<rparr>
           in if \<not> ok then (False, self)
              else if \<not> cond_ok then (False, self\<lparr>cmdQueueMutex := releaseMutex (cmdQueueMutex self)\<rparr>)
              else (True, self\<lparr>totalItems := 0, unprocessedItems := 0, queue := initSList (queue self), nextItemNode := 0, alive := True\<rparr>))"

text \<open>Deleting the item just added, on the error paths of \<open>queueCommand\<close>.\<close>

definition drop_item :: "'d CommandQueue \<Rightarrow> addr \<Rightarrow> 'd CommandQueue cres option" where
  "drop_item self a = tbind (deleteFromSList (cq_heap self) (queue self) a) (\<lambda>(_, h, l). Some (Inr (self\<lparr>cq_heap := h, queue := l\<rparr>)))"

text \<open>\<open>malloc1\<close> and \<open>malloc2\<close> are the node and the item, \<open>data_ok\<close> tells whether the packet could be allocated. A failure of
  that allocation returns with the mutex locked.\<close>

definition queueCommand ::
  "addr option \<Rightarrow> addr option \<Rightarrow> bool \<Rightarrow> 'd CommandQueue \<Rightarrow> u32 \<Rightarrow> addr \<Rightarrow> addr \<Rightarrow> u32 \<Rightarrow> u32 \<Rightarrow> 'd option \<Rightarrow>
     (bool \<times> 'd CommandQueue) cres option" where
  "queueCommand malloc1 malloc2 data_ok self ct svrSock client did len dat =
     (if \<not> alive self then Some (Inr (False, self))
      else tbind (Some (lockMutex (cmdQueueMutex self))) (\<lambda>mtx.
        tbind (Some (appendToSList malloc1 malloc2 (cq_heap self) (queue self) item_size)) (\<lambda>(newItem, h, l).
          if newItem = 0 then Some (Inl NullDeref)
          else let self = self\<lparr>cq_heap := h, queue := l, cmdQueueMutex := mtx,
                               nextItemNode := (if nextItemNode self = 0 then last_node l else nextItemNode self)\<rparr>
               in if dat \<noteq> None \<and> \<not> data_ok then tbind (drop_item self newItem) (\<lambda>self. Some (Inr (False, self)))
                  else if dat \<noteq> None \<and> 1000000 \<le> len
                  then tbind (drop_item self newItem) (\<lambda>self. tbind (Some (unlockMutex (cmdQueueMutex self))) (\<lambda>mtx.
                         Some (Inr (False, self\<lparr>cmdQueueMutex := mtx\<rparr>))))
                  else tbind (Some (unlockMutex (cmdQueueMutex self))) (\<lambda>mtx.
                         Some (Inr (True, self\<lparr>cq_items := (cq_items self)(newItem \<mapsto>
                             \<lparr>ci_serverSocket = svrSock, ci_client = client, cmdType = ct, dataID = did, consumed = False,
                              dataLength = len, ci_data = dat\<rparr>),
                           totalItems := totalItems self + 1, unprocessedItems := unprocessedItems self + 1,
                           cmdQueueMutex := mtx\<rparr>))))))"

text \<open>\<open>fetchNextCommand\<close>: the null pointer for a queue that is not alive; without a command the thread waits.\<close>

definition fetchNextCommand :: "'d CommandQueue \<Rightarrow> (addr \<times> 'd CommandQueue) cres option" where
  "fetchNextCommand self =
     (if \<not> alive self then Some (Inr (0, self))
      else tbind (Some (lockMutex (cmdQueueMutex self))) (\<lambda>mtx.
        if unprocessedItems self = 0 then None
        else tbind (Some (rd (cq_heap self) (nextItemNode self))) (\<lambda>n.
             tbind (Some (item_at self (ndata n))) (\<lambda>it.
             tbind (Some (getNextNodeOfSListNode (cq_heap self) (nextItemNode self))) (\<lambda>nxt.
             tbind (Some (unlockMutex mtx)) (\<lambda>mtx.
               Some (Inr (ndata n, self\<lparr>cq_items := (cq_items self)(ndata n \<mapsto> it\<lparr>consumed := True\<rparr>),
                 unprocessedItems := unprocessedItems self - 1, nextItemNode := nxt, cmdQueueMutex := mtx\<rparr>))))))))"

text \<open>\<open>deleteCommand\<close>: the packet is freed; the item itself is not, the list only frees its node.\<close>

definition deleteCommand :: "'d CommandQueue \<Rightarrow> addr \<Rightarrow> 'd CommandQueue cres option" where
  "deleteCommand self a =
     tbind (Some (lockMutex (cmdQueueMutex self))) (\<lambda>mtx.
     tbind (Some (if a = 0 then Inr self
                  else cbind (item_at self a) (\<lambda>it. Inr (self\<lparr>cq_items := (cq_items self)(a \<mapsto> it\<lparr>ci_data := None\<rparr>)\<rparr>)))) (\<lambda>self.
     tbind (deleteFromSList (cq_heap self) (queue self) a) (\<lambda>(_, h, l).
     tbind (Some (unlockMutex mtx)) (\<lambda>mtx.
       Some (Inr (self\<lparr>cq_heap := h, queue := l, totalItems := totalItems self - 1, cmdQueueMutex := mtx\<rparr>))))))"

partial_function (option) free_packets :: "'d CommandQueue \<Rightarrow> addr \<Rightarrow> 'd CommandQueue cres option" where
  "free_packets self node =
     (if node = 0 then Some (Inr self)
      else case rd (cq_heap self) node of
          Inl f \<Rightarrow> Some (Inl f)
        | Inr n \<Rightarrow> (case item_at self (ndata n) of
              Inl f \<Rightarrow> Some (Inl f)
            | Inr it \<Rightarrow> free_packets (self\<lparr>cq_items := (cq_items self)(ndata n \<mapsto> it\<lparr>ci_data := None\<rparr>)\<rparr>) (nnext n)))"

text \<open>\<open>removeAllCommands\<close> frees all nodes and items but leaves the pointer to the next item.\<close>

definition removeAllCommands :: "'d CommandQueue \<Rightarrow> 'd CommandQueue cres option" where
  "removeAllCommands self =
     tbind (Some (lockMutex (cmdQueueMutex self))) (\<lambda>mtx.
     tbind (free_packets self (root (queue self))) (\<lambda>self.
     tbind (emptySList (cq_heap self) (queue self)) (\<lambda>(h, l).
     tbind (Some (unlockMutex mtx)) (\<lambda>mtx.
       let dead = blocks (cq_heap self) - blocks h;
           self = self\<lparr>cq_items := (\<lambda>a. if a \<in> dead then None else cq_items self a), cq_heap := h, queue := l,
                       totalItems := lsize l, cmdQueueMutex := mtx\<rparr>
       in Some (Inr (self\<lparr>unprocessedItems := (if nextItemNode self = 0 then 0 else totalItems self)\<rparr>))))))"

definition releaseCommandQueue :: "'d CommandQueue option \<Rightarrow> 'd CommandQueue option cres option" where
  "releaseCommandQueue self = (case self of
      None \<Rightarrow> Some (Inr None)
    | Some q \<Rightarrow>
        tbind (Some (lockMutex (cmdQueueMutex q))) (\<lambda>mtx. tbind (Some (unlockMutex mtx)) (\<lambda>mtx.
        tbind (removeAllCommands (q\<lparr>alive := False, cmdQueueMutex := mtx\<rparr>)) (\<lambda>q.
        tbind (releaseSList (cq_heap q) (queue q)) (\<lambda>h.
          Some (Inr (Some (q\<lparr>cq_heap := h, cmdQueueMutex := releaseMutex (cmdQueueMutex q)\<rparr>))))))))"

definition getTotalQueueSize :: "'d CommandQueue \<Rightarrow> int" where
  "getTotalQueueSize self = totalItems self"

definition getUnprocessedQueueSize :: "'d CommandQueue \<Rightarrow> int" where
  "getUnprocessedQueueSize self = unprocessedItems self"

section \<open>What the command handler relies on\<close>

text \<open>A work queue: commands wait in the order they were pushed, a worker takes the first one, works on it and reports it
  as finished.\<close>

partial_function (option) serve ::
  "('s \<Rightarrow> ('a \<times> 's) cres option) \<Rightarrow> ('s \<Rightarrow> 'a \<Rightarrow> 'i option) \<Rightarrow> ('s \<Rightarrow> 'a \<Rightarrow> 's cres option) \<Rightarrow> ('i \<Rightarrow> bool) \<Rightarrow>
     ('i \<Rightarrow> 'e \<Rightarrow> 'e cres) \<Rightarrow> 's \<Rightarrow> 'e \<Rightarrow> ('s \<times> 'e) cres option" where
  "serve fetch item finish stop process s e = (case fetch s of
      None \<Rightarrow> None
    | Some r \<Rightarrow> (case r of
          Inl f \<Rightarrow> Some (Inl f)
        | Inr p \<Rightarrow> (case item (snd p) (fst p) of
              None \<Rightarrow> Some (Inl NullDeref)
            | Some i \<Rightarrow> (case (if stop i then Inr e else process i e) of
                  Inl f \<Rightarrow> Some (Inl f)
                | Inr e' \<Rightarrow> (case finish (snd p) (fst p) of
                      None \<Rightarrow> None
                    | Some r' \<Rightarrow> (case r' of
                          Inl f \<Rightarrow> Some (Inl f)
                        | Inr s' \<Rightarrow> if stop i then Some (Inr (s', e')) else serve fetch item finish stop process s' e'))))))"

fun push_all :: "('m \<Rightarrow> 's \<Rightarrow> 'i \<Rightarrow> (bool \<times> 's) cres option) \<Rightarrow> 's \<Rightarrow> ('m \<times> 'i) list \<Rightarrow> 's cres option" where
  "push_all push s [] = Some (Inr s)"
| "push_all push s ((m, i) # mis) = tbind (push m s i) (\<lambda>(_, s). push_all push s mis)"

fun pairwise_apart :: "('m \<Rightarrow> 'm \<Rightarrow> bool) \<Rightarrow> 'm list \<Rightarrow> bool" where
  "pairwise_apart apart [] \<longleftrightarrow> True"
| "pairwise_apart apart (m # ms) \<longleftrightarrow> list_all (apart m) ms \<and> pairwise_apart apart ms"

locale work_queue =
  fixes inv :: "'s \<Rightarrow> bool"
    and pending :: "'s \<Rightarrow> 'i list"
    and inflight :: "'s \<Rightarrow> 'a list"
    and usable :: "'m \<Rightarrow> 'i \<Rightarrow> 's \<Rightarrow> bool"
    and apart :: "'m \<Rightarrow> 'm \<Rightarrow> bool"
    and push :: "'m \<Rightarrow> 's \<Rightarrow> 'i \<Rightarrow> (bool \<times> 's) cres option"
    and fetch :: "'s \<Rightarrow> ('a \<times> 's) cres option"
    and item :: "'s \<Rightarrow> 'a \<Rightarrow> 'i option"
    and finish :: "'s \<Rightarrow> 'a \<Rightarrow> 's cres option"
  assumes push_ok: "inv s \<Longrightarrow> usable m i s \<Longrightarrow>
      \<exists>s'. push m s i = Some (Inr (True, s')) \<and> inv s' \<and> pending s' = pending s @ [i] \<and> inflight s' = inflight s \<and>
        (\<forall>m' i'. usable m' i' s \<longrightarrow> apart m m' \<longrightarrow> usable m' i' s')"
    and fetch_ok: "inv s \<Longrightarrow> pending s = i # is \<Longrightarrow>
      \<exists>a s'. fetch s = Some (Inr (a, s')) \<and> inv s' \<and> pending s' = is \<and> item s' a = Some i \<and> inflight s' = inflight s @ [a]"
    and fetch_wait: "inv s \<Longrightarrow> pending s = [] \<Longrightarrow> fetch s = None"
    and finish_ok: "inv s \<Longrightarrow> a \<in> set (inflight s) \<Longrightarrow>
      \<exists>s'. finish s a = Some (Inr s') \<and> inv s' \<and> pending s' = pending s \<and> inflight s' = remove1 a (inflight s)"
begin

text \<open>Commands pushed with separate memory wait in their order.\<close>

lemma push_all_ok:
  assumes "inv s" "pairwise_apart apart (map fst mis)" "\<forall>(m, i)\<in>set mis. usable m i s"
  shows "\<exists>s'. push_all push s mis = Some (Inr s') \<and> inv s' \<and> pending s' = pending s @ map snd mis \<and> inflight s' = inflight s"
  using assms
proof (induction mis arbitrary: s)
  case (Cons mi mis)
  obtain m i where mi: "mi = (m, i)" by (cases mi)
  have "usable m i s" using Cons.prems(3) mi by simp
  then obtain s1 where s1: "push m s i = Some (Inr (True, s1))" "inv s1" "pending s1 = pending s @ [i]" "inflight s1 = inflight s"
    "\<forall>m' i'. usable m' i' s \<longrightarrow> apart m m' \<longrightarrow> usable m' i' s1"
    using push_ok [OF Cons.prems(1)] by blast
  have "\<forall>(m', i')\<in>set mis. usable m' i' s1"
  proof (clarify)
    fix m' i' assume mi': "(m', i') \<in> set mis"
    have "usable m' i' s" using Cons.prems(3) mi' by auto
    moreover have "apart m m'" using Cons.prems(2) mi mi' by (force simp: list_all_iff)
    ultimately show "usable m' i' s1" using s1(5) by blast
  qed
  then show ?case using Cons.IH [OF s1(2)] Cons.prems(2) s1(1,3,4) mi by auto
qed simp

text \<open>A worker with nothing else in flight works off the commands in order until the one that stops it.\<close>

lemma serve_ok:
  assumes "inv s" "inflight s = []" "pending s = is @ x # rest" "stop x" "\<forall>i\<in>set is. \<not> stop i" "cfold process is e = Inr e'"
  shows "\<exists>s'. serve fetch item finish stop process s e = Some (Inr (s', e')) \<and> inv s' \<and> inflight s' = [] \<and> pending s' = rest"
  using assms
proof (induction "is" arbitrary: s e)
  case Nil
  obtain a s1 where s1: "fetch s = Some (Inr (a, s1))" "inv s1" "pending s1 = rest" "item s1 a = Some x" "inflight s1 = [a]"
    using fetch_ok [OF Nil(1), of x rest] Nil(2,3) by auto
  obtain s2 where s2: "finish s1 a = Some (Inr s2)" "inv s2" "pending s2 = rest" "inflight s2 = []"
    using finish_ok [OF s1(2), of a] s1(3,5) by auto
  show ?case using s1 s2 Nil(4,6) by (subst serve.simps) simp
next
  case (Cons i "is")
  obtain a s1 where s1: "fetch s = Some (Inr (a, s1))" "inv s1" "pending s1 = is @ x # rest" "item s1 a = Some i" "inflight s1 = [a]"
    using fetch_ok [OF Cons(2), of i "is @ x # rest"] Cons(3,4) by auto
  obtain s2 where s2: "finish s1 a = Some (Inr s2)" "inv s2" "pending s2 = is @ x # rest" "inflight s2 = []"
    using finish_ok [OF s1(2), of a] s1(3,5) by auto
  obtain e1 where e1: "process i e = Inr e1" "cfold process is e1 = Inr e'" using Cons(7) by (auto simp: cbind_eq_Inr)
  have "serve fetch item finish stop process s e = serve fetch item finish stop process s2 e1"
    using s1 s2 e1(1) Cons(6) by (subst serve.simps) simp
  then show ?case using Cons.IH [OF s2(2,4,3) Cons(5) _ e1(2)] Cons(6) by simp
qed

end

section \<open>The queue implements the contract\<close>

type_synonym 'd command = "addr \<times> addr \<times> u32 \<times> u32 \<times> u32 \<times> 'd option"

definition command_of :: "'d CommandQueueItem \<Rightarrow> 'd command" where
  "command_of it = (ci_serverSocket it, ci_client it, cmdType it, dataID it, dataLength it, ci_data it)"

definition cq_inv :: "'d CommandQueue \<Rightarrow> addr list \<Rightarrow> addr list \<Rightarrow> bool" where
  "cq_inv q xs ys \<longleftrightarrow> slist_ok (cq_heap q) (queue q) (xs @ ys) \<and> nextItemNode q = (if ys = [] then 0 else hd ys) \<and>
     totalItems q = int (length xs + length ys) \<and> unprocessedItems q = int (length ys) \<and>
     distinct (contents (cq_heap q) (xs @ ys)) \<and> 0 \<notin> set (contents (cq_heap q) (xs @ ys)) \<and>
     set (contents (cq_heap q) (xs @ ys)) \<subseteq> dom (cq_items q) \<and> cmdQueueMutex q = MutexFree \<and> alive q"

definition cq_ok :: "'d CommandQueue \<Rightarrow> bool" where
  "cq_ok q \<longleftrightarrow> (\<exists>xs ys. cq_inv q xs ys)"

definition cq_taken :: "'d CommandQueue \<Rightarrow> nat" where
  "cq_taken q = nat (totalItems q - unprocessedItems q)"

definition cq_inflight :: "'d CommandQueue \<Rightarrow> addr list" where
  "cq_inflight q = contents (cq_heap q) (take (cq_taken q) (slist_nodes (cq_heap q) (queue q)))"

definition cq_item :: "'d CommandQueue \<Rightarrow> addr \<Rightarrow> 'd command option" where
  "cq_item q a = map_option command_of (cq_items q a)"

definition cq_pending :: "'d CommandQueue \<Rightarrow> 'd command list" where
  "cq_pending q = map (\<lambda>x. the (cq_item q (data_at (cq_heap q) x))) (drop (cq_taken q) (slist_nodes (cq_heap q) (queue q)))"

definition cq_push :: "addr \<times> addr \<Rightarrow> 'd CommandQueue \<Rightarrow> 'd command \<Rightarrow> (bool \<times> 'd CommandQueue) cres option" where
  "cq_push m q i = (case i of (ss, cl, ct, did, len, dat) \<Rightarrow> queueCommand (Some (fst m)) (Some (snd m)) True q ct ss cl did len dat)"

definition cq_usable :: "addr \<times> addr \<Rightarrow> 'd command \<Rightarrow> 'd CommandQueue \<Rightarrow> bool" where
  "cq_usable m i q \<longleftrightarrow> fst m \<noteq> 0 \<and> nodes (cq_heap q) (fst m) = None \<and> snd m \<noteq> 0 \<and> cq_items q (snd m) = None \<and>
     (case i of (ss, cl, ct, did, len, dat) \<Rightarrow> dat = None \<or> len < 1000000)"

definition cq_apart :: "addr \<times> addr \<Rightarrow> addr \<times> addr \<Rightarrow> bool" where
  "cq_apart m m' \<longleftrightarrow> fst m \<noteq> fst m' \<and> snd m \<noteq> snd m'"

lemma cq_views:
  assumes "cq_inv q xs ys"
  shows "cq_inflight q = contents (cq_heap q) xs" "cq_pending q = map (\<lambda>x. the (cq_item q (data_at (cq_heap q) x))) ys"
    "cq_taken q = length xs" "slist_nodes (cq_heap q) (queue q) = xs @ ys"
proof -
  have ok: "slist_ok (cq_heap q) (queue q) (xs @ ys)" "cq_taken q = length xs" using assms by (simp_all add: cq_inv_def cq_taken_def)
  then show "cq_inflight q = contents (cq_heap q) xs" "cq_pending q = map (\<lambda>x. the (cq_item q (data_at (cq_heap q) x))) ys"
    "cq_taken q = length xs" "slist_nodes (cq_heap q) (queue q) = xs @ ys"
    by (simp_all add: slist_nodes_eq cq_inflight_def cq_pending_def)
qed

lemma cq_push_ok:
  assumes inv: "cq_inv q xs ys" and u: "cq_usable m i q"
  shows "\<exists>q'. cq_push m q i = Some (Inr (True, q')) \<and> cq_inv q' xs (ys @ [fst m]) \<and>
    cq_pending q' = cq_pending q @ [i] \<and> cq_inflight q' = cq_inflight q \<and>
    (\<forall>m' i'. cq_usable m' i' q \<longrightarrow> cq_apart m m' \<longrightarrow> cq_usable m' i' q')"
proof -
  obtain a d where m: "m = (a, d)" by (cases m)
  obtain ss cl ct did len dat where i: "i = (ss, cl, ct, did, len, dat)" by (cases i)
  let ?h = "cq_heap q" and ?l = "queue q" and ?ns = "xs @ ys"
  have ok: "slist_ok ?h ?l ?ns" and dom: "set (contents ?h ?ns) \<subseteq> dom (cq_items q)" using inv by (simp_all add: cq_inv_def)
  have a: "a \<noteq> 0" "nodes ?h a = None" "d \<noteq> 0" "cq_items q d = None" "dat = None \<or> len < 1000000" using u m i by (simp_all add: cq_usable_def)
  have new: "a \<notin> set ?ns" using ok a(2) path_mem by (fastforce simp: slist_ok_def)
  have sz: "lsize ?l = int (length ?ns)" using ok by (simp add: slist_ok_def)
  obtain h' l' where h': "insertIntoSList (Some a) (Some d) ?h ?l (int (length ?ns)) item_size = Inr (d, h', l')"
    "slist_ok h' l' (?ns @ [a])" "contents h' (?ns @ [a]) = contents ?h ?ns @ [d]" "dom (nodes h') = insert a (dom (nodes ?h))"
    using insertIntoSList_ok [OF ok order_refl a(1) new, of item_size d] a(3) by (auto simp: item_size_def)
  have app: "appendToSList (Some a) (Some d) ?h ?l item_size = Inr (d, h', l')" using h'(1) sz by (simp add: appendToSList_def)
  have last: "last_node l' = a" using h'(2) by (simp add: slist_ok_def)
  define it where "it = \<lparr>ci_serverSocket = ss, ci_client = cl, cmdType = ct, dataID = did, consumed = False, dataLength = len, ci_data = dat\<rparr>"
  define q' where "q' = q\<lparr>cq_heap := h', queue := l', nextItemNode := (if nextItemNode q = 0 then a else nextItemNode q),
    cq_items := (cq_items q)(d \<mapsto> it), totalItems := totalItems q + 1, unprocessedItems := unprocessedItems q + 1\<rparr>"
  have "cmdQueueMutex q = MutexFree" "alive q" using inv by (simp_all add: cq_inv_def)
  then have push: "cq_push m q i = Some (Inr (True, q'))"
    using a(3,5) by (auto simp: cq_push_def i m queueCommand_def app last q'_def it_def Let_def)
  have fresh: "d \<notin> set (contents ?h ?ns)" using dom a(4) by blast
  have cs: "contents h' xs = contents ?h xs" "contents h' ys = contents ?h ys" "data_at h' a = d" using h'(3) by simp_all
  have "ys \<noteq> [] \<Longrightarrow> hd ys \<noteq> 0" using ok path_mem by (fastforce simp: slist_ok_def)
  then have inv': "cq_inv q' xs (ys @ [a])"
    using inv h'(2) cs fresh dom a(3) unfolding cq_inv_def q'_def by (auto simp del: map_eq_conv)
  have "data_at h' x = data_at ?h x \<and> data_at ?h x \<noteq> d" if "x \<in> set ys" for x
    using cs(2) fresh that by auto
  then have "\<forall>x\<in>set ys. cq_item q' (data_at h' x) = cq_item q (data_at ?h x)" by (simp add: cq_item_def q'_def)
  then have "cq_pending q' = cq_pending q @ [i]"
    unfolding cq_views(2) [OF inv'] cq_views(2) [OF inv] by (simp add: q'_def cq_item_def cs(3) it_def command_of_def i)
  moreover have "cq_inflight q' = cq_inflight q"
    unfolding cq_views(1) [OF inv'] cq_views(1) [OF inv] using cs(1) by (simp add: q'_def)
  moreover have "cq_usable m' i' q'" if "cq_usable m' i' q" "cq_apart m m'" for m' i'
  proof -
    have "fst m' \<notin> dom (nodes ?h)" "fst m' \<noteq> a" using that m by (auto simp: cq_usable_def cq_apart_def)
    then have "nodes h' (fst m') = None" using h'(4) by blast
    then show ?thesis using that m by (simp add: cq_usable_def cq_apart_def q'_def)
  qed
  ultimately show ?thesis using push inv' m by auto
qed

lemma cq_fetch_ok:
  assumes inv: "cq_inv q xs (y # ys)"
  shows "\<exists>q'. fetchNextCommand q = Some (Inr (data_at (cq_heap q) y, q')) \<and> cq_inv q' (xs @ [y]) ys \<and>
    cq_pending q = the (cq_item q' (data_at (cq_heap q) y)) # cq_pending q' \<and> cq_item q' (data_at (cq_heap q) y) \<noteq> None \<and>
    cq_inflight q' = cq_inflight q @ [data_at (cq_heap q) y]"
proof -
  let ?h = "cq_heap q"
  have ok: "slist_ok ?h (queue q) (xs @ y # ys)" and nxt: "nextItemNode q = y" and n: "unprocessedItems q = int (length ys) + 1"
    and lock: "cmdQueueMutex q = MutexFree" "alive q" using inv by (simp_all add: cq_inv_def)
  obtain nd where nd: "y \<noteq> 0" "nodes ?h y = Some nd" "path ?h (nnext nd) ys 0"
    using ok by (auto simp: slist_ok_def split: option.splits)
  then have d: "data_at ?h y = ndata nd" by (simp add: data_at_def)
  obtain it where it: "cq_items q (ndata nd) = Some it" "ndata nd \<noteq> 0" using inv d by (auto simp: cq_inv_def)
  define q' where "q' = q\<lparr>cq_items := (cq_items q)(ndata nd \<mapsto> it\<lparr>consumed := True\<rparr>), unprocessedItems := unprocessedItems q - 1,
    nextItemNode := nnext nd\<rparr>"
  have fetch: "fetchNextCommand q = Some (Inr (ndata nd, q'))"
    using lock n nxt nd it by (simp add: fetchNextCommand_def item_at_def getNextNodeOfSListNode_def q'_def)
  have "nnext nd = (if ys = [] then 0 else hd ys)" using nd(3) by (cases ys) auto
  then have inv': "cq_inv q' (xs @ [y]) ys" using inv it unfolding cq_inv_def q'_def by auto
  have same: "cq_item q' a = cq_item q a" for a using it by (simp add: cq_item_def q'_def command_of_def)
  have "cq_pending q = the (cq_item q' (ndata nd)) # cq_pending q'"
    unfolding cq_views(2) [OF inv'] cq_views(2) [OF inv] same using d by (simp add: q'_def)
  moreover have "cq_inflight q' = cq_inflight q @ [ndata nd]"
    unfolding cq_views(1) [OF inv'] cq_views(1) [OF inv] using d by (simp add: q'_def)
  moreover have "cq_item q' (ndata nd) \<noteq> None" unfolding same using it by (simp add: cq_item_def)
  ultimately show ?thesis unfolding d using fetch inv' by blast
qed

lemma cq_finish_ok:
  assumes inv: "cq_inv q xs ys" and a: "a \<in> set (cq_inflight q)"
  shows "\<exists>q' xs'. deleteCommand q a = Some (Inr q') \<and> cq_inv q' xs' ys \<and> cq_pending q' = cq_pending q \<and>
    cq_inflight q' = remove1 a (cq_inflight q)"
proof -
  let ?h = "cq_heap q"
  from a obtain c where "c \<in> set xs" and c: "data_at ?h c = a" using cq_views(1) [OF inv] by auto
  then obtain us vs where xs: "xs = us @ c # vs" by (meson split_list)
  have ok: "slist_ok ?h (queue q) (us @ c # (vs @ ys))" and dist: "distinct (contents ?h (us @ c # vs @ ys))"
    and lock: "cmdQueueMutex q = MutexFree" "alive q" using inv by (simp_all add: cq_inv_def xs)
  obtain it where it: "cq_items q a = Some it" "a \<noteq> 0" using inv c by (auto simp: cq_inv_def xs)
  have a: "a \<notin> set (contents ?h us)" "a \<notin> set (contents ?h (vs @ ys))" using dist c by auto
  obtain h' l' where h': "deleteFromSList ?h (queue q) a = Some (Inr (True, h', l'))" "slist_ok h' l' (us @ vs @ ys)"
    "\<forall>x. x \<noteq> c \<longrightarrow> data_at h' x = data_at ?h x"
    using deleteFromSList_node [OF ok c a(1)] by auto
  define q' where "q' = q\<lparr>cq_items := (cq_items q)(a \<mapsto> it\<lparr>ci_data := None\<rparr>), cq_heap := h', queue := l', totalItems := totalItems q - 1\<rparr>"
  have del: "deleteCommand q a = Some (Inr q')"
    using lock it h'(1) by (simp add: deleteCommand_def item_at_def q'_def)
  have "c \<notin> set (us @ vs @ ys)" using ok by (simp add: slist_ok_def)
  then have same: "data_at h' x = data_at ?h x" if "x \<in> set (us @ vs @ ys)" for x using h'(3) that by metis
  then have cs: "contents h' us = contents ?h us" "contents h' vs = contents ?h vs" "contents h' ys = contents ?h ys" by simp_all
  have inv': "cq_inv q' (us @ vs) ys" using inv h'(2) cs it unfolding cq_inv_def q'_def xs by (auto simp del: map_eq_conv)
  have "cq_item q' (data_at h' x) = cq_item q (data_at ?h x)" if "x \<in> set ys" for x
    using a(2) that same by (auto simp: cq_item_def q'_def)
  then have "cq_pending q' = cq_pending q"
    unfolding cq_views(2) [OF inv'] cq_views(2) [OF inv] by (simp add: q'_def)
  moreover have "cq_inflight q' = remove1 a (cq_inflight q)"
    unfolding cq_views(1) [OF inv'] cq_views(1) [OF inv] using cs c a(1) by (simp add: q'_def xs remove1_append)
  ultimately show ?thesis using del inv' by blast
qed

interpretation cq: work_queue cq_ok cq_pending cq_inflight cq_usable cq_apart cq_push fetchNextCommand cq_item deleteCommand
proof
  fix q :: "'d CommandQueue" and m i
  assume "cq_ok q" "cq_usable m i q"
  then show "\<exists>q'. cq_push m q i = Some (Inr (True, q')) \<and> cq_ok q' \<and> cq_pending q' = cq_pending q @ [i] \<and> cq_inflight q' = cq_inflight q \<and>
      (\<forall>m' i'. cq_usable m' i' q \<longrightarrow> cq_apart m m' \<longrightarrow> cq_usable m' i' q')"
    using cq_push_ok unfolding cq_ok_def by blast
next
  fix q :: "'d CommandQueue" and i "is"
  assume "cq_ok q" and p: "cq_pending q = i # is"
  then obtain xs ys where inv: "cq_inv q xs ys" unfolding cq_ok_def by blast
  then obtain y ys' where ys: "ys = y # ys'" using cq_views(2) [OF inv] p by (cases ys) auto
  obtain q' where "fetchNextCommand q = Some (Inr (data_at (cq_heap q) y, q'))" "cq_inv q' (xs @ [y]) ys'"
    "cq_pending q = the (cq_item q' (data_at (cq_heap q) y)) # cq_pending q'" "cq_item q' (data_at (cq_heap q) y) \<noteq> None"
    "cq_inflight q' = cq_inflight q @ [data_at (cq_heap q) y]"
    using cq_fetch_ok inv ys by blast
  then show "\<exists>a q'. fetchNextCommand q = Some (Inr (a, q')) \<and> cq_ok q' \<and> cq_pending q' = is \<and> cq_item q' a = Some i \<and>
      cq_inflight q' = cq_inflight q @ [a]"
    using p unfolding cq_ok_def by auto
next
  fix q :: "'d CommandQueue"
  assume "cq_ok q" "cq_pending q = []"
  then obtain xs ys where inv: "cq_inv q xs ys" and "ys = []" using cq_views(2) unfolding cq_ok_def by fastforce
  then show "fetchNextCommand q = None" by (simp add: cq_inv_def fetchNextCommand_def)
next
  fix q :: "'d CommandQueue" and a
  assume "cq_ok q" "a \<in> set (cq_inflight q)"
  then show "\<exists>q'. deleteCommand q a = Some (Inr q') \<and> cq_ok q' \<and> cq_pending q' = cq_pending q \<and> cq_inflight q' = remove1 a (cq_inflight q)"
    using cq_finish_ok unfolding cq_ok_def by blast
qed

section \<open>Stale pointers\<close>

text \<open>A queue whose next pointer is left at a node that was freed: the next command does not repair it, and the command
  handler reads the freed node.\<close>

definition stale :: "'d CommandQueue \<Rightarrow> bool" where
  "stale q \<longleftrightarrow> (\<exists>xs. slist_ok (cq_heap q) (queue q) xs) \<and> nextItemNode q \<noteq> 0 \<and> nodes (cq_heap q) (nextItemNode q) = None \<and>
     cmdQueueMutex q = MutexFree \<and> alive q \<and> unprocessedItems q = 0"

lemma stale_push_fetch:
  assumes q: "stale q" and a: "a \<noteq> 0" "nodes (cq_heap q) a = None" "d \<noteq> 0" "dat = None \<or> len < 1000000" and fresh: "a \<noteq> nextItemNode q"
  shows "\<exists>q'. queueCommand (Some a) (Some d) True q ct ss cl did len dat = Some (Inr (True, q')) \<and>
    fetchNextCommand q' = Some (Inl UseAfterFree)"
proof -
  obtain xs where xs: "slist_ok (cq_heap q) (queue q) xs" using q by (auto simp: stale_def)
  have new: "a \<notin> set xs" using xs a(2) path_mem by (fastforce simp: slist_ok_def)
  have sz: "lsize (queue q) = int (length xs)" using xs by (simp add: slist_ok_def)
  obtain h' l' where h': "insertIntoSList (Some a) (Some d) (cq_heap q) (queue q) (int (length xs)) item_size = Inr (d, h', l')"
    "dom (nodes h') = insert a (dom (nodes (cq_heap q)))"
    using insertIntoSList_ok [OF xs order_refl a(1) new, of item_size d] a(3) by (auto simp: item_size_def)
  then have "appendToSList (Some a) (Some d) (cq_heap q) (queue q) item_size = Inr (d, h', l')" using sz by (simp add: appendToSList_def)
  moreover have "nextItemNode q \<notin> dom (nodes h')" using h'(2) q fresh by (auto simp: stale_def)
  then have "rd h' (nextItemNode q) = Inl UseAfterFree" using q by (auto simp: rd_def stale_def split: option.splits)
  ultimately show ?thesis using q a(3,4)
    by (auto simp: stale_def queueCommand_def fetchNextCommand_def Let_def)
qed

text \<open>Rejecting a command that is too large leaves such a queue when no other command waits.\<close>

lemma rejected_command_stale:
  assumes inv: "cq_inv q xs []" and a: "a \<noteq> 0" "nodes (cq_heap q) a = None" "d \<noteq> 0" "cq_items q d = None" and len: "1000000 \<le> len"
  shows "\<exists>q'. queueCommand (Some a) (Some d) True q ct ss cl did len (Some x) = Some (Inr (False, q')) \<and> stale q' \<and> nextItemNode q' = a"
proof -
  let ?h = "cq_heap q"
  have ok: "slist_ok ?h (queue q) xs" and dom: "set (contents ?h xs) \<subseteq> dom (cq_items q)" and lock: "cmdQueueMutex q = MutexFree" "alive q"
    and n: "unprocessedItems q = 0" "nextItemNode q = 0" using inv by (simp_all add: cq_inv_def)
  have new: "a \<notin> set xs" using ok a(2) path_mem by (fastforce simp: slist_ok_def)
  have sz: "lsize (queue q) = int (length xs)" using ok by (simp add: slist_ok_def)
  obtain h' l' where h': "insertIntoSList (Some a) (Some d) ?h (queue q) (int (length xs)) item_size = Inr (d, h', l')"
    "slist_ok h' l' (xs @ [a])" "contents h' (xs @ [a]) = contents ?h xs @ [d]"
    using insertIntoSList_ok [OF ok order_refl a(1) new, of item_size d] a(3) by (auto simp: item_size_def)
  then have app: "appendToSList (Some a) (Some d) ?h (queue q) item_size = Inr (d, h', l')" using sz by (simp add: appendToSList_def)
  have last: "last_node l' = a" using h'(2) by (simp add: slist_ok_def)
  have "d \<notin> set (contents h' xs)" using h'(3) dom a(4) by auto
  then obtain h2 l2 where del: "deleteFromSList h' l' d = Some (Inr (True, h2, l2))" "slist_ok h2 l2 xs" "dom (nodes h2) = dom (nodes h') - {a}"
    using deleteFromSList_node [of h' l' xs a "[]" d] h'(2,3) by auto
  then have "nodes h2 a = None" by blast
  then show ?thesis using lock n a(1,3) len del(1,2)
    by (auto simp: queueCommand_def app last Let_def drop_item_def stale_def)
qed

lemma free_packets_ok:
  assumes "path (cq_heap q) p xs 0" "set (contents (cq_heap q) xs) \<subseteq> dom (cq_items q)" "0 \<notin> set (contents (cq_heap q) xs)"
  shows "\<exists>its. free_packets q p = Some (Inr (q\<lparr>cq_items := its\<rparr>))"
  using assms
proof (induction xs arbitrary: q p)
  case Nil
  then show ?case by (subst free_packets.simps) (auto intro: exI [of _ "cq_items q"])
next
  case (Cons x xs)
  then obtain n where n: "p = x" "x \<noteq> 0" "nodes (cq_heap q) x = Some n" "path (cq_heap q) (nnext n) xs 0" by (auto split: option.splits)
  then obtain it where it: "cq_items q (ndata n) = Some it" "ndata n \<noteq> 0" using Cons.prems(2,3) by (auto simp: data_at_def)
  let ?q = "q\<lparr>cq_items := (cq_items q)(ndata n \<mapsto> it\<lparr>ci_data := None\<rparr>)\<rparr>"
  have "\<exists>its. free_packets ?q (nnext n) = Some (Inr (?q\<lparr>cq_items := its\<rparr>))"
    using Cons.prems(2,3) n(4) by (intro Cons.IH) auto
  then show ?case using n it by (subst free_packets.simps) (auto simp: item_at_def)
qed

lemma removeAllCommands_stale:
  assumes inv: "cq_inv q xs (y # ys)"
  shows "\<exists>q'. removeAllCommands q = Some (Inr q') \<and> stale q' \<and> nextItemNode q' = y \<and> totalItems q' = 0 \<and>
    nodes (cq_heap q') = (\<lambda>x. if x \<in> set (xs @ y # ys) then None else nodes (cq_heap q) x)"
proof -
  let ?h = "cq_heap q" and ?ns = "xs @ y # ys"
  have ok: "slist_ok ?h (queue q) ?ns" and lock: "cmdQueueMutex q = MutexFree" "alive q" and nxt: "nextItemNode q = y"
    using inv by (simp_all add: cq_inv_def)
  obtain its where its: "free_packets q (root (queue q)) = Some (Inr (q\<lparr>cq_items := its\<rparr>))"
    using free_packets_ok [of q "root (queue q)" ?ns] ok inv unfolding slist_ok_def cq_inv_def by blast
  obtain h' where h': "release_loop ?h (root (queue q)) = Some (Inr h')" "nodes h' = (\<lambda>x. if x \<in> set ?ns then None else nodes ?h x)"
    using release_loop_ok [of ?h "root (queue q)" ?ns] ok unfolding slist_ok_def by blast
  have "0 < lsize (queue q)" using ok by (simp add: slist_ok_def)
  then have "emptySList ?h (queue q) = Some (Inr (h', initSList (queue q)))" using h'(1) by (simp add: emptySList_def releaseSList_def)
  then have "removeAllCommands q = Some (Inr (q\<lparr>cq_items := (\<lambda>a. if a \<in> blocks ?h - blocks h' then None else cq_items (q\<lparr>cq_items := its\<rparr>) a), cq_heap := h',
      queue := initSList (queue q), totalItems := 0, cmdQueueMutex := MutexFree, unprocessedItems := 0\<rparr>))"
    using lock its by (simp add: removeAllCommands_def Let_def initSList_def)
  moreover have "y \<noteq> 0" using ok path_mem by (fastforce simp: slist_ok_def)
  moreover have "slist_ok h' (initSList (queue q)) []" by (simp add: slist_ok_def initSList_def)
  ultimately show ?thesis using h'(2) nxt lock by (auto simp: stale_def intro!: exI [of _ "[]"])
qed

end
