(* ===== verification/Packet_Queue.thy ===== *)
theory Packet_Queue
  imports Rw_Lock Fifo_Store
begin

text \<open>
  The two packet queues of the server: the receiver queue of \<open>server/server_connection_handler.c\<close>, between the sockets and the
  request processing, and the send queue of \<open>server/srx_packet_sender.c\<close>. Both are the same code: elements linked from
  a head to a tail pointer with a counter, a mutex and a condition. An element is at an address and has a next pointer; the
  payload (socket, client and copy of the packet) has the type \<open>'e\<close>. A consumer that has to wait has no result
  (\<open>None\<close>).
\<close>

section \<open>Data\<close>

record 'e pq_node =
  pq_elem :: 'e
  pq_next :: addr

record 'e PacketQueue =
  pq_nodes :: "addr \<rightharpoonup> 'e pq_node"
  pq_head :: addr
  pq_tail :: addr
  pq_size :: int
  running :: bool
  pq_mutex :: Mutex

definition pq_at :: "'e PacketQueue \<Rightarrow> addr \<Rightarrow> 'e pq_node cres" where
  "pq_at q a = (case pq_nodes q a of
      Some n \<Rightarrow> if a = 0 then Inl NullDeref else Inr n
    | None \<Rightarrow> Inl (if a = 0 then NullDeref else UseAfterFree))"

section \<open>Operations\<close>

text \<open>\<open>create\<close>: a new queue, or the null pointer when it can not be allocated or its mutex or condition not be created.\<close>

definition pq_create :: "bool \<Rightarrow> bool \<Rightarrow> bool \<Rightarrow> 'e PacketQueue option" where
  "pq_create alloc_ok mutex_ok cond_ok =
     (if alloc_ok \<and> mutex_ok \<and> cond_ok
      then Some \<lparr>pq_nodes = Map.empty, pq_head = 0, pq_tail = 0, pq_size = 0, running = False, pq_mutex = MutexFree\<rparr>
      else None)"

definition pq_start :: "bool \<Rightarrow> 'e PacketQueue option \<Rightarrow> (bool \<times> 'e PacketQueue option) cres" where
  "pq_start thread_ok queue = (case queue of
      None \<Rightarrow> Inr (False, None)
    | Some q \<Rightarrow> cbind (lockMutex (pq_mutex q)) (\<lambda>mtx.
        let q = (if running q then q else q\<lparr>running := thread_ok\<rparr>)
        in cbind (unlockMutex mtx) (\<lambda>mtx. Inr (running q, Some (q\<lparr>pq_mutex := mtx\<rparr>)))))"

text \<open>\<open>add\<close>: \<open>malloc\<close> is the element, \<open>data_ok\<close> tells whether the copy of the packet could be allocated.\<close>

definition pq_add :: "addr option \<Rightarrow> bool \<Rightarrow> 'e PacketQueue option \<Rightarrow> 'e \<Rightarrow> (bool \<times> 'e PacketQueue option) cres" where
  "pq_add malloc data_ok queue x = (case queue of
      None \<Rightarrow> Inl NullDeref
    | Some q \<Rightarrow> cbind (lockMutex (pq_mutex q)) (\<lambda>mtx.
        cbind (case malloc of
                 None \<Rightarrow> Inr (False, q)
               | Some a \<Rightarrow>
                   if \<not> data_ok then Inr (False, q)
                   else if pq_size q = 0
                   then Inr (True, q\<lparr>pq_nodes := (pq_nodes q)(a \<mapsto> \<lparr>pq_elem = x, pq_next = 0\<rparr>), pq_head := a, pq_tail := a,
                                     pq_size := pq_size q + 1\<rparr>)
                   else cbind (pq_at q (pq_tail q)) (\<lambda>t.
                          Inr (True, q\<lparr>pq_nodes := (pq_nodes q)(pq_tail q \<mapsto> t\<lparr>pq_next := a\<rparr>, a \<mapsto> \<lparr>pq_elem = x, pq_next = 0\<rparr>),
                                       pq_tail := a, pq_size := pq_size q + 1\<rparr>))) (\<lambda>(ret, q).
        cbind (unlockMutex mtx) (\<lambda>mtx. Inr (ret, Some (q\<lparr>pq_mutex := mtx\<rparr>))))))"

text \<open>\<open>fetch\<close>: the first element, which the caller handles and frees.\<close>

definition pq_fetch :: "'e PacketQueue option \<Rightarrow> ('e option \<times> 'e PacketQueue option) cres option" where
  "pq_fetch queue = (case queue of
      None \<Rightarrow> Some (Inr (None, None))
    | Some q \<Rightarrow> tbind (Some (lockMutex (pq_mutex q))) (\<lambda>mtx.
        if pq_size q = 0 \<and> running q then None
        else tbind (if running q \<and> pq_head q \<noteq> 0
                    then tbind (Some (pq_at q (pq_head q))) (\<lambda>n.
                           Some (Inr (Some (pq_elem n), q\<lparr>pq_size := pq_size q - 1, pq_nodes := (pq_nodes q)(pq_head q := None),
                                                          pq_head := pq_next n\<rparr>)))
                    else Some (Inr (None, q))) (\<lambda>(x, q).
             tbind (Some (unlockMutex mtx)) (\<lambda>mtx. Some (Inr (x, Some (q\<lparr>pq_mutex := mtx\<rparr>)))))))"

text \<open>\<open>stop\<close>, after the consumer thread has ended: the remaining elements are freed.\<close>

partial_function (option) drain_loop :: "'e PacketQueue \<Rightarrow> 'e PacketQueue cres option" where
  "drain_loop q =
     (if pq_head q = 0 then Some (Inr q)
      else case pq_at q (pq_head q) of
          Inl f \<Rightarrow> Some (Inl f)
        | Inr n \<Rightarrow> drain_loop (q\<lparr>pq_nodes := (pq_nodes q)(pq_head q := None), pq_head := pq_next n, pq_size := pq_size q - 1\<rparr>))"

definition pq_stop :: "'e PacketQueue option \<Rightarrow> 'e PacketQueue option cres option" where
  "pq_stop queue = (case queue of
      None \<Rightarrow> Some (Inr None)
    | Some q \<Rightarrow>
        tbind (Some (lockMutex (pq_mutex q))) (\<lambda>mtx. tbind (Some (unlockMutex mtx)) (\<lambda>mtx. tbind (Some (lockMutex mtx)) (\<lambda>mtx.
        tbind (drain_loop (q\<lparr>running := False\<rparr>)) (\<lambda>q.
        tbind (Some (unlockMutex mtx)) (\<lambda>mtx. Some (Inr (Some (q\<lparr>pq_tail := 0, pq_mutex := mtx\<rparr>)))))))))"

definition pq_release :: "'e PacketQueue option \<Rightarrow> 'e PacketQueue option cres option" where
  "pq_release queue = (case queue of
      None \<Rightarrow> Some (Inr None)
    | Some q \<Rightarrow> tbind (if running q then pq_stop (Some q) else Some (Inr (Some q))) (\<lambda>_. Some (Inr None)))"

section \<open>The queue as a sequence\<close>

fun linked :: "(addr \<rightharpoonup> 'e pq_node) \<Rightarrow> addr \<Rightarrow> (addr \<times> 'e) list \<Rightarrow> bool" where
  "linked ns p [] \<longleftrightarrow> p = 0"
| "linked ns p ((a, x) # es) \<longleftrightarrow> p = a \<and> a \<noteq> 0 \<and> (\<exists>n. ns a = Some n \<and> pq_elem n = x \<and> linked ns (pq_next n) es)"

definition pq_repr :: "'e PacketQueue \<Rightarrow> (addr \<times> 'e) list \<Rightarrow> bool" where
  "pq_repr q es \<longleftrightarrow> linked (pq_nodes q) (pq_head q) es \<and> distinct (map fst es) \<and> pq_size q = int (length es) \<and>
     (es \<noteq> [] \<longrightarrow> pq_tail q = fst (last es)) \<and> pq_mutex q = MutexFree"

text \<open>The elements, read off the links.\<close>

fun pq_follow :: "(addr \<rightharpoonup> 'e pq_node) \<Rightarrow> addr \<Rightarrow> nat \<Rightarrow> 'e list" where
  "pq_follow ns p 0 = []"
| "pq_follow ns p (Suc k) = (case ns p of None \<Rightarrow> [] | Some n \<Rightarrow> pq_elem n # pq_follow ns (pq_next n) k)"

definition pq_items :: "'e PacketQueue \<Rightarrow> 'e list" where
  "pq_items q = pq_follow (pq_nodes q) (pq_head q) (nat (pq_size q))"

definition pq_ok :: "'e PacketQueue \<Rightarrow> bool" where
  "pq_ok q \<longleftrightarrow> running q \<and> (\<exists>es. pq_repr q es)"

lemma linked_follow: "linked ns p es \<Longrightarrow> pq_follow ns p (length es) = map snd es"
  by (induction es arbitrary: p) auto

lemma pq_items_eq: "pq_repr q es \<Longrightarrow> pq_items q = map snd es"
  using linked_follow by (auto simp: pq_repr_def pq_items_def)

lemma linked_other: "a \<notin> fst ` set es \<Longrightarrow> linked (ns(a := v)) p es = linked ns p es"
  by (induction es arbitrary: p) auto

lemma linked_used: "linked ns p es \<Longrightarrow> a \<in> fst ` set es \<Longrightarrow> a \<noteq> 0 \<and> (\<exists>n. ns a = Some n)"
  by (induction ns p es rule: linked.induct) auto

lemma linked_append:
  assumes "linked ns p (es @ [(t, y)])" "ns t = Some n" "distinct (map fst (es @ [(t, y)]))" "a \<notin> fst ` set (es @ [(t, y)])" "a \<noteq> 0"
  shows "linked (ns(t \<mapsto> n\<lparr>pq_next := a\<rparr>, a \<mapsto> \<lparr>pq_elem = x, pq_next = 0\<rparr>)) p (es @ [(t, y), (a, x)])"
  using assms
proof (induction es arbitrary: p)
  case Nil
  then show ?case by auto
next
  case (Cons e es)
  obtain b z where e: "e = (b, z)" by (cases e)
  have "b \<noteq> t" "b \<noteq> a" using Cons.prems(3,4) e by auto
  then show ?case using Cons e by auto
qed

lemma pq_add_ok:
  assumes q: "pq_repr q es" and a: "a \<noteq> 0" "pq_nodes q a = None"
  shows "\<exists>q'. pq_add (Some a) True (Some q) x = Inr (True, Some q') \<and> pq_repr q' (es @ [(a, x)]) \<and>
    dom (pq_nodes q') = insert a (dom (pq_nodes q)) \<and> running q' = running q"
proof (cases es rule: rev_cases)
  case Nil
  then show ?thesis using q a by (auto simp: pq_add_def pq_repr_def)
next
  case (snoc fs e)
  obtain t y where e: "e = (t, y)" by (cases e)
  have l: "linked (pq_nodes q) (pq_head q) (fs @ [(t, y)])" and d: "distinct (map fst (fs @ [(t, y)]))"
    and sz: "pq_size q = int (length fs) + 1" and tail: "pq_tail q = t" and lock: "pq_mutex q = MutexFree"
    using q snoc e by (auto simp: pq_repr_def)
  have "t \<in> fst ` set (fs @ [(t, y)])" by simp
  from linked_used [OF l this] obtain n where n: "pq_nodes q t = Some n" "t \<noteq> 0" by blast
  have new: "a \<notin> fst ` set (fs @ [(t, y)])" using linked_used [OF l, of a] a(2) by auto
  define q' where "q' = q\<lparr>pq_nodes := (pq_nodes q)(t \<mapsto> n\<lparr>pq_next := a\<rparr>, a \<mapsto> \<lparr>pq_elem = x, pq_next = 0\<rparr>), pq_tail := a,
    pq_size := pq_size q + 1\<rparr>"
  have "pq_add (Some a) True (Some q) x = Inr (True, Some q')"
    using lock sz tail n by (simp add: pq_add_def pq_at_def q'_def)
  moreover have "pq_repr q' (es @ [(a, x)])"
    using linked_append [OF l n(1) d new a(1), of x] d new sz lock snoc e by (auto simp: pq_repr_def q'_def)
  moreover have "dom (pq_nodes q') = insert a (dom (pq_nodes q))" using n(1) by (auto simp: q'_def)
  ultimately show ?thesis by (simp add: q'_def)
qed

lemma pq_fetch_ok:
  assumes q: "pq_repr q ((a, x) # es)" "running q"
  shows "\<exists>q'. pq_fetch (Some q) = Some (Inr (Some x, Some q')) \<and> pq_repr q' es \<and> running q'"
proof -
  obtain n where n: "pq_head q = a" "a \<noteq> 0" "pq_nodes q a = Some n" "pq_elem n = x" "linked (pq_nodes q) (pq_next n) es"
    using q(1) by (auto simp: pq_repr_def)
  define q' where "q' = q\<lparr>pq_size := pq_size q - 1, pq_nodes := (pq_nodes q)(a := None), pq_head := pq_next n\<rparr>"
  have sz: "pq_size q = int (length es) + 1" "pq_mutex q = MutexFree" "a \<notin> fst ` set es" using q(1) by (auto simp: pq_repr_def)
  then have "pq_fetch (Some q) = Some (Inr (Some x, Some q'))" using n q(2) by (simp add: pq_fetch_def pq_at_def q'_def)
  moreover have "pq_repr q' es" using q(1) n(5) sz by (auto simp: pq_repr_def q'_def linked_other split: if_splits)
  ultimately show ?thesis using q(2) by (simp add: q'_def)
qed

lemma pq_fetch_waits: "pq_repr q [] \<Longrightarrow> running q \<Longrightarrow> pq_fetch (Some q) = None"
  by (simp add: pq_fetch_def pq_repr_def)

text \<open>Stopping ends the loop over the rest of the queue and leaves it empty.\<close>

lemma drain_loop_ok:
  "linked (pq_nodes q) (pq_head q) es \<Longrightarrow> distinct (map fst es) \<Longrightarrow>
   \<exists>q'. drain_loop q = Some (Inr q') \<and> pq_head q' = 0 \<and> pq_size q' = pq_size q - int (length es) \<and> running q' = running q \<and>
     pq_mutex q' = pq_mutex q"
proof (induction es arbitrary: q)
  case Nil
  then show ?case by (subst drain_loop.simps) simp
next
  case (Cons e es)
  obtain a x where e: "e = (a, x)" by (cases e)
  then obtain n where n: "pq_head q = a" "a \<noteq> 0" "pq_nodes q a = Some n" "linked (pq_nodes q) (pq_next n) es" "a \<notin> fst ` set es"
    using Cons.prems by auto
  let ?q = "q\<lparr>pq_nodes := (pq_nodes q)(a := None), pq_head := pq_next n, pq_size := pq_size q - 1\<rparr>"
  have step: "drain_loop q = drain_loop ?q" using n by (subst drain_loop.simps) (simp add: pq_at_def)
  have l: "linked (pq_nodes ?q) (pq_head ?q) es" using n(4) linked_other [OF n(5)] by simp
  have d: "distinct (map fst es)" using Cons.prems(2) by simp
  show ?case unfolding step using Cons.IH [OF l d] by (auto simp: algebra_simps)
qed

lemma pq_stop_ok:
  assumes "pq_repr q es"
  shows "\<exists>q'. pq_stop (Some q) = Some (Inr (Some q')) \<and> pq_repr q' [] \<and> \<not> running q'"
  using drain_loop_ok [of "q\<lparr>running := False\<rparr>" es] assms by (auto simp: pq_stop_def pq_repr_def)

section \<open>The queue implements the contract\<close>

text \<open>One packet from the queue; a consumer that would have to wait blocks.\<close>

definition pq_take :: "'e PacketQueue \<Rightarrow> ('e \<times> 'e PacketQueue) cres" where
  "pq_take q = (case pq_fetch (Some q) of
      None \<Rightarrow> Inl LockBlocked
    | Some r \<Rightarrow> cbind r (\<lambda>(x, q'). case (x, q') of (Some x, Some q') \<Rightarrow> Inr (x, q') | _ \<Rightarrow> Inl NullDeref))"

definition pq_push :: "addr \<Rightarrow> 'e PacketQueue \<Rightarrow> 'e \<Rightarrow> (bool \<times> 'e PacketQueue) cres" where
  "pq_push a q x = cbind (pq_add (Some a) True (Some q) x) (\<lambda>(ok, q'). case q' of Some q' \<Rightarrow> Inr (ok, q') | None \<Rightarrow> Inl NullDeref)"

definition pq_used :: "'e PacketQueue \<Rightarrow> addr set" where
  "pq_used q = dom (pq_nodes q)"

interpretation pq: fifo_store pq_ok pq_items pq_used 0 pq_push pq_take
proof
  fix q :: "'e PacketQueue" and a x
  assume "pq_ok q" and a: "a \<notin> pq_used q" "a \<noteq> 0"
  then obtain es where es: "pq_repr q es" "running q" unfolding pq_ok_def by blast
  have none: "pq_nodes q a = None" using a(1) by (simp add: pq_used_def domIff)
  obtain q' where q': "pq_add (Some a) True (Some q) x = Inr (True, Some q')" "pq_repr q' (es @ [(a, x)])"
    "dom (pq_nodes q') = insert a (dom (pq_nodes q))" "running q' = running q"
    using pq_add_ok [OF es(1) a(2) none, of x] by blast
  have "pq_push a q x = Inr (True, q')" using q'(1) by (simp add: pq_push_def)
  moreover have "pq_ok q'" using q'(2,4) es(2) unfolding pq_ok_def by blast
  moreover have "pq_items q' = pq_items q @ [x]" using pq_items_eq [OF q'(2)] pq_items_eq [OF es(1)] by simp
  ultimately show "\<exists>q'. pq_push a q x = Inr (True, q') \<and> pq_ok q' \<and> pq_items q' = pq_items q @ [x] \<and>
      pq_used q' = insert a (pq_used q)"
    using q'(3) unfolding pq_used_def by blast
next
  fix q :: "'e PacketQueue" and x xs
  assume "pq_ok q" and xs: "pq_items q = x # xs"
  then obtain es where es: "pq_repr q es" "running q" unfolding pq_ok_def by blast
  have "map snd es = x # xs" using xs pq_items_eq [OF es(1)] by simp
  then obtain a fs where fs: "es = (a, x) # fs" "map snd fs = xs" by auto
  have "pq_repr q ((a, x) # fs)" using es(1) fs(1) by simp
  from pq_fetch_ok [OF this es(2)]
  obtain q' where q': "pq_fetch (Some q) = Some (Inr (Some x, Some q'))" "pq_repr q' fs" "running q'" by blast
  have "pq_take q = Inr (x, q')" using q'(1) by (simp add: pq_take_def)
  moreover have "pq_ok q'" using q'(2,3) unfolding pq_ok_def by blast
  moreover have "pq_items q' = xs" using pq_items_eq [OF q'(2)] fs(2) by simp
  ultimately show "\<exists>q'. pq_take q = Inr (x, q') \<and> pq_ok q' \<and> pq_items q' = xs" by blast
qed

section \<open>The two queues\<close>

text \<open>The receiver queue, with the socket, the client and the packet of an element.\<close>

type_synonym 'd sch_packet = "addr \<times> addr \<times> 'd"

definition createSCHReceiverQueue :: "bool \<Rightarrow> bool \<Rightarrow> bool \<Rightarrow> 'd sch_packet PacketQueue option" where
  "createSCHReceiverQueue = pq_create"

definition startSCHReceiverQueue :: "bool \<Rightarrow> 'd sch_packet PacketQueue option \<Rightarrow> (bool \<times> 'd sch_packet PacketQueue option) cres" where
  "startSCHReceiverQueue = pq_start"

definition stopSCHReceiverQueue :: "'d sch_packet PacketQueue option \<Rightarrow> 'd sch_packet PacketQueue option cres option" where
  "stopSCHReceiverQueue = pq_stop"

definition releaseSCHReceiverQueue :: "'d sch_packet PacketQueue option \<Rightarrow> 'd sch_packet PacketQueue option cres option" where
  "releaseSCHReceiverQueue = pq_release"

definition fetchSCHReceiverPacket ::
  "'d sch_packet PacketQueue option \<Rightarrow> ('d sch_packet option \<times> 'd sch_packet PacketQueue option) cres option" where
  "fetchSCHReceiverPacket = pq_fetch"

definition addToSCHReceiverQueue ::
  "addr option \<Rightarrow> bool \<Rightarrow> 'd \<Rightarrow> addr \<Rightarrow> addr \<Rightarrow> 'd sch_packet PacketQueue option \<Rightarrow> (bool \<times> 'd sch_packet PacketQueue option) cres" where
  "addToSCHReceiverQueue malloc data_ok pdu svrSoc client q = pq_add malloc data_ok q (svrSoc, client, pdu)"

text \<open>The send queue is a global pointer; its creation reports success instead of returning the queue, and adding a packet uses
  the pointer without a test.\<close>

definition createSendQueue :: "bool \<Rightarrow> bool \<Rightarrow> bool \<Rightarrow> 'd sch_packet PacketQueue option \<Rightarrow> bool \<times> 'd sch_packet PacketQueue option" where
  "createSendQueue alloc_ok mutex_ok cond_ok SEND_QUEUE =
     (let q = pq_create alloc_ok mutex_ok cond_ok in (q \<noteq> None, if alloc_ok then q else SEND_QUEUE))"

definition startSendQueue :: "bool \<Rightarrow> 'd sch_packet PacketQueue option \<Rightarrow> (bool \<times> 'd sch_packet PacketQueue option) cres" where
  "startSendQueue = pq_start"

definition stopSendQueue :: "'d sch_packet PacketQueue option \<Rightarrow> 'd sch_packet PacketQueue option cres option" where
  "stopSendQueue = pq_stop"

definition releaseSendQueue :: "'d sch_packet PacketQueue option \<Rightarrow> 'd sch_packet PacketQueue option cres option" where
  "releaseSendQueue = pq_release"

definition fetchSendPacket ::
  "'d sch_packet PacketQueue option \<Rightarrow> ('d sch_packet option \<times> 'd sch_packet PacketQueue option) cres option" where
  "fetchSendPacket = pq_fetch"

definition addToSendQueue ::
  "addr option \<Rightarrow> bool \<Rightarrow> 'd \<Rightarrow> addr \<Rightarrow> addr \<Rightarrow> 'd sch_packet PacketQueue option \<Rightarrow> (bool \<times> 'd sch_packet PacketQueue option) cres" where
  "addToSendQueue malloc data_ok pdu srvSoc client q = pq_add malloc data_ok q (srvSoc, client, pdu)"

lemmas queue_defs =
  createSCHReceiverQueue_def startSCHReceiverQueue_def stopSCHReceiverQueue_def releaseSCHReceiverQueue_def fetchSCHReceiverPacket_def
  addToSCHReceiverQueue_def createSendQueue_def startSendQueue_def stopSendQueue_def releaseSendQueue_def fetchSendPacket_def addToSendQueue_def

end
