(* ===== verification/Srx_Packets.thy ===== *)
theory Srx_Packets
  imports Srx_Identifier Packet_Queue
begin

text \<open>
  The packets of the SRx proxy protocol, \<open>shared/srx_packets.h\<close>, and their transmission to the clients,
  \<open>server/srx_packet_sender.c\<close>. A packet is read through the structure its type stands for, so a packet is a constructor with
  the fields of that structure, in network byte order where the protocol has it. Whether the socket of a client accepts
  a packet is the argument \<open>net\<close>; what was sent is recorded.
\<close>

section \<open>Packets\<close>

definition SRX_PROTOCOL_VER :: u16 where [simp]: "SRX_PROTOCOL_VER = 3"

definition PDU_SRXPROXY_HELLO :: u8 where [simp]: "PDU_SRXPROXY_HELLO = 0"
definition PDU_SRXPROXY_GOODBYE :: u8 where [simp]: "PDU_SRXPROXY_GOODBYE = 2"
definition PDU_SRXPROXY_VERIFY_V4_REQUEST :: u8 where [simp]: "PDU_SRXPROXY_VERIFY_V4_REQUEST = 3"
definition PDU_SRXPROXY_VERIFY_V6_REQUEST :: u8 where [simp]: "PDU_SRXPROXY_VERIFY_V6_REQUEST = 4"
definition PDU_SRXPROXY_SIGN_REQUEST :: u8 where [simp]: "PDU_SRXPROXY_SIGN_REQUEST = 5"
definition PDU_SRXPROXY_DELTE_UPDATE :: u8 where [simp]: "PDU_SRXPROXY_DELTE_UPDATE = 8"
definition PDU_SRXPROXY_PEER_CHANGE :: u8 where [simp]: "PDU_SRXPROXY_PEER_CHANGE = 9"
definition PDU_SRXPROXY_UNKNOWN :: u8 where [simp]: "PDU_SRXPROXY_UNKNOWN = 12"


text \<open>A verification request: the common header, the address, the origin, and the data of the AS path. \<open>vr_payload\<close> are the
  bytes behind the header, the AS path followed by the BGPsec attribute.\<close>

record VerifyRequest =
  vr_v4 :: bool
  vr_flags :: u8
  roaResSrc :: u8
  bgpsecResSrc :: u8
  aspaResSrc :: u8
  vr_asType :: u8
  vr_asRelType :: u8
  vr_length :: u32
  roaDefRes :: u8
  bgpsecDefRes :: u8
  aspaDefRes :: u8
  prefixLen :: u8
  requestToken :: u32
  prefixAddress :: "u8 list"
  vr_originAS :: u32
  numHops :: u16
  attrLen :: u16
  val_afi :: u16
  val_safi :: u8
  val_local_as :: u32
  vr_payload :: "u8 list"

datatype srx_pdu =
    HelloPDU (hello_version: u16) (hello_proxyIdentifier: u32)
  | GoodbyePDU (gb_keepWindow: u16)
  | VerifyPDU VerifyRequest
  | SignPDU (sr_updateIdentifier: u32) (sr_length: u32)
  | DeletePDU (du_keepWindow: u16) (du_updateIdentifier: u32)
  | PeerChangePDU
  | OtherPDU (other_type: u8)

fun pdu_type :: "srx_pdu \<Rightarrow> u8" where
  "pdu_type (HelloPDU v p) = PDU_SRXPROXY_HELLO"
| "pdu_type (GoodbyePDU k) = PDU_SRXPROXY_GOODBYE"
| "pdu_type (VerifyPDU r) = (if vr_v4 r then PDU_SRXPROXY_VERIFY_V4_REQUEST else PDU_SRXPROXY_VERIFY_V6_REQUEST)"
| "pdu_type (SignPDU u n) = PDU_SRXPROXY_SIGN_REQUEST"
| "pdu_type (DeletePDU k u) = PDU_SRXPROXY_DELTE_UPDATE"
| "pdu_type PeerChangePDU = PDU_SRXPROXY_PEER_CHANGE"
| "pdu_type (OtherPDU t) = t"

section \<open>Sending\<close>

text \<open>The packets to the clients with the fields the code fills in.\<close>

datatype srx_msg =
    HelloResponse u16 u32
  | GoodbyeMsg u16
  | VerifyNotification (vn_resultType: u8) (vn_requestToken: u32) (vn_roa: u8) (vn_bgpsec: u8) (vn_aspa: u8) (vn_updateID: u32)
  | SignatureNotification u32 u32 "u8 list"
  | SyncRequest
  | ErrorMsg u16

record Sender =
  sent :: "(addr \<times> srx_msg) list"
  SEND_QUEUE :: "srx_msg sch_packet PacketQueue option"

definition sendPacketToClient :: "(addr \<Rightarrow> bool) \<Rightarrow> Sender \<Rightarrow> addr \<Rightarrow> srx_msg \<Rightarrow> bool \<times> Sender" where
  "sendPacketToClient net sd client msg = (net client, if net client then sd\<lparr>sent := sent sd @ [(client, msg)]\<rparr> else sd)"

text \<open>Without a send queue the packet is dropped, although the log says that it is sent directly.\<close>

definition send_packet ::
  "(addr \<Rightarrow> bool) \<Rightarrow> addr option \<Rightarrow> Sender \<Rightarrow> addr \<Rightarrow> addr \<Rightarrow> srx_msg \<Rightarrow> bool \<Rightarrow> (bool \<times> Sender) cres" where
  "send_packet net malloc sd srvSoc client msg useQueue =
     (if \<not> useQueue then Inr (sendPacketToClient net sd client msg)
      else if SEND_QUEUE sd = None then Inr (False, sd)
      else cbind (addToSendQueue malloc True msg srvSoc client (SEND_QUEUE sd)) (\<lambda>(ok, q). Inr (ok, sd\<lparr>SEND_QUEUE := q\<rparr>)))"

definition sendHelloResponse :: "(addr \<Rightarrow> bool) \<Rightarrow> Sender \<Rightarrow> addr \<Rightarrow> u32 \<Rightarrow> bool \<times> Sender" where
  "sendHelloResponse net sd client pid = sendPacketToClient net sd client (HelloResponse (htons SRX_PROTOCOL_VER) (htonl pid))"

definition sendGoodbye :: "(addr \<Rightarrow> bool) \<Rightarrow> addr option \<Rightarrow> Sender \<Rightarrow> addr \<Rightarrow> addr \<Rightarrow> bool \<Rightarrow> (bool \<times> Sender) cres" where
  "sendGoodbye net malloc sd srvSoc client useQueue = send_packet net malloc sd srvSoc client (GoodbyeMsg 0) useQueue"

definition sendVerifyNotification ::
  "(addr \<Rightarrow> bool) \<Rightarrow> addr option \<Rightarrow> Sender \<Rightarrow> addr \<Rightarrow> addr \<Rightarrow> u32 \<Rightarrow> u8 \<Rightarrow> u32 \<Rightarrow> u8 \<Rightarrow> u8 \<Rightarrow> u8 \<Rightarrow> bool \<Rightarrow> (bool \<times> Sender) cres" where
  "sendVerifyNotification net malloc sd srvSoc client uid resultType token roa bgpsec aspa useQueue =
     send_packet net malloc sd srvSoc client (VerifyNotification resultType (htonl token) roa bgpsec aspa (htonl uid)) useQueue"

definition sendSignatureNotification ::
  "(addr \<Rightarrow> bool) \<Rightarrow> addr option \<Rightarrow> Sender \<Rightarrow> addr \<Rightarrow> addr \<Rightarrow> u32 \<Rightarrow> u32 \<Rightarrow> u8 list \<Rightarrow> bool \<Rightarrow> (bool \<times> Sender) cres" where
  "sendSignatureNotification net malloc sd srvSoc client uid bgpsecLength bgpsecBlob useQueue =
     (if length bgpsecBlob < unat bgpsecLength then Inl OutOfBounds
      else send_packet net malloc sd srvSoc client
             (SignatureNotification (htonl uid) (htonl bgpsecLength) (take (unat bgpsecLength) bgpsecBlob)) useQueue)"

definition sendSynchRequest :: "(addr \<Rightarrow> bool) \<Rightarrow> addr option \<Rightarrow> Sender \<Rightarrow> addr \<Rightarrow> addr \<Rightarrow> bool \<Rightarrow> (bool \<times> Sender) cres" where
  "sendSynchRequest net malloc sd srvSoc client useQueue = send_packet net malloc sd srvSoc client SyncRequest useQueue"

definition sendError :: "(addr \<Rightarrow> bool) \<Rightarrow> addr option \<Rightarrow> u16 \<Rightarrow> Sender \<Rightarrow> addr \<Rightarrow> addr \<Rightarrow> bool \<Rightarrow> (bool \<times> Sender) cres" where
  "sendError net malloc errorCode sd srvSoc client useQueue = send_packet net malloc sd srvSoc client (ErrorMsg (htons errorCode)) useQueue"

lemmas send_defs = send_packet_def sendPacketToClient_def sendHelloResponse_def sendGoodbye_def sendVerifyNotification_def
  sendSynchRequest_def sendError_def

text \<open>One round of the thread of the send queue: a packet that can not be sent is lost.\<close>

definition sendQueue_step :: "(addr \<Rightarrow> bool) \<Rightarrow> Sender \<Rightarrow> Sender cres option" where
  "sendQueue_step net sd =
     tbind (fetchSendPacket (SEND_QUEUE sd)) (\<lambda>(p, q).
       let sd = sd\<lparr>SEND_QUEUE := q\<rparr>
       in Some (Inr (case p of None \<Rightarrow> sd | Some (srvSoc, client, msg) \<Rightarrow> snd (sendPacketToClient net sd client msg))))"

section \<open>What the sender promises\<close>

text \<open>The packets that wait in the send queue.\<close>

definition outbox :: "Sender \<Rightarrow> srx_msg sch_packet list" where
  "outbox sd = (case SEND_QUEUE sd of None \<Rightarrow> [] | Some q \<Rightarrow> pq_items q)"

definition queue_ready :: "addr option \<Rightarrow> 'e PacketQueue option \<Rightarrow> bool" where
  "queue_ready malloc queue \<longleftrightarrow> (case (malloc, queue) of (Some a, Some q) \<Rightarrow> pq_ok q \<and> a \<noteq> 0 \<and> a \<notin> pq_used q | _ \<Rightarrow> False)"

lemma queue_ready_add:
  assumes "queue_ready malloc queue"
  obtains q q' where "queue = Some q" "pq_add malloc True queue x = Inr (True, Some q')" "pq_ok q'" "pq_items q' = pq_items q @ [x]"
proof -
  obtain a q where q: "malloc = Some a" "queue = Some q" "pq_ok q" "a \<noteq> 0" "a \<notin> pq_used q"
    using assms by (auto simp: queue_ready_def split: option.splits)
  obtain q' where q': "pq_push a q x = Inr (True, q')" "pq_ok q'" "pq_items q' = pq_items q @ [x]"
    using pq.add_ok [OF q(3,5,4)] by blast
  have "pq_add malloc True queue x = Inr (True, Some q')"
    using q'(1) q(1,2) by (auto simp: pq_push_def cbind_eq_Inr split: option.splits)
  then show thesis using q' q(2) that by blast
qed

lemma queue_fetch:
  assumes "pq_ok q" "pq_items q = x # xs"
  obtains q' where "pq_fetch (Some q) = Some (Inr (Some x, Some q'))" "pq_ok q'" "pq_items q' = xs"
proof -
  obtain q' where q': "pq_take q = Inr (x, q')" "pq_ok q'" "pq_items q' = xs" using pq.shift_ok [OF assms] by blast
  then have "pq_fetch (Some q) = Some (Inr (Some x, Some q'))" by (auto simp: pq_take_def cbind_eq_Inr split: option.splits)
  then show thesis using q'(2,3) that by blast
qed

text \<open>A packet that is sent directly arrives if the client can be reached; a packet for the queue is appended to it.\<close>

lemma send_packet_ready:
  assumes "useQueue \<longrightarrow> queue_ready malloc (SEND_QUEUE sd)"
  obtains sd' where "send_packet net malloc sd sock client msg useQueue = Inr (useQueue \<or> net client, sd')"
    "sent sd' = sent sd @ (if \<not> useQueue \<and> net client then [(client, msg)] else [])" "outbox sd' = outbox sd @ (if useQueue then [(sock, client, msg)] else [])"
    "useQueue \<Longrightarrow> \<exists>q. SEND_QUEUE sd' = Some q \<and> pq_ok q"
proof (cases useQueue)
  case True
  then obtain q q' where "SEND_QUEUE sd = Some q" "pq_add malloc True (SEND_QUEUE sd) (sock, client, msg) = Inr (True, Some q')" "pq_ok q'"
    "pq_items q' = pq_items q @ [(sock, client, msg)]" using assms queue_ready_add by metis
  then show thesis using True that [of "sd\<lparr>SEND_QUEUE := Some q'\<rparr>"] by (simp add: send_packet_def addToSendQueue_def outbox_def)
next
  case False
  then show thesis using that [of "snd (sendPacketToClient net sd client msg)"]
    by (simp add: send_packet_def sendPacketToClient_def outbox_def)
qed

lemma sendQueue_step_sends:
  assumes "SEND_QUEUE sd = Some q" "pq_ok q" "outbox sd = (sock, client, msg) # rest"
  obtains sd' where "sendQueue_step net sd = Some (Inr sd')" "sent sd' = sent sd @ (if net client then [(client, msg)] else [])" "outbox sd' = rest"
proof -
  obtain q' where "pq_fetch (Some q) = Some (Inr (Some (sock, client, msg), Some q'))" "pq_items q' = rest"
    using assms queue_fetch [OF assms(2), of "(sock, client, msg)" rest] by (auto simp: outbox_def)
  then show thesis
    using assms(1) that [of "snd (sendPacketToClient net (sd\<lparr>SEND_QUEUE := Some q'\<rparr>) client msg)"]
    by (simp add: sendQueue_step_def fetchSendPacket_def sendPacketToClient_def outbox_def)
qed

end
