(* ===== verification/Command_Handler.thy ===== *)
theory Command_Handler
  imports Origin_Validation Aspath_Cache Proxy_Map Command_Queue Srx_Packets
begin

text \<open>
  The command handler, \<open>server/command_handler.c\<close>: the thread that works off the command queue. It performs the handshake, the
  validations and the deletions; the results go into the caches and to the clients. The state of the server holds the components the
  handler refers to by pointers. The update cache is shared by the command handler, the connection handler and the prefix cache; it is kept
  once, in the prefix cache. What the server does not decide itself is the environment: which clients can be reached, the time, new
  addresses, the crypto plugin and the configuration.
\<close>

section \<open>Data\<close>

record ClientThread =
  ct_active :: bool
  initialized :: bool
  ct_proxyID :: u32
  goodByeReceived :: bool
  routerID :: u8

record env =
  net :: "addr \<Rightarrow> bool"
  now_sec :: nat
  sq_malloc :: "addr option"
  cfg_keepWindow :: int
  syncAfterConnEstablished :: bool
  crypto_validate :: "u32 \<Rightarrow> u8 list option \<Rightarrow> SCA_Prefix \<Rightarrow> int"
  upd_malloc :: "alloc_site \<Rightarrow> bool"
  upd_addr :: addr

record ('p, 't) Server =
  pcache :: "('p, 't) PrefixCache"
  aspaDB :: ASPA_DBManager
  apcache :: "'t AspathCache"
  proxies :: ProxyTable
  threads :: "addr \<rightharpoonup> ClientThread"
  clientList :: sl_state
  cthreads :: sl_state
  sender :: Sender

type_synonym ('p, 't, 'a) action = "('p, 't) Server \<Rightarrow> ('a \<times> ('p, 't) Server) cres"

definition thread_at :: "('p, 't) Server \<Rightarrow> addr \<Rightarrow> ClientThread cres" where
  "thread_at s c = (case threads s c of Some t \<Rightarrow> Inr t | None \<Rightarrow> Inl (if c = 0 then NullDeref else UseAfterFree))"

definition set_thread :: "addr \<Rightarrow> ClientThread \<Rightarrow> ('p, 't) Server \<Rightarrow> ('p, 't) Server" where
  "set_thread c t s = s\<lparr>threads := (threads s)(c \<mapsto> t)\<rparr>"

text \<open>Running an operation of the update cache, and of the sender, on the server.\<close>

definition on_updCache :: "('t UpdateCache \<Rightarrow> ('a \<times> 't UpdateCache) cres) \<Rightarrow> ('p, 't, 'a) action" where
  "on_updCache f s = (case updateCache (pcache s) of
      None \<Rightarrow> Inl NullDeref
    | Some uc \<Rightarrow> cbind (f uc) (\<lambda>(x, uc). Inr (x, s\<lparr>pcache := (pcache s)\<lparr>updateCache := Some uc\<rparr>\<rparr>)))"

definition on_sender :: "(Sender \<Rightarrow> (bool \<times> Sender) cres) \<Rightarrow> ('p, 't, bool) action" where
  "on_sender f s = cbind (f (sender s)) (\<lambda>(ok, sd). Inr (ok, s\<lparr>sender := sd\<rparr>))"

definition send_error :: "env \<Rightarrow> u16 \<Rightarrow> addr \<Rightarrow> addr \<Rightarrow> ('p, 't, bool) action" where
  "send_error env code sock client = on_sender (\<lambda>sd. sendError (net env) (sq_malloc env) code sd sock client False)"

definition send_goodbye :: "env \<Rightarrow> addr \<Rightarrow> addr \<Rightarrow> ('p, 't, bool) action" where
  "send_goodbye env sock client = on_sender (\<lambda>sd. sendGoodbye (net env) (sq_malloc env) sd sock client False)"

section \<open>Handshake\<close>

text \<open>The client identifier of a proxy: the one it has, or a new one.\<close>

definition handshake_clientID :: "ProxyTable \<Rightarrow> u32 \<Rightarrow> addr \<Rightarrow> u8 \<times> ProxyTable" where
  "handshake_clientID pm pid client =
     (let c = findClientID pm pid; c = (if c = 0 then createClientID pm else c)
      in if 0 < c then (case addMapping pm pid c client True of (ok, pm) \<Rightarrow> (if ok then c else 0, pm)) else (0, pm))"

definition accept_proxy :: "env \<Rightarrow> addr \<Rightarrow> addr \<Rightarrow> u32 \<Rightarrow> u8 \<Rightarrow> ('p, 't, bool) action" where
  "accept_proxy env sock client pid c s =
     cbind (thread_at s client) (\<lambda>t.
       let s = set_thread client (t\<lparr>ct_proxyID := pid, routerID := c\<rparr>) s;
           (ok, sd) = sendHelloResponse (net env) (sender s) client pid; s = s\<lparr>sender := sd\<rparr>
       in if \<not> ok then Inr (True, s)
          else let s = set_thread client (t\<lparr>ct_proxyID := pid, routerID := c, initialized := True\<rparr>) s
               in if syncAfterConnEstablished env
                  then cbind (on_sender (\<lambda>sd. sendSynchRequest (net env) (sq_malloc env) sd sock client False) s) (\<lambda>(_, s). Inr (True, s))
                  else Inr (True, s))"

definition processHandshake :: "env \<Rightarrow> addr \<Rightarrow> addr \<Rightarrow> u16 \<Rightarrow> u32 \<Rightarrow> ('p, 't, bool) action" where
  "processHandshake env sock client ver proxyIdentifier s =
     (if ntohs ver \<noteq> SRX_PROTOCOL_VER
      then cbind (send_error env SRXERR_WRONG_VERSION sock client s) (\<lambda>(_, s).
           cbind (send_goodbye env sock client s) (\<lambda>(_, s). Inr (False, s)))
      else let pid = ntohl proxyIdentifier; (c, pm) = handshake_clientID (proxies s) pid client; s = s\<lparr>proxies := pm\<rparr>
           in if c = 0
              then cbind (send_error env (if unat (noMappings pm) < MAX_PROXY_CLIENT_ELEMENTS then SRXERR_DUPLICATE_PROXY_ID
                                          else SRXERR_INTERNAL_ERROR) sock client s) (\<lambda>(_, s).
                   cbind (send_goodbye env sock client s) (\<lambda>(_, s). Inr (False, s)))
              else accept_proxy env sock client pid c s)"

section \<open>Validation of an update\<close>

text \<open>\<open>validateSignature\<close> of \<open>server/bgpsec_handler.c\<close>: the plugin decides.\<close>

definition validateSignature :: "(u32 \<Rightarrow> u8 list option \<Rightarrow> SCA_Prefix \<Rightarrow> int) \<Rightarrow> UC_UpdateData \<Rightarrow> u8" where
  "validateSignature validate u = (if validate (myAS u) (bgpsec_path u) (nlri u) = 1 then SRx_RESULT_VALID else SRx_RESULT_INVALID)"

definition isSet8 :: "u8 \<Rightarrow> u8 \<Rightarrow> bool" where
  "isSet8 flags bits \<longleftrightarrow> isSet (ucast flags) (ucast bits)"

definition request_prefix :: "VerifyRequest \<Rightarrow> IPPrefix" where
  "request_prefix r = \<lparr>ip = \<lparr>version = (if vr_v4 r then 4 else 6),
     addr = (if vr_v4 r then take 4 (prefixAddress r) @ replicate 12 0 else take 16 (prefixAddress r))\<rparr>, plength = prefixLen r\<rparr>"

text \<open>BGPsec: the result for the update, \<open>None\<close> for the early return.\<close>

definition path_part :: "'t uthash \<Rightarrow> env \<Rightarrow> u32 \<Rightarrow> bool \<Rightarrow> SRxResult \<Rightarrow> ('p, 't, u8 option) action" where
  "path_part T env uid pathVal srxRes s =
     (if pathVal \<and> bgpsecResult srxRes = SRx_RESULT_UNDEFINED
      then cbind (on_updCache (\<lambda>uc. getUpdateData T uc uid) s) (\<lambda>(d, s).
             Inr (map_option (validateSignature (crypto_validate env)) d, s))
      else Inr (Some SRx_RESULT_DONOTUSE, s))"

definition origin_part ::
  "'t uthash \<Rightarrow> 'p patricia \<Rightarrow> env \<Rightarrow> u32 \<Rightarrow> bool \<Rightarrow> SRxResult \<Rightarrow> VerifyRequest \<Rightarrow> ('p, 't, bool) action" where
  "origin_part T P env uid originVal srxRes r s =
     (if originVal \<and> roaResult srxRes = SRx_RESULT_UNDEFINED
      then cbind (requestUpdateValidation T P (upd_malloc env) (upd_addr env) (pcache s) uid (request_prefix r) (ntohl (vr_originAS r)))
             (\<lambda>(ok, pc). Inr (ok, s\<lparr>pcache := pc\<rparr>))
      else Inr (True, s))"

text \<open>ASPA: the verdict for a path of the AS path cache, which is also stored there when it changed.\<close>

definition aspa_verdict ::
  "'t uthash \<Rightarrow> env \<Rightarrow> u32 \<Rightarrow> AS_PATH_LIST \<Rightarrow> ('p, 't, u8) action" where
  "aspa_verdict T env pathId aspl s =
     (let af = (if apl_afi aspl = 0 \<or> 2 < apl_afi aspl then 1 else ucast (apl_afi aspl))
      in cbind (validateASPA (case asPathList aspl of Some l \<Rightarrow> l | None \<Rightarrow> []) (asPathLength aspl) (apl_asType aspl) (apl_asRelDir aspl) af (aspaDB s)) (\<lambda>v.
           if v \<noteq> aspaValResult aspl
           then cbind (modifyAspaValidationResultToAspathCache T (apcache s) pathId v (Some (aspl\<lparr>apl_lastModified := now_sec env\<rparr>))) (\<lambda>(_, ac).
                  Inr (v, s\<lparr>apcache := ac\<rparr>))
           else Inr (v, s)))"

definition aspa_part ::
  "'t uthash \<Rightarrow> env \<Rightarrow> u32 \<Rightarrow> u8 \<Rightarrow> SRxResult \<Rightarrow> ('p, 't, u8 \<times> SRxResult) action" where
  "aspa_part T env pathId reqAsType srxRes s =
     cbind (getAspathListFromAspathCache T (apcache s) pathId srxRes) (\<lambda>(aspl, srxRes, ac).
       let s = s\<lparr>apcache := ac\<rparr>
       in case aspl of
            Some l \<Rightarrow> cbind (aspa_verdict T env pathId l s) (\<lambda>(v, s). Inr ((v, srxRes), s))
          | None \<Rightarrow> if pathId = 0 \<and> ucast reqAsType = AS_SET then Inr ((SRx_RESULT_UNVERIFIABLE, srxRes), s)
                    else Inr ((SRx_RESULT_DONOTUSE, srxRes), s))"

text \<open>The decision which of these is done, and the replacement by a result that was already known. The assignment in the
  second condition of the source has no effect, since the assigned source \<open>SRxRS_ROUTER\<close> is not zero.\<close>

definition aspa_step ::
  "'t uthash \<Rightarrow> env \<Rightarrow> bool \<Rightarrow> u32 \<Rightarrow> u8 \<Rightarrow> SRxResult \<Rightarrow> SRxDefaultResult \<Rightarrow> ('p, 't, u8) action" where
  "aspa_step T env aspaVal pathId reqAsType srxRes defRes s =
     (let invalid = aspaResult (defResult defRes) = SRx_RESULT_INVALID
      in cbind (if aspaVal \<and> aspaResult srxRes = SRx_RESULT_UNDEFINED \<and> \<not> invalid then aspa_part T env pathId reqAsType srxRes s
                else if aspaVal \<and> aspaResult srxRes = SRx_RESULT_UNDEFINED \<and> invalid then Inr ((SRx_RESULT_INVALID, srxRes), s)
                else Inr ((SRx_RESULT_DONOTUSE, srxRes), s)) (\<lambda>((m, srxRes), s).
           if aspaVal \<and> aspaResult srxRes \<noteq> SRx_RESULT_UNDEFINED \<and> \<not> invalid \<and> ucast reqAsType \<noteq> AS_SET
           then Inr (aspaResult srxRes, s)
           else if aspaVal \<and> aspaResult srxRes \<noteq> SRx_RESULT_UNDEFINED \<and> \<not> invalid \<and> ucast reqAsType = AS_SET \<and> pathId = 0
           then Inr (SRx_RESULT_UNVERIFIABLE, s)
           else Inr (m, s)))"

definition processUpdateValidation :: "'t uthash \<Rightarrow> 'p patricia \<Rightarrow> env \<Rightarrow> u32 \<Rightarrow> VerifyRequest \<Rightarrow> ('p, 't, bool) action" where
  "processUpdateValidation T P env uid r s =
     (let originVal = isSet8 (vr_flags r) SRX_FLAG_ROA; pathVal = isSet8 (vr_flags r) SRX_FLAG_BGPSEC;
          aspaVal = isSet8 (vr_flags r) SRX_FLAG_ASPA
      in if \<not> originVal \<and> \<not> pathVal \<and> \<not> aspaVal then Inr (False, s)
         else cbind (on_updCache (\<lambda>uc. cbind (getUpdateResult T True uc uid 0 None) (\<lambda>(found, sres, dres, pid, uc, _).
                       Inr ((found, sres, dres, case pid of Some p \<Rightarrow> p | None \<Rightarrow> 0), uc))) s) (\<lambda>((found, srxRes, defRes, pathId), s).
              if \<not> found then Inr (False, s)
              else cbind (path_part T env uid pathVal srxRes s) (\<lambda>(sec, s). case sec of
                  None \<Rightarrow> Inr (False, s)
                | Some bgpsec \<Rightarrow>
                    cbind (origin_part T P env uid originVal srxRes r s) (\<lambda>(processed, s).
                    cbind (aspa_step T env aspaVal pathId (vr_asType r) srxRes defRes s) (\<lambda>(aspa, s).
                      if bgpsec \<noteq> SRx_RESULT_DONOTUSE \<or> aspa \<noteq> SRx_RESULT_DONOTUSE
                      then cbind (on_updCache (\<lambda>uc. modifyUpdateResult T uc uid
                                   \<lparr>roaResult = SRx_RESULT_DONOTUSE, bgpsecResult = bgpsec, aspaResult = aspa\<rparr> False) s) (\<lambda>(_, s).
                             Inr (processed, s))
                      else Inr (processed, s))))))"

section \<open>The other commands\<close>

text \<open>\<open>closeClientConnection\<close> of \<open>util/server_socket.c\<close>: the socket is closed and the receiver thread cancelled, the client is taken
  out of the list of the server socket.\<close>

definition closeClientConnection :: "addr \<Rightarrow> ('p, 't) Server \<Rightarrow> ('p, 't) Server cres" where
  "closeClientConnection client s =
     cbind (thread_at s client) (\<lambda>t.
       let s = (if ct_active t then set_thread client (t\<lparr>ct_active := False\<rparr>) s else s)
       in cbind (await (sl_del (cthreads s) client)) (\<lambda>(_, l). Inr (s\<lparr>cthreads := l\<rparr>)))"

definition forget_client :: "addr \<Rightarrow> ('p, 't) Server \<Rightarrow> ('p, 't) Server cres" where
  "forget_client client s = cbind (await (sl_del (clientList s) client)) (\<lambda>(_, l). Inr (s\<lparr>clientList := l\<rparr>))"

definition deactivate_client :: "env \<Rightarrow> u8 \<Rightarrow> bool \<Rightarrow> u16 \<Rightarrow> ('p, 't) Server \<Rightarrow> ('p, 't) Server cres" where
  "deactivate_client env c crash keepWindow s = (case updateCache (pcache s) of
      None \<Rightarrow> Inl NullDeref
    | Some uc \<Rightarrow> cbind (deactivateConnectionMapping (cfg_keepWindow env) (int (now_sec env)) uc (proxies s) c crash keepWindow) (\<lambda>(uc, pm).
        Inr (s\<lparr>pcache := (pcache s)\<lparr>updateCache := Some uc\<rparr>, proxies := pm\<rparr>)))"

text \<open>Signing and peer changes are not implemented.\<close>

definition processUpdateSigning :: "('p, 't) Server \<Rightarrow> ('p, 't) Server" where
  "processUpdateSigning s = s"

definition processPeerChange :: "('p, 't) Server \<Rightarrow> ('p, 't) Server" where
  "processPeerChange s = s"

definition processDeleteUpdate :: "'t uthash \<Rightarrow> env \<Rightarrow> addr \<Rightarrow> addr \<Rightarrow> u32 \<Rightarrow> u16 \<Rightarrow> ('p, 't) Server \<Rightarrow> ('p, 't) Server cres" where
  "processDeleteUpdate T env sock client uid keepWindow s =
     cbind (thread_at s client) (\<lambda>t.
     cbind (on_updCache (\<lambda>uc. deleteUpdateFromCache T (now_sec env) uc (routerID t) uid (htons keepWindow)) s) (\<lambda>(ok, s).
       if ok
       then let m = mapping_at (proxies s) (routerID t)
            in Inr (s\<lparr>proxies := set_mapping (routerID t) (m\<lparr>updateCount := updateCount m - 1\<rparr>) (proxies s)\<rparr>)
       else cbind (send_error env SRXERR_UPDATE_NOT_FOUND sock client s) (\<lambda>(_, s). Inr s)))"

definition processGoodbye :: "env \<Rightarrow> addr \<Rightarrow> u16 \<Rightarrow> ('p, 't) Server \<Rightarrow> ('p, 't) Server cres" where
  "processGoodbye env client keepWindow s =
     cbind (closeClientConnection client s) (\<lambda>s. cbind (thread_at s client) (\<lambda>t.
     cbind (deactivate_client env (routerID t) False (htons keepWindow) s) (forget_client client)))"

definition processUnknown :: "env \<Rightarrow> addr \<Rightarrow> addr \<Rightarrow> ('p, 't) Server \<Rightarrow> ('p, 't) Server cres" where
  "processUnknown env sock client s =
     cbind (send_error env SRXERR_INVALID_PACKET sock client s) (\<lambda>(_, s). cbind (send_goodbye env sock client s) (\<lambda>(_, s).
     cbind (closeClientConnection client s) (\<lambda>s. cbind (thread_at s client) (\<lambda>t.
     cbind (deactivate_client env (routerID t) False (word_of_int (cfg_keepWindow env)) s) (forget_client client)))))"

section \<open>The command loop\<close>

definition process_pdu ::
  "'t uthash \<Rightarrow> 'p patricia \<Rightarrow> env \<Rightarrow> addr \<Rightarrow> addr \<Rightarrow> u32 \<Rightarrow> srx_pdu \<Rightarrow> ('p, 't) Server \<Rightarrow> ('p, 't) Server cres" where
  "process_pdu T P env sock client did pdu s = (case pdu of
      HelloPDU v pid \<Rightarrow> cbind (processHandshake env sock client v pid s) (\<lambda>(ok, s).
        if ok then Inr s else cbind (closeClientConnection client s) (forget_client client))
    | VerifyPDU r \<Rightarrow> cbind (processUpdateValidation T P env did r s) (\<lambda>(_, s). Inr s)
    | SignPDU u n \<Rightarrow> Inr (processUpdateSigning s)
    | GoodbyePDU k \<Rightarrow> processGoodbye env client k s
    | DeletePDU k u \<Rightarrow> processDeleteUpdate T env sock client did k s
    | PeerChangePDU \<Rightarrow> Inr (processPeerChange s)
    | OtherPDU t \<Rightarrow> processUnknown env sock client s)"

text \<open>The environment of the commands is a sequence: each command meets its own time, addresses and reachable clients. The number
  counts the commands.\<close>

definition process_command ::
  "'t uthash \<Rightarrow> 'p patricia \<Rightarrow> (nat \<Rightarrow> env) \<Rightarrow> srx_pdu command \<Rightarrow> nat \<times> ('p, 't) Server \<Rightarrow> (nat \<times> ('p, 't) Server) cres" where
  "process_command T P envs cmd st = (case cmd of (sock, client, ct, did, len, dat) \<Rightarrow> case st of (k, s) \<Rightarrow>
     if ct = COMMAND_TYPE_SRX_PROXY
     then if len = 0 \<and> dat = None then Inr (Suc k, s)
          else case dat of
              None \<Rightarrow> Inl NullDeref
            | Some pdu \<Rightarrow> cbind (process_pdu T P (envs k) sock client did pdu s) (\<lambda>s. Inr (Suc k, s))
     else Inr (Suc k, s))"

definition is_shutdown :: "srx_pdu command \<Rightarrow> bool" where
  "is_shutdown cmd = (case cmd of (sock, client, ct, did, len, dat) \<Rightarrow> ct = COMMAND_TYPE_SHUTDOWN)"

definition handleCommands ::
  "'t uthash \<Rightarrow> 'p patricia \<Rightarrow> (nat \<Rightarrow> env) \<Rightarrow> srx_pdu CommandQueue \<Rightarrow> nat \<times> ('p, 't) Server \<Rightarrow>
     (srx_pdu CommandQueue \<times> nat \<times> ('p, 't) Server) cres option" where
  "handleCommands T P envs q st = serve fetchNextCommand cq_item deleteCommand is_shutdown (process_command T P envs) q st"

text \<open>\<open>stopProcessingCommands\<close> up to the join: one shutdown command for each thread, with the memory it takes.\<close>

fun queue_shutdowns :: "(addr \<times> addr) list \<Rightarrow> srx_pdu CommandQueue \<Rightarrow> srx_pdu CommandQueue cres option" where
  "queue_shutdowns [] q = Some (Inr q)"
| "queue_shutdowns ((a, d) # ms) q =
     tbind (queueCommand (Some a) (Some d) True q COMMAND_TYPE_SHUTDOWN 0 0 0 0 None) (\<lambda>(_, q). queue_shutdowns ms q)"

definition stopProcessingCommands :: "(addr \<times> addr) list \<Rightarrow> srx_pdu CommandQueue \<Rightarrow> srx_pdu CommandQueue cres option" where
  "stopProcessingCommands ms q = tbind (removeAllCommands q) (queue_shutdowns ms)"

section \<open>Notifications\<close>

fun broadcast_loop :: "(addr \<Rightarrow> bool) \<Rightarrow> ProxyTable \<Rightarrow> srx_msg \<Rightarrow> u8 list \<Rightarrow> Sender \<Rightarrow> bool \<Rightarrow> bool \<times> Sender" where
  "broadcast_loop nt pm msg [] sd ret = (ret, sd)"
| "broadcast_loop nt pm msg (c # cs) sd ret =
     (if isActive (mapping_at pm c)
      then let (ok, sd) = sendPacketToClient nt sd (socket (mapping_at pm c)) msg in broadcast_loop nt pm msg cs sd (ret \<or> ok)
      else broadcast_loop nt pm msg cs sd ret)"

definition broadcastResult :: "'t uthash \<Rightarrow> env \<Rightarrow> SRxValidationResult \<Rightarrow> ('p, 't, bool) action" where
  "broadcastResult T env v s = (case updateCache (pcache s) of
      None \<Rightarrow> Inl NullDeref
    | Some uc \<Rightarrow>
        cbind (on_updCache (\<lambda>uc. cbind (getClientIDsOfUpdate T uc (valUpdateID v) (minNumberOfClients uc)) (\<lambda>(n, ids, uc). Inr ((n, ids), uc))) s)
          (\<lambda>((clientCt, ids), s).
            if clientCt = - 1 then Inr (False, s)
            else if 0 < clientCt
            then let (ret, sd) = broadcast_loop (net env) (proxies s)
                       (VerifyNotification (ucast (valType v AND 7)) 0 (roaResult (valResult v)) (bgpsecResult (valResult v))
                          (aspaResult (valResult v)) (htonl (valUpdateID v))) (rev (take (nat clientCt) ids)) (sender s) False
                 in Inr (ret, s\<lparr>sender := sd\<rparr>)
            else Inr (True, s)))"

end
