(* ===== verification/Update_Processing.thy ===== *)
theory Update_Processing
  imports Command_Handler
begin

text \<open>
  What the command handler does with a verification request: the components work together, so that the update cache holds the
  state of RFC 6811 for the origin and the verdict of the ASPA validation for the AS path. Also the handshake, the
  order of the commands, the shutdown and the notification of the clients.
\<close>

section \<open>Results of the ASPA validation\<close>

definition aspa_results :: "u8 set" where
  "aspa_results = {SRx_RESULT_VALID, SRx_RESULT_INVALID, SRx_RESULT_UNDEFINED, SRx_RESULT_UNKNOWN, SRx_RESULT_UNVERIFIABLE}"

lemma final_result_range: "final_result r \<in> aspa_results"
  by (simp add: final_result_def aspa_results_def Let_def)

lemma upstream_loop_range: "upstream_loop lk l is r = Inr (Some v, r') \<Longrightarrow> v = SRx_RESULT_INVALID"
  by (induction lk l "is" r rule: upstream_loop.induct) (auto simp: cbind_eq_Inr Let_def split: if_splits)

lemma backward_loop_range: "backward_loop lk l is r = Inr (Some v, r') \<Longrightarrow> v = SRx_RESULT_INVALID"
  by (induction lk l "is" r rule: backward_loop.induct) (auto simp: cbind_eq_Inr split: if_splits)

lemma downstream_range: "downstream lk l n r = Inr (Some v, r') \<Longrightarrow> v = SRx_RESULT_INVALID"
  by (auto simp: downstream_def interim_def cbind_eq_Inr Let_def dest: backward_loop_range split: if_splits)

text \<open>Whatever the database and the path are, the verdict is one of the five results a client understands; \<open>SRx_RESULT_DONOTUSE\<close>,
  by which the caches are told to keep a result, is not among them.\<close>

lemma validateASPA_range: "validateASPA l n ty dir af m = Inr v \<Longrightarrow> v \<in> aspa_results"
  using final_result_range
  by (auto simp: validateASPA_def cbind_eq_Inr Let_def aspa_results_def dest!: upstream_loop_range downstream_range split: if_splits option.splits)

section \<open>The steps of a validation\<close>

lemma getUpdateResult_query:
  assumes "uc_ok T uc" "uc_entry T uc uid = Some e"
  shows "getUpdateResult T True uc uid 0 None = Inr (True, srxResult e, defaultResult e, Some (aspathCacheID e), uc, None)"
proof -
  from assms obtain a where "a \<noteq> 0" "entry_at uc a = Inr e" "tableFind T uc uid = Inr (a, uc)" by (rule uc_entry_Some)
  then show ?thesis by (simp add: getUpdateResult_def)
qed

definition path_hops :: "PathListCacheTable \<Rightarrow> u32 list" where
  "path_hops p = (case pl_asPathList p of None \<Rightarrow> [] | Some l \<Rightarrow> l)"

definition path_verdict :: "ASPA_DBManager \<Rightarrow> PathListCacheTable \<Rightarrow> u8 cres" where
  "path_verdict m p = validateASPA (path_hops p) (ucast (pl_hops p)) (pl_asType p) (pl_asRelDir p)
     (if pl_afi p = 0 \<or> 2 < pl_afi p then 1 else ucast (pl_afi p)) m"

definition revalidated :: "nat \<Rightarrow> u8 \<Rightarrow> PathListCacheTable \<Rightarrow> PathListCacheTable" where
  "revalidated t v p = (if v = pl_aspaResult p then p else p\<lparr>pl_lastModified := t, pl_aspaResult := v\<rparr>)"

lemma aspa_part_ok:
  assumes ac: "ac_ok T (apcache s)" "ac_entry T (apcache s) k = Some p" and k: "k \<noteq> 0" and v: "path_verdict (aspaDB s) p = Inr v"
  shows "\<exists>ac'. aspa_part T env k ty r s = Inr ((v, r\<lparr>aspaResult := pl_aspaResult p\<rparr>), s\<lparr>apcache := ac'\<rparr>) \<and> ac_ok T ac' \<and>
    ac_entry T ac' = (ac_entry T (apcache s))(k \<mapsto> revalidated (now_sec env) v p)"
proof -
  define l where "l = \<lparr>apl_pathID = k, asPathLength = ucast (pl_hops p), asPathList = Some (path_hops p), aspaValResult = pl_aspaResult p,
    apl_asType = pl_asType p, apl_asRelDir = pl_asRelDir p, apl_afi = pl_afi p, apl_lastModified = pl_lastModified p\<rparr>"
  have get: "getAspathListFromAspathCache T (apcache s) k r = Inr (Some l, r\<lparr>aspaResult := pl_aspaResult p\<rparr>, apcache s)"
    using ac_lookup [OF ac k, of r] by (simp add: l_def path_hops_def)
  have val: "validateASPA (case asPathList l of Some x \<Rightarrow> x | None \<Rightarrow> []) (asPathLength l) (apl_asType l) (apl_asRelDir l)
      (if apl_afi l = 0 \<or> 2 < apl_afi l then 1 else ucast (apl_afi l)) (aspaDB s) = Inr v"
    unfolding v [symmetric] path_verdict_def by (simp add: l_def)
  have same: "s\<lparr>apcache := apcache s\<rparr> = s" by simp
  have "aspaValResult l = pl_aspaResult p" by (simp add: l_def)
  then have verdict: "aspa_verdict T env k l s = (if v \<noteq> pl_aspaResult p
      then cbind (modifyAspaValidationResultToAspathCache T (apcache s) k v (Some (l\<lparr>apl_lastModified := now_sec env\<rparr>))) (\<lambda>(_, ac).
             Inr (v, s\<lparr>apcache := ac\<rparr>))
      else Inr (v, s))"
    unfolding aspa_verdict_def Let_def val by simp
  have part: "aspa_part T env k ty r s = cbind (aspa_verdict T env k l s) (\<lambda>(v, s). Inr ((v, r\<lparr>aspaResult := pl_aspaResult p\<rparr>), s))"
    by (simp add: aspa_part_def get same)
  show ?thesis
  proof (cases "v = pl_aspaResult p")
    case True
    then have "aspa_part T env k ty r s = Inr ((v, r\<lparr>aspaResult := pl_aspaResult p\<rparr>), s)"
      by (simp add: part verdict)
    moreover have "(ac_entry T (apcache s))(k \<mapsto> p) = ac_entry T (apcache s)" using ac(2) by auto
    ultimately show ?thesis using True ac same by (intro exI [of _ "apcache s"]) (simp add: revalidated_def)
  next
    case False
    have "v \<noteq> SRx_RESULT_DONOTUSE" using validateASPA_range [OF val] by (auto simp: aspa_results_def)
    from ac_modify_ok [OF ac this] obtain ac' where
      "modifyAspaValidationResultToAspathCache T (apcache s) k v (Some (l\<lparr>apl_lastModified := now_sec env\<rparr>)) = Inr (True, ac')" "ac_ok T ac'"
      "ac_entry T ac' = (ac_entry T (apcache s))(k \<mapsto> revalidated (now_sec env) v p)"
      using False unfolding revalidated_def by fastforce
    moreover from this(1) have "aspa_part T env k ty r s = Inr ((v, r\<lparr>aspaResult := pl_aspaResult p\<rparr>), s\<lparr>apcache := ac'\<rparr>)"
      using False by (simp add: part verdict)
    ultimately show ?thesis by auto
  qed
qed

text \<open>A result that the AS path cache already had takes the place of the verdict, except for a path that is an AS set. With the default
  result \<open>SRx_RESULT_INVALID\<close> the path is not validated at all, and that is the result.\<close>

definition recorded_aspa :: "u8 \<Rightarrow> u8 \<Rightarrow> PathListCacheTable \<Rightarrow> u8" where
  "recorded_aspa v reqAsType p =
     (if pl_aspaResult p \<noteq> SRx_RESULT_UNDEFINED \<and> ucast reqAsType \<noteq> AS_SET then pl_aspaResult p else v)"

lemma aspa_step_ok:
  fixes d :: SRxDefaultResult
  assumes ac: "ac_ok T (apcache s)" "ac_entry T (apcache s) k = Some p" and k: "k \<noteq> 0" and v: "path_verdict (aspaDB s) p = Inr v"
    and r: "aspaResult r = SRx_RESULT_UNDEFINED"
  defines "no_aspa \<equiv> aspaResult (defResult d) = SRx_RESULT_INVALID"
  shows "\<exists>ac'. aspa_step T env True k ty r d s = Inr (if no_aspa then SRx_RESULT_INVALID else recorded_aspa v ty p, s\<lparr>apcache := ac'\<rparr>) \<and> ac_ok T ac' \<and>
    ac_entry T ac' = (if no_aspa then ac_entry T (apcache s) else (ac_entry T (apcache s))(k \<mapsto> revalidated (now_sec env) v p))"
proof (cases no_aspa)
  case True
  then have "aspa_step T env True k ty r d s = Inr (SRx_RESULT_INVALID, s\<lparr>apcache := apcache s\<rparr>)"
    using r by (simp add: aspa_step_def no_aspa_def)
  then show ?thesis using True ac(1) by (intro exI [of _ "apcache s"]) simp
next
  case False
  obtain ac' where ac': "aspa_part T env k ty r s = Inr ((v, r\<lparr>aspaResult := pl_aspaResult p\<rparr>), s\<lparr>apcache := ac'\<rparr>)" "ac_ok T ac'"
    "ac_entry T ac' = (ac_entry T (apcache s))(k \<mapsto> revalidated (now_sec env) v p)"
    using aspa_part_ok [OF ac k v, of env ty r] by blast
  have "aspa_step T env True k ty r d s = Inr (recorded_aspa v ty p, s\<lparr>apcache := ac'\<rparr>)"
    using r k False by (simp add: aspa_step_def ac'(1) recorded_aspa_def no_aspa_def)
  then show ?thesis using ac' False by auto
qed

text \<open>The final update of the results.\<close>

lemma record_aspa_ok:
  assumes "updateCache (pcache s) = Some uc" "uc_ok T uc" "uc_entry T uc uid = Some e" "x \<noteq> SRx_RESULT_DONOTUSE"
  shows "\<exists>uc' b. on_updCache (\<lambda>uc. modifyUpdateResult T uc uid \<lparr>roaResult = SRx_RESULT_DONOTUSE, bgpsecResult = SRx_RESULT_DONOTUSE, aspaResult = x\<rparr> False) s =
      Inr (b, s\<lparr>pcache := (pcache s)\<lparr>updateCache := Some uc'\<rparr>\<rparr>) \<and> uc_ok T uc' \<and>
    uc_entry T uc' = (uc_entry T uc)(uid \<mapsto> e\<lparr>srxResult := (srxResult e)\<lparr>aspaResult := x\<rparr>\<rparr>)"
proof -
  have merge: "merge_result (srxResult e) \<lparr>roaResult = SRx_RESULT_DONOTUSE, bgpsecResult = SRx_RESULT_DONOTUSE, aspaResult = x\<rparr> =
      (srxResult e)\<lparr>aspaResult := x\<rparr>"
    using assms(4) by (cases "srxResult e") (simp add: merge_result_def)
  obtain uc' b where "modifyUpdateResult T uc uid \<lparr>roaResult = SRx_RESULT_DONOTUSE, bgpsecResult = SRx_RESULT_DONOTUSE, aspaResult = x\<rparr> False = Inr (b, uc')"
    "uc_ok T uc'" "uc_entry T uc' = (uc_entry T uc)(uid \<mapsto> e\<lparr>srxResult := (srxResult e)\<lparr>aspaResult := x\<rparr>\<rparr>)"
    using modifyUpdateResult_ok [OF assms(2,3), of "\<lparr>roaResult = SRx_RESULT_DONOTUSE, bgpsecResult = SRx_RESULT_DONOTUSE, aspaResult = x\<rparr>" False]
    unfolding merge by blast
  then show ?thesis using assms(1) by (auto simp: on_updCache_def)
qed

section \<open>Properties\<close>

lemma processUpdateValidation_ok:
  fixes P :: "'p patricia" and s :: "('p, 't) Server"
  assumes flags: "isSet8 (vr_flags r) SRX_FLAG_ROA" "isSet8 (vr_flags r) SRX_FLAG_ASPA" "\<not> isSet8 (vr_flags r) SRX_FLAG_BGPSEC"
    and env: "upd_malloc env = (\<lambda>_. True)"
    and tree: "prefixTree (pcache s) = Some t" "patricia_lookup P t (ipPrefixToPrefix_t (request_prefix r)) = (Some (n, new), t')"
    and known: "new \<longleftrightarrow> node_data (pcache s) n = None" and n: "n \<notin> set (node_parents P t' n)"
    and lists: "\<And>p. node_data (pcache s) n = Some p \<Longrightarrow> lost (valid p) = 0 \<and> lost (other p) = 0"
    and states: "states_ok (node_data (pcache s)) (n # node_parents P t' n)"
    and cover: "coverage_ok (node_bitlen P t') (pc_roas (pcache s)) (node_data (pcache s)) (n # node_parents P t' n)"
    and roas: "roas_ok (pc_roas (pcache s)) (node_bitlen P t' n) (ntohl (vr_originAS r)) (roas_on (node_data (pcache s)) (n # node_parents P t' n))"
    and uc: "updateCache (pcache s) = Some uc" "uc_ok T uc" "uc_entry T uc uid = Some e"
    and undefined: "roaResult (srxResult e) = SRx_RESULT_UNDEFINED" "aspaResult (srxResult e) = SRx_RESULT_UNDEFINED"
    and ac: "ac_ok T (apcache s)" "ac_entry T (apcache s) (aspathCacheID e) = Some p" "aspathCacheID e \<noteq> 0"
      "pl_aspaResult p \<noteq> SRx_RESULT_DONOTUSE"
    and v: "path_verdict (aspaDB s) p = Inr v"
  defines "no_aspa \<equiv> aspaResult (defResult (defaultResult e)) = SRx_RESULT_INVALID"
  shows "\<exists>s' uc'. processUpdateValidation T P env uid r s = Inr (True, s') \<and> updateCache (pcache s') = Some uc' \<and> uc_ok T uc' \<and>
    uc_entry T uc' = (uc_entry T uc)(uid \<mapsto> e\<lparr>srxResult := (srxResult e)\<lparr>
      roaResult := origin_state (pc_roas (pcache s)) (node_bitlen P t' n) (ntohl (vr_originAS r)) (roas_on (node_data (pcache s)) (n # node_parents P t' n)),
      aspaResult := (if no_aspa then SRx_RESULT_INVALID else recorded_aspa v (vr_asType r) p)\<rparr>\<rparr>) \<and>
    ac_ok T (apcache s') \<and>
    ac_entry T (apcache s') = (if no_aspa then ac_entry T (apcache s) else (ac_entry T (apcache s))(aspathCacheID e \<mapsto> revalidated (now_sec env) v p))"
proof -
  define x where "x = (if no_aspa then SRx_RESULT_INVALID else recorded_aspa v (vr_asType r) p)"
  define st where "st = origin_state (pc_roas (pcache s)) (node_bitlen P t' n) (ntohl (vr_originAS r)) (roas_on (node_data (pcache s)) (n # node_parents P t' n))"
  obtain pc1 uc1 where pc1: "requestUpdateValidation T P (\<lambda>_. True) (upd_addr env) (pcache s) uid (request_prefix r) (ntohl (vr_originAS r)) = Inr (True, pc1)"
    "updateCache pc1 = Some uc1" "uc_ok T uc1" "uc_entry T uc1 = (uc_entry T uc)(uid \<mapsto> roa_set st e)"
    using requestUpdateValidation_ok [OF tree known n lists uc states cover roas, of "upd_addr env"] unfolding Let_def st_def by blast
  define s1 where "s1 = s\<lparr>pcache := pc1\<rparr>"
  have origin: "origin_part T P env uid True (srxResult e) r s = Inr (True, s1)"
    using pc1(1) undefined(1) by (simp add: origin_part_def env s1_def)
  have s1: "apcache s1 = apcache s" "aspaDB s1 = aspaDB s" "pcache s1 = pc1" by (simp_all add: s1_def)
  obtain ac' where ac': "aspa_step T env True (aspathCacheID e) (vr_asType r) (srxResult e) (defaultResult e) s1 =
      Inr (x, s1\<lparr>apcache := ac'\<rparr>)" "ac_ok T ac'"
    "ac_entry T ac' = (if no_aspa then ac_entry T (apcache s) else (ac_entry T (apcache s))(aspathCacheID e \<mapsto> revalidated (now_sec env) v p))"
    using aspa_step_ok [of T s1, unfolded s1, OF ac(1-3) v undefined(2), of env "vr_asType r" "defaultResult e"] unfolding no_aspa_def x_def by blast
  have "v \<noteq> SRx_RESULT_DONOTUSE" using validateASPA_range v unfolding path_verdict_def by (fastforce simp: aspa_results_def)
  then have x: "x \<noteq> SRx_RESULT_DONOTUSE" using ac(4) unfolding x_def recorded_aspa_def by simp
  define s2 where "s2 = s1\<lparr>apcache := ac'\<rparr>"
  have s2: "updateCache (pcache s2) = Some uc1" "apcache s2 = ac'" using pc1(2) by (simp_all add: s2_def s1_def)
  have e1: "uc_entry T uc1 uid = Some (roa_set st e)" using pc1(4) by simp
  obtain uc' b where uc': "on_updCache (\<lambda>uc. modifyUpdateResult T uc uid \<lparr>roaResult = SRx_RESULT_DONOTUSE, bgpsecResult = SRx_RESULT_DONOTUSE,
        aspaResult = x\<rparr> False) s2 = Inr (b, s2\<lparr>pcache := (pcache s2)\<lparr>updateCache := Some uc'\<rparr>\<rparr>)" "uc_ok T uc'"
    "uc_entry T uc' = (uc_entry T uc1)(uid \<mapsto> (roa_set st e)\<lparr>srxResult := (srxResult (roa_set st e))\<lparr>aspaResult := x\<rparr>\<rparr>)"
    using record_aspa_ok [OF s2(1) pc1(3) e1 x] by blast
  have query: "on_updCache (\<lambda>uc. cbind (getUpdateResult T True uc uid 0 None) (\<lambda>(found, sres, dres, pid, uc, _).
      Inr ((found, sres, dres, case pid of Some p \<Rightarrow> p | None \<Rightarrow> 0), uc))) s = Inr ((True, srxResult e, defaultResult e, aspathCacheID e), s)"
    using uc(1) by (simp add: on_updCache_def getUpdateResult_query [OF uc(2,3)])
  have "processUpdateValidation T P env uid r s = Inr (True, s2\<lparr>pcache := (pcache s2)\<lparr>updateCache := Some uc'\<rparr>\<rparr>)"
    using flags x uc'(1) ac'(1) unfolding s2_def [symmetric]
    by (simp add: processUpdateValidation_def query path_part_def origin del: SRx_RESULT_DONOTUSE_def)
  then show ?thesis using uc'(2,3) ac'(2,3) pc1(4) s2(2) unfolding x_def by (auto simp: st_def)
qed

text \<open>C2. A request for origin and ASPA validation, and not for BGPsec validation, of an update that is stored with both results undefined and whose AS path is in
  the AS path cache, with a result other than \<open>SRx_RESULT_DONOTUSE\<close>. If memory can be allocated, the prefix cache is consistent on the path from the update's prefix to the root (as in the property of
  \<open>requestUpdateValidation\<close>), and \<open>validateASPA\<close> gives the verdict \<open>v\<close> for the cached path, then \<open>processUpdateValidation\<close> succeeds and every other update and path
  is as before. The update has the origin state of RFC 6811. If its default ASPA result is invalid, its ASPA result is invalid and the AS path cache does not change. Otherwise the AS path
  cache has the verdict, and the ASPA result of the update is the verdict, unless the AS path cache had a result from an
  earlier validation and the request does not say that the path is an AS set: then that earlier result is recorded for the update.\<close>

theorem processUpdateValidation_origin_aspa:
  fixes P :: "'p patricia" and s :: "('p, 't) Server"
  assumes flags: "isSet8 (vr_flags r) SRX_FLAG_ROA" "isSet8 (vr_flags r) SRX_FLAG_ASPA" "\<not> isSet8 (vr_flags r) SRX_FLAG_BGPSEC"
    and env: "upd_malloc env = (\<lambda>_. True)"
    and tree: "prefixTree (pcache s) = Some t" "patricia_lookup P t (ipPrefixToPrefix_t (request_prefix r)) = (Some (n, new), t')"
    and known: "new \<longleftrightarrow> node_data (pcache s) n = None" and n: "n \<notin> set (node_parents P t' n)"
    and lists: "\<And>p. node_data (pcache s) n = Some p \<Longrightarrow> lost (valid p) = 0 \<and> lost (other p) = 0"
    and states: "states_ok (node_data (pcache s)) (n # node_parents P t' n)"
    and cover: "coverage_ok (node_bitlen P t') (pc_roas (pcache s)) (node_data (pcache s)) (n # node_parents P t' n)"
    and roas: "roas_ok (pc_roas (pcache s)) (node_bitlen P t' n) (ntohl (vr_originAS r)) (roas_on (node_data (pcache s)) (n # node_parents P t' n))"
    and uc: "updateCache (pcache s) = Some uc" "uc_ok T uc" "uc_entry T uc uid = Some e"
    and undefined: "roaResult (srxResult e) = SRx_RESULT_UNDEFINED" "aspaResult (srxResult e) = SRx_RESULT_UNDEFINED"
    and ac: "ac_ok T (apcache s)" "ac_entry T (apcache s) (aspathCacheID e) = Some p" "aspathCacheID e \<noteq> 0"
      "pl_aspaResult p \<noteq> SRx_RESULT_DONOTUSE"
    and v: "path_verdict (aspaDB s) p = Inr v"
  defines "no_aspa \<equiv> aspaResult (defResult (defaultResult e)) = SRx_RESULT_INVALID"
  shows "\<exists>s' uc'. processUpdateValidation T P env uid r s = Inr (True, s') \<and> updateCache (pcache s') = Some uc' \<and> uc_ok T uc' \<and>
    uc_entry T uc' = (uc_entry T uc)(uid \<mapsto> e\<lparr>srxResult := (srxResult e)\<lparr>
      roaResult := origin_state (pc_roas (pcache s)) (node_bitlen P t' n) (ntohl (vr_originAS r)) (roas_on (node_data (pcache s)) (n # node_parents P t' n)),
      aspaResult := (if no_aspa then SRx_RESULT_INVALID else recorded_aspa v (vr_asType r) p)\<rparr>\<rparr>) \<and>
    ac_ok T (apcache s') \<and>
    ac_entry T (apcache s') = (if no_aspa then ac_entry T (apcache s) else (ac_entry T (apcache s))(aspathCacheID e \<mapsto> revalidated (now_sec env) v p))"
  unfolding no_aspa_def using assms(1-22) by (rule processUpdateValidation_ok)

section \<open>A server\<close>

definition open_entry :: CacheEntry where
  "open_entry = sample_entry\<lparr>srxResult := \<lparr>roaResult = SRx_RESULT_UNDEFINED, bgpsecResult = SRx_RESULT_UNDEFINED, aspaResult = SRx_RESULT_UNDEFINED\<rparr>\<rparr>"

definition open_cache :: "((u32 \<Rightarrow> addr) \<times> addr list) UpdateCache" where
  "open_cache = sample_cache\<lparr>entries := [4 \<mapsto> open_entry]\<rparr>"

definition one_hop :: PathListCacheTable where
  "one_hop = \<lparr>pl_pathId = 77, pl_hops = 1, pl_asPathList = Some [65001], pl_aspaResult = SRx_RESULT_UNDEFINED, pl_asType = AS_SEQUENCE,
     pl_asRelDir = ASPA_UPSTREAM, pl_afi = 1, pl_lastModified = 0\<rparr>"

definition one_path :: "((u32 \<Rightarrow> addr) \<times> addr list) AspathCache" where
  "one_path = \<lparr>aspathCacheTable = ((\<lambda>_. 0)(77 := 1), [1]), ac_entries = [1 \<mapsto> one_hop], ac_tableLock = Unlocked\<rparr>"

definition sample_server :: "(prefix_t list, (u32 \<Rightarrow> addr) \<times> addr list) Server" where
  "sample_server = \<lparr>pcache = sample_pc\<lparr>updateCache := Some open_cache\<rparr>, aspaDB = sample_db, apcache = one_path, proxies = one_proxy,
     threads = [5 \<mapsto> \<lparr>ct_active = True, initialized = False, ct_proxyID = 0, goodByeReceived = False, routerID = 0\<rparr>],
     clientList = empty_list, cthreads = empty_list, sender = \<lparr>sent = [], SEND_QUEUE = None\<rparr>\<rparr>"

definition sample_env :: env where
  "sample_env = \<lparr>net = (\<lambda>_. True), now_sec = 100, sq_malloc = None, cfg_keepWindow = 900, syncAfterConnEstablished = False,
     crypto_validate = (\<lambda>_ _ _. 1), upd_malloc = (\<lambda>_. True), upd_addr = 5\<rparr>"

definition sample_request :: VerifyRequest where
  "sample_request = \<lparr>vr_v4 = True, vr_flags = 5, roaResSrc = 0, bgpsecResSrc = 0, aspaResSrc = 0, vr_asType = 2, vr_asRelType = 1,
     vr_length = 0, roaDefRes = 3, bgpsecDefRes = 3, aspaDefRes = 3, prefixLen = 24, requestToken = 0, prefixAddress = take 4 (addr (ip sample_prefix)),
     vr_originAS = ntohl 65001, numHops = 0, attrLen = 0, val_afi = 0, val_safi = 0, val_local_as = 0, vr_payload = []\<rparr>"

lemma open_cache_ok: "uc_ok fun_table open_cache" "uc_entry fun_table open_cache k = (if k = 9 then Some open_entry else None)"
proof -
  have "entry_wf open_entry" "ceUpdateID open_entry = 9" using sample_entry_wf(1) by (simp_all add: open_entry_def entry_wf_def split: option.splits)
  then show "uc_ok fun_table open_cache" by (auto simp: uc_ok_def open_cache_def sample_cache_def split: if_splits)
  show "uc_entry fun_table open_cache k = (if k = 9 then Some open_entry else None)"
    by (simp add: uc_entry_def open_cache_def sample_cache_def)
qed

lemma one_path_ok: "ac_ok fun_table one_path" "ac_entry fun_table one_path k = (if k = 77 then Some one_hop else None)"
  by (auto simp: ac_ok_def ac_entry_def one_path_def one_hop_def path_wf_def split: if_splits)

lemma one_hop_verdict: "path_verdict m one_hop = Inr SRx_RESULT_VALID"
  by (simp add: path_verdict_def one_hop_def path_hops_def validateASPA_def reverse_arr.simps initial_result_def final_result_def)

lemma ntohl_ntohl: "ntohl (ntohl 65001) = 65001"
  by (simp add: ntohl_def)

lemma sample_request_prefix: "request_prefix sample_request = sample_prefix"
  by (simp add: request_prefix_def sample_request_def sample_prefix_def)

lemma sample_origin:
  "states_ok [1 \<mapsto> roa_node] [2, 1]" "roas_on [1 \<mapsto> roa_node] [2, 1] = [(65001, 1)]"
  "coverage_ok (node_bitlen list_patricia [p8, ipPrefixToPrefix_t sample_prefix]) [1 \<mapsto> sample_roa] [1 \<mapsto> roa_node] [2, 1]"
  "roas_ok [1 \<mapsto> sample_roa] 24 65001 [(65001, 1)]" "origin_state [1 \<mapsto> sample_roa] 24 65001 [(65001, 1)] = SRx_RESULT_VALID"
proof -
  show "coverage_ok (node_bitlen list_patricia [p8, ipPrefixToPrefix_t sample_prefix]) [1 \<mapsto> sample_roa] [1 \<mapsto> roa_node] [2, 1]"
    unfolding coverage_ok.simps using sample_lookup by (simp add: prefix_roas_def roa_node_def admits_def sample_roa_def)
qed (simp_all add: prefix_roas_def roa_node_def admits_def sample_roa_def roas_ok_def match_count_def origin_state_def)

theorem processUpdateValidation_origin_aspa_witness:
  "\<exists>s' uc'. processUpdateValidation fun_table list_patricia sample_env 9 sample_request sample_server = Inr (True, s') \<and>
    updateCache (pcache s') = Some uc' \<and>
    map_option srxResult (uc_entry fun_table uc' 9) =
      Some \<lparr>roaResult = SRx_RESULT_VALID, bgpsecResult = SRx_RESULT_UNDEFINED, aspaResult = SRx_RESULT_VALID\<rparr>"
proof -
  let ?t = "[p8, ipPrefixToPrefix_t sample_prefix]"
  have srv: "prefixTree (pcache sample_server) = Some [p8]" "node_data (pcache sample_server) = [1 \<mapsto> roa_node]"
    "pc_roas (pcache sample_server) = [1 \<mapsto> sample_roa]" "updateCache (pcache sample_server) = Some open_cache"
    "apcache sample_server = one_path" by (simp_all add: sample_server_def sample_pc_def)
  have req: "isSet8 (vr_flags sample_request) SRX_FLAG_ROA" "isSet8 (vr_flags sample_request) SRX_FLAG_ASPA"
    "\<not> isSet8 (vr_flags sample_request) SRX_FLAG_BGPSEC" "ntohl (vr_originAS sample_request) = 65001" "vr_asType sample_request = 2"
    by (simp_all add: sample_request_def isSet8_def isSet_def ntohl_ntohl)
  have env: "upd_malloc sample_env = (\<lambda>_. True)" by (simp add: sample_env_def)
  have look: "patricia_lookup list_patricia [p8] (ipPrefixToPrefix_t (request_prefix sample_request)) = (Some (2, True), ?t)"
    by (simp only: sample_request_prefix sample_lookup(1))
  have ent: "roaResult (srxResult open_entry) = SRx_RESULT_UNDEFINED" "aspaResult (srxResult open_entry) = SRx_RESULT_UNDEFINED"
    "aspaResult (defResult (defaultResult open_entry)) \<noteq> SRx_RESULT_INVALID" "aspathCacheID open_entry = 77"
    by (simp_all add: open_entry_def sample_entry_def unknown_default_def)
  have rec: "recorded_aspa SRx_RESULT_VALID 2 one_hop = SRx_RESULT_VALID" "pl_aspaResult one_hop \<noteq> SRx_RESULT_DONOTUSE"
    by (simp_all add: recorded_aspa_def one_hop_def)
  note main = processUpdateValidation_origin_aspa [OF req(1-3) env srv(1) look, unfolded srv req sample_lookup, of open_cache fun_table 9 open_entry one_hop SRx_RESULT_VALID]
  obtain s' uc' where "processUpdateValidation fun_table list_patricia sample_env 9 sample_request sample_server = Inr (True, s')"
    "updateCache (pcache s') = Some uc'"
    "uc_entry fun_table uc' = (uc_entry fun_table open_cache)(9 \<mapsto> open_entry\<lparr>srxResult := (srxResult open_entry)\<lparr>
      roaResult := SRx_RESULT_VALID, aspaResult := SRx_RESULT_VALID\<rparr>\<rparr>)"
    using main sample_origin open_cache_ok one_path_ok one_hop_verdict ent rec
    by (auto simp: sample_origin rec simp del: SRx_RESULT_VALID_def SRx_RESULT_UNDEFINED_def SRx_RESULT_DONOTUSE_def SRx_RESULT_INVALID_def states_ok.simps coverage_ok.simps roas_on_simps)
  then show ?thesis by (auto simp: open_entry_def)
qed

section \<open>The command loop\<close>

definition shutdown_command :: "srx_pdu command" where
  "shutdown_command = (0, 0, COMMAND_TYPE_SHUTDOWN, 0, 0, None)"

text \<open>C13. No command is lost or reordered: commands queued one after the other, followed by a shutdown, are processed by the command handler
  exactly once each and in that order, then the loop ends and the queue is empty.\<close>

theorem handleCommands_in_order:
  assumes "cq_ok q" "cq_pending q = []" "cq_inflight q = []"
    and mem: "pairwise_apart cq_apart (map fst mis @ [m])" "\<forall>(m, i)\<in>set mis. cq_usable m i q" "cq_usable m shutdown_command q"
    and cmds: "\<forall>i\<in>set (map snd mis). \<not> is_shutdown i"
    and work: "cfold (process_command T P envs) (map snd mis) (k, s) = Inr (k', s')"
  shows "\<exists>q1 q2. push_all cq_push q (mis @ [(m, shutdown_command)]) = Some (Inr q1) \<and>
    handleCommands T P envs q1 (k, s) = Some (Inr (q2, k', s')) \<and> cq_ok q2 \<and> cq_pending q2 = [] \<and> cq_inflight q2 = []"
proof -
  have "pairwise_apart cq_apart (map fst (mis @ [(m, shutdown_command)]))"
    "\<forall>(m, i)\<in>set (mis @ [(m, shutdown_command)]). cq_usable m i q" using mem by auto
  then obtain q1 where q1: "push_all cq_push q (mis @ [(m, shutdown_command)]) = Some (Inr q1)" "cq_ok q1" "cq_inflight q1 = []"
    "cq_pending q1 = map snd mis @ shutdown_command # []"
    using cq.push_all_ok [OF assms(1), of "mis @ [(m, shutdown_command)]"] assms(2,3) by auto
  have stop: "is_shutdown shutdown_command" by (simp add: shutdown_command_def is_shutdown_def)
  show ?thesis
    using cq.serve_ok [OF q1(2-4) stop cmds work] q1(1) unfolding handleCommands_def by blast
qed

text \<open>A queue with one peer change request, in memory of its own.\<close>

definition new_queue :: "srx_pdu CommandQueue" where
  "new_queue = \<lparr>cq_heap = \<lparr>nodes = Map.empty, blocks = {}\<rparr>, cq_items = Map.empty, queue = \<lparr>root = 0, last_node = 0, lsize = 0\<rparr>,
     nextItemNode = 0, cmdQueueMutex = MutexFree, totalItems = 0, unprocessedItems = 0, alive = True\<rparr>"

definition peer_change :: "srx_pdu command" where
  "peer_change = (0, 5, COMMAND_TYPE_SRX_PROXY, 9, 8, Some PeerChangePDU)"

lemma new_queue_inv: "cq_inv new_queue [] []"
  by (simp add: cq_inv_def new_queue_def slist_ok_def)

theorem handleCommands_in_order_witness:
  "\<exists>q1 q2. push_all cq_push new_queue [((10, 20), peer_change), ((11, 21), shutdown_command)] = Some (Inr q1) \<and>
    handleCommands fun_table list_patricia (\<lambda>_. sample_env) q1 (0, sample_server) = Some (Inr (q2, 1, sample_server)) \<and>
    cq_pending q2 = []"
proof -
  have q: "cq_ok new_queue" "cq_pending new_queue = []" "cq_inflight new_queue = []"
    using new_queue_inv cq_views [OF new_queue_inv] unfolding cq_ok_def by auto
  have apart: "pairwise_apart cq_apart (map fst [((10, 20), peer_change)] @ [(11, 21)])" by (simp add: cq_apart_def)
  have use: "\<forall>(m, i)\<in>set [((10, 20), peer_change)]. cq_usable m i new_queue" "cq_usable (11, 21) shutdown_command new_queue"
    by (simp_all add: cq_usable_def new_queue_def peer_change_def shutdown_command_def)
  have cmd: "\<forall>i\<in>set (map snd [((10::addr, 20::addr), peer_change)]). \<not> is_shutdown i" by (simp add: is_shutdown_def peer_change_def)
  have work: "cfold (process_command fun_table list_patricia (\<lambda>_. sample_env)) (map snd [((10::addr, 20::addr), peer_change)]) (0, sample_server) =
      Inr (1, sample_server)"
    by (simp add: process_command_def peer_change_def process_pdu_def processPeerChange_def)
  show ?thesis using handleCommands_in_order [OF q apart use cmd work] by auto
qed

lemma stop_stale:
  assumes "cq_inv q xs (y # ys)" "a \<noteq> 0" "nodes (cq_heap q) a = None" "d \<noteq> 0"
  shows "\<exists>q'. stopProcessingCommands [(a, d)] q = Some (Inr q') \<and> fetchNextCommand q' = Some (Inl UseAfterFree)"
proof -
  obtain q1 where q1: "removeAllCommands q = Some (Inr q1)" "stale q1" "nextItemNode q1 = y"
    "nodes (cq_heap q1) = (\<lambda>x. if x \<in> set (xs @ y # ys) then None else nodes (cq_heap q) x)"
    using removeAllCommands_stale [OF assms(1)] by blast
  have "path (cq_heap q) (root (queue q)) (xs @ y # ys) 0" using assms(1) unfolding cq_inv_def slist_ok_def by blast
  from path_mem [OF this, of y] have "a \<noteq> nextItemNode q1" using q1(3) assms(3) by auto
  moreover have "nodes (cq_heap q1) a = None" unfolding q1(4) using assms(3) by simp
  ultimately obtain q2 where "queueCommand (Some a) (Some d) True q1 COMMAND_TYPE_SHUTDOWN 0 0 0 0 None = Some (Inr (True, q2))"
    "fetchNextCommand q2 = Some (Inl UseAfterFree)"
    using stale_push_fetch [OF q1(2) assms(2) _ assms(4), where dat = None and len = 0] by blast
  then show ?thesis using q1(1) by (simp add: stopProcessingCommands_def)
qed

text \<open>Stopping the server while a command waits is a use of freed memory: \<open>removeAllCommands\<close> frees the queue but leaves the pointer to the next command,
  the shutdown command queued afterwards does not replace it, and the command handler reads the freed node instead of the shutdown (for a
  new node that is not by chance at the address of the freed one).\<close>

lemma stopProcessingCommands_crashes:
  assumes "cq_ok q" "cq_pending q \<noteq> []" "a \<noteq> 0" "nodes (cq_heap q) a = None" "d \<noteq> 0"
  shows "\<exists>q'. stopProcessingCommands [(a, d)] q = Some (Inr q') \<and> handleCommands T P envs q' st = Some (Inl UseAfterFree)"
proof -
  obtain xs ys where inv: "cq_inv q xs ys" using assms(1) unfolding cq_ok_def by blast
  then obtain y ys' where "ys = y # ys'" using cq_views(2) [OF inv] assms(2) by (cases ys) auto
  then obtain q' where "stopProcessingCommands [(a, d)] q = Some (Inr q')" "fetchNextCommand q' = Some (Inl UseAfterFree)"
    using stop_stale inv assms(3-5) by blast
  moreover from this(2) have "handleCommands T P envs q' st = Some (Inl UseAfterFree)"
    unfolding handleCommands_def by (subst serve.simps) simp
  ultimately show ?thesis by blast
qed

theorem stopProcessingCommands_crashes_witness:
  "\<exists>q q'. push_all cq_push new_queue [((10, 20), peer_change)] = Some (Inr q) \<and> stopProcessingCommands [(11, 21)] q = Some (Inr q') \<and>
    handleCommands fun_table list_patricia (\<lambda>_. sample_env) q' (0, sample_server) = Some (Inl UseAfterFree)"
proof -
  have use: "cq_usable (10, 20) peer_change new_queue" "cq_usable (11, 21) shutdown_command new_queue" "cq_apart (10, 20) (11, 21)"
    by (simp_all add: cq_usable_def new_queue_def peer_change_def shutdown_command_def cq_apart_def)
  obtain q where "cq_push (10, 20) new_queue peer_change = Some (Inr (True, q))" "cq_inv q [] ([] @ [fst (10, 20 :: addr)])"
    "cq_pending q = cq_pending new_queue @ [peer_change]"
    "\<forall>m i. cq_usable m i new_queue \<longrightarrow> cq_apart (10, 20) m \<longrightarrow> cq_usable m i q"
    using cq_push_ok [OF new_queue_inv use(1)] by blast
  then have q: "cq_push (10, 20) new_queue peer_change = Some (Inr (True, q))" "cq_inv q [] [10]" "cq_pending q = [peer_change]"
    "cq_usable (11, 21) shutdown_command q"
    using use(2,3) cq_views(2) [OF new_queue_inv] by (simp_all del: split_paired_All)
  then have ok: "cq_ok q" "cq_pending q \<noteq> []" "(11::addr) \<noteq> 0" "nodes (cq_heap q) 11 = None" "(21::addr) \<noteq> 0"
    by (auto simp: cq_ok_def cq_usable_def)
  show ?thesis using stopProcessingCommands_crashes [OF ok] q(1) by auto
qed

end
