(* ===== verification/Handshake.thy ===== *)
theory Handshake
  imports Command_Handler
begin


lemma create_loop_free:
  "set is \<subseteq> {1..<256} \<Longrightarrow> create_loop ms is = c \<Longrightarrow> c \<noteq> 0 \<Longrightarrow> unat c \<in> set is \<and> proxyID (ms ! unat c) = 0"
  by (induction "is") (auto split: if_splits)


lemma createClientID_free: "createClientID s = c \<Longrightarrow> c \<noteq> 0 \<Longrightarrow> proxyID (mapping_at s c) = 0 \<and> 0 < unat c"
  using create_loop_free [of "[1..<256]" "proxyMap s" c] by (auto simp: createClientID_def mapping_at_def)







section \<open>Properties\<close>


text \<open>A proxy with the identifier zero is accepted, and from then on every proxy that has no client identifier yet is
  refused: the mapping is made active without a proxy, the next search for a free client identifier finds it again, and the
  mapping is refused because it is active.\<close>

lemma zero_proxy_blocks:
  assumes "length (proxyMap pm) = 256" "createClientID pm = c" "c \<noteq> 0" "\<not> isActive (mapping_at pm c)"
  shows "\<exists>pm'. handshake_clientID pm 0 client = (c, pm') \<and>
    (\<forall>pid client'. (\<forall>i. 0 < i \<and> i < 256 \<longrightarrow> proxyID (proxyMap pm ! i) \<noteq> pid) \<longrightarrow> handshake_clientID pm' pid client' = (0, pm'))"
proof -
  have free: "proxyID (mapping_at pm c) = 0" using createClientID_free [OF assms(2,3)] by simp
  have find0: "findClientID pm 0 = 0" by (simp add: findClientID_def)
  define m where "m = (mapping_at pm c)\<lparr>proxyID := 0, socket := client, isActive := True, crashed := 0\<rparr>"
  define pm' where "pm' = set_mapping c m (pm\<lparr>noMappings := noMappings pm + 1\<rparr>)"
  have "addMapping pm 0 c client True = (True, pm')"
    using free assms(4) by (simp add: addMapping_def mapping_possible_def find0 Let_def pm'_def m_def)
  then have first: "handshake_clientID pm 0 client = (c, pm')" using assms(2,3) by (simp add: handshake_clientID_def find0 word_gt_0)
  have len: "length (proxyMap (pm\<lparr>noMappings := noMappings pm + 1\<rparr>)) = 256" using assms(1) by simp
  have ids: "proxyID (proxyMap pm' ! i) = proxyID (proxyMap pm ! i)" if "i < 256" for i
    unfolding pm'_def set_mapping_nth [OF len that] using free by (simp add: m_def mapping_at_def)
  have "create_loop (proxyMap pm') is = create_loop (proxyMap pm) is" if "set is \<subseteq> {1..<256}" for "is"
    using that ids by (induction "is") auto
  then have again: "createClientID pm' = c" using assms(2) by (simp add: createClientID_def)
  have at: "mapping_at pm' c = m" unfolding pm'_def using set_mapping_sel(3) [OF len] .
  have "handshake_clientID pm' pid client' = (0, pm')" if pid: "\<forall>i. 0 < i \<and> i < 256 \<longrightarrow> proxyID (proxyMap pm ! i) \<noteq> pid" for pid client'
  proof -
    have "findClientID pm' pid = 0" using pid ids by (intro findClientID_miss) simp
    moreover from this have "\<not> mapping_possible pm' pid c client'" using at by (simp add: mapping_possible_def Let_def m_def)
    ultimately show ?thesis using again by (simp add: handshake_clientID_def addMapping_def)
  qed
  then show ?thesis using first by blast
qed





theorem zero_proxy_blocks_witness:
  "\<exists>pm'. handshake_clientID one_proxy 0 6 = (2, pm') \<and> handshake_clientID pm' 8 9 = (0, pm')"
proof -
  have "create_loop (proxyMap one_proxy) (1 # 2 # [3..<256]) = 2" by (simp add: one_proxy_nth zero_mapping_def)
  moreover have "[1..<256] = 1 # 2 # [3..<256]" by (simp add: upt_conv_Cons del: upt_Suc)
  ultimately have "createClientID one_proxy = 2" by (simp add: createClientID_def del: upt_Suc)
  moreover have "\<forall>i. 0 < i \<and> i < 256 \<longrightarrow> proxyID (proxyMap one_proxy ! i) \<noteq> 8" by (auto simp: one_proxy_nth zero_mapping_def)
  moreover have "\<not> isActive (mapping_at one_proxy 2)" by (simp add: mapping_at_def one_proxy_nth zero_mapping_def)
  ultimately show ?thesis using zero_proxy_blocks [of one_proxy 2 6] by auto
qed

end
