(* ===== verification/Connection_Handler.thy ===== *)
theory Connection_Handler
  imports Command_Handler
begin

text \<open>
  The server connection handler, \<open>server/server_connection_handler.c\<close>: what happens to a packet of a client before the command
  handler sees it. A validation request gets its update identifier here, the update and its AS path are stored, the results known so far
  are reported, and the request is put into the command queue when a validation has to be done. The handler holds the components of
  the server, the command queue and the receiver queue. Allocations, uninitialised variables, the bytes reserved for arrays on the stack and
  configuration are in the environment of a request.
\<close>

section \<open>Data\<close>

record ('p, 't) ConnectionHandler =
  server :: "('p, 't) Server"
  cmdQueue :: "srx_pdu CommandQueue"
  receiverQueue :: "(srx_pdu \<times> u32) sch_packet PacketQueue option"
  inShutdown :: bool

record request_env =
  base :: env
  uc_alloc :: "addr option"
  uc_garbage :: CacheEntry
  realloc_ok :: bool
  ac_alloc :: addr
  cmd_node :: "addr option"
  cmd_item :: "addr option"
  cmd_data_ok :: bool
  rq_elem :: "addr option"
  rq_data_ok :: bool
  junk_asType :: u32
  junk_asRelType :: u32
  junk_result :: SRxResult
  mode_no_sendqueue :: bool
  stack_room :: "nat \<Rightarrow> nat"

type_synonym ('p, 't, 'a) request_action = "('p, 't) ConnectionHandler \<Rightarrow> ('a \<times> ('p, 't) ConnectionHandler) cres option"

text \<open>Running an operation of the server, or adding to the command queue, on the handler.\<close>

definition on_server :: "('p, 't, 'a) action \<Rightarrow> ('p, 't, 'a) request_action" where
  "on_server f self = Some (cbind (f (server self)) (\<lambda>(x, s). Inr (x, self\<lparr>server := s\<rparr>)))"

definition queue_request :: "request_env \<Rightarrow> addr \<Rightarrow> addr \<Rightarrow> u32 \<Rightarrow> u32 \<Rightarrow> srx_pdu \<Rightarrow> ('p, 't, bool) request_action" where
  "queue_request env sock client did len pdu self =
     tbind (queueCommand (cmd_node env) (cmd_item env) (cmd_data_ok env) (cmdQueue self) COMMAND_TYPE_SRX_PROXY sock client did len (Some pdu))
       (\<lambda>(ok, q). Some (Inr (ok, self\<lparr>cmdQueue := q\<rparr>)))"

section \<open>The data of a request\<close>

text \<open>The words of the AS path stay in network byte order, as a little endian machine reads them.\<close>

fun words_of :: "u8 list \<Rightarrow> u32 list" where
  "words_of (a # b # c # d # bs) = (ucast a + 256 * ucast b + 65536 * ucast c + 16777216 * ucast d) # words_of bs"
| "words_of bs = []"

definition request_bgpsec :: "VerifyRequest \<Rightarrow> BGPSecData" where
  "request_bgpsec r =
     (let n = ntohs (numHops r); k = ntohs (attrLen r)
      in \<lparr>numberHops = n, asPath = (if n = 0 then [] else words_of (take (4 * unat n) (vr_payload r))), attr_length = k,
          bafi = val_afi r, bsafi = val_safi r, breserved = 0, local_as = val_local_as r,
          bgpsec_path_attr = (if k = 0 then None else Some (take (unat k) (drop (4 * unat n) (vr_payload r))))\<rparr>)"

definition request_path :: "BGPSecData \<Rightarrow> u32 list option" where
  "request_path d = (if numberHops d = 0 then None else Some (asPath d))"

text \<open>The AS type and the relation are only read from IPv4 requests.\<close>

definition request_asType :: "request_env \<Rightarrow> VerifyRequest \<Rightarrow> u32" where
  "request_asType env r = (if vr_v4 r then ucast (vr_asType r) else junk_asType env)"

definition request_asRelDir :: "request_env \<Rightarrow> VerifyRequest \<Rightarrow> u32" where
  "request_asRelDir env r =
     (let t = (if vr_v4 r then ucast (vr_asRelType r) else junk_asRelType env)
      in if t = AS_REL_CUSTOMER then ASPA_UPSTREAM else if t = AS_REL_PROVIDER then ASPA_DOWNSTREAM
         else if t = AS_REL_SIBLING then ASPA_DOWNSTREAM else if t = AS_REL_LATERAL then ASPA_UPSTREAM else ASPA_UNKNOWNSTREAM)"

text \<open>The search for an update identifier without a collision.\<close>

partial_function (option) free_updateID ::
  "'t uthash \<Rightarrow> IPPrefix \<Rightarrow> u32 \<Rightarrow> BGPSecData \<Rightarrow> 't UpdateCache \<Rightarrow> u32 \<Rightarrow> (u32 \<times> 't UpdateCache) cres option" where
  "free_updateID T pfx originAS d uc uid = (case detectCollision T uc uid pfx originAS d of
      Inl f \<Rightarrow> Some (Inl f)
    | Inr p \<Rightarrow> if fst p then free_updateID T pfx originAS d (snd p) (uid + 1) else Some (Inr (uid, snd p)))"

section \<open>Validation requests\<close>

text \<open>The identifier of the update.\<close>

definition request_updateID :: "'t uthash \<Rightarrow> request_env \<Rightarrow> VerifyRequest \<Rightarrow> ('p, 't, u32) request_action" where
  "request_updateID T env r self =
     (let pfx = request_prefix r; originAS = ntohl (vr_originAS r); d = request_bgpsec r
      in tbind (Some (generateIdentifier (stack_room env) originAS pfx d)) (\<lambda>uid.
         case updateCache (pcache (server self)) of
             None \<Rightarrow> Some (Inl NullDeref)
           | Some uc \<Rightarrow> tbind (free_updateID T pfx originAS d uc uid) (\<lambda>(uid, uc).
               Some (Inr (uid, self\<lparr>server := (server self)\<lparr>pcache := (pcache (server self))\<lparr>updateCache := Some uc\<rparr>\<rparr>\<rparr>)))))"

text \<open>An operation of the update cache on behalf of a client: its mapping is passed by a pointer, which is null for client 0.\<close>

definition with_mapping ::
  "u8 \<Rightarrow> ('t UpdateCache \<Rightarrow> ProxyClientMapping option \<Rightarrow> ('a \<times> 't UpdateCache \<times> ProxyClientMapping option) cres) \<Rightarrow> ('p, 't, 'a) action" where
  "with_mapping c f s = (case updateCache (pcache s) of
      None \<Rightarrow> Inl NullDeref
    | Some uc \<Rightarrow> cbind (f uc (if 0 < c then Some (mapping_at (proxies s) c) else None)) (\<lambda>(x, uc, m).
        Inr (x, s\<lparr>pcache := (pcache s)\<lparr>updateCache := Some uc\<rparr>,
                  proxies := (case m of None \<Rightarrow> proxies s | Some m \<Rightarrow> if 0 < c then set_mapping c m (proxies s) else proxies s)\<rparr>)))"

definition lookup_request :: "'t uthash \<Rightarrow> request_env \<Rightarrow> u8 \<Rightarrow> u32 \<Rightarrow> ('p, 't, bool \<times> SRxResult \<times> SRxDefaultResult \<times> u32) action" where
  "lookup_request T env c uid = with_mapping c (\<lambda>uc m.
     cbind (getUpdateResult T (realloc_ok env) uc uid c m) (\<lambda>(found, sres, dres, pid, uc, m).
       Inr ((found, sres, dres, case pid of Some p \<Rightarrow> p | None \<Rightarrow> 0), uc, m)))"

text \<open>The AS path: its identifier, the result known for it, and whether that result goes into the update cache. A path that
  is not known yet is stored with the default result of the request.\<close>

definition path_request ::
  "'t uthash \<Rightarrow> request_env \<Rightarrow> VerifyRequest \<Rightarrow> bool \<Rightarrow> SRxResult \<Rightarrow> SRxDefaultResult \<Rightarrow> u32 \<Rightarrow>
     ('p, 't, u32 \<times> SRxResult \<times> SRxDefaultResult \<times> SRxResult option) action" where
  "path_request T env r doStore srxRes defRes pathId s =
     (if pathId \<noteq> 0 then Inr ((pathId, srxRes, defRes, None), s)
      else let d = request_bgpsec r; asType = request_asType env r
           in cbind (makePathId (ucast (numberHops d)) (request_path d) asType True) (\<lambda>pathId.
              cbind (getAspathListFromAspathCache T (apcache s) pathId (junk_result env)) (\<lambda>(aspl, res, ac).
              case aspl of
                Some l \<Rightarrow> Inr ((pathId, srxRes\<lparr>aspaResult := aspaResult res\<rparr>, defRes,
                                if aspaResult res = SRx_RESULT_UNDEFINED then None else Some res), s\<lparr>apcache := ac\<rparr>)
              | None \<Rightarrow>
                  cbind (newAspathListEntry (ucast (numberHops d)) (request_path d) pathId asType (request_asRelDir env r) (bafi d) True) (\<lambda>p.
                    let defRes = (if doStore
                          then defRes\<lparr>defResult := (defResult defRes)\<lparr>aspaResult := aspaDefRes r\<rparr>, resSourceASPA := ucast (aspaResSrc r)\<rparr>
                          else defRes)
                    in cbind (storeAspathList T (ac_alloc env) ac (Some defRes) pathId asType p) (\<lambda>(_, ac).
                         Inr ((pathId, srxRes\<lparr>aspaResult := aspaResult (defResult defRes)\<rparr>, defRes, None), s\<lparr>apcache := ac\<rparr>))))))"

text \<open>Storing a new update: the results reported are the defaults. The result -1 of \<open>storeUpdate\<close> counts as success.\<close>

definition store_request ::
  "'t uthash \<Rightarrow> request_env \<Rightarrow> VerifyRequest \<Rightarrow> u8 \<Rightarrow> u32 \<Rightarrow> SRxResult \<Rightarrow> SRxDefaultResult \<Rightarrow> u32 \<Rightarrow> ('p, 't, bool \<times> SRxResult) action" where
  "store_request T env r c uid srxRes defRes pathId s =
     (let defRes = defRes\<lparr>defResult := (defResult defRes)\<lparr>roaResult := roaDefRes r, bgpsecResult := bgpsecDefRes r\<rparr>,
                          resSourceROA := ucast (roaResSrc r), resSourceBGPSEC := ucast (bgpsecResSrc r)\<rparr>
      in cbind (with_mapping c (\<lambda>uc m. storeUpdate T (uc_alloc env) (uc_garbage env) (realloc_ok env) (now_sec (base env)) uc c m uid
                  (Some (request_prefix r)) (ntohl (vr_originAS r)) (Some defRes) (Some (request_bgpsec r)) pathId) s) (\<lambda>(ret, s).
           Inr ((ret \<noteq> 0, srxRes\<lparr>roaResult := roaDefRes r, bgpsecResult := bgpsecDefRes r\<rparr>), s)))"

text \<open>The flags of the answer: zero when no answer is needed.\<close>

definition answer_flags :: "VerifyRequest \<Rightarrow> SRxResult \<Rightarrow> u8" where
  "answer_flags r srxRes =
     (let f = vr_flags r AND SRX_FLAG_REQUEST_RECEIPT; roa = isSet8 (vr_flags r) SRX_FLAG_ROA; sec = isSet8 (vr_flags r) SRX_FLAG_BGPSEC;
          f = (if roa \<and> roaDefRes r \<noteq> roaResult srxRes then f OR SRX_FLAG_ROA else f);
          f = (if sec \<and> bgpsecDefRes r \<noteq> bgpsecResult srxRes then f OR SRX_FLAG_BGPSEC else f)
      in if 0 < f
         then (let f = (if roa then f OR SRX_FLAG_ROA else f); f = (if sec then f OR SRX_FLAG_BGPSEC else f)
               in if isSet8 (vr_flags r) SRX_FLAG_ASPA then f OR SRX_FLAG_ASPA else f)
         else f)"

text \<open>The answer and the command for the validation.\<close>

definition answer_request :: "request_env \<Rightarrow> VerifyRequest \<Rightarrow> addr \<Rightarrow> addr \<Rightarrow> u32 \<Rightarrow> SRxResult \<Rightarrow> ('p, 't, bool) request_action" where
  "answer_request env r sock client uid srxRes self =
     (let f = answer_flags r srxRes;
          token = (if isSet8 (vr_flags r) SRX_FLAG_REQUEST_RECEIPT then ntohl (requestToken r) else 0);
          validate = isSet8 (vr_flags r) SRX_FLAG_ROA \<or> isSet8 (vr_flags r) SRX_FLAG_BGPSEC \<or> isSet8 (vr_flags r) SRX_FLAG_ASPA
      in tbind (if 0 < f
                then on_server (on_sender (\<lambda>sd. sendVerifyNotification (net (base env)) (sq_malloc (base env)) sd sock client uid f token
                       (roaResult srxRes) (bgpsecResult srxRes) (aspaResult srxRes) (\<not> mode_no_sendqueue env))) self
                else Some (Inr (True, self))) (\<lambda>(ret, self).
         if validate \<and> 0 < f AND SRX_FLAG_ROA_BGPSEC_ASPA
         then tbind (queue_request env sock client uid (ntohl (vr_length r))
                       (VerifyPDU (r\<lparr>vr_flags := f AND SRX_FLAG_ROA_BGPSEC_ASPA\<rparr>)) self) (\<lambda>(ok, self). Some (Inr (ret \<and> ok, self)))
         else Some (Inr (ret, self))))"

definition processValidationRequest :: "'t uthash \<Rightarrow> request_env \<Rightarrow> addr \<Rightarrow> addr \<Rightarrow> VerifyRequest \<Rightarrow> ('p, 't, bool) request_action" where
  "processValidationRequest T env sock client r self =
     tbind (Some (thread_at (server self) client)) (\<lambda>t.
       let validate = isSet8 (vr_flags r) SRX_FLAG_ROA \<or> isSet8 (vr_flags r) SRX_FLAG_BGPSEC \<or> isSet8 (vr_flags r) SRX_FLAG_ASPA;
           c = (if validate then routerID t else 0)
       in tbind (request_updateID T env r self) (\<lambda>(uid, self).
          tbind (on_server (lookup_request T env c uid) self) (\<lambda>((found, srxRes, defRes, pathId), self).
          tbind (on_server (path_request T env r (\<not> found) srxRes defRes pathId) self) (\<lambda>((pathId, srxRes, defRes, known), self).
          tbind (if found then Some (Inr ((True, srxRes), self))
                 else on_server (store_request T env r c uid srxRes defRes pathId) self) (\<lambda>((stored, srxRes), self).
            if \<not> stored then Some (Inr (False, self))
            else tbind (case known of
                          None \<Rightarrow> Some (Inr (True, self))
                        | Some res \<Rightarrow> on_server (on_updCache (\<lambda>uc. modifyUpdateCacheResultWithAspaVal T uc uid res)) self) (\<lambda>(_, self).
                 answer_request env r sock client uid srxRes self))))))"

section \<open>The other packets\<close>

definition processSignatureRequest :: "'t uthash \<Rightarrow> request_env \<Rightarrow> addr \<Rightarrow> addr \<Rightarrow> u32 \<Rightarrow> u32 \<Rightarrow> ('p, 't, bool) request_action" where
  "processSignatureRequest T env sock client updID len self =
     tbind (on_server (on_updCache (\<lambda>uc. getUpdateSignature T uc (ntohl updID))) self) (\<lambda>(res, self).
       if containsError res
       then tbind (on_server (send_error (base env) (errorCode res) sock client) self) (\<lambda>(_, self).
              if errorCode res = SRXERR_UPDATE_NOT_FOUND
              then on_server (on_sender (\<lambda>sd. sendSynchRequest (net (base env)) (sq_malloc (base env)) sd sock client False)) self
              else Some (Inr (True, self)))
       else case signatureBlock res of
           Some blob \<Rightarrow> on_server (on_sender (\<lambda>sd. sendSignatureNotification (net (base env)) (sq_malloc (base env)) sd sock client (ntohl updID)
                          (signatureLength res) blob False)) self
         | None \<Rightarrow> queue_request env sock client (ntohl updID) (ntohl len) (SignPDU updID len) self)"

text \<open>The error packet and goodbye with which a client is refused.\<close>

definition refuse :: "request_env \<Rightarrow> u16 \<Rightarrow> addr \<Rightarrow> addr \<Rightarrow> ('p, 't, unit) request_action" where
  "refuse env code sock client self =
     tbind (on_server (send_error (base env) code sock client) self) (\<lambda>(_, self).
     tbind (on_server (send_goodbye (base env) sock client) self) (\<lambda>(_, self). Some (Inr ((), self))))"

definition enqueue :: "request_env \<Rightarrow> addr \<Rightarrow> addr \<Rightarrow> u32 \<Rightarrow> u32 \<Rightarrow> srx_pdu \<Rightarrow> ('p, 't, unit) request_action" where
  "enqueue env sock client did len pdu self = tbind (queue_request env sock client did len pdu self) (\<lambda>(_, self). Some (Inr ((), self)))"

definition or_refuse :: "request_env \<Rightarrow> addr \<Rightarrow> addr \<Rightarrow> ('p, 't, bool) request_action \<Rightarrow> ('p, 't, unit) request_action" where
  "or_refuse env sock client f self =
     tbind (f self) (\<lambda>(ok, self). if ok then Some (Inr ((), self)) else refuse env SRXERR_INTERNAL_ERROR sock client self)"

text \<open>\<open>_handlePacket\<close>: a hello that is accepted falls through the cases for goodbye and other packets.\<close>

definition handlePacket_now :: "'t uthash \<Rightarrow> request_env \<Rightarrow> addr \<Rightarrow> addr \<Rightarrow> srx_pdu \<Rightarrow> u32 \<Rightarrow> ('p, 't, unit) request_action" where
  "handlePacket_now T env sock client pdu len self =
     (if len < 12 then Some (Inr ((), self))
      else tbind (Some (thread_at (server self) client)) (\<lambda>t. case pdu of
          VerifyPDU r \<Rightarrow> if \<not> initialized t then refuse env SRXERR_INTERNAL_ERROR sock client self
                         else or_refuse env sock client (processValidationRequest T env sock client r) self
        | SignPDU u n \<Rightarrow> if \<not> initialized t then refuse env SRXERR_INTERNAL_ERROR sock client self
                         else or_refuse env sock client (processSignatureRequest T env sock client u n) self
        | DeletePDU k u \<Rightarrow> if \<not> initialized t then refuse env SRXERR_INTERNAL_ERROR sock client self
                           else enqueue env sock client (ntohl u) len pdu self
        | HelloPDU v p \<Rightarrow> if \<not> ct_active t \<or> initialized t then refuse env SRXERR_INVALID_PACKET sock client self
                          else enqueue env sock client 0 len pdu self
        | GoodbyePDU k \<Rightarrow>
            let self = (if ct_active t \<and> initialized t
                        then self\<lparr>server := set_thread client (t\<lparr>goodByeReceived := True\<rparr>) (server self)\<rparr> else self)
            in enqueue env sock client 0 len pdu self
        | PeerChangePDU \<Rightarrow> enqueue env sock client 0 len pdu self
        | OtherPDU ty \<Rightarrow> if ty \<le> PDU_SRXPROXY_UNKNOWN then enqueue env sock client 0 len pdu self
                         else refuse env SRXERR_INVALID_PACKET sock client self))"

definition handlePacket :: "'t uthash \<Rightarrow> request_env \<Rightarrow> addr \<Rightarrow> addr \<Rightarrow> srx_pdu \<Rightarrow> u32 \<Rightarrow> ('p, 't, unit) request_action" where
  "handlePacket T env sock client pdu len self =
     (if receiverQueue self = None then handlePacket_now T env sock client pdu len self
      else tbind (Some (addToSCHReceiverQueue (rq_elem env) (rq_data_ok env) (pdu, len) sock client (receiverQueue self))) (\<lambda>(_, q).
             Some (Inr ((), self\<lparr>receiverQueue := q\<rparr>))))"

text \<open>One round of the thread of the receiver queue.\<close>

definition receiver_step :: "'t uthash \<Rightarrow> request_env \<Rightarrow> ('p, 't, unit) request_action" where
  "receiver_step T env self =
     tbind (fetchSCHReceiverPacket (receiverQueue self)) (\<lambda>(p, q).
       let self = self\<lparr>receiverQueue := q\<rparr>
       in case p of None \<Rightarrow> Some (Inr ((), self)) | Some (sock, client, pdu, len) \<Rightarrow> handlePacket_now T env sock client pdu len self)"

section \<open>Connections\<close>

definition handleStatusChange :: "addr option \<Rightarrow> env \<Rightarrow> addr \<Rightarrow> bool \<Rightarrow> ('p, 't, bool) request_action" where
  "handleStatusChange malloc env client connected self =
     (if connected
      then tbind (Some (appendDataToSList malloc (fst (clientList (server self))) (snd (clientList (server self))) client)) (\<lambda>(ok, l).
             Some (Inr (ok, self\<lparr>server := (server self)\<lparr>clientList := l\<rparr>\<rparr>)))
      else tbind (sl_del (clientList (server self)) client) (\<lambda>(_, l).
           let s = (server self)\<lparr>clientList := l\<rparr>
           in tbind (Some (thread_at s client)) (\<lambda>t.
              tbind (Some (deactivate_client env (routerID t) (\<not> (inShutdown self \<or> goodByeReceived t)) (word_of_int (cfg_keepWindow env)) s)) (\<lambda>s.
              tbind (sl_del (cthreads s) client) (\<lambda>(_, l). Some (Inr (True, self\<lparr>server := s\<lparr>cthreads := l\<rparr>\<rparr>)))))))"

text \<open>The loop over the clients stops at the first one that can not be reached; the result is not used.\<close>

partial_function (option) broadcastPacket_loop :: "(addr \<Rightarrow> bool) \<Rightarrow> srx_msg \<Rightarrow> sl_heap \<Rightarrow> addr \<Rightarrow> Sender \<Rightarrow> Sender cres option" where
  "broadcastPacket_loop nt msg h node sd =
     (if node = 0 then Some (Inr sd)
      else case rd h node of
          Inl f \<Rightarrow> Some (Inl f)
        | Inr n \<Rightarrow> if ndata n = 0 then broadcastPacket_loop nt msg h (nnext n) sd
                   else if nt (ndata n) then broadcastPacket_loop nt msg h (nnext n) (snd (sendPacketToClient nt sd (ndata n) msg))
                   else Some (Inr sd))"

definition broadcastPacket :: "env \<Rightarrow> srx_msg \<Rightarrow> ('p, 't, bool) request_action" where
  "broadcastPacket env msg self =
     (let (h, l) = clientList (server self)
      in if 0 < lsize l
         then tbind (broadcastPacket_loop (net env) msg h (root l) (sender (server self))) (\<lambda>sd.
                Some (Inr (True, self\<lparr>server := (server self)\<lparr>sender := sd\<rparr>\<rparr>)))
         else Some (Inr (True, self)))"

definition markConnectionHandlerShutdown :: "('p, 't) ConnectionHandler \<Rightarrow> ('p, 't) ConnectionHandler" where
  "markConnectionHandlerShutdown self = self\<lparr>inShutdown := True\<rparr>"

section \<open>Start and end\<close>

text \<open>\<open>socket_ok\<close>, \<open>queue_ok\<close> and \<open>thread_ok\<close> tell whether the server socket, the receiver queue and its thread can be created. A queue
  whose thread does not start is freed.\<close>

definition createServerConnectionHandler ::
  "bool \<Rightarrow> bool \<Rightarrow> bool \<Rightarrow> bool \<Rightarrow> u32 list \<Rightarrow> ('p, 't) ConnectionHandler \<Rightarrow> (bool \<times> ('p, 't) ConnectionHandler) cres" where
  "createServerConnectionHandler socket_ok queue_ok thread_ok mode_no_receivequeue mapping_routerID self =
     (let self = self\<lparr>inShutdown := False, receiverQueue := None\<rparr>; s = server self
      in if updateCache (pcache s) = None then Inr (False, self)
         else let s = s\<lparr>clientList := (fst (clientList s), initSList (snd (clientList s)))\<rparr>
              in if \<not> socket_ok then Inr (False, self\<lparr>server := s\<rparr>)
                 else let (_, pm) = configureProxyMap ((proxies s)\<lparr>proxyMap := replicate 256 zero_mapping\<rparr>) mapping_routerID;
                          self = self\<lparr>server := s\<lparr>proxies := pm\<rparr>\<rparr>
                      in if mode_no_receivequeue then Inr (True, self)
                         else case createSCHReceiverQueue queue_ok True True of
                             None \<Rightarrow> Inr (True, self)
                           | Some q \<Rightarrow> cbind (startSCHReceiverQueue thread_ok (Some q)) (\<lambda>(ok, q).
                               Inr (True, if ok then self\<lparr>receiverQueue := q\<rparr> else self)))"

definition releaseServerConnectionHandler :: "('p, 't) ConnectionHandler \<Rightarrow> ('p, 't) ConnectionHandler cres option" where
  "releaseServerConnectionHandler self =
     tbind (if receiverQueue self = None then Some (Inr None)
            else tbind (stopSCHReceiverQueue (receiverQueue self)) releaseSCHReceiverQueue) (\<lambda>q.
       let s = server self
       in tbind (releaseSList (fst (clientList s)) (snd (clientList s))) (\<lambda>h.
            Some (Inr (self\<lparr>receiverQueue := q,
              server := s\<lparr>clientList := (h, snd (clientList s)), proxies := (proxies s)\<lparr>proxyMap := replicate 256 zero_mapping\<rparr>\<rparr>\<rparr>))))"

end
