(* ===== verification/Requests.thy ===== *)
theory Requests
  imports Connection_Handler Update_Processing
begin

text \<open>
  What the connection handler does with a validation request: the search for the update identifier ends, and a request for an unknown
  update stores the update and its AS path, answers the client, and queues the validation.
\<close>

section \<open>The search for an identifier\<close>

lemma detectCollision_cache:
  assumes "uc_ok T uc" "detectCollision T uc uid pfx originAS d = Inr (c, uc')"
  shows "uc' = uc"
  using assms uc_ok_locks(2) [OF assms(1)]
  by (auto simp: detectCollision_def tableFind_ok cbind_eq_Inr Let_def split: if_splits)

lemma detectCollision_free:
  assumes "uc_ok T uc" "uc_entry T uc uid = None"
  shows "detectCollision T uc uid pfx originAS d = Inr (False, uc)"
  using uc_entry_None [OF assms] by (simp add: detectCollision_def)

lemma free_updateID_hit:
  assumes "uc_ok T uc" "uc_entry T uc uid = None"
  shows "free_updateID T pfx originAS d uc uid = Some (Inr (uid, uc))"
  using detectCollision_free [OF assms] by (subst free_updateID.simps) simp

text \<open>What the search returns: the first identifier without a collision, or the fault of a comparison on the way.\<close>

definition search_result ::
  "'t uthash \<Rightarrow> IPPrefix \<Rightarrow> u32 \<Rightarrow> BGPSecData \<Rightarrow> 't UpdateCache \<Rightarrow> u32 \<Rightarrow> (u32 \<times> 't UpdateCache) cres \<Rightarrow> bool" where
  "search_result T pfx originAS d uc uid r \<longleftrightarrow>
     (\<exists>n. (\<forall>i<n. detectCollision T uc (uid + of_nat i) pfx originAS d = Inr (True, uc)) \<and>
        (case r of
           Inr p \<Rightarrow> p = (uid + of_nat n, uc) \<and> detectCollision T uc (uid + of_nat n) pfx originAS d = Inr (False, uc)
         | Inl f \<Rightarrow> detectCollision T uc (uid + of_nat n) pfx originAS d = Inl f))"

lemma search_result_step:
  assumes "detectCollision T uc uid pfx originAS d = Inr (True, uc)" "search_result T pfx originAS d uc (uid + 1) r"
  shows "search_result T pfx originAS d uc uid r"
proof -
  obtain n where n: "\<forall>i<n. detectCollision T uc (uid + 1 + of_nat i) pfx originAS d = Inr (True, uc)"
    "case r of Inr p \<Rightarrow> p = (uid + 1 + of_nat n, uc) \<and> detectCollision T uc (uid + 1 + of_nat n) pfx originAS d = Inr (False, uc)
       | Inl f \<Rightarrow> detectCollision T uc (uid + 1 + of_nat n) pfx originAS d = Inl f"
    using assms(2) unfolding search_result_def by blast
  have "detectCollision T uc (uid + of_nat i) pfx originAS d = Inr (True, uc)" if "i < Suc n" for i
    using that n(1) assms(1) by (cases i) (auto simp: ac_simps)
  moreover have "uid + 1 + of_nat n = uid + of_nat (Suc n)" by simp
  ultimately show ?thesis using n(2) unfolding search_result_def by metis
qed

lemma free_updateID_search:
  assumes "uc_ok T uc" "uc_entry T uc (uid + of_nat n) = None"
  shows "\<exists>r. free_updateID T pfx originAS d uc uid = Some r \<and> search_result T pfx originAS d uc uid r"
  using assms(2)
proof (induction n arbitrary: uid)
  case 0
  then have "free_updateID T pfx originAS d uc uid = Some (Inr (uid, uc))" "detectCollision T uc uid pfx originAS d = Inr (False, uc)"
    using assms(1) free_updateID_hit detectCollision_free by auto
  then show ?case unfolding search_result_def by (auto intro!: exI [of _ 0])
next
  case (Suc n)
  show ?case
  proof (cases "detectCollision T uc uid pfx originAS d")
    case (Inl f)
    then show ?thesis by (subst free_updateID.simps) (auto simp: search_result_def intro!: exI [of _ 0])
  next
    case (Inr p)
    then obtain c where c: "detectCollision T uc uid pfx originAS d = Inr (c, uc)"
      using detectCollision_cache [OF assms(1)] by (cases p) auto
    show ?thesis
    proof (cases c)
      case True
      have "uc_entry T uc (uid + 1 + of_nat n) = None" using Suc.prems by (simp add: ac_simps)
      from Suc.IH [OF this] obtain r where "free_updateID T pfx originAS d uc (uid + 1) = Some r" "search_result T pfx originAS d uc (uid + 1) r"
        by blast
      then show ?thesis using True c search_result_step by (subst free_updateID.simps) auto
    next
      case False
      then show ?thesis using c by (subst free_updateID.simps) (auto simp: search_result_def intro!: exI [of _ 0])
    qed
  qed
qed

text \<open>When an identifier is stored and there is no collision, the stored update has the origin and the compared path data of the request.\<close>

lemma detectCollision_same:
  assumes "uc_ok T uc" "uc_entry T uc uid = Some e" "detectCollision T uc uid pfx originAS d = Inr (False, uc')"
  shows "ceAsn e = originAS \<and> hops (pathData e) = numberHops d \<and>
    memcmp_differs (asn_path (pathData e)) (Some (asPath d)) (unat (hops (pathData e))) = Inr False \<and>
    memcmp_differs (bgpsec_path (pathData e)) (bgpsec_path_attr d) (nat (bgpsec_length (pathData e))) = Inr False"
proof -
  obtain a where "a \<noteq> 0" "entry_at uc a = Inr e" "tableFind T uc uid = Inr (a, uc)" using uc_entry_Some [OF assms(1,2)] by metis
  then show ?thesis using assms(3) by (auto simp: detectCollision_def cbind_eq_Inr Let_def split: if_splits)
qed

text \<open>C28. The search for an update identifier ends: in a well formed update cache that does not hold all \<open>2\<^sup>3\<^sup>2\<close> identifiers
  the loop over \<open>detectCollision\<close> returns. It leaves the cache as it is and returns the first identifier, from the generated one on and
  wrapping around at \<open>2\<^sup>3\<^sup>2\<close>, for which \<open>detectCollision\<close> reports no collision; it reported one for every identifier before.
  Either nothing is stored under the returned identifier, or the update stored there has the origin AS and the number of hops of the request and agrees
  with it in the AS path and in the stored bytes of the BGPsec path. The prefix is not compared, so an update for another prefix can be stored under it.
  (A comparison that reads past a buffer ends the loop too, as that fault.)\<close>

theorem free_updateID_ends:
  assumes "uc_ok T uc" "uc_entry T uc k = None"
  shows "\<exists>r. free_updateID T pfx originAS d uc uid = Some r \<and> search_result T pfx originAS d uc uid r \<and>
    (\<forall>i uc' e. r = Inr (i, uc') \<and> uc_entry T uc i = Some e \<longrightarrow> ceAsn e = originAS \<and> hops (pathData e) = numberHops d \<and>
       memcmp_differs (asn_path (pathData e)) (Some (asPath d)) (unat (hops (pathData e))) = Inr False \<and>
       memcmp_differs (bgpsec_path (pathData e)) (bgpsec_path_attr d) (nat (bgpsec_length (pathData e))) = Inr False)"
proof -
  have "uid + of_nat (unat (k - uid)) = k" by simp
  then obtain r where r: "free_updateID T pfx originAS d uc uid = Some r" "search_result T pfx originAS d uc uid r"
    using free_updateID_search [OF assms(1), of uid "unat (k - uid)" pfx originAS d] assms(2) by auto
  have "detectCollision T uc i pfx originAS d = Inr (False, uc)" if "r = Inr (i, uc')" for i uc'
    using r(2) that unfolding search_result_def by auto
  then show ?thesis using r detectCollision_same [OF assms(1)] by blast
qed

section \<open>The flags of the answer\<close>

lemma isSet8_bits:
  "isSet8 f SRX_FLAG_ROA \<longleftrightarrow> bit f 0" "isSet8 f SRX_FLAG_BGPSEC \<longleftrightarrow> bit f 1" "isSet8 f SRX_FLAG_ASPA \<longleftrightarrow> bit f 2"
  "isSet8 f SRX_FLAG_REQUEST_RECEIPT \<longleftrightarrow> bit f 7"
  using and_power_eq_iff [of 0 "ucast f :: u32"] and_power_eq_iff [of 1 "ucast f :: u32"] and_power_eq_iff [of 2 "ucast f :: u32"]
    and_power_eq_iff [of 7 "ucast f :: u32"]
  by (simp_all add: isSet8_def isSet_def bit_simps)

lemma receipt_bit: "f AND SRX_FLAG_REQUEST_RECEIPT = (if bit f 7 then 128 else 0)"
  using and_power_eq_iff [of 7 f] and_exp_eq_0_iff_not_bit [of f 7] by simp

lemma validation_bits:
  "f AND SRX_FLAG_ROA_BGPSEC_ASPA = (if bit f 0 then 1 else 0) OR (if bit f 1 then 2 else 0) OR (if bit f 2 then 4 else 0)" for f :: u8
proof (rule bit_word_eqI)
  fix n assume "n < LENGTH(8)"
  then have "n = 0 \<or> n = 1 \<or> n = 2 \<or> n = 3 \<or> n = 4 \<or> n = 5 \<or> n = 6 \<or> n = 7" by auto
  then show "bit (f AND SRX_FLAG_ROA_BGPSEC_ASPA) n =
      bit ((if bit f 0 then 1 else 0) OR (if bit f 1 then 2 else 0) OR (if bit f 2 then 4 else 0 :: u8)) n"
    by (elim disjE) (simp_all add: bit_simps)
qed

lemma answer_flags_default:
  assumes "roaResult res = roaDefRes r" "bgpsecResult res = bgpsecDefRes r"
  shows "answer_flags r res = (if bit (vr_flags r) 7 then 128 OR (vr_flags r AND SRX_FLAG_ROA_BGPSEC_ASPA) else 0)"
  unfolding validation_bits answer_flags_def Let_def isSet8_bits receipt_bit using assms by simp

lemma answer_flags_validation: "(128 OR (f AND SRX_FLAG_ROA_BGPSEC_ASPA)) AND SRX_FLAG_ROA_BGPSEC_ASPA = f AND SRX_FLAG_ROA_BGPSEC_ASPA" for f :: u8
  unfolding validation_bits by simp

section \<open>The data of a request\<close>

lemma length_words_of: "length (words_of bs) = length bs div 4"
  by (induction bs rule: words_of.induct) auto

definition request_complete :: "VerifyRequest \<Rightarrow> bool" where
  "request_complete r \<longleftrightarrow> 4 * unat (ntohs (numHops r)) + unat (ntohs (attrLen r)) \<le> length (vr_payload r)"

lemma request_data_ok:
  assumes "request_complete r"
  shows "blob_ok (request_bgpsec r)" "numberHops (request_bgpsec r) = ntohs (numHops r)" "bafi (request_bgpsec r) = val_afi r"
    and "length (asPath (request_bgpsec r)) = unat (ntohs (numHops r))"
proof -
  show "length (asPath (request_bgpsec r)) = unat (ntohs (numHops r))"
    using assms by (simp add: request_complete_def request_bgpsec_def Let_def length_words_of)
  then show "blob_ok (request_bgpsec r)"
    using assms by (simp add: blob_ok_def) (simp add: request_complete_def request_bgpsec_def Let_def)
qed (simp_all add: request_bgpsec_def Let_def)

lemma ucast_hops:
  fixes h :: u16
  assumes "h \<noteq> 0" "h < 256"
  shows "0 < (ucast h :: u32)" "(ucast h :: u32) < 256" "unat (ucast h :: u32) = unat h"
proof -
  show u: "unat (ucast h :: u32) = unat h"
    by (simp add: unsigned_ucast_eq take_bit_nat_eq_self_iff order_less_trans [OF unsigned_less])
  have "unat h < 256" "0 < unat h" using assms by (simp_all add: word_less_nat_alt unat_gt_0)
  then show "0 < (ucast h :: u32)" "(ucast h :: u32) < 256" using u by (simp_all add: word_less_nat_alt)
qed

section \<open>A request for an unknown update\<close>

definition undefined_result :: SRxResult where
  "undefined_result = \<lparr>roaResult = SRx_RESULT_UNDEFINED, bgpsecResult = SRx_RESULT_UNDEFINED, aspaResult = SRx_RESULT_UNDEFINED\<rparr>"

definition request_default :: "VerifyRequest \<Rightarrow> SRxDefaultResult" where
  "request_default r = \<lparr>resSourceROA = ucast (roaResSrc r), resSourceBGPSEC = ucast (bgpsecResSrc r), resSourceASPA = ucast (aspaResSrc r),
     defResult = \<lparr>roaResult = roaDefRes r, bgpsecResult = bgpsecDefRes r, aspaResult = aspaDefRes r\<rparr>\<rparr>"

definition request_pathID :: "request_env \<Rightarrow> VerifyRequest \<Rightarrow> u32 cres" where
  "request_pathID env r =
     makePathId (ucast (ntohs (numHops r))) (request_path (request_bgpsec r)) (request_asType env r) True"

definition request_path_entry :: "request_env \<Rightarrow> VerifyRequest \<Rightarrow> u32 \<Rightarrow> PathListCacheTable" where
  "request_path_entry env r pid = path_entry (ucast (ntohs (numHops r))) (asPath (request_bgpsec r)) pid (request_asType env r)
     (request_asRelDir env r) (val_afi r) True (aspaDefRes r)"

lemma same_updateCache: "updateCache (pcache s) = Some uc \<Longrightarrow> s\<lparr>pcache := (pcache s)\<lparr>updateCache := Some uc\<rparr>\<rparr> = s"
  by (cases s; cases "pcache s") simp

lemma request_updateID_new:
  assumes "updateCache (pcache (server self)) = Some uc" "uc_ok T uc" "uc_entry T uc uid = None"
    "generateIdentifier (stack_room env) (ntohl (vr_originAS r)) (request_prefix r) (request_bgpsec r) = Inr uid"
  shows "request_updateID T env r self = Some (Inr (uid, self))"
  using assms free_updateID_hit [OF assms(2,3)] same_updateCache [OF assms(1)] by (simp add: request_updateID_def Let_def)

lemma lookup_request_new:
  assumes "updateCache (pcache s) = Some uc" "uc_ok T uc" "uc_entry T uc uid = None"
  shows "\<exists>dres. lookup_request T env c uid s = Inr ((False, undefined_result, dres, 0), s)"
proof -
  have "set_mapping c (mapping_at (proxies s) c) (proxies s) = proxies s" by (simp add: set_mapping_def mapping_at_def)
  then show ?thesis
    using assms(1) uc_entry_None(2) [OF assms(2,3)] same_updateCache [OF assms(1)]
    by (auto simp: lookup_request_def with_mapping_def getUpdateResult_def undefined_result_def)
qed

lemma path_request_new:
  assumes T: "uthash_laws T" and ac: "ac_ok T (apcache s)" "ac_entry T (apcache s) pid = None"
    and pid: "request_pathID env r = Inr pid" "pid \<noteq> 0"
    and mem: "ac_alloc env \<noteq> 0" "ac_entries (apcache s) (ac_alloc env) = None"
    and r: "request_complete r" "ntohs (numHops r) \<noteq> 0" "ntohs (numHops r) < 256"
  shows "\<exists>ac'. path_request T env r True undefined_result dres 0 s =
      Inr ((pid, undefined_result\<lparr>aspaResult := aspaDefRes r\<rparr>,
            dres\<lparr>defResult := (defResult dres)\<lparr>aspaResult := aspaDefRes r\<rparr>, resSourceASPA := ucast (aspaResSrc r)\<rparr>, None), s\<lparr>apcache := ac'\<rparr>) \<and>
    ac_ok T ac' \<and> ac_entry T ac' = (ac_entry T (apcache s))(pid \<mapsto> request_path_entry env r pid)"
proof -
  let ?d = "request_bgpsec r" and ?h = "ucast (ntohs (numHops r)) :: u32"
  let ?dres = "dres\<lparr>defResult := (defResult dres)\<lparr>aspaResult := aspaDefRes r\<rparr>, resSourceASPA := ucast (aspaResSrc r)\<rparr>"
  note d = request_data_ok [OF r(1)]
  have path: "request_path ?d = Some (asPath ?d)" using r(2) d(2) by (simp add: request_path_def)
  have len: "length (asPath ?d) = unat ?h" using d(4) ucast_hops(3) [OF r(2,3)] by simp
  obtain p ac' where p: "newAspathListEntry ?h (Some (asPath ?d)) pid (request_asType env r) (request_asRelDir env r) (val_afi r) True = Inr (Some p)"
    and ac': "storeAspathList T (ac_alloc env) (apcache s) (Some ?dres) pid (request_asType env r) (Some p) = Inr (1, ac')" "ac_ok T ac'"
    "ac_entry T ac' = (ac_entry T (apcache s))(pid \<mapsto> request_path_entry env r pid)"
    using ac_store_new [OF T ac mem ucast_hops(1,2) [OF r(2,3)] len, of "request_asType env r" "request_asRelDir env r" "val_afi r" True ?dres]
    unfolding request_path_entry_def by auto
  have id: "makePathId (ucast (ntohs (numHops r))) (Some (asPath ?d)) (request_asType env r) True = Inr pid"
    using pid(1) path by (simp add: request_pathID_def)
  then show ?thesis
    using p ac' ac_lookup_missing [OF ac pid(2)] by (intro exI [of _ ac']) (simp add: path_request_def d(2,3) path Let_def)
qed

lemma store_request_new:
  assumes T: "uthash_laws T" and uc: "updateCache (pcache s) = Some uc" "uc_ok T uc" "uc_entry T uc uid = None"
    and mem: "uc_alloc env = Some a" "a \<noteq> 0" "a \<notin> set (allItems uc)" "realloc_ok env" and r: "request_complete r" and c: "c \<noteq> 0"
    and dres: "aspaResult (defResult dres) = aspaDefRes r" "resSourceASPA dres = ucast (aspaResSrc r)"
  shows "\<exists>s' uc' e. store_request T env r c uid (undefined_result\<lparr>aspaResult := aspaDefRes r\<rparr>) dres pid s =
      Inr ((True, defResult (request_default r)), s') \<and>
    s' = s\<lparr>pcache := (pcache s)\<lparr>updateCache := Some uc'\<rparr>, proxies := proxies s'\<rparr> \<and> uc_ok T uc' \<and> uc_entry T uc' = (uc_entry T uc)(uid \<mapsto> e) \<and>
    ceAsn e = ntohl (vr_originAS r) \<and> aspathCacheID e = pid \<and> srxResult e = undefined_result \<and> defaultResult e = request_default r \<and>
    pathData e = path_of (request_bgpsec r) (Some (request_prefix r)) \<and> entry_clients e = [c]"
proof -
  have pos: "0 < c" using c by (simp add: word_neq_0_conv)
  have def: "dres\<lparr>defResult := (defResult dres)\<lparr>roaResult := roaDefRes r, bgpsecResult := bgpsecDefRes r\<rparr>,
      resSourceROA := ucast (roaResSrc r), resSourceBGPSEC := ucast (bgpsecResSrc r)\<rparr> = request_default r"
    using dres by (cases dres; cases "defResult dres") (simp add: request_default_def)
  obtain uc' m' e where st: "storeUpdate T (uc_alloc env) (uc_garbage env) (realloc_ok env) (now_sec (base env)) uc c (Some (mapping_at (proxies s) c)) uid
      (Some (request_prefix r)) (ntohl (vr_originAS r)) (Some (request_default r)) (Some (request_bgpsec r)) pid = Inr (1, uc', Some m')"
    "uc_ok T uc'" "uc_entry T uc' = (uc_entry T uc)(uid \<mapsto> e)" "ceAsn e = ntohl (vr_originAS r)" "aspathCacheID e = pid"
    "pathData e = path_of (request_bgpsec r) (Some (request_prefix r))" "srxResult e = undefined_result"
    "defaultResult e = request_default r" "entry_clients e = [c]"
    using storeUpdate_fresh [OF T uc(2,3) mem(2,3) request_data_ok(1) [OF r], of "uc_garbage env" "now_sec (base env)" c
      "mapping_at (proxies s) c" "request_prefix r" "ntohl (vr_originAS r)" "Some (request_default r)" pid] c mem(1,4)
    unfolding undefined_result_def by auto
  have "store_request T env r c uid (undefined_result\<lparr>aspaResult := aspaDefRes r\<rparr>) dres pid s =
      Inr ((True, defResult (request_default r)), s\<lparr>pcache := (pcache s)\<lparr>updateCache := Some uc'\<rparr>, proxies := set_mapping c m' (proxies s)\<rparr>)"
    unfolding store_request_def Let_def def with_mapping_def using uc(1) pos st(1)
    by (simp add: undefined_result_def request_default_def)
  then show ?thesis using st by (intro exI conjI) auto
qed

text \<open>The answer: a notification and a command exactly when a receipt is requested.\<close>

definition receipt_flags :: "VerifyRequest \<Rightarrow> u8" where
  "receipt_flags r = SRX_FLAG_REQUEST_RECEIPT OR (vr_flags r AND SRX_FLAG_ROA_BGPSEC_ASPA)"

definition receipt :: "VerifyRequest \<Rightarrow> u32 \<Rightarrow> srx_msg" where
  "receipt r uid = VerifyNotification (receipt_flags r) (htonl (ntohl (requestToken r))) (roaDefRes r) (bgpsecDefRes r) (aspaDefRes r) (htonl uid)"

definition validation_command :: "VerifyRequest \<Rightarrow> addr \<Rightarrow> addr \<Rightarrow> u32 \<Rightarrow> srx_pdu command" where
  "validation_command r sock client uid = (sock, client, COMMAND_TYPE_SRX_PROXY, uid, ntohl (vr_length r),
     Some (VerifyPDU (r\<lparr>vr_flags := vr_flags r AND SRX_FLAG_ROA_BGPSEC_ASPA\<rparr>)))"

lemma answer_request_new:
  assumes q: "cq_ok (cmdQueue self)" and mem: "cmd_node env = Some n" "cmd_item env = Some i" "cmd_data_ok env"
      "cq_usable (n, i) (validation_command r sock client uid) (cmdQueue self)"
    and ready: "\<not> mode_no_sendqueue env \<longrightarrow> queue_ready (sq_malloc (base env)) (SEND_QUEUE (sender (server self)))" and flags: "vr_flags r AND SRX_FLAG_ROA_BGPSEC_ASPA \<noteq> 0"
  defines "rc \<equiv> bit (vr_flags r) 7" and "nt \<equiv> net (base env) client" and "uq \<equiv> \<not> mode_no_sendqueue env"
  shows "\<exists>q' sd'. answer_request env r sock client uid (defResult (request_default r)) self =
      Some (Inr (rc \<longrightarrow> uq \<or> nt, self\<lparr>cmdQueue := q', server := (server self)\<lparr>sender := sd'\<rparr>\<rparr>)) \<and>
    sent sd' = sent (sender (server self)) @ (if rc \<and> \<not> uq \<and> nt then [(client, receipt r uid)] else []) \<and>
    outbox sd' = outbox (sender (server self)) @ (if rc \<and> uq then [(sock, client, receipt r uid)] else []) \<and>
    (uq \<longrightarrow> (\<exists>p. SEND_QUEUE sd' = Some p \<and> pq_ok p)) \<and>
    cq_ok q' \<and> cq_inflight q' = cq_inflight (cmdQueue self) \<and>
    cq_pending q' = cq_pending (cmdQueue self) @ (if rc then [validation_command r sock client uid] else [])"
proof -
  have f: "answer_flags r (defResult (request_default r)) = (if rc then receipt_flags r else 0)"
    using answer_flags_default [of "defResult (request_default r)" r] by (simp add: request_default_def receipt_flags_def rc_def)
  have bits: "vr_flags r AND SRX_FLAG_ROA_BGPSEC_ASPA \<noteq> 0 \<longleftrightarrow> bit (vr_flags r) 0 \<or> bit (vr_flags r) 1 \<or> bit (vr_flags r) 2"
    unfolding validation_bits by simp
  have seven: "receipt_flags r AND SRX_FLAG_ROA_BGPSEC_ASPA = vr_flags r AND SRX_FLAG_ROA_BGPSEC_ASPA"
    using answer_flags_validation [of "vr_flags r"] by (simp add: receipt_flags_def)
  then have pos: "0 < receipt_flags r" "0 < receipt_flags r AND SRX_FLAG_ROA_BGPSEC_ASPA"
    using flags by (auto simp: word_neq_0_conv [symmetric])
  obtain q' where q': "cq_push (n, i) (cmdQueue self) (validation_command r sock client uid) = Some (Inr (True, q'))" "cq_ok q'"
    "cq_pending q' = cq_pending (cmdQueue self) @ [validation_command r sock client uid]" "cq_inflight q' = cq_inflight (cmdQueue self)"
    using cq.push_ok [OF q mem(4)] by blast
  have queue: "queue_request env sock client uid (ntohl (vr_length r)) (VerifyPDU (r\<lparr>vr_flags := vr_flags r AND SRX_FLAG_ROA_BGPSEC_ASPA\<rparr>)) x =
      Some (Inr (True, x\<lparr>cmdQueue := q'\<rparr>))" if "cmdQueue x = cmdQueue self" for x :: "('a, 'b) ConnectionHandler"
    using q'(1) mem that by (simp add: queue_request_def cq_push_def validation_command_def)
  obtain sd' where sd': "send_packet (net (base env)) (sq_malloc (base env)) (sender (server self)) sock client (receipt r uid) uq = Inr (uq \<or> nt, sd')"
    "sent sd' = sent (sender (server self)) @ (if \<not> uq \<and> nt then [(client, receipt r uid)] else [])"
    "outbox sd' = outbox (sender (server self)) @ (if uq then [(sock, client, receipt r uid)] else [])" "uq \<Longrightarrow> \<exists>p. SEND_QUEUE sd' = Some p \<and> pq_ok p"
    using send_packet_ready [of uq "sq_malloc (base env)" "sender (server self)" "net (base env)" sock client "receipt r uid"] ready unfolding uq_def nt_def by blast
  show ?thesis
  proof (cases rc)
    case True
    then have fr: "answer_flags r (defResult (request_default r)) = receipt_flags r" using f by simp
    have any: "bit (vr_flags r) 0 \<or> bit (vr_flags r) 1 \<or> bit (vr_flags r) 2" using bits flags by blast
    have res: "roaResult (defResult (request_default r)) = roaDefRes r" "bgpsecResult (defResult (request_default r)) = bgpsecDefRes r"
      "aspaResult (defResult (request_default r)) = aspaDefRes r" by (simp_all add: request_default_def)
    have send: "on_server (on_sender (\<lambda>sd. sendVerifyNotification (net (base env)) (sq_malloc (base env)) sd sock client uid (receipt_flags r) (ntohl (requestToken r))
        (roaDefRes r) (bgpsecDefRes r) (aspaDefRes r) (\<not> mode_no_sendqueue env))) self = Some (Inr (uq \<or> nt, self\<lparr>server := (server self)\<lparr>sender := sd'\<rparr>\<rparr>))"
      using sd'(1) by (simp add: on_server_def on_sender_def sendVerifyNotification_def receipt_def uq_def)
    have "answer_request env r sock client uid (defResult (request_default r)) self =
        Some (Inr (uq \<or> nt, self\<lparr>cmdQueue := q', server := (server self)\<lparr>sender := sd'\<rparr>\<rparr>))"
      unfolding answer_request_def Let_def fr isSet8_bits seven res using True pos any queue [of "self\<lparr>server := (server self)\<lparr>sender := sd'\<rparr>\<rparr>"] send
      by (simp add: rc_def seven del: SRX_FLAG_ROA_BGPSEC_ASPA_def One_nat_def)
    then show ?thesis using True q'(2-4) sd'(2-4) by (intro exI [of _ q'] exI [of _ sd']) simp
  next
    case False
    then have "answer_request env r sock client uid (defResult (request_default r)) self = Some (Inr (True, self))"
      unfolding answer_request_def Let_def f isSet8_bits by (simp add: rc_def)
    moreover have "uq \<longrightarrow> (\<exists>p. SEND_QUEUE (sender (server self)) = Some p \<and> pq_ok p)"
      using ready by (auto simp: uq_def queue_ready_def split: option.splits)
    ultimately show ?thesis using False q by (intro exI [of _ "cmdQueue self"] exI [of _ "sender (server self)"]) simp
  qed
qed

section \<open>Properties\<close>

text \<open>The situation of a request for a new update: the caches and the command queue are in order and have free memory, the client is known, the packet holds
  the AS path (of 1 to 255 hops) and the BGPsec attribute it announces, at least one validation is requested, the identifiers of the update and of its path
  can be computed (the stack has room for the text of the update, see \<open>generateIdentifier\<close>), and neither the update
  nor its path is stored. Unless the server runs without the send queue (option \<open>mode.no-sendqueue\<close>), that queue is in order and has free memory.\<close>

definition new_request ::
  "'t uthash \<Rightarrow> request_env \<Rightarrow> VerifyRequest \<Rightarrow> addr \<Rightarrow> addr \<Rightarrow> ('p, 't) ConnectionHandler \<Rightarrow> ClientThread \<Rightarrow> 't UpdateCache \<Rightarrow> u32 \<Rightarrow> u32 \<Rightarrow> bool" where
  "new_request T env r sock client self t uc uid pid \<longleftrightarrow>
     threads (server self) client = Some t \<and> routerID t \<noteq> 0 \<and>
     updateCache (pcache (server self)) = Some uc \<and> uc_ok T uc \<and> ac_ok T (apcache (server self)) \<and> cq_ok (cmdQueue self) \<and>
     generateIdentifier (stack_room env) (ntohl (vr_originAS r)) (request_prefix r) (request_bgpsec r) = Inr uid \<and> uc_entry T uc uid = None \<and>
     request_pathID env r = Inr pid \<and> pid \<noteq> 0 \<and> ac_entry T (apcache (server self)) pid = None \<and>
     request_complete r \<and> ntohs (numHops r) \<noteq> 0 \<and> ntohs (numHops r) < 256 \<and> vr_flags r AND SRX_FLAG_ROA_BGPSEC_ASPA \<noteq> 0 \<and>
     (case uc_alloc env of None \<Rightarrow> False | Some a \<Rightarrow> a \<noteq> 0 \<and> a \<notin> set (allItems uc)) \<and> realloc_ok env \<and>
     ac_alloc env \<noteq> 0 \<and> ac_entries (apcache (server self)) (ac_alloc env) = None \<and>
     (case (cmd_node env, cmd_item env) of
        (Some n, Some i) \<Rightarrow> cq_usable (n, i) (validation_command r sock client uid) (cmdQueue self) | _ \<Rightarrow> False) \<and>
     cmd_data_ok env \<and> (\<not> mode_no_sendqueue env \<longrightarrow> queue_ready (sq_malloc (base env)) (SEND_QUEUE (sender (server self))))"

lemma processValidationRequest_ok:
  assumes T: "uthash_laws T" and new: "new_request T env r sock client self t uc uid pid"
  defines "rc \<equiv> bit (vr_flags r) 7" and "nt \<equiv> net (base env) client" and "uq \<equiv> \<not> mode_no_sendqueue env"
  shows "\<exists>self' uc' e. processValidationRequest T env sock client r self = Some (Inr (rc \<longrightarrow> uq \<or> nt, self')) \<and>
    pcache (server self') = (pcache (server self))\<lparr>updateCache := Some uc'\<rparr> \<and> aspaDB (server self') = aspaDB (server self) \<and>
    uc_ok T uc' \<and> uc_entry T uc' = (uc_entry T uc)(uid \<mapsto> e) \<and>
    ceAsn e = ntohl (vr_originAS r) \<and> aspathCacheID e = pid \<and> srxResult e = undefined_result \<and> defaultResult e = request_default r \<and>
    pathData e = path_of (request_bgpsec r) (Some (request_prefix r)) \<and> entry_clients e = [routerID t] \<and>
    ac_ok T (apcache (server self')) \<and>
    ac_entry T (apcache (server self')) = (ac_entry T (apcache (server self)))(pid \<mapsto> request_path_entry env r pid) \<and>
    sent (sender (server self')) = sent (sender (server self)) @ (if rc \<and> \<not> uq \<and> nt then [(client, receipt r uid)] else []) \<and>
    outbox (sender (server self')) = outbox (sender (server self)) @ (if rc \<and> uq then [(sock, client, receipt r uid)] else []) \<and>
    (uq \<longrightarrow> (\<exists>p. SEND_QUEUE (sender (server self')) = Some p \<and> pq_ok p)) \<and> receiverQueue self' = receiverQueue self \<and>
    cq_ok (cmdQueue self') \<and> cq_inflight (cmdQueue self') = cq_inflight (cmdQueue self) \<and>
    cq_pending (cmdQueue self') = cq_pending (cmdQueue self) @ (if rc then [validation_command r sock client uid] else [])"
proof -
  let ?s = "server self"
  have thr: "thread_at ?s client = Inr t" and c: "routerID t \<noteq> 0" and uc: "updateCache (pcache ?s) = Some uc" "uc_ok T uc" "uc_entry T uc uid = None"
    and ac: "ac_ok T (apcache ?s)" "ac_entry T (apcache ?s) pid = None" and q: "cq_ok (cmdQueue self)"
    and id: "generateIdentifier (stack_room env) (ntohl (vr_originAS r)) (request_prefix r) (request_bgpsec r) = Inr uid" "request_pathID env r = Inr pid" "pid \<noteq> 0"
    and r: "request_complete r" "ntohs (numHops r) \<noteq> 0" "ntohs (numHops r) < 256" and flags: "vr_flags r AND SRX_FLAG_ROA_BGPSEC_ASPA \<noteq> 0"
    and mem: "realloc_ok env" "ac_alloc env \<noteq> 0" "ac_entries (apcache ?s) (ac_alloc env) = None" "cmd_data_ok env"
      and ready: "\<not> mode_no_sendqueue env \<longrightarrow> queue_ready (sq_malloc (base env)) (SEND_QUEUE (sender ?s))"
    using new unfolding new_request_def thread_at_def by simp_all
  obtain a n i where addrs: "uc_alloc env = Some a" "a \<noteq> 0" "a \<notin> set (allItems uc)" "cmd_node env = Some n" "cmd_item env = Some i"
    "cq_usable (n, i) (validation_command r sock client uid) (cmdQueue self)"
    using new unfolding new_request_def by (auto split: option.splits)
  have client: "isSet8 (vr_flags r) SRX_FLAG_ROA \<or> isSet8 (vr_flags r) SRX_FLAG_BGPSEC \<or> isSet8 (vr_flags r) SRX_FLAG_ASPA"
    using flags unfolding isSet8_bits validation_bits by (auto split: if_splits)
  obtain dres where look: "lookup_request T env (routerID t) uid ?s = Inr ((False, undefined_result, dres, 0), ?s)"
    using lookup_request_new [OF uc] by blast
  define dres' where "dres' = dres\<lparr>defResult := (defResult dres)\<lparr>aspaResult := aspaDefRes r\<rparr>, resSourceASPA := ucast (aspaResSrc r)\<rparr>"
  obtain ac' where ac': "path_request T env r True undefined_result dres 0 ?s =
      Inr ((pid, undefined_result\<lparr>aspaResult := aspaDefRes r\<rparr>, dres', None), ?s\<lparr>apcache := ac'\<rparr>)" "ac_ok T ac'"
    "ac_entry T ac' = (ac_entry T (apcache ?s))(pid \<mapsto> request_path_entry env r pid)"
    using path_request_new [OF T ac id(2,3) mem(2,3) r, of dres] unfolding dres'_def by blast
  define s1 where "s1 = ?s\<lparr>apcache := ac'\<rparr>"
  have s1: "updateCache (pcache s1) = Some uc" "pcache s1 = pcache ?s" "apcache s1 = ac'" "aspaDB s1 = aspaDB ?s" "sender s1 = sender ?s"
    using uc(1) by (simp_all add: s1_def)
  have dres': "aspaResult (defResult dres') = aspaDefRes r" "resSourceASPA dres' = ucast (aspaResSrc r)" by (simp_all add: dres'_def)
  obtain s2 uc' e where s2: "store_request T env r (routerID t) uid (undefined_result\<lparr>aspaResult := aspaDefRes r\<rparr>) dres' pid s1 =
      Inr ((True, defResult (request_default r)), s2)" "s2 = s1\<lparr>pcache := (pcache s1)\<lparr>updateCache := Some uc'\<rparr>, proxies := proxies s2\<rparr>"
    and e: "uc_ok T uc'" "uc_entry T uc' = (uc_entry T uc)(uid \<mapsto> e)" "ceAsn e = ntohl (vr_originAS r)" "aspathCacheID e = pid"
      "srxResult e = undefined_result" "defaultResult e = request_default r" "pathData e = path_of (request_bgpsec r) (Some (request_prefix r))"
      "entry_clients e = [routerID t]"
    using store_request_new [OF T s1(1) uc(2,3) addrs(1-3) mem(1) r(1) c dres', of pid] by blast
  have s2': "pcache s2 = (pcache ?s)\<lparr>updateCache := Some uc'\<rparr>" "apcache s2 = ac'" "aspaDB s2 = aspaDB ?s" "sender s2 = sender ?s"
    using s1 by (subst s2(2), simp)+
  define self1 where "self1 = self\<lparr>server := s2\<rparr>"
  have self1: "server self1 = s2" "cmdQueue self1 = cmdQueue self" by (simp_all add: self1_def)
  obtain q' sd' where q': "answer_request env r sock client uid (defResult (request_default r)) self1 =
      Some (Inr (rc \<longrightarrow> uq \<or> nt, self1\<lparr>cmdQueue := q', server := s2\<lparr>sender := sd'\<rparr>\<rparr>))"
    and sd': "sent sd' = sent (sender ?s) @ (if rc \<and> \<not> uq \<and> nt then [(client, receipt r uid)] else [])"
      "outbox sd' = outbox (sender ?s) @ (if rc \<and> uq then [(sock, client, receipt r uid)] else [])" "uq \<longrightarrow> (\<exists>p. SEND_QUEUE sd' = Some p \<and> pq_ok p)"
    and cq': "cq_ok q'" "cq_inflight q' = cq_inflight (cmdQueue self)"
      "cq_pending q' = cq_pending (cmdQueue self) @ (if rc then [validation_command r sock client uid] else [])"
    using answer_request_new [of self1 env n i r sock client uid] q addrs(4-6) mem(4) ready flags unfolding self1 s2' rc_def nt_def uq_def by blast
  have "processValidationRequest T env sock client r self = answer_request env r sock client uid (defResult (request_default r)) self1"
    unfolding processValidationRequest_def thr Let_def using client look ac'(1) s2(1) request_updateID_new [OF uc id(1)]
    by (simp add: on_server_def s1_def self1_def)
  moreover define self2 where "self2 = self1\<lparr>cmdQueue := q', server := s2\<lparr>sender := sd'\<rparr>\<rparr>"
  moreover have "pcache (server self2) = pcache s2" "apcache (server self2) = apcache s2" "aspaDB (server self2) = aspaDB s2" "cmdQueue self2 = q'"
    "sender (server self2) = sd'" "receiverQueue self2 = receiverQueue self" by (simp_all add: self2_def self1_def)
  ultimately show ?thesis using q' sd' cq' e ac'(2,3) s2' by (intro exI [of _ self2] exI [of _ uc'] exI [of _ e]) (simp del: fun_upd_apply)
qed

text \<open>C15. A request for an update that is not stored yet, and neither is its AS path, in the situation \<open>new_request\<close>: the caches and queues are in order and have free memory, the stack has room for the text of the update,
  the client is known, and the packet is complete and has 1 to 255 hops and at least one validation flag. \<open>processValidationRequest\<close> stores the update under its generated identifier, with all
  results undefined, the defaults of the request, its path data and the client, and the AS path under its path identifier; nothing else in the two caches changes. If a receipt is
  requested, a notification with the default results and the token of the request is appended to the send queue, or sent to the client in the mode without that queue, and exactly one command for
  the requested validations is appended to the command queue; the function fails only if the client can not be reached in that mode. Without a receipt nothing is sent and nothing is queued:
  the update is stored but not validated.\<close>

theorem processValidationRequest_new:
  assumes "uthash_laws T" "new_request T env r sock client self t uc uid pid"
  shows "\<exists>self' uc' e. processValidationRequest T env sock client r self =
      Some (Inr (bit (vr_flags r) 7 \<longrightarrow> \<not> mode_no_sendqueue env \<or> net (base env) client, self')) \<and>
    pcache (server self') = (pcache (server self))\<lparr>updateCache := Some uc'\<rparr> \<and> aspaDB (server self') = aspaDB (server self) \<and>
    uc_ok T uc' \<and> uc_entry T uc' = (uc_entry T uc)(uid \<mapsto> e) \<and>
    ceAsn e = ntohl (vr_originAS r) \<and> aspathCacheID e = pid \<and> srxResult e = undefined_result \<and> defaultResult e = request_default r \<and>
    pathData e = path_of (request_bgpsec r) (Some (request_prefix r)) \<and> entry_clients e = [routerID t] \<and>
    ac_ok T (apcache (server self')) \<and>
    ac_entry T (apcache (server self')) = (ac_entry T (apcache (server self)))(pid \<mapsto> request_path_entry env r pid) \<and>
    sent (sender (server self')) = sent (sender (server self)) @
      (if bit (vr_flags r) 7 \<and> mode_no_sendqueue env \<and> net (base env) client then [(client, receipt r uid)] else []) \<and>
    outbox (sender (server self')) = outbox (sender (server self)) @
      (if bit (vr_flags r) 7 \<and> \<not> mode_no_sendqueue env then [(sock, client, receipt r uid)] else []) \<and>
    cq_ok (cmdQueue self') \<and> cq_inflight (cmdQueue self') = cq_inflight (cmdQueue self) \<and>
    cq_pending (cmdQueue self') = cq_pending (cmdQueue self) @ (if bit (vr_flags r) 7 then [validation_command r sock client uid] else [])"
  using processValidationRequest_ok [OF assms] unfolding not_not by blast

section \<open>A request\<close>

definition hops_request :: VerifyRequest where
  "hops_request = sample_request\<lparr>vr_flags := 133, numHops := ntohs 1, vr_payload := [0, 0, 253, 233]\<rparr>"

definition no_updates :: "((u32 \<Rightarrow> addr) \<times> addr list) UpdateCache" where
  "no_updates = sample_cache\<lparr>allItems := [], availItems := 0, table := (\<lambda>_. 0, []), entries := Map.empty\<rparr>"

definition proxy_thread :: ClientThread where
  "proxy_thread = \<lparr>ct_active = True, initialized = True, ct_proxyID = 7, goodByeReceived = False, routerID = 1\<rparr>"

text \<open>The queues of a server that runs in its default configuration and has nothing to do.\<close>

definition idle_queue :: "'e PacketQueue" where
  "idle_queue = \<lparr>pq_nodes = Map.empty, pq_head = 0, pq_tail = 0, pq_size = 0, running = True, pq_mutex = MutexFree\<rparr>"

lemma idle_queue_ok: "pq_ok idle_queue" "pq_items idle_queue = []" "pq_used idle_queue = {}"
  by (simp_all add: pq_ok_def pq_repr_def pq_items_def pq_used_def idle_queue_def exI [of _ "[]"])

definition sample_handler :: "(prefix_t list, (u32 \<Rightarrow> addr) \<times> addr list) ConnectionHandler" where
  "sample_handler = \<lparr>server = sample_server\<lparr>pcache := sample_pc\<lparr>updateCache := Some no_updates\<rparr>, apcache := empty_aspath_cache,
     threads := [5 \<mapsto> proxy_thread], sender := \<lparr>sent = [], SEND_QUEUE = Some idle_queue\<rparr>\<rparr>, cmdQueue = new_queue, receiverQueue = Some idle_queue, inShutdown = False\<rparr>"

definition sample_renv :: request_env where
  "sample_renv = \<lparr>base = sample_env\<lparr>sq_malloc := Some 3\<rparr>, uc_alloc = Some 4, uc_garbage = sample_entry, realloc_ok = True, ac_alloc = 1, cmd_node = Some 10,
     cmd_item = Some 20, cmd_data_ok = True, rq_elem = Some 2, rq_data_ok = True, junk_asType = 0, junk_asRelType = 0,
     junk_result = undefined_result, mode_no_sendqueue = False, stack_room = (\<lambda>n. n + 16)\<rparr>"

lemma hops_data: "request_bgpsec hops_request =
    \<lparr>numberHops = 1, asPath = [ntohl 65001], attr_length = 0, bafi = 0, bsafi = 0, breserved = 0, local_as = 0, bgpsec_path_attr = None\<rparr>"
  by (simp add: request_bgpsec_def hops_request_def sample_request_def ntohs_def ntohl_def)

lemma hops_prefix: "request_prefix hops_request = sample_prefix"
  unfolding sample_request_prefix [symmetric] by (simp add: request_prefix_def hops_request_def)

lemma hops_path_text: "sprintf_X 8 65001 @ sprintf_X 1 2 @ [0] = ([48, 48, 48, 48, 70, 68, 69, 57, 50, 0] :: u8 list)"
proof -
  have "base_digits 16 65001 = [15, 13, 14, 9]" "base_digits 16 2 = [2]"
    by (simp_all add: base_digits.simps [of 16 65001] base_digits.simps [of 16 4062] base_digits.simps [of 16 253] base_digits.simps [of 16 15]
      base_digits.simps [of 16 2])
  moreover have "replicate 4 x = [x, x, x, x]" for x :: u8 by (simp add: numeral_eq_Suc)
  ultimately show ?thesis by (simp add: sprintf_X_def digit_code_def)
qed

lemma hops_pathID: "\<exists>pid. request_pathID sample_renv hops_request = Inr pid \<and> pid \<noteq> 0"
proof -
  have "crc32 [48, 48, 48, 48, 70, 68, 69, 57, 50, 0] \<noteq> 0"
    unfolding crc32_def crc32_loop_eq foldl.simps by (simp add: crc_byte_unfold crc_bit_numerals)
  moreover have "ntohs (numHops hops_request) = 1" "request_asType sample_renv hops_request = 2"
    by (simp_all add: hops_request_def sample_request_def ntohs_def request_asType_def)
  then have "request_pathID sample_renv hops_request = Inr (crc32 (sprintf_X 8 65001 @ sprintf_X 1 2 @ [0]))"
    by (simp add: request_pathID_def hops_data request_path_def makePathId_def ntohl_ntohl)
  ultimately show ?thesis unfolding hops_path_text by blast
qed

lemma hops_updateID: "\<exists>uid. generateIdentifier (stack_room sample_renv) (ntohl (vr_originAS hops_request)) (request_prefix hops_request) (request_bgpsec hops_request) = Inr uid"
proof -
  have "addr_ok sample_prefix" "\<forall>n. n + 7 \<le> stack_room sample_renv n" by (simp_all add: addr_ok_def sample_prefix_def sample_renv_def)
  moreover have "snd (id_blob (request_bgpsec hops_request)) \<le> length (fst (id_blob (request_bgpsec hops_request)))"
    unfolding hops_data by (simp add: id_blob_def mem_bytes32_def)
  ultimately show ?thesis unfolding hops_prefix using generateIdentifier_roomy by blast
qed

lemma no_updates_ok: "uc_ok fun_table no_updates" "uc_entry fun_table no_updates k = None"
  by (simp_all add: uc_ok_def uc_entry_def no_updates_def sample_cache_def)

lemma sample_new_request:
  "\<exists>uid pid. new_request fun_table sample_renv hops_request 0 5 sample_handler proxy_thread no_updates uid pid"
proof -
  obtain uid pid where "generateIdentifier (stack_room sample_renv) (ntohl (vr_originAS hops_request)) (request_prefix hops_request) (request_bgpsec hops_request) = Inr uid"
    "request_pathID sample_renv hops_request = Inr pid" "pid \<noteq> 0" using hops_pathID hops_updateID by blast
  moreover have "cq_ok new_queue" "cq_usable (10, 20) (validation_command hops_request 0 5 uid) new_queue"
    using new_queue_inv by (auto simp: cq_ok_def cq_usable_def validation_command_def new_queue_def hops_request_def sample_request_def ntohl_def)
  moreover have "request_complete hops_request" "ntohs (numHops hops_request) = 1" "vr_flags hops_request AND SRX_FLAG_ROA_BGPSEC_ASPA \<noteq> 0"
    by (simp_all add: request_complete_def hops_request_def sample_request_def ntohs_def)
  ultimately have "new_request fun_table sample_renv hops_request 0 5 sample_handler proxy_thread no_updates uid pid"
    unfolding new_request_def using no_updates_ok empty_aspath_cache_ok
    by (simp add: idle_queue_ok queue_ready_def sample_handler_def proxy_thread_def sample_renv_def no_updates_def empty_aspath_cache_def)
  then show ?thesis by blast
qed

theorem processValidationRequest_new_witness:
  "\<exists>uid self'. processValidationRequest fun_table sample_renv 0 5 hops_request sample_handler = Some (Inr (True, self')) \<and>
    cq_pending (cmdQueue self') = [validation_command hops_request 0 5 uid] \<and> outbox (sender (server self')) = [(0, 5, receipt hops_request uid)]"
proof -
  obtain uid pid where new: "new_request fun_table sample_renv hops_request 0 5 sample_handler proxy_thread no_updates uid pid"
    using sample_new_request by blast
  have "bit (vr_flags hops_request) 7" "\<not> mode_no_sendqueue sample_renv" by (simp_all add: hops_request_def sample_renv_def)
  moreover have "cq_pending (cmdQueue sample_handler) = []" "outbox (sender (server sample_handler)) = []"
    using cq_views(2) [OF new_queue_inv] by (simp_all add: idle_queue_ok sample_handler_def outbox_def)
  ultimately show ?thesis using processValidationRequest_new [OF fun_table_laws new] by auto
qed

theorem free_updateID_ends_witness:
  "\<exists>r. free_updateID fun_table sample_prefix 65001 sample_data sample_cache 9 = Some r \<and>
    search_result fun_table sample_prefix 65001 sample_data sample_cache 9 r"
proof -
  have "uc_entry fun_table sample_cache 10 = None" by (simp add: uc_entry_def sample_cache_def)
  from free_updateID_ends [OF sample_cache_ok this, of sample_prefix 65001 sample_data 9] show ?thesis by blast
qed

end
