(* ===== verification/Bgpsec_Path.thy ===== *)
theory Bgpsec_Path
  imports Prelude
begin

text \<open>
  The parser of the BGPsec path attribute, \<open>_ski_parseBGPsec_PATH\<close> of \<open>server/ski_cache.c\<close>. The attribute is a
  byte string; the structures that the code lays over it (\<open>srx/srxcryptoapi.h\<close>) are reads at their offsets, and a read behind the end
  of the string is the fault \<open>OutOfBounds\<close>. The theory also has the encoding of an attribute, of which the parser is shown to
  be the inverse.
\<close>

section \<open>Reads\<close>

definition be16 :: "u8 \<Rightarrow> u8 \<Rightarrow> u16" where
  "be16 h l = of_nat (256 * unat h + unat l)"

definition be32 :: "u8 \<Rightarrow> u8 \<Rightarrow> u8 \<Rightarrow> u8 \<Rightarrow> u32" where
  "be32 a b c d = of_nat (16777216 * unat a + 65536 * unat b + 256 * unat c + unat d)"

definition rd8 :: "u8 list \<Rightarrow> nat \<Rightarrow> u8 cres" where
  "rd8 b i = read_arr (Some b) i"

definition rd16 :: "u8 list \<Rightarrow> nat \<Rightarrow> u16 cres" where
  "rd16 b i = cbind (rd8 b i) (\<lambda>h. cbind (rd8 b (i + 1)) (\<lambda>l. Inr (be16 h l)))"

definition rd32 :: "u8 list \<Rightarrow> nat \<Rightarrow> u32 cres" where
  "rd32 b i = cbind (rd8 b i) (\<lambda>w. cbind (rd8 b (i + 1)) (\<lambda>x. cbind (rd8 b (i + 2)) (\<lambda>y. cbind (rd8 b (i + 3)) (\<lambda>z. Inr (be32 w x y z)))))"

definition rd_bytes :: "u8 list \<Rightarrow> nat \<Rightarrow> nat \<Rightarrow> u8 list cres" where
  "rd_bytes b i n = (if i + n \<le> length b then Inr (take n (drop i b)) else Inl OutOfBounds)"

section \<open>The parser\<close>

definition SKI_LENGTH :: nat where [simp]: "SKI_LENGTH = 20"

definition SCA_BGP_UPD_A_FLAGS_EXT_LENGTH :: u8 where [simp]: "SCA_BGP_UPD_A_FLAGS_EXT_LENGTH = 0x10"

datatype e_Upd_RegRes = REGVAL_ERROR | REGVAL_INVALID | REGVAL_UNKNOWN

text \<open>What the parser gathers: the AS numbers of the path segments, the algorithm of each signature block and the key identifiers, one behind
  the other.\<close>

record SKI_TMP_UPD_INFO =
  ui_status :: e_Upd_RegRes
  nrSegments :: u16
  nrSigBlocks :: u16
  ui_asn :: "u32 list"
  ui_algoID :: "u8 list"
  ui_ski :: "u8 list"

definition ski_initializeUpdInfo :: SKI_TMP_UPD_INFO where
  "ski_initializeUpdInfo = \<lparr>ui_status = REGVAL_ERROR, nrSegments = 0, nrSigBlocks = 0, ui_asn = [], ui_algoID = [0, 0], ui_ski = []\<rparr>"

text \<open>The path segments have 6 bytes, of which the last four are the AS number. A signature segment is the key identifier, the length of the
  signature and the signature.\<close>

primrec read_asns :: "u8 list \<Rightarrow> nat \<Rightarrow> nat \<Rightarrow> u32 list cres" where
  "read_asns b pos 0 = Inr []"
| "read_asns b pos (Suc n) = cbind (rd32 b (pos + 2)) (\<lambda>x. cbind (read_asns b (pos + 6) n) (\<lambda>xs. Inr (x # xs)))"

primrec read_skis :: "u8 list \<Rightarrow> nat \<Rightarrow> nat \<Rightarrow> u8 list cres" where
  "read_skis b pos 0 = Inr []"
| "read_skis b pos (Suc n) =
     cbind (rd_bytes b pos SKI_LENGTH) (\<lambda>ski. cbind (rd16 b (pos + 20)) (\<lambda>siglen.
     cbind (read_skis b (pos + 22 + unat siglen) n) (\<lambda>skis. Inr (ski @ skis))))"

text \<open>The positions of the signature blocks, of which at most two are looked for, and what is left of the length.\<close>

definition sig_blocks :: "u8 list \<Rightarrow> nat \<Rightarrow> u16 \<Rightarrow> (nat list \<times> u16) cres" where
  "sig_blocks b p remainder =
     (if remainder = 0 then Inr ([], 0)
      else cbind (rd16 b p) (\<lambda>len1.
        if remainder - len1 = 0 then Inr ([p], 0)
        else cbind (rd16 b (p + unat len1)) (\<lambda>len2. Inr ([p, p + unat len1], remainder - len1 - len2))))"

definition read_block :: "u8 list \<Rightarrow> nat \<Rightarrow> nat \<Rightarrow> (u8 \<times> u8 list) cres" where
  "read_block b n p = cbind (rd8 b (p + 2)) (\<lambda>algo. cbind (read_skis b (p + 3) n) (\<lambda>skis. Inr (algo, skis)))"

text \<open>The loop over the blocks ends at the first null pointer in an array of two elements: when both are in use, it goes on to the element
  behind the array.\<close>

definition read_blocks :: "u8 list \<Rightarrow> nat \<Rightarrow> nat list \<Rightarrow> (u8 list \<times> u8 list) cres" where
  "read_blocks b n ps = (case ps of
      [] \<Rightarrow> Inr ([0, 0], [])
    | [p] \<Rightarrow> cbind (read_block b n p) (\<lambda>(algo, skis). Inr ([algo, 0], skis))
    | p # q # _ \<Rightarrow> cbind (read_block b n p) (\<lambda>_. cbind (read_block b n q) (\<lambda>_. Inl OutOfBounds)))"

text \<open>The length of the attribute has one or two bytes. The remainder is an unsigned 16 bit number, so the tests for a
  negative one never succeed.\<close>

definition read_length :: "u8 list \<Rightarrow> (u16 \<times> nat) cres" where
  "read_length b = cbind (rd8 b 0) (\<lambda>flags.
     if flags AND SCA_BGP_UPD_A_FLAGS_EXT_LENGTH = 0 then cbind (rd8 b 2) (\<lambda>len. Inr (ucast len, 3))
     else cbind (rd16 b 2) (\<lambda>len. Inr (len, 4)))"

definition ski_parseBGPsec_PATH :: "u8 list \<Rightarrow> SKI_TMP_UPD_INFO cres" where
  "ski_parseBGPsec_PATH b = cbind (read_length b) (\<lambda>(remainder, pos).
     if remainder = 0 then Inr ski_initializeUpdInfo
     else cbind (rd16 b pos) (\<lambda>len.
       let n = of_nat ((unat len - 2) div 6); remainder = remainder - 2
       in if remainder = 0 then Inr (ski_initializeUpdInfo\<lparr>nrSegments := n\<rparr>)
          else cbind (sig_blocks b (pos + 2 + 6 * unat n) (remainder - n * 6)) (\<lambda>(ps, remainder).
            let info = ski_initializeUpdInfo\<lparr>nrSegments := n, nrSigBlocks := of_nat (length ps)\<rparr>
            in if remainder \<noteq> 0 then Inr info
               else cbind (read_asns b (pos + 2) (unat n)) (\<lambda>asns.
                    cbind (read_blocks b (unat n) ps) (\<lambda>(algos, skis).
                      Inr (info\<lparr>ui_status := REGVAL_INVALID, ui_asn := asns, ui_algoID := algos, ui_ski := skis\<rparr>))))))"

section \<open>The encoding of an attribute\<close>

definition enc16 :: "nat \<Rightarrow> u8 list" where
  "enc16 n = [of_nat (n div 256), of_nat (n mod 256)]"

definition enc32 :: "u32 \<Rightarrow> u8 list" where
  "enc32 w = [of_nat (unat w div 16777216), of_nat (unat w div 65536 mod 256), of_nat (unat w div 256 mod 256), of_nat (unat w mod 256)]"

text \<open>A path segment has a count, flags and the AS number.\<close>

definition enc_segment :: "u8 \<times> u8 \<times> u32 \<Rightarrow> u8 list" where
  "enc_segment = (\<lambda>(pcount, flags, as). [pcount, flags] @ enc32 as)"

definition enc_sig :: "u8 list \<times> u8 list \<Rightarrow> u8 list" where
  "enc_sig = (\<lambda>(ski, sig). ski @ enc16 (length sig) @ sig)"

definition enc_block :: "u8 \<Rightarrow> (u8 list \<times> u8 list) list \<Rightarrow> u8 list" where
  "enc_block algo sigs = enc16 (3 + length (concat (map enc_sig sigs))) @ [algo] @ concat (map enc_sig sigs)"

definition enc_body :: "(u8 \<times> u8 \<times> u32) list \<Rightarrow> u8 list \<Rightarrow> u8 list" where
  "enc_body segs blocks = enc16 (2 + 6 * length segs) @ concat (map enc_segment segs) @ blocks"

definition enc_attr :: "u8 \<Rightarrow> u8 \<Rightarrow> u8 list \<Rightarrow> u8 list" where
  "enc_attr flags ty body = [flags, ty] @
     (if flags AND SCA_BGP_UPD_A_FLAGS_EXT_LENGTH = 0 then [of_nat (length body)] else enc16 (length body)) @ body"

definition attr_fits :: "u8 \<Rightarrow> u8 list \<Rightarrow> bool" where
  "attr_fits flags body \<longleftrightarrow> length body < (if flags AND SCA_BGP_UPD_A_FLAGS_EXT_LENGTH = 0 then 256 else 65536)"

section \<open>Reading what was written\<close>

lemma enc_length [simp]: "length (enc16 n) = 2" "length (enc32 w) = 4" "length (enc_segment x) = 6"
  by (simp_all add: enc16_def enc32_def enc_segment_def split: prod.splits)

lemma length_segments: "length (concat (map enc_segment segs)) = 6 * length segs"
  by (induction segs) simp_all

lemma be16_enc16: "n < 65536 \<Longrightarrow> be16 (of_nat (n div 256)) (of_nat (n mod 256)) = of_nat n"
  by (simp add: be16_def unat_of_nat)

lemma be32_enc32:
  "be32 (of_nat (unat w div 16777216)) (of_nat (unat w div 65536 mod 256)) (of_nat (unat w div 256 mod 256)) (of_nat (unat w mod 256)) = w"
proof -
  have "unat w < 4294967296" using unsigned_less [of w] by simp
  then have "16777216 * (unat w div 16777216) + 65536 * (unat w div 65536 mod 256) + 256 * (unat w div 256 mod 256) + unat w mod 256 = unat w"
  proof -
    define y z where "y = unat w div 256" and "z = y div 256"
    have "unat w = 256 * y + unat w mod 256" "y = 256 * z + y mod 256" "z = 256 * (z div 256) + z mod 256" by (simp_all add: y_def z_def)
    moreover have e: "unat w div 65536 = z" "unat w div 16777216 = z div 256" by (simp_all add: y_def z_def div_mult2_eq [symmetric])
    ultimately show ?thesis unfolding e y_def [symmetric] by linarith
  qed
  moreover have "unat w div 16777216 < 256" using \<open>unat w < 4294967296\<close> by simp
  ultimately show ?thesis by (simp add: be32_def unat_of_nat)
qed

lemma rd8_at [simp]: "rd8 (pre @ x # post) (length pre) = Inr x"
  by (simp add: rd8_def)

lemma rd8_skip: "rd8 (pre @ b) (length pre + i) = rd8 b i"
  by (auto simp: rd8_def read_arr_def nth_append)

lemma rd8_Cons: "rd8 (x # b) 0 = Inr x" "rd8 (x # b) (Suc i) = rd8 b i"
  by (auto simp: rd8_def read_arr_def)

lemma rd16_skip: "rd16 (pre @ b) (length pre + i) = rd16 b i"
  using rd8_skip [of pre b "i + 1"] by (simp add: rd16_def rd8_skip add.assoc)

lemma rd32_skip: "rd32 (pre @ b) (length pre + i) = rd32 b i"
  using rd8_skip [of pre b "i + 1"] rd8_skip [of pre b "i + 2"] rd8_skip [of pre b "i + 3"] by (simp add: rd32_def rd8_skip add.assoc)

lemma rd16_enc: "n < 65536 \<Longrightarrow> rd16 (enc16 n @ b) 0 = Inr (of_nat n)"
  by (simp add: rd16_def enc16_def rd8_Cons be16_enc16)

lemma rd32_enc: "rd32 (enc32 w @ b) 0 = Inr w"
  by (simp add: rd32_def enc32_def rd8_Cons be32_enc32 numeral_2_eq_2 numeral_3_eq_3)

lemma rd8_nth: "i < length b \<Longrightarrow> rd8 b i = Inr (b ! i)"
  by (simp add: rd8_def)

lemma rd16_append: "i + 2 \<le> length a \<Longrightarrow> rd16 (a @ b) i = rd16 a i"
  by (simp add: rd16_def rd8_nth nth_append)

lemma rd32_append: "i + 4 \<le> length a \<Longrightarrow> rd32 (a @ b) i = rd32 a i"
  by (simp add: rd32_def rd8_nth nth_append)

lemma rd32_at: "i = length a \<Longrightarrow> rd32 (a @ enc32 w @ b) i = Inr w"
  using rd32_skip [of a "enc32 w @ b" 0] rd32_enc [of w b] by simp

lemma rd16_at: "i = length a \<Longrightarrow> n < 65536 \<Longrightarrow> rd16 (a @ enc16 n @ b) i = Inr (of_nat n)"
  using rd16_skip [of a "enc16 n @ b" 0] rd16_enc [of n b] by simp

lemma rd_bytes_at: "i = length a \<Longrightarrow> n = length x \<Longrightarrow> rd_bytes (a @ x @ b) i n = Inr x"
  by (simp add: rd_bytes_def)

lemma read_asns_enc: "read_asns (pre @ concat (map enc_segment segs) @ post) (length pre) (length segs) = Inr (map (snd \<circ> snd) segs)"
proof (induction segs arbitrary: pre)
  case (Cons s segs)
  obtain c f w where s: "s = (c, f, w)" by (cases s)
  have "rd32 ((pre @ [c, f]) @ enc32 w @ concat (map enc_segment segs) @ post) (length (pre @ [c, f]) + 0) = Inr w"
    by (simp only: rd32_skip rd32_enc)
  moreover have "read_asns ((pre @ enc_segment s) @ concat (map enc_segment segs) @ post) (length (pre @ enc_segment s)) (length segs) = Inr (map (snd \<circ> snd) segs)"
    by (rule Cons.IH)
  ultimately show ?case by (simp add: s enc_segment_def)
qed simp

lemma read_skis_enc:
  assumes "\<forall>(ski, sig) \<in> set sigs. length ski = SKI_LENGTH \<and> length sig < 65536"
  shows "read_skis (pre @ concat (map enc_sig sigs) @ post) (length pre) (length sigs) = Inr (concat (map fst sigs))"
  using assms
proof (induction sigs arbitrary: pre)
  case (Cons s sigs)
  obtain ski sig where s: "s = (ski, sig)" by (cases s)
  have len: "length ski = 20" "length sig < 65536" using Cons.prems s by auto
  let ?rest = "concat (map enc_sig sigs) @ post"
  let ?b = "pre @ enc_sig s @ ?rest"
  have "rd_bytes ?b (length pre) SKI_LENGTH = Inr ski" using len(1) by (simp add: rd_bytes_def s enc_sig_def)
  moreover have "rd16 ?b (length pre + 20) = Inr (of_nat (length sig))"
    using rd16_skip [of "pre @ ski" "enc16 (length sig) @ sig @ ?rest" 0] rd16_enc [OF len(2)] len(1) by (simp add: s enc_sig_def)
  moreover have "read_skis ((pre @ enc_sig s) @ ?rest) (length (pre @ enc_sig s)) (length sigs) = Inr (concat (map fst sigs))"
    using Cons.IH [of "pre @ enc_sig s"] Cons.prems by simp
  ultimately show ?case using len by (simp add: s enc_sig_def unat_of_nat add.assoc del: SKI_LENGTH_def)
qed simp

text \<open>The attribute in front of its body.\<close>

definition attr_head :: "u8 \<Rightarrow> u8 \<Rightarrow> nat \<Rightarrow> u8 list" where
  "attr_head flags ty n = [flags, ty] @ (if flags AND SCA_BGP_UPD_A_FLAGS_EXT_LENGTH = 0 then [of_nat n] else enc16 n)"

lemma enc_attr_head: "enc_attr flags ty body @ rest = attr_head flags ty (length body) @ body @ rest"
  by (simp add: enc_attr_def attr_head_def)

lemma read_length_enc:
  assumes "attr_fits flags body"
  shows "read_length (attr_head flags ty (length body) @ b) = Inr (of_nat (length body), length (attr_head flags ty (length body)))"
proof (cases "flags AND SCA_BGP_UPD_A_FLAGS_EXT_LENGTH = 0")
  case True
  then have len: "length body < 256" using assms by (simp add: attr_fits_def)
  have "(ucast (of_nat (length body) :: u8) :: u16) = of_nat (length body)"
    using len by (intro word_unat_eq_iff [THEN iffD2]) (simp add: unsigned_ucast_eq unat_of_nat take_bit_nat_eq_self_iff)
  then show ?thesis using True by (simp add: read_length_def attr_head_def rd8_Cons numeral_2_eq_2)
next
  case False
  then have "length body < 65536" using assms by (simp add: attr_fits_def)
  then show ?thesis using False rd16_skip [of "[flags, ty]" "enc16 (length body) @ b" 0] rd16_enc [of "length body" b]
    by (simp add: read_length_def attr_head_def rd8_Cons numeral_2_eq_2)
qed

text \<open>The parser on an encoded attribute, up to the signature blocks.\<close>

lemma body_length: "length (enc_body segs blocks) = 2 + 6 * length segs + length blocks"
  by (simp add: enc_body_def length_segments)

lemma parse_enc:
  fixes ty :: u8 and rest :: "u8 list"
  assumes fits: "attr_fits flags (enc_body segs blocks)" and some: "segs \<noteq> [] \<or> blocks \<noteq> []"
  defines "n \<equiv> length segs" and "b \<equiv> enc_attr flags ty (enc_body segs blocks) @ rest"
    and "p \<equiv> length (attr_head flags ty (length (enc_body segs blocks)))"
  shows "ski_parseBGPsec_PATH b =
     cbind (sig_blocks b (p + 2 + 6 * n) (of_nat (length blocks))) (\<lambda>(ps, remainder).
       let info = ski_initializeUpdInfo\<lparr>nrSegments := of_nat n, nrSigBlocks := of_nat (length ps)\<rparr>
       in if remainder \<noteq> 0 then Inr info
          else cbind (read_blocks b n ps) (\<lambda>(algos, skis).
             Inr (info\<lparr>ui_status := REGVAL_INVALID, ui_asn := map (snd \<circ> snd) segs, ui_algoID := algos, ui_ski := skis\<rparr>)))"
proof -
  let ?head = "attr_head flags ty (length (enc_body segs blocks))"
  have b: "b = ?head @ enc16 (2 + 6 * n) @ concat (map enc_segment segs) @ blocks @ rest"
    unfolding b_def enc_attr_head by (simp add: enc_body_def n_def)
  have len: "2 + 6 * n + length blocks < 65536" using fits unfolding attr_fits_def body_length n_def by (simp split: if_splits)
  have pos: "0 < n \<or> 0 < length blocks" using some by (auto simp: n_def)
  have l: "read_length b = Inr (of_nat (2 + 6 * n + length blocks), p)"
    unfolding b_def enc_attr_head p_def using read_length_enc [OF fits] by (simp add: body_length n_def)
  have r: "rd16 b p = Inr (of_nat (2 + 6 * n))"
    unfolding b p_def using rd16_skip [of ?head _ 0] rd16_enc [of "2 + 6 * n"] len by simp
  have small: "unat (of_nat k :: u16) = k" "0 < k \<Longrightarrow> (of_nat k :: u16) \<noteq> 0" if "k < 65536" for k
    using that by (simp_all add: unat_of_nat word_of_nat_eq_0_iff nat_dvd_not_less)
  have u: "unat (of_nat (2 + 6 * n) :: u16) = 2 + 6 * n" "unat (of_nat n :: u16) = n" using len by (intro small(1); linarith)+
  have sub: "of_nat (2 + 6 * n + length blocks) - 2 = (of_nat (6 * n + length blocks) :: u16)" by simp
  have m: "(of_nat (2 + 6 * n + length blocks) :: u16) \<noteq> 0" "of_nat (2 + 6 * n + length blocks) - 2 \<noteq> (0 :: u16)"
    using len pos by (intro small(2); linarith) (unfold sub, intro small(2); use len pos in linarith)
  have m3: "of_nat (2 + 6 * n + length blocks) - 2 - of_nat n * 6 = (of_nat (length blocks) :: u16)" by simp
  have segs: "read_asns b (p + 2) n = Inr (map (snd \<circ> snd) segs)"
    using read_asns_enc [of "?head @ enc16 (2 + 6 * n)" segs "blocks @ rest"] unfolding b p_def n_def by simp
  have half: "((2 + 6 * n) - 2) div 6 = n" by simp
  show ?thesis unfolding ski_parseBGPsec_PATH_def l cbind_simps prod.case r Let_def u half m3 segs
    using m by (simp only: if_False)
qed

definition sigs_ok :: "(u8 list \<times> u8 list) list \<Rightarrow> bool" where
  "sigs_ok sigs \<longleftrightarrow> (\<forall>(ski, sig) \<in> set sigs. length ski = SKI_LENGTH \<and> length sig < 65536)"

lemma block_length: "length (enc_block algo sigs) = 3 + length (concat (map enc_sig sigs))"
  by (simp add: enc_block_def)

lemma read_block_enc:
  assumes "sigs_ok sigs"
  shows "read_block (pre @ enc_block algo sigs @ post) (length sigs) (length pre) = Inr (algo, concat (map fst sigs))"
proof -
  let ?s = "concat (map enc_sig sigs)"
  have b: "pre @ enc_block algo sigs @ post = (pre @ enc16 (3 + length ?s)) @ algo # ?s @ post"
    "pre @ enc_block algo sigs @ post = (pre @ enc16 (3 + length ?s) @ [algo]) @ ?s @ post" by (simp_all add: enc_block_def)
  have "rd8 (pre @ enc_block algo sigs @ post) (length pre + 2) = Inr algo" unfolding b(1) using rd8_at [of "pre @ enc16 (3 + length ?s)"] by simp
  moreover have "read_skis (pre @ enc_block algo sigs @ post) (length pre + 3) (length sigs) = Inr (concat (map fst sigs))"
    unfolding b(2) using read_skis_enc [of sigs "pre @ enc16 (3 + length ?s) @ [algo]" post] assms by (simp add: sigs_ok_def)
  ultimately show ?thesis by (simp add: read_block_def)
qed

lemma rd16_block:
  assumes "length (enc_block algo sigs) < 65536"
  shows "rd16 (pre @ enc_block algo sigs @ post) (length pre) = Inr (of_nat (length (enc_block algo sigs)))"
  using rd16_skip [of pre "enc_block algo sigs @ post" 0] rd16_enc [of "3 + length (concat (map enc_sig sigs))"] assms
  by (simp add: enc_block_def)

lemma parse_one_block:
  assumes "attr_fits flags (enc_body segs (enc_block algo sigs))" "length sigs = length segs" "sigs_ok sigs"
  shows "ski_parseBGPsec_PATH (enc_attr flags ty (enc_body segs (enc_block algo sigs)) @ rest) =
    Inr \<lparr>ui_status = REGVAL_INVALID, nrSegments = of_nat (length segs), nrSigBlocks = 1, ui_asn = map (snd \<circ> snd) segs,
      ui_algoID = [algo, 0], ui_ski = concat (map fst sigs)\<rparr>"
proof -
  let ?blk = "enc_block algo sigs" and ?head = "attr_head flags ty (length (enc_body segs (enc_block algo sigs)))"
  let ?b = "enc_attr flags ty (enc_body segs ?blk) @ rest" and ?p = "length ?head + 2 + 6 * length segs"
  let ?pre = "?head @ enc16 (2 + 6 * length segs) @ concat (map enc_segment segs)"
  have pre: "length ?pre = ?p" "?b = ?pre @ ?blk @ rest" by (simp_all add: length_segments enc_attr_head enc_body_def)
  have len: "length ?blk < 65536" "0 < length ?blk" using assms(1) unfolding attr_fits_def body_length by (simp_all add: block_length split: if_splits)
  then have ne: "(of_nat (length ?blk) :: u16) \<noteq> 0" by (simp add: word_of_nat_eq_0_iff nat_dvd_not_less)
  have "rd16 ?b ?p = Inr (of_nat (length ?blk))" using rd16_block [OF len(1), of ?pre rest] unfolding pre by simp
  then have s: "sig_blocks ?b ?p (of_nat (length ?blk)) = Inr ([?p], 0)" using ne by (simp add: sig_blocks_def)
  have r: "read_blocks ?b (length segs) [?p] = Inr ([algo, 0], concat (map fst sigs))"
    using read_block_enc [OF assms(3), of ?pre algo rest] assms(2) unfolding pre by (simp add: read_blocks_def)
  have ps: "segs \<noteq> [] \<or> ?blk \<noteq> []" using len(2) by auto
  show ?thesis
    using parse_enc [OF assms(1) ps, of ty rest] s r unfolding ski_initializeUpdInfo_def by simp
qed

section \<open>Properties\<close>

text \<open>C31. The parser inverts the encoding. For an attribute with one signature block, whose length fits its length field, with a signature for each
  path segment and key identifiers of 20 bytes, \<open>_ski_parseBGPsec_PATH\<close> succeeds and delivers the AS numbers of the path, the algorithm of the block
  and the key identifiers in order, whatever counts, flags and signatures the attribute has and whatever follows it in memory.\<close>

theorem parse_encoded_path:
  assumes "attr_fits flags (enc_body segs (enc_block algo sigs))" "length sigs = length segs" "sigs_ok sigs"
  shows "ski_parseBGPsec_PATH (enc_attr flags ty (enc_body segs (enc_block algo sigs)) @ rest) =
    Inr \<lparr>ui_status = REGVAL_INVALID, nrSegments = of_nat (length segs), nrSigBlocks = 1, ui_asn = map (snd \<circ> snd) segs,
      ui_algoID = [algo, 0], ui_ski = concat (map fst sigs)\<rparr>"
  using parse_one_block [OF assms] .

definition sample_ski :: "u8 \<Rightarrow> u8 list" where
  "sample_ski x = x # replicate 19 0"

definition sample_attr :: "u8 list" where
  "sample_attr = enc_attr 0x90 33 (enc_body [(1, 0, 65001), (1, 0, 65002)] (enc_block 1 [(sample_ski 7, [1, 2]), (sample_ski 8, [3])]))"

theorem parse_encoded_path_witness:
  "ski_parseBGPsec_PATH sample_attr = Inr \<lparr>ui_status = REGVAL_INVALID, nrSegments = 2, nrSigBlocks = 1, ui_asn = [65001, 65002],
     ui_algoID = [1, 0], ui_ski = sample_ski 7 @ sample_ski 8\<rparr>"
  using parse_encoded_path [of "0x90" "[(1, 0, 65001), (1, 0, 65002)]" 1 "[(sample_ski 7, [1, 2]), (sample_ski 8, [3])]" 33 "[]"]
  by (simp add: attr_fits_def body_length block_length enc_sig_def sigs_ok_def sample_ski_def sample_attr_def)

text \<open>Two signature blocks. The standard allows a second signature block, for a change of the algorithm, and the parser reserves room for two; but
  for every well-formed attribute with two blocks the loop over them does not find its end in the array of the blocks and reads behind it.\<close>

lemma parse_two_blocks_overruns:
  assumes "attr_fits flags (enc_body segs (enc_block algo1 sigs1 @ enc_block algo2 sigs2))"
    "length sigs1 = length segs" "length sigs2 = length segs" "sigs_ok sigs1" "sigs_ok sigs2"
  shows "ski_parseBGPsec_PATH (enc_attr flags ty (enc_body segs (enc_block algo1 sigs1 @ enc_block algo2 sigs2)) @ rest) = Inl OutOfBounds"
proof -
  let ?b1 = "enc_block algo1 sigs1" and ?b2 = "enc_block algo2 sigs2"
  let ?head = "attr_head flags ty (length (enc_body segs (?b1 @ ?b2)))"
  let ?b = "enc_attr flags ty (enc_body segs (?b1 @ ?b2)) @ rest" and ?p = "length ?head + 2 + 6 * length segs"
  let ?pre = "?head @ enc16 (2 + 6 * length segs) @ concat (map enc_segment segs)"
  have pre: "length ?pre = ?p" "?b = ?pre @ ?b1 @ ?b2 @ rest" "?b = (?pre @ ?b1) @ ?b2 @ rest" "length (?pre @ ?b1) = ?p + length ?b1"
    by (simp_all add: length_segments enc_attr_head enc_body_def)
  have len: "length ?b1 + length ?b2 < 65536" "0 < length ?b1" "0 < length ?b2"
    using assms(1) unfolding attr_fits_def body_length by (simp_all add: block_length split: if_splits)
  have small: "unat (of_nat k :: u16) = k" "0 < k \<Longrightarrow> (of_nat k :: u16) \<noteq> 0" if "k < 65536" for k
    using that by (simp_all add: unat_of_nat word_of_nat_eq_0_iff nat_dvd_not_less)
  have ne: "(of_nat (length ?b1 + length ?b2) :: u16) \<noteq> 0" "(of_nat (length ?b2) :: u16) \<noteq> 0" using len by (intro small(2); linarith)+
  have u: "unat (of_nat (length ?b1) :: u16) = length ?b1" using len by (intro small(1)) linarith
  have b1: "length ?b1 < 65536" "length ?b2 < 65536" using len by linarith+
  have "rd16 ?b ?p = Inr (of_nat (length ?b1))" using rd16_block [OF b1(1), of ?pre "?b2 @ rest"] unfolding pre(1) pre(2) [symmetric] .
  moreover have "rd16 ?b (?p + length ?b1) = Inr (of_nat (length ?b2))"
    using rd16_block [OF b1(2), of "?pre @ ?b1" rest] unfolding pre(4) pre(3) [symmetric] .
  ultimately have s: "sig_blocks ?b ?p (of_nat (length (?b1 @ ?b2))) = Inr ([?p, ?p + length ?b1], 0)" using ne u by (simp add: sig_blocks_def)
  have "read_block ?b (length segs) ?p = Inr (algo1, concat (map fst sigs1))"
    using read_block_enc [OF assms(4), of ?pre algo1 "?b2 @ rest"] assms(2) unfolding pre(1) pre(2) [symmetric] by simp
  moreover have "read_block ?b (length segs) (?p + length ?b1) = Inr (algo2, concat (map fst sigs2))"
    using read_block_enc [OF assms(5), of "?pre @ ?b1" algo2 rest] assms(3) unfolding pre(4) pre(3) [symmetric] by simp
  ultimately have r: "read_blocks ?b (length segs) [?p, ?p + length ?b1] = Inl OutOfBounds" by (simp add: read_blocks_def)
  have ps: "segs \<noteq> [] \<or> ?b1 @ ?b2 \<noteq> []" using len(2) by auto
  show ?thesis using parse_enc [OF assms(1) ps, of ty rest] s r by simp
qed

theorem parse_two_blocks_overruns_witness:
  "ski_parseBGPsec_PATH (enc_attr 0x90 33 (enc_body [(1, 0, 65001)] (enc_block 1 [(sample_ski 7, [1])] @ enc_block 2 [(sample_ski 8, [])]))) = Inl OutOfBounds"
  using parse_two_blocks_overruns [of "0x90" "[(1, 0, 65001)]" 1 "[(sample_ski 7, [1])]" 2 "[(sample_ski 8, [])]" 33 "[]"]
  by (simp add: attr_fits_def body_length block_length enc_sig_def sigs_ok_def sample_ski_def)

end
