(* ===== verification/Client_Socket.thy ===== *)
theory Client_Socket
  imports Bgpsec_Path SRx_Defs
begin

text \<open>
  The sockets of \<open>util/socket.c\<close> and \<open>util/client_socket.c\<close>: receiving and sending a number of bytes, opening, closing and
  reconnecting. The network is a value: what \<open>recv\<close> and \<open>send\<close> answer, call by call, and what happens to the attempts to connect. A call
  for which the network has no answer waits, and then the operation has no result.
\<close>

section \<open>Memory\<close>

text \<open>\<open>mem n\<close> is the content of a new memory area of \<open>n\<close> bytes, \<open>None\<close> when there is no memory.\<close>

type_synonym allocator = "nat \<Rightarrow> (nat \<Rightarrow> u8) option"

definition unlimited :: "allocator \<Rightarrow> bool" where
  "unlimited mem \<longleftrightarrow> (\<forall>n. mem n \<noteq> None)"

lemma unlimitedE: "unlimited mem \<Longrightarrow> (\<And>g. mem n = Some g \<Longrightarrow> P) \<Longrightarrow> P"
  by (auto simp: unlimited_def)

text \<open>Fields as they are in memory, not converted from network order.\<close>

definition mem_bytes16 :: "u16 \<Rightarrow> u8 list" where
  "mem_bytes16 w = [ucast w, ucast (drop_bit 8 w)]"

definition raw16 :: "u8 list \<Rightarrow> nat \<Rightarrow> u16 cres" where
  "raw16 b i = cbind (rd16 b i) (\<lambda>x. Inr (ntohs x))"

definition raw32 :: "u8 list \<Rightarrow> nat \<Rightarrow> u32 cres" where
  "raw32 b i = cbind (rd32 b i) (\<lambda>x. Inr (ntohl x))"

section \<open>The network\<close>

text \<open>\<open>RxData []\<close> is the end of the stream: \<open>recv\<close> returns 0. A \<open>send\<close> takes at least one byte, unless it fails; when nothing is said, it
  takes all of them.\<close>

datatype rx = RxData "u8 list" | RxAgain | RxError

datatype tx = TxPart nat | TxAgain | TxError

text \<open>An attempt to connect: the descriptor that \<open>socket\<close> returns, and the answer of \<open>connect\<close>, where \<open>ECONNREFUSED\<close> and \<open>EINVAL\<close> are told
  apart from other errors. A connection comes with what can be received from it.\<close>

datatype con = ConOk "rx list" | ConRefused | ConError

record wire =
  rxq :: "rx list"
  txq :: "tx list"
  txd :: "u8 list"
  attempts :: "(int \<times> con) list"

section \<open>Receiving and sending bytes\<close>

text \<open>Writing to memory at a position relative to the buffer.\<close>

definition store_bytes :: "u8 list \<Rightarrow> int \<Rightarrow> u8 list \<Rightarrow> u8 list cres" where
  "store_bytes buf pos bs =
     (if 0 \<le> pos \<and> nat pos + length bs \<le> length buf then Inr (take (nat pos) buf @ bs @ drop (nat pos + length bs) buf) else Inl BufferOverflow)"

text \<open>The loop of \<open>recvNum\<close>. When \<open>recv\<close> fails with \<open>EAGAIN\<close>, the loop goes on with the result -1: the buffer pointer goes back by one byte, and one more byte
  is to be received.\<close>

fun recv_loop :: "nat \<Rightarrow> int \<Rightarrow> u8 list \<Rightarrow> rx list \<Rightarrow> (bool \<times> u8 list \<times> rx list) cres option" where
  "recv_loop 0 pos buf xs = Some (Inr (True, buf, xs))"
| "recv_loop (Suc n) pos buf [] = None"
| "recv_loop (Suc n) pos buf (RxError # xs) = Some (Inr (False, buf, xs))"
| "recv_loop (Suc n) pos buf (RxAgain # xs) = recv_loop (Suc (Suc n)) (pos - 1) buf xs"
| "recv_loop (Suc n) pos buf (RxData bs # xs) =
     (if bs = [] then Some (Inr (False, buf, xs))
      else case store_bytes buf pos (take (Suc n) bs) of
             Inl e \<Rightarrow> Some (Inl e)
           | Inr buf \<Rightarrow> if Suc n < length bs then Some (Inr (True, buf, RxData (drop (Suc n) bs) # xs))
                      else recv_loop (Suc n - length bs) (pos + int (length bs)) buf xs)"

definition recvNum :: "int \<Rightarrow> wire \<Rightarrow> u8 list \<Rightarrow> nat \<Rightarrow> nat \<Rightarrow> (bool \<times> int \<times> wire \<times> u8 list) cres option" where
  "recvNum fd w buf pos num =
     (if fd = -1 then Some (Inr (False, fd, w, buf))
      else tbind (recv_loop num (int pos) buf (rxq w)) (\<lambda>(ok, buf, xs). Some (Inr (ok, if ok then fd else -1, w\<lparr>rxq := xs\<rparr>, buf))))"

fun send_loop :: "u8 list \<Rightarrow> tx list \<Rightarrow> u8 list \<Rightarrow> bool \<times> tx list \<times> u8 list" where
  "send_loop [] ts out = (True, ts, out)"
| "send_loop (b # bs) [] out = (True, [], out @ b # bs)"
| "send_loop (b # bs) (TxPart k # ts) out = send_loop (drop k bs) ts (out @ b # take k bs)"
| "send_loop (b # bs) (TxAgain # ts) out = send_loop (b # bs) ts out"
| "send_loop (b # bs) (TxError # ts) out = (False, ts, out)"

definition sendNum :: "int \<Rightarrow> wire \<Rightarrow> u8 list \<Rightarrow> bool \<times> int \<times> wire" where
  "sendNum fd w bs =
     (if fd = -1 then (False, fd, w)
      else let (ok, ts, out) = send_loop bs (txq w) (txd w) in (ok, if ok then fd else -1, w\<lparr>txq := ts, txd := out\<rparr>))"

section \<open>Client sockets\<close>

datatype ClientSocketType = UNDEFINED_CLIENT_SOCKET | SRX_PROXY_CLIENT_SOCKET | RPKI_RTR_CLIENT_SOCKET

record ClientSocket =
  cs_type :: ClientSocketType
  oldFD :: int
  clientFD :: int
  reconnect :: bool
  canBeClosed :: bool

definition rx_of :: "con \<Rightarrow> rx list" where
  "rx_of c = (case c of ConOk xs \<Rightarrow> xs | _ \<Rightarrow> [RxError])"

text \<open>\<open>resolved\<close> says whether the name of the host is known.\<close>

definition createClientSocket :: "bool \<Rightarrow> bool \<Rightarrow> ClientSocketType \<Rightarrow> bool \<Rightarrow> ClientSocket \<Rightarrow> wire \<Rightarrow> (bool \<times> ClientSocket \<times> wire) option" where
  "createClientSocket resolved failNoServer ty allowToClose self w =
     (let self = self\<lparr>oldFD := -1, cs_type := UNDEFINED_CLIENT_SOCKET, canBeClosed := True\<rparr>
      in if \<not> resolved then Some (False, self, w)
         else case attempts w of
           [] \<Rightarrow> None
         | (fd, con) # as \<Rightarrow>
             let self = self\<lparr>clientFD := fd\<rparr>
             in if fd < 0 then Some (False, self, w\<lparr>attempts := as\<rparr>)
                else let self = self\<lparr>reconnect := True\<rparr>; ok = (case con of ConOk _ \<Rightarrow> True | _ \<Rightarrow> False); w = w\<lparr>attempts := as, rxq := rx_of con\<rparr>
                     in if \<not> ok \<and> failNoServer then Some (False, self\<lparr>reconnect := False\<rparr>, w)
                        else let self = (if ok then self else self\<lparr>clientFD := -1\<rparr>)
                             in Some (True, self\<lparr>oldFD := clientFD self, cs_type := ty, canBeClosed := allowToClose\<rparr>, w))"

definition stopReconnectingToServer :: "ClientSocket \<Rightarrow> ClientSocket" where
  "stopReconnectingToServer self = self\<lparr>reconnect := False\<rparr>"

definition closeClientSocket :: "ClientSocket \<Rightarrow> ClientSocket" where
  "closeClientSocket self =
     (let fileDescriptor = (if clientFD self > -1 then clientFD self else oldFD self); self = stopReconnectingToServer self
      in if fileDescriptor > -1
         then (if canBeClosed self then self\<lparr>oldFD := -1, clientFD := -1\<rparr> else self\<lparr>clientFD := -1\<rparr>)
         else self)"

text \<open>A socket is made for an attempt unless the one of the attempt before is still open.\<close>

primrec reconnect_loop :: "nat \<Rightarrow> ClientSocket \<Rightarrow> wire \<Rightarrow> (bool \<times> ClientSocket \<times> wire) option" where
  "reconnect_loop 0 self w = Some (False, self, w)"
| "reconnect_loop (Suc k) self w =
     (if \<not> reconnect self then Some (False, self, w)
      else case attempts w of
        [] \<Rightarrow> None
      | (fd, con) # as \<Rightarrow>
          let self = (if clientFD self = -1 then self\<lparr>clientFD := fd, oldFD := fd\<rparr> else self); w = w\<lparr>attempts := as, rxq := rx_of con\<rparr>
          in if clientFD self < 0 then Some (False, self, w)
             else (case con of
               ConOk _ \<Rightarrow> Some (True, self, w)
             | ConRefused \<Rightarrow> reconnect_loop k (self\<lparr>clientFD := -1, oldFD := -1\<rparr>) w
             | ConError \<Rightarrow> reconnect_loop k self w))"

definition reconnectToServer :: "ClientSocket \<Rightarrow> nat \<Rightarrow> wire \<Rightarrow> (bool \<times> ClientSocket \<times> wire) option" where
  "reconnectToServer self max_attempts w = reconnect_loop max_attempts (self\<lparr>clientFD := -1, oldFD := -1\<rparr>) w"

definition isConnectedToServer :: "ClientSocket \<Rightarrow> bool" where
  "isConnectedToServer self \<longleftrightarrow> clientFD self \<noteq> -1"

text \<open>\<open>sendData\<close> writes through a null pointer on purpose when there is at most one byte to send.\<close>

definition sendData :: "ClientSocket \<Rightarrow> wire \<Rightarrow> u8 list \<Rightarrow> (bool \<times> ClientSocket \<times> wire) cres" where
  "sendData self w bs =
     (if length bs \<le> 1 then Inl NullDeref
      else let (ok, fd, w) = sendNum (clientFD self) w bs in Inr (ok, self\<lparr>clientFD := fd\<rparr>, w))"

definition NULL_SIZE :: nat where [simp]: "NULL_SIZE = 1024"

function skip_loop :: "nat \<Rightarrow> int \<Rightarrow> wire \<Rightarrow> (bool \<times> int \<times> wire) cres option" where
  "skip_loop num fd w =
     (if num = 0 then Some (Inr (True, fd, w))
      else tbind (recvNum fd w (replicate NULL_SIZE 0) 0 (min num NULL_SIZE)) (\<lambda>(ok, fd, w, _).
             if ok then skip_loop (num - min num NULL_SIZE) fd w else Some (Inr (False, fd, w))))"
  by pat_completeness auto
termination
  by (relation "measure fst") auto

declare skip_loop.simps [simp del]

definition skipBytes :: "ClientSocket \<Rightarrow> wire \<Rightarrow> nat \<Rightarrow> (bool \<times> ClientSocket \<times> wire) cres option" where
  "skipBytes self w num = tbind (skip_loop num (clientFD self) w) (\<lambda>(ok, fd, w). Some (Inr (ok, self\<lparr>clientFD := fd\<rparr>, w)))"

section \<open>What is received\<close>

text \<open>The chunks a stream arrives in.\<close>

definition chunks :: "rx list \<Rightarrow> bool" where
  "chunks xs \<longleftrightarrow> (\<forall>x \<in> set xs. \<exists>bs. x = RxData bs \<and> bs \<noteq> [])"

definition content :: "rx list \<Rightarrow> u8 list" where
  "content xs = concat (map (\<lambda>x. case x of RxData bs \<Rightarrow> bs | _ \<Rightarrow> []) xs)"

lemma chunks_simps [simp]: "chunks []" "chunks (RxData bs # xs) \<longleftrightarrow> bs \<noteq> [] \<and> chunks xs" "\<not> chunks (RxAgain # xs)" "\<not> chunks (RxError # xs)"
  by (auto simp: chunks_def)

lemma content_simps [simp]: "content [] = []" "content (RxData bs # xs) = bs @ content xs" "content (xs @ ys) = content xs @ content ys"
  by (simp_all add: content_def)

lemma chunks_append [simp]: "chunks (xs @ ys) \<longleftrightarrow> chunks xs \<and> chunks ys"
  by (auto simp: chunks_def)

text \<open>However the stream is cut into chunks, \<open>recvNum\<close> takes the bytes that were asked for.\<close>

lemma recv_loop_chunks:
  assumes "chunks xs" "n \<le> length (content xs)" "pos + n \<le> length buf"
  shows "\<exists>ys. recv_loop n (int pos) buf (xs @ zs) = Some (Inr (True, take pos buf @ take n (content xs) @ drop (pos + n) buf, ys @ zs)) \<and>
    chunks ys \<and> content ys = drop n (content xs)"
  using assms
proof (induction xs arbitrary: n pos buf)
  case Nil
  then show ?case by simp
next
  case (Cons x xs)
  then obtain bs where x: "x = RxData bs" "bs \<noteq> []" "chunks xs" by (cases x) auto
  show ?case
  proof (cases n)
    case 0
    then show ?thesis using Cons.prems by (intro exI [of _ "x # xs"]) simp
  next
    case (Suc m)
    let ?buf = "take pos buf @ take n bs @ drop (pos + length (take n bs)) buf"
    have st: "store_bytes buf (int pos) (take n bs) = Inr ?buf" using Cons.prems(3) by (simp add: store_bytes_def)
    show ?thesis
    proof (cases "n < length bs")
      case True
      then show ?thesis using st Suc x Cons.prems(1) by (intro exI [of _ "RxData (drop n bs) # xs"]) simp
    next
      case False
      then obtain ys where ys: "recv_loop (n - length bs) (int (pos + length bs)) ?buf (xs @ zs) =
          Some (Inr (True, take (pos + length bs) ?buf @ take (n - length bs) (content xs) @ drop (pos + length bs + (n - length bs)) ?buf, ys @ zs))"
        "chunks ys" "content ys = drop (n - length bs) (content xs)"
      proof -
        have "n - length bs \<le> length (content xs)" "pos + length bs + (n - length bs) \<le> length ?buf" using False x Cons.prems(2,3) by simp_all
        then show thesis using Cons.IH [OF x(3)] that by blast
      qed
      have "pos \<le> length buf" using Cons.prems(3) by simp
      then have "take (pos + length bs) ?buf = take pos buf @ bs" "drop (pos + length bs + (n - length bs)) ?buf = drop (pos + n) buf"
        using False Cons.prems(3) by (simp_all add: drop_Cons' add.commute)
      then show ?thesis using ys st False Suc x by (intro exI [of _ ys]) (simp add: add.commute)
    qed
  qed
qed

lemma recvNum_chunks:
  assumes "fd \<noteq> -1" "rxq w = xs @ zs" "chunks xs" "n \<le> length (content xs)" "pos + n \<le> length buf"
  obtains ys where "recvNum fd w buf pos n = Some (Inr (True, fd, w\<lparr>rxq := ys @ zs\<rparr>, take pos buf @ take n (content xs) @ drop (pos + n) buf))"
    "chunks ys" "content ys = drop n (content xs)"
proof -
  obtain ys where "recv_loop n (int pos) buf (xs @ zs) = Some (Inr (True, take pos buf @ take n (content xs) @ drop (pos + n) buf, ys @ zs))"
    "chunks ys" "content ys = drop n (content xs)" using recv_loop_chunks [OF assms(3-5)] by blast
  then show thesis using assms(1,2) that by (simp add: recvNum_def)
qed

text \<open>A stream that ends too early: the bytes that arrived are in the buffer, and the descriptor is gone.\<close>

lemma recv_loop_short:
  assumes "chunks xs" "length (content xs) < n" "pos + n \<le> length buf" "z = RxData [] \<or> z = RxError"
  shows "recv_loop n (int pos) buf (xs @ z # zs) = Some (Inr (False, take pos buf @ content xs @ drop (pos + length (content xs)) buf, zs))"
  using assms(1-3)
proof (induction xs arbitrary: n pos buf)
  case Nil
  then obtain m where "n = Suc m" by (cases n) auto
  then show ?case using assms(4) by auto
next
  case (Cons x xs)
  then obtain bs where x: "x = RxData bs" "bs \<noteq> []" "chunks xs" by (cases x) auto
  then have n: "length bs < n" "length (content xs) < n - length bs" using Cons.prems(2) by auto
  then obtain m where m: "n = Suc m" by (cases n) auto
  let ?buf = "take pos buf @ bs @ drop (pos + length bs) buf"
  have st: "store_bytes buf (int pos) (take n bs) = Inr ?buf" using Cons.prems(3) n(1) by (simp add: store_bytes_def)
  have IH: "recv_loop (n - length bs) (int (pos + length bs)) ?buf (xs @ z # zs) =
      Some (Inr (False, take (pos + length bs) ?buf @ content xs @ drop (pos + length bs + length (content xs)) ?buf, zs))"
    using Cons.prems(3) n by (intro Cons.IH [OF x(3)]) auto
  have "take (pos + length bs) ?buf = take pos buf @ bs" "drop (pos + length bs + length (content xs)) ?buf = drop (pos + length (content (x # xs))) buf"
    using Cons.prems(3) n x by (simp_all add: add.commute add.left_commute)
  then show ?case using IH st n m x by (simp add: add.commute)
qed

lemma recvNum_short:
  assumes "fd \<noteq> -1" "rxq w = xs @ z # zs" "chunks xs" "length (content xs) < n" "pos + n \<le> length buf" "z = RxData [] \<or> z = RxError"
  shows "recvNum fd w buf pos n = Some (Inr (False, -1, w\<lparr>rxq := zs\<rparr>, take pos buf @ content xs @ drop (pos + length (content xs)) buf))"
  using recv_loop_short [OF assms(3-6), of zs] assms(1,2) by (simp add: recvNum_def)

lemma send_loop_ok: "TxError \<notin> set ts \<Longrightarrow> \<exists>ts'. send_loop bs ts out = (True, ts', out @ bs) \<and> set ts' \<subseteq> set ts"
proof (induction bs ts out rule: send_loop.induct)
  case (3 b bs k ts out)
  then obtain ts' where "send_loop (drop k bs) ts (out @ b # take k bs) = (True, ts', (out @ b # take k bs) @ drop k bs)" "set ts' \<subseteq> set ts" by auto
  then show ?case by (intro exI [of _ ts']) auto
qed auto

lemma sendNum_ok:
  assumes "fd \<noteq> -1" "TxError \<notin> set (txq w)"
  obtains ts where "sendNum fd w bs = (True, fd, w\<lparr>txq := ts, txd := txd w @ bs\<rparr>)" "TxError \<notin> set ts"
proof -
  obtain ts where ts: "send_loop bs (txq w) (txd w) = (True, ts, txd w @ bs)" "set ts \<subseteq> set (txq w)" using send_loop_ok [OF assms(2)] by blast
  then have "TxError \<notin> set ts" using assms(2) by blast
  then show thesis using ts(1) assms(1) that by (simp add: sendNum_def)
qed

end
