(* ===== verification/Rpki_Router_Client.thy ===== *)
theory Rpki_Router_Client
  imports Client_Socket Rw_Lock Srx_Identifier
begin

text \<open>
  The client of the RPKI to router protocol, \<open>server/rpki_router_client.c\<close>, with the packets of \<open>shared/rpki_router.h\<close>: it asks the validation cache
  for its data, receives the PDUs, and hands their content to callbacks. The PDU structures are reads at their offsets in the receive buffer. The state of
  the user of the client, which the callbacks change, is a value of any type. The debug callbacks, which print PDUs, are left out.
\<close>

section \<open>Constants\<close>

definition PREFIX_FLAG_ANNOUNCEMENT :: u8 where [simp]: "PREFIX_FLAG_ANNOUNCEMENT = 1"
definition RPKI_RTR_PROTOCOL_VERSION :: u8 where [simp]: "RPKI_RTR_PROTOCOL_VERSION = 2"

definition PDU_TYPE_SERIAL_NOTIFY :: u8 where [simp]: "PDU_TYPE_SERIAL_NOTIFY = 0"
definition PDU_TYPE_SERIAL_QUERY :: u8 where [simp]: "PDU_TYPE_SERIAL_QUERY = 1"
definition PDU_TYPE_RESET_QUERY :: u8 where [simp]: "PDU_TYPE_RESET_QUERY = 2"
definition PDU_TYPE_CACHE_RESPONSE :: u8 where [simp]: "PDU_TYPE_CACHE_RESPONSE = 3"
definition PDU_TYPE_IP_V4_PREFIX :: u8 where [simp]: "PDU_TYPE_IP_V4_PREFIX = 4"
definition PDU_TYPE_IP_V6_PREFIX :: u8 where [simp]: "PDU_TYPE_IP_V6_PREFIX = 6"
definition PDU_TYPE_END_OF_DATA :: u8 where [simp]: "PDU_TYPE_END_OF_DATA = 7"
definition PDU_TYPE_CACHE_RESET :: u8 where [simp]: "PDU_TYPE_CACHE_RESET = 8"
definition PDU_TYPE_ROUTER_KEY :: u8 where [simp]: "PDU_TYPE_ROUTER_KEY = 9"
definition PDU_TYPE_ERROR_REPORT :: u8 where [simp]: "PDU_TYPE_ERROR_REPORT = 10"
definition PDU_TYPE_ASPA :: u8 where [simp]: "PDU_TYPE_ASPA = 11"

text \<open>The error codes of the protocol are not negative, those of the client are.\<close>

definition RPKI_EC_CORRUPT_DATA :: int where [simp]: "RPKI_EC_CORRUPT_DATA = 0"
definition RPKI_EC_INTERNAL_ERROR :: int where [simp]: "RPKI_EC_INTERNAL_ERROR = 1"
definition RPKI_EC_NO_DATA_AVAILABLE :: int where [simp]: "RPKI_EC_NO_DATA_AVAILABLE = 2"
definition RPKI_EC_INVALID_REQUEST :: int where [simp]: "RPKI_EC_INVALID_REQUEST = 3"
definition RPKI_EC_UNSUPPORTED_PROT_VER :: int where [simp]: "RPKI_EC_UNSUPPORTED_PROT_VER = 4"
definition RPKI_EC_UNSUPPORTED_PDU :: int where [simp]: "RPKI_EC_UNSUPPORTED_PDU = 5"
definition RPKI_EC_UNKNOWN_WITHDRAWL :: int where [simp]: "RPKI_EC_UNKNOWN_WITHDRAWL = 6"
definition RPKI_EC_DUPLICATE_ANNOUNCEMENT :: int where [simp]: "RPKI_EC_DUPLICATE_ANNOUNCEMENT = 7"
definition RPKI_EC_UNEXPECTED_PROTOCOL_VERSION :: int where [simp]: "RPKI_EC_UNEXPECTED_PROTOCOL_VERSION = 8"
definition RPKI_EC_RESERVED :: int where [simp]: "RPKI_EC_RESERVED = 255"

definition RRC_RCV_PDU_NO_ERROR :: int where [simp]: "RRC_RCV_PDU_NO_ERROR = -1"
definition RRC_RCV_PDU_SOCKET_ERROR :: int where [simp]: "RRC_RCV_PDU_SOCKET_ERROR = -2"
definition RRC_RCV_PDU_MEMORY_ERROR :: int where [simp]: "RRC_RCV_PDU_MEMORY_ERROR = -3"

definition RRC_MAX_ERRCT :: nat where [simp]: "RRC_MAX_ERRCT = 10"
definition MAX_RECONNECTION_ATTEMPTS :: nat where [simp]: "MAX_RECONNECTION_ATTEMPTS = 10"

text \<open>The size of \<open>RPKIRouterKeyHeader\<close>, with which the receive buffer starts.\<close>

definition ROUTER_KEY_PDU_SIZE :: nat where [simp]: "ROUTER_KEY_PDU_SIZE = 123"

section \<open>The client\<close>

text \<open>A callback may have no result, when it does not return. A callback that is \<open>None\<close> is a null pointer; the prefix and reset callbacks are mandatory and
  checked when the client is created.\<close>

type_synonym 'u callback = "'u \<Rightarrow> 'u cres option"

record 'u RPKIRouterClientParams =
  prefixCallback :: "(u32 \<Rightarrow> u16 \<Rightarrow> bool \<Rightarrow> IPPrefix \<Rightarrow> u16 \<Rightarrow> u32 \<Rightarrow> 'u callback) option"
  routerKeyCallback :: "(u32 \<Rightarrow> u16 \<Rightarrow> bool \<Rightarrow> u32 \<Rightarrow> u8 list \<Rightarrow> u8 list \<Rightarrow> 'u callback) option"
  endOfDataCallback :: "(u32 \<Rightarrow> u16 \<Rightarrow> 'u callback) option"
  resetCallback :: "(u32 \<Rightarrow> 'u callback) option"
  sessionIDChangedCallback :: "(u32 \<Rightarrow> u16 \<Rightarrow> 'u callback) option"
  sessionIDEstablishedCallback :: "(u32 \<Rightarrow> u16 \<Rightarrow> 'u callback) option"
  errorCallback :: "(u16 \<Rightarrow> u8 list \<Rightarrow> 'u \<Rightarrow> (bool \<times> 'u) cres option) option"
  connectionCallback :: "('u \<Rightarrow> (int \<times> 'u) cres option) option"
  cbHandleAspaPdu :: "(u32 \<Rightarrow> u16 \<Rightarrow> u32 list \<Rightarrow> u8 \<Rightarrow> u8 \<Rightarrow> 'u callback) option"
  p_version :: u8
  allowDowngrade :: bool

text \<open>The serial number and the session are kept in network order. The version is a signed byte.\<close>

record RPKIRouterClient =
  routerClientID :: u32
  clSock :: ClientSocket
  rc_stop :: bool
  writeMutex :: Mutex
  serial :: u32
  lastSent :: u8
  lastRecv :: u8
  sessionID :: u32
  sessionIDChanged :: bool
  startup :: bool
  stopAfterEndOfData :: bool
  rc_version :: u8

text \<open>The client with the network it is connected to and the state of its user.\<close>

record 'u rrc =
  rrc_client :: RPKIRouterClient
  wire :: wire
  user :: 'u

abbreviation set_client :: "(RPKIRouterClient \<Rightarrow> RPKIRouterClient) \<Rightarrow> 'u rrc \<Rightarrow> 'u rrc" where
  "set_client f s \<equiv> s\<lparr>rrc_client := f (rrc_client s)\<rparr>"

definition call :: "('c option) \<Rightarrow> ('c \<Rightarrow> 'u callback) \<Rightarrow> 'u rrc \<Rightarrow> 'u rrc cres option" where
  "call cb f s = (case cb of None \<Rightarrow> Some (Inl NullDeref) | Some c \<Rightarrow> tbind (f c (user s)) (\<lambda>u. Some (Inr (s\<lparr>user := u\<rparr>))))"

lemma call_simps [simp]:
  "call None f s = Some (Inl NullDeref)"
  "call (Some c) f s = tbind (f c (user s)) (\<lambda>u. Some (Inr (s\<lparr>user := u\<rparr>)))"
  by (simp_all add: call_def)

section \<open>Sending\<close>

definition sendPDU :: "u8 list \<Rightarrow> u8 \<Rightarrow> 'u rrc \<Rightarrow> bool \<times> 'u rrc" where
  "sendPDU bs ty s =
     (let (ok, fd, w) = sendNum (clientFD (clSock (rrc_client s))) (wire s) bs; c = (rrc_client s)\<lparr>clSock := (clSock (rrc_client s))\<lparr>clientFD := fd\<rparr>\<rparr>
      in (ok, s\<lparr>rrc_client := (if ok then c\<lparr>lastSent := ty\<rparr> else c), wire := w\<rparr>))"

text \<open>All PDUs are sent under the write mutex.\<close>

definition locked_send :: "u8 list \<Rightarrow> u8 \<Rightarrow> 'u rrc \<Rightarrow> (bool \<times> 'u rrc) cres" where
  "locked_send bs ty s = cbind (lockMutex (writeMutex (rrc_client s))) (\<lambda>m.
     let (ok, s) = sendPDU bs ty (set_client (writeMutex_update (\<lambda>_. m)) s)
     in cbind (unlockMutex (writeMutex (rrc_client s))) (\<lambda>m. Inr (ok, set_client (writeMutex_update (\<lambda>_. m)) s)))"

definition sendResetQuery :: "'u rrc \<Rightarrow> (bool \<times> 'u rrc) cres" where
  "sendResetQuery s =
     (if clientFD (clSock (rrc_client s)) = -1 then Inr (False, s)
      else cbind (locked_send ([rc_version (rrc_client s), PDU_TYPE_RESET_QUERY, 0, 0] @ enc32 8) PDU_TYPE_RESET_QUERY s) (\<lambda>(ok, s).
             Inr (ok, if ok then s else set_client (clSock_update (\<lambda>cs. cs\<lparr>clientFD := oldFD cs\<rparr>)) s)))"

definition sendSerialQuery :: "'u rrc \<Rightarrow> (bool \<times> 'u rrc) cres" where
  "sendSerialQuery s =
     (if clientFD (clSock (rrc_client s)) = -1 then Inr (False, s)
      else locked_send ([rc_version (rrc_client s), PDU_TYPE_SERIAL_QUERY] @ mem_bytes16 (ucast (sessionID (rrc_client s))) @ enc32 12 @ mem_bytes32 (serial (rrc_client s)))
             PDU_TYPE_SERIAL_QUERY s)"

text \<open>The erroneous PDU is copied from the receive buffer. The sum of the lengths has 32 bits.\<close>

definition sendErrorReport :: "allocator \<Rightarrow> u16 \<Rightarrow> u8 list \<Rightarrow> u32 \<Rightarrow> u8 list \<Rightarrow> 'u rrc \<Rightarrow> (bool \<times> 'u rrc) cres" where
  "sendErrorReport mem errCode buf lenErronPDU errText s =
     (let totalLen = 12 + lenErronPDU + (4 + of_nat (length errText))
      in if clientFD (clSock (rrc_client s)) = -1 then Inr (False, s)
         else if mem (unat totalLen) = None then Inl NullDeref
         else if unat totalLen < 16 + unat lenErronPDU + length errText then Inl BufferOverflow
         else cbind (rd_bytes buf 0 (unat lenErronPDU)) (\<lambda>pdu.
           locked_send ([rc_version (rrc_client s), PDU_TYPE_ERROR_REPORT] @ enc16 (unat errCode) @ enc32 totalLen @ enc32 lenErronPDU @ pdu @
             enc32 (of_nat (length errText)) @ errText) PDU_TYPE_ERROR_REPORT s))"

section \<open>The PDUs\<close>

definition handleIPv4Prefix :: "'u RPKIRouterClientParams \<Rightarrow> u8 list \<Rightarrow> 'u rrc \<Rightarrow> 'u rrc cres option" where
  "handleIPv4Prefix p buf s =
     tbind (Some (rd_bytes buf 12 4)) (\<lambda>adr. tbind (Some (rd8 buf 9)) (\<lambda>len. tbind (Some (rd8 buf 8)) (\<lambda>flags.
     tbind (Some (rd8 buf 10)) (\<lambda>maxLen. tbind (Some (rd32 buf 16)) (\<lambda>as.
       call (prefixCallback p) (\<lambda>cb. cb (routerClientID (rrc_client s)) (ucast (sessionID (rrc_client s))) (flags AND PREFIX_FLAG_ANNOUNCEMENT \<noteq> 0)
         \<lparr>ip = \<lparr>version = 4, addr = adr\<rparr>, plength = len\<rparr> (ucast maxLen) as) s)))))"

definition handleIPv6Prefix :: "'u RPKIRouterClientParams \<Rightarrow> u8 list \<Rightarrow> 'u rrc \<Rightarrow> 'u rrc cres option" where
  "handleIPv6Prefix p buf s =
     tbind (Some (rd_bytes buf 12 16)) (\<lambda>adr. tbind (Some (rd8 buf 9)) (\<lambda>len. tbind (Some (rd8 buf 8)) (\<lambda>flags.
     tbind (Some (rd8 buf 10)) (\<lambda>maxLen. tbind (Some (rd32 buf 28)) (\<lambda>as.
       call (prefixCallback p) (\<lambda>cb. cb (routerClientID (rrc_client s)) (ucast (sessionID (rrc_client s))) (flags AND PREFIX_FLAG_ANNOUNCEMENT \<noteq> 0)
         \<lparr>ip = \<lparr>version = 6, addr = adr\<rparr>, plength = len\<rparr> (ucast maxLen) as) s)))))"

text \<open>The callback gets pointers to the two arrays of the structure, the key identifier and the key.\<close>

definition handlePDURouterKey :: "'u RPKIRouterClientParams \<Rightarrow> u8 list \<Rightarrow> 'u rrc \<Rightarrow> 'u rrc cres option" where
  "handlePDURouterKey p buf s =
     tbind (Some (rd8 buf 2)) (\<lambda>flags. tbind (Some (rd32 buf 28)) (\<lambda>as.
     tbind (Some (rd_bytes buf 8 SKI_LENGTH)) (\<lambda>ski. tbind (Some (rd_bytes buf 32 91)) (\<lambda>keyInfo.
       call (routerKeyCallback p) (\<lambda>cb. cb (routerClientID (rrc_client s)) (ucast (sessionID (rrc_client s))) (flags AND PREFIX_FLAG_ANNOUNCEMENT \<noteq> 0)
         as ski keyInfo) s))))"

text \<open>The number of providers is not compared with the length of the PDU.\<close>

primrec read_providers :: "u8 list \<Rightarrow> nat \<Rightarrow> nat \<Rightarrow> u32 list cres" where
  "read_providers b pos 0 = Inr []"
| "read_providers b pos (Suc n) = cbind (rd32 b pos) (\<lambda>x. cbind (read_providers b (pos + 4) n) (\<lambda>xs. Inr (x # xs)))"

definition handleReceiveAspaPdu :: "allocator \<Rightarrow> 'u RPKIRouterClientParams \<Rightarrow> u8 list \<Rightarrow> 'u rrc \<Rightarrow> 'u rrc cres option" where
  "handleReceiveAspaPdu mem p buf s =
     tbind (Some (rd32 buf 12)) (\<lambda>customerAsn. tbind (Some (rd16 buf 10)) (\<lambda>providerAsCount. tbind (Some (rd8 buf 8)) (\<lambda>flags.
     tbind (Some (if providerAsCount \<noteq> 0 \<and> mem (4 * unat providerAsCount) = None then Inl NullDeref
                  else read_providers buf 16 (unat providerAsCount))) (\<lambda>providerAsns.
       call (cbHandleAspaPdu p) (\<lambda>cb. cb customerAsn providerAsCount providerAsns (flags AND 2) (flags AND 1)) s))))"

text \<open>The lengths in an error PDU are not checked either.\<close>

definition handleErrorReport :: "'u RPKIRouterClientParams \<Rightarrow> u8 list \<Rightarrow> 'u rrc \<Rightarrow> (bool \<times> 'u rrc) cres option" where
  "handleErrorReport p buf s =
     tbind (Some (rd32 buf 8)) (\<lambda>epduLen. tbind (Some (rd32 buf (12 + unat epduLen))) (\<lambda>msgLen. tbind (Some (rd16 buf 2)) (\<lambda>error_number.
     tbind (Some (if msgLen = -1 then Inl BufferOverflow else rd_bytes buf (16 + unat epduLen) (unat msgLen))) (\<lambda>errorStr.
       case errorCallback p of
         None \<Rightarrow> Some (Inr (uint error_number \<noteq> RPKI_EC_NO_DATA_AVAILABLE, s))
       | Some cb \<Rightarrow> tbind (cb error_number (takeWhile (\<lambda>x. x \<noteq> 0) errorStr) (user s)) (\<lambda>(stay, u). Some (Inr (\<not> stay, s\<lparr>user := u\<rparr>)))))))"

definition rrc_handleEndOfData :: "'u RPKIRouterClientParams \<Rightarrow> 'u rrc \<Rightarrow> 'u rrc cres option" where
  "rrc_handleEndOfData p s = call (endOfDataCallback p) (\<lambda>cb. cb (routerClientID (rrc_client s)) (ucast (sessionID (rrc_client s)))) s"

section \<open>Version and session\<close>

definition checkVersion :: "'u RPKIRouterClientParams \<Rightarrow> u8 \<Rightarrow> RPKIRouterClient \<Rightarrow> bool \<times> RPKIRouterClient" where
  "checkVersion p v c =
     (let c = (if sint (rc_version c) \<noteq> uint v \<and> startup c \<and> sint (rc_version c) > uint v \<and> allowDowngrade p then c\<lparr>rc_version := v\<rparr> else c)
      in (sint (rc_version c) = uint v, c))"

definition checkSessionID :: "u32 \<Rightarrow> RPKIRouterClient \<Rightarrow> bool \<times> RPKIRouterClient" where
  "checkSessionID sid c =
     (let c = (if startup c then c\<lparr>startup := False, sessionID := sid, sessionIDChanged := False\<rparr> else c)
      in if sessionID c = sid then (True, c) else (False, c\<lparr>sessionIDChanged := True\<rparr>))"

text \<open>The version check of \<open>receivePDUs\<close>: whether the PDU is processed, and the error code.\<close>

definition accept_version :: "'u RPKIRouterClientParams \<Rightarrow> u8 \<Rightarrow> u8 \<Rightarrow> int \<Rightarrow> RPKIRouterClient \<Rightarrow> bool \<times> int \<times> RPKIRouterClient" where
  "accept_version p v ty errCode c =
     (let (ok, c) = checkVersion p v c
      in if ok then (True, errCode, c)
         else let e = (if RPKI_RTR_PROTOCOL_VERSION < v \<or> rc_version c = 0 then RPKI_EC_UNSUPPORTED_PROT_VER else RPKI_EC_UNEXPECTED_PROTOCOL_VERSION);
                  clear = startup c \<and> ty \<noteq> PDU_TYPE_ERROR_REPORT;
                  c = (if startup c \<and> allowDowngrade p then c\<lparr>rc_version := v\<rparr> else c)
              in if clear then (True, RRC_RCV_PDU_NO_ERROR, c) else (False, e, c\<lparr>lastRecv := ty\<rparr>))"

section \<open>Receiving PDUs\<close>

text \<open>The rest of a PDU, for which the buffer may have to grow. When it does not arrive, the length of the common header is returned.\<close>

definition grow_buffer :: "allocator \<Rightarrow> nat \<Rightarrow> u8 list \<Rightarrow> u8 list option" where
  "grow_buffer mem n buf = (if length buf < n then map_option (\<lambda>g. buf @ map g [length buf ..< n]) (mem n) else Some buf)"

definition get_body :: "allocator \<Rightarrow> u32 \<Rightarrow> u8 list \<Rightarrow> 'u rrc \<Rightarrow> (u32 \<times> int \<times> u8 list \<times> 'u rrc) cres option" where
  "get_body mem pduLen buf s =
     (let missing = unat pduLen - 8; fd = clientFD (clSock (rrc_client s))
      in case grow_buffer mem (unat pduLen) buf of
           None \<Rightarrow> tbind (skipBytes (clSock (rrc_client s)) (wire s) missing) (\<lambda>(_, cs, w).
                    Some (Inr (pduLen, RPKI_EC_CORRUPT_DATA, buf, s\<lparr>rrc_client := (rrc_client s)\<lparr>clSock := cs\<rparr>, wire := w\<rparr>)))
         | Some buf \<Rightarrow> tbind (recvNum fd (wire s) buf 8 missing) (\<lambda>(ok, fd, w, buf).
             let s = s\<lparr>rrc_client := (rrc_client s)\<lparr>clSock := (clSock (rrc_client s))\<lparr>clientFD := fd\<rparr>\<rparr>, wire := w\<rparr>
             in Some (Inr (if ok then (pduLen, RRC_RCV_PDU_NO_ERROR, buf, s) else (8, RRC_RCV_PDU_SOCKET_ERROR, buf, s)))))"

definition getPacket :: "allocator \<Rightarrow> u8 list \<Rightarrow> 'u rrc \<Rightarrow> (u32 \<times> int \<times> u8 list \<times> 'u rrc) cres option" where
  "getPacket mem buf s =
     tbind (recvNum (clientFD (clSock (rrc_client s))) (wire s) (replicate (length buf) 0) 0 8) (\<lambda>(ok, fd, w, buf).
       let s = s\<lparr>rrc_client := (rrc_client s)\<lparr>clSock := (clSock (rrc_client s))\<lparr>clientFD := fd\<rparr>\<rparr>, wire := w\<rparr>
       in if \<not> ok then Some (Inr (0, RRC_RCV_PDU_SOCKET_ERROR, buf, s))
          else tbind (Some (rd32 buf 4)) (\<lambda>pduLen.
            if unat pduLen < 8 then Some (Inr (pduLen, RPKI_EC_CORRUPT_DATA, buf, s))
            else if pduLen = 8 then Some (Inr (pduLen, RRC_RCV_PDU_NO_ERROR, buf, s))
            else get_body mem pduLen buf s))"

text \<open>The switch of \<open>receivePDUs\<close> on the type of the PDU: whether to go on, and the error code.\<close>

definition on_serial_notify :: "u8 list \<Rightarrow> bool \<Rightarrow> int \<Rightarrow> 'u rrc \<Rightarrow> (bool \<times> int \<times> 'u rrc) cres option" where
  "on_serial_notify buf keep errCode s = tbind (Some (raw16 buf 2)) (\<lambda>sid.
     let (ok, c) = checkSessionID (ucast sid) (rrc_client s); s = s\<lparr>rrc_client := c\<rparr>
     in if ok then tbind (Some (sendSerialQuery s)) (\<lambda>(_, s). Some (Inr (keep, errCode, s)))
        else Some (Inr (False, RPKI_EC_CORRUPT_DATA, s)))"

definition on_cache_response :: "'u RPKIRouterClientParams \<Rightarrow> u8 list \<Rightarrow> bool \<Rightarrow> int \<Rightarrow> 'u rrc \<Rightarrow> (bool \<times> int \<times> 'u rrc) cres option" where
  "on_cache_response p buf keep errCode s = tbind (Some (raw16 buf 2)) (\<lambda>sid.
     let (ok, c) = checkSessionID (ucast sid) (rrc_client s); s = s\<lparr>rrc_client := c\<rparr>
     in if ok then Some (Inr (keep, errCode, s))
        else tbind (call (sessionIDChangedCallback p) (\<lambda>cb. cb (routerClientID c) sid) (set_client (sessionIDChanged_update (\<lambda>_. True)) s)) (\<lambda>s.
               Some (Inr (if lastSent (rrc_client s) \<noteq> PDU_TYPE_CACHE_RESET then (False, RPKI_EC_CORRUPT_DATA, s) else (keep, errCode, s)))))"

definition on_end_of_data :: "'u RPKIRouterClientParams \<Rightarrow> bool \<Rightarrow> u8 list \<Rightarrow> int \<Rightarrow> 'u rrc \<Rightarrow> (bool \<times> int \<times> 'u rrc) cres option" where
  "on_end_of_data p returnAfterEndOfData buf errCode s = tbind (Some (raw16 buf 2)) (\<lambda>sid.
     let (ok, c) = checkSessionID (ucast sid) (rrc_client s); s = s\<lparr>rrc_client := c\<rparr>
     in if ok then tbind (Some (raw32 buf 8)) (\<lambda>sn. tbind (rrc_handleEndOfData p (set_client (serial_update (\<lambda>_. sn)) s)) (\<lambda>s.
                   Some (Inr (\<not> returnAfterEndOfData, errCode, s))))
        else Some (Inr (False, RPKI_EC_CORRUPT_DATA, s)))"

definition handle_pdu :: "allocator \<Rightarrow> 'u RPKIRouterClientParams \<Rightarrow> bool \<Rightarrow> u8 list \<Rightarrow> u8 \<Rightarrow> bool \<Rightarrow> int \<Rightarrow> 'u rrc \<Rightarrow> (bool \<times> int \<times> 'u rrc) cres option" where
  "handle_pdu mem p returnAfterEndOfData buf ty keep errCode s =
     (if ty = PDU_TYPE_SERIAL_NOTIFY then on_serial_notify buf keep errCode s
      else if ty = PDU_TYPE_CACHE_RESPONSE then on_cache_response p buf keep errCode s
      else if ty = PDU_TYPE_IP_V4_PREFIX then tbind (handleIPv4Prefix p buf s) (\<lambda>s. Some (Inr (keep, errCode, s)))
      else if ty = PDU_TYPE_IP_V6_PREFIX then tbind (handleIPv6Prefix p buf s) (\<lambda>s. Some (Inr (keep, errCode, s)))
      else if ty = PDU_TYPE_END_OF_DATA then on_end_of_data p returnAfterEndOfData buf errCode s
      else if ty = PDU_TYPE_ROUTER_KEY
      then (if rc_version (rrc_client s) \<noteq> 0 then tbind (handlePDURouterKey p buf s) (\<lambda>s. Some (Inr (keep, errCode, s)))
            else Some (Inr (False, RPKI_EC_UNSUPPORTED_PDU, s)))
      else if ty = PDU_TYPE_CACHE_RESET
      then tbind (call (resetCallback p) (\<lambda>cb. cb (routerClientID (rrc_client s))) s) (\<lambda>s.
             tbind (Some (sendResetQuery s)) (\<lambda>(_, s). Some (Inr (keep, errCode, s))))
      else if ty = PDU_TYPE_ERROR_REPORT then tbind (handleErrorReport p buf s) (\<lambda>(disconnect, s). Some (Inr (\<not> disconnect, errCode, s)))
      else if ty = PDU_TYPE_ASPA
      then (if sint (rc_version (rrc_client s)) > 1 then tbind (handleReceiveAspaPdu mem p buf s) (\<lambda>s. Some (Inr (keep, errCode, s)))
            else Some (Inr (False, RPKI_EC_UNSUPPORTED_PDU, s)))
      else Some (Inr (False, RPKI_EC_UNSUPPORTED_PDU, s)))"

definition process_received :: "allocator \<Rightarrow> 'u RPKIRouterClientParams \<Rightarrow> bool \<Rightarrow> bool \<Rightarrow> u8 list \<Rightarrow> int \<Rightarrow> 'u rrc \<Rightarrow> (bool \<times> int \<times> 'u rrc) cres option" where
  "process_received mem p returnAfterEndOfData keep buf errCode s =
     tbind (Some (rd8 buf 0)) (\<lambda>v. tbind (Some (rd8 buf 1)) (\<lambda>ty.
       let (ok, errCode, c) = accept_version p v ty errCode (rrc_client s); s = s\<lparr>rrc_client := c\<rparr>
       in if \<not> ok then Some (Inr (False, errCode, s))
          else tbind (handle_pdu mem p returnAfterEndOfData buf ty keep errCode s) (\<lambda>(keep, errCode, s).
                 Some (Inr (keep, errCode, set_client (lastRecv_update (\<lambda>_. ty)) s)))))"

text \<open>The loop. Only a PDU of length 0 ends it: a PDU that did not arrive in full is processed.\<close>

partial_function (option) receive_loop :: "allocator \<Rightarrow> 'u RPKIRouterClientParams \<Rightarrow> bool \<Rightarrow> bool \<Rightarrow> bool \<Rightarrow> int \<Rightarrow> u32 \<Rightarrow> u8 list \<Rightarrow> 'u rrc \<Rightarrow>
    (int \<times> u32 \<times> u8 list \<times> 'u rrc) cres option" where
  "receive_loop mem p returnAfterEndOfData singlePoll keep errCode pduLen buf s =
     (if \<not> keep \<or> rc_stop (rrc_client s) then Some (Inr (errCode, pduLen, buf, s))
      else tbind (getPacket mem buf s) (\<lambda>(pduLen, errCode, buf, s).
        if pduLen = 0 then Some (Inr (errCode, pduLen, buf, s))
        else tbind (process_received mem p returnAfterEndOfData (\<not> singlePoll) buf errCode s) (\<lambda>(keep, errCode, s).
          receive_loop mem p returnAfterEndOfData singlePoll keep errCode pduLen buf s)))"

text \<open>The text of an error report; codes of the client become internal errors.\<close>

definition error_text :: "int \<Rightarrow> int \<times> u8 list" where
  "error_text e =
     (if e = RPKI_EC_CORRUPT_DATA then (e, map (of_nat \<circ> of_char) ''Corrupt Data'')
      else if e = RPKI_EC_NO_DATA_AVAILABLE then (e, map (of_nat \<circ> of_char) ''Internal Error'')
      else if e = RPKI_EC_INVALID_REQUEST then (e, map (of_nat \<circ> of_char) ''invalid Request'')
      else if e = RPKI_EC_UNSUPPORTED_PROT_VER then (e, map (of_nat \<circ> of_char) ''Unsupported Protocol Version'')
      else if e = RPKI_EC_UNSUPPORTED_PDU then (e, map (of_nat \<circ> of_char) ''Unsupported PDU'')
      else if e = RPKI_EC_UNKNOWN_WITHDRAWL then (e, map (of_nat \<circ> of_char) ''Unknown Withdrawal'')
      else if e = RPKI_EC_DUPLICATE_ANNOUNCEMENT then (e, map (of_nat \<circ> of_char) ''Duplicate Announcement'')
      else if e = RPKI_EC_UNEXPECTED_PROTOCOL_VERSION then (e, map (of_nat \<circ> of_char) ''Unexpected Protocol Version'')
      else if e = RPKI_EC_RESERVED then (e, map (of_nat \<circ> of_char) ''Reserved'')
      else (RPKI_EC_INTERNAL_ERROR, map (of_nat \<circ> of_char) ''Internal Error''))"

definition report_error :: "allocator \<Rightarrow> int \<Rightarrow> u32 \<Rightarrow> u8 list \<Rightarrow> 'u rrc \<Rightarrow> (int \<times> 'u rrc) cres" where
  "report_error mem errCode pduLen buf s =
     (if startup (rrc_client s) \<or> errCode = RRC_RCV_PDU_NO_ERROR then Inr (errCode, s)
      else let (errCode, errStr) = error_text errCode
           in cbind (sendErrorReport mem (of_int errCode) buf pduLen errStr s) (\<lambda>(_, s). Inr (errCode, s)))"

definition receivePDUs :: "allocator \<Rightarrow> 'u RPKIRouterClientParams \<Rightarrow> bool \<Rightarrow> bool \<Rightarrow> 'u rrc \<Rightarrow> (bool \<times> int \<times> 'u rrc) cres option" where
  "receivePDUs mem p returnAfterEndOfData singlePoll s =
     tbind (case mem ROUTER_KEY_PDU_SIZE of
              None \<Rightarrow> Some (Inr (RRC_RCV_PDU_MEMORY_ERROR, 0, [], s))
            | Some g \<Rightarrow> receive_loop mem p returnAfterEndOfData singlePoll True RRC_RCV_PDU_NO_ERROR 0 (map g [0 ..< ROUTER_KEY_PDU_SIZE]) s)
       (\<lambda>(errCode, pduLen, buf, s).
         tbind (Some (report_error mem errCode pduLen buf s)) (\<lambda>(errCode, s). Some (Inr (errCode = RRC_RCV_PDU_NO_ERROR, errCode, s))))"

section \<open>The connection\<close>

definition stop_client :: "'u rrc \<Rightarrow> 'u rrc" where
  "stop_client s = set_client (rc_stop_update (\<lambda>_. True)) s"

text \<open>The exchange after a reset query: the answer, and what follows a cache response. What was received last may come from an earlier connection.\<close>

definition exchange :: "allocator \<Rightarrow> 'u RPKIRouterClientParams \<Rightarrow> nat \<Rightarrow> 'u rrc \<Rightarrow> (nat \<times> 'u rrc) cres option" where
  "exchange mem p errCount s =
     tbind (receivePDUs mem p (stopAfterEndOfData (rrc_client s)) True s) (\<lambda>(_, errCode, s).
       if lastRecv (rrc_client s) = PDU_TYPE_CACHE_RESPONSE
       then tbind (receivePDUs mem p (stopAfterEndOfData (rrc_client s)) False s) (\<lambda>(_, _, s).
              Some (Inr (errCount, if stopAfterEndOfData (rrc_client s) then stop_client s else s)))
       else if lastRecv (rrc_client s) = PDU_TYPE_ERROR_REPORT
       then (if errCode = RPKI_EC_UNSUPPORTED_PROT_VER \<or> errCode = RPKI_EC_UNEXPECTED_PROTOCOL_VERSION
             then Some (Inr (errCount, set_client (rc_stop_update (\<lambda>_. \<not> allowDowngrade p)) s))
             else Some (Inr (Suc errCount, if RRC_MAX_ERRCT \<le> Suc errCount then stop_client s else s)))
       else Some (Inr (errCount, stop_client s)))"

text \<open>After a change of the session everything is loaded again.\<close>

definition optional_call :: "('c option) \<Rightarrow> ('c \<Rightarrow> 'u callback) \<Rightarrow> 'u rrc \<Rightarrow> 'u rrc cres option" where
  "optional_call cb f s = (if cb = None then Some (Inr s) else call cb f s)"

definition reload :: "allocator \<Rightarrow> 'u RPKIRouterClientParams \<Rightarrow> 'u rrc \<Rightarrow> 'u rrc cres option" where
  "reload mem p s =
     tbind (optional_call (sessionIDChangedCallback p) (\<lambda>cb. cb (routerClientID (rrc_client s)) (ucast (sessionID (rrc_client s)))) s) (\<lambda>s.
     tbind (Some (sendResetQuery s)) (\<lambda>(ok, s).
     tbind (if ok then tbind (receivePDUs mem p True False s) (\<lambda>(_, _, s). Some (Inr s)) else Some (Inr s)) (\<lambda>s.
       optional_call (sessionIDEstablishedCallback p) (\<lambda>cb. cb (routerClientID (rrc_client s)) (ucast (sessionID (rrc_client s)))) s)))"

definition reestablish :: "allocator \<Rightarrow> 'u RPKIRouterClientParams \<Rightarrow> 'u rrc \<Rightarrow> 'u rrc cres option" where
  "reestablish mem p s =
     (let s = (if sessionIDChanged (rrc_client s) then set_client (startup_update (\<lambda>_. True)) s else s);
          s = set_client (clSock_update (reconnect_update (\<lambda>_. \<not> rc_stop (rrc_client s)))) s
      in case reconnectToServer (clSock (rrc_client s)) MAX_RECONNECTION_ATTEMPTS (wire s) of
           None \<Rightarrow> None
         | Some (_, cs, w) \<Rightarrow>
             let s = s\<lparr>rrc_client := (rrc_client s)\<lparr>clSock := cs\<rparr>, wire := w\<rparr>
             in if sessionIDChanged (rrc_client s) then reload mem p s else Some (Inr s))"

text \<open>The thread. The connection callback says how long to wait before the next attempt, or -1 to give up.\<close>

partial_function (option) manageConnection :: "allocator \<Rightarrow> 'u RPKIRouterClientParams \<Rightarrow> nat \<Rightarrow> 'u rrc \<Rightarrow> 'u rrc cres option" where
  "manageConnection mem p errCount s =
     (if rc_stop (rrc_client s) then Some (Inr s)
      else tbind (Some (sendResetQuery s)) (\<lambda>(ok, s).
        tbind (if ok then exchange mem p errCount s else Some (Inr (errCount, s))) (\<lambda>(errCount, s).
          if rc_stop (rrc_client s) then Some (Inr s)
          else tbind (case connectionCallback p of
                        None \<Rightarrow> Some (Inr (-1, s))
                      | Some cb \<Rightarrow> tbind (cb (user s)) (\<lambda>(sec, u). Some (Inr (sec, s\<lparr>user := u\<rparr>)))) (\<lambda>(sec, s).
            if sec = -1 then Some (Inr (stop_client s))
            else tbind (reestablish mem p s) (\<lambda>s. manageConnection mem p errCount s)))))"

definition createRouterClientID :: u32 where
  "createRouterClientID = 1"

text \<open>The thread is started at the end; \<open>mutex_ok\<close> and \<open>thread_ok\<close> are what the thread library answers. The client goes on without a mutex.\<close>

definition createRPKIRouterClient :: "bool \<Rightarrow> bool \<Rightarrow> bool \<Rightarrow> 'u RPKIRouterClientParams \<Rightarrow> 'u rrc \<Rightarrow> (bool \<times> 'u rrc) option" where
  "createRPKIRouterClient resolved mutex_ok thread_ok p s =
     (if prefixCallback p = None \<or> resetCallback p = None then Some (False, s)
      else case createClientSocket resolved (connectionCallback p = None) RPKI_RTR_CLIENT_SOCKET True (clSock (rrc_client s)) (wire s) of
        None \<Rightarrow> None
      | Some (ok, cs, w) \<Rightarrow>
          let s = s\<lparr>rrc_client := (rrc_client s)\<lparr>clSock := cs\<rparr>, wire := w\<rparr>
          in if \<not> ok then Some (False, s)
             else let (ok, m) = initMutex mutex_ok (writeMutex (rrc_client s));
                      c = (rrc_client s)\<lparr>writeMutex := m, clSock := (if ok then cs else closeClientSocket cs), rc_stop := False, sessionID := 0xFFFF,
                        sessionIDChanged := False, startup := True, routerClientID := createRouterClientID, rc_version := p_version p\<rparr>
                  in Some (thread_ok, s\<lparr>rrc_client := (if thread_ok then c else c\<lparr>writeMutex := releaseMutex m, clSock := closeClientSocket (clSock c)\<rparr>)\<rparr>))"

definition releaseRPKIRouterClient :: "'u rrc \<Rightarrow> 'u rrc" where
  "releaseRPKIRouterClient s = set_client (\<lambda>c. c\<lparr>rc_stop := True, writeMutex := releaseMutex (writeMutex c), clSock := closeClientSocket (clSock c)\<rparr>) s"

end
