(* ===== verification/Rpki_Session.thy ===== *)
theory Rpki_Session
  imports Rpki_Router_Client
begin

text \<open>
  What the client of the RPKI to router protocol does with the stream of a validation cache. The PDUs are encoded as the protocol defines them; however the stream is
  cut into pieces, the callbacks are called with the content of the PDUs in their order. The theory also shows what becomes of connections
  that end early and of a validation cache that starts a new session.
\<close>

section \<open>The data of a validation cache\<close>

datatype rtr_pdu =
    PduIPv4 bool "u8 list" u8 u8 u32
  | PduIPv6 bool "u8 list" u8 u8 u32
  | PduKey bool "u8 list" u32 "u8 list"
  | PduAspa bool bool u32 "u32 list"

fun rtr_type :: "rtr_pdu \<Rightarrow> u8" where
  "rtr_type (PduIPv4 _ _ _ _ _) = PDU_TYPE_IP_V4_PREFIX"
| "rtr_type (PduIPv6 _ _ _ _ _) = PDU_TYPE_IP_V6_PREFIX"
| "rtr_type (PduKey _ _ _ _) = PDU_TYPE_ROUTER_KEY"
| "rtr_type (PduAspa _ _ _ _) = PDU_TYPE_ASPA"

text \<open>The sizes of the fields, and the version of the protocol that introduced the PDU.\<close>

fun pdu_ok :: "u8 \<Rightarrow> rtr_pdu \<Rightarrow> bool" where
  "pdu_ok v (PduIPv4 _ adr _ _ _) \<longleftrightarrow> length adr = 4"
| "pdu_ok v (PduIPv6 _ adr _ _ _) \<longleftrightarrow> length adr = 16"
| "pdu_ok v (PduKey _ ski _ key) \<longleftrightarrow> length ski = 20 \<and> length key = 91 \<and> v \<noteq> 0"
| "pdu_ok v (PduAspa _ _ _ provs) \<longleftrightarrow> length provs < 65536 \<and> v = 2"

definition flag :: "bool \<Rightarrow> u8 \<Rightarrow> u8" where
  "flag b w = (if b then w else 0)"

fun enc_pdu :: "u8 \<Rightarrow> rtr_pdu \<Rightarrow> u8 list" where
  "enc_pdu v (PduIPv4 ann adr len maxLen as) = [v, PDU_TYPE_IP_V4_PREFIX, 0, 0] @ enc32 20 @ [flag ann 1, len, maxLen, 0] @ adr @ enc32 as"
| "enc_pdu v (PduIPv6 ann adr len maxLen as) = [v, PDU_TYPE_IP_V6_PREFIX, 0, 0] @ enc32 32 @ [flag ann 1, len, maxLen, 0] @ adr @ enc32 as"
| "enc_pdu v (PduKey ann ski as key) = [v, PDU_TYPE_ROUTER_KEY, flag ann 1, 0] @ enc32 123 @ ski @ enc32 as @ key"
| "enc_pdu v (PduAspa ann v6 cust provs) = [v, PDU_TYPE_ASPA, 0, 0] @ enc32 (of_nat (16 + 4 * length provs)) @
     [flag ann 1 OR flag v6 2, 0] @ enc16 (length provs) @ enc32 cust @ concat (map enc32 provs)"

definition enc_cache_response :: "u8 \<Rightarrow> u16 \<Rightarrow> u8 list" where
  "enc_cache_response v sid = [v, PDU_TYPE_CACHE_RESPONSE] @ enc16 (unat sid) @ enc32 8"

definition enc_end_of_data :: "u8 \<Rightarrow> u16 \<Rightarrow> u32 \<Rightarrow> u8 list" where
  "enc_end_of_data v sid sn = [v, PDU_TYPE_END_OF_DATA] @ enc16 (unat sid) @ enc32 12 @ enc32 sn"

text \<open>The call that a PDU means for the user of the client.\<close>

definition invoke :: "('c option) \<Rightarrow> ('c \<Rightarrow> 'u callback) \<Rightarrow> 'u callback" where
  "invoke cb f u = (case cb of None \<Rightarrow> Some (Inl NullDeref) | Some c \<Rightarrow> f c u)"

fun deliver :: "'u RPKIRouterClientParams \<Rightarrow> u32 \<Rightarrow> u16 \<Rightarrow> rtr_pdu \<Rightarrow> 'u callback" where
  "deliver p cl sid (PduIPv4 ann adr len maxLen as) =
     invoke (prefixCallback p) (\<lambda>cb. cb cl sid ann \<lparr>ip = \<lparr>version = 4, addr = adr\<rparr>, plength = len\<rparr> (ucast maxLen) as)"
| "deliver p cl sid (PduIPv6 ann adr len maxLen as) =
     invoke (prefixCallback p) (\<lambda>cb. cb cl sid ann \<lparr>ip = \<lparr>version = 6, addr = adr\<rparr>, plength = len\<rparr> (ucast maxLen) as)"
| "deliver p cl sid (PduKey ann ski as key) = invoke (routerKeyCallback p) (\<lambda>cb. cb cl sid ann as ski key)"
| "deliver p cl sid (PduAspa ann v6 cust provs) =
     invoke (cbHandleAspaPdu p) (\<lambda>cb. cb cust (of_nat (length provs)) provs (flag v6 2) (flag ann 1))"

primrec deliver_all :: "'u RPKIRouterClientParams \<Rightarrow> u32 \<Rightarrow> u16 \<Rightarrow> rtr_pdu list \<Rightarrow> 'u callback" where
  "deliver_all p cl sid [] u = Some (Inr u)"
| "deliver_all p cl sid (x # xs) u = tbind (deliver p cl sid x u) (deliver_all p cl sid xs)"

lemma call_invoke: "call cb f s = tbind (invoke cb f (user s)) (\<lambda>u. Some (Inr (s\<lparr>user := u\<rparr>)))"
  by (simp add: call_def invoke_def split: option.splits)

section \<open>Reading the PDUs\<close>

lemma read_providers_enc: "i = length a \<Longrightarrow> read_providers (a @ concat (map enc32 provs) @ b) i (length provs) = Inr provs"
proof (induction provs arbitrary: a i)
  case (Cons x provs)
  have "read_providers ((a @ enc32 x) @ concat (map enc32 provs) @ b) (length a + 4) (length provs) = Inr provs"
    by (rule Cons.IH) simp
  moreover have "rd32 (a @ enc32 x @ concat (map enc32 provs) @ b) i = Inr x" by (rule rd32_at) (rule Cons.prems)
  ultimately show ?case using Cons.prems by simp
qed simp

lemma length_providers: "length (concat (map enc32 provs)) = 4 * length provs"
  by (induction provs) simp_all

lemma length_enc_pdu: "pdu_ok v x \<Longrightarrow> 8 \<le> length (enc_pdu v x) \<and> length (enc_pdu v x) < 2 ^ 32"
  by (cases x) (simp_all add: length_providers)

text \<open>A PDU whose length field is right.\<close>

definition framed :: "u8 list \<Rightarrow> bool" where
  "framed b \<longleftrightarrow> 8 \<le> length b \<and> length b < 2 ^ 32 \<and> rd32 b 4 = Inr (of_nat (length b))"

lemma framed_enc_pdu: "pdu_ok v x \<Longrightarrow> framed (enc_pdu v x)"
proof -
  assume ok: "pdu_ok v x"
  have "rd32 ([a, b, c, d] @ enc32 w @ r) 4 = Inr w" for a b c d w r by (rule rd32_at) simp
  then have "rd32 (enc_pdu v x) 4 = Inr (of_nat (length (enc_pdu v x)))" using ok by (cases x) (simp_all add: length_providers)
  then show ?thesis using length_enc_pdu [OF ok] by (simp add: framed_def)
qed

lemma framed_enc_session: "framed (enc_cache_response v sid)" "framed (enc_end_of_data v sid sn)"
proof -
  have "rd32 ([a, b] @ enc16 c @ enc32 w @ r) 4 = Inr w" for a b c w r using rd32_at [of 4 "[a, b] @ enc16 c" w r] by simp
  from this [of _ _ _ _ "[]"] this
  show "framed (enc_cache_response v sid)" "framed (enc_end_of_data v sid sn)"
    by (simp_all add: framed_def enc_cache_response_def enc_end_of_data_def)
qed

section \<open>Receiving one PDU\<close>

text \<open>A PDU that arrives in full is in the buffer, whatever its pieces were; a larger buffer is allocated when it does not fit.\<close>

lemma getPacket_chunks:
  assumes fd: "clientFD (clSock (rrc_client s)) \<noteq> -1" and rx: "rxq (wire s) = xs @ zs" "chunks xs" "content xs = b @ rest"
    and b: "framed b" and mem: "unlimited mem" and buf: "8 \<le> length buf"
  obtains ys pad where "getPacket mem buf s = Some (Inr (of_nat (length b), RRC_RCV_PDU_NO_ERROR, b @ pad, s\<lparr>wire := (wire s)\<lparr>rxq := ys @ zs\<rparr>\<rparr>))"
    "chunks ys" "content ys = rest" "length buf \<le> length (b @ pad)"
proof -
  let ?fd = "clientFD (clSock (rrc_client s))" and ?buf = "take 8 b @ replicate (length buf - 8) 0"
  have len: "8 \<le> length b" "length b < 2 ^ 32" "rd32 b 4 = Inr (of_nat (length b))" using b by (simp_all add: framed_def)
  obtain ys where ys: "recvNum ?fd (wire s) (replicate (length buf) 0) 0 8 = Some (Inr (True, ?fd, (wire s)\<lparr>rxq := ys @ zs\<rparr>, ?buf))"
    "chunks ys" "content ys = drop 8 b @ rest"
    using recvNum_chunks [OF fd rx(1,2), of 8 0 "replicate (length buf) 0"] rx(3) len(1) buf by auto
  have upd: "s\<lparr>rrc_client := (rrc_client s)\<lparr>clSock := (clSock (rrc_client s))\<lparr>clientFD := ?fd\<rparr>\<rparr>, wire := w\<rparr> = s\<lparr>wire := w\<rparr>" for w by simp
  have hd: "rd32 ?buf 4 = Inr (of_nat (length b))" using len rd32_append [of 4 "take 8 b"] rd32_append [of 4 "take 8 b" "drop 8 b"] by simp
  have un: "unat (of_nat (length b) :: u32) = length b" using len(2) by (simp add: unat_of_nat)
  show thesis
  proof (cases "length b = 8")
    case True
    then show ?thesis using ys hd un buf upd by (intro that [of "replicate (length buf - 8) 0" ys]) (simp_all add: getPacket_def)
  next
    case False
    have ne: "(of_nat (length b) :: u32) \<noteq> 8"
    proof
      assume "(of_nat (length b) :: u32) = 8"
      then have "unat (of_nat (length b) :: u32) = unat (8 :: u32)" by simp
      then show False using un False by simp
    qed
    obtain buf' where buf': "grow_buffer mem (length b) ?buf = Some buf'" "take 8 buf' = take 8 b" "length b \<le> length buf'" "length buf \<le> length buf'"
    proof (cases "length buf < length b")
      case True
      obtain g where "mem (length b) = Some g" using mem by (rule unlimitedE)
      then show thesis using True buf len(1) by (intro that [of "?buf @ map g [length buf ..< length b]"]) (simp_all add: grow_buffer_def)
    next
      case F: False
      then show thesis using buf len(1) by (intro that [of ?buf]) (simp_all add: grow_buffer_def)
    qed
    have tk: "take 8 b @ drop 8 b @ r = b @ r" for r by (metis append_assoc append_take_drop_id)
    have lens: "length b - 8 \<le> length (content ys)" "8 + (length b - 8) = length b" "8 + (length b - 8) \<le> length buf'" using ys(3) len(1) buf'(3) by simp_all
    obtain ys2 where ys2: "recvNum ?fd ((wire s)\<lparr>rxq := ys @ zs\<rparr>) buf' 8 (length b - 8) =
        Some (Inr (True, ?fd, (wire s)\<lparr>rxq := ys2 @ zs\<rparr>, b @ drop (length b) buf'))" "chunks ys2" "content ys2 = rest"
    proof (rule recvNum_chunks [OF fd _ ys(2) lens(1,3), of "(wire s)\<lparr>rxq := ys @ zs\<rparr>" zs])
      fix us assume "recvNum ?fd ((wire s)\<lparr>rxq := ys @ zs\<rparr>) buf' 8 (length b - 8) = Some (Inr (True, ?fd, (wire s)\<lparr>rxq := ys @ zs\<rparr>\<lparr>rxq := us @ zs\<rparr>,
          take 8 buf' @ take (length b - 8) (content ys) @ drop (8 + (length b - 8)) buf'))" "chunks us" "content us = drop (length b - 8) (content ys)"
      then show thesis using that [of us] buf'(2) ys(3) lens(2) tk by simp
    qed simp
    have "get_body mem (of_nat (length b)) ?buf (s\<lparr>wire := (wire s)\<lparr>rxq := ys @ zs\<rparr>\<rparr>) =
        Some (Inr (of_nat (length b), RRC_RCV_PDU_NO_ERROR, b @ drop (length b) buf', s\<lparr>wire := (wire s)\<lparr>rxq := ys2 @ zs\<rparr>\<rparr>))"
      using ys2(1) buf'(1) len(1) buf by (simp add: get_body_def Let_def un)
    then have "getPacket mem buf s = Some (Inr (of_nat (length b), RRC_RCV_PDU_NO_ERROR, b @ drop (length b) buf', s\<lparr>wire := (wire s)\<lparr>rxq := ys2 @ zs\<rparr>\<rparr>))"
      using ys(1) hd ne un len(1) upd by (simp add: getPacket_def)
    then show ?thesis using ys2(2,3) buf'(3,4) by (intro that [of "drop (length b) buf'" ys2]) auto
  qed
qed

section \<open>Handling one PDU\<close>

lemma flag_bits [simp]:
  "flag b 1 AND 1 = 0 \<longleftrightarrow> \<not> b" "(flag b 1 OR flag c 2) AND 2 = flag c 2" "(flag b 1 OR flag c 2) AND 1 = flag b 1"
  by (auto simp: flag_def)

lemma handleIPv4Prefix_enc:
  assumes "length adr = 4"
  shows "handleIPv4Prefix p (enc_pdu v (PduIPv4 ann adr len maxLen as) @ pad) s =
    tbind (deliver p (routerClientID (rrc_client s)) (ucast (sessionID (rrc_client s))) (PduIPv4 ann adr len maxLen as) (user s)) (\<lambda>u. Some (Inr (s\<lparr>user := u\<rparr>)))"
proof -
  let ?h = "[v, PDU_TYPE_IP_V4_PREFIX, 0, 0] @ enc32 20 @ [flag ann 1, len, maxLen, 0]"
  have "rd_bytes (?h @ adr @ enc32 as @ pad) 12 4 = Inr adr" "rd32 ((?h @ adr) @ enc32 as @ pad) 16 = Inr as"
    using assms by (intro rd_bytes_at rd32_at; simp)+
  moreover have "rd8 (?h @ r) 8 = Inr (flag ann 1)" "rd8 (?h @ r) 9 = Inr len" "rd8 (?h @ r) 10 = Inr maxLen" for r
    by (simp_all add: rd8_nth nth_append)
  ultimately show ?thesis by (simp add: handleIPv4Prefix_def call_invoke)
qed

lemma handleIPv6Prefix_enc:
  assumes "length adr = 16"
  shows "handleIPv6Prefix p (enc_pdu v (PduIPv6 ann adr len maxLen as) @ pad) s =
    tbind (deliver p (routerClientID (rrc_client s)) (ucast (sessionID (rrc_client s))) (PduIPv6 ann adr len maxLen as) (user s)) (\<lambda>u. Some (Inr (s\<lparr>user := u\<rparr>)))"
proof -
  let ?h = "[v, PDU_TYPE_IP_V6_PREFIX, 0, 0] @ enc32 32 @ [flag ann 1, len, maxLen, 0]"
  have "rd_bytes (?h @ adr @ enc32 as @ pad) 12 16 = Inr adr" "rd32 ((?h @ adr) @ enc32 as @ pad) 28 = Inr as"
    using assms by (intro rd_bytes_at rd32_at; simp)+
  moreover have "rd8 (?h @ r) 8 = Inr (flag ann 1)" "rd8 (?h @ r) 9 = Inr len" "rd8 (?h @ r) 10 = Inr maxLen" for r
    by (simp_all add: rd8_nth nth_append)
  ultimately show ?thesis by (simp add: handleIPv6Prefix_def call_invoke)
qed

lemma handlePDURouterKey_enc:
  assumes "length ski = 20" "length key = 91"
  shows "handlePDURouterKey p (enc_pdu v (PduKey ann ski as key) @ pad) s =
    tbind (deliver p (routerClientID (rrc_client s)) (ucast (sessionID (rrc_client s))) (PduKey ann ski as key) (user s)) (\<lambda>u. Some (Inr (s\<lparr>user := u\<rparr>)))"
proof -
  let ?h = "[v, PDU_TYPE_ROUTER_KEY, flag ann 1, 0] @ enc32 123"
  have "rd_bytes (?h @ ski @ enc32 as @ key @ pad) 8 20 = Inr ski" "rd32 ((?h @ ski) @ enc32 as @ key @ pad) 28 = Inr as"
    "rd_bytes ((?h @ ski @ enc32 as) @ key @ pad) 32 91 = Inr key"
    using assms by (intro rd_bytes_at rd32_at; simp)+
  moreover have "rd8 (?h @ r) 2 = Inr (flag ann 1)" for r by (simp add: rd8_nth nth_append)
  ultimately show ?thesis by (simp add: handlePDURouterKey_def call_invoke)
qed

lemma handleReceiveAspaPdu_enc:
  assumes "length provs < 65536" "unlimited mem"
  shows "handleReceiveAspaPdu mem p (enc_pdu v (PduAspa ann v6 cust provs) @ pad) s =
    tbind (deliver p (routerClientID (rrc_client s)) (ucast (sessionID (rrc_client s))) (PduAspa ann v6 cust provs) (user s)) (\<lambda>u. Some (Inr (s\<lparr>user := u\<rparr>)))"
proof -
  let ?n = "of_nat (length provs) :: u16"
  let ?h = "[v, PDU_TYPE_ASPA, 0, 0] @ enc32 (of_nat (16 + 4 * length provs)) @ [flag ann 1 OR flag v6 2, 0]"
  let ?p = "concat (map enc32 provs)"
  have n: "unat ?n = length provs" using assms(1) by (simp add: unat_of_nat)
  have "rd16 (?h @ enc16 (length provs) @ enc32 cust @ ?p @ pad) 10 = Inr ?n" "rd32 ((?h @ enc16 (length provs)) @ enc32 cust @ ?p @ pad) 12 = Inr cust"
    using assms(1) by (intro rd16_at rd32_at; simp)+
  moreover have "read_providers ((?h @ enc16 (length provs) @ enc32 cust) @ ?p @ pad) 16 (length provs) = Inr provs" by (rule read_providers_enc) simp
  moreover have "rd8 (?h @ r) 8 = Inr (flag ann 1 OR flag v6 2)" for r by (simp add: rd8_nth nth_append)
  moreover obtain g where "mem (4 * length provs) = Some g" using assms(2) by (rule unlimitedE)
  ultimately show ?thesis using n by (simp add: handleReceiveAspaPdu_def call_invoke)
qed

lemma version_signed: "v \<le> 2 \<Longrightarrow> sint (v :: u8) = uint v"
proof -
  assume "v \<le> 2"
  then have "0 \<le> uint v" "uint v < 128" by (simp_all add: word_le_def)
  then have "- 128 \<le> uint v" "uint v < 128" by linarith+
  then show ?thesis by (simp add: sint_uint signed_take_bit_int_eq_self_iff)
qed

lemma accept_same_version: "v \<le> 2 \<Longrightarrow> rc_version c = v \<Longrightarrow> accept_version p v ty e c = (True, e, c)"
  by (simp add: accept_version_def checkVersion_def version_signed Let_def)

lemma process_data:
  assumes "pdu_ok v x" "v \<le> 2" "rc_version (rrc_client s) = v" "unlimited mem"
  shows "process_received mem p ret keep (enc_pdu v x @ pad) e s =
    tbind (deliver p (routerClientID (rrc_client s)) (ucast (sessionID (rrc_client s))) x (user s))
      (\<lambda>u. Some (Inr (keep, e, s\<lparr>user := u, rrc_client := (rrc_client s)\<lparr>lastRecv := rtr_type x\<rparr>\<rparr>)))"
proof -
  have rd: "rd8 (enc_pdu v x @ pad) 0 = Inr v" "rd8 (enc_pdu v x @ pad) 1 = Inr (rtr_type x)" by (cases x; simp add: rd8_nth)+
  have v: "v = 2 \<Longrightarrow> sint v > 1" by simp
  have "handle_pdu mem p ret (enc_pdu v x @ pad) (rtr_type x) keep e s =
    tbind (deliver p (routerClientID (rrc_client s)) (ucast (sessionID (rrc_client s))) x (user s)) (\<lambda>u. Some (Inr (keep, e, s\<lparr>user := u\<rparr>)))"
    using assms(1,3,4)
    by (cases x) (simp_all add: handle_pdu_def handleIPv4Prefix_enc handleIPv6Prefix_enc handlePDURouterKey_enc handleReceiveAspaPdu_enc tbind_assoc del: enc_pdu.simps)
  then show ?thesis using rd by (simp add: process_received_def tbind_assoc accept_same_version [OF assms(2,3)])
qed

section \<open>Receiving a stream\<close>

lemma receive_stop [simp]: "receive_loop mem p ret single False e l buf s = Some (Inr (e, l, buf, s))"
  by (simp add: receive_loop.simps)

lemma of_nat_framed: "framed b \<Longrightarrow> (of_nat (length b) :: u32) \<noteq> 0"
proof
  assume "framed b" "(of_nat (length b) :: u32) = 0"
  then have "unat (of_nat (length b) :: u32) = 0" "length b < 2 ^ 32" "length b \<noteq> 0" by (auto simp: framed_def)
  then show False by (simp add: unat_of_nat)
qed

lemma getPacket_user: "getPacket mem buf (s\<lparr>user := u\<rparr>) = tbind (getPacket mem buf s) (\<lambda>(l, e, b, s). Some (Inr (l, e, b, s\<lparr>user := u\<rparr>)))"
proof -
  have "get_body mem l b (s\<lparr>user := u\<rparr>) = tbind (get_body mem l b s) (\<lambda>(l, e, b, s). Some (Inr (l, e, b, s\<lparr>user := u\<rparr>)))" for l b and s :: "'a rrc"
    by (auto simp: get_body_def Let_def tbind_def split: option.splits sum.splits)
  moreover have "s\<lparr>user := u, rrc_client := c, wire := w\<rparr> = s\<lparr>rrc_client := c, wire := w, user := u\<rparr>" for c w by simp
  ultimately have body: "get_body mem l b (s\<lparr>user := u, rrc_client := c, wire := w\<rparr>) =
      tbind (get_body mem l b (s\<lparr>rrc_client := c, wire := w\<rparr>)) (\<lambda>(l, e, b, s). Some (Inr (l, e, b, s\<lparr>user := u\<rparr>)))" for l b c w by metis
  show ?thesis
    by (auto simp: getPacket_def Let_def tbind_assoc body tbind_def split: option.splits sum.splits)
qed

text \<open>One round of the loop on a complete PDU. What the user of the client holds does not matter for what is received.\<close>

lemma receive_framed:
  assumes "clientFD (clSock (rrc_client s)) \<noteq> -1" "\<not> rc_stop (rrc_client s)" "rxq (wire s) = xs @ zs" "chunks xs" "content xs = b @ rest" "framed b"
    "unlimited mem" "8 \<le> length buf"
  obtains ys pad where "\<And>u e l. receive_loop mem p ret single True e l buf (s\<lparr>user := u\<rparr>) =
      tbind (process_received mem p ret (\<not> single) (b @ pad) RRC_RCV_PDU_NO_ERROR (s\<lparr>wire := (wire s)\<lparr>rxq := ys @ zs\<rparr>, user := u\<rparr>)) (\<lambda>(keep, e, s).
        receive_loop mem p ret single keep e (of_nat (length b)) (b @ pad) s)"
    "chunks ys" "content ys = rest" "length buf \<le> length (b @ pad)"
proof -
  obtain ys pad where g: "getPacket mem buf s = Some (Inr (of_nat (length b), RRC_RCV_PDU_NO_ERROR, b @ pad, s\<lparr>wire := (wire s)\<lparr>rxq := ys @ zs\<rparr>\<rparr>))"
    "chunks ys" "content ys = rest" "length buf \<le> length (b @ pad)"
    by (rule getPacket_chunks [OF assms(1,3-8)])
  have "receive_loop mem p ret single True e l buf (s\<lparr>user := u\<rparr>) =
      tbind (process_received mem p ret (\<not> single) (b @ pad) RRC_RCV_PDU_NO_ERROR (s\<lparr>wire := (wire s)\<lparr>rxq := ys @ zs\<rparr>, user := u\<rparr>)) (\<lambda>(keep, e, s).
        receive_loop mem p ret single keep e (of_nat (length b)) (b @ pad) s)" for u e l
    using assms(2) of_nat_framed [OF assms(6)] by (subst receive_loop.simps) (simp add: getPacket_user g(1))
  then show thesis using g(2-4) by (rule that)
qed

text \<open>The state after a number of data PDUs: the rest of the stream, and the type of the last one.\<close>

definition after_data :: "rtr_pdu list \<Rightarrow> rx list \<Rightarrow> 'u \<Rightarrow> 'u rrc \<Rightarrow> 'u rrc" where
  "after_data pdus rest u s = s\<lparr>rrc_client := (rrc_client s)\<lparr>lastRecv := (if pdus = [] then lastRecv (rrc_client s) else rtr_type (last pdus))\<rparr>,
     wire := (wire s)\<lparr>rxq := rest\<rparr>, user := u\<rparr>"

lemma receive_data:
  assumes "\<forall>x \<in> set pdus. pdu_ok v x" "v \<le> 2" "unlimited mem"
    and "clientFD (clSock (rrc_client s)) \<noteq> -1" "\<not> rc_stop (rrc_client s)" "rc_version (rrc_client s) = v"
    and "rxq (wire s) = xs @ zs" "chunks xs" "content xs = concat (map (enc_pdu v) pdus) @ rest" "8 \<le> length buf"
  shows "\<exists>ys l' buf'. chunks ys \<and> content ys = rest \<and> 8 \<le> length buf' \<and>
    (\<forall>u. receive_loop mem p ret False True RRC_RCV_PDU_NO_ERROR l buf (s\<lparr>user := u\<rparr>) =
      tbind (deliver_all p (routerClientID (rrc_client s)) (ucast (sessionID (rrc_client s))) pdus u) (\<lambda>u.
        receive_loop mem p ret False True RRC_RCV_PDU_NO_ERROR l' buf' (after_data pdus (ys @ zs) u s)))"
  using assms(1,4-)
proof (induction pdus arbitrary: s xs l buf)
  case Nil
  then have "after_data [] (xs @ zs) u s = s\<lparr>user := u\<rparr>" for u by (simp add: after_data_def)
  then show ?case using Nil by (intro exI [of _ xs] exI [of _ l] exI [of _ buf]) simp
next
  case (Cons x pdus)
  let ?b = "enc_pdu v x"
  have x: "pdu_ok v x" "content xs = ?b @ (concat (map (enc_pdu v) pdus) @ rest)" using Cons.prems by simp_all
  obtain ys pad where ys: "\<And>u e l. receive_loop mem p ret False True e l buf (s\<lparr>user := u\<rparr>) =
      tbind (process_received mem p ret (\<not> False) (?b @ pad) RRC_RCV_PDU_NO_ERROR (s\<lparr>wire := (wire s)\<lparr>rxq := ys @ zs\<rparr>, user := u\<rparr>)) (\<lambda>(keep, e, s).
        receive_loop mem p ret False keep e (of_nat (length ?b)) (?b @ pad) s)"
    "chunks ys" "content ys = concat (map (enc_pdu v) pdus) @ rest" "length buf \<le> length (?b @ pad)"
    by (rule receive_framed [where p = p and ret = ret and single = False, OF Cons.prems(2,3,5,6) x(2) framed_enc_pdu [OF x(1)] assms(3) Cons.prems(8)]) (rule that)
  define s' where "s' = s\<lparr>wire := (wire s)\<lparr>rxq := ys @ zs\<rparr>, rrc_client := (rrc_client s)\<lparr>lastRecv := rtr_type x\<rparr>\<rparr>"
  have s': "rxq (wire s') = ys @ zs" "rrc_client s' = (rrc_client s)\<lparr>lastRecv := rtr_type x\<rparr>" by (simp_all add: s'_def)
  have eq: "after_data pdus r w s' = after_data (x # pdus) r w s" for r w by (simp add: after_data_def s'_def)
  obtain us l' buf' where us: "chunks us" "content us = rest" "8 \<le> length buf'"
      "\<And>u. receive_loop mem p ret False True RRC_RCV_PDU_NO_ERROR (of_nat (length ?b)) (?b @ pad) (s'\<lparr>user := u\<rparr>) =
        tbind (deliver_all p (routerClientID (rrc_client s)) (ucast (sessionID (rrc_client s))) pdus u) (\<lambda>u.
          receive_loop mem p ret False True RRC_RCV_PDU_NO_ERROR l' buf' (after_data (x # pdus) (us @ zs) u s))"
    using Cons.IH [of s' ys "?b @ pad" "of_nat (length ?b)"] Cons.prems(1-4,8) ys(2-4) by (auto simp: eq s')
  have "receive_loop mem p ret False True RRC_RCV_PDU_NO_ERROR l buf (s\<lparr>user := u\<rparr>) =
      tbind (deliver_all p (routerClientID (rrc_client s)) (ucast (sessionID (rrc_client s))) (x # pdus) u) (\<lambda>u.
        receive_loop mem p ret False True RRC_RCV_PDU_NO_ERROR l' buf' (after_data (x # pdus) (us @ zs) u s))" for u
  proof -
    let ?s = "s\<lparr>wire := (wire s)\<lparr>rxq := ys @ zs\<rparr>, user := u\<rparr>"
    have "process_received mem p ret True (?b @ pad) RRC_RCV_PDU_NO_ERROR ?s =
        tbind (deliver p (routerClientID (rrc_client ?s)) (ucast (sessionID (rrc_client ?s))) x (user ?s))
          (\<lambda>u. Some (Inr (True, RRC_RCV_PDU_NO_ERROR, ?s\<lparr>user := u, rrc_client := (rrc_client ?s)\<lparr>lastRecv := rtr_type x\<rparr>\<rparr>)))"
      using Cons.prems(4) by (intro process_data [OF x(1) assms(2) _ assms(3)]) simp
    moreover have "?s\<lparr>user := w, rrc_client := (rrc_client ?s)\<lparr>lastRecv := rtr_type x\<rparr>\<rparr> = s'\<lparr>user := w\<rparr>" for w by (simp add: s'_def)
    ultimately show ?thesis using us(4) by (simp add: ys(1) tbind_assoc)
  qed
  then show ?case using us(1-3) by blast
qed

section \<open>Sessions\<close>

lemma checkSessionID_ok:
  assumes "fst (checkSessionID sid c)"
  shows "snd (checkSessionID sid c) = c\<lparr>startup := False, sessionID := sid, sessionIDChanged := (if startup c then False else sessionIDChanged c)\<rparr>"
  using assms by (auto simp: checkSessionID_def Let_def)

lemma raw16_enc: "raw16 ([a, b] @ enc16 (unat sid) @ r) 2 = Inr (ntohs sid)"
proof -
  have "unat sid < 65536" using unsigned_less [of sid] by simp
  then have "rd16 ([a, b] @ enc16 (unat sid) @ r) 2 = Inr (of_nat (unat sid))" by (intro rd16_at) simp_all
  then show ?thesis by (simp add: raw16_def)
qed

text \<open>The session identifier is kept in network order.\<close>

definition session_of :: "u16 \<Rightarrow> u32" where
  "session_of sid = ucast (ntohs sid)"

lemma ucast_session [simp]: "ucast (session_of sid) = ntohs sid"
  unfolding session_of_def by (rule bit_word_eqI) (simp add: bit_simps)

lemma process_response:
  assumes "v \<le> 2" "rc_version (rrc_client s) = v" "fst (checkSessionID (session_of sid) (rrc_client s))"
  shows "process_received mem p ret keep (enc_cache_response v sid @ pad) e s =
    Some (Inr (keep, e, s\<lparr>rrc_client := (snd (checkSessionID (session_of sid) (rrc_client s)))\<lparr>lastRecv := PDU_TYPE_CACHE_RESPONSE\<rparr>\<rparr>))"
proof -
  let ?b = "enc_cache_response v sid @ pad"
  have "rd8 ?b 0 = Inr v" "rd8 ?b 1 = Inr PDU_TYPE_CACHE_RESPONSE" by (simp_all add: enc_cache_response_def rd8_nth)
  moreover have "raw16 ?b 2 = Inr (ntohs sid)" using raw16_enc [of v PDU_TYPE_CACHE_RESPONSE sid "enc32 8 @ pad"] by (simp add: enc_cache_response_def)
  then have "on_cache_response p ?b keep e s = Some (Inr (keep, e, s\<lparr>rrc_client := snd (checkSessionID (session_of sid) (rrc_client s))\<rparr>))"
    using assms(3) by (auto simp: on_cache_response_def Let_def session_of_def split: prod.splits)
  ultimately show ?thesis by (simp add: process_received_def accept_same_version [OF assms(1,2)] handle_pdu_def)
qed

lemma process_end_of_data:
  assumes "v \<le> 2" "rc_version (rrc_client s) = v" "startup (rrc_client s) = False" "sessionID (rrc_client s) = session_of sid"
  shows "process_received mem p ret keep (enc_end_of_data v sid sn @ pad) e s =
    tbind (invoke (endOfDataCallback p) (\<lambda>cb. cb (routerClientID (rrc_client s)) (ntohs sid)) (user s)) (\<lambda>u.
      Some (Inr (\<not> ret, e, s\<lparr>user := u, rrc_client := (rrc_client s)\<lparr>serial := ntohl sn, lastRecv := PDU_TYPE_END_OF_DATA\<rparr>\<rparr>)))"
proof -
  let ?b = "enc_end_of_data v sid sn @ pad"
  have rd: "rd8 ?b 0 = Inr v" "rd8 ?b 1 = Inr PDU_TYPE_END_OF_DATA" by (simp_all add: enc_end_of_data_def rd8_nth)
  have sid: "raw16 ?b 2 = Inr (ntohs sid)"
    using raw16_enc [of v PDU_TYPE_END_OF_DATA sid "enc32 12 @ enc32 sn @ pad"] by (simp add: enc_end_of_data_def)
  have "rd32 (([v, PDU_TYPE_END_OF_DATA] @ enc16 (unat sid) @ enc32 12) @ enc32 sn @ pad) 8 = Inr sn" by (rule rd32_at) simp
  then have sn: "raw32 ?b 8 = Inr (ntohl sn)" by (simp add: raw32_def enc_end_of_data_def)
  have ck: "checkSessionID (ucast (ntohs sid)) (rrc_client s) = (True, rrc_client s)" using assms(3,4) by (simp add: checkSessionID_def session_of_def)
  have cl: "s\<lparr>rrc_client := rrc_client s\<rparr> = s" by simp
  have "ucast (sessionID (rrc_client s)) = ntohs sid" using assms(4) by simp
  then have "on_end_of_data p ret ?b e s =
      tbind (invoke (endOfDataCallback p) (\<lambda>cb. cb (routerClientID (rrc_client s)) (ntohs sid)) (user s)) (\<lambda>u.
        Some (Inr (\<not> ret, e, s\<lparr>rrc_client := (rrc_client s)\<lparr>serial := ntohl sn\<rparr>, user := u\<rparr>)))"
    using sid sn by (simp add: on_end_of_data_def Let_def ck rrc_handleEndOfData_def call_invoke tbind_assoc)
  then show ?thesis using rd by (simp add: process_received_def accept_same_version [OF assms(1,2)] handle_pdu_def tbind_assoc)
qed

lemma receive_closed:
  assumes "clientFD (clSock (rrc_client s)) \<noteq> -1" "\<not> rc_stop (rrc_client s)" "rxq (wire s) = z # zs" "z = RxData [] \<or> z = RxError"
  shows "receive_loop mem p ret single True e l buf s = Some (Inr (RRC_RCV_PDU_SOCKET_ERROR, 0, replicate (length buf) 0,
    s\<lparr>rrc_client := (rrc_client s)\<lparr>clSock := (clSock (rrc_client s))\<lparr>clientFD := -1\<rparr>\<rparr>, wire := (wire s)\<lparr>rxq := zs\<rparr>\<rparr>))"
proof -
  have "recv_loop 8 0 b (z # zs) = Some (Inr (False, b, zs))" for b using assms(4) by (auto simp: numeral_eq_Suc)
  then have "getPacket mem buf s = Some (Inr (0, RRC_RCV_PDU_SOCKET_ERROR, replicate (length buf) 0,
      s\<lparr>rrc_client := (rrc_client s)\<lparr>clSock := (clSock (rrc_client s))\<lparr>clientFD := -1\<rparr>\<rparr>, wire := (wire s)\<lparr>rxq := zs\<rparr>\<rparr>))"
    using assms(1,3) by (simp add: getPacket_def recvNum_def)
  then show ?thesis using assms(2) by (subst receive_loop.simps) simp
qed

text \<open>A connection after the cache response: data, the end of data, and the end of the connection.\<close>

definition after_session :: "u32 \<Rightarrow> rx list \<Rightarrow> 'u \<Rightarrow> 'u rrc \<Rightarrow> 'u rrc" where
  "after_session sn rest u s = s\<lparr>user := u, rrc_client := (rrc_client s)\<lparr>serial := ntohl sn, lastRecv := PDU_TYPE_END_OF_DATA,
     clSock := (clSock (rrc_client s))\<lparr>clientFD := -1\<rparr>\<rparr>, wire := (wire s)\<lparr>rxq := rest\<rparr>\<rparr>"

lemma receive_session:
  assumes "\<forall>x \<in> set pdus. pdu_ok v x" "v \<le> 2" "unlimited mem"
    and "clientFD (clSock (rrc_client s)) \<noteq> -1" "\<not> rc_stop (rrc_client s)" "rc_version (rrc_client s) = v" "\<not> startup (rrc_client s)" "sessionID (rrc_client s) = session_of sid"
    and "rxq (wire s) = xs @ z # zs" "chunks xs" "content xs = concat (map (enc_pdu v) pdus) @ enc_end_of_data v sid sn" "z = RxData [] \<or> z = RxError" "8 \<le> length buf"
  shows "\<exists>n. receive_loop mem p False False True RRC_RCV_PDU_NO_ERROR l buf s =
    tbind (deliver_all p (routerClientID (rrc_client s)) (ntohs sid) pdus (user s)) (\<lambda>u.
      tbind (invoke (endOfDataCallback p) (\<lambda>cb. cb (routerClientID (rrc_client s)) (ntohs sid)) u) (\<lambda>u.
        Some (Inr (RRC_RCV_PDU_SOCKET_ERROR, 0, replicate n 0, after_session sn zs u s))))"
proof -
  obtain ys l' buf' where ys: "chunks ys" "content ys = enc_end_of_data v sid sn @ []" "8 \<le> length buf'"
    "\<And>u. receive_loop mem p False False True RRC_RCV_PDU_NO_ERROR l buf (s\<lparr>user := u\<rparr>) =
      tbind (deliver_all p (routerClientID (rrc_client s)) (ntohs sid) pdus u) (\<lambda>u.
        receive_loop mem p False False True RRC_RCV_PDU_NO_ERROR l' buf' (after_data pdus (ys @ z # zs) u s))"
    using receive_data [OF assms(1-6,9-11,13), of p False l] assms(8) by auto
  let ?t = "after_data pdus (ys @ z # zs) (user s) s"
  have t: "clientFD (clSock (rrc_client ?t)) \<noteq> -1" "\<not> rc_stop (rrc_client ?t)" "rxq (wire ?t) = ys @ z # zs" "rc_version (rrc_client ?t) = v"
    "startup (rrc_client ?t) = False" "sessionID (rrc_client ?t) = session_of sid" "routerClientID (rrc_client ?t) = routerClientID (rrc_client s)"
    using assms(4-8) by (simp_all add: after_data_def)
  obtain ts pad where ts: "\<And>u e l. receive_loop mem p False False True e l buf' (?t\<lparr>user := u\<rparr>) =
      tbind (process_received mem p False (\<not> False) (enc_end_of_data v sid sn @ pad) RRC_RCV_PDU_NO_ERROR (?t\<lparr>wire := (wire ?t)\<lparr>rxq := ts @ z # zs\<rparr>, user := u\<rparr>))
        (\<lambda>(keep, e, s). receive_loop mem p False False keep e (of_nat (length (enc_end_of_data v sid sn))) (enc_end_of_data v sid sn @ pad) s)"
    "chunks ts" "content ts = []" "length buf' \<le> length (enc_end_of_data v sid sn @ pad)"
    by (rule receive_framed [where p = p and ret = False and single = False, OF t(1-3) ys(1,2) framed_enc_session(2) assms(3) ys(3)]) (rule that)
  have "ts = []" using ts(2,3) by (cases ts) (auto simp: chunks_def content_def)
  have "receive_loop mem p False False True e l buf' (?t\<lparr>user := u\<rparr>) =
      tbind (invoke (endOfDataCallback p) (\<lambda>cb. cb (routerClientID (rrc_client s)) (ntohs sid)) u) (\<lambda>u.
        Some (Inr (RRC_RCV_PDU_SOCKET_ERROR, 0, replicate (length (enc_end_of_data v sid sn @ pad)) 0, after_session sn zs u s)))" for u e l
  proof -
    let ?w = "?t\<lparr>wire := (wire ?t)\<lparr>rxq := ts @ z # zs\<rparr>, user := u\<rparr>"
    have "process_received mem p False True (enc_end_of_data v sid sn @ pad) RRC_RCV_PDU_NO_ERROR ?w =
        tbind (invoke (endOfDataCallback p) (\<lambda>cb. cb (routerClientID (rrc_client ?w)) (ntohs sid)) (user ?w)) (\<lambda>u.
          Some (Inr (\<not> False, RRC_RCV_PDU_NO_ERROR, ?w\<lparr>user := u, rrc_client := (rrc_client ?w)\<lparr>serial := ntohl sn, lastRecv := PDU_TYPE_END_OF_DATA\<rparr>\<rparr>)))"
      using t(4-6) by (intro process_end_of_data [OF assms(2)]) simp_all
    moreover have "receive_loop mem p False False True e l b (?w\<lparr>user := u, rrc_client := (rrc_client ?w)\<lparr>serial := ntohl sn, lastRecv := PDU_TYPE_END_OF_DATA\<rparr>\<rparr>) =
        Some (Inr (RRC_RCV_PDU_SOCKET_ERROR, 0, replicate (length b) 0, after_session sn zs u s))" for u e l b
      using t(1,2) assms(12) \<open>ts = []\<close> by (subst receive_closed) (simp_all add: after_session_def after_data_def)
    ultimately show ?thesis using t(7) by (simp add: ts(1) tbind_assoc)
  qed
  then have "receive_loop mem p False False True RRC_RCV_PDU_NO_ERROR l buf (s\<lparr>user := user s\<rparr>) =
      tbind (deliver_all p (routerClientID (rrc_client s)) (ntohs sid) pdus (user s)) (\<lambda>u.
        tbind (invoke (endOfDataCallback p) (\<lambda>cb. cb (routerClientID (rrc_client s)) (ntohs sid)) u) (\<lambda>u.
          Some (Inr (RRC_RCV_PDU_SOCKET_ERROR, 0, replicate (length (enc_end_of_data v sid sn @ pad)) 0, after_session sn zs u s))))"
    unfolding ys(4) by (simp add: after_data_def)
  then show ?thesis by auto
qed

lemma report_closed: "\<not> startup (rrc_client s) \<Longrightarrow> clientFD (clSock (rrc_client s)) = -1 \<Longrightarrow>
  report_error mem RRC_RCV_PDU_SOCKET_ERROR l buf s = Inr (RPKI_EC_INTERNAL_ERROR, s)"
  by (simp add: report_error_def error_text_def sendErrorReport_def Let_def)

lemma receivePDUs_unlimited:
  assumes "unlimited mem"
  obtains buf where "length buf = 123" "receivePDUs mem p ret single s =
    tbind (receive_loop mem p ret single True RRC_RCV_PDU_NO_ERROR 0 buf s) (\<lambda>(errCode, pduLen, buf, s).
      tbind (Some (report_error mem errCode pduLen buf s)) (\<lambda>(errCode, s). Some (Inr (errCode = RRC_RCV_PDU_NO_ERROR, errCode, s))))"
proof -
  obtain g where "mem ROUTER_KEY_PDU_SIZE = Some g" using assms by (rule unlimitedE)
  then show thesis by (intro that [of "map g [0 ..< ROUTER_KEY_PDU_SIZE]"]) (simp_all add: receivePDUs_def)
qed

text \<open>The answer to the reset query.\<close>

lemma receive_response:
  assumes "v \<le> 2" "unlimited mem" "clientFD (clSock (rrc_client s)) \<noteq> -1" "\<not> rc_stop (rrc_client s)" "rc_version (rrc_client s) = v"
    and "rxq (wire s) = xs @ zs" "chunks xs" "content xs = enc_cache_response v sid @ rest"
  obtains ys pad where "\<And>p ret. receivePDUs mem p ret True s =
    tbind (process_received mem p ret False (enc_cache_response v sid @ pad) RRC_RCV_PDU_NO_ERROR (s\<lparr>wire := (wire s)\<lparr>rxq := ys @ zs\<rparr>\<rparr>)) (\<lambda>(keep, e, s).
      tbind (receive_loop mem p ret True keep e (of_nat (length (enc_cache_response v sid))) (enc_cache_response v sid @ pad) s) (\<lambda>(errCode, pduLen, buf, s).
        tbind (Some (report_error mem errCode pduLen buf s)) (\<lambda>(errCode, s). Some (Inr (errCode = RRC_RCV_PDU_NO_ERROR, errCode, s)))))"
    "chunks ys" "content ys = rest"
proof -
  obtain g where g: "mem ROUTER_KEY_PDU_SIZE = Some g" using assms(2) by (rule unlimitedE)
  let ?buf = "map g [0 ..< ROUTER_KEY_PDU_SIZE]" and ?b = "enc_cache_response v sid"
  have "8 \<le> length ?buf" by simp
  then obtain ys pad where ys: "getPacket mem ?buf s = Some (Inr (of_nat (length ?b), RRC_RCV_PDU_NO_ERROR, ?b @ pad, s\<lparr>wire := (wire s)\<lparr>rxq := ys @ zs\<rparr>\<rparr>))"
    "chunks ys" "content ys = rest" by (rule getPacket_chunks [OF assms(3,6-8) framed_enc_session(1) assms(2)])
  have "receivePDUs mem p ret True s =
      tbind (process_received mem p ret False (?b @ pad) RRC_RCV_PDU_NO_ERROR (s\<lparr>wire := (wire s)\<lparr>rxq := ys @ zs\<rparr>\<rparr>)) (\<lambda>(keep, e, s).
        tbind (receive_loop mem p ret True keep e (of_nat (length ?b)) (?b @ pad) s) (\<lambda>(errCode, pduLen, buf, s).
          tbind (Some (report_error mem errCode pduLen buf s)) (\<lambda>(errCode, s). Some (Inr (errCode = RRC_RCV_PDU_NO_ERROR, errCode, s)))))" for p ret
    unfolding receivePDUs_def using g assms(4) of_nat_framed [OF framed_enc_session(1), of v sid]
    by (subst receive_loop.simps) (simp add: ys(1) tbind_assoc split_def del: ROUTER_KEY_PDU_SIZE_def)
  then show thesis using ys(2,3) by (rule that)
qed

lemma exchange_session:
  assumes "\<forall>x \<in> set pdus. pdu_ok v x" "v \<le> 2" "unlimited mem"
    and "clientFD (clSock (rrc_client s)) \<noteq> -1" "\<not> rc_stop (rrc_client s)" "rc_version (rrc_client s) = v" "\<not> stopAfterEndOfData (rrc_client s)"
    and session: "startup (rrc_client s) \<or> sessionID (rrc_client s) = session_of sid"
    and "rxq (wire s) = xs @ z # zs" "chunks xs" "z = RxData [] \<or> z = RxError"
    and "content xs = enc_cache_response v sid @ concat (map (enc_pdu v) pdus) @ enc_end_of_data v sid sn"
  shows "exchange mem p n s = tbind (deliver_all p (routerClientID (rrc_client s)) (ntohs sid) pdus (user s)) (\<lambda>u.
    tbind (invoke (endOfDataCallback p) (\<lambda>cb. cb (routerClientID (rrc_client s)) (ntohs sid)) u) (\<lambda>u.
      Some (Inr (n, after_session sn zs u (s\<lparr>rrc_client := snd (checkSessionID (session_of sid) (rrc_client s))\<rparr>)))))"
proof -
  have ok: "fst (checkSessionID (session_of sid) (rrc_client s))" using session by (auto simp: checkSessionID_def)
  obtain ys pad where ys: "\<And>p ret. receivePDUs mem p ret True s =
    tbind (process_received mem p ret False (enc_cache_response v sid @ pad) RRC_RCV_PDU_NO_ERROR (s\<lparr>wire := (wire s)\<lparr>rxq := ys @ z # zs\<rparr>\<rparr>)) (\<lambda>(keep, e, s).
      tbind (receive_loop mem p ret True keep e (of_nat (length (enc_cache_response v sid))) (enc_cache_response v sid @ pad) s) (\<lambda>(errCode, pduLen, buf, s).
        tbind (Some (report_error mem errCode pduLen buf s)) (\<lambda>(errCode, s). Some (Inr (errCode = RRC_RCV_PDU_NO_ERROR, errCode, s)))))"
    "chunks ys" "content ys = concat (map (enc_pdu v) pdus) @ enc_end_of_data v sid sn"
    by (rule receive_response [OF assms(2-6,9,10,12)]) (rule that)
  define c1 where "c1 = (snd (checkSessionID (session_of sid) (rrc_client s)))\<lparr>lastRecv := PDU_TYPE_CACHE_RESPONSE\<rparr>"
  define s1 where "s1 = s\<lparr>wire := (wire s)\<lparr>rxq := ys @ z # zs\<rparr>, rrc_client := c1\<rparr>"
  have c1: "clientFD (clSock c1) \<noteq> -1" "\<not> rc_stop c1" "rc_version c1 = v" "\<not> startup c1" "sessionID c1 = session_of sid" "\<not> stopAfterEndOfData c1"
    "routerClientID c1 = routerClientID (rrc_client s)" "lastRecv c1 = PDU_TYPE_CACHE_RESPONSE"
    using assms(4-7) by (simp_all add: c1_def checkSessionID_ok [OF ok])
  have first: "receivePDUs mem p ret True s = Some (Inr (True, RRC_RCV_PDU_NO_ERROR, s1))" for ret
    unfolding ys(1) using assms(2,6) ok by (subst process_response) (simp_all add: s1_def c1_def report_error_def)
  obtain buf where buf: "length buf = 123" "receivePDUs mem p False False s1 =
    tbind (receive_loop mem p False False True RRC_RCV_PDU_NO_ERROR 0 buf s1) (\<lambda>(errCode, pduLen, buf, s).
      tbind (Some (report_error mem errCode pduLen buf s)) (\<lambda>(errCode, s). Some (Inr (errCode = RRC_RCV_PDU_NO_ERROR, errCode, s))))"
    by (rule receivePDUs_unlimited [OF assms(3)])
  obtain k where k: "receive_loop mem p False False True RRC_RCV_PDU_NO_ERROR 0 buf s1 =
    tbind (deliver_all p (routerClientID (rrc_client s)) (ntohs sid) pdus (user s)) (\<lambda>u.
      tbind (invoke (endOfDataCallback p) (\<lambda>cb. cb (routerClientID (rrc_client s)) (ntohs sid)) u) (\<lambda>u.
        Some (Inr (RRC_RCV_PDU_SOCKET_ERROR, 0, replicate k 0, after_session sn zs u s1))))"
    using receive_session [OF assms(1-3), of s1 sid ys z zs sn buf p 0] c1 ys(2,3) assms(11) buf(1) by (auto simp: s1_def)
  have fin: "after_session sn zs u s1 = after_session sn zs u (s\<lparr>rrc_client := snd (checkSessionID (session_of sid) (rrc_client s))\<rparr>)" for u
    by (simp add: after_session_def s1_def c1_def)
  have "\<not> startup (rrc_client (after_session sn zs u s1))" "clientFD (clSock (rrc_client (after_session sn zs u s1))) = -1"
    "\<not> stopAfterEndOfData (rrc_client (after_session sn zs u s1))" for u
    using c1 by (simp_all add: after_session_def s1_def)
  note rep = report_closed [OF this(1,2)] this(3)
  have "lastRecv (rrc_client s1) = PDU_TYPE_CACHE_RESPONSE" "\<not> stopAfterEndOfData (rrc_client s1)" using c1 by (simp_all add: s1_def)
  then show ?thesis by (simp add: exchange_def assms(7) first buf(2) k [unfolded RRC_RCV_PDU_NO_ERROR_def] tbind_assoc rep fin [symmetric] del: RRC_RCV_PDU_SOCKET_ERROR_def)
qed

text \<open>C5. A connection to the validation cache. Assume that the stream of a connection, cut into pieces in any way, is a cache response of the current session (or of any session when the
  client starts), a sequence of prefix, router key and ASPA PDUs, and an end of data, and that the connection ends there. Then the exchange that follows the reset
  query calls the callbacks with the content of the PDUs, in their order, and at last the callback for the end of data; if none of them fails, the client keeps the session and
  the serial number and is ready to connect again.\<close>

theorem exchange_delivers:
  assumes "\<forall>x \<in> set pdus. pdu_ok v x" "v \<le> 2" "unlimited mem"
    and "clientFD (clSock (rrc_client s)) \<noteq> -1" "\<not> rc_stop (rrc_client s)" "rc_version (rrc_client s) = v" "\<not> stopAfterEndOfData (rrc_client s)"
    and session: "startup (rrc_client s) \<or> sessionID (rrc_client s) = session_of sid"
    and "rxq (wire s) = xs @ z # zs" "chunks xs" "z = RxData [] \<or> z = RxError"
    and "content xs = enc_cache_response v sid @ concat (map (enc_pdu v) pdus) @ enc_end_of_data v sid sn"
  shows "exchange mem p n s = tbind (deliver_all p (routerClientID (rrc_client s)) (ntohs sid) pdus (user s)) (\<lambda>u.
    tbind (invoke (endOfDataCallback p) (\<lambda>cb. cb (routerClientID (rrc_client s)) (ntohs sid)) u) (\<lambda>u.
      Some (Inr (n, after_session sn zs u (s\<lparr>rrc_client := snd (checkSessionID (session_of sid) (rrc_client s))\<rparr>)))))"
  by (rule exchange_session [OF assms])

text \<open>A client whose user writes down the calls, and a connection with one prefix of which the stream is cut in the middle of a header.\<close>

datatype rtr_event = EvPrefix bool "u8 list" u8 u16 u32 | EvEnd | EvReset

definition log_params :: "rtr_event list RPKIRouterClientParams" where
  "log_params = \<lparr>prefixCallback = Some (\<lambda>cl sid ann p maxLen as u. Some (Inr (u @ [EvPrefix ann (addr (ip p)) (plength p) maxLen as]))),
     routerKeyCallback = None, endOfDataCallback = Some (\<lambda>cl sid u. Some (Inr (u @ [EvEnd]))), resetCallback = Some (\<lambda>cl u. Some (Inr (u @ [EvReset]))),
     sessionIDChangedCallback = None, sessionIDEstablishedCallback = None, errorCallback = None, connectionCallback = None, cbHandleAspaPdu = None,
     p_version = 1, allowDowngrade = False\<rparr>"

definition sample_client :: RPKIRouterClient where
  "sample_client = \<lparr>routerClientID = 1, clSock = \<lparr>cs_type = RPKI_RTR_CLIENT_SOCKET, oldFD = 3, clientFD = 3, reconnect = True, canBeClosed = True\<rparr>,
     rc_stop = False, writeMutex = MutexFree, serial = 0, lastSent = 0, lastRecv = 0, sessionID = 0xFFFF, sessionIDChanged = False, startup = True,
     stopAfterEndOfData = False, rc_version = 1\<rparr>"

definition sample_net :: "rx list \<Rightarrow> wire" where
  "sample_net xs = \<lparr>rxq = xs, txq = [], txd = [], attempts = []\<rparr>"

definition sample_stream :: "u8 list" where
  "sample_stream = enc_cache_response 1 7 @ concat (map (enc_pdu 1) [PduIPv4 True [10, 0, 0, 0] 8 24 65001]) @ enc_end_of_data 1 7 5"

definition sample_rrc :: "rtr_event list rrc" where
  "sample_rrc = \<lparr>rrc_client = sample_client, wire = sample_net [RxData (take 11 sample_stream), RxData (drop 11 sample_stream), RxData []], user = []\<rparr>"

lemma unlimited_zero: "unlimited (\<lambda>_. Some (\<lambda>_. 0))"
  by (simp add: unlimited_def)

theorem exchange_delivers_witness:
  "\<exists>s'. exchange (\<lambda>_. Some (\<lambda>_. 0)) log_params 0 sample_rrc = Some (Inr (0, s')) \<and> user s' = [EvPrefix True [10, 0, 0, 0] 8 24 65001, EvEnd] \<and>
     sessionID (rrc_client s') = session_of 7 \<and> serial (rrc_client s') = ntohl 5 \<and> \<not> rc_stop (rrc_client s')"
proof -
  have ne: "take 11 sample_stream \<noteq> []" "drop 11 sample_stream \<noteq> []" by (simp_all add: sample_stream_def enc_cache_response_def)
  have 1: "\<forall>x \<in> set [PduIPv4 True [10, 0, 0, 0] 8 24 65001]. pdu_ok 1 x" "(1 :: u8) \<le> 2" by simp_all
  have 2: "clientFD (clSock (rrc_client sample_rrc)) \<noteq> -1" "\<not> rc_stop (rrc_client sample_rrc)" "rc_version (rrc_client sample_rrc) = 1"
    "\<not> stopAfterEndOfData (rrc_client sample_rrc)" "startup (rrc_client sample_rrc) \<or> sessionID (rrc_client sample_rrc) = session_of 7"
    "rxq (wire sample_rrc) = [RxData (take 11 sample_stream), RxData (drop 11 sample_stream)] @ RxData [] # []"
    "chunks [RxData (take 11 sample_stream), RxData (drop 11 sample_stream)]" "RxData [] = RxData [] \<or> RxData [] = RxError"
    using ne by (simp_all add: sample_rrc_def sample_client_def sample_net_def)
  have "content [RxData (take 11 sample_stream), RxData (drop 11 sample_stream)] = sample_stream" by simp
  then have 3: "content [RxData (take 11 sample_stream), RxData (drop 11 sample_stream)] =
       enc_cache_response 1 7 @ concat (map (enc_pdu 1) [PduIPv4 True [10, 0, 0, 0] 8 24 65001]) @ enc_end_of_data 1 7 5"
    by (rule trans [OF _ sample_stream_def])
  show ?thesis unfolding exchange_delivers [OF 1 unlimited_zero 2 3]
    by (simp add: log_params_def invoke_def after_session_def sample_rrc_def sample_client_def checkSessionID_def)
qed

section \<open>Connections that go wrong\<close>

definition reset_query :: "u8 \<Rightarrow> u8 list" where
  "reset_query v = [v, PDU_TYPE_RESET_QUERY, 0, 0] @ enc32 8"

text \<open>A client that can send.\<close>

definition can_send :: "'u rrc \<Rightarrow> bool" where
  "can_send s \<longleftrightarrow> clientFD (clSock (rrc_client s)) \<noteq> -1 \<and> \<not> rc_stop (rrc_client s) \<and> writeMutex (rrc_client s) = MutexFree \<and> TxError \<notin> set (txq (wire s))"

definition reset_sent :: "tx list \<Rightarrow> 'u rrc \<Rightarrow> 'u rrc" where
  "reset_sent ts s = s\<lparr>rrc_client := (rrc_client s)\<lparr>lastSent := PDU_TYPE_RESET_QUERY\<rparr>,
    wire := (wire s)\<lparr>txq := ts, txd := txd (wire s) @ reset_query (rc_version (rrc_client s))\<rparr>\<rparr>"

lemma sendResetQuery_ok:
  assumes "can_send s"
  obtains ts where "sendResetQuery s = Inr (True, reset_sent ts s)"
proof -
  obtain ts where "sendNum (clientFD (clSock (rrc_client s))) (wire s) (reset_query (rc_version (rrc_client s))) =
      (True, clientFD (clSock (rrc_client s)), (wire s)\<lparr>txq := ts, txd := txd (wire s) @ reset_query (rc_version (rrc_client s))\<rparr>)"
    using sendNum_ok [of "clientFD (clSock (rrc_client s))" "wire s" "reset_query (rc_version (rrc_client s))"] assms unfolding can_send_def by metis
  then show thesis using assms by (intro that [of ts]) (simp add: sendResetQuery_def locked_send_def sendPDU_def Let_def can_send_def reset_query_def reset_sent_def)
qed

lemma receivePDUs_closed:
  assumes "unlimited mem" "clientFD (clSock (rrc_client s)) \<noteq> -1" "\<not> rc_stop (rrc_client s)" "rxq (wire s) = z # zs" "z = RxData [] \<or> z = RxError"
  shows "\<exists>e. receivePDUs mem p ret single s = Some (Inr (False, e, s\<lparr>rrc_client := (rrc_client s)\<lparr>clSock := (clSock (rrc_client s))\<lparr>clientFD := -1\<rparr>\<rparr>,
    wire := (wire s)\<lparr>rxq := zs\<rparr>\<rparr>))"
proof -
  obtain buf where buf: "length buf = 123" "receivePDUs mem p ret single s =
    tbind (receive_loop mem p ret single True RRC_RCV_PDU_NO_ERROR 0 buf s) (\<lambda>(errCode, pduLen, buf, s).
      tbind (Some (report_error mem errCode pduLen buf s)) (\<lambda>(errCode, s). Some (Inr (errCode = RRC_RCV_PDU_NO_ERROR, errCode, s))))"
    by (rule receivePDUs_unlimited [OF assms(1)])
  let ?s = "s\<lparr>rrc_client := (rrc_client s)\<lparr>clSock := (clSock (rrc_client s))\<lparr>clientFD := -1\<rparr>\<rparr>, wire := (wire s)\<lparr>rxq := zs\<rparr>\<rparr>"
  obtain e where "report_error mem RRC_RCV_PDU_SOCKET_ERROR 0 (replicate (length buf) 0) ?s = Inr (e, ?s)" "e \<noteq> RRC_RCV_PDU_NO_ERROR"
  proof (cases "startup (rrc_client s)")
    case True
    then show thesis by (intro that [of "-2"]) (simp_all add: report_error_def)
  next
    case False
    then show thesis by (intro that [of 1]) (simp_all add: report_closed del: RRC_RCV_PDU_SOCKET_ERROR_def)
  qed
  then show ?thesis unfolding buf(2) using receive_closed [OF assms(2-5)] by (intro exI [of _ e]) simp
qed

text \<open>A validation cache that closes the connection before it answers. The client looks at the type of the PDU it received last, which is then left over from
  an earlier connection, or from the start. Unless that was a cache response or an error report, the thread ends: no further connection is tried.\<close>

lemma early_close_stops_client:
  assumes "unlimited mem" "can_send s" "rxq (wire s) = z # zs" "z = RxData [] \<or> z = RxError"
    and "lastRecv (rrc_client s) \<noteq> PDU_TYPE_CACHE_RESPONSE" "lastRecv (rrc_client s) \<noteq> PDU_TYPE_ERROR_REPORT"
  shows "\<exists>s'. manageConnection mem p n s = Some (Inr s') \<and> rc_stop (rrc_client s') \<and> attempts (wire s') = attempts (wire s) \<and>
    txd (wire s') = txd (wire s) @ reset_query (rc_version (rrc_client s)) \<and> user s' = user s"
proof -
  obtain ts where ts: "sendResetQuery s = Inr (True, reset_sent ts s)" by (rule sendResetQuery_ok [OF assms(2)])
  define t where "t = reset_sent ts s"
  have t: "clientFD (clSock (rrc_client t)) \<noteq> -1" "\<not> rc_stop (rrc_client t)" "rxq (wire t) = z # zs" using assms(2,3) by (simp_all add: t_def reset_sent_def can_send_def)
  define t' where "t' = t\<lparr>rrc_client := (rrc_client t)\<lparr>clSock := (clSock (rrc_client t))\<lparr>clientFD := -1\<rparr>\<rparr>, wire := (wire t)\<lparr>rxq := zs\<rparr>\<rparr>"
  obtain e where "receivePDUs mem p (stopAfterEndOfData (rrc_client t)) True t = Some (Inr (False, e, t'))"
    unfolding t'_def using receivePDUs_closed [OF assms(1) t assms(4)] by blast
  moreover have "lastRecv (rrc_client t') = lastRecv (rrc_client s)" by (simp add: t'_def t_def reset_sent_def)
  ultimately have "exchange mem p n t = Some (Inr (n, stop_client t'))" using assms(5,6) by (simp add: exchange_def)
  then have "manageConnection mem p n s = Some (Inr (stop_client t'))"
    using ts assms(2) by (subst manageConnection.simps) (simp add: t_def can_send_def stop_client_def)
  then show ?thesis by (simp add: stop_client_def t'_def t_def reset_sent_def)
qed

theorem early_close_stops_client_witness:
  "\<exists>s'. manageConnection (\<lambda>_. Some (\<lambda>_. 0)) (log_params\<lparr>connectionCallback := Some (\<lambda>u. Some (Inr (30, u)))\<rparr>) 0
     (sample_rrc\<lparr>wire := \<lparr>rxq = [RxData []], txq = [], txd = [], attempts = [(4, ConOk [])]\<rparr>\<rparr>) = Some (Inr s') \<and>
   rc_stop (rrc_client s') \<and> attempts (wire s') = [(4, ConOk [])]"
proof -
  let ?s = "sample_rrc\<lparr>wire := \<lparr>rxq = [RxData []], txq = [], txd = [], attempts = [(4, ConOk [])]\<rparr>\<rparr>"
  have "can_send ?s" "rxq (wire ?s) = RxData [] # []" "lastRecv (rrc_client ?s) \<noteq> PDU_TYPE_CACHE_RESPONSE" "lastRecv (rrc_client ?s) \<noteq> PDU_TYPE_ERROR_REPORT"
    by (simp_all add: can_send_def sample_rrc_def sample_client_def)
  from early_close_stops_client [OF unlimited_zero this(1,2) _ this(3,4), of "log_params\<lparr>connectionCallback := Some (\<lambda>u. Some (Inr (30, u)))\<rparr>" 0]
  show ?thesis by auto
qed

text \<open>C33. A validation cache that starts a new session. When the client already has a session and the cache answers the reset query with another one, the client
  calls the callback for changed sessions without a test; if there is none, as in the server, this is a call of a null pointer.\<close>

theorem new_session_crashes:
  assumes "v \<le> 2" "unlimited mem" "can_send s" "rc_version (rrc_client s) = v" "sessionIDChangedCallback p = None"
    and session: "\<not> startup (rrc_client s)" "sessionID (rrc_client s) \<noteq> session_of sid"
    and "rxq (wire s) = xs @ zs" "chunks xs" "content xs = enc_cache_response v sid @ rest"
  shows "manageConnection mem p n s = Some (Inl NullDeref)"
proof -
  obtain ts where ts: "sendResetQuery s = Inr (True, reset_sent ts s)" by (rule sendResetQuery_ok [OF assms(3)])
  define t where "t = reset_sent ts s"
  have t: "clientFD (clSock (rrc_client t)) \<noteq> -1" "\<not> rc_stop (rrc_client t)" "rc_version (rrc_client t) = v" "rxq (wire t) = xs @ zs"
    "\<not> startup (rrc_client t)" "sessionID (rrc_client t) \<noteq> session_of sid"
    using assms(3,4,6-8) by (simp_all add: t_def reset_sent_def can_send_def)
  obtain ys pad where ys: "\<And>p ret. receivePDUs mem p ret True t =
    tbind (process_received mem p ret False (enc_cache_response v sid @ pad) RRC_RCV_PDU_NO_ERROR (t\<lparr>wire := (wire t)\<lparr>rxq := ys @ zs\<rparr>\<rparr>)) (\<lambda>(keep, e, s).
      tbind (receive_loop mem p ret True keep e (of_nat (length (enc_cache_response v sid))) (enc_cache_response v sid @ pad) s) (\<lambda>(errCode, pduLen, buf, s).
        tbind (Some (report_error mem errCode pduLen buf s)) (\<lambda>(errCode, s). Some (Inr (errCode = RRC_RCV_PDU_NO_ERROR, errCode, s)))))"
    by (rule receive_response [OF assms(1,2) t(1-4) assms(9,10)]) (rule that)
  have "process_received mem p ret keep (enc_cache_response v sid @ pad) e u = Some (Inl NullDeref)" if "rrc_client u = rrc_client t" for ret keep e u
  proof -
    let ?b = "enc_cache_response v sid @ pad"
    have "rd8 ?b 0 = Inr v" "rd8 ?b 1 = Inr PDU_TYPE_CACHE_RESPONSE" by (simp_all add: enc_cache_response_def rd8_nth)
    moreover have "raw16 ?b 2 = Inr (ntohs sid)" using raw16_enc [of v PDU_TYPE_CACHE_RESPONSE sid "enc32 8 @ pad"] by (simp add: enc_cache_response_def)
    then have "on_cache_response p ?b keep e u = Some (Inl NullDeref)"
      using t(5,6) assms(5) that by (simp add: on_cache_response_def checkSessionID_def Let_def session_of_def)
    moreover have "rc_version (rrc_client u) = v" using t(3) that by simp
    ultimately show ?thesis by (simp add: process_received_def accept_same_version [OF assms(1)] handle_pdu_def)
  qed
  then have "exchange mem p n t = Some (Inl NullDeref)" by (simp add: exchange_def ys)
  then show ?thesis using ts assms(3) by (subst manageConnection.simps) (simp add: t_def can_send_def)
qed

theorem new_session_crashes_witness:
  "manageConnection (\<lambda>_. Some (\<lambda>_. 0)) log_params 0
     \<lparr>rrc_client = sample_client\<lparr>startup := False, sessionID := session_of 7\<rparr>, wire = sample_net [RxData (enc_cache_response 1 8)], user = []\<rparr> = Some (Inl NullDeref)"
proof (rule new_session_crashes [where v = 1 and sid = 8 and zs = "[]" and rest = "[]" and xs = "[RxData (enc_cache_response 1 8)]", OF _ unlimited_zero])
  let ?s = "\<lparr>rrc_client = sample_client\<lparr>startup := False, sessionID := session_of 7\<rparr>, wire = sample_net [RxData (enc_cache_response 1 8)], user = []\<rparr> :: rtr_event list rrc"
  have "ntohs 7 \<noteq> ntohs 8" by (simp add: ntohs_def)
  then have "session_of 7 \<noteq> session_of 8" using ucast_session by metis
  then show "sessionID (rrc_client ?s) \<noteq> session_of 8" by simp
  show "chunks [RxData (enc_cache_response 1 8)]" by (simp add: enc_cache_response_def)
qed (simp_all add: can_send_def sample_client_def sample_net_def log_params_def)

lemma zero_bytes: "20 \<le> n \<Longrightarrow> replicate (n - 16) (0 :: u8) = enc32 0 @ replicate (n - 20) 0"
proof -
  assume "20 \<le> n"
  then have "n - 16 = 4 + (n - 20)" by simp
  moreover have "enc32 0 = [0, 0, 0, 0]" by (simp add: enc32_def)
  moreover have "replicate 4 (0 :: u8) = [0, 0, 0, 0]" by (simp add: numeral_eq_Suc)
  ultimately show ?thesis by (simp only: replicate_add)
qed

text \<open>C34. A connection that is lost in the middle of a PDU. An IPv4 prefix PDU of which everything but the AS number arrived, on an open connection that is past its start and has this protocol version, is processed as if it were complete: the rest of the
  buffer is zero, so the prefix is announced (or withdrawn) for AS 0, an AS number that no route has.\<close>

theorem truncated_prefix_is_delivered:
  assumes "v \<le> 2" "unlimited mem" "clientFD (clSock (rrc_client s)) \<noteq> -1" "\<not> rc_stop (rrc_client s)" "rc_version (rrc_client s) = v" "\<not> startup (rrc_client s)"
    and "length adr = 4" "rxq (wire s) = xs @ z # zs" "chunks xs" "z = RxData [] \<or> z = RxError"
    and "content xs = take 16 (enc_pdu v (PduIPv4 ann adr len maxLen as))"
  shows "receivePDUs mem p ret False s =
    tbind (deliver p (routerClientID (rrc_client s)) (ucast (sessionID (rrc_client s))) (PduIPv4 ann adr len maxLen 0) (user s)) (\<lambda>u.
      Some (Inr (False, RPKI_EC_INTERNAL_ERROR, s\<lparr>wire := (wire s)\<lparr>rxq := zs\<rparr>, user := u,
        rrc_client := (rrc_client s)\<lparr>clSock := (clSock (rrc_client s))\<lparr>clientFD := -1\<rparr>, lastRecv := PDU_TYPE_IP_V4_PREFIX\<rparr>\<rparr>)))"
proof -
  let ?b = "enc_pdu v (PduIPv4 ann adr len maxLen 0)" and ?fd = "clientFD (clSock (rrc_client s))"
  let ?h = "[v, PDU_TYPE_IP_V4_PREFIX, 0, 0] @ enc32 20" and ?r = "[flag ann 1, len, maxLen, 0] @ adr"
  obtain buf where buf: "length buf = 123" "receivePDUs mem p ret False s =
    tbind (receive_loop mem p ret False True RRC_RCV_PDU_NO_ERROR 0 buf s) (\<lambda>(errCode, pduLen, buf, s).
      tbind (Some (report_error mem errCode pduLen buf s)) (\<lambda>(errCode, s). Some (Inr (errCode = RRC_RCV_PDU_NO_ERROR, errCode, s))))"
    by (rule receivePDUs_unlimited [OF assms(2)])
  have c: "content xs = ?h @ ?r" using assms(7,11) by simp
  define n where "n = length buf"
  have n: "20 \<le> n" using buf(1) by (simp add: n_def)
  obtain ys where ys: "recvNum ?fd (wire s) (replicate n 0) 0 8 = Some (Inr (True, ?fd, (wire s)\<lparr>rxq := ys @ z # zs\<rparr>, ?h @ replicate (n - 8) 0))"
    "chunks ys" "content ys = ?r"
    using recvNum_chunks [OF assms(3,8,9), of 8 0 "replicate n 0"] c n by auto
  let ?m = "?h @ replicate (n - 8) (0 :: u8)"
  have m: "length ?m = n" "take 8 ?m = ?h" "drop (8 + 8) ?m = replicate (n - 16) 0" using n by simp_all
  have r: "length (content ys) = 8" "length ?r = 8" using ys(3) assms(7) by simp_all
  have e: "take 8 ?m @ content ys @ drop (8 + length (content ys)) ?m = ?h @ ?r @ replicate (n - 16) 0" by (subst r(1), subst m(2), subst m(3), subst ys(3)) (rule refl)
  have "recvNum ?fd ((wire s)\<lparr>rxq := ys @ z # zs\<rparr>) ?m 8 12 = Some (Inr (False, -1, (wire s)\<lparr>rxq := ys @ z # zs\<rparr>\<lparr>rxq := zs\<rparr>, ?h @ ?r @ replicate (n - 16) 0))"
    unfolding e [symmetric]
  proof (rule recvNum_short [OF assms(3) _ ys(2) _ _ assms(10)])
    show "length (content ys) < 12" "8 + 12 \<le> length ?m" using r(1) m(1) n by linarith+
  qed simp
  moreover have "replicate (n - 16) (0 :: u8) = enc32 0 @ replicate (n - 20) 0" using n by (rule zero_bytes)
  then have "?h @ ?r @ replicate (n - 16) 0 = ?b @ replicate (n - 20) 0" by simp
  moreover have "rd32 ?m 4 = Inr 20" using rd32_at [of 4 "[v, PDU_TYPE_IP_V4_PREFIX, 0, 0]" 20] by simp
  moreover have "grow_buffer mem 20 ?m = Some ?m" using m(1) n by (simp add: grow_buffer_def)
  ultimately have g: "getPacket mem buf s = Some (Inr (8, RRC_RCV_PDU_SOCKET_ERROR, ?b @ replicate (n - 20) 0,
      s\<lparr>rrc_client := (rrc_client s)\<lparr>clSock := (clSock (rrc_client s))\<lparr>clientFD := -1\<rparr>\<rparr>, wire := (wire s)\<lparr>rxq := zs\<rparr>\<rparr>))"
    using ys(1) by (simp add: getPacket_def get_body_def Let_def n_def [symmetric] del: enc_pdu.simps)
  define t where "t = s\<lparr>rrc_client := (rrc_client s)\<lparr>clSock := (clSock (rrc_client s))\<lparr>clientFD := -1\<rparr>\<rparr>, wire := (wire s)\<lparr>rxq := zs\<rparr>\<rparr>"
  define fin where "fin = (\<lambda>u. t\<lparr>user := u, rrc_client := (rrc_client t)\<lparr>lastRecv := PDU_TYPE_IP_V4_PREFIX\<rparr>\<rparr>)"
  have "process_received mem p ret True (?b @ replicate (n - 20) 0) RRC_RCV_PDU_SOCKET_ERROR t =
      tbind (deliver p (routerClientID (rrc_client t)) (ucast (sessionID (rrc_client t))) (PduIPv4 ann adr len maxLen 0) (user t))
        (\<lambda>u. Some (Inr (True, RRC_RCV_PDU_SOCKET_ERROR, t\<lparr>user := u, rrc_client := (rrc_client t)\<lparr>lastRecv := rtr_type (PduIPv4 ann adr len maxLen 0)\<rparr>\<rparr>)))"
    using assms(5,7) by (intro process_data [OF _ assms(1) _ assms(2)]) (simp_all add: t_def)
  then have pr: "process_received mem p ret True (?b @ replicate (n - 20) 0) RRC_RCV_PDU_SOCKET_ERROR t =
      tbind (deliver p (routerClientID (rrc_client t)) (ucast (sessionID (rrc_client t))) (PduIPv4 ann adr len maxLen 0) (user t))
        (\<lambda>u. Some (Inr (True, RRC_RCV_PDU_SOCKET_ERROR, fin u)))" by (simp add: fin_def)
  have fin: "clientFD (clSock (rrc_client (fin u))) = -1" "\<not> rc_stop (rrc_client (fin u))" "\<not> startup (rrc_client (fin u))" for u
    using assms(4,6) by (simp_all add: fin_def t_def)
  have "getPacket mem b (fin u) = Some (Inr (0, RRC_RCV_PDU_SOCKET_ERROR, replicate (length b) 0, fin u))" for b u
    by (simp add: getPacket_def recvNum_def fin_def t_def)
  then have "receive_loop mem p ret False True e l b (fin u) = Some (Inr (RRC_RCV_PDU_SOCKET_ERROR, 0, replicate (length b) 0, fin u))" for e l b u
    using fin(2) by (subst receive_loop.simps) simp
  then have "receive_loop mem p ret False True RRC_RCV_PDU_NO_ERROR 0 buf s =
      tbind (deliver p (routerClientID (rrc_client t)) (ucast (sessionID (rrc_client t))) (PduIPv4 ann adr len maxLen 0) (user t))
        (\<lambda>u. Some (Inr (RRC_RCV_PDU_SOCKET_ERROR, 0, replicate (length (?b @ replicate (n - 20) 0)) 0, fin u)))"
    using g pr assms(4) by (subst receive_loop.simps) (simp add: t_def [symmetric] tbind_assoc del: enc_pdu.simps deliver.simps)
  then have "receivePDUs mem p ret False s =
      tbind (deliver p (routerClientID (rrc_client t)) (ucast (sessionID (rrc_client t))) (PduIPv4 ann adr len maxLen 0) (user t)) (\<lambda>u.
        Some (Inr (False, RPKI_EC_INTERNAL_ERROR, fin u)))"
    unfolding buf(2) by (simp add: tbind_assoc report_closed fin del: deliver.simps RRC_RCV_PDU_SOCKET_ERROR_def)
  then show ?thesis by (simp add: fin_def t_def del: deliver.simps)
qed

theorem truncated_prefix_is_delivered_witness:
  "\<exists>s'. receivePDUs (\<lambda>_. Some (\<lambda>_. 0)) log_params False False \<lparr>rrc_client = sample_client\<lparr>startup := False\<rparr>,
      wire = sample_net [RxData (take 16 (enc_pdu 1 (PduIPv4 True [10, 0, 0, 0] 8 24 65001))), RxData []], user = []\<rparr> = Some (Inr (False, 1, s')) \<and>
    user s' = [EvPrefix True [10, 0, 0, 0] 8 24 0]"
proof -
  let ?b = "take 16 (enc_pdu 1 (PduIPv4 True [10, 0, 0, 0] 8 24 65001))"
  let ?s = "\<lparr>rrc_client = sample_client\<lparr>startup := False\<rparr>, wire = sample_net [RxData ?b, RxData []], user = []\<rparr> :: rtr_event list rrc"
  have s: "clientFD (clSock (rrc_client ?s)) \<noteq> -1" "\<not> rc_stop (rrc_client ?s)" "rc_version (rrc_client ?s) = 1" "\<not> startup (rrc_client ?s)"
    "length [10, 0, 0, 0 :: u8] = 4" "rxq (wire ?s) = [RxData ?b] @ RxData [] # []" "chunks [RxData ?b]" "RxData [] = RxData [] \<or> RxData [] = RxError" "content [RxData ?b] = ?b"
    by (simp_all add: sample_client_def sample_net_def del: take_append)
  have "(1 :: u8) \<le> 2" by simp
  from truncated_prefix_is_delivered [OF this unlimited_zero s, of log_params False] show ?thesis by (simp add: log_params_def invoke_def)
qed

end
