(* ===== verification/Notifications.thy ===== *)
theory Notifications
  imports Update_Processing
begin

text \<open>
  The notification of the clients about a changed result: \<open>broadcastResult\<close> of \<open>server/command_handler.c\<close> on top of the client
  lists of the update cache and the proxy map.
\<close>

section \<open>The loop over the clients\<close>

definition reachable_client :: "(addr \<Rightarrow> bool) \<Rightarrow> ProxyTable \<Rightarrow> u8 \<Rightarrow> bool" where
  "reachable_client nt pm c \<longleftrightarrow> isActive (mapping_at pm c) \<and> nt (socket (mapping_at pm c))"

lemma broadcast_loop_eq:
  "broadcast_loop nt pm msg cs sd ret =
     (ret \<or> filter (reachable_client nt pm) cs \<noteq> [],
      sd\<lparr>sent := sent sd @ map (\<lambda>c. (socket (mapping_at pm c), msg)) (filter (reachable_client nt pm) cs)\<rparr>)"
  by (induction cs arbitrary: sd ret) (auto simp: reachable_client_def sendPacketToClient_def)

lemma getClientIDs_known:
  assumes "uc_ok T uc" "uc_entry T uc uid = Some e" "noPossibleClients e \<le> n"
  shows "getClientIDsOfUpdate T uc uid n = Inr (int (length (entry_clients e)), entry_clients e, uc)"
proof -
  from assms(1,2) obtain a where a: "a \<noteq> 0" "entry_wf e" "entry_at uc a = Inr e" "tableFind T uc uid = Inr (a, uc)" by (rule uc_entry_Some)
  from a(2) obtain ks m where ks: "clients e = Some (ks @ replicate m 0)" "0 \<notin> set ks" "unat (noPossibleClients e) = length ks + m"
    "entry_clients e = ks" by (rule entry_wfE)
  have "filter (\<lambda>c. c \<noteq> 0) ks = ks" using ks(2) by (intro filter_True) auto
  then show ?thesis using a ks assms(3) by (simp add: getClientIDsOfUpdate_def)
qed

lemma getClientIDs_overflow:
  assumes "uc_ok T uc" "uc_entry T uc uid = Some e" "n < noPossibleClients e"
  shows "getClientIDsOfUpdate T uc uid n = Inr (- 1, [], uc)"
proof -
  from assms(1,2) obtain a where "a \<noteq> 0" "entry_at uc a = Inr e" "tableFind T uc uid = Inr (a, uc)" by (rule uc_entry_Some)
  moreover have "\<not> noPossibleClients e \<le> n" using assms(3) by simp
  ultimately show ?thesis unfolding getClientIDsOfUpdate_def by simp
qed

definition notification :: "SRxValidationResult \<Rightarrow> srx_msg" where
  "notification v = VerifyNotification (ucast (valType v AND 7)) 0 (roaResult (valResult v)) (bgpsecResult (valResult v))
     (aspaResult (valResult v)) (htonl (valUpdateID v))"

text \<open>The clients that are told about a result of an update: all connected ones that can be reached, or none if the client array of the update is longer than the expected number of clients.\<close>

definition told_clients :: "env \<Rightarrow> ProxyTable \<Rightarrow> 't UpdateCache \<Rightarrow> CacheEntry \<Rightarrow> u8 list" where
  "told_clients env pm uc e = (if noPossibleClients e \<le> minNumberOfClients uc then filter (reachable_client (net env) pm) (rev (entry_clients e)) else [])"

lemma broadcast_ok:
  fixes env :: env
  assumes uc: "updateCache (pcache s) = Some uc" "uc_ok T uc" "uc_entry T uc (valUpdateID v) = Some e"
  shows "broadcastResult T env v s =
    Inr (noPossibleClients e \<le> minNumberOfClients uc \<and> (entry_clients e = [] \<or> told_clients env (proxies s) uc e \<noteq> []),
         s\<lparr>sender := (sender s)\<lparr>sent := sent (sender s) @ map (\<lambda>c. (socket (mapping_at (proxies s) c), notification v)) (told_clients env (proxies s) uc e)\<rparr>\<rparr>)"
proof -
  have same: "s\<lparr>pcache := (pcache s)\<lparr>updateCache := Some uc\<rparr>\<rparr> = s" using uc(1) by (cases s; cases "pcache s") simp
  show ?thesis
  proof (cases "noPossibleClients e \<le> minNumberOfClients uc")
    case True
    from getClientIDs_known [OF uc(2,3) this] show ?thesis
      using True same uc(1) by (simp add: broadcastResult_def on_updCache_def broadcast_loop_eq notification_def told_clients_def)
  next
    case False
    then have "minNumberOfClients uc < noPossibleClients e" by simp
    from getClientIDs_overflow [OF uc(2,3) this] show ?thesis
      using False same uc(1) by (simp add: broadcastResult_def on_updCache_def told_clients_def)
  qed
qed

section \<open>Properties\<close>

text \<open>C29. Who is told about a new result. If the client array of the update is not longer than the expected number of clients, \<open>broadcastResult\<close> sends
  the notification, with exactly the given result and the identifier in network byte order, once to each registered client that is active and
  reachable, last registered client first, and to nobody else; it reports success if there was no client or at least one got it. If
  the array is longer, because more clients registered than were expected at the start, nobody is told and the result is an error.\<close>

theorem broadcastResult_spec:
  fixes env :: env
  assumes uc: "updateCache (pcache s) = Some uc" "uc_ok T uc" "uc_entry T uc (valUpdateID v) = Some e"
  defines "cs \<equiv> filter (reachable_client (net env) (proxies s)) (rev (entry_clients e))"
  shows "broadcastResult T env v s =
    (if noPossibleClients e \<le> minNumberOfClients uc
     then Inr (entry_clients e = [] \<or> cs \<noteq> [],
               s\<lparr>sender := (sender s)\<lparr>sent := sent (sender s) @ map (\<lambda>c. (socket (mapping_at (proxies s) c), notification v)) cs\<rparr>\<rparr>)
     else Inr (False, s))"
  using broadcast_ok [OF uc, of env] by (simp add: told_clients_def cs_def)

text \<open>The server of the examples, with the clients 5 and 7 registered for the update 9, of which only client 7 is connected.\<close>

definition open_result :: SRxResult where
  "open_result = \<lparr>roaResult = SRx_RESULT_VALID, bgpsecResult = SRx_RESULT_UNDEFINED, aspaResult = SRx_RESULT_UNDEFINED\<rparr>"

definition two_proxies :: ProxyTable where
  "two_proxies = \<lparr>proxyMap = (replicate 256 zero_mapping)[7 := zero_mapping\<lparr>proxyID := 3, socket := 6, isActive := True\<rparr>], noMappings = 1\<rparr>"

theorem broadcastResult_spec_witness:
  "\<exists>s'. broadcastResult fun_table sample_env \<lparr>valType = VRT_ROA, valResult = open_result, valUpdateID = 9\<rparr> (sample_server\<lparr>proxies := two_proxies\<rparr>) =
      Inr (True, s') \<and> sent (sender s') = [(6, notification \<lparr>valType = VRT_ROA, valResult = open_result, valUpdateID = 9\<rparr>)]"
proof -
  let ?s = "sample_server\<lparr>proxies := two_proxies\<rparr>" and ?v = "\<lparr>valType = VRT_ROA, valResult = open_result, valUpdateID = 9\<rparr>"
  have uc: "updateCache (pcache ?s) = Some open_cache" by (simp add: sample_server_def)
  have e: "uc_entry fun_table open_cache (valUpdateID ?v) = Some open_entry" using open_cache_ok(2) [of 9] by simp
  have len: "noPossibleClients open_entry \<le> minNumberOfClients open_cache" "entry_clients open_entry = [5, 7]"
    using sample_entry_wf(2) by (simp_all add: open_entry_def sample_entry_def open_cache_def sample_cache_def entry_clients_def)
  have who: "filter (reachable_client (net sample_env) (proxies ?s)) (rev [5, 7]) = [7]" "socket (mapping_at (proxies ?s) 7) = 6"
    by (simp_all add: reachable_client_def mapping_at_def two_proxies_def sample_env_def zero_mapping_def)
  show ?thesis using broadcastResult_spec [OF uc open_cache_ok(1) e, of sample_env] len who
    by (simp add: sample_server_def)
qed

end
