(* ===== verification/Rpki_Handler.thy ===== *)
theory Rpki_Handler
  imports Notifications
begin

text \<open>
  The RPKI handler, \<open>server/rpki_handler.c\<close>: the callbacks of the RPKI to router protocol client. Prefixes and ASPA objects of the
  validation cache go into the prefix cache and the ASPA database; at the end of data the stored AS paths are validated again and the clients
  are told about all changes that were queued meanwhile. The ASPA part of the end of data is in \<open>server/aspa_trie.c\<close> and
  \<open>server/update_cache.c\<close>. The callback for changed results is the broadcast of the command handler (\<open>handleUpdateResultChange\<close> of
  \<open>server/main.c\<close>).
\<close>

section \<open>Prefixes\<close>

definition handlePrefix ::
  "'t uthash \<Rightarrow> 'p patricia \<Rightarrow> addr \<Rightarrow> u32 \<Rightarrow> u16 \<Rightarrow> bool \<Rightarrow> IPPrefix \<Rightarrow> u16 \<Rightarrow> u32 \<Rightarrow> ('p, 't) Server \<Rightarrow> ('p, 't) Server cres" where
  "handlePrefix T P newROA vc session isAnn pfx maxLen oas s =
     cbind (if isAnn then addROAwl T P newROA (pcache s) oas pfx (ucast maxLen) (ucast session) vc True
            else delROAwl T P (pcache s) oas pfx (ucast maxLen) (ucast session) vc True) (\<lambda>(_, pc). Inr (s\<lparr>pcache := pc\<rparr>))"

text \<open>A reset is not implemented, errors keep the connection.\<close>

definition handleReset :: "('p, 't) Server \<Rightarrow> ('p, 't) Server" where
  "handleReset s = s"

definition handleError :: bool where "handleError = True"

definition RECONNECT_DELAY :: int where "RECONNECT_DELAY = 30"

definition handleConnection :: int where "handleConnection = RECONNECT_DELAY"

section \<open>End of data: ASPA\<close>

text \<open>A new ASPA result of an update goes into the update cache and the update into the RPKI queue.\<close>

definition propagate_aspa :: "'t uthash \<Rightarrow> u32 \<Rightarrow> SRxResult \<Rightarrow> ('p, 't) Server \<Rightarrow> ('p, 't) Server cres" where
  "propagate_aspa T uid res s =
     cbind (on_updCache (\<lambda>uc. modifyUpdateCacheResultWithAspaVal T uc uid res) s) (\<lambda>(_, s).
     cbind (rq_queue (rpkiQueue (pcache s)) RQ_ASPA uid) (\<lambda>q. Inr (s\<lparr>pcache := (pcache s)\<lparr>rpkiQueue := q\<rparr>\<rparr>)))"

definition query_update :: "'t uthash \<Rightarrow> u32 \<Rightarrow> ('p, 't, bool \<times> SRxResult \<times> u32) action" where
  "query_update T uid = on_updCache (\<lambda>uc. cbind (getUpdateResult T True uc uid 0 None) (\<lambda>(found, sres, _, pid, uc, _).
     Inr ((found, sres, case pid of Some p \<Rightarrow> p | None \<Rightarrow> 0), uc)))"

text \<open>\<open>process_ASPA_EndOfData_main\<close>: a path that was not validated since the end of data is validated; for a path that was, the
  update takes over the result of the path.\<close>

definition process_ASPA_EndOfData_main :: "'t uthash \<Rightarrow> env \<Rightarrow> nat \<Rightarrow> u32 \<Rightarrow> ('p, 't, int) action" where
  "process_ASPA_EndOfData_main T env ct uid s =
     cbind (query_update T uid s) (\<lambda>((found, srxRes, pathId), s).
       if \<not> found then Inr (0, s)
       else let old_aspaResult = aspaResult srxRes
            in cbind (getAspathListFromAspathCache T (apcache s) pathId srxRes) (\<lambda>(aspl, srxRes, ac).
                 let s = s\<lparr>apcache := ac\<rparr>
                 in case aspl of
                      None \<Rightarrow> Inr (1, s)
                    | Some l \<Rightarrow>
                        let af = (if apl_afi l = 0 \<or> 2 < apl_afi l then 1 else ucast (apl_afi l))
                        in if apl_lastModified l < ct
                           then cbind (validateASPA (case asPathList l of Some ps \<Rightarrow> ps | None \<Rightarrow> []) (asPathLength l) (apl_asType l) (apl_asRelDir l) af (aspaDB s)) (\<lambda>v.
                                cbind (modifyAspaValidationResultToAspathCache T (apcache s) pathId v (Some (l\<lparr>apl_lastModified := now_sec env\<rparr>))) (\<lambda>(_, ac).
                                  let s = s\<lparr>apcache := ac\<rparr>
                                  in if v \<noteq> aspaValResult l
                                     then cbind (propagate_aspa T uid (srxRes\<lparr>aspaResult := v\<rparr>) s) (\<lambda>s. Inr (1, s))
                                     else Inr (1, s)))
                           else if old_aspaResult \<noteq> aspaValResult l
                           then cbind (propagate_aspa T uid (srxRes\<lparr>aspaResult := aspaValResult l\<rparr>) s) (\<lambda>s. Inr (1, s))
                           else Inr (1, s)))"

text \<open>The iteration over the entries of the update cache.\<close>

definition process_ASPA_entry :: "'t uthash \<Rightarrow> env \<Rightarrow> nat \<Rightarrow> addr \<Rightarrow> ('p, 't) Server \<Rightarrow> ('p, 't) Server cres" where
  "process_ASPA_entry T env ct a s = (case updateCache (pcache s) of
      None \<Rightarrow> Inl NullDeref
    | Some uc \<Rightarrow> cbind (entry_at uc a) (\<lambda>e. cbind (process_ASPA_EndOfData_main T env ct (ceUpdateID e) s) (\<lambda>(_, s). Inr s)))"

definition process_ASPA_EndOfData :: "'t uthash \<Rightarrow> env \<Rightarrow> nat \<Rightarrow> ('p, 't) Server \<Rightarrow> ('p, 't) Server cres" where
  "process_ASPA_EndOfData T env ct s = (case updateCache (pcache s) of
      None \<Rightarrow> Inl NullDeref
    | Some uc \<Rightarrow> cfold (process_ASPA_entry T env ct) (HASH_ITER T (table uc)) s)"

section \<open>End of data: notifications\<close>

text \<open>The result that is reported for an element of the queue: each part when the reason names it and it is known. The
  signature is validated again, for which the update has to be stored.\<close>

definition roa_notice :: "'t uthash \<Rightarrow> u32 \<Rightarrow> u32 \<Rightarrow> SRxValidationResult \<Rightarrow> ('p, 't, SRxValidationResult) action" where
  "roa_notice T why uid v s =
     (if why AND RQ_ROA = RQ_ROA
      then cbind (query_update T uid s) (\<lambda>((found, res, _), s).
             Inr (if found then v\<lparr>valType := valType v OR VRT_ROA, valResult := (valResult v)\<lparr>roaResult := roaResult res\<rparr>\<rparr> else v, s))
      else Inr (v, s))"

definition key_notice :: "'t uthash \<Rightarrow> env \<Rightarrow> u32 \<Rightarrow> u32 \<Rightarrow> SRxValidationResult \<Rightarrow> ('p, 't, SRxValidationResult) action" where
  "key_notice T env why uid v s =
     (if why AND RQ_KEY = RQ_KEY
      then cbind (on_updCache (\<lambda>uc. getUpdateData T uc uid) s) (\<lambda>(d, s). case d of
             None \<Rightarrow> Inl NullDeref
           | Some d \<Rightarrow> Inr (if bgpsec_path d = None then v
               else v\<lparr>valType := valType v OR VRT_BGPSEC,
                      valResult := (valResult v)\<lparr>bgpsecResult := validateSignature (crypto_validate env) d\<rparr>\<rparr>, s))
      else Inr (v, s))"

definition aspa_notice :: "'t uthash \<Rightarrow> u32 \<Rightarrow> u32 \<Rightarrow> SRxValidationResult \<Rightarrow> ('p, 't, SRxValidationResult) action" where
  "aspa_notice T why uid v s =
     (if why AND RQ_ASPA = RQ_ASPA
      then cbind (query_update T uid s) (\<lambda>((found, res, _), s).
             Inr (if found then v\<lparr>valType := valType v OR VRT_ASPA, valResult := (valResult v)\<lparr>aspaResult := aspaResult res\<rparr>\<rparr> else v, s))
      else Inr (v, s))"

definition notice :: "'t uthash \<Rightarrow> env \<Rightarrow> RPKI_QUEUE_ELEM \<Rightarrow> ('p, 't, SRxValidationResult) action" where
  "notice T env el s =
     cbind (roa_notice T (reason el) (updateID el) \<lparr>valType = VRT_NONE, valResult = \<lparr>roaResult = SRx_RESULT_DONOTUSE,
       bgpsecResult = SRx_RESULT_DONOTUSE, aspaResult = SRx_RESULT_DONOTUSE\<rparr>, valUpdateID = updateID el\<rparr> s) (\<lambda>(v, s).
     cbind (key_notice T env (reason el) (updateID el) v s) (\<lambda>(v, s). aspa_notice T (reason el) (updateID el) v s))"

text \<open>The loop that empties the queue; without a callback the rest of the queue is dropped.\<close>

partial_function (option) notify_loop ::
  "'t uthash \<Rightarrow> env \<Rightarrow> RPKI_QUEUE_ELEM \<Rightarrow> ('p, 't) Server \<Rightarrow> ('p, 't) Server cres option" where
  "notify_loop T env el s = (case rq_dequeue (rpkiQueue (pcache s)) (Some el) of
      Inl f \<Rightarrow> Some (Inl f)
    | Inr r \<Rightarrow>
        if \<not> fst r then Some (Inr (s\<lparr>pcache := (pcache s)\<lparr>rpkiQueue := fst (snd r)\<rparr>\<rparr>))
        else (case notice T env (the (snd (snd r))) (s\<lparr>pcache := (pcache s)\<lparr>rpkiQueue := fst (snd r)\<rparr>\<rparr>) of
            Inl f \<Rightarrow> Some (Inl f)
          | Inr v \<Rightarrow>
              if map_option resChangedCallback (updateCache (pcache (snd v))) = Some True
              then (case broadcastResult T env (fst v) (snd v) of
                      Inl f \<Rightarrow> Some (Inl f)
                    | Inr b \<Rightarrow> notify_loop T env (the (snd (snd r))) (snd b))
              else Some (cbind (rq_empty el (rpkiQueue (pcache (snd v)))) (\<lambda>q. Inr ((snd v)\<lparr>pcache := (pcache (snd v))\<lparr>rpkiQueue := q\<rparr>\<rparr>)))))"

definition handleEndOfData :: "'t uthash \<Rightarrow> env \<Rightarrow> RPKI_QUEUE_ELEM \<Rightarrow> nat \<Rightarrow> ('p, 't) Server \<Rightarrow> ('p, 't) Server cres option" where
  "handleEndOfData T env garbage ct s = tbind (Some (process_ASPA_EndOfData T env ct s)) (notify_loop T env garbage)"

end
