(* ===== verification/End_Of_Data.thy ===== *)
theory End_Of_Data
  imports Rpki_Handler
begin

text \<open>
  What the server guarantees at the end of data of the validation cache: all stored AS paths are validated against the new ASPA
  database, every update has the verdict of its path, the updates whose result changed are queued, and the queue is worked off.
  The caches are seen as maps; the step on maps is proved to be what the code does.
\<close>

section \<open>One update, on maps\<close>

definition with_aspa :: "u8 \<Rightarrow> CacheEntry \<Rightarrow> CacheEntry" where
  "with_aspa x e = e\<lparr>srxResult := (srxResult e)\<lparr>aspaResult := x\<rparr>\<rparr>"

lemma with_aspa_same [simp]: "with_aspa (aspaResult (srxResult e)) e = e"
  by (cases e; cases "srxResult e") (simp add: with_aspa_def)

lemma with_aspa_sel [simp]:
  "aspathCacheID (with_aspa x e) = aspathCacheID e" "aspaResult (srxResult (with_aspa x e)) = x" "ceUpdateID (with_aspa x e) = ceUpdateID e"
  "with_aspa y (with_aspa x e) = with_aspa y e"
  by (simp_all add: with_aspa_def)

definition fresh_path :: "nat \<Rightarrow> u8 \<Rightarrow> PathListCacheTable \<Rightarrow> PathListCacheTable" where
  "fresh_path t v p = p\<lparr>pl_lastModified := t, pl_aspaResult := v\<rparr>"

lemma fresh_path_sel [simp]: "pl_lastModified (fresh_path t v p) = t" "pl_aspaResult (fresh_path t v p) = v"
  "path_verdict m (fresh_path t v p) = path_verdict m p"
  by (simp_all add: fresh_path_def path_verdict_def path_hops_def)

type_synonym eod_state = "(u32 \<rightharpoonup> CacheEntry) \<times> (u32 \<rightharpoonup> PathListCacheTable) \<times> (u32 \<times> u32) list"

text \<open>The verdicts of the paths are given by \<open>vd\<close>.\<close>

definition eod_step :: "(u32 \<Rightarrow> u8) \<Rightarrow> nat \<Rightarrow> nat \<Rightarrow> u32 \<Rightarrow> eod_state \<Rightarrow> eod_state" where
  "eod_step vd ct t uid = (\<lambda>(M, A, Q). case M uid of
      None \<Rightarrow> (M, A, Q)
    | Some e \<Rightarrow> let k = aspathCacheID e in (case (if k = 0 then None else A k) of
          None \<Rightarrow> (M, A, Q)
        | Some p \<Rightarrow>
            let v = (if pl_lastModified p < ct then vd k else pl_aspaResult p);
                changed = (if pl_lastModified p < ct then v \<noteq> pl_aspaResult p else aspaResult (srxResult e) \<noteq> v)
            in (if changed then M(uid \<mapsto> with_aspa v e) else M,
                if pl_lastModified p < ct then A(k \<mapsto> fresh_path t v p) else A,
                if changed then coalesce rq_merge uid RQ_ASPA Q else Q)))"

section \<open>The code performs the step\<close>

lemma modifyAspaVal_ok:
  assumes uc: "uc_ok T uc" "uc_entry T uc uid = Some e" and x: "aspaResult res \<noteq> SRx_RESULT_DONOTUSE"
  shows "\<exists>b es. modifyUpdateCacheResultWithAspaVal T uc uid res = Inr (b, uc\<lparr>entries := es\<rparr>) \<and> uc_ok T (uc\<lparr>entries := es\<rparr>) \<and>
    uc_entry T (uc\<lparr>entries := es\<rparr>) = (uc_entry T uc)(uid \<mapsto> with_aspa (aspaResult res) e)"
proof -
  from uc obtain a where a: "HASH_FIND T uid (table uc) = a" "a \<noteq> 0" "entries uc a = Some e" "ceUpdateID e = uid" "entry_wf e"
    "entry_at uc a = Inr e" "tableFind T uc uid = Inr (a, uc)" by (rule uc_entry_Some)
  define e' where "e' = with_aspa (aspaResult res) e"
  have mtx: "itemMutex uc = MutexFree" using uc_ok_locks [OF uc(1)] by simp
  have same: "uc\<lparr>itemMutex := MutexFree\<rparr> = uc" using mtx by (cases uc) simp
  show ?thesis
  proof (cases "aspaResult res = aspaResult (srxResult e)")
    case True
    then have "e' = e" using e'_def by simp
    moreover have "(uc_entry T uc)(uid \<mapsto> e) = uc_entry T uc" using uc(2) by auto
    moreover have "modifyUpdateCacheResultWithAspaVal T uc uid res = Inr (False, uc)"
      using True a(2,6,7) mtx same by (simp add: modifyUpdateCacheResultWithAspaVal_def Let_def)
    ultimately show ?thesis using uc e'_def by (intro exI [of _ False] exI [of _ "entries uc"]) simp
  next
    case False
    let ?uc = "set_entry a e' uc"
    have wf: "ceUpdateID e' = uid" "entry_wf e'"
      using a(4,5) by (simp_all add: e'_def) (simp add: with_aspa_def entry_wf_def split: option.splits)
    have "modifyUpdateCacheResultWithAspaVal T uc uid res = Inr (True, ?uc)"
      using False x a(2,6,7) mtx by (cases uc) (simp add: modifyUpdateCacheResultWithAspaVal_def Let_def set_entry_def e'_def with_aspa_def)
    moreover have "?uc = uc\<lparr>entries := (entries uc)(a \<mapsto> e')\<rparr>" by (simp add: set_entry_def)
    ultimately show ?thesis using set_entry_refines [OF uc wf] unfolding a(1) e'_def by auto
  qed
qed

text \<open>The server as a state of the maps.\<close>

definition eod_view :: "'t uthash \<Rightarrow> ('p, 't) Server \<Rightarrow> eod_state" where
  "eod_view T s = ((case updateCache (pcache s) of Some uc \<Rightarrow> uc_entry T uc | None \<Rightarrow> Map.empty), ac_entry T (apcache s), rq_entries (rpkiQueue (pcache s)))"

text \<open>Only the results, the paths and the queue differ.\<close>

definition eod_frame :: "('p, 't) Server \<Rightarrow> ('p, 't) Server \<Rightarrow> bool" where
  "eod_frame s s' \<longleftrightarrow> (\<exists>uc es ac q. updateCache (pcache s) = Some uc \<and>
     s' = s\<lparr>pcache := (pcache s)\<lparr>updateCache := Some (uc\<lparr>entries := es\<rparr>), rpkiQueue := q\<rparr>, apcache := ac\<rparr>)"

definition eod_ok :: "'t uthash \<Rightarrow> nat \<Rightarrow> ('p, 't) Server \<Rightarrow> bool" where
  "eod_ok T n s \<longleftrightarrow> (\<exists>uc. updateCache (pcache s) = Some uc \<and> uc_ok T uc) \<and> ac_ok T (apcache s) \<and> rq_inv (rpkiQueue (pcache s)) \<and>
     length (rq_entries (rpkiQueue (pcache s))) + n \<le> 2 ^ 32 - 1"

lemma eod_frame_trans: "eod_frame s s1 \<Longrightarrow> eod_frame s1 s2 \<Longrightarrow> eod_frame s s2"
  unfolding eod_frame_def by fastforce

text \<open>The server with new results, paths and queue.\<close>

definition eod_server ::
  "'t UpdateCache \<Rightarrow> (addr \<rightharpoonup> CacheEntry) \<Rightarrow> 't AspathCache \<Rightarrow> RPKI_QUEUE option \<Rightarrow> ('p, 't) Server \<Rightarrow> ('p, 't) Server" where
  "eod_server uc es ac q s = s\<lparr>pcache := (pcache s)\<lparr>updateCache := Some (uc\<lparr>entries := es\<rparr>), rpkiQueue := q\<rparr>, apcache := ac\<rparr>"

lemma eod_server_same:
  assumes "updateCache (pcache s) = Some uc"
  shows "eod_server uc (entries uc) (apcache s) (rpkiQueue (pcache s)) s = s"
    "eod_server uc (entries uc) ac (rpkiQueue (pcache s)) s = s\<lparr>apcache := ac\<rparr>"
    "eod_server uc es (apcache s) q s = s\<lparr>pcache := (pcache s)\<lparr>updateCache := Some (uc\<lparr>entries := es\<rparr>), rpkiQueue := q\<rparr>\<rparr>"
    "eod_server uc es ac q s = s\<lparr>apcache := ac, pcache := (pcache s)\<lparr>updateCache := Some (uc\<lparr>entries := es\<rparr>), rpkiQueue := q\<rparr>\<rparr>"
  using assms by (cases s; cases "pcache s"; simp add: eod_server_def)+

lemma eod_server_ok:
  assumes "updateCache (pcache s) = Some uc" "uc_ok T (uc\<lparr>entries := es\<rparr>)" "ac_ok T ac" "rq_inv q" "length (rq_entries q) + n \<le> 2 ^ 32 - 1"
  shows "eod_ok T n (eod_server uc es ac q s)" "eod_frame s (eod_server uc es ac q s)"
    "eod_view T (eod_server uc es ac q s) = (uc_entry T (uc\<lparr>entries := es\<rparr>), ac_entry T ac, rq_entries q)"
  using assms by (auto simp: eod_ok_def eod_frame_def eod_view_def eod_server_def)

lemma propagate_ok:
  assumes s: "updateCache (pcache s) = Some uc" "uc_ok T uc" "uc_entry T uc uid = Some e" and x: "aspaResult res \<noteq> SRx_RESULT_DONOTUSE"
    and q: "rq_inv (rpkiQueue (pcache s))" "length (rq_entries (rpkiQueue (pcache s))) < 2 ^ 32 - 1"
  shows "\<exists>es q'. propagate_aspa T uid res s = Inr (s\<lparr>pcache := (pcache s)\<lparr>updateCache := Some (uc\<lparr>entries := es\<rparr>), rpkiQueue := q'\<rparr>\<rparr>) \<and>
    uc_ok T (uc\<lparr>entries := es\<rparr>) \<and> uc_entry T (uc\<lparr>entries := es\<rparr>) = (uc_entry T uc)(uid \<mapsto> with_aspa (aspaResult res) e) \<and>
    rq_inv q' \<and> rq_entries q' = coalesce rq_merge uid RQ_ASPA (rq_entries (rpkiQueue (pcache s)))"
proof -
  obtain b es where es: "modifyUpdateCacheResultWithAspaVal T uc uid res = Inr (b, uc\<lparr>entries := es\<rparr>)" "uc_ok T (uc\<lparr>entries := es\<rparr>)"
    "uc_entry T (uc\<lparr>entries := es\<rparr>) = (uc_entry T uc)(uid \<mapsto> with_aspa (aspaResult res) e)"
    using modifyAspaVal_ok [OF s(2,3) x] by blast
  obtain q' where q': "rq_queue (rpkiQueue (pcache s)) RQ_ASPA uid = Inr q'" "rq_inv q'"
    "rq_entries q' = coalesce rq_merge uid RQ_ASPA (rq_entries (rpkiQueue (pcache s)))"
    using rq.enq_ok [OF q, of RQ_ASPA uid] by blast
  have "propagate_aspa T uid res s = Inr (s\<lparr>pcache := (pcache s)\<lparr>updateCache := Some (uc\<lparr>entries := es\<rparr>), rpkiQueue := q'\<rparr>\<rparr>)"
    using es(1) q'(1) s(1) by (simp add: propagate_aspa_def on_updCache_def)
  then show ?thesis using es q' by blast
qed

lemma query_update_known:
  assumes "updateCache (pcache s) = Some uc" "uc_ok T uc" "uc_entry T uc uid = Some e"
  shows "query_update T uid s = Inr ((True, srxResult e, aspathCacheID e), s)"
proof -
  have "s\<lparr>pcache := (pcache s)\<lparr>updateCache := Some uc\<rparr>\<rparr> = s" using assms(1) by (cases s; cases "pcache s") simp
  then show ?thesis using assms(1) by (simp add: query_update_def on_updCache_def getUpdateResult_query [OF assms(2,3)])
qed

lemma query_update_unknown:
  assumes "updateCache (pcache s) = Some uc" "uc_ok T uc" "uc_entry T uc uid = None"
  shows "\<exists>r k. query_update T uid s = Inr ((False, r, k), s)"
proof -
  have "s\<lparr>pcache := (pcache s)\<lparr>updateCache := Some uc\<rparr>\<rparr> = s" using assms(1) by (cases s; cases "pcache s") simp
  then show ?thesis using assms(1) uc_entry_None(2) [OF assms(2,3)] by (simp add: query_update_def on_updCache_def getUpdateResult_def)
qed

text \<open>The list of a stored path, and its verdict.\<close>

definition path_list :: "u32 \<Rightarrow> PathListCacheTable \<Rightarrow> AS_PATH_LIST" where
  "path_list k p = \<lparr>apl_pathID = k, asPathLength = ucast (pl_hops p), asPathList = Some (path_hops p), aspaValResult = pl_aspaResult p,
    apl_asType = pl_asType p, apl_asRelDir = pl_asRelDir p, apl_afi = pl_afi p, apl_lastModified = pl_lastModified p\<rparr>"

lemma path_list_lookup:
  assumes "ac_ok T c" "ac_entry T c k = Some p" "k \<noteq> 0"
  shows "getAspathListFromAspathCache T c k r = Inr (Some (path_list k p), r\<lparr>aspaResult := pl_aspaResult p\<rparr>, c)"
  using ac_lookup [OF assms, of r] by (simp add: path_list_def path_hops_def)

lemma process_main_path:
  assumes s: "updateCache (pcache s) = Some uc" "uc_ok T uc" "uc_entry T uc uid = Some e"
    and p: "ac_ok T (apcache s)" "ac_entry T (apcache s) (aspathCacheID e) = Some p" "aspathCacheID e \<noteq> 0"
  shows "process_ASPA_EndOfData_main T env ct uid s =
    (if pl_lastModified p < ct
     then cbind (path_verdict (aspaDB s) p) (\<lambda>v.
          cbind (modifyAspaValidationResultToAspathCache T (apcache s) (aspathCacheID e) v (Some ((path_list (aspathCacheID e) p)\<lparr>apl_lastModified := now_sec env\<rparr>)))
            (\<lambda>(_, ac). if v \<noteq> pl_aspaResult p
              then cbind (propagate_aspa T uid ((srxResult e)\<lparr>aspaResult := v\<rparr>) (s\<lparr>apcache := ac\<rparr>)) (\<lambda>s. Inr (1, s))
              else Inr (1, s\<lparr>apcache := ac\<rparr>)))
     else if aspaResult (srxResult e) \<noteq> pl_aspaResult p
     then cbind (propagate_aspa T uid ((srxResult e)\<lparr>aspaResult := pl_aspaResult p\<rparr>) s) (\<lambda>s. Inr (1, s))
     else Inr (1, s))"
proof -
  define l where "l = path_list (aspathCacheID e) p"
  have l: "apl_lastModified l = pl_lastModified p" "aspaValResult l = pl_aspaResult p"
    "validateASPA (case asPathList l of Some x \<Rightarrow> x | None \<Rightarrow> []) (asPathLength l) (apl_asType l) (apl_asRelDir l)
      (if apl_afi l = 0 \<or> 2 < apl_afi l then 1 else ucast (apl_afi l)) m = path_verdict m p" for m
    by (simp_all add: l_def path_list_def path_verdict_def)
  have get: "getAspathListFromAspathCache T (apcache s) (aspathCacheID e) (srxResult e) =
      Inr (Some l, (srxResult e)\<lparr>aspaResult := pl_aspaResult p\<rparr>, apcache s)"
    using path_list_lookup [OF p] unfolding l_def by simp
  have same: "s\<lparr>apcache := apcache s\<rparr> = s" by simp
  have twice: "r\<lparr>aspaResult := x, aspaResult := y\<rparr> = r\<lparr>aspaResult := y\<rparr>" for r :: SRxResult and x y by simp
  show ?thesis
    unfolding process_ASPA_EndOfData_main_def query_update_known [OF s] cbind_simps prod.case get Let_def same option.case l(1,2)
    unfolding l(3) twice by (simp add: l_def)
qed

lemma path_verdict_known: "path_verdict m p = Inr v \<Longrightarrow> v \<in> aspa_results"
  using validateASPA_range unfolding path_verdict_def by blast

lemma process_main_no_path:
  assumes uc: "updateCache (pcache s) = Some uc" "uc_ok T uc" and ac: "ac_ok T (apcache s)"
    and no: "\<not> (\<exists>e p. uc_entry T uc uid = Some e \<and> aspathCacheID e \<noteq> 0 \<and> ac_entry T (apcache s) (aspathCacheID e) = Some p)"
  shows "\<exists>r. process_ASPA_EndOfData_main T env ct uid s = Inr (r, s)"
proof (cases "uc_entry T uc uid")
  case None
  then obtain r k where "query_update T uid s = Inr ((False, r, k), s)" using query_update_unknown [OF uc None] by blast
  then show ?thesis by (simp add: process_ASPA_EndOfData_main_def)
next
  case (Some e)
  then have "\<exists>r. getAspathListFromAspathCache T (apcache s) (aspathCacheID e) (srxResult e) = Inr (None, r, apcache s)"
    using no ac_lookup_missing [OF ac] by (cases "aspathCacheID e = 0") (auto simp: getAspathListFromAspathCache_def)
  then show ?thesis using query_update_known [OF uc Some] by (auto simp: process_ASPA_EndOfData_main_def)
qed

lemma process_main_refines:
  assumes uc: "updateCache (pcache s) = Some uc" "uc_ok T uc" "uc_entry T uc uid = Some e"
    and ac: "ac_ok T (apcache s)" "ac_entry T (apcache s) (aspathCacheID e) = Some p" "aspathCacheID e \<noteq> 0"
    and q: "rq_inv (rpkiQueue (pcache s))" "length (rq_entries (rpkiQueue (pcache s))) + Suc n \<le> 2 ^ 32 - 1"
    and v: "path_verdict (aspaDB s) p = Inr (vd (aspathCacheID e))" and r: "pl_aspaResult p \<noteq> SRx_RESULT_DONOTUSE"
  shows "\<exists>s'. process_ASPA_EndOfData_main T env ct uid s = Inr (1, s') \<and>
    eod_view T s' = eod_step vd ct (now_sec env) uid (uc_entry T uc, ac_entry T (apcache s), rq_entries (rpkiQueue (pcache s))) \<and> eod_ok T n s' \<and> eod_frame s s'"
proof -
  let ?k = "aspathCacheID e" and ?q = "rpkiQueue (pcache s)"
  note main = process_main_path [OF uc ac, of env ct]
  have same: "uc\<lparr>entries := entries uc\<rparr> = uc" by simp
  have v4: "vd ?k \<noteq> SRx_RESULT_DONOTUSE" using path_verdict_known [OF v] by (auto simp: aspa_results_def)
  have room: "length (rq_entries ?q) < 2 ^ 32 - 1" "length (rq_entries ?q) + n \<le> 2 ^ 32 - 1" using q(2) by simp_all
  have bound: "length (coalesce rq_merge uid RQ_ASPA (rq_entries ?q)) + n \<le> 2 ^ 32 - 1"
    using length_coalesce [of rq_merge uid RQ_ASPA "rq_entries ?q"] q(2) by linarith
  have propagate: "\<exists>es q'. propagate_aspa T uid (res\<lparr>aspaResult := x\<rparr>) (s\<lparr>apcache := ac'\<rparr>) = Inr (eod_server uc es ac' q' s) \<and>
      eod_view T (eod_server uc es ac' q' s) = ((uc_entry T uc)(uid \<mapsto> with_aspa x e), ac_entry T ac', coalesce rq_merge uid RQ_ASPA (rq_entries ?q)) \<and>
      eod_ok T n (eod_server uc es ac' q' s) \<and> eod_frame s (eod_server uc es ac' q' s)"
    if x: "x \<noteq> SRx_RESULT_DONOTUSE" "ac_ok T ac'" for x ac' res
  proof -
    let ?s = "s\<lparr>apcache := ac'\<rparr>"
    have s: "updateCache (pcache ?s) = Some uc" "rpkiQueue (pcache ?s) = ?q" "aspaResult (res\<lparr>aspaResult := x\<rparr>) = x" using uc(1) by simp_all
    obtain es q' where pr: "propagate_aspa T uid (res\<lparr>aspaResult := x\<rparr>) ?s =
          Inr (?s\<lparr>pcache := (pcache ?s)\<lparr>updateCache := Some (uc\<lparr>entries := es\<rparr>), rpkiQueue := q'\<rparr>\<rparr>)"
        "uc_ok T (uc\<lparr>entries := es\<rparr>)" "uc_entry T (uc\<lparr>entries := es\<rparr>) = (uc_entry T uc)(uid \<mapsto> with_aspa x e)"
        "rq_inv q'" "rq_entries q' = coalesce rq_merge uid RQ_ASPA (rq_entries ?q)"
      using propagate_ok [OF s(1) uc(2,3), of "res\<lparr>aspaResult := x\<rparr>", unfolded s(2,3)] x(1) q(1) room(1) by blast
    then have "propagate_aspa T uid (res\<lparr>aspaResult := x\<rparr>) ?s = Inr (eod_server uc es ac' q' s)"
      unfolding eod_server_same(4) [OF uc(1)] by simp
    then show ?thesis
      using eod_server_ok [OF uc(1) pr(2) x(2) pr(4), of n] bound unfolding pr(3,5) by blast
  qed
  show ?thesis
  proof (cases "pl_lastModified p < ct")
    case old: True
    obtain ac' where ac': "modifyAspaValidationResultToAspathCache T (apcache s) ?k (vd ?k) (Some ((path_list ?k p)\<lparr>apl_lastModified := now_sec env\<rparr>)) = Inr (True, ac')"
      "ac_ok T ac'" "ac_entry T ac' = (ac_entry T (apcache s))(?k \<mapsto> fresh_path (now_sec env) (vd ?k) p)"
      using ac_modify_ok [OF ac(1,2) v4, of "(path_list ?k p)\<lparr>apl_lastModified := now_sec env\<rparr>"] by (auto simp: fresh_path_def)
    show ?thesis
    proof (cases "vd ?k = pl_aspaResult p")
      case True
      have "process_ASPA_EndOfData_main T env ct uid s = Inr (1, eod_server uc (entries uc) ac' ?q s)"
        using main old v ac'(1) True unfolding eod_server_same(2) [OF uc(1)] by simp
      then show ?thesis
        using eod_server_ok [OF uc(1), of T "entries uc" ac' ?q n, unfolded same, OF uc(2) ac'(2) q(1) room(2)] True old ac(2,3) uc(3) ac'(3)
        by (simp add: eod_step_def Let_def)
    next
      case False
      show ?thesis using propagate [OF v4 ac'(2), of "srxResult e"] main old v ac'(1,3) False ac(2,3) uc(3) by (auto simp: eod_step_def Let_def)
    qed
  next
    case new: False
    show ?thesis
    proof (cases "aspaResult (srxResult e) = pl_aspaResult p")
      case True
      then show ?thesis
        using eod_server_ok [OF uc(1), of T "entries uc" "apcache s" ?q n, unfolded same eod_server_same(1) [OF uc(1)], OF uc(2) ac(1) q(1) room(2)]
          main new ac(2,3) uc(3) by (simp add: eod_step_def Let_def)
    next
      case False
      have "s\<lparr>apcache := apcache s\<rparr> = s" by simp
      from propagate [OF r ac(1), of "srxResult e", unfolded this] show ?thesis
        using main new False ac(2,3) uc(3) by (auto simp: eod_step_def Let_def)
    qed
  qed
qed

lemma eod_step_refines:
  assumes ok: "eod_ok T (Suc n) s"
    and vd: "\<And>k p. ac_entry T (apcache s) k = Some p \<Longrightarrow> path_verdict (aspaDB s) p = Inr (vd k)"
    and res: "\<And>k p. ac_entry T (apcache s) k = Some p \<Longrightarrow> pl_aspaResult p \<noteq> SRx_RESULT_DONOTUSE"
  shows "\<exists>r s'. process_ASPA_EndOfData_main T env ct uid s = Inr (r, s') \<and> eod_view T s' = eod_step vd ct (now_sec env) uid (eod_view T s) \<and>
    eod_ok T n s' \<and> eod_frame s s'"
proof -
  obtain uc where uc: "updateCache (pcache s) = Some uc" "uc_ok T uc" and ac: "ac_ok T (apcache s)"
    and q: "rq_inv (rpkiQueue (pcache s))" "length (rq_entries (rpkiQueue (pcache s))) + Suc n \<le> 2 ^ 32 - 1"
    using ok unfolding eod_ok_def by blast
  have same: "uc\<lparr>entries := entries uc\<rparr> = uc" by simp
  have view: "eod_view T s = (uc_entry T uc, ac_entry T (apcache s), rq_entries (rpkiQueue (pcache s)))" using uc(1) by (simp add: eod_view_def)
  have keep: "eod_ok T n s" "eod_frame s s"
    using eod_server_ok [OF uc(1), of T "entries uc" "apcache s" "rpkiQueue (pcache s)" n] uc(2) ac q unfolding eod_server_same(1) [OF uc(1)] same by auto
  show ?thesis
  proof (cases "\<exists>e p. uc_entry T uc uid = Some e \<and> aspathCacheID e \<noteq> 0 \<and> ac_entry T (apcache s) (aspathCacheID e) = Some p")
    case False
    then have "eod_step vd ct (now_sec env) uid (eod_view T s) = eod_view T s"
      unfolding view eod_step_def by (auto simp: Let_def split: option.splits)
    then show ?thesis using process_main_no_path [OF uc ac False, of env ct] keep by auto
  next
    case True
    then obtain e p where e: "uc_entry T uc uid = Some e" and p: "ac_entry T (apcache s) (aspathCacheID e) = Some p" "aspathCacheID e \<noteq> 0" by blast
    show ?thesis
      using process_main_refines [where vd = vd, OF uc e ac p q vd [OF p(1)] res [OF p(1)], of env ct] unfolding view by blast
  qed
qed

section \<open>All updates\<close>

text \<open>The path of an update, if it is cached.\<close>

definition cached_path :: "(u32 \<rightharpoonup> CacheEntry) \<Rightarrow> (u32 \<rightharpoonup> PathListCacheTable) \<Rightarrow> u32 \<rightharpoonup> u32" where
  "cached_path M A uid = (case M uid of None \<Rightarrow> None
     | Some e \<Rightarrow> if aspathCacheID e = 0 \<or> A (aspathCacheID e) = None then None else Some (aspathCacheID e))"

text \<open>The caches after the updates of the set were looked at: their paths and their results have the verdicts.\<close>

definition revalidated_results :: "(u32 \<Rightarrow> u8) \<Rightarrow> (u32 \<rightharpoonup> PathListCacheTable) \<Rightarrow> u32 set \<Rightarrow> (u32 \<rightharpoonup> CacheEntry) \<Rightarrow> u32 \<rightharpoonup> CacheEntry" where
  "revalidated_results vd A S M uid = (case cached_path M A uid of
      Some k \<Rightarrow> if uid \<in> S then map_option (with_aspa (vd k)) (M uid) else M uid
    | None \<Rightarrow> M uid)"

definition revalidated_paths :: "(u32 \<Rightarrow> u8) \<Rightarrow> nat \<Rightarrow> (u32 \<rightharpoonup> CacheEntry) \<Rightarrow> u32 set \<Rightarrow> (u32 \<rightharpoonup> PathListCacheTable) \<Rightarrow> u32 \<rightharpoonup> PathListCacheTable" where
  "revalidated_paths vd t M S A k = (if Some k \<in> cached_path M A ` S then map_option (fresh_path t (vd k)) (A k) else A k)"

text \<open>The updates whose result changes.\<close>

definition result_changes :: "(u32 \<Rightarrow> u8) \<Rightarrow> (u32 \<rightharpoonup> CacheEntry) \<Rightarrow> (u32 \<rightharpoonup> PathListCacheTable) \<Rightarrow> u32 \<Rightarrow> bool" where
  "result_changes vd M A uid = (case cached_path M A uid of None \<Rightarrow> False
     | Some k \<Rightarrow> map_option (aspaResult \<circ> srxResult) (M uid) \<noteq> Some (vd k))"

text \<open>Before the end of data every path was validated in an earlier second and the updates have the results of their paths.\<close>

definition settled :: "nat \<Rightarrow> (u32 \<rightharpoonup> CacheEntry) \<Rightarrow> (u32 \<rightharpoonup> PathListCacheTable) \<Rightarrow> bool" where
  "settled ct M A \<longleftrightarrow> (\<forall>k p. A k = Some p \<longrightarrow> pl_lastModified p < ct) \<and>
     (\<forall>uid e p. M uid = Some e \<longrightarrow> aspathCacheID e \<noteq> 0 \<longrightarrow> A (aspathCacheID e) = Some p \<longrightarrow> aspaResult (srxResult e) = pl_aspaResult p)"

lemma eod_step_revalidates:
  assumes "settled ct M A" "ct \<le> t" "uid \<notin> S"
  shows "eod_step vd ct t uid (revalidated_results vd A S M, revalidated_paths vd t M S A, Q) =
    (revalidated_results vd A (insert uid S) M, revalidated_paths vd t M (insert uid S) A,
     if result_changes vd M A uid then coalesce rq_merge uid RQ_ASPA Q else Q)"
proof (cases "cached_path M A uid")
  case None
  then have M: "revalidated_results vd A S M uid = M uid" by (simp add: revalidated_results_def)
  have A: "A (aspathCacheID e) = None" if "M uid = Some e" "aspathCacheID e \<noteq> 0" for e
    using None that by (auto simp: cached_path_def split: if_splits)
  then have A': "revalidated_paths vd t M S A (aspathCacheID e) = None" if "M uid = Some e" "aspathCacheID e \<noteq> 0" for e
    using that by (simp add: revalidated_paths_def)
  have "revalidated_results vd A (insert uid S) M = revalidated_results vd A S M"
    using None by (auto simp: revalidated_results_def fun_eq_iff split: option.splits)
  moreover have "revalidated_paths vd t M (insert uid S) A = revalidated_paths vd t M S A"
    using None by (auto simp: revalidated_paths_def fun_eq_iff)
  ultimately show ?thesis
    using None M A' by (auto simp: eod_step_def result_changes_def Let_def split: option.splits)
next
  case (Some k)
  then obtain e p where e: "M uid = Some e" "aspathCacheID e = k" "k \<noteq> 0" "A k = Some p"
    by (auto simp: cached_path_def split: option.splits if_splits)
  have now: "pl_lastModified p < ct" "aspaResult (srxResult e) = pl_aspaResult p"
    using assms(1) e unfolding settled_def by blast+
  have M: "revalidated_results vd A S M uid = Some e"
    using Some e(1) assms(3) by (simp add: revalidated_results_def)
  have M': "revalidated_results vd A (insert uid S) M = (revalidated_results vd A S M)(uid \<mapsto> with_aspa (vd k) e)"
    using Some e(1) by (auto simp: revalidated_results_def fun_eq_iff split: option.splits)
  have chg: "result_changes vd M A uid \<longleftrightarrow> pl_aspaResult p \<noteq> vd k"
    using Some e(1) now(2) by (auto simp: result_changes_def)
  have P: "revalidated_paths vd t M (insert uid S) A = (revalidated_paths vd t M S A)(k \<mapsto> fresh_path t (vd k) p)"
    using Some e(4) by (auto simp: revalidated_paths_def fun_eq_iff)
  have same: "(revalidated_results vd A S M)(uid \<mapsto> with_aspa (vd k) e) = revalidated_results vd A S M" if "pl_aspaResult p = vd k"
    using M that now(2) with_aspa_same [of e] by (auto simp: fun_eq_iff)
  show ?thesis
  proof (cases "Some k \<in> cached_path M A ` S")
    case True
    then have A: "revalidated_paths vd t M S A k = Some (fresh_path t (vd k) p)" using e(4) by (simp add: revalidated_paths_def)
    then have "revalidated_paths vd t M (insert uid S) A = revalidated_paths vd t M S A" unfolding P by (auto simp: fun_eq_iff)
    then show ?thesis using A M M' e chg same now assms(2) by (auto simp: eod_step_def Let_def simp del: fun_upd_apply)
  next
    case False
    then have A: "revalidated_paths vd t M S A k = Some p" using e(4) by (simp add: revalidated_paths_def)
    then show ?thesis using A P M M' e chg same now assms(2) by (auto simp: eod_step_def Let_def simp del: fun_upd_apply)
  qed
qed

lemma eod_fold_revalidates:
  assumes "settled ct M A" "ct \<le> t" "distinct us"
  shows "fold (eod_step vd ct t) us (M, A, Q) =
    (revalidated_results vd A (set us) M, revalidated_paths vd t M (set us) A,
     fold (\<lambda>uid. coalesce rq_merge uid RQ_ASPA) (filter (result_changes vd M A) us) Q)"
  using assms(3)
proof (induction us rule: rev_induct)
  case Nil
  show ?case by (auto simp: revalidated_results_def revalidated_paths_def fun_eq_iff split: option.splits)
next
  case (snoc u us)
  then show ?case using eod_step_revalidates [OF assms(1,2), of u "set us"] by simp
qed

text \<open>The code visits the addresses of the table.\<close>

definition uid_at :: "'t UpdateCache \<Rightarrow> addr \<Rightarrow> u32" where
  "uid_at uc a = (case entries uc a of Some e \<Rightarrow> ceUpdateID e | None \<Rightarrow> 0)"

definition verdicts :: "ASPA_DBManager \<Rightarrow> (u32 \<Rightarrow> u8) \<Rightarrow> (u32 \<rightharpoonup> PathListCacheTable) \<Rightarrow> bool" where
  "verdicts m vd A \<longleftrightarrow> (\<forall>k p. A k = Some p \<longrightarrow> path_verdict m p = Inr (vd k) \<and> pl_aspaResult p \<noteq> SRx_RESULT_DONOTUSE)"

lemma uid_at_entries:
  assumes "uc_ok T uc"
  shows "inj_on (uid_at uc) (set (allItems uc))" "uid_at uc ` set (allItems uc) = dom (uc_entry T uc)"
proof -
  have found: "\<exists>e. entries uc a = Some e \<and> a \<noteq> 0 \<and> HASH_FIND T (uid_at uc a) (table uc) = a" if "a \<in> set (allItems uc)" for a
    using uc_ok_item [OF assms that] by (auto simp: uid_at_def)
  show "inj_on (uid_at uc) (set (allItems uc))" by (rule inj_on_inverseI [of _ "\<lambda>k. HASH_FIND T k (table uc)"]) (use found in blast)
  have "uid_at uc a \<in> dom (uc_entry T uc)" if "a \<in> set (allItems uc)" for a
    using found [OF that] by (auto simp: uc_entry_def Let_def)
  moreover have "k \<in> uid_at uc ` set (allItems uc)" if "uc_entry T uc k = Some e" for k e
  proof -
    from assms that obtain a where "entries uc a = Some e" "ceUpdateID e = k" "a \<in> set (allItems uc)" by (rule uc_entry_Some)
    then show ?thesis by (auto simp: uid_at_def intro!: image_eqI [of _ _ a])
  qed
  ultimately show "uid_at uc ` set (allItems uc) = dom (uc_entry T uc)" by blast
qed

lemma verdicts_step:
  assumes "verdicts m vd A" "eod_step vd ct t uid (M, A, Q) = (M', A', Q')"
  shows "verdicts m vd A'"
proof -
  have v4: "vd k \<noteq> SRx_RESULT_DONOTUSE" if "A k = Some p" for k p
    using assms(1) that path_verdict_known [of m p "vd k"] by (auto simp: verdicts_def aspa_results_def)
  have "A' = A \<or> (\<exists>k p. A k = Some p \<and> A' = A(k \<mapsto> fresh_path t (vd k) p))"
    using assms(2) by (auto simp: eod_step_def Let_def split: option.splits if_splits) metis
  then show ?thesis using assms(1) v4 unfolding verdicts_def by (auto split: if_splits)
qed

lemma uid_at_frame:
  assumes "eod_frame s s'" "updateCache (pcache s) = Some uc" "uc_ok T uc" "updateCache (pcache s') = Some uc'" "uc_ok T uc'"
  shows "allItems uc' = allItems uc" "\<And>a. a \<in> set (allItems uc) \<Longrightarrow> uid_at uc' a = uid_at uc a"
proof -
  obtain es where uc': "uc' = uc\<lparr>entries := es\<rparr>" using assms(1,2,4) unfolding eod_frame_def by auto
  then show "allItems uc' = allItems uc" by simp
  fix a assume a: "a \<in> set (allItems uc)"
  then obtain e where e: "a \<noteq> 0" "entries uc a = Some e" "HASH_FIND T (ceUpdateID e) (table uc) = a" using uc_ok_item [OF assms(3)] by blast
  then have "\<exists>e'. entries uc' a = Some e' \<and> ceUpdateID e' = ceUpdateID e"
    using uc_ok_found(2) [OF assms(5), of "ceUpdateID e"] uc' by auto
  then show "uid_at uc' a = uid_at uc a" using e(2) by (auto simp: uid_at_def)
qed

lemma eod_fold_refines:
  assumes "eod_ok T (length as) s" "verdicts (aspaDB s) vd (ac_entry T (apcache s))" "updateCache (pcache s) = Some uc" "set as \<subseteq> set (allItems uc)"
  shows "\<exists>s'. cfold (process_ASPA_entry T env ct) as s = Inr s' \<and>
    eod_view T s' = fold (eod_step vd ct (now_sec env)) (map (uid_at uc) as) (eod_view T s) \<and> eod_ok T 0 s' \<and> eod_frame s s'"
  using assms
proof (induction as arbitrary: s uc)
  case Nil
  have "uc\<lparr>entries := entries uc\<rparr> = uc" by simp
  with Nil have "eod_frame s s" using eod_server_ok(2) [of s uc T "entries uc" "apcache s" "rpkiQueue (pcache s)" 0, unfolded eod_server_same(1) [OF Nil(3)]]
    by (auto simp: eod_ok_def)
  with Nil show ?case by simp
next
  case (Cons a as)
  have ok: "uc_ok T uc" using Cons.prems(1,3) unfolding eod_ok_def by auto
  have a: "a \<in> set (allItems uc)" "set as \<subseteq> set (allItems uc)" using Cons.prems(4) by auto
  then obtain e where e: "a \<noteq> 0" "entries uc a = Some e" using uc_ok_item [OF ok] by blast
  then have uid: "entry_at uc a = Inr e" "uid_at uc a = ceUpdateID e" by (simp_all add: entry_at_def uid_at_def)
  have "eod_ok T (Suc (length as)) s" using Cons.prems(1) by simp
  then obtain r s1 where s1: "process_ASPA_EndOfData_main T env ct (ceUpdateID e) s = Inr (r, s1)"
    "eod_view T s1 = eod_step vd ct (now_sec env) (ceUpdateID e) (eod_view T s)" "eod_ok T (length as) s1" "eod_frame s s1"
    using eod_step_refines [where vd = vd] Cons.prems(2) unfolding verdicts_def by blast
  obtain uc1 where uc1: "updateCache (pcache s1) = Some uc1" "uc_ok T uc1" using s1(3) unfolding eod_ok_def by blast
  note same = uid_at_frame [OF s1(4) Cons.prems(3) ok uc1]
  have db: "aspaDB s1 = aspaDB s" using s1(4) unfolding eod_frame_def by auto
  have "verdicts (aspaDB s1) vd (ac_entry T (apcache s1))"
    using verdicts_step [OF Cons.prems(2) s1(2) [unfolded eod_view_def, symmetric]] unfolding db .
  then obtain s' where s': "cfold (process_ASPA_entry T env ct) as s1 = Inr s'" "eod_ok T 0 s'" "eod_frame s1 s'"
    "eod_view T s' = fold (eod_step vd ct (now_sec env)) (map (uid_at uc1) as) (eod_view T s1)"
    using Cons.IH [OF s1(3) _ uc1(1)] a(2) same(1) by auto
  have "map (uid_at uc1) as = map (uid_at uc) as" using same(2) a(2) by (auto simp: subset_iff)
  moreover have "process_ASPA_entry T env ct a s = Inr s1" using s1(1) uid(1) Cons.prems(3) by (simp add: process_ASPA_entry_def)
  ultimately show ?case using s' s1(2) uid(2) eod_frame_trans [OF s1(4) s'(3)] by (simp del: map_eq_conv)
qed

section \<open>The notifications\<close>

text \<open>What is reported about an update: the parts named by the reason.\<close>

definition report :: "env \<Rightarrow> CacheEntry \<Rightarrow> u32 \<Rightarrow> u32 \<Rightarrow> SRxValidationResult" where
  "report env e uid why =
     (let roa = why AND RQ_ROA = RQ_ROA; key = why AND RQ_KEY = RQ_KEY \<and> bgpsec_path (pathData e) \<noteq> None; aspa = why AND RQ_ASPA = RQ_ASPA
      in \<lparr>valType = (if roa then VRT_ROA else 0) OR (if key then VRT_BGPSEC else 0) OR (if aspa then VRT_ASPA else 0),
          valResult = \<lparr>roaResult = if roa then roaResult (srxResult e) else SRx_RESULT_DONOTUSE,
            bgpsecResult = if key then validateSignature (crypto_validate env) (pathData e) else SRx_RESULT_DONOTUSE,
            aspaResult = if aspa then aspaResult (srxResult e) else SRx_RESULT_DONOTUSE\<rparr>,
          valUpdateID = uid\<rparr>)"

definition messages :: "'t uthash \<Rightarrow> env \<Rightarrow> ProxyTable \<Rightarrow> 't UpdateCache \<Rightarrow> u32 \<times> u32 \<Rightarrow> (addr \<times> srx_msg) list" where
  "messages T env pm uc = (\<lambda>(uid, why). case uc_entry T uc uid of None \<Rightarrow> []
     | Some e \<Rightarrow> map (\<lambda>c. (socket (mapping_at pm c), notification (report env e uid why))) (told_clients env pm uc e))"

lemma notice_known:
  assumes uc: "updateCache (pcache s) = Some uc" "uc_ok T uc" "uc_entry T uc (updateID el) = Some e"
  shows "notice T env el s = Inr (report env e (updateID el) (reason el), s)"
proof -
  have same: "s\<lparr>pcache := (pcache s)\<lparr>updateCache := Some uc\<rparr>\<rparr> = s" using uc(1) by (cases s; cases "pcache s") simp
  obtain a where "a \<noteq> 0" "entry_at uc a = Inr e" "tableFind T uc (updateID el) = Inr (a, uc)" using uc(2,3) by (rule uc_entry_Some)
  then have "getUpdateData T uc (updateID el) = Inr (Some (pathData e), uc)" by (simp add: getUpdateData_def)
  then have key: "key_notice T env why (updateID el) v s = Inr (if why AND RQ_KEY = RQ_KEY \<and> bgpsec_path (pathData e) \<noteq> None
      then v\<lparr>valType := valType v OR VRT_BGPSEC, valResult := (valResult v)\<lparr>bgpsecResult := validateSignature (crypto_validate env) (pathData e)\<rparr>\<rparr>
      else v, s)" for why v
    using uc(1) same by (simp add: key_notice_def on_updCache_def)
  have roa: "roa_notice T why (updateID el) v s = Inr (if why AND RQ_ROA = RQ_ROA
      then v\<lparr>valType := valType v OR VRT_ROA, valResult := (valResult v)\<lparr>roaResult := roaResult (srxResult e)\<rparr>\<rparr> else v, s)" for why v
    unfolding roa_notice_def query_update_known [OF uc] by simp
  have aspa: "aspa_notice T why (updateID el) v s = Inr (if why AND RQ_ASPA = RQ_ASPA
      then v\<lparr>valType := valType v OR VRT_ASPA, valResult := (valResult v)\<lparr>aspaResult := aspaResult (srxResult e)\<rparr>\<rparr> else v, s)" for why v
    unfolding aspa_notice_def query_update_known [OF uc] by simp
  show ?thesis unfolding notice_def roa key aspa cbind_simps prod.case report_def Let_def
    by (simp only: sum.inject prod.inject simp_thms) (auto split: if_splits)
qed

lemma notify_loop_ok:
  assumes "rq_inv (rpkiQueue (pcache s))" "rq_entries (rpkiQueue (pcache s)) = l" "updateCache (pcache s) = Some uc" "uc_ok T uc"
    "resChangedCallback uc" "fst ` set l \<subseteq> dom (uc_entry T uc)"
  shows "\<exists>q. notify_loop T env el s = Some (Inr (s\<lparr>pcache := (pcache s)\<lparr>rpkiQueue := q\<rparr>,
      sender := (sender s)\<lparr>sent := sent (sender s) @ concat (map (messages T env (proxies s) uc) l)\<rparr>\<rparr>)) \<and> rq_inv q \<and> rq_entries q = []"
  using assms
proof (induction l arbitrary: s el)
  case Nil
  have "rq_dequeue (rpkiQueue (pcache s)) (Some el) = Inr (False, rpkiQueue (pcache s), Some el)" using rq.deq_empty [OF Nil(1,2)] .
  then show ?case using Nil(1,2) by (subst notify_loop.simps) (auto intro!: exI [of _ "rpkiQueue (pcache s)"])
next
  case (Cons x l)
  obtain uid why where x: "x = (uid, why)" by (cases x)
  obtain e where e: "uc_entry T uc uid = Some e" using Cons.prems(6) x by auto
  obtain q1 el1 where q1: "rq_dequeue (rpkiQueue (pcache s)) (Some el) = Inr (True, q1, Some el1)" "(updateID el1, reason el1) = x" "rq_inv q1" "rq_entries q1 = l"
    using rq.deq_next [OF Cons.prems(1,2), of el] by auto
  let ?s1 = "s\<lparr>pcache := (pcache s)\<lparr>rpkiQueue := q1\<rparr>\<rparr>"
  have uc: "updateCache (pcache ?s1) = Some uc" "uc_entry T uc (updateID el1) = Some e" using Cons.prems(3) e q1(2) x by simp_all
  have not: "notice T env el1 ?s1 = Inr (report env e uid why, ?s1)" using notice_known [OF uc(1) Cons.prems(4) uc(2)] q1(2) x by simp
  have uid: "valUpdateID (report env e uid why) = uid" by (simp add: report_def Let_def)
  let ?s2 = "?s1\<lparr>sender := (sender s)\<lparr>sent := sent (sender s) @ messages T env (proxies s) uc x\<rparr>\<rparr>"
  obtain b where b: "broadcastResult T env (report env e uid why) ?s1 = Inr (b, ?s2)"
    using broadcast_ok [OF uc(1) Cons.prems(4), of "report env e uid why" e env] e uid x by (simp add: messages_def)
  have "notify_loop T env el s = notify_loop T env el1 ?s2"
    using q1(1) not b Cons.prems(3,5) by (subst notify_loop.simps) simp
  moreover have "fst ` set l \<subseteq> dom (uc_entry T uc)" using Cons.prems(6) by simp
  ultimately show ?case using Cons.IH [of ?s2 el1] q1(3,4) Cons.prems(3-5) by simp
qed

section \<open>The end of data\<close>

lemma process_ASPA_ok:
  fixes env :: env
  assumes ok: "eod_ok T (length (HASH_ITER T (table uc))) s" and uc: "updateCache (pcache s) = Some uc"
    and iter: "distinct (HASH_ITER T (table uc))" "set (HASH_ITER T (table uc)) = set (allItems uc)"
    and v: "verdicts (aspaDB s) vd (ac_entry T (apcache s))"
    and old: "settled ct (uc_entry T uc) (ac_entry T (apcache s))" "ct \<le> now_sec env"
  defines "all \<equiv> dom (uc_entry T uc)"
  shows "\<exists>s' uc'. process_ASPA_EndOfData T env ct s = Inr s' \<and> eod_ok T 0 s' \<and> eod_frame s s' \<and> updateCache (pcache s') = Some uc' \<and>
    uc_entry T uc' = revalidated_results vd (ac_entry T (apcache s)) all (uc_entry T uc) \<and>
    ac_entry T (apcache s') = revalidated_paths vd (now_sec env) (uc_entry T uc) all (ac_entry T (apcache s)) \<and>
    rq_entries (rpkiQueue (pcache s')) = fold (\<lambda>uid. coalesce rq_merge uid RQ_ASPA)
      (filter (result_changes vd (uc_entry T uc) (ac_entry T (apcache s))) (map (uid_at uc) (HASH_ITER T (table uc)))) (rq_entries (rpkiQueue (pcache s)))"
proof -
  let ?as = "HASH_ITER T (table uc)"
  have ucok: "uc_ok T uc" using ok uc unfolding eod_ok_def by auto
  have view: "eod_view T s = (uc_entry T uc, ac_entry T (apcache s), rq_entries (rpkiQueue (pcache s)))" using uc by (simp add: eod_view_def)
  have us: "distinct (map (uid_at uc) ?as)" "set (map (uid_at uc) ?as) = all"
    using uid_at_entries [OF ucok] iter unfolding all_def by (auto simp: distinct_map intro: inj_on_subset)
  obtain s' where s': "process_ASPA_EndOfData T env ct s = Inr s'" "eod_ok T 0 s'" "eod_frame s s'"
    "eod_view T s' = fold (eod_step vd ct (now_sec env)) (map (uid_at uc) ?as) (eod_view T s)"
    using eod_fold_refines [OF ok v uc, of env ct] iter(2) uc unfolding process_ASPA_EndOfData_def by auto
  obtain uc' where uc': "updateCache (pcache s') = Some uc'" using s'(2) unfolding eod_ok_def by blast
  show ?thesis
    using s' uc' eod_fold_revalidates [OF old us(1)] unfolding view us(2) by (auto simp: eod_view_def)
qed

text \<open>The queued identifiers, and what is sent for them.\<close>

lemma coalesce_new: "i \<notin> fst ` set l \<Longrightarrow> coalesce merge i r l = l @ [(i, r)]"
  by (induction l) auto

lemma fold_coalesce_fresh:
  "distinct us \<Longrightarrow> set us \<inter> fst ` set l = {} \<Longrightarrow> fold (\<lambda>u. coalesce merge u r) us l = l @ map (\<lambda>u. (u, r)) us"
proof (induction us arbitrary: l)
  case (Cons u us)
  then show ?case using Cons.IH [of "l @ [(u, r)]"] by (simp add: coalesce_new image_Un)
qed simp

lemma dom_revalidated: "dom (revalidated_results vd A S M) = dom M"
  by (auto simp: revalidated_results_def dom_def split: option.splits)

lemma messages_revalidated:
  assumes chg: "result_changes vd (uc_entry T uc) A uid"
    and res: "uc_entry T (uc\<lparr>entries := es\<rparr>) = revalidated_results vd A (dom (uc_entry T uc)) (uc_entry T uc)"
  shows "messages T env pm (uc\<lparr>entries := es\<rparr>) (uid, RQ_ASPA) = (case uc_entry T uc uid of None \<Rightarrow> [] | Some e \<Rightarrow>
      map (\<lambda>c. (socket (mapping_at pm c), VerifyNotification 4 0 SRx_RESULT_DONOTUSE SRx_RESULT_DONOTUSE (vd (aspathCacheID e)) (htonl uid)))
          (told_clients env pm uc e))"
proof -
  obtain k where k: "cached_path (uc_entry T uc) A uid = Some k" using chg by (auto simp: result_changes_def split: option.splits)
  then obtain e where e: "uc_entry T uc uid = Some e" "aspathCacheID e = k" by (auto simp: cached_path_def split: option.splits if_splits)
  have "uc_entry T (uc\<lparr>entries := es\<rparr>) uid = Some (with_aspa (vd k) e)" using k e(1) unfolding res by (simp add: revalidated_results_def dom_def)
  moreover have "told_clients env pm (uc\<lparr>entries := es\<rparr>) (with_aspa (vd k) e) = told_clients env pm uc e"
    by (simp add: told_clients_def with_aspa_def entry_clients_def)
  moreover have "notification (report env (with_aspa (vd k) e) uid RQ_ASPA) =
      VerifyNotification 4 0 SRx_RESULT_DONOTUSE SRx_RESULT_DONOTUSE (vd k) (htonl uid)"
    by (simp add: notification_def report_def Let_def)
  ultimately show ?thesis using e by (simp add: messages_def del: SRx_RESULT_DONOTUSE_def RQ_ASPA_def)
qed

section \<open>Properties\<close>

text \<open>The ASPA part of the end of data. If all stored paths were validated in an earlier second and the updates have the results
  of their paths, then \<open>process_ASPA_EndOfData\<close> succeeds; every update with a cached path ends with the verdict
  the new database gives for the path, and so does the path; all else in the caches is as before, and exactly
  the updates whose result changed are queued for a notification, in the order of the table. The table lists each entry of the
  cache once, and the queue has room for the identifiers.\<close>

lemma process_ASPA_EndOfData_spec:
  fixes env :: env
  assumes ok: "eod_ok T (length (HASH_ITER T (table uc))) s" and uc: "updateCache (pcache s) = Some uc"
    and iter: "distinct (HASH_ITER T (table uc))" "set (HASH_ITER T (table uc)) = set (allItems uc)"
    and v: "verdicts (aspaDB s) vd (ac_entry T (apcache s))"
    and old: "settled ct (uc_entry T uc) (ac_entry T (apcache s))" "ct \<le> now_sec env"
  defines "all \<equiv> dom (uc_entry T uc)"
  shows "\<exists>s' uc'. process_ASPA_EndOfData T env ct s = Inr s' \<and> eod_ok T 0 s' \<and> eod_frame s s' \<and> updateCache (pcache s') = Some uc' \<and>
    uc_entry T uc' = revalidated_results vd (ac_entry T (apcache s)) all (uc_entry T uc) \<and>
    ac_entry T (apcache s') = revalidated_paths vd (now_sec env) (uc_entry T uc) all (ac_entry T (apcache s)) \<and>
    rq_entries (rpkiQueue (pcache s')) = fold (\<lambda>uid. coalesce rq_merge uid RQ_ASPA)
      (filter (result_changes vd (uc_entry T uc) (ac_entry T (apcache s))) (map (uid_at uc) (HASH_ITER T (table uc)))) (rq_entries (rpkiQueue (pcache s)))"
  using process_ASPA_ok [OF ok uc iter v old] unfolding all_def by blast

lemma handleEndOfData_ok:
  fixes env :: env
  assumes ok: "eod_ok T (length (HASH_ITER T (table uc))) s" and uc: "updateCache (pcache s) = Some uc"
    and iter: "distinct (HASH_ITER T (table uc))" "set (HASH_ITER T (table uc)) = set (allItems uc)"
    and v: "verdicts (aspaDB s) vd (ac_entry T (apcache s))"
    and old: "settled ct (uc_entry T uc) (ac_entry T (apcache s))" "ct \<le> now_sec env"
    and queue: "rq_entries (rpkiQueue (pcache s)) = []" and cb: "resChangedCallback uc"
  defines "told \<equiv> filter (result_changes vd (uc_entry T uc) (ac_entry T (apcache s))) (map (uid_at uc) (HASH_ITER T (table uc)))"
  shows "\<exists>s' uc'. handleEndOfData T env g ct s = Some (Inr s') \<and> aspaDB s' = aspaDB s \<and> updateCache (pcache s') = Some uc' \<and> rq_entries (rpkiQueue (pcache s')) = [] \<and>
    uc_entry T uc' = revalidated_results vd (ac_entry T (apcache s)) (dom (uc_entry T uc)) (uc_entry T uc) \<and>
    sent (sender s') = sent (sender s) @ concat (map (\<lambda>uid. case uc_entry T uc uid of None \<Rightarrow> [] | Some e \<Rightarrow>
      map (\<lambda>c. (socket (mapping_at (proxies s) c),
             VerifyNotification 4 0 SRx_RESULT_DONOTUSE SRx_RESULT_DONOTUSE (vd (aspathCacheID e)) (htonl uid)))
          (told_clients env (proxies s) uc e)) told)"
proof -
  obtain s1 uc1 where s1: "process_ASPA_EndOfData T env ct s = Inr s1" "eod_ok T 0 s1" "eod_frame s s1" "updateCache (pcache s1) = Some uc1"
    "uc_entry T uc1 = revalidated_results vd (ac_entry T (apcache s)) (dom (uc_entry T uc)) (uc_entry T uc)"
    "rq_entries (rpkiQueue (pcache s1)) = fold (\<lambda>uid. coalesce rq_merge uid RQ_ASPA) told (rq_entries (rpkiQueue (pcache s)))"
    using process_ASPA_ok [OF ok uc iter v old] unfolding told_def by blast
  have uc1: "uc_ok T uc1" "rq_inv (rpkiQueue (pcache s1))" using s1(2,4) unfolding eod_ok_def by auto
  obtain es where es: "uc1 = uc\<lparr>entries := es\<rparr>" "proxies s1 = proxies s" "sender s1 = sender s" "aspaDB s1 = aspaDB s"
    using s1(3,4) uc unfolding eod_frame_def by auto
  have "uc_ok T uc" using ok uc unfolding eod_ok_def by auto
  then have "distinct told" "set told \<subseteq> dom (uc_entry T uc)"
    using uid_at_entries [of T uc] iter unfolding told_def by (auto simp: distinct_map intro: inj_on_subset intro!: distinct_filter)
  then have l: "rq_entries (rpkiQueue (pcache s1)) = map (\<lambda>uid. (uid, RQ_ASPA)) told" "fst ` set (map (\<lambda>uid. (uid, RQ_ASPA)) told) \<subseteq> dom (uc_entry T uc1)"
    using s1(6) queue fold_coalesce_fresh [of told "[]" rq_merge RQ_ASPA] unfolding s1(5) dom_revalidated by (auto simp: image_iff)
  have "resChangedCallback uc1" using cb es(1) by simp
  from notify_loop_ok [OF uc1(2) l(1) s1(4) uc1(1) this l(2), of env g]
  obtain q where q: "notify_loop T env g s1 = Some (Inr (s1\<lparr>pcache := (pcache s1)\<lparr>rpkiQueue := q\<rparr>,
      sender := (sender s1)\<lparr>sent := sent (sender s1) @ concat (map (messages T env (proxies s1) uc1) (map (\<lambda>uid. (uid, RQ_ASPA)) told))\<rparr>\<rparr>))"
    "rq_entries q = []" by blast
  have "handleEndOfData T env g ct s = notify_loop T env g s1" using s1(1) by (simp add: handleEndOfData_def tbind_def)
  moreover have "messages T env (proxies s1) uc1 (uid, RQ_ASPA) = (case uc_entry T uc uid of None \<Rightarrow> [] | Some e \<Rightarrow>
      map (\<lambda>c. (socket (mapping_at (proxies s) c), VerifyNotification 4 0 SRx_RESULT_DONOTUSE SRx_RESULT_DONOTUSE (vd (aspathCacheID e)) (htonl uid)))
          (told_clients env (proxies s) uc e))" if "uid \<in> set told" for uid
    using that messages_revalidated [OF _ s1(5) [unfolded es(1)], of uid env "proxies s"] unfolding told_def es(1,2) by simp
  ultimately show ?thesis using q s1(4,5) es(3,4) by (auto simp: comp_def cong: map_cong)
qed

text \<open>C3. The end of data reaches the clients. Assume that the update cache and the AS path cache are well formed, that every cached path was validated in a second before
  the time \<open>ct\<close> of the end of data, which is not after the current time, and has a verdict \<open>vd\<close> of \<open>validateASPA\<close> in the present database, that each update has the ASPA result of its
  path, that no notification is pending and the queue has room for all updates, and that the callback is registered. Then \<open>handleEndOfData\<close> returns with an empty queue; every update with a cached path has
  the new verdict; and for exactly the updates whose verdict changed, in the order of the table, a notification with the new ASPA verdict, the other
  results marked as not to be used, was sent to the \<open>told_clients\<close> of the update: its connected clients that can be reached, or none if its client array is longer than the expected number
  of clients.\<close>

theorem handleEndOfData_reports:
  fixes env :: env
  assumes ok: "eod_ok T (length (HASH_ITER T (table uc))) s" and uc: "updateCache (pcache s) = Some uc"
    and iter: "distinct (HASH_ITER T (table uc))" "set (HASH_ITER T (table uc)) = set (allItems uc)"
    and v: "verdicts (aspaDB s) vd (ac_entry T (apcache s))"
    and old: "settled ct (uc_entry T uc) (ac_entry T (apcache s))" "ct \<le> now_sec env"
    and queue: "rq_entries (rpkiQueue (pcache s)) = []" and cb: "resChangedCallback uc"
  defines "told \<equiv> filter (result_changes vd (uc_entry T uc) (ac_entry T (apcache s))) (map (uid_at uc) (HASH_ITER T (table uc)))"
  shows "\<exists>s' uc'. handleEndOfData T env g ct s = Some (Inr s') \<and> updateCache (pcache s') = Some uc' \<and> rq_entries (rpkiQueue (pcache s')) = [] \<and>
    uc_entry T uc' = revalidated_results vd (ac_entry T (apcache s)) (dom (uc_entry T uc)) (uc_entry T uc) \<and>
    sent (sender s') = sent (sender s) @ concat (map (\<lambda>uid. case uc_entry T uc uid of None \<Rightarrow> [] | Some e \<Rightarrow>
      map (\<lambda>c. (socket (mapping_at (proxies s) c),
             VerifyNotification 4 0 SRx_RESULT_DONOTUSE SRx_RESULT_DONOTUSE (vd (aspathCacheID e)) (htonl uid)))
          (told_clients env (proxies s) uc e)) told)"
  using handleEndOfData_ok [OF ok uc iter v old queue cb, of g] unfolding told_def by blast

text \<open>The server of the examples: update 9 of the clients 5 and 7 with the path 77, validated long ago with an undefined result.\<close>

definition eod_sample :: "(prefix_t list, (u32 \<Rightarrow> addr) \<times> addr list) Server" where
  "eod_sample = sample_server\<lparr>pcache := (pcache sample_server)\<lparr>rpkiQueue := rq_createQueue True\<rparr>, proxies := two_proxies\<rparr>"

lemma eod_sample_sel:
  "updateCache (pcache eod_sample) = Some open_cache" "apcache eod_sample = one_path" "rpkiQueue (pcache eod_sample) = rq_createQueue True"
  "proxies eod_sample = two_proxies" "sent (sender eod_sample) = []"
  by (simp_all add: eod_sample_def sample_server_def)

lemma eod_sample_entries: "uc_entry fun_table open_cache = [9 \<mapsto> open_entry]" "ac_entry fun_table one_path = [77 \<mapsto> one_hop]"
  using open_cache_ok(2) one_path_ok(2) by (auto simp: fun_eq_iff)

lemma eod_sample_ok:
  "eod_ok fun_table (length (HASH_ITER fun_table (table open_cache))) eod_sample" "distinct (HASH_ITER fun_table (table open_cache))"
  "set (HASH_ITER fun_table (table open_cache)) = set (allItems open_cache)"
  "verdicts (aspaDB eod_sample) (\<lambda>_. SRx_RESULT_VALID) (ac_entry fun_table (apcache eod_sample))"
  "settled 100 (uc_entry fun_table open_cache) (ac_entry fun_table (apcache eod_sample))" "100 \<le> now_sec sample_env"
proof -
  have iter: "HASH_ITER fun_table (table open_cache) = [4]" "allItems open_cache = [4]" by (simp_all add: open_cache_def sample_cache_def)
  then show "distinct (HASH_ITER fun_table (table open_cache))" "set (HASH_ITER fun_table (table open_cache)) = set (allItems open_cache)" by simp_all
  show "eod_ok fun_table (length (HASH_ITER fun_table (table open_cache))) eod_sample"
    unfolding eod_ok_def eod_sample_sel iter using open_cache_ok(1) one_path_ok(1) rq_create_inv by simp
  show "verdicts (aspaDB eod_sample) (\<lambda>_. SRx_RESULT_VALID) (ac_entry fun_table (apcache eod_sample))"
    unfolding verdicts_def eod_sample_sel eod_sample_entries using one_hop_verdict by (simp add: one_hop_def)
  show "settled 100 (uc_entry fun_table open_cache) (ac_entry fun_table (apcache eod_sample))"
    unfolding settled_def eod_sample_sel eod_sample_entries by (simp add: one_hop_def open_entry_def sample_entry_def)
  show "100 \<le> now_sec sample_env" by (simp add: sample_env_def)
qed

lemma eod_sample_changes:
  "result_changes (\<lambda>_. SRx_RESULT_VALID) (uc_entry fun_table open_cache) (ac_entry fun_table (apcache eod_sample)) 9"
  "map (uid_at open_cache) (HASH_ITER fun_table (table open_cache)) = [9]"
  unfolding eod_sample_sel eod_sample_entries
  by (simp_all add: result_changes_def cached_path_def open_entry_def sample_entry_def uid_at_def open_cache_def sample_cache_def)

theorem process_ASPA_EndOfData_spec_witness:
  "\<exists>s' uc'. process_ASPA_EndOfData fun_table sample_env 100 eod_sample = Inr s' \<and> updateCache (pcache s') = Some uc' \<and>
     uc_entry fun_table uc' 9 = Some (with_aspa SRx_RESULT_VALID open_entry) \<and>
     ac_entry fun_table (apcache s') 77 = Some (fresh_path 100 SRx_RESULT_VALID one_hop) \<and> rq_entries (rpkiQueue (pcache s')) = [(9, RQ_ASPA)]"
proof -
  have cached: "cached_path [9 \<mapsto> open_entry] [77 \<mapsto> one_hop] 9 = Some 77" by (simp add: cached_path_def open_entry_def sample_entry_def)
  have img: "cached_path [9 \<mapsto> open_entry] [77 \<mapsto> one_hop] ` dom [9 \<mapsto> open_entry] = {Some 77}" using cached by simp
  have now: "now_sec sample_env = 100" by (simp add: sample_env_def)
  from process_ASPA_EndOfData_spec [OF eod_sample_ok(1) eod_sample_sel(1) eod_sample_ok(2-6)] show ?thesis
    unfolding eod_sample_changes(2) now using eod_sample_changes(1) cached img rq_create_inv(2)
    by (auto simp: eod_sample_sel eod_sample_entries revalidated_results_def revalidated_paths_def simp del: SRx_RESULT_VALID_def)
qed

theorem handleEndOfData_reports_witness:
  "\<exists>s'. handleEndOfData fun_table sample_env \<lparr>reason = 0, updateID = 0\<rparr> 100 eod_sample = Some (Inr s') \<and>
     sent (sender s') = [(6, VerifyNotification 4 0 SRx_RESULT_DONOTUSE SRx_RESULT_DONOTUSE SRx_RESULT_VALID (htonl 9))]"
proof -
  have q: "rq_entries (rpkiQueue (pcache eod_sample)) = []" "resChangedCallback open_cache"
    unfolding eod_sample_sel using rq_create_inv(2) by (simp_all add: open_cache_def sample_cache_def)
  have told: "told_clients sample_env two_proxies open_cache open_entry = [7]" "socket (mapping_at two_proxies 7) = 6"
    using sample_entry_wf(2) by (simp_all add: told_clients_def entry_clients_def open_entry_def sample_entry_def open_cache_def sample_cache_def
      reachable_client_def mapping_at_def two_proxies_def sample_env_def zero_mapping_def)
  from handleEndOfData_reports [OF eod_sample_ok(1) eod_sample_sel(1) eod_sample_ok(2-6) q, of "\<lparr>reason = 0, updateID = 0\<rparr>"] show ?thesis
    unfolding eod_sample_changes(2) using eod_sample_changes(1) told
    by (auto simp: eod_sample_sel eod_sample_entries simp del: SRx_RESULT_VALID_def SRx_RESULT_DONOTUSE_def)
qed

end
