(* ===== verification/Ordered_List.thy ===== *)
theory Ordered_List
  imports Prelude
begin

text \<open>
  The ordered linked lists of the SKI cache. All four of them are searched by the same loop: it goes on while the key is larger than that
  of the element, stops at an equal one, and at the first larger one, or at the end, a new element is inserted.
  The locale states what the loop needs of the comparison; its lemmas say that such a list is a finite map.
\<close>

section \<open>Walks\<close>

text \<open>The comparison of the key with an element is negative, zero or positive. The result is the position where the walk stops, and whether
  the key was found there.\<close>

fun locate :: "('a \<Rightarrow> int) \<Rightarrow> 'a list \<Rightarrow> nat \<times> bool" where
  "locate c [] = (0, False)"
| "locate c (x # xs) = (if c x < 0 then (0, False) else if c x = 0 then (0, True) else let (i, found) = locate c xs in (Suc i, found))"

definition insert_at :: "nat \<Rightarrow> 'a \<Rightarrow> 'a list \<Rightarrow> 'a list" where
  "insert_at i x xs = take i xs @ x # drop i xs"

definition remove_at :: "nat \<Rightarrow> 'a list \<Rightarrow> 'a list" where
  "remove_at i xs = take i xs @ drop (Suc i) xs"

definition cmp_word :: "'w::len word \<Rightarrow> 'w word \<Rightarrow> int" where
  "cmp_word v w = (if v < w then - 1 else if v = w then 0 else 1)"

definition lookup :: "('k \<Rightarrow> 'k \<Rightarrow> int) \<Rightarrow> ('a \<Rightarrow> 'k) \<Rightarrow> 'k \<Rightarrow> 'a list \<Rightarrow> 'a option" where
  "lookup cmp key k xs = (case locate (\<lambda>x. cmp k (key x)) xs of (i, found) \<Rightarrow> if found then Some (xs ! i) else None)"

definition ordered :: "('k \<Rightarrow> 'k \<Rightarrow> int) \<Rightarrow> ('a \<Rightarrow> 'k) \<Rightarrow> ('k \<Rightarrow> bool) \<Rightarrow> 'a list \<Rightarrow> bool" where
  "ordered cmp key ok xs \<longleftrightarrow> sorted_wrt (\<lambda>x y. cmp (key x) (key y) < 0) xs \<and> (\<forall>x \<in> set xs. ok (key x))"

lemma set_insert_at: "set (insert_at i x xs) = insert x (set xs)"
  unfolding insert_at_def by (metis Un_insert_right append_take_drop_id list.simps(15) set_append)

lemma set_remove_at: "distinct xs \<Longrightarrow> i < length xs \<Longrightarrow> set (remove_at i xs) = set xs - {xs ! i}"
proof -
  assume "distinct xs" "i < length xs"
  moreover from this(2) have "xs = take i xs @ xs ! i # drop (Suc i) xs" by (rule id_take_nth_drop)
  ultimately show ?thesis unfolding remove_at_def by (metis Diff_insert_absorb Un_insert_right distinct.simps(2) distinct_append list.simps(15) not_distinct_conv_prefix set_append UnE)
qed

text \<open>The element with the key, which is inserted when there is none.\<close>

definition ensure :: "('k \<Rightarrow> 'k \<Rightarrow> int) \<Rightarrow> ('a \<Rightarrow> 'k) \<Rightarrow> 'a \<Rightarrow> 'a list \<Rightarrow> nat \<times> 'a list" where
  "ensure cmp key x xs = (let (i, found) = locate (\<lambda>y. cmp (key x) (key y)) xs in (i, if found then xs else insert_at i x xs))"

lemma locate_key: "locate (\<lambda>x. c (key x)) xs = locate c (map key xs)"
  by (induction xs) auto

lemma locate_at: "\<forall>y \<in> set ys. 0 < c y \<Longrightarrow> c x = 0 \<Longrightarrow> locate c (ys @ x # zs) = (length ys, True)"
  by (induction ys) auto

section \<open>The interface\<close>

locale ordered_list =
  fixes cmp :: "'k \<Rightarrow> 'k \<Rightarrow> int" and key :: "'a \<Rightarrow> 'k" and ok :: "'k \<Rightarrow> bool"
  assumes cmp_zero: "ok u \<Longrightarrow> ok v \<Longrightarrow> cmp u v = 0 \<longleftrightarrow> u = v"
    and cmp_anti: "ok u \<Longrightarrow> ok v \<Longrightarrow> cmp u v < 0 \<longleftrightarrow> 0 < cmp v u"
    and cmp_trans: "ok u \<Longrightarrow> ok v \<Longrightarrow> ok w \<Longrightarrow> cmp u v < 0 \<Longrightarrow> cmp v w < 0 \<Longrightarrow> cmp u w < 0"
begin

lemma locate_stops:
  assumes "ordered cmp key ok xs" "ok k" "locate (\<lambda>x. cmp k (key x)) xs = (i, found)"
  shows "i \<le> length xs \<and> (if found then i < length xs \<and> key (xs ! i) = k
    else (\<forall>x \<in> set (take i xs). cmp (key x) k < 0) \<and> (\<forall>x \<in> set (drop i xs). cmp k (key x) < 0))"
  using assms
proof (induction xs arbitrary: i)
  case (Cons x xs)
  have x: "ok (key x)" "\<forall>y \<in> set xs. ok (key y) \<and> cmp (key x) (key y) < 0" "ordered cmp key ok xs"
    using Cons.prems(1) by (auto simp: ordered_def)
  consider "cmp k (key x) < 0" | "cmp k (key x) = 0" | "0 < cmp k (key x)" by linarith
  then show ?case
  proof cases
    case 1
    have "cmp k (key y) < 0" if "y \<in> set xs" for y using cmp_trans [OF Cons.prems(2) x(1) _ 1] x(2) that by blast
    then show ?thesis using Cons.prems(3) 1 by auto
  next
    case 2
    then show ?thesis using Cons.prems(3) cmp_zero [OF Cons.prems(2) x(1)] by auto
  next
    case 3
    then obtain j where j: "locate (\<lambda>x. cmp k (key x)) xs = (j, found)" "i = Suc j" using Cons.prems(3) by (auto split: prod.splits)
    then show ?thesis using Cons.IH [OF x(3) Cons.prems(2) j(1)] 3 cmp_anti [OF x(1) Cons.prems(2)] by auto
  qed
qed simp

lemma ordered_distinct:
  assumes "ordered cmp key ok xs"
  shows "distinct (map key xs)"
  using assms
proof (induction xs)
  case (Cons x xs)
  have "key y \<noteq> key x" if "y \<in> set xs" for y
    using Cons.prems that cmp_zero [of "key x" "key x"] by (auto simp: ordered_def)
  then have "key x \<notin> key ` set xs" by (metis imageE)
  then show ?case using Cons by (simp add: ordered_def)
qed simp

lemma lookup_Some:
  assumes "ordered cmp key ok xs" "ok k"
  shows "lookup cmp key k xs = Some x \<longleftrightarrow> x \<in> set xs \<and> key x = k"
proof -
  obtain i found where l: "locate (\<lambda>x. cmp k (key x)) xs = (i, found)" by (cases "locate (\<lambda>x. cmp k (key x)) xs")
  note stop = locate_stops [OF assms l]
  show ?thesis
  proof (cases found)
    case True
    then have "i < length xs" "key (xs ! i) = k" using stop by simp_all
    moreover have "y = xs ! i" if "y \<in> set xs" "key y = key (xs ! i)" for y
      using ordered_distinct [OF assms(1)] that \<open>i < length xs\<close> unfolding distinct_map inj_on_def by (metis nth_mem)
    ultimately show ?thesis using True l by (auto simp: lookup_def)
  next
    case False
    have "key x \<noteq> k" if "x \<in> set xs" for x
    proof -
      have "x \<in> set (take i xs) \<union> set (drop i xs)" using that by (metis append_take_drop_id set_append)
      then have "cmp (key x) k < 0 \<or> cmp k (key x) < 0" using False stop by (auto split: if_splits)
      then show ?thesis using cmp_zero [OF assms(2,2)] by auto
    qed
    then show ?thesis using False l by (auto simp: lookup_def)
  qed
qed

lemma lookup_eqI:
  assumes "ordered cmp key ok xs" "ok k" "\<And>x. y = Some x \<longleftrightarrow> x \<in> set xs \<and> key x = k"
  shows "lookup cmp key k xs = y"
  using lookup_Some [OF assms(1,2)] assms(3) by (cases "lookup cmp key k xs"; cases y) auto

lemma insert_ordered:
  assumes "ordered cmp key ok xs" "ok (key x)" "locate (\<lambda>y. cmp (key x) (key y)) xs = (i, False)"
  shows "ordered cmp key ok (insert_at i x xs)"
    and "ok k \<Longrightarrow> lookup cmp key k (insert_at i x xs) = (if k = key x then Some x else lookup cmp key k xs)"
proof -
  note stop = locate_stops [OF assms]
  have "sorted_wrt (\<lambda>x y. cmp (key x) (key y) < 0) (take i xs @ drop i xs)" using assms(1) by (simp add: ordered_def)
  note s = this [unfolded sorted_wrt_append]
  show o: "ordered cmp key ok (insert_at i x xs)"
    using s stop assms(1,2) set_insert_at [of i x xs] by (auto simp: ordered_def insert_at_def sorted_wrt_append)
  have new: "key y \<noteq> key x" if "y \<in> set xs" for y
    using lookup_Some [OF assms(1,2), of y] that assms(3) by (auto simp: lookup_def)
  show "lookup cmp key k (insert_at i x xs) = (if k = key x then Some x else lookup cmp key k xs)" if "ok k"
    using lookup_Some [OF assms(1) that] new by (intro lookup_eqI [OF o that]) (auto simp: set_insert_at)
qed

lemma update_ordered:
  assumes "ordered cmp key ok xs" "ok (key x)" "locate (\<lambda>y. cmp (key x) (key y)) xs = (i, True)"
  shows "ordered cmp key ok (xs[i := x])"
    and "ok k \<Longrightarrow> lookup cmp key k (xs[i := x]) = (if k = key x then Some x else lookup cmp key k xs)"
proof -
  have i: "i < length xs" "key (xs ! i) = key x" using locate_stops [OF assms] by simp_all
  have keys: "map key (xs[i := x]) = map key xs" using i by (metis list_update_id map_update)
  have "sorted_wrt (\<lambda>k l. cmp k l < 0) (map key (xs[i := x]))" "\<forall>k \<in> set (map key (xs[i := x])). ok k"
    using assms(1) unfolding keys by (auto simp: ordered_def sorted_wrt_map)
  then show o: "ordered cmp key ok (xs[i := x])" by (auto simp: ordered_def sorted_wrt_map)
  have d: "distinct xs" "distinct (map key xs)" using ordered_distinct [OF assms(1)] by (simp_all add: distinct_map)
  have set: "set (xs[i := x]) = insert x (set xs - {xs ! i})" using d(1) i(1) by (simp add: set_update_distinct)
  have own: "y = xs ! i" if "y \<in> set xs" "key y = key x" for y
    using that i d(2) unfolding distinct_map inj_on_def by (metis nth_mem)
  show "lookup cmp key k (xs[i := x]) = (if k = key x then Some x else lookup cmp key k xs)" if "ok k"
    using lookup_Some [OF assms(1) that] own i(2) by (intro lookup_eqI [OF o that]) (auto simp: set)
qed

lemma remove_ordered:
  assumes "ordered cmp key ok xs" "ok j" "locate (\<lambda>y. cmp j (key y)) xs = (i, True)"
  shows "ordered cmp key ok (remove_at i xs)"
    and "ok k \<Longrightarrow> lookup cmp key k (remove_at i xs) = (if k = j then None else lookup cmp key k xs)"
proof -
  have i: "i < length xs" "key (xs ! i) = j" using locate_stops [OF assms] by simp_all
  have d: "distinct xs" "distinct (map key xs)" using ordered_distinct [OF assms(1)] by (simp_all add: distinct_map)
  have "xs = take i xs @ xs ! i # drop (Suc i) xs" using i(1) by (rule id_take_nth_drop)
  then have s: "sorted_wrt (\<lambda>x y. cmp (key x) (key y) < 0) (take i xs @ xs ! i # drop (Suc i) xs)" using assms(1) by (simp add: ordered_def)
  show o: "ordered cmp key ok (remove_at i xs)"
    using s assms(1) set_remove_at [OF d(1) i(1)] by (auto simp: ordered_def remove_at_def sorted_wrt_append)
  have own: "y = xs ! i" if "y \<in> set xs" "key y = j" for y
    using that i d(2) unfolding distinct_map inj_on_def by (metis nth_mem)
  show "lookup cmp key k (remove_at i xs) = (if k = j then None else lookup cmp key k xs)" if "ok k"
    using lookup_Some [OF assms(1) that] own i(2) by (intro lookup_eqI [OF o that]) (auto simp: set_remove_at [OF d(1) i(1)])
qed

lemma locate_inserted:
  assumes "ordered cmp key ok xs" "ok (key x)" "locate (\<lambda>y. cmp (key x) (key y)) xs = (i, False)"
  shows "locate (\<lambda>y. cmp (key x) (key y)) (insert_at i x xs) = (i, True)"
proof -
  note stop = locate_stops [OF assms]
  have "0 < cmp (key x) (key y)" if y: "y \<in> set (take i xs)" for y
  proof -
    have "ok (key y)" using assms(1) in_set_takeD [OF y] unfolding ordered_def by blast
    then show ?thesis using cmp_anti assms(2) stop y by auto
  qed
  moreover have "cmp (key x) (key x) = 0" using cmp_zero [OF assms(2,2)] by simp
  moreover have "length (take i xs) = i" using stop by simp
  ultimately show ?thesis using locate_at [of "take i xs" "\<lambda>y. cmp (key x) (key y)" x "drop i xs"] unfolding insert_at_def by simp
qed

lemma ensure_ok:
  assumes "ordered cmp key ok xs" "ok (key x)" "ensure cmp key x xs = (i, ys)"
  shows "ordered cmp key ok ys" "locate (\<lambda>y. cmp (key x) (key y)) ys = (i, True)" "set ys \<subseteq> insert x (set xs)"
    "ys ! i = (case lookup cmp key (key x) xs of Some y \<Rightarrow> y | None \<Rightarrow> x)"
    "ok k \<Longrightarrow> lookup cmp key k ys = (if k = key x then Some (ys ! i) else lookup cmp key k xs)"
proof -
  obtain found where l: "locate (\<lambda>y. cmp (key x) (key y)) xs = (i, found)" "ys = (if found then xs else insert_at i x xs)"
    using assms(3) by (auto simp: ensure_def split: prod.splits)
  have lk: "lookup cmp key (key x) xs = (if found then Some (xs ! i) else None)" using l(1) by (simp add: lookup_def)
  show "ordered cmp key ok ys" using l insert_ordered(1) [OF assms(1,2), of i] assms(1) by (cases found) simp_all
  show "set ys \<subseteq> insert x (set xs)" using l(2) by (auto simp: set_insert_at)
  show "locate (\<lambda>y. cmp (key x) (key y)) ys = (i, True)" using l locate_inserted [OF assms(1,2), of i] by (cases found) simp_all
  have i: "insert_at i x xs ! i = x" if "\<not> found"
    using locate_stops [OF assms(1,2) l(1)] by (simp add: insert_at_def nth_append)
  show "ys ! i = (case lookup cmp key (key x) xs of Some y \<Rightarrow> y | None \<Rightarrow> x)" using l(2) lk i by simp
  show "lookup cmp key k ys = (if k = key x then Some (ys ! i) else lookup cmp key k xs)" if "ok k"
    using l lk i insert_ordered(2) [OF assms(1,2) _ that, of i] by (cases found) simp_all
qed

lemma ordered_unique:
  assumes "ordered cmp key ok xs" "ordered cmp key ok ys" "\<And>k. ok k \<Longrightarrow> lookup cmp key k xs = lookup cmp key k ys"
  shows "xs = ys"
proof -
  have "set xs = set ys"
  proof (rule set_eqI)
    fix x
    have "x \<in> set xs \<Longrightarrow> ok (key x)" "x \<in> set ys \<Longrightarrow> ok (key x)" using assms(1,2) by (auto simp: ordered_def)
    then show "x \<in> set xs \<longleftrightarrow> x \<in> set ys" using assms(3) [of "key x"] lookup_Some [OF assms(1), of "key x" x] lookup_Some [OF assms(2), of "key x" x] by auto
  qed
  then show ?thesis using assms(1,2)
  proof (induction xs arbitrary: ys)
    case (Cons x xs)
    then obtain y zs where ys: "ys = y # zs" by (cases ys) auto
    have x: "ok (key x)" "\<forall>z \<in> set xs. cmp (key x) (key z) < 0" "ordered cmp key ok xs" using Cons.prems(2) by (auto simp: ordered_def)
    have y: "ok (key y)" "\<forall>z \<in> set zs. cmp (key y) (key z) < 0" "ordered cmp key ok zs" using Cons.prems(3) ys by (auto simp: ordered_def)
    have same: "x = y"
    proof (rule ccontr)
      assume "x \<noteq> y"
      then have "y \<in> set xs" "x \<in> set zs" using Cons.prems(1) ys by auto
      then have "cmp (key x) (key y) < 0" "cmp (key y) (key x) < 0" using x(2) y(2) by auto
      then show False using cmp_anti [OF x(1) y(1)] by simp
    qed
    have "x \<notin> set xs" "x \<notin> set zs" using x(2) y(2) same cmp_zero [OF x(1,1)] by auto
    then have "set xs = set zs" using Cons.prems(1) ys same by auto
    then show ?case using Cons.IH x(3) y(3) same ys by auto
  qed simp
qed

lemma locate_updated:
  assumes "ordered cmp key ok xs" "ok k" "locate (\<lambda>y. cmp k (key y)) xs = (i, True)" "key x = k"
  shows "locate (\<lambda>y. cmp k (key y)) (xs[i := x]) = (i, True)"
proof -
  have "i < length xs" "key (xs ! i) = k" using locate_stops [OF assms(1-3)] by simp_all
  then have "map key (xs[i := x]) = map key xs" using assms(4) by (metis list_update_id map_update)
  then show ?thesis using assms(3) locate_key [of "cmp k" key xs] locate_key [of "cmp k" key "xs[i := x]"] by simp
qed

lemma lookup_located:
  assumes "locate (\<lambda>y. cmp k (key y)) xs = (i, found)"
  shows "lookup cmp key k xs = (if found then Some (xs ! i) else None)"
  using assms by (simp add: lookup_def)

lemma lookup_empty [simp]: "lookup cmp key k [] = None" "ordered cmp key ok []"
  by (simp_all add: lookup_def ordered_def)

end

section \<open>The comparisons\<close>

lemma word_order: "ordered_list (cmp_word :: 'w::len word \<Rightarrow> 'w word \<Rightarrow> int) (\<lambda>_. True)"
  by unfold_locales (auto simp: cmp_word_def split: if_splits)

lemma memcmp_anti: "length u = length v \<Longrightarrow> memcmp u v < 0 \<longleftrightarrow> 0 < memcmp v u"
  by (induction u v rule: list_induct2) auto

lemma memcmp_trans: "length u = length v \<Longrightarrow> length v = length w \<Longrightarrow> memcmp u v < 0 \<Longrightarrow> memcmp v w < 0 \<Longrightarrow> memcmp u w < 0"
  by (induction u v w rule: list_induct3) (auto split: if_splits)

lemma memcmp_order: "ordered_list memcmp (\<lambda>k. length k = n)"
proof
  show "memcmp u v = 0 \<longleftrightarrow> u = v" if "length u = n" "length v = n" for u v using that by (simp add: memcmp_eq_0_iff)
  show "memcmp u v < 0 \<longleftrightarrow> 0 < memcmp v u" if "length u = n" "length v = n" for u v using that by (simp add: memcmp_anti)
  show "memcmp u w < 0" if "length u = n" "length v = n" "length w = n" "memcmp u v < 0" "memcmp v w < 0" for u v w
    using memcmp_trans [of u v w] that by simp
qed

end
