(* ===== verification/Ski_Cache.thy ===== *)
theory Ski_Cache
  imports Bgpsec_Path Ordered_List Rpki_Queue
begin

text \<open>
  The SKI cache, \<open>server/ski_cache.c\<close>: which updates depend on which router keys. A key is known by its AS number, its algorithm and its
  subject key identifier; the cache finds the entry through a list of the upper halves of the AS numbers, an array for the lower halves, a
  list of algorithms and a list of identifiers. The lists are ordered, and all are searched by the walk of \<open>Ordered_List\<close>. A pointer into the
  structure is the position of the entry; the structure has no other pointers to its parts. The helper that remembers the way to an
  entry is only read by the call that filled it, so it is part of that position. The queue the cache reports to
  belongs to the server and is passed along.
\<close>

section \<open>Data\<close>

record SKI_CACHE_UPDATEID =
  cuid :: u32
  cu_counter :: u16

record SKI_CACHE_DATA =
  cd_counter :: u8
  cd_asn :: u32
  cd_ski :: "u8 list"
  cd_algoID :: u8
  cacheUID :: "SKI_CACHE_UPDATEID list"

record SKI_CACHE_ALGO_ID =
  ca_algoID :: u8
  cacheData :: "SKI_CACHE_DATA list"

record SKI_CACHE_NODE =
  cn_upper :: u16
  as2 :: "u16 \<Rightarrow> SKI_CACHE_ALGO_ID list"

record SKI_CACHE =
  cacheNode :: "SKI_CACHE_NODE list"
  ski_semaphore :: nat

datatype e_SKI_clean = SKI_CLEAN_NONE | SKI_CLEAN_KEYS | SKI_CLEAN_UPDATES | SKI_CLEAN_ALL

section \<open>Creation of the parts\<close>

text \<open>No result of \<open>malloc\<close> is tested; \<open>mem\<close> tells whether there is memory. An update with the identifier 0 gets no element.\<close>

definition ski_createCacheUID :: "bool \<Rightarrow> u32 \<Rightarrow> SKI_CACHE_UPDATEID option cres" where
  "ski_createCacheUID mem uid = (if uid = 0 then Inr None else if mem then Inr (Some \<lparr>cuid = uid, cu_counter = 1\<rparr>) else Inl NullDeref)"

definition ski_createCacheAlgoID :: "bool \<Rightarrow> u8 \<Rightarrow> SKI_CACHE_ALGO_ID cres" where
  "ski_createCacheAlgoID mem algo = (if mem then Inr \<lparr>ca_algoID = algo, cacheData = []\<rparr> else Inl NullDeref)"

definition ski_createCacheData :: "bool \<Rightarrow> u32 \<Rightarrow> u8 list \<Rightarrow> u8 \<Rightarrow> SKI_CACHE_DATA cres" where
  "ski_createCacheData mem asn ski algo =
     (if mem then Inr \<lparr>cd_counter = 0, cd_asn = asn, cd_ski = ski, cd_algoID = algo, cacheUID = []\<rparr> else Inl NullDeref)"

definition ski_createCacheNode :: "bool \<Rightarrow> u16 \<Rightarrow> SKI_CACHE_NODE cres" where
  "ski_createCacheNode mem upper = (if mem then Inr \<lparr>cn_upper = upper, as2 = (\<lambda>_. [])\<rparr> else Inl NullDeref)"

section \<open>Retrieval\<close>

definition ski_getCacheNode :: "bool \<Rightarrow> SKI_CACHE_NODE list \<Rightarrow> u16 \<Rightarrow> bool \<Rightarrow> (nat option \<times> SKI_CACHE_NODE list) cres" where
  "ski_getCacheNode mem nodes upper create =
     (let (i, found) = locate (\<lambda>n. cmp_word upper (cn_upper n)) nodes
      in if found then Inr (Some i, nodes)
         else if create then cbind (ski_createCacheNode mem upper) (\<lambda>n. Inr (Some i, insert_at i n nodes))
         else Inr (None, nodes))"

text \<open>The pointer to the previous element has no value until the walk goes on from the first one, so an insertion in front of the first one uses
  an undefined pointer.\<close>

definition ski_getCacheAlgoID :: "bool \<Rightarrow> SKI_CACHE_ALGO_ID list \<Rightarrow> u8 \<Rightarrow> bool \<Rightarrow> (nat option \<times> SKI_CACHE_ALGO_ID list) cres" where
  "ski_getCacheAlgoID mem algos algo create =
     (let (i, found) = locate (\<lambda>a. cmp_word algo (ca_algoID a)) algos
      in if found then Inr (Some i, algos)
         else if create
         then cbind (ski_createCacheAlgoID mem algo) (\<lambda>a.
                if i = 0 \<and> algos \<noteq> [] then Inl Uninitialised else Inr (Some i, insert_at i a algos))
         else Inr (None, algos))"

definition ski_findData :: "bool \<Rightarrow> SKI_CACHE_DATA list \<Rightarrow> u32 \<Rightarrow> u8 list \<Rightarrow> u8 \<Rightarrow> bool \<Rightarrow> (nat option \<times> SKI_CACHE_DATA list) cres" where
  "ski_findData mem ds asn ski algo create =
     (let (i, found) = locate (\<lambda>d. memcmp ski (cd_ski d)) ds
      in if found then Inr (Some i, ds)
         else if create then cbind (ski_createCacheData mem asn ski algo) (\<lambda>d. Inr (Some i, insert_at i d ds))
         else Inr (None, ds))"

type_synonym ski_pos = "nat \<times> u16 \<times> nat \<times> nat"

definition set_algos :: "nat \<Rightarrow> u16 \<Rightarrow> SKI_CACHE_ALGO_ID list \<Rightarrow> SKI_CACHE_NODE list \<Rightarrow> SKI_CACHE_NODE list" where
  "set_algos i low algos nodes = nodes[i := (nodes ! i)\<lparr>as2 := (as2 (nodes ! i))(low := algos)\<rparr>]"

definition set_data :: "nat \<Rightarrow> SKI_CACHE_DATA list \<Rightarrow> SKI_CACHE_ALGO_ID list \<Rightarrow> SKI_CACHE_ALGO_ID list" where
  "set_data j ds algos = algos[j := (algos ! j)\<lparr>cacheData := ds\<rparr>]"

definition upper_half :: "u32 \<Rightarrow> u16" where "upper_half asn = ucast (drop_bit 16 asn)"

definition lower_half :: "u32 \<Rightarrow> u16" where "lower_half asn = ucast asn"

definition ski_getCacheData :: "bool \<Rightarrow> SKI_CACHE \<Rightarrow> u32 \<Rightarrow> u8 list \<Rightarrow> u8 \<Rightarrow> bool \<Rightarrow> (ski_pos option \<times> SKI_CACHE) cres" where
  "ski_getCacheData mem c asn ski algo create =
     (let low = lower_half asn
      in cbind (ski_getCacheNode mem (cacheNode c) (upper_half asn) create) (\<lambda>(i, nodes). case i of
           None \<Rightarrow> Inr (None, c)
         | Some i \<Rightarrow> cbind (ski_getCacheAlgoID mem (as2 (nodes ! i) low) algo create) (\<lambda>(j, algos). case j of
             None \<Rightarrow> Inr (None, c)
           | Some j \<Rightarrow> cbind (ski_findData mem (cacheData (algos ! j)) asn ski algo create) (\<lambda>(k, ds).
               Inr (map_option (\<lambda>k. (i, low, j, k)) k, c\<lparr>cacheNode := set_algos i low (set_data j ds algos) nodes\<rparr>)))))"

text \<open>Access through the position.\<close>

definition data_list :: "ski_pos \<Rightarrow> SKI_CACHE \<Rightarrow> SKI_CACHE_DATA list" where
  "data_list = (\<lambda>(i, low, j, k) c. cacheData (as2 (cacheNode c ! i) low ! j))"

definition data_at :: "ski_pos \<Rightarrow> SKI_CACHE \<Rightarrow> SKI_CACHE_DATA" where
  "data_at pos c = data_list pos c ! snd (snd (snd pos))"

definition set_data_list :: "ski_pos \<Rightarrow> SKI_CACHE_DATA list \<Rightarrow> SKI_CACHE \<Rightarrow> SKI_CACHE" where
  "set_data_list = (\<lambda>(i, low, j, k) ds c. c\<lparr>cacheNode := set_algos i low (set_data j ds (as2 (cacheNode c ! i) low)) (cacheNode c)\<rparr>)"

definition put_data :: "ski_pos \<Rightarrow> SKI_CACHE_DATA \<Rightarrow> SKI_CACHE \<Rightarrow> SKI_CACHE" where
  "put_data pos d c = set_data_list pos ((data_list pos c)[snd (snd (snd pos)) := d]) c"

definition remove_data :: "ski_pos \<Rightarrow> SKI_CACHE \<Rightarrow> SKI_CACHE" where
  "remove_data pos c = set_data_list pos (remove_at (snd (snd (snd pos))) (data_list pos c)) c"

section \<open>The updates of an entry\<close>

definition ski_addUpdateCacheUID :: "bool \<Rightarrow> SKI_CACHE_UPDATEID list \<Rightarrow> u32 \<Rightarrow> SKI_CACHE_UPDATEID list cres" where
  "ski_addUpdateCacheUID mem us uid =
     (let (i, found) = locate (\<lambda>u. compareSrxUpdateID uid (cuid u)) us
      in if found then Inr (us[i := (us ! i)\<lparr>cu_counter := cu_counter (us ! i) + 1\<rparr>])
         else cbind (ski_createCacheUID mem uid) (\<lambda>u. case u of
             None \<Rightarrow> if i < length us then Inl NullDeref else Inr us
           | Some u \<Rightarrow> Inr (insert_at i u us)))"

definition ski_dropUpdateCacheUID :: "SKI_CACHE_UPDATEID list \<Rightarrow> u32 \<Rightarrow> SKI_CACHE_UPDATEID list" where
  "ski_dropUpdateCacheUID us uid =
     (let (i, found) = locate (\<lambda>u. compareSrxUpdateID uid (cuid u)) us
      in if \<not> found then us
         else if cu_counter (us ! i) - 1 = 0 then remove_at i us
         else us[i := (us ! i)\<lparr>cu_counter := cu_counter (us ! i) - 1\<rparr>])"

section \<open>The semaphore\<close>

definition ski_lock :: "SKI_CACHE \<Rightarrow> SKI_CACHE cres" where
  "ski_lock c = (if ski_semaphore c = 0 then Inl LockBlocked else Inr (c\<lparr>ski_semaphore := ski_semaphore c - 1\<rparr>))"

definition ski_unlock :: "SKI_CACHE \<Rightarrow> SKI_CACHE" where
  "ski_unlock c = (if ski_semaphore c = 0 then c\<lparr>ski_semaphore := 1\<rparr> else c)"

section \<open>Creation and release\<close>

text \<open>When the semaphore cannot be set up the memory is freed, and its address is returned nevertheless.\<close>

definition ski_createCache :: "bool \<Rightarrow> bool \<Rightarrow> RPKI_QUEUE option \<Rightarrow> SKI_CACHE option cres" where
  "ski_createCache mem sem_init_ok queue =
     (if queue = None then Inr None
      else if \<not> mem then Inl NullDeref
      else if sem_init_ok then Inr (Some \<lparr>cacheNode = [], ski_semaphore = 1\<rparr>) else Inl UseAfterFree)"

section \<open>Updates\<close>

definition segments_of :: "SKI_TMP_UPD_INFO \<Rightarrow> (nat \<times> nat) list" where
  "segments_of info = concat (map (\<lambda>sb. map (Pair sb) [0..<unat (nrSegments info)]) [0..<unat (nrSigBlocks info)])"

definition ski_at :: "SKI_TMP_UPD_INFO \<Rightarrow> nat \<Rightarrow> u8 list cres" where
  "ski_at info offset = rd_bytes (ui_ski info) offset SKI_LENGTH"

definition register_segment :: "bool \<Rightarrow> u32 \<Rightarrow> SKI_TMP_UPD_INFO \<Rightarrow> nat \<times> nat \<Rightarrow> SKI_CACHE \<Rightarrow> SKI_CACHE cres" where
  "register_segment mem uid info = (\<lambda>(sb, seg) c.
     cbind (read_arr (Some (ui_algoID info)) sb) (\<lambda>algo. cbind (read_arr (Some (ui_asn info)) seg) (\<lambda>asn.
     cbind (ski_at info (seg * SKI_LENGTH + seg * SKI_LENGTH * sb)) (\<lambda>ski.
     cbind (ski_getCacheData mem c asn ski algo True) (\<lambda>(pos, c). case pos of
         None \<Rightarrow> Inr c
       | Some pos \<Rightarrow> cbind (ski_addUpdateCacheUID mem (cacheUID (data_at pos c)) uid) (\<lambda>us.
           Inr (put_data pos ((data_at pos c)\<lparr>cacheUID := us\<rparr>) c)))))))"

definition ski_registerUpdate :: "bool \<Rightarrow> SKI_CACHE option \<Rightarrow> u32 \<Rightarrow> u8 list option \<Rightarrow> (e_Upd_RegRes \<times> SKI_CACHE option) cres" where
  "ski_registerUpdate mem cache uid bgpsec = (case cache of
      None \<Rightarrow> Inr (REGVAL_ERROR, None)
    | Some c \<Rightarrow> cbind (ski_lock c) (\<lambda>c. case bgpsec of
          None \<Rightarrow> Inr (REGVAL_ERROR, Some (ski_unlock c))
        | Some b \<Rightarrow> cbind (ski_parseBGPsec_PATH b) (\<lambda>info.
            cbind (if ui_status info \<noteq> REGVAL_ERROR then cfold (register_segment mem uid info) (segments_of info) c else Inr c) (\<lambda>c.
              Inr (ui_status info, Some (ski_unlock c))))))"

definition unregister_segment :: "u32 \<Rightarrow> SKI_TMP_UPD_INFO \<Rightarrow> nat \<times> nat \<Rightarrow> SKI_CACHE \<Rightarrow> SKI_CACHE cres" where
  "unregister_segment uid info = (\<lambda>(sb, seg) c.
     cbind (read_arr (Some (ui_algoID info)) sb) (\<lambda>algo. cbind (read_arr (Some (ui_asn info)) seg) (\<lambda>asn.
     cbind (ski_at info ((sb * unat (nrSegments info) + seg) * SKI_LENGTH)) (\<lambda>ski.
     cbind (ski_getCacheData True c asn ski algo False) (\<lambda>(pos, c). case pos of
         None \<Rightarrow> Inr c
       | Some pos \<Rightarrow> let d = (data_at pos c)\<lparr>cacheUID := ski_dropUpdateCacheUID (cacheUID (data_at pos c)) uid\<rparr>
                      in Inr (if cacheUID d = [] \<and> cd_counter d = 0 then remove_data pos c else put_data pos d c))))))"

definition ski_unregisterUpdate :: "SKI_CACHE option \<Rightarrow> u32 \<Rightarrow> u8 list option \<Rightarrow> (bool \<times> SKI_CACHE option) cres" where
  "ski_unregisterUpdate cache uid bgpsec = (case cache of
      None \<Rightarrow> Inr (True, None)
    | Some c \<Rightarrow> cbind (ski_lock c) (\<lambda>c. case bgpsec of
          None \<Rightarrow> Inr (True, Some (ski_unlock c))
        | Some b \<Rightarrow> cbind (ski_parseBGPsec_PATH b) (\<lambda>info.
            cbind (if ui_status info \<noteq> REGVAL_ERROR then cfold (unregister_segment uid info) (segments_of info) c else Inr c) (\<lambda>c.
              Inr (ui_status info \<noteq> REGVAL_ERROR, Some (ski_unlock c))))))"

section \<open>Keys\<close>

definition notify_updates :: "SKI_CACHE_UPDATEID list \<Rightarrow> RPKI_QUEUE option \<Rightarrow> RPKI_QUEUE option cres" where
  "notify_updates us q = cfold (\<lambda>u q. rq_queue q RQ_KEY (cuid u)) us q"

definition ski_registerKey ::
  "bool \<Rightarrow> SKI_CACHE option \<Rightarrow> u32 \<Rightarrow> u8 list \<Rightarrow> u8 \<Rightarrow> RPKI_QUEUE option \<Rightarrow> (bool \<times> SKI_CACHE option \<times> RPKI_QUEUE option) cres" where
  "ski_registerKey mem cache asn ski algo q = (case cache of
      None \<Rightarrow> Inr (False, None, q)
    | Some c \<Rightarrow> cbind (ski_lock c) (\<lambda>c. cbind (ski_getCacheData mem c asn ski algo True) (\<lambda>(pos, c). case pos of
          None \<Rightarrow> Inl NullDeref
        | Some pos \<Rightarrow> let d = (data_at pos c)\<lparr>cd_counter := cd_counter (data_at pos c) + 1\<rparr>
                       in cbind (notify_updates (cacheUID d) q) (\<lambda>q. Inr (True, Some (ski_unlock (put_data pos d c)), q)))))"

text \<open>An entry without updates is removed, whatever its counter is.\<close>

definition ski_unregisterKey ::
  "SKI_CACHE option \<Rightarrow> u32 \<Rightarrow> u8 list \<Rightarrow> u8 \<Rightarrow> RPKI_QUEUE option \<Rightarrow> (bool \<times> SKI_CACHE option \<times> RPKI_QUEUE option) cres" where
  "ski_unregisterKey cache asn ski algo q = (case cache of
      None \<Rightarrow> Inr (True, None, q)
    | Some c \<Rightarrow> cbind (ski_lock c) (\<lambda>c. cbind (ski_getCacheData True c asn ski algo False) (\<lambda>(pos, c). case pos of
          None \<Rightarrow> Inr (True, Some (ski_unlock c), q)
        | Some pos \<Rightarrow>
            if cd_counter (data_at pos c) = 0 then Inr (True, Some (ski_unlock c), q)
            else let d = (data_at pos c)\<lparr>cd_counter := cd_counter (data_at pos c) - 1\<rparr>
                 in if cacheUID d \<noteq> []
                    then cbind (notify_updates (cacheUID d) q) (\<lambda>q. Inr (True, Some (ski_unlock (put_data pos d c)), q))
                    else Inr (True, Some (ski_unlock (remove_data pos c)), q))))"

section \<open>Cleaning\<close>

definition ski_clean_cData :: "e_SKI_clean \<Rightarrow> SKI_CACHE_DATA \<Rightarrow> bool \<times> SKI_CACHE_DATA" where
  "ski_clean_cData ty d =
     (let d = (case ty of
            SKI_CLEAN_ALL \<Rightarrow> d\<lparr>cd_counter := 0, cacheUID := []\<rparr>
          | SKI_CLEAN_KEYS \<Rightarrow> d\<lparr>cd_counter := 0\<rparr>
          | SKI_CLEAN_UPDATES \<Rightarrow> d\<lparr>cacheUID := []\<rparr>
          | SKI_CLEAN_NONE \<Rightarrow> d)
      in (cd_counter d = 0 \<and> cacheUID d = [], d))"

fun clean_data :: "e_SKI_clean \<Rightarrow> SKI_CACHE_DATA list \<Rightarrow> SKI_CACHE_DATA list" where
  "clean_data ty [] = []"
| "clean_data ty (d # ds) = (let (canFree, d) = ski_clean_cData ty d in if canFree then clean_data ty ds else d # clean_data ty ds)"

definition ski_clean_cAlgoID :: "e_SKI_clean \<Rightarrow> SKI_CACHE_ALGO_ID \<Rightarrow> bool \<times> SKI_CACHE_ALGO_ID" where
  "ski_clean_cAlgoID ty a =
     (let a = (if ty = SKI_CLEAN_NONE then a else a\<lparr>cacheData := clean_data ty (cacheData a)\<rparr>) in (cacheData a = [], a))"

fun clean_algos :: "e_SKI_clean \<Rightarrow> SKI_CACHE_ALGO_ID list \<Rightarrow> SKI_CACHE_ALGO_ID list" where
  "clean_algos ty [] = []"
| "clean_algos ty (a # as) = (let (canFree, a) = ski_clean_cAlgoID ty a in if canFree then clean_algos ty as else a # clean_algos ty as)"

definition SKI_AS2_ARRAY_SIZE :: nat where [simp]: "SKI_AS2_ARRAY_SIZE = 65536"

definition ski_clean_cNode :: "e_SKI_clean \<Rightarrow> SKI_CACHE_NODE \<Rightarrow> bool \<times> SKI_CACHE_NODE" where
  "ski_clean_cNode ty n =
     (let n = n\<lparr>as2 := (\<lambda>low. clean_algos ty (as2 n low))\<rparr>
      in (list_all (\<lambda>low. as2 n (of_nat low) = []) [0..<SKI_AS2_ARRAY_SIZE], n))"

fun clean_nodes :: "e_SKI_clean \<Rightarrow> SKI_CACHE_NODE list \<Rightarrow> SKI_CACHE_NODE list" where
  "clean_nodes ty [] = []"
| "clean_nodes ty (n # ns) = (let (canFree, n) = ski_clean_cNode ty n in if canFree then clean_nodes ty ns else n # clean_nodes ty ns)"

definition ski_clean :: "SKI_CACHE option \<Rightarrow> e_SKI_clean \<Rightarrow> (bool \<times> SKI_CACHE option) cres" where
  "ski_clean cache ty = (case cache of
      None \<Rightarrow> Inr (True, None)
    | Some c \<Rightarrow> cbind (ski_lock c) (\<lambda>c.
        Inr (True, Some (ski_unlock (c\<lparr>cacheNode := if ty = SKI_CLEAN_ALL then [] else clean_nodes ty (cacheNode c)\<rparr>)))))"

text \<open>The release reports an error in all cases, by a result that stands for success.\<close>

definition ski_releaseCache :: "SKI_CACHE option \<Rightarrow> (bool \<times> SKI_CACHE option) cres" where
  "ski_releaseCache cache = (case cache of
      None \<Rightarrow> Inr (True, None)
    | Some c \<Rightarrow> cbind (ski_clean (Some c) SKI_CLEAN_ALL) (\<lambda>(ok, c). Inr (True, if ok then None else c)))"

section \<open>Statistics\<close>

record SKI_CACHE_INFO =
  count_cNode :: u32
  count_AS2 :: u32
  count_cAlgoID :: u32
  count_cData :: u32
  count_cUID :: u32
  count_keys :: u32
  count_updates :: u32

definition zero_info :: SKI_CACHE_INFO where
  "zero_info = \<lparr>count_cNode = 0, count_AS2 = 0, count_cAlgoID = 0, count_cData = 0, count_cUID = 0, count_keys = 0, count_updates = 0\<rparr>"

definition examine_uid :: "SKI_CACHE_UPDATEID \<Rightarrow> SKI_CACHE_INFO \<Rightarrow> SKI_CACHE_INFO" where
  "examine_uid u info = info\<lparr>count_cUID := count_cUID info + 1, count_updates := count_updates info + ucast (cu_counter u)\<rparr>"

definition examine_data :: "SKI_CACHE_DATA \<Rightarrow> SKI_CACHE_INFO \<Rightarrow> SKI_CACHE_INFO" where
  "examine_data d info =
     fold examine_uid (cacheUID d) (info\<lparr>count_cData := count_cData info + 1, count_keys := count_keys info + ucast (cd_counter d)\<rparr>)"

definition examine_algo :: "SKI_CACHE_ALGO_ID \<Rightarrow> SKI_CACHE_INFO \<Rightarrow> SKI_CACHE_INFO" where
  "examine_algo a info = fold examine_data (cacheData a) (info\<lparr>count_cAlgoID := count_cAlgoID info + 1\<rparr>)"

definition examine_as2 :: "SKI_CACHE_ALGO_ID list \<Rightarrow> SKI_CACHE_INFO \<Rightarrow> SKI_CACHE_INFO" where
  "examine_as2 as info = (if as = [] then info else fold examine_algo as (info\<lparr>count_AS2 := count_AS2 info + 1\<rparr>))"

definition examine_node :: "SKI_CACHE_NODE \<Rightarrow> SKI_CACHE_INFO \<Rightarrow> SKI_CACHE_INFO" where
  "examine_node n info =
     fold (\<lambda>low. examine_as2 (as2 n (of_nat low))) [0..<SKI_AS2_ARRAY_SIZE] (info\<lparr>count_cNode := count_cNode info + 1\<rparr>)"

definition ski_examineCache :: "SKI_CACHE option \<Rightarrow> (SKI_CACHE_INFO \<times> SKI_CACHE option) cres" where
  "ski_examineCache cache = (case cache of
      None \<Rightarrow> Inr (zero_info, None)
    | Some c \<Rightarrow> cbind (ski_lock c) (\<lambda>c. Inr (fold examine_node (cacheNode c) zero_info, Some (ski_unlock c))))"

end
