(* ===== verification/Ski_Registry.thy ===== *)
theory Ski_Registry
  imports Ski_Cache
begin

text \<open>
  What the SKI cache promises. The structure is seen as a map from keys (AS number, algorithm, subject key identifier) to
  entries; the lists of the structure interpret the interface of the ordered lists, and every operation is shown to be an
  operation on the map.
\<close>

section \<open>The lists of the cache\<close>

interpretation nodes: ordered_list "cmp_word :: u16 \<Rightarrow> u16 \<Rightarrow> int" cn_upper "\<lambda>_. True"
  by (rule word_order)

interpretation algos: ordered_list "cmp_word :: u8 \<Rightarrow> u8 \<Rightarrow> int" ca_algoID "\<lambda>_. True"
  by (rule word_order)

interpretation keys: ordered_list memcmp cd_ski "\<lambda>k. length k = 20"
  by (rule memcmp_order)

lemma mem_bytes32_length: "length (mem_bytes32 u) = 4"
  by (simp add: mem_bytes32_def)

interpretation uids: ordered_list compareSrxUpdateID cuid "\<lambda>_. True"
proof
  show "compareSrxUpdateID u v = 0 \<longleftrightarrow> u = v" for u v by (rule compareSrxUpdateID_zero)
  show "compareSrxUpdateID u v < 0 \<longleftrightarrow> 0 < compareSrxUpdateID v u" for u v
    by (simp add: compareSrxUpdateID_def memcmp_anti mem_bytes32_length)
  show "compareSrxUpdateID u w < 0" if "compareSrxUpdateID u v < 0" "compareSrxUpdateID v w < 0" for u v w
    using memcmp_trans [of "mem_bytes32 u" "mem_bytes32 v" "mem_bytes32 w"] that by (simp add: compareSrxUpdateID_def mem_bytes32_length)
qed

section \<open>Well-formed caches\<close>

definition data_ok :: "SKI_CACHE_DATA \<Rightarrow> bool" where
  "data_ok d \<longleftrightarrow> ordered compareSrxUpdateID cuid (\<lambda>_. True) (cacheUID d) \<and> (\<forall>u \<in> set (cacheUID d). cuid u \<noteq> 0)"

definition algo_ok :: "SKI_CACHE_ALGO_ID \<Rightarrow> bool" where
  "algo_ok a \<longleftrightarrow> ordered memcmp cd_ski (\<lambda>k. length k = 20) (cacheData a) \<and> (\<forall>d \<in> set (cacheData a). data_ok d)"

definition algos_ok :: "SKI_CACHE_ALGO_ID list \<Rightarrow> bool" where
  "algos_ok as \<longleftrightarrow> ordered cmp_word ca_algoID (\<lambda>_. True) as \<and> (\<forall>a \<in> set as. algo_ok a)"

definition nodes_ok :: "SKI_CACHE_NODE list \<Rightarrow> bool" where
  "nodes_ok ns \<longleftrightarrow> ordered cmp_word cn_upper (\<lambda>_. True) ns \<and> (\<forall>n \<in> set ns. \<forall>low. algos_ok (as2 n low))"

definition ski_inv :: "SKI_CACHE \<Rightarrow> bool" where
  "ski_inv c \<longleftrightarrow> nodes_ok (cacheNode c) \<and> ski_semaphore c = 1"

type_synonym ski_key = "u32 \<times> u8 \<times> u8 list"

text \<open>The list of algorithms of an AS, and the map.\<close>

definition algos_of :: "SKI_CACHE_NODE list \<Rightarrow> u32 \<Rightarrow> SKI_CACHE_ALGO_ID list" where
  "algos_of ns asn = (case lookup cmp_word cn_upper (upper_half asn) ns of None \<Rightarrow> [] | Some n \<Rightarrow> as2 n (lower_half asn))"

definition data_of :: "SKI_CACHE_ALGO_ID list \<Rightarrow> u8 \<Rightarrow> SKI_CACHE_DATA list" where
  "data_of as algo = (case lookup cmp_word ca_algoID algo as of None \<Rightarrow> [] | Some a \<Rightarrow> cacheData a)"

definition ski_view :: "SKI_CACHE \<Rightarrow> ski_key \<rightharpoonup> SKI_CACHE_DATA" where
  "ski_view c = (\<lambda>(asn, algo, ski). if length ski = 20 then lookup memcmp cd_ski ski (data_of (algos_of (cacheNode c) asn) algo) else None)"

definition algo_ids :: "SKI_CACHE \<Rightarrow> u32 \<Rightarrow> u8 list" where
  "algo_ids c asn = map ca_algoID (algos_of (cacheNode c) asn)"

lemma set_data_ids: "map ca_algoID (set_data j ds as) = map ca_algoID as"
proof (cases "j < length as")
  case True
  have "map ca_algoID (set_data j ds as) = (map ca_algoID as)[j := map ca_algoID as ! j]" using True by (simp add: set_data_def map_update)
  then show ?thesis by (simp only: list_update_id)
qed (simp add: set_data_def list_update_beyond)

lemma halves_inject: "upper_half u = upper_half v \<and> lower_half u = lower_half v \<longleftrightarrow> u = v"
proof
  assume h: "upper_half u = upper_half v \<and> lower_half u = lower_half v"
  show "u = v"
  proof (rule bit_word_eqI)
    fix n assume n: "n < LENGTH(32)"
    show "bit u n = bit v n"
    proof (cases "n < 16")
      case True
      then have "bit (lower_half u) n = bit u n" "bit (lower_half v) n = bit v n" by (simp_all add: lower_half_def bit_simps)
      then show ?thesis using h by simp
    next
      case False
      then have "bit (upper_half u) (n - 16) = bit u n" "bit (upper_half v) (n - 16) = bit v n" using n by (auto simp: upper_half_def bit_simps)
      then show ?thesis using h by simp
    qed
  qed
qed simp

section \<open>Changes along the way to an entry\<close>

lemma algos_of_ok:
  assumes "nodes_ok ns"
  shows "algos_ok (algos_of ns asn)"
proof (cases "lookup cmp_word cn_upper (upper_half asn) ns")
  case (Some n)
  then have "n \<in> set ns" using assms nodes.lookup_Some [of ns "upper_half asn" n] by (simp add: nodes_ok_def)
  then show ?thesis using assms Some by (simp add: nodes_ok_def algos_of_def)
qed (simp add: algos_of_def algos_ok_def)

lemma data_of_ok:
  assumes "algos_ok as"
  shows "ordered memcmp cd_ski (\<lambda>k. length k = 20) (data_of as algo) \<and> (\<forall>d \<in> set (data_of as algo). data_ok d)"
proof (cases "lookup cmp_word ca_algoID algo as")
  case (Some a)
  then have "a \<in> set as" using assms algos.lookup_Some [of as algo a] by (simp add: algos_ok_def)
  then show ?thesis using assms Some by (simp add: algos_ok_def algo_ok_def data_of_def)
qed (simp add: data_of_def)

text \<open>The list of algorithms of one AS is replaced.\<close>

lemma set_algos_ok:
  assumes "nodes_ok ns" "locate (\<lambda>n. cmp_word (upper_half asn) (cn_upper n)) ns = (i, True)" "algos_ok as"
  defines "ns' \<equiv> set_algos i (lower_half asn) as ns"
  shows "nodes_ok ns'" "locate (\<lambda>n. cmp_word (upper_half asn) (cn_upper n)) ns' = (i, True)"
    "algos_of ns' asn' = (if asn' = asn then as else algos_of ns asn')" "as2 (ns' ! i) (lower_half asn) = as"
proof -
  have ord: "ordered cmp_word cn_upper (\<lambda>_. True) ns" using assms(1) by (simp add: nodes_ok_def)
  have i: "i < length ns" "cn_upper (ns ! i) = upper_half asn" using nodes.locate_stops [OF ord _ assms(2)] by simp_all
  define n where "n = (ns ! i)\<lparr>as2 := (as2 (ns ! i))(lower_half asn := as)\<rparr>"
  have n: "cn_upper n = upper_half asn" "ns' = ns[i := n]" using i by (simp_all add: n_def ns'_def set_algos_def)
  have at: "locate (\<lambda>m. cmp_word (cn_upper n) (cn_upper m)) ns = (i, True)" using assms(2) n(1) by simp
  have "\<forall>m \<in> set ns'. \<forall>low. algos_ok (as2 m low)"
    using assms(1,3) i(1) set_update_subset_insert [of ns i n] unfolding n(2) nodes_ok_def n_def by auto
  then show "nodes_ok ns'" using nodes.update_ordered(1) [OF ord _ at] unfolding n(2) nodes_ok_def by simp
  show "locate (\<lambda>n. cmp_word (upper_half asn) (cn_upper n)) ns' = (i, True)"
    unfolding n(2) using nodes.locate_updated [OF ord _ assms(2) n(1)] by simp
  show "as2 (ns' ! i) (lower_half asn) = as" using i(1) unfolding n(2) by (simp add: n_def)
  have old: "lookup cmp_word cn_upper (upper_half asn) ns = Some (ns ! i)" using assms(2) by (simp add: lookup_def)
  have lk: "lookup cmp_word cn_upper u ns' = (if u = upper_half asn then Some n else lookup cmp_word cn_upper u ns)" for u
    using nodes.update_ordered(2) [OF ord _ at] unfolding n by simp
  show "algos_of ns' asn' = (if asn' = asn then as else algos_of ns asn')"
    using halves_inject [of asn' asn] old by (auto simp: algos_of_def lk n_def split: option.splits)
qed

text \<open>The list of entries of one algorithm is replaced.\<close>

lemma set_data_ok:
  assumes "algos_ok as" "locate (\<lambda>a. cmp_word algo (ca_algoID a)) as = (j, True)"
    "ordered memcmp cd_ski (\<lambda>k. length k = 20) ds" "\<forall>d \<in> set ds. data_ok d"
  defines "as' \<equiv> set_data j ds as"
  shows "algos_ok as'" "locate (\<lambda>a. cmp_word algo (ca_algoID a)) as' = (j, True)"
    "data_of as' algo' = (if algo' = algo then ds else data_of as algo')" "cacheData (as' ! j) = ds"
proof -
  have ord: "ordered cmp_word ca_algoID (\<lambda>_. True) as" using assms(1) by (simp add: algos_ok_def)
  have j: "j < length as" "ca_algoID (as ! j) = algo" using algos.locate_stops [OF ord _ assms(2)] by simp_all
  define a where "a = (as ! j)\<lparr>cacheData := ds\<rparr>"
  have a: "ca_algoID a = algo" "as' = as[j := a]" using j by (simp_all add: a_def as'_def set_data_def)
  have at: "locate (\<lambda>b. cmp_word (ca_algoID a) (ca_algoID b)) as = (j, True)" using assms(2) a(1) by simp
  have "\<forall>b \<in> set as'. algo_ok b"
    using assms(1,3,4) set_update_subset_insert [of as j a] unfolding a(2) algos_ok_def algo_ok_def a_def by auto
  then show "algos_ok as'" using algos.update_ordered(1) [OF ord _ at] unfolding a(2) algos_ok_def by simp
  show "locate (\<lambda>a. cmp_word algo (ca_algoID a)) as' = (j, True)"
    unfolding a(2) using algos.locate_updated [OF ord _ assms(2) a(1)] by simp
  show "cacheData (as' ! j) = ds" using j(1) unfolding a(2) by (simp add: a_def)
  have "lookup cmp_word ca_algoID x as' = (if x = algo then Some a else lookup cmp_word ca_algoID x as)" for x
    using algos.update_ordered(2) [OF ord _ at] unfolding a by simp
  then show "data_of as' algo' = (if algo' = algo then ds else data_of as algo')" by (simp add: data_of_def a_def)
qed

section \<open>Positions\<close>

text \<open>A position belongs to a key when each of its parts is where the walk for the key stops.\<close>

definition pos_for :: "SKI_CACHE \<Rightarrow> ski_key \<Rightarrow> ski_pos \<Rightarrow> bool" where
  "pos_for c = (\<lambda>(asn, algo, ski) (i, low, j, k). length ski = 20 \<and> low = lower_half asn \<and>
     locate (\<lambda>n. cmp_word (upper_half asn) (cn_upper n)) (cacheNode c) = (i, True) \<and>
     locate (\<lambda>a. cmp_word algo (ca_algoID a)) (as2 (cacheNode c ! i) low) = (j, True) \<and>
     locate (\<lambda>d. memcmp ski (cd_ski d)) (cacheData (as2 (cacheNode c ! i) low ! j)) = (k, True))"

lemma pos_forD:
  assumes "pos_for c (asn, algo, ski) (i, low, j, k)"
  shows "length ski = 20" "low = lower_half asn" "locate (\<lambda>n. cmp_word (upper_half asn) (cn_upper n)) (cacheNode c) = (i, True)"
    "locate (\<lambda>a. cmp_word algo (ca_algoID a)) (as2 (cacheNode c ! i) low) = (j, True)"
    "locate (\<lambda>d. memcmp ski (cd_ski d)) (cacheData (as2 (cacheNode c ! i) low ! j)) = (k, True)"
  using assms unfolding pos_for_def by auto

lemma pos_for_lists:
  assumes "nodes_ok (cacheNode c)" "pos_for c (asn, algo, ski) (i, low, j, k)"
  shows "as2 (cacheNode c ! i) low = algos_of (cacheNode c) asn" "algos_ok (as2 (cacheNode c ! i) low)"
    "cacheData (as2 (cacheNode c ! i) low ! j) = data_of (algos_of (cacheNode c) asn) algo"
proof -
  note at = pos_forD [OF assms(2)]
  show as: "as2 (cacheNode c ! i) low = algos_of (cacheNode c) asn" using at(2,3) by (simp add: algos_of_def lookup_def)
  then show "algos_ok (as2 (cacheNode c ! i) low)" using algos_of_ok [OF assms(1)] by simp
  show "cacheData (as2 (cacheNode c ! i) low ! j) = data_of (algos_of (cacheNode c) asn) algo"
    using at(4) unfolding as [symmetric] by (simp add: data_of_def lookup_def)
qed

lemma pos_for_data:
  assumes "nodes_ok (cacheNode c)" "pos_for c key pos"
  shows "ski_view c key = Some (data_at pos c)"
proof -
  obtain asn algo ski i low j k where kp: "key = (asn, algo, ski)" "pos = (i, low, j, k)" by (cases key; cases pos)
  note at = pos_forD [OF assms(2) [unfolded kp]]
  show ?thesis using at(1,5) unfolding pos_for_lists(3) [OF assms(1) assms(2) [unfolded kp]] kp
    by (simp add: ski_view_def data_at_def data_list_def lookup_def pos_for_lists(3) [OF assms(1) assms(2) [unfolded kp]])
qed

text \<open>The entries next to the position are replaced.\<close>

lemma set_data_list_ok:
  assumes "nodes_ok (cacheNode c)" "pos_for c (asn, algo, ski) (i, low, j, k)"
    "ordered memcmp cd_ski (\<lambda>k. length k = 20) ds" "\<forall>d \<in> set ds. data_ok d"
  defines "c' \<equiv> set_data_list (i, low, j, k) ds c"
  shows "nodes_ok (cacheNode c')" "ski_semaphore c' = ski_semaphore c" "algo_ids c' x = algo_ids c x"
    "ski_view c' (asn', algo', ski') = (if asn' = asn \<and> algo' = algo then (if length ski' = 20 then lookup memcmp cd_ski ski' ds else None)
       else ski_view c (asn', algo', ski'))"
proof -
  note p = pos_for_lists [OF assms(1,2)]
  note at = pos_forD(3,2,4) [OF assms(2)]
  define as where "as = set_data j ds (as2 (cacheNode c ! i) low)"
  note d = set_data_ok [OF p(2) at(3) assms(3,4), folded as_def]
  note n = set_algos_ok [OF assms(1) at(1) d(1)]
  have c': "cacheNode c' = set_algos i (lower_half asn) as (cacheNode c)" "ski_semaphore c' = ski_semaphore c"
    by (simp_all add: c'_def set_data_list_def as_def at(2))
  show "nodes_ok (cacheNode c')" "ski_semaphore c' = ski_semaphore c" using n(1) unfolding c' by simp_all
  show "algo_ids c' x = algo_ids c x"
    using p(1) set_data_ids [of j ds] unfolding algo_ids_def c' n(3) by (simp add: as_def)
  show "ski_view c' (asn', algo', ski') = (if asn' = asn \<and> algo' = algo then (if length ski' = 20 then lookup memcmp cd_ski ski' ds else None)
       else ski_view c (asn', algo', ski'))"
    using d(3) p(1) unfolding ski_view_def c' n(3) by (cases "algo' = algo") simp_all
qed

lemma put_data_ok:
  assumes "nodes_ok (cacheNode c)" "pos_for c key pos" "cd_ski d = snd (snd key)" "data_ok d"
  shows "nodes_ok (cacheNode (put_data pos d c))" "ski_view (put_data pos d c) = (ski_view c)(key \<mapsto> d)"
    "ski_semaphore (put_data pos d c) = ski_semaphore c" "algo_ids (put_data pos d c) a = algo_ids c a"
proof -
  obtain asn algo ski i low j k where kp: "key = (asn, algo, ski)" "pos = (i, low, j, k)" by (cases key; cases pos)
  note pos = assms(2) [unfolded kp]
  let ?ds = "data_list pos c"
  have ds: "?ds = data_of (algos_of (cacheNode c) asn) algo" "ordered memcmp cd_ski (\<lambda>k. length k = 20) ?ds" "\<forall>d \<in> set ?ds. data_ok d"
    using pos_for_lists [OF assms(1) pos] data_of_ok [OF algos_of_ok [OF assms(1)]] by (simp_all add: kp data_list_def)
  have at: "locate (\<lambda>x. memcmp (cd_ski d) (cd_ski x)) ?ds = (k, True)" "length (cd_ski d) = 20" "cd_ski d = ski"
    using pos_forD(1,5) [OF pos] assms(3) by (simp_all add: kp data_list_def)
  note upd = keys.update_ordered [OF ds(2) at(2,1)]
  have "\<forall>x \<in> set (?ds[k := d]). data_ok x" using ds(3) assms(4) set_update_subset_insert [of ?ds k d] by auto
  note l = set_data_list_ok [OF assms(1) pos upd(1) this]
  have put: "put_data pos d c = set_data_list (i, low, j, k) (?ds[k := d]) c" by (simp add: put_data_def kp)
  show "nodes_ok (cacheNode (put_data pos d c))" "ski_semaphore (put_data pos d c) = ski_semaphore c" "algo_ids (put_data pos d c) a = algo_ids c a"
    unfolding put by (rule l(1), rule l(2), rule l(3))
  show "ski_view (put_data pos d c) = (ski_view c)(key \<mapsto> d)"
  proof
    fix x :: ski_key obtain asn' algo' ski' where x: "x = (asn', algo', ski')" by (cases x)
    have old: "ski_view c (asn, algo, ski') = (if length ski' = 20 then lookup memcmp cd_ski ski' ?ds else None)"
      by (simp add: ski_view_def ds(1))
    show "ski_view (put_data pos d c) x = ((ski_view c)(key \<mapsto> d)) x"
      unfolding put x l(4) using upd(2) [of ski'] at old by (auto simp: kp)
  qed
qed

lemma remove_data_ok:
  assumes "nodes_ok (cacheNode c)" "pos_for c key pos"
  shows "nodes_ok (cacheNode (remove_data pos c))" "ski_view (remove_data pos c) = (ski_view c)(key := None)"
    "ski_semaphore (remove_data pos c) = ski_semaphore c" "algo_ids (remove_data pos c) a = algo_ids c a"
proof -
  obtain asn algo ski i low j k where kp: "key = (asn, algo, ski)" "pos = (i, low, j, k)" by (cases key; cases pos)
  note pos = assms(2) [unfolded kp]
  let ?ds = "data_list pos c"
  have ds: "?ds = data_of (algos_of (cacheNode c) asn) algo" "ordered memcmp cd_ski (\<lambda>k. length k = 20) ?ds" "\<forall>d \<in> set ?ds. data_ok d"
    using pos_for_lists [OF assms(1) pos] data_of_ok [OF algos_of_ok [OF assms(1)]] by (simp_all add: kp data_list_def)
  have at: "locate (\<lambda>x. memcmp ski (cd_ski x)) ?ds = (k, True)" "length ski = 20"
    using pos_forD(1,5) [OF pos] by (simp_all add: kp data_list_def)
  note rem = keys.remove_ordered [OF ds(2) at(2,1)]
  have "\<forall>x \<in> set (remove_at k ?ds). data_ok x"
    using ds(3) unfolding remove_at_def by (auto dest: in_set_takeD in_set_dropD)
  note l = set_data_list_ok [OF assms(1) pos rem(1) this]
  have put: "remove_data pos c = set_data_list (i, low, j, k) (remove_at k ?ds) c" by (simp add: remove_data_def kp)
  show "nodes_ok (cacheNode (remove_data pos c))" "ski_semaphore (remove_data pos c) = ski_semaphore c" "algo_ids (remove_data pos c) a = algo_ids c a"
    unfolding put by (rule l(1), rule l(2), rule l(3))
  show "ski_view (remove_data pos c) = (ski_view c)(key := None)"
  proof
    fix x :: ski_key obtain asn' algo' ski' where x: "x = (asn', algo', ski')" by (cases x)
    have old: "ski_view c (asn, algo, ski') = (if length ski' = 20 then lookup memcmp cd_ski ski' ?ds else None)"
      by (simp add: ski_view_def ds(1))
    show "ski_view (remove_data pos c) x = ((ski_view c)(key := None)) x"
      unfolding put x l(4) using rem(2) [of ski'] at old by (auto simp: kp)
  qed
qed

section \<open>Finding and creating entries\<close>

lemma find_data:
  assumes ok: "nodes_ok (cacheNode c)" and ski: "length ski = 20"
  shows "\<exists>pos. ski_getCacheData mem c asn ski algo False = Inr (pos, c) \<and>
    (case pos of None \<Rightarrow> ski_view c (asn, algo, ski) = None | Some p \<Rightarrow> pos_for c (asn, algo, ski) p)"
proof -
  let ?ns = "cacheNode c"
  obtain i f where i: "locate (\<lambda>n. cmp_word (upper_half asn) (cn_upper n)) ?ns = (i, f)" by fastforce
  show ?thesis
  proof (cases f)
    case False
    then show ?thesis using i by (simp add: ski_getCacheData_def ski_getCacheNode_def ski_view_def algos_of_def data_of_def lookup_def)
  next
    case True
    let ?as = "as2 (?ns ! i) (lower_half asn)"
    have as: "algos_of ?ns asn = ?as" using i True by (simp add: algos_of_def lookup_def)
    obtain j g where j: "locate (\<lambda>a. cmp_word algo (ca_algoID a)) ?as = (j, g)" by fastforce
    show ?thesis
    proof (cases g)
      case False
      then show ?thesis using i True j as by (simp add: ski_getCacheData_def ski_getCacheNode_def ski_getCacheAlgoID_def ski_view_def data_of_def lookup_def)
    next
      case g: True
      let ?ds = "cacheData (?as ! j)"
      have ds: "data_of ?as algo = ?ds" using j g by (simp add: data_of_def lookup_def)
      obtain k h where k: "locate (\<lambda>d. memcmp ski (cd_ski d)) ?ds = (k, h)" by fastforce
      have same: "set_algos i (lower_half asn) (set_data j ?ds ?as) ?ns = ?ns" by (simp add: set_algos_def set_data_def)
      have "ski_getCacheData mem c asn ski algo False = Inr (if h then Some (i, lower_half asn, j, k) else None, c)"
        using i True j g k same by (simp add: ski_getCacheData_def ski_getCacheNode_def ski_getCacheAlgoID_def ski_findData_def)
      moreover have "ski_view c (asn, algo, ski) = None" if "\<not> h" using that k ski by (simp add: ski_view_def as ds lookup_def)
      moreover have "pos_for c (asn, algo, ski) (i, lower_half asn, j, k)" if h using that i True j g k ski by (simp add: pos_for_def)
      ultimately show ?thesis by auto
    qed
  qed
qed

text \<open>The entry that is created for a key.\<close>

definition new_data :: "ski_key \<Rightarrow> SKI_CACHE_DATA" where
  "new_data = (\<lambda>(asn, algo, ski). \<lparr>cd_counter = 0, cd_asn = asn, cd_ski = ski, cd_algoID = algo, cacheUID = []\<rparr>)"

definition entry_for :: "(ski_key \<rightharpoonup> SKI_CACHE_DATA) \<Rightarrow> ski_key \<Rightarrow> SKI_CACHE_DATA" where
  "entry_for V key = (case V key of Some d \<Rightarrow> d | None \<Rightarrow> new_data key)"

text \<open>The algorithm does not have to be inserted in front of others.\<close>

definition insertable :: "u8 \<Rightarrow> u8 list \<Rightarrow> bool" where
  "insertable algo ids = (case ids of [] \<Rightarrow> True | a # _ \<Rightarrow> a \<le> algo)"

lemma getCacheNode_ensure:
  "ski_getCacheNode True ns up True = (case ensure cmp_word cn_upper \<lparr>cn_upper = up, as2 = \<lambda>_. []\<rparr> ns of (i, ns) \<Rightarrow> Inr (Some i, ns))"
  by (simp add: ski_getCacheNode_def ensure_def ski_createCacheNode_def Let_def split: prod.splits)

lemma getCacheAlgoID_ensure:
  assumes "insertable algo (map ca_algoID as)"
  shows "ski_getCacheAlgoID True as algo True = (case ensure cmp_word ca_algoID \<lparr>ca_algoID = algo, cacheData = []\<rparr> as of (j, as) \<Rightarrow> Inr (Some j, as))"
proof -
  have "fst (locate (\<lambda>a. cmp_word algo (ca_algoID a)) as) \<noteq> 0" if "as \<noteq> []" "\<not> snd (locate (\<lambda>a. cmp_word algo (ca_algoID a)) as)"
    using assms that by (cases as) (auto simp: insertable_def cmp_word_def split: prod.splits if_splits)
  then show ?thesis by (auto simp: ski_getCacheAlgoID_def ensure_def ski_createCacheAlgoID_def Let_def split: prod.splits)
qed

lemma ensure_insertable:
  assumes "insertable algo (map ca_algoID as)" "ensure cmp_word ca_algoID \<lparr>ca_algoID = algo, cacheData = []\<rparr> as = (j, as')"
  shows "insertable algo (map ca_algoID as')"
proof (cases as)
  case Nil
  then show ?thesis using assms(2) by (auto simp: ensure_def insert_at_def insertable_def)
next
  case (Cons a as1)
  obtain i f where l: "locate (\<lambda>a. cmp_word algo (ca_algoID a)) as = (i, f)" by fastforce
  then have "f \<or> i \<noteq> 0" using assms(1) Cons by (auto simp: insertable_def cmp_word_def split: prod.splits if_splits)
  then show ?thesis using assms l Cons by (cases i) (auto simp: ensure_def insert_at_def insertable_def)
qed

lemma ensure_single:
  assumes "ensure cmp_word ca_algoID \<lparr>ca_algoID = algo, cacheData = []\<rparr> as = (j, as')"
  shows "map ca_algoID as \<in> {[], [algo]} \<longrightarrow> map ca_algoID as' = [algo]"
  using assms by (cases as) (auto simp: ensure_def insert_at_def cmp_word_def)

lemma findData_ensure:
  "ski_findData True ds asn ski algo True = (case ensure memcmp cd_ski (new_data (asn, algo, ski)) ds of (k, ds) \<Rightarrow> Inr (Some k, ds))"
  by (simp add: ski_findData_def ensure_def ski_createCacheData_def new_data_def Let_def split: prod.splits)

lemma ensure_node:
  assumes "nodes_ok ns" "ensure cmp_word cn_upper \<lparr>cn_upper = up, as2 = \<lambda>_. []\<rparr> ns = (i, ns')"
  shows "nodes_ok ns'" "locate (\<lambda>n. cmp_word up (cn_upper n)) ns' = (i, True)" "algos_of ns' asn = algos_of ns asn"
proof -
  have ord: "ordered cmp_word cn_upper (\<lambda>_. True) ns" using assms(1) by (simp add: nodes_ok_def)
  note e = nodes.ensure_ok [OF ord _ assms(2)]
  show "nodes_ok ns'" using assms(1) e(1,3) by (auto simp: nodes_ok_def algos_ok_def)
  show "locate (\<lambda>n. cmp_word up (cn_upper n)) ns' = (i, True)" using e(2) by simp
  show "algos_of ns' asn = algos_of ns asn"
    using e(4) e(5) [of "upper_half asn"] by (auto simp: algos_of_def split: option.splits)
qed

lemma ensure_algo:
  assumes "algos_ok as" "ensure cmp_word ca_algoID \<lparr>ca_algoID = algo, cacheData = []\<rparr> as = (j, as')"
  shows "algos_ok as'" "locate (\<lambda>a. cmp_word algo (ca_algoID a)) as' = (j, True)" "data_of as' algo' = data_of as algo'"
proof -
  have ord: "ordered cmp_word ca_algoID (\<lambda>_. True) as" using assms(1) by (simp add: algos_ok_def)
  note e = algos.ensure_ok [OF ord _ assms(2)]
  show "algos_ok as'" using assms(1) e(1,3) by (auto simp: algos_ok_def algo_ok_def)
  show "locate (\<lambda>a. cmp_word algo (ca_algoID a)) as' = (j, True)" using e(2) by simp
  show "data_of as' algo' = data_of as algo'"
    using e(4) e(5) [of algo'] by (auto simp: data_of_def split: option.splits)
qed

lemma create_data:
  assumes ok: "nodes_ok (cacheNode c)" and ski: "length ski = 20" and ins: "insertable algo (algo_ids c asn)"
  shows "\<exists>pos c'. ski_getCacheData True c asn ski algo True = Inr (Some pos, c') \<and> nodes_ok (cacheNode c') \<and> pos_for c' (asn, algo, ski) pos \<and>
    ski_semaphore c' = ski_semaphore c \<and> ski_view c' = (ski_view c)((asn, algo, ski) \<mapsto> entry_for (ski_view c) (asn, algo, ski)) \<and>
    data_at pos c' = entry_for (ski_view c) (asn, algo, ski) \<and> insertable algo (algo_ids c' asn) \<and> (\<forall>x. x \<noteq> asn \<longrightarrow> algo_ids c' x = algo_ids c x) \<and>
    (algo_ids c asn \<in> {[], [algo]} \<longrightarrow> algo_ids c' asn = [algo])"
proof -
  let ?low = "lower_half asn" and ?key = "(asn, algo, ski)"
  obtain i ns where i: "ensure cmp_word cn_upper \<lparr>cn_upper = upper_half asn, as2 = \<lambda>_. []\<rparr> (cacheNode c) = (i, ns)" by fastforce
  note n = ensure_node [OF ok i]
  have as: "as2 (ns ! i) ?low = algos_of (cacheNode c) asn" using n(2) n(3) [of asn] by (simp add: algos_of_def lookup_def)
  have ins': "insertable algo (map ca_algoID (as2 (ns ! i) ?low))" using ins unfolding algo_ids_def as .
  have asok: "algos_ok (as2 (ns ! i) ?low)" using algos_of_ok [OF ok] unfolding as .
  obtain j as' where j: "ensure cmp_word ca_algoID \<lparr>ca_algoID = algo, cacheData = []\<rparr> (as2 (ns ! i) ?low) = (j, as')" by fastforce
  note a = ensure_algo [OF asok j]
  have ds: "cacheData (as' ! j) = data_of (algos_of (cacheNode c) asn) algo" using a(2) a(3) [of algo] unfolding as by (simp add: data_of_def lookup_def)
  let ?ds = "data_of (algos_of (cacheNode c) asn) algo"
  have dsok: "ordered memcmp cd_ski (\<lambda>k. length k = 20) ?ds" "\<forall>d \<in> set ?ds. data_ok d" using data_of_ok [OF algos_of_ok [OF ok]] by auto
  obtain k ds' where k: "ensure memcmp cd_ski (new_data ?key) ?ds = (k, ds')" by fastforce
  have nk: "cd_ski (new_data ?key) = ski" "data_ok (new_data ?key)" by (simp_all add: new_data_def data_ok_def)
  have "length (cd_ski (new_data ?key)) = 20" using ski nk(1) by simp
  note d = keys.ensure_ok [OF dsok(1) this k, unfolded nk(1)]
  have ok': "\<forall>x \<in> set ds'. data_ok x" using d(3) dsok(2) nk(2) by auto
  note sd = set_data_ok [OF a(1,2) d(1) ok']
  note sa = set_algos_ok [OF n(1,2) sd(1)]
  define c' where "c' = c\<lparr>cacheNode := set_algos i ?low (set_data j ds' as') ns\<rparr>"
  have "ski_getCacheData True c asn ski algo True = Inr (Some (i, ?low, j, k), c')"
    unfolding ski_getCacheData_def Let_def getCacheNode_ensure i prod.case cbind_simps option.case getCacheAlgoID_ensure [OF ins'] j ds findData_ensure k c'_def by simp
  moreover have ok2: "nodes_ok (cacheNode c')" using sa(1) by (simp add: c'_def)
  moreover have pos: "pos_for c' ?key (i, ?low, j, k)" using sa(2,4) sd(2,4) d(2) ski by (simp add: pos_for_def c'_def)
  moreover have v: "ski_view c ?key = lookup memcmp cd_ski ski ?ds" using ski by (simp add: ski_view_def)
  then have e: "ds' ! k = entry_for (ski_view c) ?key" using d(4) by (simp add: entry_for_def)
  moreover have "ski_view c' = (ski_view c)(?key \<mapsto> entry_for (ski_view c) ?key)"
  proof
    fix x :: ski_key obtain asn' algo' ski' where x: "x = (asn', algo', ski')" by (cases x)
    have "data_of (algos_of (cacheNode c') asn') algo' = (if asn' = asn \<and> algo' = algo then ds' else data_of (algos_of (cacheNode c) asn') algo')"
      using sa(3) sd(3) n(3) a(3) unfolding c'_def as by simp
    then show "ski_view c' x = ((ski_view c)(?key \<mapsto> entry_for (ski_view c) ?key)) x"
      using d(5) [of ski'] e ski unfolding x ski_view_def by auto
  qed
  moreover have "data_at (i, ?low, j, k) c' = entry_for (ski_view c) ?key" using sa(4) sd(4) e by (simp add: data_at_def data_list_def c'_def)
  moreover have "ski_semaphore c' = ski_semaphore c" by (simp add: c'_def)
  moreover have "insertable algo (algo_ids c' asn) \<and> (\<forall>x. x \<noteq> asn \<longrightarrow> algo_ids c' x = algo_ids c x)"
    using ensure_insertable [OF ins' j] sa(3) n(3) by (simp add: algo_ids_def c'_def set_data_ids)
  moreover have "algo_ids c asn \<in> {[], [algo]} \<longrightarrow> algo_ids c' asn = [algo]"
    using ensure_single [OF j] sa(3) as by (simp add: algo_ids_def c'_def set_data_ids)
  ultimately show ?thesis by blast
qed

section \<open>The updates of an entry\<close>

lemma add_uid_ok:
  assumes "data_ok d" "uid \<noteq> 0"
  shows "\<exists>us. ski_addUpdateCacheUID True (cacheUID d) uid = Inr us \<and> data_ok (d\<lparr>cacheUID := us\<rparr>) \<and>
    (\<forall>v. lookup compareSrxUpdateID cuid v us =
      (if v = uid then Some \<lparr>cuid = uid, cu_counter = (case lookup compareSrxUpdateID cuid uid (cacheUID d) of Some u \<Rightarrow> cu_counter u + 1 | None \<Rightarrow> 1)\<rparr>
       else lookup compareSrxUpdateID cuid v (cacheUID d)))"
proof -
  let ?us = "cacheUID d"
  have ord: "ordered compareSrxUpdateID cuid (\<lambda>_. True) ?us" using assms(1) by (simp add: data_ok_def)
  obtain i f where i: "locate (\<lambda>u. compareSrxUpdateID uid (cuid u)) ?us = (i, f)" by fastforce
  show ?thesis
  proof (cases f)
    case True
    have at: "i < length ?us" "cuid (?us ! i) = uid" using uids.locate_stops [OF ord _ i] True by simp_all
    define u where "u = (?us ! i)\<lparr>cu_counter := cu_counter (?us ! i) + 1\<rparr>"
    have u: "u = \<lparr>cuid = uid, cu_counter = cu_counter (?us ! i) + 1\<rparr>" using at(2) unfolding u_def by (cases "?us ! i") simp
    have l: "locate (\<lambda>x. compareSrxUpdateID (cuid u) (cuid x)) ?us = (i, True)" using i True u by simp
    note upd = uids.update_ordered [OF ord _ l]
    have "ski_addUpdateCacheUID True ?us uid = Inr (?us[i := u])" using i True by (simp add: ski_addUpdateCacheUID_def u_def)
    moreover have "data_ok (d\<lparr>cacheUID := ?us[i := u]\<rparr>)"
      using upd(1) assms set_update_subset_insert [of ?us i u] u by (auto simp: data_ok_def)
    moreover have "lookup compareSrxUpdateID cuid uid ?us = Some (?us ! i)" using i True by (simp add: lookup_def)
    ultimately show ?thesis using upd(2) u by simp
  next
    case False
    define u where "u = \<lparr>cuid = uid, cu_counter = (1 :: u16)\<rparr>"
    have l: "locate (\<lambda>x. compareSrxUpdateID (cuid u) (cuid x)) ?us = (i, False)" using i False by (simp add: u_def)
    note ins = uids.insert_ordered [OF ord _ l]
    have "ski_addUpdateCacheUID True ?us uid = Inr (insert_at i u ?us)"
      using i False assms(2) by (simp add: ski_addUpdateCacheUID_def ski_createCacheUID_def u_def)
    moreover have "data_ok (d\<lparr>cacheUID := insert_at i u ?us\<rparr>)"
      using ins(1) assms set_insert_at [of i u ?us] by (auto simp: data_ok_def u_def)
    moreover have "lookup compareSrxUpdateID cuid uid ?us = None" using i False by (simp add: lookup_def)
    ultimately show ?thesis using ins(2) by (simp add: u_def)
  qed
qed

lemma drop_uid_ok:
  assumes "data_ok d"
  shows "data_ok (d\<lparr>cacheUID := ski_dropUpdateCacheUID (cacheUID d) uid\<rparr>)"
    "lookup compareSrxUpdateID cuid v (ski_dropUpdateCacheUID (cacheUID d) uid) =
      (if v = uid then (case lookup compareSrxUpdateID cuid uid (cacheUID d) of
            Some u \<Rightarrow> if cu_counter u = 1 then None else Some (u\<lparr>cu_counter := cu_counter u - 1\<rparr>) | None \<Rightarrow> None)
       else lookup compareSrxUpdateID cuid v (cacheUID d))"
proof -
  let ?us = "cacheUID d" and ?new = "ski_dropUpdateCacheUID (cacheUID d) uid"
  have ord: "ordered compareSrxUpdateID cuid (\<lambda>_. True) ?us" using assms by (simp add: data_ok_def)
  obtain i f where i: "locate (\<lambda>u. compareSrxUpdateID uid (cuid u)) ?us = (i, f)" by fastforce
  define u where "u = (?us ! i)\<lparr>cu_counter := cu_counter (?us ! i) - 1\<rparr>"
  have lk: "lookup compareSrxUpdateID cuid uid ?us = (if f then Some (?us ! i) else None)" using i by (simp add: lookup_def)
  have at: "i < length ?us" "cuid u = uid" if f using uids.locate_stops [OF ord _ i] that by (simp_all add: u_def)
  have new: "?new = (if \<not> f then ?us else if cu_counter (?us ! i) = 1 then remove_at i ?us else ?us[i := u])"
    using i by (simp add: ski_dropUpdateCacheUID_def u_def)
  have "data_ok (d\<lparr>cacheUID := ?new\<rparr>) \<and> lookup compareSrxUpdateID cuid v ?new =
      (if v = uid then (case lookup compareSrxUpdateID cuid uid ?us of
            Some u \<Rightarrow> if cu_counter u = 1 then None else Some (u\<lparr>cu_counter := cu_counter u - 1\<rparr>) | None \<Rightarrow> None)
       else lookup compareSrxUpdateID cuid v ?us)"
  proof (cases f)
    case False
    then show ?thesis using new assms lk by simp
  next
    case True
    have ne: "\<forall>x \<in> set ?us. cuid x \<noteq> 0" using assms by (simp add: data_ok_def)
    have l: "locate (\<lambda>x. compareSrxUpdateID (cuid u) (cuid x)) ?us = (i, True)" "locate (\<lambda>x. compareSrxUpdateID uid (cuid x)) ?us = (i, True)"
      using i True at by simp_all
    have "uid \<noteq> 0" using ne at True uids.locate_stops [OF ord _ i] by (metis nth_mem)
    show ?thesis
    proof (cases "cu_counter (?us ! i) = 1")
      case one: True
      have "\<forall>x \<in> set (remove_at i ?us). cuid x \<noteq> 0" using ne unfolding remove_at_def by (auto dest: in_set_takeD in_set_dropD)
      then show ?thesis using new True one lk uids.remove_ordered [OF ord _ l(2)] by (simp add: data_ok_def)
    next
      case more: False
      have "\<forall>x \<in> set (?us[i := u]). cuid x \<noteq> 0" using ne \<open>uid \<noteq> 0\<close> at(2) True set_update_subset_insert [of ?us i u] by auto
      then show ?thesis using new True more lk uids.update_ordered [OF ord _ l(1)] at(2) by (simp add: data_ok_def u_def)
    qed
  qed
  then show "data_ok (d\<lparr>cacheUID := ?new\<rparr>)" "lookup compareSrxUpdateID cuid v ?new =
      (if v = uid then (case lookup compareSrxUpdateID cuid uid ?us of
            Some u \<Rightarrow> if cu_counter u = 1 then None else Some (u\<lparr>cu_counter := cu_counter u - 1\<rparr>) | None \<Rightarrow> None)
       else lookup compareSrxUpdateID cuid v ?us)" by simp_all
qed

section \<open>Keys\<close>

lemma view_entry:
  assumes "nodes_ok (cacheNode c)" "ski_view c (asn, algo, ski) = Some d"
  shows "data_ok d" "cd_ski d = ski" "length ski = 20"
proof -
  let ?ds = "data_of (algos_of (cacheNode c) asn) algo"
  have ds: "ordered memcmp cd_ski (\<lambda>k. length k = 20) ?ds" "\<forall>d \<in> set ?ds. data_ok d" using data_of_ok [OF algos_of_ok [OF assms(1)]] by auto
  show l: "length ski = 20" using assms(2) by (simp add: ski_view_def split: if_splits)
  then have "d \<in> set ?ds \<and> cd_ski d = ski" using assms(2) keys.lookup_Some [OF ds(1) l] by (simp add: ski_view_def)
  then show "data_ok d" "cd_ski d = ski" using ds(2) by auto
qed

lemma entry_for_ok:
  assumes "nodes_ok (cacheNode c)"
  shows "data_ok (entry_for (ski_view c) key)" "cd_ski (entry_for (ski_view c) key) = snd (snd key)"
  using view_entry [OF assms] by (cases key; auto simp: entry_for_def new_data_def data_ok_def split: option.splits)+

text \<open>The updates that are told about a change.\<close>

definition queued_keys :: "SKI_CACHE_DATA \<Rightarrow> (u32 \<times> u32) list \<Rightarrow> (u32 \<times> u32) list" where
  "queued_keys d l = fold (\<lambda>u. coalesce rq_merge (cuid u) RQ_KEY) (cacheUID d) l"

lemma notify_updates_ok:
  "rq_inv q \<Longrightarrow> length (rq_entries q) + length us \<le> 2 ^ 32 - 1 \<Longrightarrow>
   \<exists>q'. notify_updates us q = Inr q' \<and> rq_inv q' \<and> rq_entries q' = fold (\<lambda>u. coalesce rq_merge (cuid u) RQ_KEY) us (rq_entries q)"
proof (induction us arbitrary: q)
  case (Cons u us)
  have "length (rq_entries q) < 2 ^ 32 - 1" using Cons.prems(2) by simp
  then obtain q1 where q1: "rq_queue q RQ_KEY (cuid u) = Inr q1" "rq_inv q1" "rq_entries q1 = coalesce rq_merge (cuid u) RQ_KEY (rq_entries q)"
    using rq.enq_ok [OF Cons.prems(1), of RQ_KEY "cuid u"] by blast
  have "length (rq_entries q1) + length us \<le> 2 ^ 32 - 1"
    using Cons.prems(2) length_coalesce [of rq_merge "cuid u" RQ_KEY "rq_entries q"] unfolding q1(3) by simp
  from Cons.IH [OF q1(2) this] show ?case using q1 by (simp add: notify_updates_def)
qed (simp add: notify_updates_def)

lemma lock_ok:
  assumes "ski_inv c"
  obtains c0 where "ski_lock c = Inr c0" "nodes_ok (cacheNode c0)" "ski_view c0 = ski_view c" "ski_semaphore c0 = 0" "algo_ids c0 = algo_ids c"
proof
  show "ski_lock c = Inr (c\<lparr>ski_semaphore := 0\<rparr>)" using assms by (simp add: ski_lock_def ski_inv_def)
qed (use assms in \<open>simp_all add: ski_inv_def ski_view_def algo_ids_def fun_eq_iff\<close>)

lemma unlock_ok:
  assumes "nodes_ok (cacheNode c)" "ski_semaphore c = 0"
  shows "ski_inv (ski_unlock c)" "ski_view (ski_unlock c) = ski_view c" "algo_ids (ski_unlock c) = algo_ids c"
  using assms by (simp_all add: ski_unlock_def ski_inv_def ski_view_def algo_ids_def fun_eq_iff)

lemma registerKey_ok:
  assumes c: "ski_inv c" "length ski = 20" "insertable algo (algo_ids c asn)"
    and q: "rq_inv q" "length (rq_entries q) + length (cacheUID (entry_for (ski_view c) (asn, algo, ski))) \<le> 2 ^ 32 - 1"
  defines "e \<equiv> entry_for (ski_view c) (asn, algo, ski)"
  shows "\<exists>c' q'. ski_registerKey True (Some c) asn ski algo q = Inr (True, Some c', q') \<and> ski_inv c' \<and>
    ski_view c' = (ski_view c)((asn, algo, ski) \<mapsto> e\<lparr>cd_counter := cd_counter e + 1\<rparr>) \<and> rq_inv q' \<and> rq_entries q' = queued_keys e (rq_entries q)"
proof -
  obtain c0 where c0: "ski_lock c = Inr c0" "nodes_ok (cacheNode c0)" "ski_view c0 = ski_view c" "ski_semaphore c0 = 0" "algo_ids c0 = algo_ids c"
    using c(1) by (rule lock_ok)
  obtain pos c1 where c1: "ski_getCacheData True c0 asn ski algo True = Inr (Some pos, c1)" "nodes_ok (cacheNode c1)" "pos_for c1 (asn, algo, ski) pos"
    "ski_semaphore c1 = 0" "ski_view c1 = (ski_view c)((asn, algo, ski) \<mapsto> e)" "data_at pos c1 = e"
    using create_data [OF c0(2) c(2), of algo asn] c(3) c0 unfolding e_def by auto
  let ?d = "e\<lparr>cd_counter := cd_counter e + 1\<rparr>"
  have d: "cd_ski ?d = snd (snd (asn, algo, ski))" "data_ok ?d"
    using entry_for_ok [OF c0(2), of "(asn, algo, ski)"] unfolding c0(3) e_def by (simp_all add: data_ok_def)
  note put = put_data_ok [OF c1(2,3) d]
  obtain q' where q': "notify_updates (cacheUID ?d) q = Inr q'" "rq_inv q'" "rq_entries q' = queued_keys e (rq_entries q)"
    using notify_updates_ok [OF q(1), of "cacheUID e"] q(2) unfolding queued_keys_def e_def by auto
  have "ski_registerKey True (Some c) asn ski algo q = Inr (True, Some (ski_unlock (put_data pos ?d c1)), q')"
    using c0(1) c1(1,6) q'(1) by (simp add: ski_registerKey_def Let_def)
  moreover have "ski_semaphore (put_data pos ?d c1) = 0" using put(3) c1(4) by simp
  note unlock_ok [OF put(1) this]
  ultimately show ?thesis using q'(2,3) put(2) c1(5) by simp
qed

lemma unregisterKey_ok:
  assumes c: "ski_inv c" "length ski = 20"
    and q: "rq_inv q" "length (rq_entries q) + length (cacheUID (entry_for (ski_view c) (asn, algo, ski))) \<le> 2 ^ 32 - 1"
  shows "\<exists>c' q'. ski_unregisterKey (Some c) asn ski algo q = Inr (True, Some c', q') \<and> ski_inv c' \<and> rq_inv q' \<and> algo_ids c' = algo_ids c \<and>
    (ski_view c', rq_entries q') = (case ski_view c (asn, algo, ski) of
        Some d \<Rightarrow> if cd_counter d = 0 then (ski_view c, rq_entries q)
                  else if cacheUID d = [] then ((ski_view c)((asn, algo, ski) := None), rq_entries q)
                  else ((ski_view c)((asn, algo, ski) \<mapsto> d\<lparr>cd_counter := cd_counter d - 1\<rparr>), queued_keys d (rq_entries q))
      | None \<Rightarrow> (ski_view c, rq_entries q))"
proof -
  let ?key = "(asn, algo, ski)"
  obtain c0 where c0: "ski_lock c = Inr c0" "nodes_ok (cacheNode c0)" "ski_view c0 = ski_view c" "ski_semaphore c0 = 0" "algo_ids c0 = algo_ids c"
    using c(1) by (rule lock_ok)
  note un = unlock_ok [OF c0(2,4)]
  obtain pos where pos: "ski_getCacheData True c0 asn ski algo False = Inr (pos, c0)"
    "case pos of None \<Rightarrow> ski_view c0 ?key = None | Some p \<Rightarrow> pos_for c0 ?key p" using find_data [OF c0(2) c(2), of True asn algo] by blast
  show ?thesis
  proof (cases pos)
    case None
    then have "ski_unregisterKey (Some c) asn ski algo q = Inr (True, Some (ski_unlock c0), q)"
      using c0(1) pos by (simp add: ski_unregisterKey_def)
    then show ?thesis using None pos(2) c0(3,5) un q(1) by simp
  next
    case (Some p)
    define d where "d = data_at p c0"
    have p: "pos_for c0 ?key p" using pos(2) Some by simp
    then have v: "ski_view c ?key = Some d" using pos_for_data [OF c0(2)] c0(3) by (simp add: d_def)
    have ent: "data_ok d" "cd_ski d = ski" using view_entry [OF c0(2)] v c0(3) by simp_all
    have room: "length (rq_entries q) + length (cacheUID d) \<le> 2 ^ 32 - 1" using q(2) v by (simp add: entry_for_def)
    note rem = remove_data_ok [OF c0(2) p]
    let ?d = "d\<lparr>cd_counter := cd_counter d - 1\<rparr>"
    have nd: "cd_ski ?d = snd (snd ?key)" "data_ok ?d" using ent by (simp_all add: data_ok_def)
    note put = put_data_ok [OF c0(2) p nd]
    obtain q' where q': "notify_updates (cacheUID d) q = Inr q'" "rq_inv q'" "rq_entries q' = queued_keys d (rq_entries q)"
      using notify_updates_ok [OF q(1) room] unfolding queued_keys_def by blast
    consider "cd_counter d = 0" | "cd_counter d \<noteq> 0" "cacheUID d = []" | "cd_counter d \<noteq> 0" "cacheUID d \<noteq> []" by blast
    then show ?thesis
    proof cases
      case 1
      then have "ski_unregisterKey (Some c) asn ski algo q = Inr (True, Some (ski_unlock c0), q)"
        using c0(1) pos Some by (simp add: ski_unregisterKey_def d_def)
      then show ?thesis using 1 v c0(3,5) un q(1) by simp
    next
      case 2
      then have "ski_unregisterKey (Some c) asn ski algo q = Inr (True, Some (ski_unlock (remove_data p c0)), q)"
        using c0(1) pos Some by (simp add: ski_unregisterKey_def d_def Let_def)
      moreover have "ski_semaphore (remove_data p c0) = 0" using rem(3) c0(4) by simp
      note unlock_ok [OF rem(1) this]
      ultimately show ?thesis using 2 v c0(3,5) rem(2,4) q(1) by (simp add: fun_eq_iff)
    next
      case 3
      then have "ski_unregisterKey (Some c) asn ski algo q = Inr (True, Some (ski_unlock (put_data p ?d c0)), q')"
        using c0(1) pos Some q'(1) by (simp add: ski_unregisterKey_def d_def Let_def)
      moreover have "ski_semaphore (put_data p ?d c0) = 0" using put(3) c0(4) by simp
      note unlock_ok [OF put(1) this]
      ultimately show ?thesis using 3 v c0(3,5) put(2,4) q'(2,3) by (simp add: fun_eq_iff)
    qed
  qed
qed

end
