(* ===== verification/Ski_Updates.thy ===== *)
theory Ski_Updates
  imports Ski_Registry
begin

text \<open>
  Updates in the SKI cache: the registration of an update under all keys of its path, its removal, and what an announced key means for the
  updates that were registered before.
\<close>

section \<open>Registration on the map\<close>

definition add_uid :: "u32 \<Rightarrow> SKI_CACHE_DATA \<Rightarrow> SKI_CACHE_DATA" where
  "add_uid uid d = d\<lparr>cacheUID := (case ski_addUpdateCacheUID True (cacheUID d) uid of Inr us \<Rightarrow> us | Inl _ \<Rightarrow> cacheUID d)\<rparr>"

definition drop_uid :: "u32 \<Rightarrow> SKI_CACHE_DATA \<Rightarrow> SKI_CACHE_DATA" where
  "drop_uid uid d = d\<lparr>cacheUID := ski_dropUpdateCacheUID (cacheUID d) uid\<rparr>"

definition reg_key :: "u32 \<Rightarrow> ski_key \<Rightarrow> (ski_key \<rightharpoonup> SKI_CACHE_DATA) \<Rightarrow> (ski_key \<rightharpoonup> SKI_CACHE_DATA)" where
  "reg_key uid key V = V(key \<mapsto> add_uid uid (entry_for V key))"

definition unreg_entry :: "u32 \<Rightarrow> SKI_CACHE_DATA option \<Rightarrow> SKI_CACHE_DATA option" where
  "unreg_entry uid x = (case x of None \<Rightarrow> None | Some d \<Rightarrow>
     if cacheUID (drop_uid uid d) = [] \<and> cd_counter d = 0 then None else Some (drop_uid uid d))"

definition unreg_key :: "u32 \<Rightarrow> ski_key \<Rightarrow> (ski_key \<rightharpoonup> SKI_CACHE_DATA) \<Rightarrow> (ski_key \<rightharpoonup> SKI_CACHE_DATA)" where
  "unreg_key uid key V = V(key := unreg_entry uid (V key))"

lemma fold_reg_key:
  "distinct ks \<Longrightarrow> fold (reg_key uid) ks V x = (if x \<in> set ks then Some (add_uid uid (entry_for V x)) else V x)"
proof (induction ks arbitrary: V)
  case (Cons k ks)
  then show ?case by (auto simp: reg_key_def entry_for_def)
qed simp

lemma fold_unreg_key:
  "distinct ks \<Longrightarrow> fold (unreg_key uid) ks V x = (if x \<in> set ks then unreg_entry uid (V x) else V x)"
proof (induction ks arbitrary: V)
  case (Cons k ks)
  then show ?case by (auto simp: unreg_key_def)
qed simp

lemma add_uid_sel [simp]: "cd_counter (add_uid uid d) = cd_counter d" "cd_ski (add_uid uid d) = cd_ski d"
  "cd_counter (drop_uid uid d) = cd_counter d" "cd_ski (drop_uid uid d) = cd_ski d"
  by (simp_all add: add_uid_def drop_uid_def)

lemma add_uid_props:
  assumes "data_ok d" "uid \<noteq> 0"
  shows "ski_addUpdateCacheUID True (cacheUID d) uid = Inr (cacheUID (add_uid uid d))" "data_ok (add_uid uid d)"
    "lookup compareSrxUpdateID cuid v (cacheUID (add_uid uid d)) =
      (if v = uid then Some \<lparr>cuid = uid, cu_counter = (case lookup compareSrxUpdateID cuid uid (cacheUID d) of Some u \<Rightarrow> cu_counter u + 1 | None \<Rightarrow> 1)\<rparr>
       else lookup compareSrxUpdateID cuid v (cacheUID d))"
  using add_uid_ok [OF assms] by (auto simp: add_uid_def)

lemma add_uid_member:
  assumes "data_ok d" "uid \<noteq> 0"
  shows "uid \<in> cuid ` set (cacheUID (add_uid uid d))"
proof -
  let ?us = "cacheUID (add_uid uid d)"
  have "ordered compareSrxUpdateID cuid (\<lambda>_. True) ?us" using add_uid_props(2) [OF assms] by (simp add: data_ok_def)
  moreover obtain u where "lookup compareSrxUpdateID cuid uid ?us = Some u" using add_uid_props(3) [OF assms, of uid] by simp
  ultimately have "u \<in> set ?us" "cuid u = uid" using uids.lookup_Some [of ?us uid u] by simp_all
  then show ?thesis by blast
qed

text \<open>No registration of the update has a counter that ran over.\<close>

definition counted :: "SKI_CACHE_DATA \<Rightarrow> bool" where
  "counted d \<longleftrightarrow> (\<forall>u \<in> set (cacheUID d). cu_counter u \<noteq> 0) \<and> (cacheUID d \<noteq> [] \<or> cd_counter d \<noteq> 0)"

lemma drop_add_uid:
  assumes "data_ok d" "uid \<noteq> 0" "\<forall>u \<in> set (cacheUID d). cu_counter u \<noteq> 0"
  shows "drop_uid uid (add_uid uid d) = d"
proof -
  let ?us = "cacheUID d" and ?new = "cacheUID (add_uid uid d)"
  have ord: "ordered compareSrxUpdateID cuid (\<lambda>_. True) ?us" using assms(1) by (simp add: data_ok_def)
  note a = add_uid_props [OF assms(1,2)]
  note dr = drop_uid_ok(1) [where uid = uid, OF a(2)] drop_uid_ok(2) [where uid = uid, OF a(2)]
  have "lookup compareSrxUpdateID cuid v (ski_dropUpdateCacheUID ?new uid) = lookup compareSrxUpdateID cuid v ?us" for v
  proof (cases "v = uid")
    case True
    show ?thesis
    proof (cases "lookup compareSrxUpdateID cuid uid ?us")
      case None
      then show ?thesis using dr(2) [of v] a(3) [of uid] True by simp
    next
      case (Some u)
      then have "u \<in> set ?us" "cuid u = uid" using uids.lookup_Some [OF ord, of uid u] by simp_all
      then have "cu_counter u \<noteq> 0" "u = \<lparr>cuid = uid, cu_counter = cu_counter u\<rparr>" using assms(3) by (auto simp: SKI_CACHE_UPDATEID.equality)
      moreover have "cu_counter u + 1 \<noteq> 1" using \<open>cu_counter u \<noteq> 0\<close> by simp
      ultimately show ?thesis using dr(2) [of v] a(3) [of uid] True Some by simp
    qed
  next
    case False
    then show ?thesis using dr(2) [of v] a(3) [of v] by simp
  qed
  moreover have "ordered compareSrxUpdateID cuid (\<lambda>_. True) (ski_dropUpdateCacheUID ?new uid)" using dr(1) by (simp add: data_ok_def)
  ultimately have "ski_dropUpdateCacheUID ?new uid = ?us" using uids.ordered_unique [OF _ ord] by simp
  then show ?thesis by (simp add: drop_uid_def add_uid_def)
qed

lemma unreg_reg_entry:
  assumes "data_ok (entry_for V key)" "uid \<noteq> 0" "\<And>d. V key = Some d \<Longrightarrow> counted d"
  shows "unreg_entry uid (Some (add_uid uid (entry_for V key))) = V key"
proof -
  let ?e = "entry_for V key"
  have "\<forall>u \<in> set (cacheUID ?e). cu_counter u \<noteq> 0"
    using assms(3) by (cases "V key"; cases key) (auto simp: entry_for_def new_data_def counted_def)
  then have e: "drop_uid uid (add_uid uid ?e) = ?e" using drop_add_uid [OF assms(1,2)] by simp
  show ?thesis
  proof (cases "V key")
    case None
    then have "cacheUID ?e = []" "cd_counter ?e = 0" by (cases key; simp add: entry_for_def new_data_def)+
    then show ?thesis using e None by (simp add: unreg_entry_def)
  next
    case (Some d)
    then show ?thesis using e assms(3) [OF Some] by (auto simp: unreg_entry_def entry_for_def counted_def)
  qed
qed

section \<open>The code on a parsed path\<close>

definition simple_info :: "SKI_TMP_UPD_INFO \<Rightarrow> u8 \<Rightarrow> u32 list \<Rightarrow> u8 list list \<Rightarrow> bool" where
  "simple_info info algo asns skis \<longleftrightarrow> ui_status info = REGVAL_INVALID \<and> unat (nrSegments info) = length asns \<and> nrSigBlocks info = 1 \<and>
     ui_asn info = asns \<and> ui_algoID info = [algo, 0] \<and> ui_ski info = concat skis \<and> length skis = length asns \<and> (\<forall>s \<in> set skis. length s = 20)"

definition path_keys :: "u8 \<Rightarrow> u32 list \<Rightarrow> u8 list list \<Rightarrow> ski_key list" where
  "path_keys algo asns skis = map (\<lambda>(asn, ski). (asn, algo, ski)) (zip asns skis)"

lemma concat_slice: "\<forall>s \<in> set ss. length s = n \<Longrightarrow> i < length ss \<Longrightarrow> take n (drop (i * n) (concat ss)) = ss ! i"
proof (induction ss arbitrary: i)
  case (Cons s ss)
  then show ?case by (cases i) (auto simp: drop_Cons)
qed simp

lemma length_concat_const: "\<forall>s \<in> set ss. length s = n \<Longrightarrow> length (concat ss) = length ss * n"
  by (induction ss) auto

lemma segments_simple: "simple_info info algo asns skis \<Longrightarrow> segments_of info = map (Pair 0) [0..<length asns]"
  by (simp add: simple_info_def segments_of_def)

lemma ski_at_simple:
  assumes "simple_info info algo asns skis" "seg < length asns"
  shows "ski_at info (seg * SKI_LENGTH) = Inr (skis ! seg)" "length (skis ! seg) = 20"
proof -
  have s: "ui_ski info = concat skis" "length skis = length asns" "\<forall>s \<in> set skis. length s = 20" using assms(1) by (simp_all add: simple_info_def)
  show "length (skis ! seg) = 20" using s assms(2) by simp
  have "seg * 20 + 20 \<le> length (concat skis)" using length_concat_const [OF s(3)] s(2) assms(2) by simp
  then show "ski_at info (seg * SKI_LENGTH) = Inr (skis ! seg)"
    using concat_slice [OF s(3), of seg] s assms(2) by (simp add: ski_at_def rd_bytes_def)
qed

lemma register_segment_ok:
  assumes i: "simple_info info algo asns skis" "seg < length asns" and c: "nodes_ok (cacheNode c)" "uid \<noteq> 0"
    and ins: "\<forall>asn \<in> set asns. insertable algo (algo_ids c asn)"
  shows "\<exists>c'. register_segment True uid info (0, seg) c = Inr c' \<and> nodes_ok (cacheNode c') \<and> ski_semaphore c' = ski_semaphore c \<and>
    ski_view c' = reg_key uid (asns ! seg, algo, skis ! seg) (ski_view c) \<and> (\<forall>asn \<in> set asns. insertable algo (algo_ids c' asn)) \<and>
    (\<forall>x. algo_ids c x \<in> {[], [algo]} \<longrightarrow> algo_ids c' x = (if x = asns ! seg then [algo] else algo_ids c x))"
proof -
  let ?asn = "asns ! seg" and ?ski = "skis ! seg"
  let ?key = "(?asn, algo, ?ski)"
  have ski: "ski_at info (seg * SKI_LENGTH) = Inr ?ski" "length ?ski = 20" using ski_at_simple [OF i] by simp_all
  have asn: "insertable algo (algo_ids c ?asn)" using ins i(2) by simp
  obtain pos c1 where c1: "ski_getCacheData True c ?asn ?ski algo True = Inr (Some pos, c1)" "nodes_ok (cacheNode c1)" "pos_for c1 ?key pos"
    "ski_semaphore c1 = ski_semaphore c" "ski_view c1 = (ski_view c)(?key \<mapsto> entry_for (ski_view c) ?key)" "data_at pos c1 = entry_for (ski_view c) ?key"
    "insertable algo (algo_ids c1 ?asn)" "\<forall>x. x \<noteq> ?asn \<longrightarrow> algo_ids c1 x = algo_ids c x" "algo_ids c ?asn \<in> {[], [algo]} \<longrightarrow> algo_ids c1 ?asn = [algo]"
    using create_data [OF c(1) ski(2) asn] by blast
  define e where "e = entry_for (ski_view c) ?key"
  have e: "data_ok e" "cd_ski e = ?ski" using entry_for_ok [OF c(1), of ?key] by (simp_all add: e_def)
  note a = add_uid_props [OF e(1) c(2)]
  have upd: "e\<lparr>cacheUID := cacheUID (add_uid uid e)\<rparr> = add_uid uid e" by (simp add: add_uid_def)
  have d: "cd_ski (add_uid uid e) = snd (snd ?key)" using e(2) by simp
  note put = put_data_ok [OF c1(2,3) d a(2)]
  have "register_segment True uid info (0, seg) c = Inr (put_data pos (add_uid uid e) c1)"
    using i ski(1) c1(1,6) a(1) upd unfolding register_segment_def e_def [symmetric] by (simp add: simple_info_def)
  moreover have "ski_view (put_data pos (add_uid uid e) c1) = reg_key uid ?key (ski_view c)"
    using put(2) c1(5) by (simp add: reg_key_def e_def)
  moreover have "\<forall>x \<in> set asns. insertable algo (algo_ids (put_data pos (add_uid uid e) c1) x)"
    using put(4) c1(7,8) ins by metis
  moreover have "\<forall>x. algo_ids c x \<in> {[], [algo]} \<longrightarrow> algo_ids (put_data pos (add_uid uid e) c1) x = (if x = ?asn then [algo] else algo_ids c x)"
    using put(4) c1(8,9) by metis
  ultimately show ?thesis using put(1,3) c1(4) by auto
qed

lemma register_segments_ok:
  assumes i: "simple_info info algo asns skis" and uid: "uid \<noteq> 0"
  shows "set segs \<subseteq> {..<length asns} \<Longrightarrow> nodes_ok (cacheNode c) \<Longrightarrow> \<forall>asn \<in> set asns. insertable algo (algo_ids c asn) \<Longrightarrow>
    \<exists>c'. cfold (register_segment True uid info) (map (Pair 0) segs) c = Inr c' \<and> nodes_ok (cacheNode c') \<and> ski_semaphore c' = ski_semaphore c \<and>
    ski_view c' = fold (reg_key uid) (map (\<lambda>seg. (asns ! seg, algo, skis ! seg)) segs) (ski_view c) \<and> (\<forall>asn \<in> set asns. insertable algo (algo_ids c' asn)) \<and>
    (\<forall>x. algo_ids c x \<in> {[], [algo]} \<longrightarrow> algo_ids c' x = (if x \<in> (!) asns ` set segs then [algo] else algo_ids c x))"
proof (induction segs arbitrary: c)
  case (Cons s segs)
  have "s < length asns" using Cons.prems(1) by simp
  from register_segment_ok [OF i this Cons.prems(2) uid Cons.prems(3)]
  obtain c1 where c1: "register_segment True uid info (0, s) c = Inr c1" "nodes_ok (cacheNode c1)" "ski_semaphore c1 = ski_semaphore c"
    "ski_view c1 = reg_key uid (asns ! s, algo, skis ! s) (ski_view c)" "\<forall>asn \<in> set asns. insertable algo (algo_ids c1 asn)"
    "\<forall>x. algo_ids c x \<in> {[], [algo]} \<longrightarrow> algo_ids c1 x = (if x = asns ! s then [algo] else algo_ids c x)" by blast
  have "set segs \<subseteq> {..<length asns}" using Cons.prems(1) by simp
  from Cons.IH [OF this c1(2,5)]
  obtain c2 where c2: "cfold (register_segment True uid info) (map (Pair 0) segs) c1 = Inr c2" "nodes_ok (cacheNode c2)" "ski_semaphore c2 = ski_semaphore c1"
    "ski_view c2 = fold (reg_key uid) (map (\<lambda>seg. (asns ! seg, algo, skis ! seg)) segs) (ski_view c1)" "\<forall>asn \<in> set asns. insertable algo (algo_ids c2 asn)"
    "\<forall>x. algo_ids c1 x \<in> {[], [algo]} \<longrightarrow> algo_ids c2 x = (if x \<in> (!) asns ` set segs then [algo] else algo_ids c1 x)" by blast
  have "\<forall>x. algo_ids c x \<in> {[], [algo]} \<longrightarrow> algo_ids c2 x = (if x \<in> (!) asns ` set (s # segs) then [algo] else algo_ids c x)"
  proof (intro allI impI)
    fix x assume x: "algo_ids c x \<in> {[], [algo]}"
    then have "algo_ids c1 x = (if x = asns ! s then [algo] else algo_ids c x)" using c1(6) by blast
    moreover from this x have "algo_ids c2 x = (if x \<in> (!) asns ` set segs then [algo] else algo_ids c1 x)" using c2(6) [rule_format, of x] by (auto split: if_splits)
    ultimately show "algo_ids c2 x = (if x \<in> (!) asns ` set (s # segs) then [algo] else algo_ids c x)" by auto
  qed
  then show ?case using c1(1,3,4) c2(1-5) by auto
qed simp

lemma path_keys_upt:
  assumes "length skis = length asns"
  shows "map (\<lambda>seg. (asns ! seg, algo, skis ! seg)) [0..<length asns] = path_keys algo asns skis"
  using assms by (intro nth_equalityI) (simp_all add: path_keys_def)

lemma registerUpdate_ok:
  assumes c: "ski_inv c" "uid \<noteq> 0" and b: "ski_parseBGPsec_PATH b = Inr info" "simple_info info algo asns skis"
    and ins: "\<forall>asn \<in> set asns. insertable algo (algo_ids c asn)"
  shows "\<exists>c'. ski_registerUpdate True (Some c) uid (Some b) = Inr (REGVAL_INVALID, Some c') \<and> ski_inv c' \<and>
    ski_view c' = fold (reg_key uid) (path_keys algo asns skis) (ski_view c) \<and> (\<forall>asn \<in> set asns. insertable algo (algo_ids c' asn)) \<and>
    (\<forall>x. algo_ids c x \<in> {[], [algo]} \<longrightarrow> algo_ids c' x = (if x \<in> set asns then [algo] else algo_ids c x))"
proof -
  obtain c0 where c0: "ski_lock c = Inr c0" "nodes_ok (cacheNode c0)" "ski_view c0 = ski_view c" "ski_semaphore c0 = 0" "algo_ids c0 = algo_ids c"
    using c(1) by (rule lock_ok)
  have len: "length skis = length asns" "ui_status info = REGVAL_INVALID" using b(2) by (simp_all add: simple_info_def)
  have sub: "set [0..<length asns] \<subseteq> {..<length asns}" by auto
  have img: "(!) asns ` set [0..<length asns] = set asns" by (metis map_nth set_map)
  obtain c1 where c1: "cfold (register_segment True uid info) (segments_of info) c0 = Inr c1" "nodes_ok (cacheNode c1)" "ski_semaphore c1 = 0"
    "ski_view c1 = fold (reg_key uid) (path_keys algo asns skis) (ski_view c)" "\<forall>asn \<in> set asns. insertable algo (algo_ids c1 asn)"
    "\<forall>x. algo_ids c x \<in> {[], [algo]} \<longrightarrow> algo_ids c1 x = (if x \<in> set asns then [algo] else algo_ids c x)"
    using register_segments_ok [OF b(2) c(2) sub c0(2)] c0(3-5) ins img unfolding segments_simple [OF b(2)] path_keys_upt [OF len(1)] img by auto
  have "ski_registerUpdate True (Some c) uid (Some b) = Inr (REGVAL_INVALID, Some (ski_unlock c1))"
    using c0(1) b(1) c1(1) len(2) by (simp add: ski_registerUpdate_def)
  then show ?thesis using unlock_ok [OF c1(2,3)] c1(4-6) by simp
qed

lemma unregister_segment_ok:
  assumes i: "simple_info info algo asns skis" "seg < length asns" and c: "nodes_ok (cacheNode c)"
  shows "\<exists>c'. unregister_segment uid info (0, seg) c = Inr c' \<and> nodes_ok (cacheNode c') \<and> ski_semaphore c' = ski_semaphore c \<and>
    ski_view c' = unreg_key uid (asns ! seg, algo, skis ! seg) (ski_view c)"
proof -
  let ?asn = "asns ! seg" and ?ski = "skis ! seg"
  let ?key = "(?asn, algo, ?ski)"
  have ski: "ski_at info (seg * SKI_LENGTH) = Inr ?ski" "length ?ski = 20" using ski_at_simple [OF i] by simp_all
  obtain pos where pos: "ski_getCacheData True c ?asn ?ski algo False = Inr (pos, c)"
    "case pos of None \<Rightarrow> ski_view c ?key = None | Some p \<Rightarrow> pos_for c ?key p" using find_data [OF c ski(2), of True ?asn algo] by blast
  have run: "unregister_segment uid info (0, seg) c = Inr (case pos of None \<Rightarrow> c | Some p \<Rightarrow>
      if cacheUID (drop_uid uid (data_at p c)) = [] \<and> cd_counter (data_at p c) = 0 then remove_data p c else put_data p (drop_uid uid (data_at p c)) c)"
    using i ski(1) pos(1) by (cases pos) (simp_all add: unregister_segment_def simple_info_def drop_uid_def Let_def)
  show ?thesis
  proof (cases pos)
    case None
    then have "ski_view c ?key = None" using pos(2) by simp
    then have "unreg_key uid ?key (ski_view c) = ski_view c" by (auto simp: unreg_key_def unreg_entry_def)
    then show ?thesis using run None c by simp
  next
    case (Some p)
    define d where "d = data_at p c"
    have p: "pos_for c ?key p" using pos(2) Some by simp
    then have v: "ski_view c ?key = Some d" using pos_for_data [OF c] by (simp add: d_def)
    have ent: "data_ok d" "cd_ski d = ?ski" using view_entry [OF c v] by simp_all
    have nd: "cd_ski (drop_uid uid d) = snd (snd ?key)" "data_ok (drop_uid uid d)" using ent drop_uid_ok(1) [OF ent(1)] by (simp_all add: drop_uid_def)
    show ?thesis
      using run Some v put_data_ok [OF c p nd] remove_data_ok [OF c p] by (auto simp: d_def unreg_key_def unreg_entry_def)
  qed
qed

lemma unregister_segments_ok:
  assumes i: "simple_info info algo asns skis"
  shows "set segs \<subseteq> {..<length asns} \<Longrightarrow> nodes_ok (cacheNode c) \<Longrightarrow>
    \<exists>c'. cfold (unregister_segment uid info) (map (Pair 0) segs) c = Inr c' \<and> nodes_ok (cacheNode c') \<and> ski_semaphore c' = ski_semaphore c \<and>
    ski_view c' = fold (unreg_key uid) (map (\<lambda>seg. (asns ! seg, algo, skis ! seg)) segs) (ski_view c)"
proof (induction segs arbitrary: c)
  case (Cons s segs)
  have "s < length asns" using Cons.prems(1) by simp
  from unregister_segment_ok [OF i this Cons.prems(2), of uid]
  obtain c1 where c1: "unregister_segment uid info (0, s) c = Inr c1" "nodes_ok (cacheNode c1)" "ski_semaphore c1 = ski_semaphore c"
    "ski_view c1 = unreg_key uid (asns ! s, algo, skis ! s) (ski_view c)" by blast
  have "set segs \<subseteq> {..<length asns}" using Cons.prems(1) by simp
  from Cons.IH [OF this c1(2)] show ?case using c1 by auto
qed simp

lemma unregisterUpdate_ok:
  assumes c: "ski_inv c" and b: "ski_parseBGPsec_PATH b = Inr info" "simple_info info algo asns skis"
  shows "\<exists>c'. ski_unregisterUpdate (Some c) uid (Some b) = Inr (True, Some c') \<and> ski_inv c' \<and>
    ski_view c' = fold (unreg_key uid) (path_keys algo asns skis) (ski_view c)"
proof -
  obtain c0 where c0: "ski_lock c = Inr c0" "nodes_ok (cacheNode c0)" "ski_view c0 = ski_view c" "ski_semaphore c0 = 0" "algo_ids c0 = algo_ids c"
    using c by (rule lock_ok)
  have len: "length skis = length asns" "ui_status info = REGVAL_INVALID" using b(2) by (simp_all add: simple_info_def)
  have sub: "set [0..<length asns] \<subseteq> {..<length asns}" by auto
  obtain c1 where c1: "cfold (unregister_segment uid info) (segments_of info) c0 = Inr c1" "nodes_ok (cacheNode c1)" "ski_semaphore c1 = 0"
    "ski_view c1 = fold (unreg_key uid) (path_keys algo asns skis) (ski_view c)"
    using unregister_segments_ok [OF b(2) sub c0(2), of uid] c0(3,4) unfolding segments_simple [OF b(2)] path_keys_upt [OF len(1)] by auto
  have "ski_unregisterUpdate (Some c) uid (Some b) = Inr (True, Some (ski_unlock c1))"
    using c0(1) b(1) c1(1) len(2) by (simp add: ski_unregisterUpdate_def)
  then show ?thesis using unlock_ok [OF c1(2,3)] c1(4) by simp
qed

section \<open>Attributes with one signature block\<close>

definition path_attr :: "u8 \<Rightarrow> u8 \<Rightarrow> (u8 \<times> u8 \<times> u32) list \<Rightarrow> u8 \<Rightarrow> (u8 list \<times> u8 list) list \<Rightarrow> u8 list" where
  "path_attr flags ty segs algo sigs = enc_attr flags ty (enc_body segs (enc_block algo sigs))"

definition path_attr_ok :: "u8 \<Rightarrow> (u8 \<times> u8 \<times> u32) list \<Rightarrow> u8 \<Rightarrow> (u8 list \<times> u8 list) list \<Rightarrow> bool" where
  "path_attr_ok flags segs algo sigs \<longleftrightarrow> attr_fits flags (enc_body segs (enc_block algo sigs)) \<and> length sigs = length segs \<and> sigs_ok sigs"

definition attr_asns :: "(u8 \<times> u8 \<times> u32) list \<Rightarrow> u32 list" where "attr_asns segs = map (snd \<circ> snd) segs"

definition attr_keys :: "(u8 \<times> u8 \<times> u32) list \<Rightarrow> u8 \<Rightarrow> (u8 list \<times> u8 list) list \<Rightarrow> ski_key list" where
  "attr_keys segs algo sigs = path_keys algo (attr_asns segs) (map fst sigs)"

lemma path_attr_parsed:
  assumes "path_attr_ok flags segs algo sigs"
  obtains info where "ski_parseBGPsec_PATH (path_attr flags ty segs algo sigs @ rest) = Inr info" "simple_info info algo (attr_asns segs) (map fst sigs)"
proof
  have ok: "attr_fits flags (enc_body segs (enc_block algo sigs))" "length sigs = length segs" "sigs_ok sigs" using assms by (simp_all add: path_attr_ok_def)
  show "ski_parseBGPsec_PATH (path_attr flags ty segs algo sigs @ rest) = Inr \<lparr>ui_status = REGVAL_INVALID, nrSegments = of_nat (length segs),
      nrSigBlocks = 1, ui_asn = map (snd \<circ> snd) segs, ui_algoID = [algo, 0], ui_ski = concat (map fst sigs)\<rparr>"
    unfolding path_attr_def by (rule parse_one_block [OF ok])
  have "length segs < 65536" using ok(1) unfolding attr_fits_def body_length by (simp split: if_splits)
  then show "simple_info \<lparr>ui_status = REGVAL_INVALID, nrSegments = of_nat (length segs), nrSigBlocks = 1, ui_asn = map (snd \<circ> snd) segs,
      ui_algoID = [algo, 0], ui_ski = concat (map fst sigs)\<rparr> algo (attr_asns segs) (map fst sigs)"
    using ok(2,3) by (auto simp: simple_info_def attr_asns_def sigs_ok_def unat_of_nat)
qed

section \<open>What a key means for the updates\<close>

lemma add_uid_members:
  assumes "data_ok d" "uid \<noteq> 0"
  shows "cuid ` set (cacheUID (add_uid uid d)) = insert uid (cuid ` set (cacheUID d))" "length (cacheUID (add_uid uid d)) \<le> Suc (length (cacheUID d))"
proof -
  let ?us = "cacheUID d"
  have ord: "ordered compareSrxUpdateID cuid (\<lambda>_. True) ?us" using assms(1) by (simp add: data_ok_def)
  obtain i f where i: "locate (\<lambda>u. compareSrxUpdateID uid (cuid u)) ?us = (i, f)" by fastforce
  define u w where "u = \<lparr>cuid = uid, cu_counter = (1 :: u16)\<rparr>" and "w = (?us ! i)\<lparr>cu_counter := cu_counter (?us ! i) + 1\<rparr>"
  have add: "cacheUID (add_uid uid d) = (if f then ?us[i := w] else insert_at i u ?us)"
    using add_uid_props(1) [OF assms] i assms(2) by (cases f) (auto simp: ski_addUpdateCacheUID_def ski_createCacheUID_def u_def w_def)
  show "length (cacheUID (add_uid uid d)) \<le> Suc (length ?us)" unfolding add by (cases f) (simp_all add: insert_at_def min_def)
  show "cuid ` set (cacheUID (add_uid uid d)) = insert uid (cuid ` set ?us)"
  proof (cases f)
    case True
    have at: "i < length ?us" "cuid (?us ! i) = uid" using uids.locate_stops [OF ord _ i] True by simp_all
    have "map cuid (?us[i := w]) = (map cuid ?us)[i := map cuid ?us ! i]" using at by (simp add: map_update w_def)
    then have "map cuid (?us[i := w]) = map cuid ?us" by (simp only: list_update_id)
    then have "cuid ` set (?us[i := w]) = cuid ` set ?us" by (metis set_map)
    moreover have "uid \<in> cuid ` set ?us" using at nth_mem by fastforce
    ultimately show ?thesis using True by (simp add: add insert_absorb)
  next
    case False
    then show ?thesis by (simp add: add set_insert_at u_def)
  qed
qed

text \<open>An identifier that was entered is queued with the reason.\<close>

definition queued_for :: "u32 \<Rightarrow> u32 \<Rightarrow> (u32 \<times> u32) list \<Rightarrow> bool" where
  "queued_for r i l \<longleftrightarrow> (\<exists>s. (i, s) \<in> set l \<and> s AND r = r)"

lemma queued_for_coalesce:
  "queued_for RQ_KEY j (coalesce rq_merge i RQ_KEY l)" if "i = j \<or> queued_for RQ_KEY j l"
  using that
proof (induction l)
  case (Cons p l)
  obtain k s where p: "p = (k, s)" by (cases p)
  show ?case
  proof (cases "k = i")
    case True
    then show ?thesis using Cons.prems p by (auto simp: queued_for_def rq_merge_def split: if_splits)
  next
    case False
    then show ?thesis using Cons p by (auto simp: queued_for_def)
  qed
qed (auto simp: queued_for_def)

lemma queued_for_fold:
  "i \<in> cuid ` set us \<or> queued_for RQ_KEY i l \<Longrightarrow> queued_for RQ_KEY i (fold (\<lambda>u. coalesce rq_merge (cuid u) RQ_KEY) us l)"
proof (induction us arbitrary: l)
  case (Cons u us)
  show ?case
  proof (cases "cuid u = i \<or> queued_for RQ_KEY i l")
    case True
    then show ?thesis using Cons.IH queued_for_coalesce [of "cuid u" i l] by auto
  next
    case False
    then show ?thesis using Cons by auto
  qed
qed auto

section \<open>Properties\<close>

text \<open>A key wakes up the updates that wait for it. After \<open>ski_registerUpdate\<close> of an update with a well-formed path of distinct keys,
  \<open>ski_registerKey\<close> of any key of the path counts the key and puts the update, and every update that was registered under the key
  before, into the RPKI queue for the validation of its signatures. The algorithm of the path must not be
  smaller than the first algorithm that is stored for an AS of the path.\<close>

lemma ski_key_announced:
  assumes c: "ski_inv c" "uid \<noteq> 0" and a: "path_attr_ok flags segs algo sigs" "distinct (attr_keys segs algo sigs)"
    and ins: "\<forall>asn \<in> set (attr_asns segs). insertable algo (algo_ids c asn)" and k: "(asn, algo, ski) \<in> set (attr_keys segs algo sigs)"
    and q: "rq_inv q" "length (rq_entries q) + length (cacheUID (entry_for (ski_view c) (asn, algo, ski))) < 2 ^ 32 - 1"
  shows "\<exists>c1 c2 q' d. ski_registerUpdate True (Some c) uid (Some (path_attr flags ty segs algo sigs @ rest)) = Inr (REGVAL_INVALID, Some c1) \<and>
    ski_registerKey True (Some c1) asn ski algo q = Inr (True, Some c2, q') \<and> ski_inv c2 \<and> rq_inv q' \<and>
    ski_view c2 (asn, algo, ski) = Some d \<and> cd_counter d = cd_counter (entry_for (ski_view c) (asn, algo, ski)) + 1 \<and>
    (\<forall>v \<in> insert uid (cuid ` set (cacheUID (entry_for (ski_view c) (asn, algo, ski)))). queued_for RQ_KEY v (rq_entries q'))"
proof -
  let ?key = "(asn, algo, ski)" and ?e = "entry_for (ski_view c) (asn, algo, ski)"
  obtain info where info: "ski_parseBGPsec_PATH (path_attr flags ty segs algo sigs @ rest) = Inr info" "simple_info info algo (attr_asns segs) (map fst sigs)"
    using a(1) by (rule path_attr_parsed)
  obtain c1 where c1: "ski_registerUpdate True (Some c) uid (Some (path_attr flags ty segs algo sigs @ rest)) = Inr (REGVAL_INVALID, Some c1)" "ski_inv c1"
    "ski_view c1 = fold (reg_key uid) (attr_keys segs algo sigs) (ski_view c)" "\<forall>asn \<in> set (attr_asns segs). insertable algo (algo_ids c1 asn)"
    using registerUpdate_ok [OF c info ins] unfolding attr_keys_def by blast
  have e: "data_ok ?e" using entry_for_ok(1) c(1) by (simp add: ski_inv_def)
  have v: "ski_view c1 ?key = Some (add_uid uid ?e)" using fold_reg_key [OF a(2)] k c1(3) by simp
  then have e1: "entry_for (ski_view c1) ?key = add_uid uid ?e" by (simp add: entry_for_def)
  have path: "asn \<in> set (attr_asns segs)" "length ski = 20"
    using k view_entry(3) [of c1 asn algo ski] v c1(2) by (auto simp: attr_keys_def path_keys_def ski_inv_def dest: set_zip_leftD)
  have room: "length (rq_entries q) + length (cacheUID (entry_for (ski_view c1) ?key)) \<le> 2 ^ 32 - 1"
    using q(2) add_uid_members(2) [OF e c(2)] unfolding e1 by simp
  have "insertable algo (algo_ids c1 asn)" using c1(4) path(1) by blast
  from registerKey_ok [OF c1(2) path(2) this q(1) room, unfolded e1]
  obtain c2 q' where c2: "ski_registerKey True (Some c1) asn ski algo q = Inr (True, Some c2, q')" "ski_inv c2"
    "ski_view c2 = (ski_view c1)(?key \<mapsto> (add_uid uid ?e)\<lparr>cd_counter := cd_counter (add_uid uid ?e) + 1\<rparr>)" "rq_inv q'"
    "rq_entries q' = queued_keys (add_uid uid ?e) (rq_entries q)" by blast
  have "queued_for RQ_KEY v (rq_entries q')" if "v \<in> insert uid (cuid ` set (cacheUID ?e))" for v
    unfolding c2(5) queued_keys_def using that add_uid_members(1) [OF e c(2)] by (intro queued_for_fold) simp
  then show ?thesis using c1(1) c2(1-4) by auto
qed

definition empty_ski :: SKI_CACHE where
  "empty_ski = \<lparr>cacheNode = [], ski_semaphore = 1\<rparr>"

lemma empty_ski_ok: "ski_inv empty_ski" "ski_view empty_ski = (\<lambda>_. None)" "algo_ids empty_ski = (\<lambda>_. [])"
  by (auto simp: empty_ski_def ski_inv_def nodes_ok_def ski_view_def algo_ids_def algos_of_def data_of_def fun_eq_iff)

definition sample_segs :: "(u8 \<times> u8 \<times> u32) list" where "sample_segs = [(1, 0, 65001), (1, 0, 65002)]"

definition sample_sigs :: "(u8 list \<times> u8 list) list" where "sample_sigs = [(sample_ski 7, [1, 2]), (sample_ski 8, [3])]"

lemma sample_path_ok: "path_attr_ok 0x90 sample_segs algo sample_sigs" "distinct (attr_keys sample_segs algo sample_sigs)"
  "attr_asns sample_segs = [65001, 65002]" "attr_keys sample_segs algo sample_sigs = [(65001, algo, sample_ski 7), (65002, algo, sample_ski 8)]"
  by (simp_all add: path_attr_ok_def attr_fits_def body_length block_length enc_sig_def sigs_ok_def sample_ski_def sample_segs_def sample_sigs_def
      attr_asns_def attr_keys_def path_keys_def)

theorem ski_key_announced_witness:
  "\<exists>c1 c2 q'. ski_registerUpdate True (Some empty_ski) 9 (Some (path_attr 0x90 33 sample_segs 1 sample_sigs)) = Inr (REGVAL_INVALID, Some c1) \<and>
     ski_registerKey True (Some c1) 65002 (sample_ski 8) 1 (rq_createQueue True) = Inr (True, Some c2, q') \<and> queued_for RQ_KEY 9 (rq_entries q')"
  using ski_key_announced [OF empty_ski_ok(1), of 9 "0x90" sample_segs 1 sample_sigs 65002 "sample_ski 8" "rq_createQueue True" 33 "[]"]
    sample_path_ok(1,2,4) [of 1] sample_path_ok(3) rq_create_inv
  by (auto simp: empty_ski_ok insertable_def entry_for_def new_data_def simp del: RQ_KEY_def)

text \<open>C30. Unregistering undoes registering. If an update with a well-formed path of distinct keys, whose algorithm does not have to be inserted in front of another one of an AS, is registered and
  then unregistered with the same attribute, the cache has the same entries, counters and updates as before; the
  entries before had no counter that ran over and were in use.\<close>

theorem ski_update_roundtrip:
  assumes c: "ski_inv c" "uid \<noteq> 0" and a: "path_attr_ok flags segs algo sigs" "distinct (attr_keys segs algo sigs)"
    and ins: "\<forall>asn \<in> set (attr_asns segs). insertable algo (algo_ids c asn)" and old: "\<forall>key d. ski_view c key = Some d \<longrightarrow> counted d"
  shows "\<exists>c1 c2. ski_registerUpdate True (Some c) uid (Some (path_attr flags ty segs algo sigs @ rest)) = Inr (REGVAL_INVALID, Some c1) \<and>
    ski_unregisterUpdate (Some c1) uid (Some (path_attr flags ty segs algo sigs @ rest)) = Inr (True, Some c2) \<and> ski_inv c2 \<and> ski_view c2 = ski_view c"
proof -
  let ?ks = "attr_keys segs algo sigs"
  obtain info where info: "ski_parseBGPsec_PATH (path_attr flags ty segs algo sigs @ rest) = Inr info" "simple_info info algo (attr_asns segs) (map fst sigs)"
    using a(1) by (rule path_attr_parsed)
  obtain c1 where c1: "ski_registerUpdate True (Some c) uid (Some (path_attr flags ty segs algo sigs @ rest)) = Inr (REGVAL_INVALID, Some c1)" "ski_inv c1"
    "ski_view c1 = fold (reg_key uid) ?ks (ski_view c)"
    using registerUpdate_ok [OF c info ins] unfolding attr_keys_def by blast
  obtain c2 where c2: "ski_unregisterUpdate (Some c1) uid (Some (path_attr flags ty segs algo sigs @ rest)) = Inr (True, Some c2)" "ski_inv c2"
    "ski_view c2 = fold (unreg_key uid) ?ks (ski_view c1)"
    using unregisterUpdate_ok [OF c1(2) info, of uid] unfolding attr_keys_def by blast
  have "ski_view c2 x = ski_view c x" for x
  proof (cases "x \<in> set ?ks")
    case True
    have "data_ok (entry_for (ski_view c) x)" using entry_for_ok(1) c(1) by (simp add: ski_inv_def)
    then have "unreg_entry uid (Some (add_uid uid (entry_for (ski_view c) x))) = ski_view c x" using old by (intro unreg_reg_entry [OF _ c(2)]) blast+
    then show ?thesis using True fold_unreg_key [OF a(2)] fold_reg_key [OF a(2)] unfolding c1(3) c2(3) by simp
  next
    case False
    then show ?thesis using fold_unreg_key [OF a(2)] fold_reg_key [OF a(2)] unfolding c1(3) c2(3) by simp
  qed
  then show ?thesis using c1(1) c2(1,2) by blast
qed

theorem ski_update_roundtrip_witness:
  "\<exists>c1 c2. ski_registerUpdate True (Some empty_ski) 9 (Some (path_attr 0x90 33 sample_segs 1 sample_sigs)) = Inr (REGVAL_INVALID, Some c1) \<and>
     ski_unregisterUpdate (Some c1) 9 (Some (path_attr 0x90 33 sample_segs 1 sample_sigs)) = Inr (True, Some c2) \<and> ski_view c2 = (\<lambda>_. None)"
  using ski_update_roundtrip [OF empty_ski_ok(1), of 9 "0x90" sample_segs 1 sample_sigs 33 "[]"] sample_path_ok(1,2,4) [of 1] sample_path_ok(3)
  by (auto simp: empty_ski_ok insertable_def)

text \<open>An update can stop the server. If an update with algorithm \<open>big\<close> is registered for a path of ASes for which nothing is stored, then the announcement of a key
  with a smaller algorithm for one of these ASes uses a pointer that was never set. The algorithm of an update is
  taken from the attribute as it is; keys are announced with algorithm 1.\<close>

lemma smaller_algorithm_crashes:
  assumes c: "ski_inv c" "uid \<noteq> 0" and a: "path_attr_ok flags segs big sigs" and new: "\<forall>x \<in> set (attr_asns segs). algo_ids c x = []"
    and k: "asn \<in> set (attr_asns segs)" "algo < big"
  shows "\<exists>c1. ski_registerUpdate True (Some c) uid (Some (path_attr flags ty segs big sigs @ rest)) = Inr (REGVAL_INVALID, Some c1) \<and>
    ski_registerKey True (Some c1) asn ski algo q = Inl Uninitialised"
proof -
  obtain info where info: "ski_parseBGPsec_PATH (path_attr flags ty segs big sigs @ rest) = Inr info" "simple_info info big (attr_asns segs) (map fst sigs)"
    using a by (rule path_attr_parsed)
  have "\<forall>x \<in> set (attr_asns segs). insertable big (algo_ids c x)" using new by (simp add: insertable_def)
  from registerUpdate_ok [OF c info this]
  obtain c1 where c1: "ski_registerUpdate True (Some c) uid (Some (path_attr flags ty segs big sigs @ rest)) = Inr (REGVAL_INVALID, Some c1)" "ski_inv c1"
    "\<forall>x. algo_ids c x \<in> {[], [big]} \<longrightarrow> algo_ids c1 x = (if x \<in> set (attr_asns segs) then [big] else algo_ids c x)" by blast
  have ids: "algo_ids c1 asn = [big]" using c1(3) new k(1) by simp
  obtain c0 where c0: "ski_lock c1 = Inr c0" "nodes_ok (cacheNode c0)" "algo_ids c0 = algo_ids c1" using c1(2) by (rule lock_ok)
  have al: "map ca_algoID (algos_of (cacheNode c0) asn) = [big]" using ids unfolding c0(3) [symmetric] algo_ids_def .
  then obtain n where n: "lookup cmp_word cn_upper (upper_half asn) (cacheNode c0) = Some n" by (auto simp: algos_of_def split: option.splits)
  then obtain i where i: "locate (\<lambda>x. cmp_word (upper_half asn) (cn_upper x)) (cacheNode c0) = (i, True)" "cacheNode c0 ! i = n"
    by (auto simp: lookup_def split: prod.splits if_splits)
  have as: "map ca_algoID (as2 n (lower_half asn)) = [big]" using al n by (simp add: algos_of_def)
  then have "ski_getCacheAlgoID True (as2 n (lower_half asn)) algo True = Inl Uninitialised"
    using k(2) by (auto simp: ski_getCacheAlgoID_def ski_createCacheAlgoID_def cmp_word_def)
  then have "ski_registerKey True (Some c1) asn ski algo q = Inl Uninitialised"
    using c0(1) i by (simp add: ski_registerKey_def ski_getCacheData_def ski_getCacheNode_def Let_def)
  then show ?thesis using c1(1) by blast
qed

theorem smaller_algorithm_crashes_witness:
  "\<exists>c1. ski_registerUpdate True (Some empty_ski) 9 (Some (path_attr 0x90 33 sample_segs 2 sample_sigs)) = Inr (REGVAL_INVALID, Some c1) \<and>
     ski_registerKey True (Some c1) 65001 (sample_ski 5) 1 (rq_createQueue True) = Inl Uninitialised"
  using smaller_algorithm_crashes [OF empty_ski_ok(1), of 9 "0x90" sample_segs 2 sample_sigs 65001 1 33 "[]" "sample_ski 5" "rq_createQueue True"] sample_path_ok(1,2,4) [of 2] sample_path_ok(3)
  by (simp add: empty_ski_ok)

text \<open>A key that was announced twice, as it is by two caches, is forgotten with the first withdrawal when no update waits for it.\<close>

lemma second_key_lost:
  assumes c: "ski_inv c" "length ski = 20" and v: "ski_view c (asn, algo, ski) = Some d" "cd_counter d = 2" "cacheUID d = []" and q: "rq_inv q" "length (rq_entries q) \<le> 2 ^ 32 - 1"
  shows "\<exists>c' q'. ski_unregisterKey (Some c) asn ski algo q = Inr (True, Some c', q') \<and> ski_view c' (asn, algo, ski) = None"
proof -
  have "length (rq_entries q) + length (cacheUID (entry_for (ski_view c) (asn, algo, ski))) \<le> 2 ^ 32 - 1" using q(2) v by (simp add: entry_for_def)
  from unregisterKey_ok [OF c q(1) this] show ?thesis using v by auto
qed

end
