(* ===== verification/Router_Keys.thy ===== *)
theory Router_Keys
  imports End_Of_Data Ski_Updates
begin

text \<open>
  Router keys: \<open>handleRouterKey\<close> of \<open>server/rpki_handler.c\<close>, which is called for every key the validation cache announces or withdraws, the calls
  that the update cache makes to the SKI cache, and the way from an announced key to the clients.
\<close>

section \<open>The handler\<close>

text \<open>The crypto API is a parameter: whether it accepts a key. What it answers to a withdrawal is only logged.\<close>

definition SCA_ECDSA_ALGORITHM :: u8 where [simp]: "SCA_ECDSA_ALGORITHM = 1"

definition ECDSA_PUB_KEY_DER_LENGTH :: nat where [simp]: "ECDSA_PUB_KEY_DER_LENGTH = 91"

record BGPSecKey =
  bk_algoID :: u8
  bk_asn :: u32
  bk_ski :: "u8 list"
  bk_keyLength :: u16
  bk_keyData :: "u8 list"

definition getAlgoID :: "u8 list \<Rightarrow> u8" where
  "getAlgoID keyInfo = SCA_ECDSA_ALGORITHM"

definition handleRouterKey :: "bool \<Rightarrow> (BGPSecKey \<Rightarrow> u8 \<Rightarrow> bool) \<Rightarrow> u32 \<Rightarrow> bool \<Rightarrow> u32 \<Rightarrow> u8 list \<Rightarrow> u8 list \<Rightarrow> SKI_CACHE option \<Rightarrow> RPKI_QUEUE option \<Rightarrow>
    (SKI_CACHE option \<times> RPKI_QUEUE option) cres" where
  "handleRouterKey mem registerPublicKey vcID isAnn as_no ski keyInfo cache q =
     (let algo = getAlgoID keyInfo
      in if algo \<noteq> SCA_ECDSA_ALGORITHM then Inr (cache, q)
         else cbind (rd_bytes ski 0 SKI_LENGTH) (\<lambda>key_ski.
              cbind (if mem then rd_bytes keyInfo 0 ECDSA_PUB_KEY_DER_LENGTH else Inl NullDeref) (\<lambda>keyData.
                let bsKey = \<lparr>bk_algoID = algo, bk_asn = htonl as_no, bk_ski = key_ski, bk_keyLength = of_nat ECDSA_PUB_KEY_DER_LENGTH, bk_keyData = keyData\<rparr>
                in if isAnn
                   then (if registerPublicKey bsKey (ucast vcID)
                         then cbind (ski_registerKey mem cache as_no key_ski algo q) (\<lambda>(_, cache, q). Inr (cache, q)) else Inr (cache, q))
                   else cbind (ski_unregisterKey cache as_no key_ski algo q) (\<lambda>(_, cache, q). Inr (cache, q)))))"

section \<open>The calls of the update cache\<close>

definition perform_ski_call :: "bool \<Rightarrow> ski_call \<Rightarrow> SKI_CACHE option \<Rightarrow> SKI_CACHE option cres" where
  "perform_ski_call mem call cache = (case call of
      SkiRegister uid attr \<Rightarrow> cbind (ski_registerUpdate mem cache uid attr) (\<lambda>(_, cache). Inr cache)
    | SkiUnregister uid attr \<Rightarrow> cbind (ski_unregisterUpdate cache uid attr) (\<lambda>(_, cache). Inr cache)
    | SkiCleanUpdates \<Rightarrow> cbind (ski_clean cache SKI_CLEAN_UPDATES) (\<lambda>(_, cache). Inr cache))"

section \<open>From a key to the clients\<close>

lemma queued_keys_fresh: "data_ok d \<Longrightarrow> queued_keys d [] = map (\<lambda>u. (cuid u, RQ_KEY)) (cacheUID d)"
proof -
  assume "data_ok d"
  then have "distinct (map cuid (cacheUID d))" unfolding data_ok_def by (intro uids.ordered_distinct) blast
  then have "fold (\<lambda>i. coalesce rq_merge i RQ_KEY) (map cuid (cacheUID d)) [] = map (\<lambda>i. (i, RQ_KEY)) (map cuid (cacheUID d))"
    using fold_coalesce_fresh [of "map cuid (cacheUID d)" "[]" rq_merge RQ_KEY] by simp
  then show ?thesis by (simp add: queued_keys_def fold_map comp_def)
qed

lemma messages_key:
  assumes "uc_entry T uc uid = Some e" "bgpsec_path (pathData e) \<noteq> None"
  shows "messages T env pm uc (uid, RQ_KEY) = map (\<lambda>c. (socket (mapping_at pm c),
    VerifyNotification 2 0 SRx_RESULT_DONOTUSE (validateSignature (crypto_validate env) (pathData e)) SRx_RESULT_DONOTUSE (htonl uid))) (told_clients env pm uc e)"
  using assms by (simp add: messages_def notification_def report_def Let_def)

text \<open>C16. A router key reaches the clients. Assume that the crypto API accepts an announced key, that the update cache and the SKI cache are well formed, that the SKI cache lists no algorithm with a larger
  number than that of the key first for its AS (the algorithm then is not inserted in front of others), that the updates waiting for the key, fewer than \<open>2\<^sup>3\<^sup>2\<close>, are stored with their BGPsec path, that no other notification is pending and that the callback is registered.
  Then \<open>handleRouterKey\<close> succeeds and the loop of \<open>handleEndOfData\<close> empties the queue: for each waiting update, in the order of the SKI cache, the result of a new signature validation is sent to its
  \<open>told_clients\<close>, which are its connected clients that can be reached, or none if the client array of the update is longer than the expected number of clients; nothing else is sent.\<close>

theorem router_key_to_clients:
  fixes env :: env
  assumes s: "updateCache (pcache s) = Some uc" "uc_ok T uc" "resChangedCallback uc" "rq_inv (rpkiQueue (pcache s))" "rq_entries (rpkiQueue (pcache s)) = []"
    and c: "ski_inv c" "length ski = 20" "insertable SCA_ECDSA_ALGORITHM (algo_ids c as_no)"
    and key: "\<And>k. registerPublicKey k (ucast vcID)" "91 \<le> length keyInfo"
  defines "waiting \<equiv> cacheUID (entry_for (ski_view c) (as_no, SCA_ECDSA_ALGORITHM, ski))"
  assumes w: "length waiting < 2 ^ 32" "\<forall>u \<in> set waiting. \<exists>e. uc_entry T uc (cuid u) = Some e \<and> bgpsec_path (pathData e) \<noteq> None"
  shows "\<exists>c' q s'. handleRouterKey True registerPublicKey vcID True as_no ski keyInfo (Some c) (rpkiQueue (pcache s)) = Inr (Some c', q) \<and>
    notify_loop T env g (s\<lparr>pcache := (pcache s)\<lparr>rpkiQueue := q\<rparr>\<rparr>) = Some (Inr s') \<and> rq_entries (rpkiQueue (pcache s')) = [] \<and>
    sent (sender s') = sent (sender s) @ concat (map (\<lambda>u. case uc_entry T uc (cuid u) of None \<Rightarrow> [] | Some e \<Rightarrow>
      map (\<lambda>cl. (socket (mapping_at (proxies s) cl), VerifyNotification 2 0 SRx_RESULT_DONOTUSE
             (validateSignature (crypto_validate env) (pathData e)) SRx_RESULT_DONOTUSE (htonl (cuid u)))) (told_clients env (proxies s) uc e)) waiting)"
proof -
  let ?key = "(as_no, SCA_ECDSA_ALGORITHM, ski)" and ?q = "rpkiQueue (pcache s)"
  have d: "data_ok (entry_for (ski_view c) ?key)" using entry_for_ok(1) c(1) by (simp add: ski_inv_def)
  have room: "length (rq_entries ?q) + length (cacheUID (entry_for (ski_view c) ?key)) \<le> 2 ^ 32 - 1" using s(5) w(1) unfolding waiting_def by simp
  obtain c' q where c': "ski_registerKey True (Some c) as_no ski SCA_ECDSA_ALGORITHM ?q = Inr (True, Some c', q)" "rq_inv q"
    "rq_entries q = queued_keys (entry_for (ski_view c) ?key) (rq_entries ?q)"
    using registerKey_ok [OF c s(4) room] by blast
  have l: "rq_entries q = map (\<lambda>u. (cuid u, RQ_KEY)) waiting" using c'(3) queued_keys_fresh [OF d] s(5) by (simp add: waiting_def)
  have "handleRouterKey True registerPublicKey vcID True as_no ski keyInfo (Some c) ?q = Inr (Some c', q)"
    using c'(1) key c(2) by (simp add: handleRouterKey_def getAlgoID_def rd_bytes_def Let_def)
  moreover
  let ?s = "s\<lparr>pcache := (pcache s)\<lparr>rpkiQueue := q\<rparr>\<rparr>"
  have s1: "rq_inv (rpkiQueue (pcache ?s))" "rq_entries (rpkiQueue (pcache ?s)) = map (\<lambda>u. (cuid u, RQ_KEY)) waiting" "updateCache (pcache ?s) = Some uc"
    using c'(2) l s(1) by simp_all
  have known: "fst ` set (map (\<lambda>u. (cuid u, RQ_KEY)) waiting) \<subseteq> dom (uc_entry T uc)" using w(2) by auto
  obtain q2 where q2: "notify_loop T env g ?s = Some (Inr (?s\<lparr>pcache := (pcache ?s)\<lparr>rpkiQueue := q2\<rparr>,
      sender := (sender ?s)\<lparr>sent := sent (sender ?s) @ concat (map (messages T env (proxies ?s) uc) (map (\<lambda>u. (cuid u, RQ_KEY)) waiting))\<rparr>\<rparr>))" "rq_entries q2 = []"
    using notify_loop_ok [OF s1 s(2,3) known, of env g] by blast
  have "messages T env (proxies s) uc (cuid u, RQ_KEY) = (case uc_entry T uc (cuid u) of None \<Rightarrow> [] | Some e \<Rightarrow>
      map (\<lambda>cl. (socket (mapping_at (proxies s) cl), VerifyNotification 2 0 SRx_RESULT_DONOTUSE
             (validateSignature (crypto_validate env) (pathData e)) SRx_RESULT_DONOTUSE (htonl (cuid u)))) (told_clients env (proxies s) uc e))"
    if u: "u \<in> set waiting" for u
  proof -
    obtain e where "uc_entry T uc (cuid u) = Some e" "bgpsec_path (pathData e) \<noteq> None" using w(2) u by blast
    then show ?thesis using messages_key [of T uc "cuid u" e env "proxies s"] by simp
  qed
  then have "map (messages T env (proxies s) uc) (map (\<lambda>u. (cuid u, RQ_KEY)) waiting) = map (\<lambda>u. case uc_entry T uc (cuid u) of None \<Rightarrow> [] | Some e \<Rightarrow>
      map (\<lambda>cl. (socket (mapping_at (proxies s) cl), VerifyNotification 2 0 SRx_RESULT_DONOTUSE
             (validateSignature (crypto_validate env) (pathData e)) SRx_RESULT_DONOTUSE (htonl (cuid u)))) (told_clients env (proxies s) uc e)) waiting" by simp
  ultimately show ?thesis using q2 by (intro exI [of _ c'] exI [of _ q]) (auto simp del: map_eq_conv SRx_RESULT_DONOTUSE_def)
qed

text \<open>A cache in which the update 9 waits for a key of AS 65001.\<close>

definition waiting_data :: SKI_CACHE_DATA where
  "waiting_data = \<lparr>cd_counter = 0, cd_asn = 65001, cd_ski = sample_ski 7, cd_algoID = 1, cacheUID = [\<lparr>cuid = 9, cu_counter = 1\<rparr>]\<rparr>"

definition waiting_ski :: SKI_CACHE where
  "waiting_ski = \<lparr>cacheNode = [\<lparr>cn_upper = 0, as2 = (\<lambda>low. if low = 65001 then [\<lparr>ca_algoID = 1, cacheData = [waiting_data]\<rparr>] else [])\<rparr>], ski_semaphore = 1\<rparr>"

lemma waiting_ski_ok:
  "ski_inv waiting_ski" "insertable 1 (algo_ids waiting_ski 65001)" "ski_view waiting_ski (65001, 1, sample_ski 7) = Some waiting_data"
proof -
  have half: "upper_half 65001 = 0" "lower_half 65001 = 65001" by (simp_all add: upper_half_def lower_half_def)
  have algos: "algos_of (cacheNode waiting_ski) 65001 = [\<lparr>ca_algoID = 1, cacheData = [waiting_data]\<rparr>]"
    by (simp add: algos_of_def half waiting_ski_def lookup_def cmp_word_def)
  have d: "length (cd_ski waiting_data) = 20" "data_ok waiting_data" by (simp_all add: waiting_data_def sample_ski_def data_ok_def ordered_def)
  show "ski_inv waiting_ski" using d by (simp add: ski_inv_def waiting_ski_def nodes_ok_def algos_ok_def algo_ok_def ordered_def)
  show "insertable 1 (algo_ids waiting_ski 65001)" by (simp add: insertable_def algo_ids_def algos)
  have "memcmp (sample_ski 7) (cd_ski waiting_data) = 0" by (simp add: waiting_data_def memcmp_eq_0_iff)
  then show "ski_view waiting_ski (65001, 1, sample_ski 7) = Some waiting_data"
    using d(1) by (simp add: ski_view_def algos data_of_def lookup_def cmp_word_def sample_ski_def)
qed

theorem router_key_to_clients_witness:
  "\<exists>c' q s'. handleRouterKey True (\<lambda>_ _. True) 7 True 65001 (sample_ski 7) (replicate 91 0) (Some waiting_ski) (rpkiQueue (pcache eod_sample)) = Inr (Some c', q) \<and>
     notify_loop fun_table sample_env \<lparr>reason = 0, updateID = 0\<rparr> (eod_sample\<lparr>pcache := (pcache eod_sample)\<lparr>rpkiQueue := q\<rparr>\<rparr>) = Some (Inr s') \<and>
     sent (sender s') = [(6, VerifyNotification 2 0 SRx_RESULT_DONOTUSE SRx_RESULT_VALID SRx_RESULT_DONOTUSE (htonl 9))]"
proof -
  have s: "rq_inv (rpkiQueue (pcache eod_sample))" "rq_entries (rpkiQueue (pcache eod_sample)) = []" "resChangedCallback open_cache"
    unfolding eod_sample_sel using rq_create_inv by (simp_all add: open_cache_def sample_cache_def)
  have e: "uc_entry fun_table open_cache 9 = Some open_entry" "bgpsec_path (pathData open_entry) \<noteq> None" using open_cache_ok(2)
    by (simp_all add: open_entry_def sample_entry_def path_of_def request_data_def sample_data_def)
  have told: "told_clients sample_env two_proxies open_cache open_entry = [7]" "socket (mapping_at two_proxies 7) = 6"
    using sample_entry_wf(2) by (simp_all add: told_clients_def entry_clients_def open_entry_def sample_entry_def open_cache_def sample_cache_def
      reachable_client_def mapping_at_def two_proxies_def sample_env_def zero_mapping_def)
  have sig: "validateSignature (crypto_validate sample_env) u = SRx_RESULT_VALID" for u by (simp add: validateSignature_def sample_env_def)
  have wait: "cacheUID (entry_for (ski_view waiting_ski) (65001, SCA_ECDSA_ALGORITHM, sample_ski 7)) = [\<lparr>cuid = 9, cu_counter = 1\<rparr>]"
    using waiting_ski_ok(3) by (simp add: entry_for_def waiting_data_def)
  have c: "length (sample_ski 7) = 20" "insertable SCA_ECDSA_ALGORITHM (algo_ids waiting_ski 65001)" using waiting_ski_ok(2) by (simp_all add: sample_ski_def)
  have "91 \<le> length (replicate 91 (0 :: u8))" by simp
  from router_key_to_clients [where env = sample_env and g = "\<lparr>reason = 0, updateID = 0\<rparr>" and vcID = 7 and registerPublicKey = "\<lambda>_ _. True",
      OF eod_sample_sel(1) open_cache_ok(1) s(3,1,2) waiting_ski_ok(1) c TrueI this]
  show ?thesis unfolding wait using e told sig by (auto simp: eod_sample_sel simp del: SRx_RESULT_DONOTUSE_def SRx_RESULT_VALID_def)
qed

end
