(* ===== verification/Validation_Cache.thy ===== *)
theory Validation_Cache
  imports Rpki_Session Router_Keys
begin

text \<open>
  The server as the user of the protocol client: \<open>createRPKIHandler\<close> of \<open>server/rpki_handler.c\<close> connects the callbacks of the client with the handlers. The theorems follow
  the data of the validation cache from the stream of bytes to the caches and the clients of the server.
\<close>

section \<open>The callbacks of the server\<close>

text \<open>What the handlers get from their surroundings: addresses of new objects, the state of the network and the clock, call by call, and the crypto API.\<close>

record handler_env =
  newROA :: "nat \<Rightarrow> addr"
  aspaAddr :: "nat \<Rightarrow> nat"
  aspaBuf :: "nat \<Rightarrow> nat"
  he_env :: "nat \<Rightarrow> env"
  callbackTime :: "nat \<Rightarrow> nat"
  he_mem :: bool
  acceptKey :: "BGPSecKey \<Rightarrow> u8 \<Rightarrow> bool"
  he_elem :: RPKI_QUEUE_ELEM

record ('p, 't) RPKIHandler =
  hs :: "('p, 't) Server"
  skis :: "SKI_CACHE option"
  calls :: nat

definition with_server :: "('p, 't) RPKIHandler \<Rightarrow> ('p, 't) Server cres option \<Rightarrow> ('p, 't) RPKIHandler cres option" where
  "with_server h r = tbind r (\<lambda>s. Some (Inr (h\<lparr>hs := s, calls := Suc (calls h)\<rparr>)))"

text \<open>The other callbacks, and the permission to use an older version, are not set.\<close>

definition server_params :: "'t uthash \<Rightarrow> 'p patricia \<Rightarrow> handler_env \<Rightarrow> u8 \<Rightarrow> ('p, 't) RPKIHandler RPKIRouterClientParams" where
  "server_params T P E rpki_version = \<lparr>
     prefixCallback = Some (\<lambda>cl sid isAnn pfx maxLen oas h. with_server h (Some (handlePrefix T P (newROA E (calls h)) cl sid isAnn pfx maxLen oas (hs h)))),
     routerKeyCallback = Some (\<lambda>cl sid isAnn asn ski keyInfo h.
       tbind (Some (handleRouterKey (he_mem E) (acceptKey E) cl isAnn asn ski keyInfo (skis h) (rpkiQueue (pcache (hs h))))) (\<lambda>(c, q).
         with_server (h\<lparr>skis := c\<rparr>) (Some (Inr ((hs h)\<lparr>pcache := (pcache (hs h))\<lparr>rpkiQueue := q\<rparr>\<rparr>))))),
     endOfDataCallback = Some (\<lambda>cl sid h. with_server h (handleEndOfData T (he_env E (calls h)) (he_elem E) (callbackTime E (calls h)) (hs h))),
     resetCallback = Some (\<lambda>cl h. with_server h (Some (Inr (handleReset (hs h))))),
     sessionIDChangedCallback = None, sessionIDEstablishedCallback = None,
     errorCallback = Some (\<lambda>errNo msg h. Some (Inr (handleError, h))),
     connectionCallback = Some (\<lambda>h. Some (Inr (handleConnection, h))),
     cbHandleAspaPdu = Some (\<lambda>cust count provs afi ann h. with_server h
       (Some (cbind (handleAspaPdu (aspaAddr E (calls h)) (aspaBuf E (calls h)) (aspaDB (hs h)) cust count (Some provs) afi ann) (\<lambda>(_, m). Inr ((hs h)\<lparr>aspaDB := m\<rparr>))))),
     p_version = rpki_version, allowDowngrade = False\<rparr>"

definition createRPKIHandler ::
  "bool \<Rightarrow> bool \<Rightarrow> bool \<Rightarrow> 't uthash \<Rightarrow> 'p patricia \<Rightarrow> handler_env \<Rightarrow> u8 \<Rightarrow> ('p, 't) RPKIHandler rrc \<Rightarrow> (bool \<times> ('p, 't) RPKIHandler rrc) option" where
  "createRPKIHandler resolved mutex_ok thread_ok T P E rpki_version s =
     createRPKIRouterClient resolved mutex_ok thread_ok (server_params T P E rpki_version) s"

definition releaseRPKIHandler :: "('p, 't) RPKIHandler rrc option \<Rightarrow> ('p, 't) RPKIHandler rrc option" where
  "releaseRPKIHandler handler = map_option releaseRPKIRouterClient handler"

lemma server_params_sel [simp]:
  "sessionIDChangedCallback (server_params T P E v) = None"
  "invoke (endOfDataCallback (server_params T P E v)) (\<lambda>cb. cb cl sid) h =
     with_server h (handleEndOfData T (he_env E (calls h)) (he_elem E) (callbackTime E (calls h)) (hs h))"
  "deliver (server_params T P E v) cl sid (PduAspa ann v6 cust provs) h = with_server h
     (Some (cbind (handleAspaPdu (aspaAddr E (calls h)) (aspaBuf E (calls h)) (aspaDB (hs h)) cust (of_nat (length provs)) (Some provs) (flag v6 2) (flag ann 1))
       (\<lambda>(_, m). Inr ((hs h)\<lparr>aspaDB := m\<rparr>))))"
  by (simp_all add: server_params_def invoke_def)

section \<open>ASPA objects\<close>

text \<open>ASPA objects for IPv6 are lost. The client passes the address family as the second bit of the flags, which is 0 or 2, and \<open>handleAspaPdu\<close> knows the
  families 0 and 1 only: a PDU with the IPv6 flag, announcement or withdrawal, leaves the server as it was.\<close>

lemma ipv6_aspa_is_dropped:
  assumes "length provs < 65536" "rc_version (rrc_client s) = 2" "unlimited mem"
  shows "process_received mem (server_params T P E v) ret keep (enc_pdu 2 (PduAspa ann True cust provs) @ pad) e s =
    Some (Inr (keep, e, s\<lparr>user := (user s)\<lparr>calls := Suc (calls (user s))\<rparr>, rrc_client := (rrc_client s)\<lparr>lastRecv := PDU_TYPE_ASPA\<rparr>\<rparr>))"
proof -
  have "process_received mem (server_params T P E v) ret keep (enc_pdu 2 (PduAspa ann True cust provs) @ pad) e s =
    tbind (deliver (server_params T P E v) (routerClientID (rrc_client s)) (ucast (sessionID (rrc_client s))) (PduAspa ann True cust provs) (user s))
      (\<lambda>u. Some (Inr (keep, e, s\<lparr>user := u, rrc_client := (rrc_client s)\<lparr>lastRecv := rtr_type (PduAspa ann True cust provs)\<rparr>\<rparr>)))"
    using assms by (intro process_data) simp_all
  then show ?thesis by (simp add: with_server_def handleAspaPdu_def flag_def del: enc_pdu.simps deliver.simps)
qed

text \<open>The server of the examples as the user of a client.\<close>

definition rtr_handler :: "(prefix_t list, (u32 \<Rightarrow> addr) \<times> addr list) RPKIHandler" where
  "rtr_handler = \<lparr>hs = eod_sample, skis = None, calls = 0\<rparr>"

definition sample_henv :: handler_env where
  "sample_henv = \<lparr>newROA = (\<lambda>_. 0), aspaAddr = (\<lambda>_. 3), aspaBuf = (\<lambda>_. 2), he_env = (\<lambda>_. sample_env), callbackTime = (\<lambda>_. 100), he_mem = True,
     acceptKey = (\<lambda>_ _. True), he_elem = \<lparr>reason = 0, updateID = 0\<rparr>\<rparr>"

theorem ipv6_aspa_is_dropped_witness:
  "\<exists>s'. process_received (\<lambda>_. Some (\<lambda>_. 0)) (server_params fun_table list_patricia sample_henv 2) False True (enc_pdu 2 (PduAspa True True 12 [7, 8]) @ []) (-1)
     \<lparr>rrc_client = sample_client\<lparr>rc_version := 2\<rparr>, wire = sample_net [], user = rtr_handler\<rparr> = Some (Inr (True, -1, s')) \<and> hs (user s') = eod_sample"
  by (subst ipv6_aspa_is_dropped) (simp_all add: unlimited_zero rtr_handler_def)

text \<open>Announcements for IPv4 are stored one after the other.\<close>

fun announced :: "(nat \<Rightarrow> nat) \<Rightarrow> nat \<Rightarrow> (u32 \<times> u32 list) list \<Rightarrow> (nat \<rightharpoonup> ASPA_Object) \<Rightarrow> nat \<rightharpoonup> ASPA_Object" where
  "announced adr k [] M = M"
| "announced adr k ((cust, provs) # objs) M = announced adr (Suc k) objs (M(unat cust \<mapsto> pdu_object (adr k) cust provs 0))"

definition aspa_pdus :: "(u32 \<times> u32 list) list \<Rightarrow> rtr_pdu list" where
  "aspa_pdus objs = map (\<lambda>(cust, provs). PduAspa True False cust provs) objs"

definition objs_fit :: "(u32 \<times> u32 list) list \<Rightarrow> bool" where
  "objs_fit objs \<longleftrightarrow> (\<forall>(cust, provs) \<in> set objs. unat cust < 100000 \<and> length provs < 65536)"

lemma deliver_announced:
  assumes "db_ok (aspaDB (hs h))" "objs_fit objs"
  shows "\<exists>m'. deliver_all (server_params T P E v) cl sid (aspa_pdus objs) h = Some (Inr (h\<lparr>hs := (hs h)\<lparr>aspaDB := m'\<rparr>, calls := calls h + length objs\<rparr>)) \<and>
    db_ok m' \<and> db_aspa m' = announced (aspaAddr E) (calls h) objs (db_aspa (aspaDB (hs h)))"
  using assms
proof (induction objs arbitrary: h)
  case Nil
  then show ?case by (intro exI [of _ "aspaDB (hs h)"]) (simp add: aspa_pdus_def)
next
  case (Cons x objs)
  obtain cust provs where x: "x = (cust, provs)" by (cases x)
  have fit: "unat cust < 100000" "length provs < 2 ^ 16" "objs_fit objs" using Cons.prems(2) by (auto simp: objs_fit_def x)
  obtain m where m: "handleAspaPdu (aspaAddr E (calls h)) (aspaBuf E (calls h)) (aspaDB (hs h)) cust (of_nat (length provs)) (Some provs) 0 1 = Inr (1, m)"
    "db_ok m" "db_aspa m = (db_aspa (aspaDB (hs h)))(unat cust \<mapsto> pdu_object (aspaAddr E (calls h)) cust provs 0)"
    using announce_stored [OF Cons.prems(1) fit(1,2), of 0 "aspaAddr E (calls h)" "aspaBuf E (calls h)"] by (auto simp: db_aspa_def fun_eq_iff)
  let ?h = "h\<lparr>hs := (hs h)\<lparr>aspaDB := m\<rparr>, calls := Suc (calls h)\<rparr>"
  obtain m' where m': "deliver_all (server_params T P E v) cl sid (aspa_pdus objs) ?h =
      Some (Inr (?h\<lparr>hs := (hs ?h)\<lparr>aspaDB := m'\<rparr>, calls := calls ?h + length objs\<rparr>))" "db_ok m'"
    "db_aspa m' = announced (aspaAddr E) (calls ?h) objs (db_aspa (aspaDB (hs ?h)))" using Cons.IH [of ?h] m(2) fit(3) by auto
  have "deliver (server_params T P E v) cl sid (PduAspa True False cust provs) h = Some (Inr ?h)" using m(1) by (simp add: with_server_def flag_def del: deliver.simps)
  then show ?case using m' m(3) by (intro exI [of _ m']) (simp add: x aspa_pdus_def del: deliver.simps)
qed

text \<open>C4. From the validation cache to the routers. An open connection with protocol version 2 brings a cache response of the session, announcements of ASPA objects for IPv4 and the end of data, in pieces of
  any size. Assume that the customer AS numbers are below 100000 (larger ones overrun a buffer of \<open>handleAspaPdu\<close>), that the database and the caches are well formed, that every cached path was validated in a second
  before the end of data and has a verdict \<open>vd\<close> in the new database, that each update has the ASPA result of its path, that no notification is pending and the queue has room, that the callback for results is registered, and that memory is available. Then the exchange succeeds;
  after it the database has the announced objects, every update with a cached path has the verdict of the new database, and exactly the updates whose verdict changed were reported, to their
  \<open>told_clients\<close>: the connected clients that can be reached, or none if the client array of the update is longer than the expected number of clients.\<close>

theorem aspa_objects_reach_routers:
  fixes s :: "('p, 't) RPKIHandler rrc"
  defines "S \<equiv> hs (user s)" and "k \<equiv> calls (user s)"
  assumes cl: "clientFD (clSock (rrc_client s)) \<noteq> -1" "\<not> rc_stop (rrc_client s)" "rc_version (rrc_client s) = 2" "\<not> stopAfterEndOfData (rrc_client s)"
      "startup (rrc_client s) \<or> sessionID (rrc_client s) = session_of sid" "unlimited mem"
    and stream: "rxq (wire s) = xs @ z # zs" "chunks xs" "z = RxData [] \<or> z = RxError"
      "content xs = enc_cache_response 2 sid @ concat (map (enc_pdu 2) (aspa_pdus objs)) @ enc_end_of_data 2 sid sn"
    and objs: "db_ok (aspaDB S)" "objs_fit objs"
    and caches: "eod_ok T (length (HASH_ITER T (table uc))) S" "updateCache (pcache S) = Some uc"
      "distinct (HASH_ITER T (table uc))" "set (HASH_ITER T (table uc)) = set (allItems uc)"
    and v: "\<And>m. db_ok m \<Longrightarrow> db_aspa m = announced (aspaAddr E) k objs (db_aspa (aspaDB S)) \<Longrightarrow> verdicts m vd (ac_entry T (apcache S))"
    and old: "settled (callbackTime E (k + length objs)) (uc_entry T uc) (ac_entry T (apcache S))"
      "callbackTime E (k + length objs) \<le> now_sec (he_env E (k + length objs))"
    and queue: "rq_entries (rpkiQueue (pcache S)) = []" and cb: "resChangedCallback uc"
  shows "\<exists>s' uc'. exchange mem (server_params T P E ver) n s = Some (Inr (n, s')) \<and> \<not> rc_stop (rrc_client s') \<and>
    db_aspa (aspaDB (hs (user s'))) = announced (aspaAddr E) k objs (db_aspa (aspaDB S)) \<and>
    updateCache (pcache (hs (user s'))) = Some uc' \<and>
    uc_entry T uc' = revalidated_results vd (ac_entry T (apcache S)) (dom (uc_entry T uc)) (uc_entry T uc) \<and>
    sent (sender (hs (user s'))) = sent (sender S) @ concat (map (\<lambda>uid. case uc_entry T uc uid of None \<Rightarrow> [] | Some e \<Rightarrow>
      map (\<lambda>c. (socket (mapping_at (proxies S) c),
             VerifyNotification 4 0 SRx_RESULT_DONOTUSE SRx_RESULT_DONOTUSE (vd (aspathCacheID e)) (htonl uid)))
          (told_clients (he_env E (k + length objs)) (proxies S) uc e))
      (filter (result_changes vd (uc_entry T uc) (ac_entry T (apcache S))) (map (uid_at uc) (HASH_ITER T (table uc)))))"
proof -
  have pdus: "\<forall>x \<in> set (aspa_pdus objs). pdu_ok 2 x" using objs(2) by (auto simp: aspa_pdus_def objs_fit_def)
  obtain m where m: "deliver_all (server_params T P E ver) (routerClientID (rrc_client s)) (ntohs sid) (aspa_pdus objs) (user s) =
      Some (Inr ((user s)\<lparr>hs := S\<lparr>aspaDB := m\<rparr>, calls := k + length objs\<rparr>))" "db_ok m" "db_aspa m = announced (aspaAddr E) k objs (db_aspa (aspaDB S))"
    using deliver_announced [OF objs(1) [unfolded S_def] objs(2)] unfolding S_def k_def by blast
  let ?S = "S\<lparr>aspaDB := m\<rparr>"
  have S: "eod_ok T (length (HASH_ITER T (table uc))) ?S" "updateCache (pcache ?S) = Some uc" "verdicts (aspaDB ?S) vd (ac_entry T (apcache ?S))"
    "settled (callbackTime E (k + length objs)) (uc_entry T uc) (ac_entry T (apcache ?S))" "rq_entries (rpkiQueue (pcache ?S)) = []"
    using caches(1,2) v [OF m(2,3)] old(1) queue by (simp_all add: eod_ok_def)
  have sel: "proxies ?S = proxies S" "apcache ?S = apcache S" "sender ?S = sender S" "aspaDB ?S = m" by simp_all
  obtain S' uc' where S': "handleEndOfData T (he_env E (k + length objs)) (he_elem E) (callbackTime E (k + length objs)) ?S = Some (Inr S')" "aspaDB S' = m"
    "updateCache (pcache S') = Some uc'" "uc_entry T uc' = revalidated_results vd (ac_entry T (apcache S)) (dom (uc_entry T uc)) (uc_entry T uc)"
    "sent (sender S') = sent (sender S) @ concat (map (\<lambda>uid. case uc_entry T uc uid of None \<Rightarrow> [] | Some e \<Rightarrow>
      map (\<lambda>c. (socket (mapping_at (proxies S) c),
             VerifyNotification 4 0 SRx_RESULT_DONOTUSE SRx_RESULT_DONOTUSE (vd (aspathCacheID e)) (htonl uid)))
          (told_clients (he_env E (k + length objs)) (proxies S) uc e))
      (filter (result_changes vd (uc_entry T uc) (ac_entry T (apcache S))) (map (uid_at uc) (HASH_ITER T (table uc)))))"
    using handleEndOfData_ok [OF S(1,2) caches(3,4) S(3,4) old(2) S(5) cb, of "he_elem E"] unfolding sel by blast
  let ?u = "(user s)\<lparr>hs := S', calls := Suc (k + length objs)\<rparr>"
  let ?s = "after_session sn zs ?u (s\<lparr>rrc_client := snd (checkSessionID (session_of sid) (rrc_client s))\<rparr>)"
  have "(2 :: u8) \<le> 2" by simp
  then have "exchange mem (server_params T P E ver) n s = Some (Inr (n, ?s))"
    using S'(1) m(1) by (subst exchange_session [OF pdus _ cl(6,1-5) stream(1,2,3,4)]) (simp_all add: with_server_def)
  moreover have "\<not> rc_stop (rrc_client ?s)" using cl(2,5) by (auto simp: after_session_def checkSessionID_def Let_def)
  moreover have "user ?s = ?u" by (simp add: after_session_def)
  ultimately show ?thesis using S'(2-5) m(3) by auto
qed

definition aspa_stream :: "u8 list" where
  "aspa_stream = enc_cache_response 2 7 @ concat (map (enc_pdu 2) (aspa_pdus [(12, [7, 8])])) @ enc_end_of_data 2 7 5"

definition aspa_rrc :: "(prefix_t list, (u32 \<Rightarrow> addr) \<times> addr list) RPKIHandler rrc" where
  "aspa_rrc = \<lparr>rrc_client = sample_client\<lparr>rc_version := 2\<rparr>, wire = sample_net [RxData aspa_stream, RxData []], user = rtr_handler\<rparr>"

theorem aspa_objects_reach_routers_witness:
  "\<exists>s'. exchange (\<lambda>_. Some (\<lambda>_. 0)) (server_params fun_table list_patricia sample_henv 2) 0 aspa_rrc = Some (Inr (0, s')) \<and>
     db_aspa (aspaDB (hs (user s'))) 12 = Some (pdu_object 3 12 [7, 8] 0) \<and>
     sent (sender (hs (user s'))) = [(6, VerifyNotification 4 0 SRx_RESULT_DONOTUSE SRx_RESULT_DONOTUSE SRx_RESULT_VALID (htonl 9))]"
proof -
  have user: "hs (user aspa_rrc) = eod_sample" "calls (user aspa_rrc) = 0" by (simp_all add: aspa_rrc_def rtr_handler_def)
  have c: "clientFD (clSock (rrc_client aspa_rrc)) \<noteq> -1" "\<not> rc_stop (rrc_client aspa_rrc)" "rc_version (rrc_client aspa_rrc) = 2"
    "\<not> stopAfterEndOfData (rrc_client aspa_rrc)" "startup (rrc_client aspa_rrc) \<or> sessionID (rrc_client aspa_rrc) = session_of 7"
    "rxq (wire aspa_rrc) = [RxData aspa_stream] @ RxData [] # []" by (simp_all add: aspa_rrc_def sample_client_def sample_net_def)
  have ch: "chunks [RxData aspa_stream]" by (simp add: aspa_stream_def enc_cache_response_def)
  have st: "RxData [] = RxData [] \<or> RxData [] = RxError"
    "content [RxData aspa_stream] = enc_cache_response 2 7 @ concat (map (enc_pdu 2) (aspa_pdus [(12, [7, 8])])) @ enc_end_of_data 2 7 5"
    by (simp_all add: aspa_stream_def)
  have db: "db_ok (aspaDB (hs (user aspa_rrc)))" "objs_fit [(12, [7, 8])]" using sample_db_ok by (simp_all add: user eod_sample_def sample_server_def objs_fit_def)
  have q: "rq_entries (rpkiQueue (pcache (hs (user aspa_rrc)))) = []" "resChangedCallback open_cache"
    unfolding user eod_sample_sel using rq_create_inv(2) by (simp_all add: open_cache_def sample_cache_def)
  have vd: "verdicts m (\<lambda>_. SRx_RESULT_VALID) (ac_entry fun_table (apcache (hs (user aspa_rrc))))" for m
    unfolding verdicts_def user eod_sample_sel eod_sample_entries using one_hop_verdict by (simp add: one_hop_def)
  have t: "settled (callbackTime sample_henv (calls (user aspa_rrc) + length [(12 :: u32, [7, 8 :: u32])])) (uc_entry fun_table open_cache)
      (ac_entry fun_table (apcache (hs (user aspa_rrc))))"
    "callbackTime sample_henv (calls (user aspa_rrc) + length [(12 :: u32, [7, 8 :: u32])]) \<le> now_sec (he_env sample_henv (calls (user aspa_rrc) + length [(12 :: u32, [7, 8 :: u32])]))"
    using eod_sample_ok(5,6) by (simp_all add: user sample_henv_def)
  have told: "told_clients sample_env two_proxies open_cache open_entry = [7]" "socket (mapping_at two_proxies 7) = 6"
    using sample_entry_wf(2) by (simp_all add: told_clients_def entry_clients_def open_entry_def sample_entry_def open_cache_def sample_cache_def
      reachable_client_def mapping_at_def two_proxies_def sample_env_def zero_mapping_def)
  note main = aspa_objects_reach_routers [OF c(1-5) unlimited_zero c(6) ch st db eod_sample_ok(1) [folded user(1)] eod_sample_sel(1) [folded user(1)] eod_sample_ok(2,3) vd t q,
    of list_patricia 2 0]
  show ?thesis using main unfolding user eod_sample_changes(2) using eod_sample_changes(1) told
    by (auto simp: eod_sample_sel eod_sample_entries sample_henv_def simp del: SRx_RESULT_VALID_def SRx_RESULT_DONOTUSE_def)
qed

end
