(* ===== verification/Packet_Receiver.thy ===== *)
theory Packet_Receiver
  imports Client_Socket
begin

text \<open>
  The receiver of the SRx proxy protocol, \<open>util/packet.c\<close>, which both ends of a connection use: the proxy reads one packet for a call, the server
  reads until the connection ends. A packet starts with a header of 12 bytes, whose last four bytes are the length of the packet. The buffer
  is kept between the packets and grows when a packet does not fit.
\<close>

section \<open>One packet\<close>

definition BASIC_LENGTH :: nat where [simp]: "BASIC_LENGTH = 12"

datatype received = RcvLost | RcvNoMemory | RcvBroken | RcvPacket

text \<open>The buffer comes with the position behind the header, which is only set when the buffer grows: before that it is the start
  of the buffer, but then nothing is received behind the header.\<close>

type_synonym rcv_buffer = "u8 list \<times> nat"

definition extend_buffer :: "allocator \<Rightarrow> u32 \<Rightarrow> rcv_buffer \<Rightarrow> rcv_buffer option" where
  "extend_buffer mem pduLength = (\<lambda>(buf, helper).
     if length buf < unat pduLength
     then (case mem (unat pduLength) of
             None \<Rightarrow> None
           | Some g \<Rightarrow> Some (buf @ map g [length buf ..< unat pduLength], BASIC_LENGTH))
     else Some (buf, helper))"

definition missing_bytes :: "u32 \<Rightarrow> u32" where
  "missing_bytes pduLength = (let remainder = pduLength - 12 in if pduLength < remainder then 0 else remainder)"

definition receive_packet :: "allocator \<Rightarrow> int \<Rightarrow> wire \<Rightarrow> rcv_buffer \<Rightarrow> (received \<times> int \<times> wire \<times> rcv_buffer) cres option" where
  "receive_packet mem fd w = (\<lambda>(buf, helper).
     tbind (Some (store_bytes buf 0 (replicate BASIC_LENGTH 0))) (\<lambda>buf.
     tbind (recvNum fd w buf 0 BASIC_LENGTH) (\<lambda>(ok, fd, w, buf).
       if \<not> ok then Some (Inr (RcvLost, fd, w, (buf, helper)))
       else tbind (Some (rd32 buf 8)) (\<lambda>pduLength. case extend_buffer mem pduLength (buf, helper) of
              None \<Rightarrow> Some (Inr (RcvNoMemory, fd, w, ([], helper)))
            | Some (buf, helper) \<Rightarrow>
                tbind (Some (store_bytes buf (int helper) (replicate (length buf - BASIC_LENGTH) 0))) (\<lambda>buf.
                tbind (recvNum fd w buf helper (unat (missing_bytes pduLength))) (\<lambda>(ok, fd, w, buf).
                  Some (Inr (if ok then RcvPacket else RcvBroken, fd, w, (buf, helper)))))))))"

text \<open>The buffer at the start; \<open>malloc\<close> is not checked.\<close>

definition new_buffer :: "allocator \<Rightarrow> rcv_buffer cres" where
  "new_buffer mem = (case mem BASIC_LENGTH of None \<Rightarrow> Inl NullDeref | Some g \<Rightarrow> Inr (map g [0 ..< BASIC_LENGTH], 0))"

section \<open>The server side\<close>

text \<open>The loop over the packets of a client. The dispatcher gets the buffer, which may be longer than the packet.\<close>

partial_function (option) server_receive_loop ::
  "allocator \<Rightarrow> (u8 list \<Rightarrow> 's \<Rightarrow> 's cres option) \<Rightarrow> int \<Rightarrow> wire \<Rightarrow> rcv_buffer \<Rightarrow> 's \<Rightarrow> (int \<times> wire \<times> 's) cres option" where
  "server_receive_loop mem dispatcher fd w b s =
     tbind (receive_packet mem fd w b) (\<lambda>r. case r of (got, fd, w, b) \<Rightarrow>
       if got = RcvPacket then tbind (dispatcher (fst b) s) (server_receive_loop mem dispatcher fd w b)
       else Some (Inr (fd, w, s)))"

definition server_receivePackets ::
  "allocator \<Rightarrow> (u8 list \<Rightarrow> 's \<Rightarrow> 's cres option) \<Rightarrow> int \<Rightarrow> wire \<Rightarrow> 's \<Rightarrow> (int \<times> wire \<times> 's) cres option" where
  "server_receivePackets mem dispatcher fd w s = tbind (Some (new_buffer mem)) (\<lambda>b. server_receive_loop mem dispatcher fd w b s)"

section \<open>Complete packets\<close>

text \<open>A packet whose length field is right.\<close>

definition srx_framed :: "u8 list \<Rightarrow> bool" where
  "srx_framed b \<longleftrightarrow> 12 \<le> length b \<and> length b < 2 ^ 32 \<and> rd32 b 8 = Inr (of_nat (length b))"

definition buffer_ok :: "rcv_buffer \<Rightarrow> bool" where
  "buffer_ok b \<longleftrightarrow> 12 \<le> length (fst b) \<and> (snd b = 12 \<or> length (fst b) = 12 \<and> snd b = 0)"

lemma missing_bytes_framed: "12 \<le> n \<Longrightarrow> n < 2 ^ 32 \<Longrightarrow> unat (missing_bytes (of_nat n)) = n - 12"
proof -
  assume n: "12 \<le> n" "n < 2 ^ 32"
  then have u: "unat (of_nat n :: u32) = n" by (simp add: unat_of_nat)
  have "(12 :: u32) \<le> of_nat n" using n u by (simp add: word_le_nat_alt)
  then have d: "unat (of_nat n - 12 :: u32) = n - 12" using u by (simp add: unat_sub)
  then have "\<not> (of_nat n :: u32) < of_nat n - 12" using u by (simp add: word_less_nat_alt)
  then show ?thesis using d by (simp add: missing_bytes_def Let_def)
qed

lemma extend_buffer_framed:
  assumes "unlimited mem" "buffer_ok b" "n < 2 ^ 32"
  obtains buf h where "extend_buffer mem (of_nat n) b = Some (buf, h)" "buffer_ok (buf, h)" "n \<le> length buf" "length (fst b) \<le> length buf"
    "take 12 buf = take 12 (fst b)" "h = 12 \<or> n \<le> 12"
proof -
  obtain buf h where b: "b = (buf, h)" by (cases b)
  have u: "unat (of_nat n :: u32) = n" using assms(3) by (simp add: unat_of_nat)
  obtain g where "mem n = Some g" using assms(1) by (rule unlimitedE)
  then show thesis using assms(2) that [of buf h] that [of "buf @ map g [length buf ..< n]" 12]
    by (cases "length buf < n") (auto simp: b u extend_buffer_def buffer_ok_def)
qed

text \<open>However the stream is cut into pieces, the next packet is in the buffer, followed by zeros.\<close>

lemma receive_packet_framed:
  assumes fd: "fd \<noteq> -1" and rx: "rxq w = xs @ zs" "chunks xs" "content xs = b @ rest" and b: "srx_framed b" and mem: "unlimited mem" and buf: "buffer_ok bh"
  obtains ys k h where "receive_packet mem fd w bh = Some (Inr (RcvPacket, fd, w\<lparr>rxq := ys @ zs\<rparr>, (b @ replicate k 0, h)))"
    "chunks ys" "content ys = rest" "buffer_ok (b @ replicate k 0, h)"
proof -
  obtain buf0 h0 where bh: "bh = (buf0, h0)" by (cases bh)
  have len: "12 \<le> length b" "length b < 2 ^ 32" "rd32 b 8 = Inr (of_nat (length b))" using b by (simp_all add: srx_framed_def)
  have l0: "12 \<le> length buf0" using buf by (simp add: bh buffer_ok_def)
  let ?z = "replicate 12 0 @ drop 12 buf0"
  have z: "store_bytes buf0 0 (replicate 12 0) = Inr ?z" using l0 by (simp add: store_bytes_def)
  obtain ys where ys: "recvNum fd w ?z 0 12 = Some (Inr (True, fd, w\<lparr>rxq := ys @ zs\<rparr>, take 12 b @ drop 12 buf0))"
    "chunks ys" "content ys = drop 12 b @ rest"
    using recvNum_chunks [OF fd rx(1,2), of 12 0 ?z] rx(3) len(1) l0 by auto
  have hd: "rd32 (take 12 b @ drop 12 buf0) 8 = Inr (of_nat (length b))"
    using len rd32_append [of 8 "take 12 b"] rd32_append [of 8 "take 12 b" "drop 12 b"] by simp
  have ok1: "buffer_ok (take 12 b @ drop 12 buf0, h0)" using buf len(1) by (auto simp: bh buffer_ok_def)
  obtain buf h where e: "extend_buffer mem (of_nat (length b)) (take 12 b @ drop 12 buf0, h0) = Some (buf, h)" "buffer_ok (buf, h)" "length b \<le> length buf"
    "take 12 buf = take 12 b" "h = 12 \<or> length b \<le> 12"
  proof (rule extend_buffer_framed [OF mem ok1 len(2)])
    fix buf h assume "extend_buffer mem (of_nat (length b)) (take 12 b @ drop 12 buf0, h0) = Some (buf, h)" "buffer_ok (buf, h)" "length b \<le> length buf"
      "take 12 buf = take 12 (fst (take 12 b @ drop 12 buf0, h0))" "h = 12 \<or> length b \<le> 12"
    then show thesis using len(1) by (intro that [of buf h]) simp_all
  qed
  define c where "c = take 12 b @ replicate (length buf - 12) 0"
  have st: "store_bytes buf (int h) (replicate (length buf - 12) 0) = Inr c"
    using e(2,4) by (auto simp: store_bytes_def buffer_ok_def c_def)
  have h: "h + (length b - 12) \<le> length c" using e(2,3) len(1) by (auto simp: c_def buffer_ok_def)
  obtain us where us: "recvNum fd (w\<lparr>rxq := ys @ zs\<rparr>) c h (length b - 12) = Some (Inr (True, fd, w\<lparr>rxq := us @ zs\<rparr>,
      take h c @ drop 12 b @ drop (h + (length b - 12)) c))" "chunks us" "content us = rest"
    using recvNum_chunks [OF fd _ ys(2) _ h, of "w\<lparr>rxq := ys @ zs\<rparr>" zs] ys(3) by auto
  have eq: "take h c @ drop 12 b @ drop (h + (length b - 12)) c = b @ replicate (length buf - length b) 0"
  proof (cases "h = 12")
    case True
    have "12 - length b = 0" using len(1) by simp
    then show ?thesis using True len(1) by (simp add: c_def)
  next
    case False
    then have "length b = 12" using e(5) len(1) by simp
    moreover have "h = 0" "length buf = 12" using False e(2) by (auto simp: buffer_ok_def)
    ultimately show ?thesis by (simp add: c_def)
  qed
  have "receive_packet mem fd w bh = Some (Inr (RcvPacket, fd, w\<lparr>rxq := us @ zs\<rparr>, (b @ replicate (length buf - length b) 0, h)))"
    unfolding receive_packet_def bh using z ys(1) hd e(1) st us(1) missing_bytes_framed [OF len(1,2)] by (simp add: eq)
  moreover have "buffer_ok (b @ replicate (length buf - length b) 0, h)" using e(2,3) by (auto simp: buffer_ok_def)
  ultimately show thesis using us(2,3) by (intro that)
qed

text \<open>What the dispatcher does with a buffer must not depend on the zeros behind the packet.\<close>

primrec dispatch_all :: "(u8 list \<Rightarrow> 's \<Rightarrow> 's cres option) \<Rightarrow> u8 list list \<Rightarrow> 's \<Rightarrow> 's cres option" where
  "dispatch_all dispatcher [] s = Some (Inr s)"
| "dispatch_all dispatcher (b # bs) s = tbind (dispatcher b s) (dispatch_all dispatcher bs)"

lemma receive_packet_lost:
  assumes "rxq w = z # zs" "z = RxData [] \<or> z = RxError" "fd \<noteq> -1" "buffer_ok b"
  shows "\<exists>b'. receive_packet mem fd w b = Some (Inr (RcvLost, -1, w\<lparr>rxq := zs\<rparr>, b'))"
proof -
  obtain buf h where b: "b = (buf, h)" by (cases b)
  have l: "12 \<le> length buf" using assms(4) by (simp add: b buffer_ok_def)
  then show ?thesis using recvNum_short [of fd w "[]" z zs 12 0 "replicate 12 0 @ drop 12 buf"] assms(1-3)
    by (auto simp: receive_packet_def b store_bytes_def)
qed

lemma server_receive_packets:
  assumes "\<forall>b \<in> set bs. srx_framed b \<and> (\<forall>k s. dispatcher (b @ replicate k 0) s = dispatcher b s)"
    and "fd \<noteq> -1" "unlimited mem" "rxq w = xs @ z # zs" "chunks xs" "content xs = concat bs" "z = RxData [] \<or> z = RxError" "buffer_ok bh"
  shows "server_receive_loop mem dispatcher fd w bh s = tbind (dispatch_all dispatcher bs s) (\<lambda>s. Some (Inr (-1, w\<lparr>rxq := zs\<rparr>, s)))"
  using assms(1,4-6,8)
proof (induction bs arbitrary: w xs bh s)
  case Nil
  have "xs = []" using Nil by (cases xs; cases "hd xs") auto
  then show ?case using receive_packet_lost [of w z zs fd bh mem] Nil assms(2,7) by (subst server_receive_loop.simps) auto
next
  case (Cons b bs)
  obtain ys k h where ys: "receive_packet mem fd w bh = Some (Inr (RcvPacket, fd, w\<lparr>rxq := ys @ z # zs\<rparr>, (b @ replicate k 0, h)))"
    "chunks ys" "content ys = concat bs" "buffer_ok (b @ replicate k 0, h)"
    using receive_packet_framed [OF assms(2) Cons.prems(2,3), of b "concat bs" mem bh] Cons.prems assms(3) by auto
  have "server_receive_loop mem dispatcher fd (w\<lparr>rxq := ys @ z # zs\<rparr>) (b @ replicate k 0, h) =
      (\<lambda>s. tbind (dispatch_all dispatcher bs s) (\<lambda>s. Some (Inr (-1, w\<lparr>rxq := zs\<rparr>, s))))"
    using Cons.IH [of "w\<lparr>rxq := ys @ z # zs\<rparr>" ys "(b @ replicate k 0, h)"] Cons.prems(1) ys(2-4) by (intro ext) simp
  then show ?case using ys(1) Cons.prems(1) by (subst server_receive_loop.simps) (simp add: tbind_assoc)
qed

lemma server_receivePackets_stream:
  assumes "\<forall>b \<in> set bs. srx_framed b \<and> (\<forall>k s. dispatcher (b @ replicate k 0) s = dispatcher b s)"
    and "fd \<noteq> -1" "unlimited mem" "rxq w = xs @ z # zs" "chunks xs" "content xs = concat bs" "z = RxData [] \<or> z = RxError"
  shows "server_receivePackets mem dispatcher fd w s = tbind (dispatch_all dispatcher bs s) (\<lambda>s. Some (Inr (-1, w\<lparr>rxq := zs\<rparr>, s)))"
proof -
  obtain g where g: "mem 12 = Some g" using assms(3) by (rule unlimitedE)
  have "buffer_ok (map g [0..<12], 0)" by (simp add: buffer_ok_def)
  then show ?thesis using server_receive_packets [OF assms] g by (simp add: server_receivePackets_def new_buffer_def)
qed

end
