(* ===== verification/Proxy_Client.thy ===== *)
theory Proxy_Client
  imports Packet_Receiver Srx_Packets Rw_Lock
begin

text \<open>
  The library that a router uses to talk to the SRx server: \<open>client/srx_api.c\<close> and \<open>client/client_connection_handler.c\<close>. The state is the
  proxy with its connection handler, the socket with the network behind it, and the state of the router, which the callbacks change. Arrays
  on the stack have the size the code gives them; how many bytes the compiler reserves for one is a parameter, and a write behind
  the reserved bytes is a fault.
\<close>

section \<open>Data\<close>

definition PDU_SRXPROXY_HELLO_RESPONSE :: u8 where [simp]: "PDU_SRXPROXY_HELLO_RESPONSE = 1"
definition PDU_SRXPROXY_VERI_NOTIFICATION :: u8 where [simp]: "PDU_SRXPROXY_VERI_NOTIFICATION = 6"
definition PDU_SRXPROXY_SIGN_NOTIFICATION :: u8 where [simp]: "PDU_SRXPROXY_SIGN_NOTIFICATION = 7"
definition PDU_SRXPROXY_SYNC_REQUEST :: u8 where [simp]: "PDU_SRXPROXY_SYNC_REQUEST = 10"
definition PDU_SRXPROXY_ERROR :: u8 where [simp]: "PDU_SRXPROXY_ERROR = 11"

definition SRX_PROXY_BLOCK_TYPE_LATEST_SIGNATURE :: u8 where [simp]: "SRX_PROXY_BLOCK_TYPE_LATEST_SIGNATURE = 1"
definition SRX_PROXY_PEER_CHANGE_TYPE_REMOVE :: u8 where [simp]: "SRX_PROXY_PEER_CHANGE_TYPE_REMOVE = 0"
definition SRX_PROXY_PEER_CHANGE_TYPE_ADD :: u8 where [simp]: "SRX_PROXY_PEER_CHANGE_TYPE_ADD = 1"

definition SRX_DEFAULT_KEEP_WINDOW :: u16 where [simp]: "SRX_DEFAULT_KEEP_WINDOW = 900"
definition MAX_SEND_QUEUE :: nat where [simp]: "MAX_SEND_QUEUE = 100000"
definition MAX_RECONNECT_ATTEMPT :: nat where [simp]: "MAX_RECONNECT_ATTEMPT = 2"

definition COM_ERR_PROXY_UNKNOWN :: u32 where [simp]: "COM_ERR_PROXY_UNKNOWN = 0"
definition COM_ERR_PROXY_DUPLICATE_PROXY_ID :: u32 where [simp]: "COM_ERR_PROXY_DUPLICATE_PROXY_ID = 1"
definition COM_ERR_PROXY_UNKNOWN_ALGORITHM :: u32 where [simp]: "COM_ERR_PROXY_UNKNOWN_ALGORITHM = 2"
definition COM_ERR_PROXY_UNKNOWN_UPDATE :: u32 where [simp]: "COM_ERR_PROXY_UNKNOWN_UPDATE = 3"
definition COM_ERR_PROXY_CONNECTION_LOST :: u32 where [simp]: "COM_ERR_PROXY_CONNECTION_LOST = 4"
definition COM_ERR_PROXY_COULD_NOT_SEND :: u32 where [simp]: "COM_ERR_PROXY_COULD_NOT_SEND = 5"
definition COM_ERR_PROXY_SERVER_ERROR :: u32 where [simp]: "COM_ERR_PROXY_SERVER_ERROR = 6"
definition COM_ERR_PROXY_COMPATIBILITY :: u32 where [simp]: "COM_ERR_PROXY_COMPATIBILITY = 7"
definition COM_PROXY_DISCONNECT :: u32 where [simp]: "COM_PROXY_DISCONNECT = 129"
definition COM_PROXY_NONE :: u32 where [simp]: "COM_PROXY_NONE = 255"
definition SVRINTRNL :: int where [simp]: "SVRINTRNL = 1"
definition SVRINVPKG :: int where [simp]: "SVRINVPKG = 2"
definition COM_PROXY_NO_SUBCODE :: int where [simp]: "COM_PROXY_NO_SUBCODE = 0"

record ProxySocketConfig =
  enablePSC :: bool
  maxAttempts :: u8
  maxSleepMillis :: u16
  totalCountOfMultipleAttempts :: u32
  sendErrors :: u16
  sendErrorThreshold :: u16
  resetSendErrors :: u16
  succsessSend :: u16

text \<open>A packet in the send queue is \<open>None\<close> when its memory was allocated but never filled. \<open>monitor\<close> says that the lock and the
  condition for the receiver exist.\<close>

record ClientConnectionHandler =
  ch_initialized :: bool
  ch_established :: bool
  ch_sock :: ClientSocket
  ch_stop :: bool
  sendQueue :: "u8 list option list"
  queueLock :: RWLock
  monitor :: bool
  handshake_timeout :: u32
  ch_keepWindow :: u32

text \<open>The callbacks of the router; \<open>peers\<close> are the AS numbers with the addresses of the memory that the list keeps them in. \<open>sockSendError\<close>
  is the last error code of a \<open>send\<close>, a static variable of \<open>util/socket.c\<close>.\<close>

record 'u SRxProxy =
  resCallback :: "(u32 \<Rightarrow> u32 \<Rightarrow> u8 \<Rightarrow> u8 \<Rightarrow> u8 \<Rightarrow> u8 \<Rightarrow> 'u \<Rightarrow> 'u) option"
  sigCallback :: "(u32 \<Rightarrow> 'u \<Rightarrow> 'u) option"
  syncNotification :: "('u \<Rightarrow> 'u) option"
  commManagement :: "(u32 \<Rightarrow> int \<Rightarrow> 'u \<Rightarrow> 'u) option"
  lastCode :: u32
  lastSubCode :: int
  px_ID :: u32
  px_AS :: u32
  peers :: "(addr \<times> u32) list"
  externalSocketControl :: bool
  socketConfig :: ProxySocketConfig
  connHandler :: "ClientConnectionHandler option"
  px_wire :: wire
  sockSendError :: int
  router :: 'u

text \<open>What the operating system and the compiler decide: the bytes reserved for an array of a given size, the bytes an array starts with, memory,
  the code of a failed \<open>send\<close>, whether the host name is known, locks and semaphores can be created, and in which round of the handshake the
  alarm goes off.\<close>

record proxy_env =
  reserved :: "nat \<Rightarrow> nat"
  stack_junk :: "nat \<Rightarrow> u8"
  px_mem :: allocator
  tx_errno :: int
  host_known :: bool
  lock_ok :: bool
  semaphores_ok :: bool
  alarm_round :: nat

definition EAGAIN :: int where [simp]: "EAGAIN = 11"
definition EBADF :: int where [simp]: "EBADF = 9"

type_synonym 'u proxy_action = "'u SRxProxy \<Rightarrow> 'u SRxProxy cres"

definition handler :: "'u SRxProxy \<Rightarrow> ClientConnectionHandler cres" where
  "handler s = (case connHandler s of None \<Rightarrow> Inl NullDeref | Some h \<Rightarrow> Inr h)"

definition on_handler :: "(ClientConnectionHandler \<Rightarrow> ClientConnectionHandler) \<Rightarrow> 'u SRxProxy \<Rightarrow> 'u SRxProxy" where
  "on_handler f s = s\<lparr>connHandler := map_option f (connHandler s)\<rparr>"

lemma handler_simps [simp]:
  "connHandler s = Some h \<Longrightarrow> handler s = Inr h"
  "connHandler s = Some h \<Longrightarrow> on_handler f s = s\<lparr>connHandler := Some (f h)\<rparr>"
  by (simp_all add: handler_def on_handler_def)

section \<open>Sending\<close>

text \<open>The error code that \<open>sendNum\<close> leaves: it is reset at the start, and a call that has to be repeated sets it as well.\<close>

fun send_errno :: "int \<Rightarrow> u8 list \<Rightarrow> tx list \<Rightarrow> int \<Rightarrow> int" where
  "send_errno code [] ts e = e"
| "send_errno code (b # bs) [] e = e"
| "send_errno code (b # bs) (TxPart k # ts) e = send_errno code (drop k bs) ts e"
| "send_errno code (b # bs) (TxAgain # ts) e = send_errno code (b # bs) ts EAGAIN"
| "send_errno code (b # bs) (TxError # ts) e = code"

definition px_send :: "proxy_env \<Rightarrow> u8 list \<Rightarrow> 'u SRxProxy \<Rightarrow> (bool \<times> 'u SRxProxy) cres" where
  "px_send env bs s = cbind (handler s) (\<lambda>h. cbind (sendData (ch_sock h) (px_wire s) bs) (\<lambda>(ok, sock, w).
     Inr (ok, s\<lparr>connHandler := Some (h\<lparr>ch_sock := sock\<rparr>), px_wire := w,
       sockSendError := (if clientFD (ch_sock h) = -1 then EBADF else send_errno (tx_errno env) bs (txq (px_wire s)) 0)\<rparr>)))"

definition sendPacketToServer :: "proxy_env \<Rightarrow> u8 list \<Rightarrow> 'u SRxProxy \<Rightarrow> (bool \<times> 'u SRxProxy) cres" where
  "sendPacketToServer env bs s = cbind (handler s) (\<lambda>h.
     if isConnectedToServer (ch_sock h) then px_send env bs s
     else if ch_established h
     then cbind (acquireReadLock (queueLock h)) (\<lambda>l.
            if length (sendQueue h) = MAX_SEND_QUEUE
            then cbind (unlockReadLock l) (\<lambda>l. Inr (False, on_handler (queueLock_update (\<lambda>_. l)) s))
            else cbind (changeReadToWriteLock l) (\<lambda>l. cbind (unlockWriteLock l) (\<lambda>l.
                   let s = on_handler (queueLock_update (\<lambda>_. l)) s
                   in case px_mem env (length bs) of
                        None \<Rightarrow> Inr (False, s)
                      | Some g \<Rightarrow> Inr (True, on_handler (sendQueue_update (\<lambda>q. q @ [Some bs])) s))))
     else Inr (True, s))"

definition px_sendGoodbye :: "proxy_env \<Rightarrow> u16 \<Rightarrow> 'u SRxProxy \<Rightarrow> (bool \<times> 'u SRxProxy) cres" where
  "px_sendGoodbye env keepWindow s = cbind (handler s) (\<lambda>h.
     if \<not> isConnectedToServer (ch_sock h) then Inr (False, s)
     else cbind (px_send env ([PDU_SRXPROXY_GOODBYE] @ enc16 (unat keepWindow) @ [0] @ replicate 4 0 @ enc32 12) s) (\<lambda>(ok, s).
            Inr (if ok then (True, on_handler (ch_established_update (\<lambda>_. False)) s) else (False, s))))"

section \<open>The connection handler\<close>

definition createClientConnectionHandler :: "ClientConnectionHandler" where
  "createClientConnectionHandler = \<lparr>ch_initialized = False, ch_established = False,
     ch_sock = \<lparr>cs_type = SRX_PROXY_CLIENT_SOCKET, oldFD = -1, clientFD = -1, reconnect = False, canBeClosed = True\<rparr>,
     ch_stop = False, sendQueue = [], queueLock = Unlocked, monitor = False, handshake_timeout = 0, ch_keepWindow = ucast SRX_DEFAULT_KEEP_WINDOW\<rparr>"

definition initializeClientConnectionHandler :: "proxy_env \<Rightarrow> u32 \<Rightarrow> 'u SRxProxy \<Rightarrow> (bool \<times> 'u SRxProxy) cres option" where
  "initializeClientConnectionHandler env handshakeTimeout s =
     tbind (Some (handler s)) (\<lambda>h.
       if ch_initialized h then Some (Inr (False, s))
       else case createClientSocket (host_known env) True SRX_PROXY_CLIENT_SOCKET True (ch_sock h) (px_wire s) of
           None \<Rightarrow> None
         | Some (ok, sock, w) \<Rightarrow>
             let h = h\<lparr>ch_sock := sock\<rparr>; s = s\<lparr>connHandler := Some h, px_wire := w\<rparr>
             in if \<not> ok then Some (Inr (False, s))
                else let (ok, l) = createRWLock (lock_ok env) (queueLock h)
                     in if \<not> ok then Some (Inr (False, s\<lparr>connHandler := Some (h\<lparr>ch_sock := closeClientSocket sock\<rparr>)\<rparr>))
                        else let h = h\<lparr>queueLock := l, sendQueue := [], ch_stop := False, handshake_timeout := handshakeTimeout\<rparr>
                             in if \<not> semaphores_ok env then Some (Inr (False, s\<lparr>connHandler := Some h\<rparr>))
                                else Some (Inr (True, s\<lparr>connHandler := Some (h\<lparr>monitor := True, ch_initialized := True, ch_established := False\<rparr>)\<rparr>)))"

text \<open>The handler stays initialised; its lock is gone.\<close>

definition releaseClientConnectionHandler :: "proxy_env \<Rightarrow> 'u proxy_action" where
  "releaseClientConnectionHandler env s = (case connHandler s of
      None \<Rightarrow> Inr s
    | Some h \<Rightarrow>
        if \<not> ch_initialized h then Inr s
        else let s = on_handler (ch_stop_update (\<lambda>_. True)) s
             in cbind (if ch_established h then px_sendGoodbye env (ucast (ch_keepWindow h)) s else Inr (False, s)) (\<lambda>(_, s).
                let s = on_handler (ch_sock_update closeClientSocket) s
                in cbind (acquireWriteLock (queueLock h)) (\<lambda>l.
                   Inr (on_handler (\<lambda>h. h\<lparr>sendQueue := [], queueLock := releaseRWLock l, monitor := False\<rparr>) s))))"

section \<open>Management messages\<close>

definition isConnected :: "'u SRxProxy \<Rightarrow> bool" where
  "isConnected s \<longleftrightarrow> (case connHandler s of None \<Rightarrow> False | Some h \<Rightarrow> ch_initialized h \<and> ch_established h)"

definition resetProxyError :: "'u SRxProxy \<Rightarrow> 'u SRxProxy" where
  "resetProxyError s = s\<lparr>lastCode := COM_PROXY_NONE, lastSubCode := COM_PROXY_NO_SUBCODE\<rparr>"

definition isErrorCode :: "u32 \<Rightarrow> bool" where
  "isErrorCode code \<longleftrightarrow> code AND 0x7F = code"

definition setProxyCommCode :: "u32 \<Rightarrow> int \<Rightarrow> 'u SRxProxy \<Rightarrow> 'u SRxProxy" where
  "setProxyCommCode mainCode subCode s = s\<lparr>lastCode := mainCode, lastSubCode := subCode\<rparr>"

definition callCMgmtHandler :: "u32 \<Rightarrow> int \<Rightarrow> 'u SRxProxy \<Rightarrow> 'u SRxProxy" where
  "callCMgmtHandler mainCode subCode s =
     (let s = setProxyCommCode mainCode subCode s
      in case commManagement s of None \<Rightarrow> s | Some f \<Rightarrow> s\<lparr>router := f mainCode subCode (router s)\<rparr>)"

section \<open>Packets of the server\<close>

definition processHelloResponse :: "u8 list \<Rightarrow> 'u proxy_action" where
  "processHelloResponse b s = cbind (handler s) (\<lambda>h. cbind (rd16 b 1) (\<lambda>v.
     Inr (if v = SRX_PROTOCOL_VER then on_handler (ch_established_update (\<lambda>_. True)) s else s)))"

definition px_processGoodbye :: "proxy_env \<Rightarrow> 'u proxy_action" where
  "px_processGoodbye env s = cbind (handler s) (\<lambda>h.
     releaseClientConnectionHandler env (on_handler (\<lambda>h. h\<lparr>ch_established := False, ch_stop := True\<rparr>) s))"

definition processVerifyNotify :: "u8 list \<Rightarrow> 'u proxy_action" where
  "processVerifyNotify b s = (case resCallback s of
      None \<Rightarrow> Inr s
    | Some f \<Rightarrow>
        cbind (rd8 b 1) (\<lambda>resultType.
        cbind (rd32 b 12) (\<lambda>localID.
        cbind (rd32 b 16) (\<lambda>updateID.
        cbind (rd8 b 2) (\<lambda>roa. cbind (rd8 b 3) (\<lambda>bgpsec. cbind (rd8 b 4) (\<lambda>aspa.
          let hasReceipt = (resultType AND SRX_FLAG_REQUEST_RECEIPT = SRX_FLAG_REQUEST_RECEIPT);
              localID = (if 0 < localID \<and> \<not> hasReceipt then 0 else localID);
              roaResult = (if resultType AND SRX_FLAG_ROA = SRX_FLAG_ROA then roa else SRx_RESULT_UNDEFINED);
              bgpsecResult = (if resultType AND SRX_FLAG_BGPSEC = SRX_FLAG_BGPSEC then bgpsec else SRx_RESULT_UNDEFINED);
              aspaResult = (if resultType AND SRX_FLAG_ASPA = SRX_FLAG_ASPA then aspa else SRx_RESULT_UNDEFINED)
          in Inr (s\<lparr>router := f updateID localID (resultType AND SRX_FLAG_ROA_BGPSEC_ASPA) roaResult bgpsecResult aspaResult (router s)\<rparr>))))))))"

text \<open>The update identifier is passed in network order, without signature data.\<close>

definition processSignNotify :: "u8 list \<Rightarrow> 'u proxy_action" where
  "processSignNotify b s = (case sigCallback s of
      None \<Rightarrow> Inr s
    | Some f \<Rightarrow> cbind (raw32 b 12) (\<lambda>updId. Inr (s\<lparr>router := f updId (router s)\<rparr>)))"

definition processSyncRequest :: "'u proxy_action" where
  "processSyncRequest s = Inr (case syncNotification s of None \<Rightarrow> s | Some f \<Rightarrow> s\<lparr>router := f (router s)\<rparr>)"

definition processError :: "u8 list \<Rightarrow> 'u proxy_action" where
  "processError b s = cbind (rd16 b 1) (\<lambda>errCode. Inr (
     if errCode = SRXERR_WRONG_VERSION then callCMgmtHandler COM_ERR_PROXY_COMPATIBILITY COM_PROXY_NO_SUBCODE s
     else if errCode = SRXERR_DUPLICATE_PROXY_ID then callCMgmtHandler COM_ERR_PROXY_DUPLICATE_PROXY_ID COM_PROXY_NO_SUBCODE s
     else if errCode = SRXERR_INVALID_PACKET then callCMgmtHandler COM_ERR_PROXY_SERVER_ERROR SVRINVPKG s
     else if errCode = SRXERR_INTERNAL_ERROR then callCMgmtHandler COM_ERR_PROXY_SERVER_ERROR SVRINTRNL s
     else if errCode = SRXERR_ALGO_NOT_SUPPORTED then callCMgmtHandler COM_ERR_PROXY_UNKNOWN_ALGORITHM COM_PROXY_NO_SUBCODE s
     else if errCode = SRXERR_UPDATE_NOT_FOUND then callCMgmtHandler COM_ERR_PROXY_UNKNOWN_UPDATE COM_PROXY_NO_SUBCODE s
     else callCMgmtHandler COM_ERR_PROXY_UNKNOWN (uint errCode) s))"

definition dispatchPackets :: "proxy_env \<Rightarrow> u8 list \<Rightarrow> 'u proxy_action" where
  "dispatchPackets env b s = cbind (rd8 b 0) (\<lambda>type.
     if type = PDU_SRXPROXY_HELLO_RESPONSE then processHelloResponse b s
     else if type = PDU_SRXPROXY_GOODBYE then px_processGoodbye env s
     else if type = PDU_SRXPROXY_VERI_NOTIFICATION then processVerifyNotify b s
     else if type = PDU_SRXPROXY_SIGN_NOTIFICATION then processSignNotify b s
     else if type = PDU_SRXPROXY_SYNC_REQUEST then processSyncRequest s
     else if type = PDU_SRXPROXY_ERROR then processError b s
     else Inr s)"

text \<open>\<open>receivePackets\<close> on the side of the proxy: one packet.\<close>

definition processPackets :: "proxy_env \<Rightarrow> 'u SRxProxy \<Rightarrow> (bool \<times> 'u SRxProxy) cres option" where
  "processPackets env s =
     tbind (Some (handler s)) (\<lambda>h. tbind (Some (new_buffer (px_mem env))) (\<lambda>b.
     tbind (receive_packet (px_mem env) (clientFD (ch_sock h)) (px_wire s) b) (\<lambda>(got, fd, w, b).
       let s = s\<lparr>connHandler := Some (h\<lparr>ch_sock := (ch_sock h)\<lparr>clientFD := fd\<rparr>\<rparr>), px_wire := w\<rparr>
       in if got = RcvPacket then Some (cbind (dispatchPackets env (fst b) s) (\<lambda>s. Inr (True, s)))
          else Some (Inr (got = RcvLost \<and> \<not> ch_stop h \<and> fd \<noteq> -1, s)))))"

section \<open>The handshake\<close>

text \<open>The alarm closes the socket, which ends a waiting \<open>recv\<close>.\<close>

definition timed_out :: "'u SRxProxy \<Rightarrow> 'u SRxProxy" where
  "timed_out s = on_handler (\<lambda>h. h\<lparr>ch_established := False, ch_sock := (ch_sock h)\<lparr>clientFD := -1\<rparr>\<rparr>) (resetProxyError s)"

partial_function (option) handshake_loop :: "proxy_env \<Rightarrow> nat option \<Rightarrow> 'u SRxProxy \<Rightarrow> 'u SRxProxy cres option" where
  "handshake_loop env alarm s =
     (if isConnected s then Some (Inr s)
      else if alarm = Some 0 then Some (Inr (timed_out s))
      else case processPackets env (resetProxyError s) of
          None \<Rightarrow> if alarm = None then None else Some (Inr (timed_out s))
        | Some r \<Rightarrow> (case r of
              Inl f \<Rightarrow> Some (Inl f)
            | Inr p \<Rightarrow> if isErrorCode (lastCode (snd p)) then Some (Inr (snd p))
                       else handshake_loop env (map_option (\<lambda>k. k - 1) alarm) (snd p)))"

definition handshakeWithServer :: "proxy_env \<Rightarrow> u8 list \<Rightarrow> 'u SRxProxy \<Rightarrow> (bool \<times> 'u SRxProxy) cres option" where
  "handshakeWithServer env pdu s =
     tbind (Some (px_send env pdu s)) (\<lambda>(ok, s).
       if \<not> ok then Some (Inr (False, s))
       else tbind (Some (handler s)) (\<lambda>h.
            tbind (handshake_loop env (if handshake_timeout h = 0 then None else Some (alarm_round env)) s) (\<lambda>s.
            tbind (Some (handler s)) (\<lambda>h. Some (Inr (ch_established h, s))))))"

text \<open>The hello packet. Its array has 20 bytes and 4 for each peer, but the header has 24 bytes.\<close>

definition hello_bytes :: "'u SRxProxy \<Rightarrow> u8 list" where
  "hello_bytes s =
     (let noPeers = length (peers s)
      in [PDU_SRXPROXY_HELLO] @ enc16 (unat SRX_PROTOCOL_VER) @ [0] @ replicate 4 0 @ enc32 (of_nat (20 + noPeers * 4)) @ enc32 (px_ID s) @ enc32 (px_AS s) @
           enc32 (of_nat noPeers) @ concat (map (enc32 \<circ> snd) (peers s)))"

definition hello_pdu :: "proxy_env \<Rightarrow> 'u SRxProxy \<Rightarrow> u8 list cres" where
  "hello_pdu env s =
     (let n = 20 + length (peers s) * 4
      in if reserved env n < length (hello_bytes s) then Inl BufferOverflow else Inr (take n (hello_bytes s)))"

definition disconnectFromSRx :: "proxy_env \<Rightarrow> u16 \<Rightarrow> 'u proxy_action" where
  "disconnectFromSRx env keepWindow s =
     (if isConnected s
      then cbind (px_sendGoodbye env keepWindow s) (\<lambda>(_, s).
           cbind (releaseClientConnectionHandler env (on_handler (ch_established_update (\<lambda>_. False)) s)) (\<lambda>s.
             Inr (callCMgmtHandler COM_PROXY_DISCONNECT COM_PROXY_NO_SUBCODE s)))
      else Inr s)"

definition connectToSRx :: "proxy_env \<Rightarrow> u32 \<Rightarrow> bool \<Rightarrow> 'u SRxProxy \<Rightarrow> (bool \<times> 'u SRxProxy) cres option" where
  "connectToSRx env handshakeTimeout external s =
     tbind (Some (handler s)) (\<lambda>h.
       if ch_initialized h \<and> ch_stop h then Some (Inr (False, s))
       else if ch_initialized h \<and> ch_established h then Some (Inr (True, s))
       else tbind (if ch_initialized h then Some (Inr (True, s)) else initializeClientConnectionHandler env handshakeTimeout s) (\<lambda>(ok, s).
         if \<not> ok then Some (Inr (False, s))
         else tbind (Some (handler s)) (\<lambda>h.
           if ch_established h then tbind (Some (disconnectFromSRx env SRX_DEFAULT_KEEP_WINDOW s)) (\<lambda>s. Some (Inr (False, s)))
           else tbind (Some (hello_pdu env s)) (\<lambda>pdu.
                tbind (handshakeWithServer env pdu s) (\<lambda>(ok, s).
                tbind (Some (handler s)) (\<lambda>h.
                  if \<not> ok
                  then tbind (Some (if ch_stop h then Inr s else releaseClientConnectionHandler env s)) (\<lambda>s. Some (Inr (False, s)))
                  else let s = s\<lparr>externalSocketControl := external\<rparr>
                       in Some (Inr (ch_established h,
                            if external then on_handler (ch_sock_update (canBeClosed_update (\<lambda>_. False))) s else s))))))))"

definition reconnectSRX :: "proxy_env \<Rightarrow> 'u SRxProxy \<Rightarrow> (bool \<times> 'u SRxProxy) cres option" where
  "reconnectSRX env s =
     tbind (Some (handler s)) (\<lambda>h.
       if \<not> (ch_initialized h \<and> \<not> ch_stop h) then Some (Inr (False, s))
       else let fd = (if oldFD (ch_sock h) \<noteq> -1 \<and> clientFD (ch_sock h) = -1 then oldFD (ch_sock h) else clientFD (ch_sock h));
                s = on_handler (ch_sock_update (clientFD_update (\<lambda>_. fd))) s
            in tbind (Some (if fd = -1 then Inr s
                            else cbind (px_sendGoodbye env (ucast (ch_keepWindow h)) s) (\<lambda>(_, s).
                                   Inr (if externalSocketControl s
                                        then on_handler (ch_sock_update (\<lambda>c. c\<lparr>clientFD := -1, oldFD := -1\<rparr>)) s else s)))) (\<lambda>s.
               tbind (Some (handler s)) (\<lambda>h.
               case reconnectToServer (ch_sock h) MAX_RECONNECT_ATTEMPT (px_wire s) of
                 None \<Rightarrow> None
               | Some (ok, sock, w) \<Rightarrow>
                   let s = s\<lparr>connHandler := Some (h\<lparr>ch_sock := sock\<rparr>), px_wire := w\<rparr>
                   in if \<not> ok then Some (Inr (False, s))
                      else tbind (Some (hello_pdu env s)) (\<lambda>pdu. handshakeWithServer env pdu s))))"

section \<open>The interface of the router\<close>

definition createSRxProxy ::
  "allocator \<Rightarrow> nat \<Rightarrow> nat \<Rightarrow> (u32 \<Rightarrow> u32 \<Rightarrow> u8 \<Rightarrow> u8 \<Rightarrow> u8 \<Rightarrow> u8 \<Rightarrow> 'u \<Rightarrow> 'u) option \<Rightarrow> (u32 \<Rightarrow> 'u \<Rightarrow> 'u) option \<Rightarrow> ('u \<Rightarrow> 'u) option \<Rightarrow>
     (u32 \<Rightarrow> int \<Rightarrow> 'u \<Rightarrow> 'u) option \<Rightarrow> u32 \<Rightarrow> u32 \<Rightarrow> wire \<Rightarrow> 'u \<Rightarrow> 'u SRxProxy option" where
  "createSRxProxy mem proxy_size handler_size res sig sync comm proxyID proxyAS w u =
     (if mem proxy_size = None then None
      else Some \<lparr>resCallback = res, sigCallback = sig, syncNotification = sync, commManagement = comm, lastCode = COM_PROXY_NONE,
             lastSubCode = COM_PROXY_NO_SUBCODE, px_ID = proxyID, px_AS = proxyAS, peers = [], externalSocketControl = False,
             socketConfig = \<lparr>enablePSC = True, maxAttempts = 25, maxSleepMillis = 1, totalCountOfMultipleAttempts = 0, sendErrors = 0,
               sendErrorThreshold = 300, resetSendErrors = 1000, succsessSend = 0\<rparr>,
             connHandler = (if mem handler_size = None then None else Some createClientConnectionHandler), px_wire = w, sockSendError = 0, router = u\<rparr>)"

text \<open>After this the memory of the proxy is gone; the result is the state of the rest.\<close>

definition releaseSRxProxy :: "proxy_env \<Rightarrow> 'u SRxProxy \<Rightarrow> 'u SRxProxy cres" where
  "releaseSRxProxy env s = cbind (disconnectFromSRx env SRX_DEFAULT_KEEP_WINDOW s) (\<lambda>s. Inr (s\<lparr>peers := [], connHandler := None\<rparr>))"

definition reconnectWithSRx :: "proxy_env \<Rightarrow> 'u SRxProxy \<Rightarrow> (bool \<times> 'u SRxProxy) cres option" where
  "reconnectWithSRx env s = reconnectSRX env s"

definition getInternalSocketFD :: "bool \<Rightarrow> 'u SRxProxy \<Rightarrow> int cres" where
  "getInternalSocketFD main s =
     (if externalSocketControl s then cbind (handler s) (\<lambda>h. Inr (if main then clientFD (ch_sock h) else oldFD (ch_sock h))) else Inr (-1))"

text \<open>Peers are given with the memory that the list gets for them. Only the first four bytes of the array for the packets are
  set to zero.\<close>

definition append_peer :: "addr option \<times> u32 \<Rightarrow> 'u proxy_action" where
  "append_peer = (\<lambda>(m, as) s. case m of None \<Rightarrow> Inl NullDeref | Some a \<Rightarrow> Inr (s\<lparr>peers := peers s @ [(a, as)]\<rparr>))"

definition peer_array :: "proxy_env \<Rightarrow> nat \<Rightarrow> u8 list cres" where
  "peer_array env n =
     (if reserved env (unat (of_nat (n * 16) :: u32)) < n * 16 then Inl BufferOverflow
      else Inr (map (\<lambda>i. if i < 4 then 0 else stack_junk env i) [0 ..< n * 16]))"

definition put_header :: "u8 \<Rightarrow> nat \<Rightarrow> u8 list \<Rightarrow> u8 list" where
  "put_header changeType i data =
     (let p = i * 16 in take (p + 8) (data[p := PDU_SRXPROXY_PEER_CHANGE, p + 3 := changeType]) @ enc32 16 @ drop (p + 12) data)"

definition put_peerAS :: "u32 \<Rightarrow> nat \<Rightarrow> u8 list \<Rightarrow> u8 list" where
  "put_peerAS as i data = take (i * 16 + 12) data @ enc32 as @ drop (i * 16 + 16) data"

definition addPeers :: "proxy_env \<Rightarrow> (addr option \<times> u32) list \<Rightarrow> 'u proxy_action" where
  "addPeers env ps s =
     (if isConnected s
      then cbind (peer_array env (length ps)) (\<lambda>data.
           cbind (cfold append_peer ps s) (\<lambda>s.
             let data = fold (\<lambda>(i, as) d. put_peerAS as i (put_header SRX_PROXY_PEER_CHANGE_TYPE_ADD i d)) (enumerate 0 (map snd ps)) data
             in cbind (px_send env data s) (\<lambda>(_, s). Inr s)))
      else cfold append_peer ps s)"

text \<open>\<open>deleteFromSList\<close> compares the pointers. Only the first packet gets a header, and all packets are sent for each peer.\<close>

definition delete_peer :: "addr \<Rightarrow> 'u SRxProxy \<Rightarrow> 'u SRxProxy" where
  "delete_peer a s = s\<lparr>peers := (case find (\<lambda>p. fst p = a) (peers s) of None \<Rightarrow> peers s | Some p \<Rightarrow> remove1 p (peers s))\<rparr>"

definition remove_step :: "proxy_env \<Rightarrow> nat \<times> addr \<times> u32 \<Rightarrow> u8 list \<times> 'u SRxProxy \<Rightarrow> (u8 list \<times> 'u SRxProxy) cres" where
  "remove_step env = (\<lambda>(i, a, as) (data, s).
     let data = put_peerAS as i data in cbind (px_send env data (delete_peer a s)) (\<lambda>(_, s). Inr (data, s)))"

definition removePeers :: "proxy_env \<Rightarrow> (addr \<times> u32) list \<Rightarrow> 'u proxy_action" where
  "removePeers env ps s =
     (if isConnected s
      then cbind (peer_array env (length ps)) (\<lambda>data.
             if reserved env (length data) < 12 then Inl BufferOverflow
             else cbind (cfold (remove_step env) (enumerate 0 ps) (put_header SRX_PROXY_PEER_CHANGE_TYPE_REMOVE 0 data, s)) (\<lambda>(_, s). Inr s))
      else Inr (fold (\<lambda>(a, _). delete_peer a) ps s))"

definition deleteUpdate :: "proxy_env \<Rightarrow> u16 \<Rightarrow> u32 \<Rightarrow> 'u proxy_action" where
  "deleteUpdate env keep_window updateID s =
     (if isConnected s
      then case px_mem env 16 of
             None \<Rightarrow> Inl NullDeref
           | Some _ \<Rightarrow> cbind (px_send env ([PDU_SRXPROXY_DELTE_UPDATE] @ enc16 (unat keep_window) @ [0] @ replicate 4 0 @ enc32 16 @ enc32 updateID) s) (\<lambda>(_, s). Inr s)
      else cbind (handler s) (\<lambda>_. Inr s))"

definition signUpdate :: "proxy_env \<Rightarrow> u32 \<Rightarrow> bool \<Rightarrow> u16 \<Rightarrow> u32 \<Rightarrow> u32 \<Rightarrow> 'u SRxProxy \<Rightarrow> (bool \<times> 'u SRxProxy) cres" where
  "signUpdate env updateId onlyOwnSignature algorithm prependCounter peerAS s =
     sendPacketToServer env ([PDU_SRXPROXY_SIGN_REQUEST] @ enc16 (unat algorithm) @ [if onlyOwnSignature then SRX_PROXY_BLOCK_TYPE_LATEST_SIGNATURE else 0] @
       replicate 4 0 @ enc32 24 @ enc32 updateId @ enc32 prependCounter @ enc32 peerAS) s"

section \<open>Validation requests\<close>

record SRxASPathList =
  spl_asType :: u32
  spl_asRelationship :: u32

definition V4_REQUEST_SIZE :: nat where [simp]: "V4_REQUEST_SIZE = 60"
definition V6_REQUEST_SIZE :: nat where [simp]: "V6_REQUEST_SIZE = 72"

definition bgpsec_size :: "BGPSecData option \<Rightarrow> nat" where
  "bgpsec_size bgpsec = (case bgpsec of None \<Rightarrow> 0 | Some d \<Rightarrow> unat (numberHops d) * 4 + unat (attr_length d))"

text \<open>The AS path as it is in memory, and the BGPsec attribute.\<close>

definition bgpsec_bytes :: "BGPSecData option \<Rightarrow> u8 list cres" where
  "bgpsec_bytes bgpsec = (case bgpsec of
      None \<Rightarrow> Inr []
    | Some d \<Rightarrow>
        if length (asPath d) < unat (numberHops d) then Inl OutOfBounds
        else let path = concat (map mem_bytes32 (take (unat (numberHops d)) (asPath d)))
             in if attr_length d = 0 then Inr path
                else (case bgpsec_path_attr d of
                    None \<Rightarrow> Inl NullDeref
                  | Some a \<Rightarrow> cbind (rd_bytes a 0 (unat (attr_length d))) (\<lambda>a. Inr (path @ a))))"

text \<open>The requests are built in an array of \<open>n_bytes\<close> zeros. The data of the AS path is copied behind the header; \<open>createV6Request\<close> copies it
  to the position that it has in a request for IPv4.\<close>

definition fill_request :: "proxy_env \<Rightarrow> nat \<Rightarrow> u8 list \<Rightarrow> BGPSecData option \<Rightarrow> u8 list cres" where
  "fill_request env n_bytes hdr bgpsec =
     cbind (bgpsec_bytes bgpsec) (\<lambda>payload.
       if reserved env n_bytes < max (length hdr) (V4_REQUEST_SIZE + length payload) then Inl BufferOverflow
       else Inr (take n_bytes (take V4_REQUEST_SIZE hdr @ payload @ drop (V4_REQUEST_SIZE + length payload) (hdr @ replicate (n_bytes - length hdr) 0))))"

definition v4_header :: "u8 \<Rightarrow> u32 \<Rightarrow> SRxDefaultResult \<Rightarrow> IPPrefix \<Rightarrow> u32 \<Rightarrow> BGPSecData \<Rightarrow> SRxASPathList \<Rightarrow> u8 list" where
  "v4_header method rToken dflt pfx as32 d pl =
     [PDU_SRXPROXY_VERIFY_V4_REQUEST, method, ucast (resSourceROA dflt), ucast (resSourceBGPSEC dflt), ucast (resSourceASPA dflt), 0,
      ucast (spl_asType pl), ucast (spl_asRelationship pl)] @ enc32 (of_nat (V4_REQUEST_SIZE + bgpsec_size (Some d))) @
     [roaResult (defResult dflt), bgpsecResult (defResult dflt), aspaResult (defResult dflt), plength pfx] @ enc32 rToken @
     take 4 (addr (ip pfx)) @ enc32 as32 @ enc32 (of_nat (bgpsec_size (Some d))) @
     enc16 (unat (numberHops d)) @ enc16 (unat (attr_length d)) @ mem_bytes16 (bafi d) @ [bsafi d] @ replicate 17 0 @ enc32 (local_as d)"

definition createV4Request ::
  "proxy_env \<Rightarrow> nat \<Rightarrow> u8 \<Rightarrow> u32 \<Rightarrow> SRxDefaultResult \<Rightarrow> IPPrefix \<Rightarrow> u32 \<Rightarrow> BGPSecData option \<Rightarrow> SRxASPathList \<Rightarrow> u8 list cres" where
  "createV4Request env n_bytes method rToken dflt pfx as32 bgpsec pl = (case bgpsec of
      None \<Rightarrow> Inl NullDeref
    | Some d \<Rightarrow> fill_request env n_bytes (v4_header method rToken dflt pfx as32 d pl) bgpsec)"

definition v6_header :: "u8 \<Rightarrow> u32 \<Rightarrow> SRxDefaultResult \<Rightarrow> IPPrefix \<Rightarrow> u32 \<Rightarrow> BGPSecData option \<Rightarrow> u8 list" where
  "v6_header method rToken dflt pfx as32 bgpsec =
     (let hops = (case bgpsec of None \<Rightarrow> 0 | Some d \<Rightarrow> numberHops d); attr = (case bgpsec of None \<Rightarrow> 0 | Some d \<Rightarrow> attr_length d)
      in [PDU_SRXPROXY_VERIFY_V6_REQUEST, method, ucast (resSourceROA dflt), ucast (resSourceBGPSEC dflt), 0, 0, 0, 0] @
         enc32 (of_nat (V6_REQUEST_SIZE + bgpsec_size bgpsec)) @
         [roaResult (defResult dflt), bgpsecResult (defResult dflt), 0, plength pfx] @ enc32 rToken @
         take 16 (addr (ip pfx)) @ enc32 as32 @ enc32 (of_nat (bgpsec_size bgpsec)) @
         enc16 (unat hops) @ enc16 (unat attr) @ replicate 24 0)"

definition createV6Request ::
  "proxy_env \<Rightarrow> nat \<Rightarrow> u8 \<Rightarrow> u32 \<Rightarrow> SRxDefaultResult \<Rightarrow> IPPrefix \<Rightarrow> u32 \<Rightarrow> BGPSecData option \<Rightarrow> u8 list cres" where
  "createV6Request env n_bytes method rToken dflt pfx as32 bgpsec = fill_request env n_bytes (v6_header method rToken dflt pfx as32 bgpsec) bgpsec"

definition request_method :: "bool \<Rightarrow> bool \<Rightarrow> bool \<Rightarrow> u32 \<Rightarrow> u8" where
  "request_method usePrefixOriginVal usePathVal useAspaVal localID =
     (if usePrefixOriginVal then SRX_FLAG_ROA else 0) OR (if usePathVal then SRX_FLAG_BGPSEC else 0) OR (if useAspaVal then SRX_FLAG_ASPA else 0) OR
     (if localID \<noteq> 0 then SRX_FLAG_REQUEST_RECEIPT else 0)"

text \<open>The loop that sends a request: it ends with a success or with an error code; a failure without an error code is repeated.\<close>

definition count_success :: "'u SRxProxy \<Rightarrow> 'u SRxProxy" where
  "count_success s =
     (let c = socketConfig s
      in s\<lparr>socketConfig := (if resetSendErrors c \<le> succsessSend c then c\<lparr>succsessSend := 0, sendErrors := 0\<rparr> else c\<lparr>succsessSend := succsessSend c + 1\<rparr>)\<rparr>)"

partial_function (option) send_attempts :: "proxy_env \<Rightarrow> int \<Rightarrow> int \<Rightarrow> u8 list \<Rightarrow> 'u SRxProxy \<Rightarrow> (int \<times> int \<times> 'u SRxProxy) cres option" where
  "send_attempts env maxAttempt attempt pdu s =
     tbind (Some (sendPacketToServer env pdu s)) (\<lambda>r.
       if fst r then Some (Inr (attempt + 1, 0, count_success (snd r)))
       else if sockSendError (snd r) = 0 \<or> sockSendError (snd r) = EAGAIN \<and> attempt + 1 < maxAttempt
       then send_attempts env maxAttempt (attempt + 1) pdu (snd r)
       else Some (Inr (attempt + 1, sockSendError (snd r), snd r)))"

definition report_send_error :: "int \<Rightarrow> 'u proxy_action" where
  "report_send_error code s = cbind (handler s) (\<lambda>h.
     let c = socketConfig s; c = c\<lparr>sendErrors := sendErrors c + 1, succsessSend := 0\<rparr>; s = s\<lparr>socketConfig := c\<rparr>
     in Inr (if clientFD (ch_sock h) = -1
             then callCMgmtHandler COM_ERR_PROXY_CONNECTION_LOST COM_PROXY_NO_SUBCODE (on_handler (ch_established_update (\<lambda>_. False)) s)
             else if sendErrorThreshold c \<le> sendErrors c
             then (callCMgmtHandler COM_ERR_PROXY_COULD_NOT_SEND (-1) s)\<lparr>socketConfig := c\<lparr>sendErrors := 0\<rparr>\<rparr>
             else callCMgmtHandler COM_ERR_PROXY_COULD_NOT_SEND code s))"

text \<open>The request that could not be sent is put into the send queue without its content.\<close>

definition verifyUpdate ::
  "proxy_env \<Rightarrow> u32 \<Rightarrow> bool \<Rightarrow> bool \<Rightarrow> bool \<Rightarrow> SRxDefaultResult \<Rightarrow> IPPrefix \<Rightarrow> u32 \<Rightarrow> BGPSecData option \<Rightarrow> SRxASPathList \<Rightarrow> 'u SRxProxy \<Rightarrow> 'u SRxProxy cres option" where
  "verifyUpdate env localID usePrefixOriginVal usePathVal useAspaVal dflt pfx as32 bgpsec pl s =
     (if \<not> isConnected s then Some (Inr s)
      else let method = request_method usePrefixOriginVal usePathVal useAspaVal localID; isV4 = (version (ip pfx) = 4);
               bgpsecLength = (of_nat (bgpsec_size bgpsec) :: u16);
               n_bytes = (if isV4 then V4_REQUEST_SIZE else V6_REQUEST_SIZE) + unat bgpsecLength;
               maxAttempt = (if enablePSC (socketConfig s) then uint (maxAttempts (socketConfig s)) else 1)
           in tbind (Some (if isV4 then createV4Request env n_bytes method localID dflt pfx as32 bgpsec pl
                           else createV6Request env n_bytes method localID dflt pfx as32 bgpsec)) (\<lambda>pdu.
              tbind (send_attempts env maxAttempt 0 pdu s) (\<lambda>(attempt, code, s).
                let s = (if 1 < attempt
                         then s\<lparr>socketConfig := (socketConfig s)\<lparr>totalCountOfMultipleAttempts := totalCountOfMultipleAttempts (socketConfig s) + 1\<rparr>\<rparr> else s)
                in if code = 0 then Some (Inr s)
                   else tbind (Some (report_send_error code s)) (\<lambda>s.
                        Some (Inr (if px_mem env n_bytes = None then s else on_handler (sendQueue_update (\<lambda>q. q @ [None])) s))))))"

end
