(* ===== verification/Srx_Wire.thy ===== *)
theory Srx_Wire
  imports Packet_Receiver Connection_Handler
begin

text \<open>
  The packets of the SRx proxy protocol as bytes: what the server sends (the packed structures of \<open>shared/srx_packets.h\<close>, filled by
  \<open>server/srx_packet_sender.c\<close>), and how it reads the packets of a client through the same structures before the connection
  handler gets them (\<open>single_packetHandler\<close> of \<open>util/server_socket.c\<close>).
\<close>

section \<open>Packets to the client\<close>

fun msg_bytes :: "srx_msg \<Rightarrow> u8 list" where
  "msg_bytes (HelloResponse ver pid) = [1] @ mem_bytes16 ver @ [0] @ replicate 4 0 @ enc32 16 @ mem_bytes32 pid"
| "msg_bytes (GoodbyeMsg keep) = [2] @ mem_bytes16 keep @ [0] @ replicate 4 0 @ enc32 12"
| "msg_bytes (VerifyNotification resultType token roa bgpsec aspa uid) =
     [6, resultType, roa, bgpsec, aspa, 0] @ replicate 2 0 @ enc32 20 @ mem_bytes32 token @ mem_bytes32 uid"
| "msg_bytes (SignatureNotification uid len blob) = [7] @ replicate 7 0 @ enc32 (20 + of_nat (length blob)) @ mem_bytes32 uid @ mem_bytes32 len @ blob"
| "msg_bytes SyncRequest = [10] @ replicate 7 0 @ enc32 12"
| "msg_bytes (ErrorMsg code) = [11] @ mem_bytes16 code @ [0] @ replicate 4 0 @ enc32 12"

section \<open>Packets of the client\<close>

text \<open>The structures of the requests differ in the size of the address. The bytes behind the header are those that belong to the
  packet.\<close>

definition read_request :: "bool \<Rightarrow> u8 list \<Rightarrow> VerifyRequest cres" where
  "read_request v4 b =
     (let n = (if v4 then 4 else 16)
      in cbind (rd_bytes b 0 20) (\<lambda>c. cbind (raw32 b 8) (\<lambda>len. cbind (raw32 b 16) (\<lambda>token. cbind (rd_bytes b 20 n) (\<lambda>adr.
         cbind (raw32 b (20 + n)) (\<lambda>as. cbind (raw16 b (28 + n)) (\<lambda>hops. cbind (raw16 b (30 + n)) (\<lambda>attr.
         cbind (raw16 b (32 + n)) (\<lambda>afi. cbind (rd8 b (34 + n)) (\<lambda>safi. cbind (raw32 b (52 + n)) (\<lambda>local.
           Inr \<lparr>vr_v4 = v4, vr_flags = c ! 1, roaResSrc = c ! 2, bgpsecResSrc = c ! 3, aspaResSrc = c ! 4, vr_asType = c ! 6, vr_asRelType = c ! 7,
             vr_length = len, roaDefRes = c ! 12, bgpsecDefRes = c ! 13, aspaDefRes = c ! 14, prefixLen = c ! 15, requestToken = token,
             prefixAddress = adr, vr_originAS = as, numHops = hops, attrLen = attr, val_afi = afi, val_safi = safi, val_local_as = local,
             vr_payload = drop (56 + n) (take (unat (ntohl len)) b)\<rparr>)))))))))))"

definition read_pdu :: "u8 list \<Rightarrow> srx_pdu cres" where
  "read_pdu b = cbind (rd8 b 0) (\<lambda>ty.
     if ty = PDU_SRXPROXY_HELLO then cbind (raw16 b 1) (\<lambda>v. cbind (raw32 b 12) (\<lambda>p. Inr (HelloPDU v p)))
     else if ty = PDU_SRXPROXY_GOODBYE then cbind (raw16 b 1) (\<lambda>k. Inr (GoodbyePDU k))
     else if ty = PDU_SRXPROXY_VERIFY_V4_REQUEST then cbind (read_request True b) (\<lambda>r. Inr (VerifyPDU r))
     else if ty = PDU_SRXPROXY_VERIFY_V6_REQUEST then cbind (read_request False b) (\<lambda>r. Inr (VerifyPDU r))
     else if ty = PDU_SRXPROXY_SIGN_REQUEST then cbind (raw32 b 12) (\<lambda>u. cbind (raw32 b 8) (\<lambda>n. Inr (SignPDU u n)))
     else if ty = PDU_SRXPROXY_DELTE_UPDATE then cbind (raw16 b 1) (\<lambda>k. cbind (raw32 b 12) (\<lambda>u. Inr (DeletePDU k u)))
     else if ty = PDU_SRXPROXY_PEER_CHANGE then Inr PeerChangePDU
     else Inr (OtherPDU ty))"

text \<open>A packet that is shorter than its header is not looked at.\<close>

definition single_packetHandler :: "'t uthash \<Rightarrow> request_env \<Rightarrow> addr \<Rightarrow> addr \<Rightarrow> u8 list \<Rightarrow> ('p, 't) ConnectionHandler \<Rightarrow> ('p, 't) ConnectionHandler cres option" where
  "single_packetHandler T env sock client b self =
     tbind (Some (rd32 b 8)) (\<lambda>len.
     tbind (Some (if len < 12 then cbind (rd8 b 0) (\<lambda>ty. Inr (OtherPDU ty)) else read_pdu b)) (\<lambda>pdu.
     tbind (handlePacket T env sock client pdu len self) (\<lambda>(_, self). Some (Inr self))))"

text \<open>The thread of a client receives until the connection ends. Then the connection handler is told that the client is lost and the
  thread can be reused.\<close>

definition single_receive ::
  "'t uthash \<Rightarrow> request_env \<Rightarrow> allocator \<Rightarrow> addr \<Rightarrow> addr \<Rightarrow> int \<Rightarrow> wire \<Rightarrow> ('p, 't) ConnectionHandler \<Rightarrow> (int \<times> wire \<times> ('p, 't) ConnectionHandler) cres option" where
  "single_receive T env mem sock client fd w self = server_receivePackets mem (single_packetHandler T env sock client) fd w self"

definition clientThreadCleanup :: "env \<Rightarrow> addr \<Rightarrow> ('p, 't) ConnectionHandler \<Rightarrow> ('p, 't) ConnectionHandler cres option" where
  "clientThreadCleanup env client self =
     tbind (handleStatusChange None env client False self) (\<lambda>(_, self).
     tbind (Some (thread_at (server self) client)) (\<lambda>t.
       Some (Inr (self\<lparr>server := set_thread client (t\<lparr>ct_active := False\<rparr>) (server self)\<rparr>))))"

definition single_handleClient ::
  "'t uthash \<Rightarrow> request_env \<Rightarrow> allocator \<Rightarrow> bool \<Rightarrow> addr \<Rightarrow> addr \<Rightarrow> int \<Rightarrow> wire \<Rightarrow> ('p, 't) ConnectionHandler \<Rightarrow> (int \<times> wire \<times> ('p, 't) ConnectionHandler) cres option" where
  "single_handleClient T env mem mutex_ok sock client fd w self =
     tbind (if mutex_ok then single_receive T env mem sock client fd w self else Some (Inr (fd, w, self))) (\<lambda>(fd, w, self).
     tbind (clientThreadCleanup (base env) client self) (\<lambda>self. Some (Inr (fd, w, self))))"

section \<open>Bytes and integers\<close>

lemma ntohs_ntohs [simp]: "ntohs (ntohs w) = w"
  unfolding ntohs_def by (rule bit_word_eqI) (auto simp: bit_simps)

lemma bit_ntohl:
  assumes "r < 8"
  shows "bit (ntohl w) r = bit w (24 + r)" "bit (ntohl w) (8 + r) = bit w (16 + r)" "bit (ntohl w) (16 + r) = bit w (8 + r)" "bit (ntohl w) (24 + r) = bit w r"
proof -
  have m: "(0xFF :: u32) = mask 8" "(0xFF00 :: u32) = push_bit 8 (mask 8)" by (simp_all add: mask_eq_exp_minus_1)
  show "bit (ntohl w) r = bit w (24 + r)" "bit (ntohl w) (8 + r) = bit w (16 + r)" "bit (ntohl w) (16 + r) = bit w (8 + r)" "bit (ntohl w) (24 + r) = bit w r"
    using assms unfolding ntohl_def m by (simp_all add: bit_simps impossible_bit)
qed

lemma byte_cases:
  assumes "n < (32 :: nat)"
  obtains r where "r < 8" "n = r" | r where "r < 8" "n = 8 + r" | r where "r < 8" "n = 16 + r" | r where "r < 8" "n = 24 + r"
proof -
  consider "n < 8" | "8 \<le> n" "n < 16" | "16 \<le> n" "n < 24" | "24 \<le> n" using assms by linarith
  then show thesis using assms that(1) [of n] that(2) [of "n - 8"] that(3) [of "n - 16"] that(4) [of "n - 24"] by cases simp_all
qed

lemma ntohl_ntohl32 [simp]: "ntohl (ntohl w) = w"
proof (rule bit_word_eqI)
  fix n assume "n < LENGTH(32)"
  then have "n < 32" by simp
  then show "bit (ntohl (ntohl w)) n = bit w n" by (rule byte_cases) (simp_all add: bit_ntohl)
qed

text \<open>The bytes of an integer in network order.\<close>

lemma byte_of_nat: "(of_nat (unat w div 2 ^ k mod 256) :: u8) = ucast (drop_bit k w)"
  by (rule bit_word_eqI) (simp add: bit_simps drop_bit_eq_div [symmetric] flip: take_bit_eq_mod [of 8, simplified])

lemma enc32_bytes: "enc32 w = [ucast (drop_bit 24 w), ucast (drop_bit 16 w), ucast (drop_bit 8 w), ucast w]"
proof -
  have "unat w < 4294967296" using unsigned_less [of w] by simp
  then have "unat w div 16777216 mod 256 = unat w div 16777216" by simp
  then show ?thesis using byte_of_nat [of w 24] byte_of_nat [of w 16] byte_of_nat [of w 8] byte_of_nat [of w 0] by (simp add: enc32_def)
qed

lemma mem_bytes32_ntohl: "mem_bytes32 (ntohl w) = enc32 w"
proof -
  have "(ucast (ntohl w) :: u8) = ucast (drop_bit 24 w)" "(ucast (drop_bit 8 (ntohl w)) :: u8) = ucast (drop_bit 16 w)"
    "(ucast (drop_bit 16 (ntohl w)) :: u8) = ucast (drop_bit 8 w)" "(ucast (drop_bit 24 (ntohl w)) :: u8) = ucast w"
    by (rule bit_word_eqI, simp add: bit_simps bit_ntohl)+
  then show ?thesis by (simp add: mem_bytes32_def enc32_bytes)
qed

lemma mem_bytes32_enc: "mem_bytes32 w = enc32 (ntohl w)"
  using mem_bytes32_ntohl [of "ntohl w"] by simp

lemma enc16_bytes: "enc16 (unat w) = [ucast (drop_bit 8 w), ucast w]" for w :: u16
proof -
  have "unat w < 65536" using unsigned_less [of w] by simp
  then have "unat w div 256 mod 256 = unat w div 256" by simp
  moreover have "(of_nat (unat w div 2 ^ k mod 256) :: u8) = ucast (drop_bit k w)" for k
    by (rule bit_word_eqI) (simp add: bit_simps drop_bit_eq_div [symmetric] flip: take_bit_eq_mod [of 8, simplified])
  from this [of 8] this [of 0] have "(of_nat (unat w div 256 mod 256) :: u8) = ucast (drop_bit 8 w)" "(of_nat (unat w mod 256) :: u8) = ucast w" by simp_all
  ultimately show ?thesis by (simp add: enc16_def)
qed

lemma mem_bytes16_enc: "mem_bytes16 w = enc16 (unat (ntohs w))"
proof -
  have "(ucast w :: u8) = ucast (drop_bit 8 (ntohs w))" "(ucast (drop_bit 8 w) :: u8) = ucast (ntohs w)"
    unfolding ntohs_def by (rule bit_word_eqI, auto simp: bit_simps impossible_bit)+
  then show ?thesis by (simp add: mem_bytes16_def enc16_bytes)
qed

text \<open>Reading a field that was written with or without a change of the byte order.\<close>

lemma raw32_at: "i = length a \<Longrightarrow> raw32 (a @ enc32 w @ b) i = Inr (ntohl w)"
  using rd32_at [of i a w b] by (simp add: raw32_def)

lemma raw16_at: "i = length a \<Longrightarrow> raw16 (a @ enc16 (unat w) @ b) i = Inr (ntohs w)"
proof -
  assume i: "i = length a"
  have "unat w < 65536" using unsigned_less [of w] by simp
  then show ?thesis using rd16_at [OF i, of "unat w" b] by (simp add: raw16_def)
qed

lemma word_of_bytes: "ucast (ucast x :: u8) + 256 * ucast (ucast (drop_bit 8 x) :: u8) + 65536 * ucast (ucast (drop_bit 16 x) :: u8) +
    16777216 * ucast (ucast (drop_bit 24 x) :: u8) = (x :: u32)"
proof -
  have n: "of_nat (unat a) = (ucast a :: u32)" for a :: u8 by (rule bit_word_eqI) (simp add: bit_simps)
  have be: "be32 a b c d = ucast d + 256 * ucast c + 65536 * ucast b + 16777216 * ucast a" for a b c d by (simp add: be32_def n ac_simps)
  have "rd32 (enc32 x @ []) 0 = Inr (be32 (ucast (drop_bit 24 x)) (ucast (drop_bit 16 x)) (ucast (drop_bit 8 x)) (ucast x))"
    by (simp add: rd32_def enc32_bytes rd8_Cons numeral_2_eq_2 numeral_3_eq_3)
  then have "be32 (ucast (drop_bit 24 x)) (ucast (drop_bit 16 x)) (ucast (drop_bit 8 x)) (ucast x) = x" using rd32_enc [of x "[]"] by simp
  then show ?thesis by (simp add: be)
qed

lemma words_of_path: "words_of (concat (map mem_bytes32 xs)) = xs"
  by (induction xs) (simp_all add: mem_bytes32_def word_of_bytes)

end
