(* ===== verification/Proxy_Session.thy ===== *)
theory Proxy_Session
  imports Proxy_Client Srx_Wire Requests
begin

text \<open>
  The two ends of the SRx proxy protocol together: a validation request of a router reaches the connection handler of the server with the same
  content, and a notification of the server reaches the callback of the router. The theory also shows what becomes of the AS path of an IPv6 request.
\<close>

section \<open>Sending\<close>

lemma same_handler: "connHandler s = Some h \<Longrightarrow> s\<lparr>connHandler := Some h\<rparr> = s"
  by (cases s) simp

lemma px_send_ok:
  assumes "connHandler s = Some h" "clientFD (ch_sock h) \<noteq> -1" "TxError \<notin> set (txq (px_wire s))" "2 \<le> length bs"
  obtains ts e where "px_send env bs s = Inr (True, s\<lparr>px_wire := (px_wire s)\<lparr>txq := ts, txd := txd (px_wire s) @ bs\<rparr>, sockSendError := e\<rparr>)"
    "TxError \<notin> set ts"
proof -
  let ?fd = "clientFD (ch_sock h)" and ?e = "send_errno (tx_errno env) bs (txq (px_wire s)) 0"
  obtain ts where ts: "sendNum ?fd (px_wire s) bs = (True, ?fd, (px_wire s)\<lparr>txq := ts, txd := txd (px_wire s) @ bs\<rparr>)" "TxError \<notin> set ts"
    by (rule sendNum_ok [OF assms(2,3)])
  have "\<not> length bs \<le> 1" using assms(4) by simp
  then have "sendData (ch_sock h) (px_wire s) bs = Inr (True, ch_sock h, (px_wire s)\<lparr>txq := ts, txd := txd (px_wire s) @ bs\<rparr>)"
    by (simp add: sendData_def ts(1))
  then have "px_send env bs s = Inr (True, s\<lparr>connHandler := Some h, px_wire := (px_wire s)\<lparr>txq := ts, txd := txd (px_wire s) @ bs\<rparr>, sockSendError := ?e\<rparr>)"
    using assms(2) by (simp add: px_send_def handler_simps(1) [OF assms(1)])
  then show thesis using ts(2) by (intro that) (simp_all only: same_handler [OF assms(1)])
qed

section \<open>The bytes of a request\<close>

text \<open>An AS path and a BGPsec attribute as the library expects them.\<close>

definition bgpsec_fits :: "BGPSecData \<Rightarrow> bool" where
  "bgpsec_fits d \<longleftrightarrow> length (asPath d) = unat (numberHops d) \<and> bgpsec_size (Some d) < 65536 \<and>
     (case bgpsec_path_attr d of None \<Rightarrow> attr_length d = 0 | Some a \<Rightarrow> attr_length d \<noteq> 0 \<and> length a = unat (attr_length d))"

definition bgpsec_payload :: "BGPSecData \<Rightarrow> u8 list" where
  "bgpsec_payload d = concat (map mem_bytes32 (asPath d)) @ (case bgpsec_path_attr d of None \<Rightarrow> [] | Some a \<Rightarrow> a)"

lemma length_path: "length (concat (map mem_bytes32 xs)) = 4 * length xs"
  by (induction xs) (simp_all add: mem_bytes32_def)

lemma bgpsec_bytes_fits:
  assumes "bgpsec_fits d"
  shows "bgpsec_bytes (Some d) = Inr (bgpsec_payload d)" "length (bgpsec_payload d) = bgpsec_size (Some d)"
  using assms by (auto simp: bgpsec_fits_def bgpsec_bytes_def bgpsec_payload_def bgpsec_size_def rd_bytes_def length_path Let_def split: option.splits)

lemma length_v4_header: "4 \<le> length (addr (ip pfx)) \<Longrightarrow> length (v4_header m t dflt pfx as32 d pl) = 60"
  by (simp add: v4_header_def mem_bytes16_def)

lemma createV4Request_bytes:
  assumes "bgpsec_fits d" "4 \<le> length (addr (ip pfx))" "n = 60 + bgpsec_size (Some d)" "n \<le> reserved env n"
  shows "createV4Request env n m t dflt pfx as32 (Some d) pl = Inr (v4_header m t dflt pfx as32 d pl @ bgpsec_payload d)"
  using bgpsec_bytes_fits [OF assms(1)] length_v4_header [OF assms(2)] assms(3,4) by (simp add: createV4Request_def fill_request_def)

lemma drop_take_middle: "length q = k \<Longrightarrow> length pay = n - k \<Longrightarrow> drop k (take n (q @ pay @ pad)) = pay"
  by (cases "k \<le> n") simp_all

text \<open>Reading a request that is laid out like the structure.\<close>

lemma read_request_bytes:
  assumes "length c8 = 8" "length c4 = 4" "length adr = (if v4 then 4 else 16)" "length x = 4" "length j = 17"
    "length pay = unat len - (56 + length adr)"
  shows "read_request v4 (c8 @ enc32 len @ c4 @ enc32 token @ adr @ enc32 as @ x @ enc16 (unat nh) @ enc16 (unat na) @ enc16 (unat nf) @ [safi] @ j @
      enc32 local @ pay @ pad) =
    Inr \<lparr>vr_v4 = v4, vr_flags = c8 ! 1, roaResSrc = c8 ! 2, bgpsecResSrc = c8 ! 3, aspaResSrc = c8 ! 4, vr_asType = c8 ! 6, vr_asRelType = c8 ! 7,
      vr_length = ntohl len, roaDefRes = c4 ! 0, bgpsecDefRes = c4 ! 1, aspaDefRes = c4 ! 2, prefixLen = c4 ! 3, requestToken = ntohl token,
      prefixAddress = adr, vr_originAS = ntohl as, numHops = ntohs nh, attrLen = ntohs na, val_afi = ntohs nf, val_safi = safi,
      val_local_as = ntohl local, vr_payload = pay\<rparr>"
proof -
  let ?n = "length adr"
  let ?c = "c8 @ enc32 len @ c4 @ enc32 token"
  let ?p = "?c @ adr @ enc32 as @ x"
  let ?q = "?p @ enc16 (unat nh) @ enc16 (unat na) @ enc16 (unat nf) @ [safi] @ j @ enc32 local"
  define b where "b = ?q @ pay @ pad"
  have c: "rd_bytes b 0 20 = Inr ?c" "rd_bytes b 20 ?n = Inr adr"
    using assms rd_bytes_at [of 0 "[]" 20 ?c] rd_bytes_at [of 20 ?c ?n adr] by (simp_all add: b_def)
  have len: "raw32 b 8 = Inr (ntohl len)" and token: "raw32 b 16 = Inr (ntohl token)" and as: "raw32 b (20 + ?n) = Inr (ntohl as)"
    using assms raw32_at [of 8 c8] raw32_at [of 16 "c8 @ enc32 len @ c4"] raw32_at [of "20 + ?n" "?c @ adr"] by (simp_all add: b_def)
  have hops: "raw16 b (28 + ?n) = Inr (ntohs nh)" and attr: "raw16 b (30 + ?n) = Inr (ntohs na)" and afi: "raw16 b (32 + ?n) = Inr (ntohs nf)"
    using assms raw16_at [of "28 + ?n" ?p] raw16_at [of "30 + ?n" "?p @ enc16 (unat nh)"] raw16_at [of "32 + ?n" "?p @ enc16 (unat nh) @ enc16 (unat na)"]
    by (simp_all add: b_def)
  have safi: "rd8 b (34 + ?n) = Inr safi" and loc: "raw32 b (52 + ?n) = Inr (ntohl local)"
    using assms rd8_at [of "?p @ enc16 (unat nh) @ enc16 (unat na) @ enc16 (unat nf)" safi]
      raw32_at [of "52 + ?n" "?p @ enc16 (unat nh) @ enc16 (unat na) @ enc16 (unat nf) @ [safi] @ j"] by (simp_all add: b_def)
  have "length ?q = 56 + ?n" using assms by simp
  then have pay: "drop (56 + ?n) (take (unat (ntohl (ntohl len))) b) = pay" unfolding b_def ntohl_ntohl32 by (rule drop_take_middle [OF _ assms(6)])
  have nth: "?c ! 1 = c8 ! 1" "?c ! 2 = c8 ! 2" "?c ! 3 = c8 ! 3" "?c ! 4 = c8 ! 4" "?c ! 6 = c8 ! 6" "?c ! 7 = c8 ! 7"
    "?c ! 12 = c4 ! 0" "?c ! 13 = c4 ! 1" "?c ! 14 = c4 ! 2" "?c ! 15 = c4 ! 3"
    using assms(1,2) by (simp_all add: nth_append)
  have n: "(if v4 then 4 else 16) = ?n" using assms(3) by simp
  have "read_request v4 b = Inr \<lparr>vr_v4 = v4, vr_flags = c8 ! 1, roaResSrc = c8 ! 2, bgpsecResSrc = c8 ! 3, aspaResSrc = c8 ! 4, vr_asType = c8 ! 6, vr_asRelType = c8 ! 7,
      vr_length = ntohl len, roaDefRes = c4 ! 0, bgpsecDefRes = c4 ! 1, aspaDefRes = c4 ! 2, prefixLen = c4 ! 3, requestToken = ntohl token,
      prefixAddress = adr, vr_originAS = ntohl as, numHops = ntohs nh, attrLen = ntohs na, val_afi = ntohs nf, val_safi = safi,
      val_local_as = ntohl local, vr_payload = pay\<rparr>"
    unfolding read_request_def Let_def n c len token as hops attr afi safi loc cbind_simps pay nth by (rule refl)
  then show ?thesis by (simp add: b_def)
qed

section \<open>A request of the router\<close>

text \<open>The connection of a proxy is up on both layers.\<close>

definition px_online :: "'u SRxProxy \<Rightarrow> bool" where
  "px_online s \<longleftrightarrow> isConnected s \<and> (case connHandler s of None \<Rightarrow> False | Some h \<Rightarrow> isConnectedToServer (ch_sock h)) \<and> TxError \<notin> set (txq (px_wire s))"

lemma px_onlineE:
  assumes "px_online s"
  obtains h where "connHandler s = Some h" "ch_initialized h" "ch_established h" "clientFD (ch_sock h) \<noteq> -1" "TxError \<notin> set (txq (px_wire s))" "isConnected s"
  using assms by (auto simp: px_online_def isConnected_def isConnectedToServer_def split: option.splits)

lemma verifyUpdate_sends:
  assumes on: "px_online s" and v: "version (ip pfx) = (if v4 then 4 else 6)" and len: "bgpsec_size bgpsec < 65536"
    and pdu: "(if v4 then createV4Request env (60 + bgpsec_size bgpsec) (request_method roa sec aspa localID) localID dflt pfx as32 bgpsec pl
               else createV6Request env (72 + bgpsec_size bgpsec) (request_method roa sec aspa localID) localID dflt pfx as32 bgpsec) = Inr b" "2 \<le> length b"
  obtains s' where "verifyUpdate env localID roa sec aspa dflt pfx as32 bgpsec pl s = Some (Inr s')" "txd (px_wire s') = txd (px_wire s) @ b"
    "px_online s'" "router s' = router s" "resCallback s' = resCallback s"
proof -
  obtain h where h: "connHandler s = Some h" "ch_initialized h" "ch_established h" "clientFD (ch_sock h) \<noteq> -1" "TxError \<notin> set (txq (px_wire s))" "isConnected s"
    by (rule px_onlineE [OF on])
  obtain ts e where ts: "px_send env b s = Inr (True, s\<lparr>px_wire := (px_wire s)\<lparr>txq := ts, txd := txd (px_wire s) @ b\<rparr>, sockSendError := e\<rparr>)" "TxError \<notin> set ts"
    by (rule px_send_ok [OF h(1,4,5) pdu(2), of env])
  define s' where "s' = count_success (s\<lparr>px_wire := (px_wire s)\<lparr>txq := ts, txd := txd (px_wire s) @ b\<rparr>, sockSendError := e\<rparr>)"
  have s': "connHandler s' = connHandler s" "resCallback s' = resCallback s" "px_wire s' = (px_wire s)\<lparr>txq := ts, txd := txd (px_wire s) @ b\<rparr>" "router s' = router s"
    by (simp_all add: s'_def count_success_def Let_def)
  have "sendPacketToServer env b s = px_send env b s" using h(1,4) by (simp add: sendPacketToServer_def isConnectedToServer_def)
  then have "send_attempts env k 0 b s = Some (Inr (1, 0, s'))" for k using ts(1) by (subst send_attempts.simps) (simp add: s'_def)
  moreover have "unat (of_nat (bgpsec_size bgpsec) :: u16) = bgpsec_size bgpsec" using len by (simp add: unat_of_nat)
  ultimately have "verifyUpdate env localID roa sec aspa dflt pfx as32 bgpsec pl s = Some (Inr s')"
    using pdu(1) v h(6) by (simp add: verifyUpdate_def Let_def split: if_splits)
  moreover have "px_online s'" using on s' ts(2) by (simp add: px_online_def isConnected_def)
  ultimately show thesis using that s' by simp
qed

text \<open>What the server gets from the bytes of one packet.\<close>

lemma single_packet_received:
  fixes self :: "('a, 'b) ConnectionHandler"
  assumes "srx_framed b" "\<And>pad. read_pdu (b @ pad) = Inr pdu" "fd \<noteq> -1" "unlimited mem" "rxq w = xs @ z # zs" "chunks xs" "content xs = b" "z = RxData [] \<or> z = RxError"
  shows "single_receive T renv mem sock client fd w self =
    tbind (handlePacket T renv sock client pdu (of_nat (length b)) self) (\<lambda>(_, self). Some (Inr (-1, w\<lparr>rxq := zs\<rparr>, self)))"
proof -
  have b: "12 \<le> length b" "length b < 2 ^ 32" "rd32 b 8 = Inr (of_nat (length b))" using assms(1) by (simp_all add: srx_framed_def)
  have "\<not> (of_nat (length b) :: u32) < 12" using b(1,2) by (simp add: word_less_nat_alt unat_of_nat)
  moreover have "rd32 (b @ pad) 8 = Inr (of_nat (length b))" for pad using b(1,3) rd32_append [of 8 b pad] by simp
  ultimately have d: "single_packetHandler T renv sock client (b @ pad) x =
      tbind (handlePacket T renv sock client pdu (of_nat (length b)) x) (\<lambda>(_, x). Some (Inr x))" for pad and x :: "('a, 'b) ConnectionHandler"
    using assms(2) by (simp add: single_packetHandler_def)
  from d [of "[]"] d have "\<forall>c \<in> set [b]. srx_framed c \<and> (\<forall>k (x :: ('a, 'b) ConnectionHandler). single_packetHandler T renv sock client (c @ replicate k 0) x = single_packetHandler T renv sock client c x)"
    using assms(1) by simp
  moreover have "content xs = concat [b]" using assms(7) by simp
  ultimately show ?thesis
    using server_receivePackets_stream [of "[b]" "single_packetHandler T renv sock client" fd mem w xs z zs self] assms(3-6,8) d [of "[]"]
    by (simp add: single_receive_def tbind_assoc split_def)
qed

text \<open>The server hands a packet to its connection handler, in whatever pieces the bytes arrive on a connection.\<close>

definition delivered :: "'t uthash \<Rightarrow> ('p, 't) ConnectionHandler \<Rightarrow> u8 list \<Rightarrow> srx_pdu \<Rightarrow> bool" where
  "delivered T self b pdu \<longleftrightarrow>
     (\<forall>renv mem sock client fd w xs z zs.
        fd \<noteq> -1 \<longrightarrow> unlimited mem \<longrightarrow> rxq w = xs @ z # zs \<longrightarrow> chunks xs \<longrightarrow> content xs = b \<longrightarrow> z = RxData [] \<or> z = RxError \<longrightarrow>
        single_receive T renv mem sock client fd w self =
          tbind (handlePacket T renv sock client pdu (of_nat (length b)) self) (\<lambda>(_, self). Some (Inr (-1, w\<lparr>rxq := zs\<rparr>, self))))"

lemma delivered_framed: "srx_framed b \<Longrightarrow> (\<And>pad. read_pdu (b @ pad) = Inr pdu) \<Longrightarrow> delivered T self b pdu"
  unfolding delivered_def by (intro allI impI) (rule single_packet_received)

definition v4_request :: "u8 \<Rightarrow> u32 \<Rightarrow> SRxDefaultResult \<Rightarrow> IPPrefix \<Rightarrow> u32 \<Rightarrow> BGPSecData \<Rightarrow> SRxASPathList \<Rightarrow> VerifyRequest" where
  "v4_request m t dflt pfx as32 d pl =
     \<lparr>vr_v4 = True, vr_flags = m, roaResSrc = ucast (resSourceROA dflt), bgpsecResSrc = ucast (resSourceBGPSEC dflt), aspaResSrc = ucast (resSourceASPA dflt),
      vr_asType = ucast (spl_asType pl), vr_asRelType = ucast (spl_asRelationship pl), vr_length = htonl (of_nat (60 + bgpsec_size (Some d))),
      roaDefRes = roaResult (defResult dflt), bgpsecDefRes = bgpsecResult (defResult dflt), aspaDefRes = aspaResult (defResult dflt), prefixLen = plength pfx,
      requestToken = htonl t, prefixAddress = take 4 (addr (ip pfx)), vr_originAS = htonl as32, numHops = htons (numberHops d), attrLen = htons (attr_length d),
      val_afi = bafi d, val_safi = bsafi d, val_local_as = htonl (local_as d), vr_payload = bgpsec_payload d\<rparr>"

lemma v4_request_framed:
  assumes "bgpsec_fits d" "4 \<le> length (addr (ip pfx))"
  shows "srx_framed (v4_header m t dflt pfx as32 d pl @ bgpsec_payload d)" "read_pdu ((v4_header m t dflt pfx as32 d pl @ bgpsec_payload d) @ pad) = Inr (VerifyPDU (v4_request m t dflt pfx as32 d pl))"
proof -
  let ?c8 = "[PDU_SRXPROXY_VERIFY_V4_REQUEST, m, ucast (resSourceROA dflt), ucast (resSourceBGPSEC dflt), ucast (resSourceASPA dflt), 0,
      ucast (spl_asType pl), ucast (spl_asRelationship pl)]" and ?len = "of_nat (60 + bgpsec_size (Some d)) :: u32"
  let ?b = "v4_header m t dflt pfx as32 d pl @ bgpsec_payload d"
  have size: "length (bgpsec_payload d) = bgpsec_size (Some d)" "bgpsec_size (Some d) < 65536" using bgpsec_bytes_fits(2) [OF assms(1)] assms(1) by (simp_all add: bgpsec_fits_def)
  have len: "length ?b = 60 + bgpsec_size (Some d)" using length_v4_header [OF assms(2)] size by simp
  have "rd32 (?c8 @ enc32 ?len @ r) 8 = Inr ?len" for r by (rule rd32_at) simp
  then have "rd32 ?b 8 = Inr ?len" by (simp add: v4_header_def)
  then show "srx_framed ?b" using len size by (simp add: srx_framed_def)
  have un: "unat ?len = 60 + bgpsec_size (Some d)" using size by (simp only: unat_of_nat) simp
  have "read_request True (?b @ pad) = Inr (v4_request m t dflt pfx as32 d pl)"
    using read_request_bytes [of ?c8 "[roaResult (defResult dflt), bgpsecResult (defResult dflt), aspaResult (defResult dflt), plength pfx]" "take 4 (addr (ip pfx))" True
      "enc32 (of_nat (bgpsec_size (Some d)))" "replicate 17 0" "bgpsec_payload d" ?len t as32 "numberHops d" "attr_length d" "ntohs (bafi d)" "bsafi d" "local_as d" pad]
      assms(2) size un by (simp add: v4_header_def v4_request_def mem_bytes16_enc del: of_nat_add)
  moreover have "rd8 (?b @ pad) 0 = Inr PDU_SRXPROXY_VERIFY_V4_REQUEST" by (simp add: v4_header_def rd8_def)
  ultimately show "read_pdu (?b @ pad) = Inr (VerifyPDU (v4_request m t dflt pfx as32 d pl))" by (simp add: read_pdu_def)
qed

lemma ucast_source: "x < 256 \<Longrightarrow> ucast (ucast x :: u8) = (x :: u32)"
proof -
  assume "x < 256"
  then have "unat x < 256" by (simp add: word_less_nat_alt)
  then have "unat (ucast (ucast x :: u8) :: u32) = unat x" by (simp add: unsigned_ucast_eq unsigned_take_bit_eq take_bit_nat_eq_self_iff)
  then show ?thesis by (simp only: word_unat_eq_iff)
qed

text \<open>The data of the request is that of the router. The local AS is converted to network order although it is said to be in network
  order already.\<close>

lemma v4_request_data:
  assumes "bgpsec_fits d"
  shows "request_bgpsec (v4_request m t dflt pfx as32 d pl) = d\<lparr>breserved := 0, local_as := htonl (local_as d)\<rparr>" "request_complete (v4_request m t dflt pfx as32 d pl)"
proof -
  have pay: "take (4 * unat (numberHops d)) (bgpsec_payload d) = concat (map mem_bytes32 (asPath d))"
    "drop (4 * unat (numberHops d)) (bgpsec_payload d) = (case bgpsec_path_attr d of None \<Rightarrow> [] | Some a \<Rightarrow> a)"
    using assms by (simp_all add: bgpsec_payload_def bgpsec_fits_def length_path)
  have "asPath d = []" if "numberHops d = 0" using assms that by (simp add: bgpsec_fits_def)
  then show "request_bgpsec (v4_request m t dflt pfx as32 d pl) = d\<lparr>breserved := 0, local_as := htonl (local_as d)\<rparr>"
    using assms pay by (cases d) (auto simp: request_bgpsec_def v4_request_def Let_def words_of_path bgpsec_fits_def split: option.splits)
  show "request_complete (v4_request m t dflt pfx as32 d pl)"
    using bgpsec_bytes_fits(2) [OF assms] by (simp add: request_complete_def v4_request_def bgpsec_size_def)
qed

lemma v4_request_sent:
  assumes on: "px_online s" and pfx: "version (ip pfx) = 4" "length (addr (ip pfx)) = 16" and d: "bgpsec_fits d" and room: "\<forall>n. n \<le> reserved env n"
  obtains s' b where "verifyUpdate env localID roa sec aspa dflt pfx as32 (Some d) pl s = Some (Inr s')" "txd (px_wire s') = txd (px_wire s) @ b" "b \<noteq> []"
    "px_online s'" "router s' = router s" "resCallback s' = resCallback s" "srx_framed b"
    "\<And>pad. read_pdu (b @ pad) = Inr (VerifyPDU (v4_request (request_method roa sec aspa localID) localID dflt pfx as32 d pl))"
proof -
  let ?m = "request_method roa sec aspa localID"
  let ?b = "v4_header ?m localID dflt pfx as32 d pl @ bgpsec_payload d"
  have four: "4 \<le> length (addr (ip pfx))" using pfx(2) by simp
  have size: "bgpsec_size (Some d) < 65536" using d by (simp add: bgpsec_fits_def)
  have b: "createV4Request env (60 + bgpsec_size (Some d)) ?m localID dflt pfx as32 (Some d) pl = Inr ?b"
    using createV4Request_bytes [OF d four refl] room by blast
  have two: "2 \<le> length ?b" using length_v4_header [OF four] by simp
  then obtain s' where s': "verifyUpdate env localID roa sec aspa dflt pfx as32 (Some d) pl s = Some (Inr s')" "txd (px_wire s') = txd (px_wire s) @ ?b"
    "px_online s'" "router s' = router s" "resCallback s' = resCallback s"
    using verifyUpdate_sends [OF on, of pfx True "Some d" env roa sec aspa localID dflt as32 pl ?b] pfx(1) size b by auto
  have "?b \<noteq> []" using two by auto
  then show thesis using v4_request_framed [OF d four] by (rule that [OF s'(1,2) _ s'(3-5)])
qed

section \<open>Properties\<close>

text \<open>C17. A validation request reaches the server. A proxy that is connected, with a socket that takes the data, sends for an IPv4 prefix with an AS path and
  BGPsec attribute of together less than 64 KB exactly one packet, and stays connected. In whatever pieces the packet arrives, the server hands it to
  its connection handler once, as a validation request with the flags, the request token, the prefix, the origin AS, the AS path with the BGPsec
  attribute, the default results and the type and relation of the path that the router passed to \<open>verifyUpdate\<close>.\<close>

theorem v4_request_reaches_server:
  assumes on: "px_online s" and pfx: "version (ip pfx) = 4" "length (addr (ip pfx)) = 16" and d: "bgpsec_fits d"
    and room: "\<forall>n. n \<le> reserved env n" and src: "resSourceROA dflt < 256" "resSourceBGPSEC dflt < 256" "resSourceASPA dflt < 256"
  shows "\<exists>s' b r. verifyUpdate env localID roa sec aspa dflt pfx as32 (Some d) pl s = Some (Inr s') \<and>
    txd (px_wire s') = txd (px_wire s) @ b \<and> b \<noteq> [] \<and> px_online s' \<and> router s' = router s \<and>
    (\<forall>T self. delivered T self b (VerifyPDU r)) \<and>
    vr_v4 r \<and> vr_flags r = request_method roa sec aspa localID \<and> ntohl (requestToken r) = localID \<and>
    request_prefix r = pfx\<lparr>ip := (ip pfx)\<lparr>addr := take 4 (addr (ip pfx)) @ replicate 12 0\<rparr>\<rparr> \<and> ntohl (vr_originAS r) = as32 \<and>
    request_bgpsec r = d\<lparr>breserved := 0, local_as := htonl (local_as d)\<rparr> \<and> request_complete r \<and> request_default r = dflt \<and>
    vr_asType r = ucast (spl_asType pl) \<and> vr_asRelType r = ucast (spl_asRelationship pl)"
proof -
  let ?m = "request_method roa sec aspa localID"
  let ?r = "v4_request ?m localID dflt pfx as32 d pl"
  obtain s' b where s': "verifyUpdate env localID roa sec aspa dflt pfx as32 (Some d) pl s = Some (Inr s')" "txd (px_wire s') = txd (px_wire s) @ b" "b \<noteq> []"
    "px_online s'" "router s' = router s" "resCallback s' = resCallback s" and srv: "srx_framed b" "\<And>pad. read_pdu (b @ pad) = Inr (VerifyPDU ?r)"
    using v4_request_sent [OF on pfx d room, of localID roa sec aspa dflt as32 pl] by metis
  have def: "request_default ?r = dflt"
    using src by (cases dflt; cases "defResult dflt") (simp add: request_default_def v4_request_def ucast_source)
  have pre: "request_prefix ?r = pfx\<lparr>ip := (ip pfx)\<lparr>addr := take 4 (addr (ip pfx)) @ replicate 12 0\<rparr>\<rparr>"
    using pfx by (cases pfx; cases "ip pfx") (simp add: request_prefix_def v4_request_def)
  have r: "vr_v4 ?r" "vr_flags ?r = ?m" "ntohl (requestToken ?r) = localID" "ntohl (vr_originAS ?r) = as32" "vr_asType ?r = ucast (spl_asType pl)"
    "vr_asRelType ?r = ucast (spl_asRelationship pl)" by (simp_all add: v4_request_def)
  show ?thesis
    by (intro exI [of _ s'] exI [of _ b] exI [of _ ?r] conjI allI impI; rule s' def pre r delivered_framed [OF srv] v4_request_data [OF d])
qed

section \<open>Packets of the server\<close>

lemma processPackets_framed:
  assumes "connHandler s = Some h" "clientFD (ch_sock h) \<noteq> -1" "unlimited (px_mem env)" "rxq (px_wire s) = xs @ zs" "chunks xs" "content xs = b @ rest" "srx_framed b"
  obtains ys k where "processPackets env s =
      Some (cbind (dispatchPackets env (b @ replicate k 0) (s\<lparr>px_wire := (px_wire s)\<lparr>rxq := ys @ zs\<rparr>\<rparr>)) (\<lambda>s. Inr (True, s)))"
    "chunks ys" "content ys = rest"
proof -
  let ?fd = "clientFD (ch_sock h)"
  obtain g where "px_mem env 12 = Some g" using assms(3) by (rule unlimitedE)
  then have nb: "new_buffer (px_mem env) = Inr (map g [0..<12], 0)" by (simp add: new_buffer_def)
  have ok: "buffer_ok (map g [0..<12], 0)" by (simp add: buffer_ok_def)
  obtain ys k i where ys: "receive_packet (px_mem env) ?fd (px_wire s) (map g [0..<12], 0) = Some (Inr (RcvPacket, ?fd, (px_wire s)\<lparr>rxq := ys @ zs\<rparr>, (b @ replicate k 0, i)))"
    "chunks ys" "content ys = rest"
    by (rule receive_packet_framed [OF assms(2,4,5,6,7,3) ok])
  have "h\<lparr>ch_sock := (ch_sock h)\<lparr>clientFD := ?fd\<rparr>\<rparr> = h" by simp
  then have "processPackets env s = Some (cbind (dispatchPackets env (b @ replicate k 0) (s\<lparr>connHandler := Some h, px_wire := (px_wire s)\<lparr>rxq := ys @ zs\<rparr>\<rparr>)) (\<lambda>s. Inr (True, s)))"
    using ys(1) by (simp add: processPackets_def handler_simps(1) [OF assms(1)] nb)
  then show thesis using ys(2,3) by (intro that) (simp_all only: same_handler [OF assms(1)])
qed

lemma replicate_two: "replicate 2 x = [x, x]"
  by (simp add: numeral_2_eq_2)

lemma framed_notification: "srx_framed (msg_bytes (VerifyNotification rt token roa bgpsec aspa uid))"
proof -
  have "rd32 ([6, rt, roa, bgpsec, aspa, 0, 0, 0] @ enc32 20 @ r) 8 = Inr 20" for r by (rule rd32_at) simp
  then show ?thesis by (simp add: srx_framed_def mem_bytes32_enc replicate_two)
qed

lemma flag_bit8: "(f AND 128 = 128) = bit f 7" "(f AND 1 = 1) = bit f 0" "(f AND 2 = 2) = bit f 1" "(f AND 4 = 4) = bit f 2" for f :: u8
  using and_power_eq_iff [of 7 f] and_power_eq_iff [of 0 f] and_power_eq_iff [of 1 f] and_power_eq_iff [of 2 f] by simp_all

text \<open>The call of the router that a notification means.\<close>

definition tell_router :: "(u32 \<Rightarrow> u32 \<Rightarrow> u8 \<Rightarrow> u8 \<Rightarrow> u8 \<Rightarrow> u8 \<Rightarrow> 'u \<Rightarrow> 'u) \<Rightarrow> u8 \<Rightarrow> u32 \<Rightarrow> u8 \<Rightarrow> u8 \<Rightarrow> u8 \<Rightarrow> u32 \<Rightarrow> 'u \<Rightarrow> 'u" where
  "tell_router f rt token roa bgpsec aspa uid =
     f uid (if bit rt 7 then token else 0) (rt AND 7) (if bit rt 0 then roa else SRx_RESULT_UNDEFINED) (if bit rt 1 then bgpsec else SRx_RESULT_UNDEFINED)
       (if bit rt 2 then aspa else SRx_RESULT_UNDEFINED)"

lemma dispatch_notification:
  assumes "resCallback s = Some f"
  shows "dispatchPackets env (msg_bytes (VerifyNotification rt (htonl token) roa bgpsec aspa (htonl uid)) @ pad) s =
    Inr (s\<lparr>router := tell_router f rt token roa bgpsec aspa uid (router s)\<rparr>)"
proof -
  let ?h = "[6, rt, roa, bgpsec, aspa, 0, 0, 0] @ enc32 20"
  let ?b = "?h @ enc32 token @ enc32 uid @ pad"
  have "rd32 (?h @ enc32 token @ (enc32 uid @ pad)) 12 = Inr token" "rd32 ((?h @ enc32 token) @ enc32 uid @ pad) 16 = Inr uid" by (intro rd32_at; simp)+
  moreover have "rd8 ?b 0 = Inr 6" "rd8 ?b 1 = Inr rt" "rd8 ?b 2 = Inr roa" "rd8 ?b 3 = Inr bgpsec" "rd8 ?b 4 = Inr aspa" by (simp_all add: rd8_def)
  moreover have "(if 0 < token \<and> \<not> bit rt 7 then 0 else token) = (if bit rt 7 then token else 0)" by (auto simp: word_gt_0)
  ultimately have "dispatchPackets env ?b s = Inr (s\<lparr>router := tell_router f rt token roa bgpsec aspa uid (router s)\<rparr>)"
    using assms by (simp add: dispatchPackets_def processVerifyNotify_def Let_def flag_bit8 tell_router_def)
  then show ?thesis by (simp add: mem_bytes32_enc replicate_two)
qed

lemma notification_processed:
  assumes on: "px_online s" "resCallback s = Some f" "unlimited (px_mem env)"
    and rx: "rxq (px_wire s) = xs @ zs" "chunks xs" "content xs = msg_bytes (VerifyNotification rt (htonl token) roa bgpsec aspa (htonl uid)) @ rest"
  shows "\<exists>ys. processPackets env s =
      Some (Inr (True, s\<lparr>px_wire := (px_wire s)\<lparr>rxq := ys @ zs\<rparr>, router := tell_router f rt token roa bgpsec aspa uid (router s)\<rparr>)) \<and>
    chunks ys \<and> content ys = rest"
proof -
  let ?m = "VerifyNotification rt (htonl token) roa bgpsec aspa (htonl uid)"
  obtain h where h: "connHandler s = Some h" "clientFD (ch_sock h) \<noteq> -1" using on(1) by (rule px_onlineE)
  obtain ys k where ys: "processPackets env s =
      Some (cbind (dispatchPackets env (msg_bytes ?m @ replicate k 0) (s\<lparr>px_wire := (px_wire s)\<lparr>rxq := ys @ zs\<rparr>\<rparr>)) (\<lambda>s. Inr (True, s)))" "chunks ys" "content ys = rest"
    by (rule processPackets_framed [OF h on(3) rx framed_notification])
  then show ?thesis
    using dispatch_notification [of "s\<lparr>px_wire := (px_wire s)\<lparr>rxq := ys @ zs\<rparr>\<rparr>" f env rt token roa bgpsec aspa uid "replicate k 0"] on(2) by (intro exI [of _ ys]) simp
qed

text \<open>C18. A notification reaches the router. When the server sends the notification of a result to a client that it can reach, and the bytes of the packet arrive, in whatever
  pieces, next at a connected proxy of which the router installed a callback for results, one call of \<open>processPackets\<close> makes one call of the callback: with the identifier of
  the update, the request token if the receipt flag is set and 0 otherwise, the flags of the results, and the results whose flags are set, \<open>SRx_RESULT_UNDEFINED\<close> for
  the others. Nothing else of the proxy changes, and what follows on the connection is left for the next call.\<close>

theorem notification_reaches_router:
  assumes told: "sendVerifyNotification nt malloc sd sock client uid rt token roa bgpsec aspa False = Inr (True, sd')"
    and on: "px_online s" "resCallback s = Some f" "unlimited (px_mem env)"
    and rx: "rxq (px_wire s) = xs @ zs" "chunks xs" "content xs = msg_bytes (snd (last (sent sd'))) @ rest"
  shows "\<exists>ys. processPackets env s =
      Some (Inr (True, s\<lparr>px_wire := (px_wire s)\<lparr>rxq := ys @ zs\<rparr>, router := tell_router f rt token roa bgpsec aspa uid (router s)\<rparr>)) \<and>
    chunks ys \<and> content ys = rest"
proof -
  have "last (sent sd') = (client, VerifyNotification rt (htonl token) roa bgpsec aspa (htonl uid))" using told by (auto simp: send_defs split: if_splits)
  then show ?thesis using notification_processed [OF on rx(1,2)] rx(3) by simp
qed

section \<open>IPv6\<close>

text \<open>The request that the server reads when the AS path is written 12 bytes before its place.\<close>

definition v6_request :: "u8 \<Rightarrow> u32 \<Rightarrow> SRxDefaultResult \<Rightarrow> IPPrefix \<Rightarrow> u32 \<Rightarrow> BGPSecData \<Rightarrow> u32 \<Rightarrow> u32 list \<Rightarrow> VerifyRequest" where
  "v6_request m t dflt pfx as32 d x hs =
     \<lparr>vr_v4 = False, vr_flags = m, roaResSrc = ucast (resSourceROA dflt), bgpsecResSrc = ucast (resSourceBGPSEC dflt), aspaResSrc = 0,
      vr_asType = 0, vr_asRelType = 0, vr_length = htonl (of_nat (72 + bgpsec_size (Some d))),
      roaDefRes = roaResult (defResult dflt), bgpsecDefRes = bgpsecResult (defResult dflt), aspaDefRes = 0, prefixLen = plength pfx,
      requestToken = htonl t, prefixAddress = take 16 (addr (ip pfx)), vr_originAS = htonl as32, numHops = htons (numberHops d), attrLen = 0,
      val_afi = 0, val_safi = 0, val_local_as = x, vr_payload = concat (map mem_bytes32 (hs @ [0, 0, 0]))\<rparr>"

definition v6_bytes :: "u8 \<Rightarrow> u32 \<Rightarrow> SRxDefaultResult \<Rightarrow> IPPrefix \<Rightarrow> u32 \<Rightarrow> BGPSecData \<Rightarrow> u8 list" where
  "v6_bytes m t dflt pfx as32 d = take 60 (v6_header m t dflt pfx as32 (Some d)) @ concat (map mem_bytes32 (asPath d)) @ replicate 12 0"

lemma three_hops:
  assumes "bgpsec_fits d" "bgpsec_path_attr d = None" "asPath d = x # y # z # hs"
  shows "bgpsec_payload d = concat (map mem_bytes32 (asPath d))" "attr_length d = 0" "bgpsec_size (Some d) = 12 + 4 * length hs" "12 + 4 * length hs < 65536"
    "unat (numberHops d) = 3 + length hs"
  using assms by (auto simp: bgpsec_fits_def bgpsec_payload_def bgpsec_size_def)

lemma createV6Request_bytes:
  assumes "bgpsec_fits d" "bgpsec_path_attr d = None" "asPath d = x # y # z # hs" "16 \<le> length (addr (ip pfx))" "\<forall>n. n \<le> reserved env n"
  shows "createV6Request env (72 + bgpsec_size (Some d)) m t dflt pfx as32 (Some d) = Inr (v6_bytes m t dflt pfx as32 d)"
proof -
  let ?h = "v6_header m t dflt pfx as32 (Some d)" and ?n = "72 + bgpsec_size (Some d)"
  note th = three_hops [OF assms(1-3)]
  have len: "length ?h = 72" using assms(4) by (simp add: v6_header_def Let_def)
  have pay: "bgpsec_bytes (Some d) = Inr (concat (map mem_bytes32 (asPath d)))" "length (concat (map mem_bytes32 (asPath d))) = bgpsec_size (Some d)"
    using bgpsec_bytes_fits [OF assms(1)] by (simp_all add: th(1))
  have "drop (60 + bgpsec_size (Some d)) (?h @ replicate (?n - length ?h) 0) = replicate 12 0" using len th(3) by simp
  moreover have "?n \<le> reserved env ?n" using assms(5) by blast
  ultimately show ?thesis using pay len th(3) by (simp add: createV6Request_def fill_request_def v6_bytes_def not_less)
qed

lemma mem_bytes32_zero: "mem_bytes32 0 = replicate 4 0"
  by (simp add: mem_bytes32_def numeral_eq_Suc)

lemma nine_zeros: "enc16 (unat (0 :: u16)) @ [0] @ replicate 9 0 = replicate 12 (0 :: u8)"
proof -
  have "replicate 12 (0 :: u8) = replicate 3 0 @ replicate 9 0" by (simp flip: replicate_add)
  then show ?thesis by (simp add: enc16_def numeral_3_eq_3)
qed

lemma v6_bytes_read:
  assumes "bgpsec_fits d" "bgpsec_path_attr d = None" "asPath d = x # y # z # hs" "16 \<le> length (addr (ip pfx))"
  shows "srx_framed (v6_bytes m t dflt pfx as32 d)" "read_pdu (v6_bytes m t dflt pfx as32 d @ pad) = Inr (VerifyPDU (v6_request m t dflt pfx as32 d z hs))"
proof -
  let ?c8 = "[PDU_SRXPROXY_VERIFY_V6_REQUEST, m, ucast (resSourceROA dflt), ucast (resSourceBGPSEC dflt), 0, 0, 0, 0]"
    and ?len = "of_nat (72 + bgpsec_size (Some d)) :: u32" and ?c4 = "[roaResult (defResult dflt), bgpsecResult (defResult dflt), 0, plength pfx]"
  note th = three_hops [OF assms(1-3)]
  let ?z = "concat (map mem_bytes32 (hs @ [0, 0, 0]))" and ?j = "replicate 9 0 @ mem_bytes32 x @ mem_bytes32 y"
  have zero: "concat (map mem_bytes32 [0, 0, 0]) = replicate 12 0" by (simp add: mem_bytes32_zero flip: replicate_add)
  have nine: "enc16 (unat (0 :: u16)) @ [0] @ replicate 9 0 = replicate 12 (0 :: u8)" by (rule nine_zeros)
  have "take 60 (v6_header m t dflt pfx as32 (Some d)) = ?c8 @ enc32 ?len @ ?c4 @ enc32 t @ take 16 (addr (ip pfx)) @ enc32 as32 @ enc32 (of_nat (bgpsec_size (Some d))) @
      enc16 (unat (numberHops d)) @ enc16 (unat (attr_length d)) @ replicate 12 0"
    using assms(4) by (simp add: v6_header_def Let_def min_def)
  then have b: "v6_bytes m t dflt pfx as32 d = ?c8 @ enc32 ?len @ ?c4 @ enc32 t @ take 16 (addr (ip pfx)) @ enc32 as32 @ enc32 (of_nat (bgpsec_size (Some d))) @
      enc16 (unat (numberHops d)) @ enc16 (unat (attr_length d)) @ enc16 (unat (0 :: u16)) @ [0] @ ?j @ enc32 (ntohl z) @ ?z"
    unfolding nine [symmetric] by (simp add: v6_bytes_def assms(3) mem_bytes32_enc [of z] zero [simplified])
  have len: "length (v6_bytes m t dflt pfx as32 d) = 72 + bgpsec_size (Some d)" unfolding b using assms(4) th(3) by (simp add: length_path mem_bytes32_def)
  have "rd32 (?c8 @ enc32 ?len @ r) 8 = Inr ?len" for r by (rule rd32_at) simp
  then have "rd32 (v6_bytes m t dflt pfx as32 d) 8 = Inr ?len" unfolding b by simp
  then show "srx_framed (v6_bytes m t dflt pfx as32 d)" using len th(3,4) by (simp add: srx_framed_def)
  have un: "unat ?len = 72 + bgpsec_size (Some d)" using th(3,4) by (simp only: unat_of_nat) simp
  have "read_request False (v6_bytes m t dflt pfx as32 d @ pad) = Inr (v6_request m t dflt pfx as32 d z hs)"
    using read_request_bytes [of ?c8 ?c4 "take 16 (addr (ip pfx))" False "enc32 (of_nat (bgpsec_size (Some d)))" ?j ?z ?len t as32 "numberHops d" "attr_length d" 0 0 "ntohl z" pad]
      assms(4) th(2,3) un length_path [of "hs @ [0, 0, 0]"] unfolding b by (simp add: v6_request_def mem_bytes32_def ntohs_def del: of_nat_add)
  moreover have "rd8 (v6_bytes m t dflt pfx as32 d @ pad) 0 = Inr PDU_SRXPROXY_VERIFY_V6_REQUEST" unfolding b by (simp add: rd8_def)
  ultimately show "read_pdu (v6_bytes m t dflt pfx as32 d @ pad) = Inr (VerifyPDU (v6_request m t dflt pfx as32 d z hs))" by (simp add: read_pdu_def)
qed

lemma v6_request_data:
  assumes "bgpsec_fits d" "bgpsec_path_attr d = None" "asPath d = x # y # z # hs"
  shows "asPath (request_bgpsec (v6_request m t dflt pfx as32 d z hs)) = hs @ [0, 0, 0]" "local_as (request_bgpsec (v6_request m t dflt pfx as32 d z hs)) = z"
proof -
  have hops: "unat (numberHops d) = 3 + length hs" by (rule three_hops(5) [OF assms])
  then have "numberHops d \<noteq> 0" by auto
  moreover have "take (4 * unat (numberHops d)) (concat (map mem_bytes32 (hs @ [0, 0, 0]))) = concat (map mem_bytes32 (hs @ [0, 0, 0]))"
    using hops length_path [of "hs @ [0, 0, 0]"] by simp
  ultimately show "asPath (request_bgpsec (v6_request m t dflt pfx as32 d z hs)) = hs @ [0, 0, 0]"
    using words_of_path [of "hs @ [0, 0, 0]"] unfolding request_bgpsec_def Let_def v6_request_def by (simp del: map_append concat_append)
  show "local_as (request_bgpsec (v6_request m t dflt pfx as32 d z hs)) = z" by (simp add: request_bgpsec_def v6_request_def Let_def)
qed

text \<open>C39. The AS path of an IPv6 request is shifted. For an IPv6 prefix and an AS path of at least three hops without a BGPsec attribute, which fit a packet, on an open connection and with room for the packet on the stack, \<open>createV6Request\<close> copies the path to the place that it has in an IPv4
  request, 12 bytes too early, over the end of the header. The packet that the server reads has the right prefix and origin AS and the right number of hops, but the first three hops
  are missing, three zeros follow the last hop, and the third hop is taken for the local AS. The type and the relation of the path and the default result for ASPA are not sent.\<close>

theorem v6_request_shifts_path:
  assumes on: "px_online s" and pfx: "version (ip pfx) = 6" "length (addr (ip pfx)) = 16"
    and d: "bgpsec_fits d" "bgpsec_path_attr d = None" "asPath d = x # y # z # hs" and room: "\<forall>n. n \<le> reserved env n"
  shows "\<exists>s' b r. verifyUpdate env localID roa sec aspa dflt pfx as32 (Some d) pl s = Some (Inr s') \<and> txd (px_wire s') = txd (px_wire s) @ b \<and> b \<noteq> [] \<and>
    (\<forall>T self. delivered T self b (VerifyPDU r)) \<and>
    \<not> vr_v4 r \<and> vr_flags r = request_method roa sec aspa localID \<and> request_prefix r = pfx \<and> ntohl (vr_originAS r) = as32 \<and> ntohs (numHops r) = numberHops d \<and>
    asPath (request_bgpsec r) = hs @ [0, 0, 0] \<and> local_as (request_bgpsec r) = z \<and> vr_asType r = 0 \<and> vr_asRelType r = 0 \<and> aspaDefRes r = 0"
proof -
  let ?m = "request_method roa sec aspa localID"
  let ?b = "v6_bytes ?m localID dflt pfx as32 d" and ?r = "v6_request ?m localID dflt pfx as32 d z hs"
  have len: "16 \<le> length (addr (ip pfx))" using pfx(2) by simp
  have size: "bgpsec_size (Some d) < 65536" using d(1) by (simp add: bgpsec_fits_def)
  have two: "2 \<le> length ?b" using v6_bytes_read(1) [OF d len, of ?m localID dflt as32] by (simp add: srx_framed_def)
  obtain s' where s': "verifyUpdate env localID roa sec aspa dflt pfx as32 (Some d) pl s = Some (Inr s')" "txd (px_wire s') = txd (px_wire s) @ ?b"
  proof (rule verifyUpdate_sends [OF on, of pfx False "Some d" env roa sec aspa localID dflt as32 pl ?b])
    show "(if False then createV4Request env (60 + bgpsec_size (Some d)) ?m localID dflt pfx as32 (Some d) pl
        else createV6Request env (72 + bgpsec_size (Some d)) ?m localID dflt pfx as32 (Some d)) = Inr ?b" using createV6Request_bytes [OF d len room] by simp
  qed (use pfx(1) size two in simp_all)
  have ne: "?b \<noteq> []" using two by auto
  have pre: "request_prefix ?r = pfx" using pfx by (cases pfx; cases "ip pfx") (simp add: request_prefix_def v6_request_def)
  have r: "\<not> vr_v4 ?r" "vr_flags ?r = ?m" "ntohl (vr_originAS ?r) = as32" "ntohs (numHops ?r) = numberHops d" "vr_asType ?r = 0" "vr_asRelType ?r = 0" "aspaDefRes ?r = 0"
    by (simp_all add: v6_request_def)
  note srv = delivered_framed [OF v6_bytes_read [OF d len]]
  show ?thesis
    by (intro exI [of _ s'] exI [of _ ?b] exI [of _ ?r] conjI allI impI; rule s' ne pre r srv v6_request_data [OF d])
qed

section \<open>Examples\<close>

definition sample_wire :: wire where
  "sample_wire = \<lparr>rxq = [], txq = [], txd = [], attempts = []\<rparr>"

definition sample_px :: "nat SRxProxy" where
  "sample_px = \<lparr>resCallback = Some (\<lambda>uid _ _ _ _ _ n. n + unat uid), sigCallback = None, syncNotification = None, commManagement = None,
     lastCode = COM_PROXY_NONE, lastSubCode = 0, px_ID = 7, px_AS = 65001, peers = [(1, 65002), (2, 65003)], externalSocketControl = False,
     socketConfig = \<lparr>enablePSC = True, maxAttempts = 25, maxSleepMillis = 1, totalCountOfMultipleAttempts = 0, sendErrors = 0, sendErrorThreshold = 300,
       resetSendErrors = 1000, succsessSend = 0\<rparr>,
     connHandler = Some (createClientConnectionHandler\<lparr>ch_initialized := True, ch_established := True, monitor := True,
       ch_sock := \<lparr>cs_type = SRX_PROXY_CLIENT_SOCKET, oldFD = 5, clientFD = 5, reconnect = True, canBeClosed = True\<rparr>\<rparr>),
     px_wire = sample_wire, sockSendError = 0, router = 0\<rparr>"

definition sample_penv :: proxy_env where
  "sample_penv = \<lparr>reserved = (\<lambda>n. n + 16), stack_junk = (\<lambda>_. 0), px_mem = (\<lambda>_. Some (\<lambda>_. 0)), tx_errno = 32, host_known = True, lock_ok = True,
     semaphores_ok = True, alarm_round = 3\<rparr>"

lemma sample_px_simps [simp]:
  "px_online sample_px" "isConnected sample_px" "unlimited (px_mem sample_penv)" "\<forall>n. n \<le> reserved sample_penv n" "\<forall>n. n + 4 \<le> reserved sample_penv n"
  by (simp_all add: sample_px_def sample_penv_def px_online_def isConnected_def isConnectedToServer_def sample_wire_def createClientConnectionHandler_def unlimited_def)

definition sample_hops :: "u32 list \<Rightarrow> BGPSecData" where
  "sample_hops hs = \<lparr>numberHops = of_nat (length hs), asPath = hs, attr_length = 0, bafi = 256, bsafi = 1, breserved = 0, local_as = 65001, bgpsec_path_attr = None\<rparr>"

definition sample_dflt :: SRxDefaultResult where
  "sample_dflt = \<lparr>resSourceROA = 1, resSourceBGPSEC = 1, resSourceASPA = 1, defResult = \<lparr>roaResult = 3, bgpsecResult = 3, aspaResult = 3\<rparr>\<rparr>"

definition sample_pfx :: "u8 \<Rightarrow> IPPrefix" where
  "sample_pfx v = \<lparr>ip = \<lparr>version = v, addr = [10, 1] @ replicate 14 0\<rparr>, plength = 16\<rparr>"

lemma sample_hops_fits: "bgpsec_fits (sample_hops [1, 2])" "bgpsec_fits (sample_hops [1, 2, 3, 4])"
  by (simp_all add: sample_hops_def bgpsec_fits_def bgpsec_size_def)

text \<open>A stream with one packet.\<close>

lemma delivered_stream:
  assumes "delivered T self b pdu" "b \<noteq> []"
  shows "single_receive T renv (\<lambda>_. Some (\<lambda>_. 0)) sock client 5 (sample_wire\<lparr>rxq := [RxData b, RxData []]\<rparr>) self =
      tbind (handlePacket T renv sock client pdu (of_nat (length b)) self) (\<lambda>(_, self). Some (Inr (-1, sample_wire, self)))"
proof -
  have "sample_wire\<lparr>rxq := []\<rparr> = sample_wire" by (simp add: sample_wire_def)
  then show ?thesis
    using assms(1) [unfolded delivered_def, rule_format, of 5 "\<lambda>_. Some (\<lambda>_. 0)" "sample_wire\<lparr>rxq := [RxData b, RxData []]\<rparr>" "[RxData b]" "RxData []" "[]"] assms(2)
    by (simp add: unlimited_def)
qed

text \<open>A request for 10.1.0.0/16 with the AS path 1 2 arrives at the server.\<close>

theorem v4_request_reaches_server_witness:
  "\<exists>s' b r. verifyUpdate sample_penv 9 True False True sample_dflt (sample_pfx 4) 65001 (Some (sample_hops [1, 2])) \<lparr>spl_asType = 2, spl_asRelationship = 1\<rparr> sample_px = Some (Inr s') \<and>
    txd (px_wire s') = b \<and> vr_flags r = 133 \<and> asPath (request_bgpsec r) = [1, 2] \<and> ntohl (vr_originAS r) = 65001 \<and>
    (\<forall>(T :: unit uthash) renv sock client (self :: (unit, unit) ConnectionHandler).
      single_receive T renv (\<lambda>_. Some (\<lambda>_. 0)) sock client 5 (sample_wire\<lparr>rxq := [RxData b, RxData []]\<rparr>) self =
      tbind (handlePacket T renv sock client (VerifyPDU r) (of_nat (length b)) self) (\<lambda>(_, self). Some (Inr (-1, sample_wire, self))))"
proof -
  have p: "version (ip (sample_pfx 4)) = 4" "length (addr (ip (sample_pfx 4))) = 16" by (simp_all add: sample_pfx_def)
  have d: "resSourceROA sample_dflt < 256" "resSourceBGPSEC sample_dflt < 256" "resSourceASPA sample_dflt < 256" by (simp_all add: sample_dflt_def)
  obtain s' b r where r: "verifyUpdate sample_penv 9 True False True sample_dflt (sample_pfx 4) 65001 (Some (sample_hops [1, 2])) \<lparr>spl_asType = 2, spl_asRelationship = 1\<rparr> sample_px = Some (Inr s')"
    "txd (px_wire s') = txd (px_wire sample_px) @ b" "b \<noteq> []" "vr_flags r = request_method True False True 9" "ntohl (vr_originAS r) = 65001"
    "request_bgpsec r = (sample_hops [1, 2])\<lparr>breserved := 0, local_as := htonl (local_as (sample_hops [1, 2]))\<rparr>"
    "\<forall>(T :: unit uthash) (self :: (unit, unit) ConnectionHandler). delivered T self b (VerifyPDU r)"
    using v4_request_reaches_server [OF sample_px_simps(1) p sample_hops_fits(1) sample_px_simps(4) d, of 9 True False True 65001 "\<lparr>spl_asType = 2, spl_asRelationship = 1\<rparr>"] by blast
  have "txd (px_wire sample_px) = []" by (simp add: sample_wire_def sample_px_def)
  then show ?thesis using r delivered_stream [OF r(7) [rule_format] r(3)] by (intro exI [of _ s'] exI [of _ b] exI [of _ r]) (simp add: request_method_def sample_hops_def)
qed

text \<open>The same for an IPv6 prefix and the AS path 1 2 3 4: the server sees the path 4 0 0 0.\<close>

theorem v6_request_shifts_path_witness:
  "\<exists>s' b r. verifyUpdate sample_penv 9 True False True sample_dflt (sample_pfx 6) 65001 (Some (sample_hops [1, 2, 3, 4])) \<lparr>spl_asType = 2, spl_asRelationship = 1\<rparr> sample_px = Some (Inr s') \<and>
    txd (px_wire s') = b \<and> asPath (request_bgpsec r) = [4, 0, 0, 0] \<and> local_as (request_bgpsec r) = 3 \<and>
    (\<forall>(T :: unit uthash) renv sock client (self :: (unit, unit) ConnectionHandler).
      single_receive T renv (\<lambda>_. Some (\<lambda>_. 0)) sock client 5 (sample_wire\<lparr>rxq := [RxData b, RxData []]\<rparr>) self =
      tbind (handlePacket T renv sock client (VerifyPDU r) (of_nat (length b)) self) (\<lambda>(_, self). Some (Inr (-1, sample_wire, self))))"
proof -
  have p: "version (ip (sample_pfx 6)) = 6" "length (addr (ip (sample_pfx 6))) = 16" by (simp_all add: sample_pfx_def)
  have d: "bgpsec_path_attr (sample_hops [1, 2, 3, 4]) = None" "asPath (sample_hops [1, 2, 3, 4]) = 1 # 2 # 3 # [4]" by (simp_all add: sample_hops_def)
  obtain s' b r where r: "verifyUpdate sample_penv 9 True False True sample_dflt (sample_pfx 6) 65001 (Some (sample_hops [1, 2, 3, 4])) \<lparr>spl_asType = 2, spl_asRelationship = 1\<rparr> sample_px = Some (Inr s')"
    "txd (px_wire s') = txd (px_wire sample_px) @ b" "b \<noteq> []" "asPath (request_bgpsec r) = [4] @ [0, 0, 0]" "local_as (request_bgpsec r) = 3"
    "\<forall>(T :: unit uthash) (self :: (unit, unit) ConnectionHandler). delivered T self b (VerifyPDU r)"
    using v6_request_shifts_path [OF sample_px_simps(1) p sample_hops_fits(2) d sample_px_simps(4), of 9 True False True sample_dflt 65001 "\<lparr>spl_asType = 2, spl_asRelationship = 1\<rparr>"] by blast
  have "txd (px_wire sample_px) = []" by (simp add: sample_wire_def sample_px_def)
  then show ?thesis using r delivered_stream [OF r(6) [rule_format] r(3)] by (intro exI [of _ s'] exI [of _ b] exI [of _ r]) simp
qed

text \<open>The notification of a valid origin for update 11: the sample router counts the identifiers.\<close>

theorem notification_reaches_router_witness:
  "\<exists>s'. processPackets sample_penv (sample_px\<lparr>px_wire := sample_wire\<lparr>rxq := [RxData (msg_bytes (VerifyNotification 129 (htonl 9) 0 3 3 (htonl 11)))]\<rparr>\<rparr>) =
    Some (Inr (True, s')) \<and> router s' = 11"
proof -
  let ?s = "sample_px\<lparr>px_wire := sample_wire\<lparr>rxq := [RxData (msg_bytes (VerifyNotification 129 (htonl 9) 0 3 3 (htonl 11)))]\<rparr>\<rparr>" and ?sd = "\<lparr>sent = [], SEND_QUEUE = None\<rparr>"
  have sd: "sendVerifyNotification (\<lambda>_. True) None ?sd 1 2 11 129 9 0 3 3 False = Inr (True, ?sd\<lparr>sent := [(2, VerifyNotification 129 (htonl 9) 0 3 3 (htonl 11))]\<rparr>)"
    by (simp add: send_defs)
  have on: "px_online ?s" "resCallback ?s = Some (\<lambda>uid _ _ _ _ _ n. n + unat uid)"
    by (simp_all add: px_online_def isConnected_def isConnectedToServer_def sample_px_def sample_wire_def createClientConnectionHandler_def)
  have "router ?s = 0" by (simp add: sample_px_def)
  then show ?thesis
    using notification_reaches_router [OF sd on sample_px_simps(3), of "rxq (px_wire ?s)" "[]" "[]"] by (auto simp: tell_router_def)
qed

end
