(* ===== verification/Proxy_Connection.thy ===== *)
theory Proxy_Connection
  imports Proxy_Session
begin

text \<open>
  The connection of a proxy from the handshake to its end: what a successful handshake looks like, how the hello packet overruns its array, that
  a proxy is of no use after it was disconnected once, and two calls of the library that never return.
\<close>

section \<open>The hello packet\<close>

lemma replicate_five: "replicate 5 x = x # replicate 4 x"
  by (simp add: numeral_eq_Suc)

lemma length_peers: "length (concat (map (enc32 \<circ> f) ps)) = 4 * length ps"
  by (induction ps) simp_all

lemma length_hello: "length (hello_bytes s) = 24 + 4 * length (peers s)"
  by (simp add: hello_bytes_def Let_def length_peers)

lemma take_prefix: "length h \<le> n \<Longrightarrow> take n (h @ r) = h @ take (n - length h) r"
  by simp

text \<open>The bytes that are sent: the last AS number is missing, or the number of the peers when there is none.\<close>

definition hello_sent :: "'u SRxProxy \<Rightarrow> u8 list" where
  "hello_sent s = take (20 + 4 * length (peers s)) (hello_bytes s)"

lemma hello_head: "\<exists>r. hello_sent s = ([0] @ enc16 3 @ replicate 5 0 @ enc32 (of_nat (20 + 4 * length (peers s))) @ enc32 (px_ID s)) @ r"
proof -
  let ?h = "[0] @ enc16 3 @ replicate 5 0 @ enc32 (of_nat (20 + 4 * length (peers s))) @ enc32 (px_ID s)"
  have "hello_bytes s = ?h @ enc32 (px_AS s) @ enc32 (of_nat (length (peers s))) @ concat (map (enc32 \<circ> snd) (peers s))"
    by (simp add: hello_bytes_def Let_def mult.commute replicate_five)
  moreover have "length ?h \<le> 20 + 4 * length (peers s)" by simp
  ultimately show ?thesis unfolding hello_sent_def using take_prefix by metis
qed

lemma hello_peers: "peers s \<noteq> [] \<Longrightarrow> drop 24 (hello_sent s) = concat (map (enc32 \<circ> snd) (butlast (peers s)))"
proof -
  assume ne: "peers s \<noteq> []"
  define ps p where "ps = butlast (peers s)" and "p = last (peers s)"
  have ps: "peers s = ps @ [p]" using ne by (simp add: ps_def p_def)
  let ?h = "[0] @ enc16 3 @ replicate 5 0 @ enc32 (of_nat (20 + 4 * length (peers s))) @ enc32 (px_ID s) @ enc32 (px_AS s) @ enc32 (of_nat (length (peers s)))"
  have b: "hello_bytes s = ?h @ concat (map (enc32 \<circ> snd) ps) @ enc32 (snd p)"
    by (simp add: hello_bytes_def Let_def mult.commute replicate_five ps)
  have "length ?h = 24" "length (concat (map (enc32 \<circ> snd) ps)) = 4 * length ps" by (simp_all add: length_peers)
  then have "drop 24 (take (24 + 4 * length ps) (?h @ concat (map (enc32 \<circ> snd) ps) @ enc32 (snd p))) = concat (map (enc32 \<circ> snd) ps)"
    by (intro drop_take_middle) simp_all
  then show ?thesis unfolding hello_sent_def b by (simp add: ps)
qed

lemma read_hello: "read_pdu (hello_sent s) = Inr (HelloPDU (htons SRX_PROTOCOL_VER) (htonl (px_ID s)))"
proof -
  let ?l = "enc32 (of_nat (20 + 4 * length (peers s)))"
  obtain r where r: "hello_sent s = ([0] @ enc16 3 @ replicate 5 0 @ ?l @ enc32 (px_ID s)) @ r" using hello_head by blast
  have "raw32 (([0] @ enc16 3 @ replicate 5 0 @ ?l) @ enc32 (px_ID s) @ r) 12 = Inr (htonl (px_ID s))" by (rule raw32_at) simp
  moreover have "raw16 ([0] @ enc16 (unat (3 :: u16)) @ (replicate 5 0 @ ?l @ enc32 (px_ID s) @ r)) 1 = Inr (htons 3)" by (rule raw16_at) simp
  ultimately show ?thesis by (simp add: r read_pdu_def rd8_def)
qed

section \<open>The handshake\<close>

lemma framed_hello: "srx_framed (msg_bytes (HelloResponse v p))"
proof -
  have "rd32 ([1] @ mem_bytes16 v @ replicate 5 0 @ enc32 16 @ r) 8 = Inr 16" for r
    using rd32_at [of 8 "[1] @ mem_bytes16 v @ replicate 5 0" 16 r] by (simp add: mem_bytes16_def)
  then show ?thesis by (simp add: srx_framed_def mem_bytes32_enc mem_bytes16_def replicate_five)
qed

lemma dispatch_hello:
  assumes "connHandler s = Some h"
  shows "dispatchPackets env (msg_bytes (HelloResponse (htons SRX_PROTOCOL_VER) p) @ pad) s = Inr (s\<lparr>connHandler := Some (h\<lparr>ch_established := True\<rparr>)\<rparr>)"
proof -
  have "rd16 ([1] @ enc16 3 @ r) 1 = Inr (of_nat 3)" for r by (rule rd16_at) simp_all
  then show ?thesis using assms by (simp add: dispatchPackets_def processHelloResponse_def mem_bytes16_enc rd8_def)
qed

lemma handshake_connected: "isConnected s \<Longrightarrow> handshake_loop env al s = Some (Inr s)"
  by (subst handshake_loop.simps) simp

text \<open>A hello response of the right version ends the loop.\<close>

lemma handshake_hello:
  assumes h: "connHandler s = Some h" "ch_initialized h" "\<not> ch_established h" "clientFD (ch_sock h) \<noteq> -1" and al: "al \<noteq> Some 0" and mem: "unlimited (px_mem env)"
    and rx: "rxq (px_wire s) = xs @ zs" "chunks xs" "content xs = msg_bytes (HelloResponse (htons SRX_PROTOCOL_VER) p) @ rest"
  obtains ys where "handshake_loop env al s = Some (Inr ((resetProxyError s)\<lparr>connHandler := Some (h\<lparr>ch_established := True\<rparr>), px_wire := (px_wire s)\<lparr>rxq := ys @ zs\<rparr>\<rparr>))"
    "chunks ys" "content ys = rest"
proof -
  let ?s = "resetProxyError s"
  have s: "connHandler ?s = Some h" "px_wire ?s = px_wire s" using h(1) by (simp_all add: resetProxyError_def)
  have rx': "rxq (px_wire ?s) = xs @ zs" using rx(1) s(2) by simp
  obtain ys k where ys: "processPackets env ?s =
      Some (cbind (dispatchPackets env (msg_bytes (HelloResponse (htons SRX_PROTOCOL_VER) p) @ replicate k 0) (?s\<lparr>px_wire := (px_wire ?s)\<lparr>rxq := ys @ zs\<rparr>\<rparr>)) (\<lambda>s. Inr (True, s)))"
    "chunks ys" "content ys = rest"
    by (rule processPackets_framed [OF s(1) h(4) mem rx' rx(2,3) framed_hello])
  define t where "t = ?s\<lparr>connHandler := Some (h\<lparr>ch_established := True\<rparr>), px_wire := (px_wire s)\<lparr>rxq := ys @ zs\<rparr>\<rparr>"
  have "connHandler (?s\<lparr>px_wire := (px_wire ?s)\<lparr>rxq := ys @ zs\<rparr>\<rparr>) = Some h" using s by simp
  from dispatch_hello [OF this, of env p "replicate k 0"] have "processPackets env ?s = Some (Inr (True, t))" using ys(1) s(2) by (simp add: t_def)
  moreover have "isConnected t" "lastCode t = 255" using h(2) by (simp_all add: t_def isConnected_def resetProxyError_def)
  moreover have "\<not> isConnected s" using h(1,3) by (simp add: isConnected_def)
  ultimately have "handshake_loop env al s = Some (Inr t)" using al by (subst handshake_loop.simps) (simp add: isErrorCode_def handshake_connected)
  then show thesis using ys(2,3) by (intro that) (simp_all add: t_def)
qed

text \<open>Before the hello packet: the socket is open, the handler is initialised.\<close>

definition px_fresh :: "proxy_env \<Rightarrow> 'u SRxProxy \<Rightarrow> bool" where
  "px_fresh env s \<longleftrightarrow> connHandler s = Some createClientConnectionHandler \<and> host_known env \<and> lock_ok env \<and> semaphores_ok env"

definition opened :: "u32 \<Rightarrow> int \<Rightarrow> rx list \<Rightarrow> (int \<times> con) list \<Rightarrow> 'u SRxProxy \<Rightarrow> 'u SRxProxy" where
  "opened tmo fd rx as s = s\<lparr>connHandler := Some (createClientConnectionHandler\<lparr>ch_initialized := True, handshake_timeout := tmo, monitor := True,
     ch_sock := \<lparr>cs_type = SRX_PROXY_CLIENT_SOCKET, oldFD = fd, clientFD = fd, reconnect = True, canBeClosed = True\<rparr>\<rparr>),
     px_wire := (px_wire s)\<lparr>attempts := as, rxq := rx\<rparr>\<rparr>"

lemma initialize_opens:
  assumes "px_fresh env s" "attempts (px_wire s) = (fd, ConOk rx) # as" "0 \<le> fd"
  shows "initializeClientConnectionHandler env tmo s = Some (Inr (True, opened tmo fd rx as s))"
  using assms by (simp add: initializeClientConnectionHandler_def px_fresh_def opened_def createClientSocket_def rx_of_def createRWLock_def
    createClientConnectionHandler_def Let_def)

lemma connect_opens:
  assumes "px_fresh env s" "attempts (px_wire s) = (fd, ConOk rx) # as" "0 \<le> fd"
  shows "connectToSRx env tmo ext s = tbind (Some (hello_pdu env (opened tmo fd rx as s))) (\<lambda>pdu.
    tbind (handshakeWithServer env pdu (opened tmo fd rx as s)) (\<lambda>(ok, s). tbind (Some (handler s)) (\<lambda>h.
      if \<not> ok then tbind (Some (if ch_stop h then Inr s else releaseClientConnectionHandler env s)) (\<lambda>s. Some (Inr (False, s)))
      else let s = s\<lparr>externalSocketControl := ext\<rparr>
           in Some (Inr (ch_established h, if ext then on_handler (ch_sock_update (canBeClosed_update (\<lambda>_. False))) s else s)))))"
proof -
  have h: "handler s = Inr createClientConnectionHandler" "\<not> ch_initialized createClientConnectionHandler"
    using assms(1) by (simp_all add: px_fresh_def createClientConnectionHandler_def)
  obtain h' where "handler (opened tmo fd rx as s) = Inr h'" "\<not> ch_established h'" by (simp add: opened_def createClientConnectionHandler_def handler_def)
  then show ?thesis using h initialize_opens [OF assms] by (simp add: connectToSRx_def)
qed

text \<open>C19. The handshake. A new proxy that can resolve and reach the server, on a machine that reserves four bytes more than the size of an array, sends its hello packet, and a
  hello response with the version of the protocol, in whatever pieces it arrives before the alarm, connects it; the rest of the stream is left
  for later. The server reads from the hello the version and the identifier of the proxy. But the packet has 4 bytes less than the data of the hello:
  the AS number of the last peer is not sent.\<close>

theorem connectToSRx_handshake:
  assumes new: "px_fresh env s" "attempts (px_wire s) = (fd, ConOk (xs @ zs)) # as" "0 \<le> fd" "TxError \<notin> set (txq (px_wire s))"
    and room: "\<forall>n. n + 4 \<le> reserved env n" and mem: "unlimited (px_mem env)" and alarm: "tmo = 0 \<or> 0 < alarm_round env"
    and rx: "chunks xs" "content xs = msg_bytes (HelloResponse (htons SRX_PROTOCOL_VER) p) @ rest"
  shows "\<exists>s' ys. connectToSRx env tmo ext s = Some (Inr (True, s')) \<and> px_online s' \<and> router s' = router s \<and> peers s' = peers s \<and>
    rxq (px_wire s') = ys @ zs \<and> chunks ys \<and> content ys = rest \<and> txd (px_wire s') = txd (px_wire s) @ hello_sent s \<and>
    read_pdu (hello_sent s) = Inr (HelloPDU (htons SRX_PROTOCOL_VER) (htonl (px_ID s))) \<and>
    (peers s \<noteq> [] \<longrightarrow> drop 24 (hello_sent s) = concat (map (enc32 \<circ> snd) (butlast (peers s))))"
proof -
  let ?h = "createClientConnectionHandler\<lparr>ch_initialized := True, handshake_timeout := tmo, monitor := True,
     ch_sock := \<lparr>cs_type = SRX_PROXY_CLIENT_SOCKET, oldFD = fd, clientFD = fd, reconnect = True, canBeClosed = True\<rparr>\<rparr>"
  define t where "t = opened tmo fd (xs @ zs) as s"
  have t: "connHandler t = Some ?h" "px_wire t = (px_wire s)\<lparr>attempts := as, rxq := xs @ zs\<rparr>" by (simp_all add: t_def opened_def)
  have h: "clientFD (ch_sock ?h) \<noteq> -1" "ch_initialized ?h" "\<not> ch_established ?h" "handshake_timeout ?h = tmo" using new(3) by (simp_all add: createClientConnectionHandler_def)
  have hello: "hello_pdu env t = Inr (hello_sent s)"
    using room [rule_format, of "20 + 4 * length (peers s)"] length_hello [of s]
    by (simp add: hello_pdu_def hello_sent_def hello_bytes_def t_def opened_def Let_def mult.commute add.assoc)
  have two: "2 \<le> length (hello_sent s)" using length_hello [of s] by (simp add: hello_sent_def)
  obtain ts e where ts: "px_send env (hello_sent s) t = Inr (True, t\<lparr>px_wire := (px_wire t)\<lparr>txq := ts, txd := txd (px_wire t) @ hello_sent s\<rparr>, sockSendError := e\<rparr>)" "TxError \<notin> set ts"
    by (rule px_send_ok [OF t(1) h(1) _ two, of env]) (simp_all add: t(2) new(4))
  define u where "u = t\<lparr>px_wire := (px_wire t)\<lparr>txq := ts, txd := txd (px_wire t) @ hello_sent s\<rparr>, sockSendError := e\<rparr>"
  have u: "connHandler u = Some ?h" "rxq (px_wire u) = xs @ zs" by (simp_all add: u_def t)
  have al: "(if tmo = 0 then None else Some (alarm_round env)) \<noteq> Some 0" using alarm by auto
  obtain ys where ys: "handshake_loop env (if tmo = 0 then None else Some (alarm_round env)) u =
      Some (Inr ((resetProxyError u)\<lparr>connHandler := Some (?h\<lparr>ch_established := True\<rparr>), px_wire := (px_wire u)\<lparr>rxq := ys @ zs\<rparr>\<rparr>))" "chunks ys" "content ys = rest"
    by (rule handshake_hello [OF u(1) h(2,3,1) al mem u(2) rx])
  define v where "v = (resetProxyError u)\<lparr>connHandler := Some (?h\<lparr>ch_established := True\<rparr>), px_wire := (px_wire u)\<lparr>rxq := ys @ zs\<rparr>\<rparr>"
  define w where "w = (if ext then on_handler (ch_sock_update (canBeClosed_update (\<lambda>_. False))) (v\<lparr>externalSocketControl := ext\<rparr>) else v\<lparr>externalSocketControl := ext\<rparr>)"
  have "handshakeWithServer env (hello_sent s) t = Some (Inr (True, v))"
    using ts(1) ys(1) h(4) handler_simps(1) [OF u(1)] by (simp add: handshakeWithServer_def u_def [symmetric] v_def handler_def)
  then have "connectToSRx env tmo ext s = Some (Inr (True, w))"
    using connect_opens [OF new(1-3), of tmo ext] hello by (simp add: t_def [symmetric] w_def v_def handler_def Let_def)
  moreover have "px_online w" using h(1,2) ts(2) by (simp add: w_def v_def px_online_def isConnected_def isConnectedToServer_def u_def t on_handler_def)
  moreover have "router w = router s" "peers w = peers s" "rxq (px_wire w) = ys @ zs" "txd (px_wire w) = txd (px_wire s) @ hello_sent s"
    by (simp_all add: w_def v_def u_def t on_handler_def resetProxyError_def) (simp_all add: t_def opened_def)
  moreover have "drop 24 (hello_sent s) = concat (map (enc32 \<circ> snd) (butlast (peers s)))" if "peers s \<noteq> []" by (rule hello_peers [OF that])
  ultimately show ?thesis using ys(2,3) read_hello [of s] by (intro exI [of _ w] exI [of _ ys] conjI impI)
qed

text \<open>C38. The hello packet is written behind its array. The array of the packet has \<open>20 + 4 * n\<close> bytes for \<open>n\<close> peers, but the header alone has 24: on a machine that
  reserves no more than that, every \<open>connectToSRx\<close> of a new proxy that reaches the server writes behind the end of the array on the stack, whatever the
  server would answer and whatever the peers are.\<close>

theorem connectToSRx_overruns:
  assumes "px_fresh env s" "attempts (px_wire s) = (fd, ConOk rx) # as" "0 \<le> fd" "reserved env (20 + 4 * length (peers s)) < 24 + 4 * length (peers s)"
  shows "connectToSRx env tmo ext s = Some (Inl BufferOverflow)"
proof -
  have "hello_pdu env (opened tmo fd rx as s) = Inl BufferOverflow"
    using assms(4) length_hello [of "opened tmo fd rx as s"] by (simp add: hello_pdu_def opened_def Let_def mult.commute)
  then show ?thesis using connect_opens [OF assms(1-3), of tmo ext] by simp
qed

section \<open>The end of a connection\<close>

text \<open>A handler that was released.\<close>

definition px_finished :: "'u SRxProxy \<Rightarrow> bool" where
  "px_finished s \<longleftrightarrow> (\<exists>h. connHandler s = Some h \<and> ch_initialized h \<and> ch_stop h \<and> \<not> ch_established h)"

lemma px_send_handler:
  assumes "connHandler s = Some h" "px_send env bs s = Inr (ok, s')"
  shows "\<exists>c. connHandler s' = Some (h\<lparr>ch_sock := c\<rparr>)"
  using assms by (auto simp: px_send_def cbind_eq_Inr)

lemma px_sendGoodbye_handler:
  assumes "connHandler s = Some h" "px_sendGoodbye env k s = Inr (ok, s')"
  shows "\<exists>c e. connHandler s' = Some (h\<lparr>ch_sock := c, ch_established := e\<rparr>) \<and> (e \<longrightarrow> ch_established h)"
proof (cases "isConnectedToServer (ch_sock h)")
  case False
  then have "connHandler s' = Some (h\<lparr>ch_sock := ch_sock h, ch_established := ch_established h\<rparr>)" using assms by (simp add: px_sendGoodbye_def)
  then show ?thesis by blast
next
  case True
  then have g: "cbind (px_send env ([PDU_SRXPROXY_GOODBYE] @ enc16 (unat k) @ [0] @ replicate 4 0 @ enc32 12) s) (\<lambda>(ok, s).
      Inr (if ok then (True, on_handler (ch_established_update (\<lambda>_. False)) s) else (False, s))) = Inr (ok, s')"
    using assms by (simp add: px_sendGoodbye_def)
  then obtain ok' t where t: "px_send env ([PDU_SRXPROXY_GOODBYE] @ enc16 (unat k) @ [0] @ replicate 4 0 @ enc32 12) s = Inr (ok', t)"
    by (auto simp: cbind_eq_Inr)
  have t': "s' = (if ok' then on_handler (ch_established_update (\<lambda>_. False)) t else t)" using g unfolding t by (simp split: if_splits)
  obtain c where c: "connHandler t = Some (h\<lparr>ch_sock := c\<rparr>)" using px_send_handler [OF assms(1) t] by blast
  have "connHandler s' = Some (h\<lparr>ch_sock := c, ch_established := (if ok' then False else ch_established h)\<rparr>)" using t' c by (simp add: on_handler_def)
  then show ?thesis by (intro exI [of _ c] exI [of _ "if ok' then False else ch_established h"]) simp
qed

lemma release_finishes:
  assumes "connHandler s = Some h" "ch_initialized h" "\<not> ch_established h" "releaseClientConnectionHandler env s = Inr s'"
  shows "px_finished s'"
  using assms by (auto simp: releaseClientConnectionHandler_def px_finished_def on_handler_def cbind_eq_Inr Let_def)

lemma callCMgmtHandler_handler [simp]: "connHandler (callCMgmtHandler m c s) = connHandler s"
  by (simp add: callCMgmtHandler_def setProxyCommCode_def Let_def split: option.splits)

lemma disconnect_finishes:
  assumes "isConnected s" "disconnectFromSRx env k s = Inr s'"
  shows "px_finished s'"
proof -
  obtain h where h: "connHandler s = Some h" "ch_initialized h" using assms(1) by (auto simp: isConnected_def split: option.splits)
  obtain ok t u where t: "px_sendGoodbye env k s = Inr (ok, t)" "releaseClientConnectionHandler env (on_handler (ch_established_update (\<lambda>_. False)) t) = Inr u"
    "s' = callCMgmtHandler COM_PROXY_DISCONNECT COM_PROXY_NO_SUBCODE u"
    using assms by (auto simp: disconnectFromSRx_def cbind_eq_Inr)
  obtain c e where c: "connHandler t = Some (h\<lparr>ch_sock := c, ch_established := e\<rparr>)" using px_sendGoodbye_handler [OF h(1) t(1)] by blast
  have "connHandler (on_handler (ch_established_update (\<lambda>_. False)) t) = Some (h\<lparr>ch_sock := c, ch_established := False\<rparr>)" using c by (simp add: on_handler_def)
  from release_finishes [OF this _ _ t(2)] have "px_finished u" using h(2) by simp
  then show ?thesis using t(3) by (simp add: px_finished_def)
qed

lemma goodbye_finishes:
  assumes "isConnected s" "rd8 b 0 = Inr PDU_SRXPROXY_GOODBYE" "dispatchPackets env b s = Inr s'"
  shows "px_finished s'"
proof -
  obtain h where h: "connHandler s = Some h" "ch_initialized h" using assms(1) by (auto simp: isConnected_def split: option.splits)
  then have "releaseClientConnectionHandler env (s\<lparr>connHandler := Some (h\<lparr>ch_established := False, ch_stop := True\<rparr>)\<rparr>) = Inr s'"
    using assms(2,3) by (simp add: dispatchPackets_def px_processGoodbye_def)
  from release_finishes [OF _ _ _ this, of "h\<lparr>ch_established := False, ch_stop := True\<rparr>"] show ?thesis using h(2) by simp
qed

text \<open>C35. A disconnected proxy stays disconnected. After \<open>disconnectFromSRx\<close> on a connected proxy, and after a goodbye packet of the server, every call to connect or
  to reconnect fails at once, on any network and without an attempt to reach the server, and every validation request is dropped without a call of the router and without
  a result. The only way back is a new proxy, although the comment on \<open>connectToSRx\<close> says that a previous connection is ended and a new one made.\<close>

theorem disconnect_is_final:
  assumes "isConnected s" "disconnectFromSRx env k s = Inr s' \<or> (rd8 b 0 = Inr PDU_SRXPROXY_GOODBYE \<and> dispatchPackets env b s = Inr s')"
  shows "\<not> isConnected s' \<and>
    (\<forall>env' tmo ext w. connectToSRx env' tmo ext (s'\<lparr>px_wire := w\<rparr>) = Some (Inr (False, s'\<lparr>px_wire := w\<rparr>)) \<and>
      reconnectWithSRx env' (s'\<lparr>px_wire := w\<rparr>) = Some (Inr (False, s'\<lparr>px_wire := w\<rparr>))) \<and>
    (\<forall>env' localID roa sec aspa dflt pfx as32 bgpsec pl. verifyUpdate env' localID roa sec aspa dflt pfx as32 bgpsec pl s' = Some (Inr s'))"
proof -
  have "px_finished s'" using assms disconnect_finishes goodbye_finishes by blast
  then obtain h where h: "connHandler s' = Some h" "ch_initialized h" "ch_stop h" "\<not> ch_established h" by (auto simp: px_finished_def)
  then have n: "\<not> isConnected s'" by (simp add: isConnected_def)
  then show ?thesis using h by (simp add: connectToSRx_def reconnectWithSRx_def reconnectSRX_def verifyUpdate_def)
qed

section \<open>Calls that do not return\<close>

text \<open>A connection that was lost during the handshake: nothing can be received any more.\<close>

definition px_dead :: "'u SRxProxy \<Rightarrow> bool" where
  "px_dead s \<longleftrightarrow> (\<exists>h. connHandler s = Some h \<and> clientFD (ch_sock h) = -1 \<and> \<not> ch_established h)"

lemma dead_round:
  assumes "px_dead s" "unlimited (px_mem env)"
  obtains s' where "processPackets env (resetProxyError s) = Some (Inr (False, s'))" "px_dead s'" "\<not> isErrorCode (lastCode s')"
proof -
  obtain h where h: "connHandler s = Some h" "clientFD (ch_sock h) = -1" "\<not> ch_established h" using assms(1) by (auto simp: px_dead_def)
  obtain g where "px_mem env 12 = Some g" using assms(2) by (rule unlimitedE)
  then have "processPackets env (resetProxyError s) =
      Some (Inr (False, (resetProxyError s)\<lparr>connHandler := Some (h\<lparr>ch_sock := (ch_sock h)\<lparr>clientFD := -1\<rparr>\<rparr>), px_wire := px_wire s\<rparr>))"
    using h by (simp add: processPackets_def resetProxyError_def new_buffer_def receive_packet_def store_bytes_def recvNum_def)
  then show thesis using h(3) by (intro that) (auto simp: px_dead_def resetProxyError_def isErrorCode_def)
qed

lemma dead_not_connected: "px_dead s \<Longrightarrow> \<not> isConnected s"
  by (auto simp: px_dead_def isConnected_def)

lemma handshake_spins:
  assumes "handshake_loop env al s = Some r"
  shows "al = None \<longrightarrow> unlimited (px_mem env) \<longrightarrow> px_dead s \<longrightarrow> False"
proof (rule handshake_loop.raw_induct [where P = "\<lambda>env al s r. al = None \<longrightarrow> unlimited (px_mem env) \<longrightarrow> px_dead s \<longrightarrow> False", OF _ assms], intro impI)
  fix loop env al r and s :: "'a SRxProxy"
  assume IH: "\<And>env al (s :: 'a SRxProxy) r. loop env al s = Some r \<Longrightarrow> al = None \<longrightarrow> unlimited (px_mem env) \<longrightarrow> px_dead s \<longrightarrow> False"
    and body: "(if isConnected s then Some (Inr s) else if al = Some 0 then Some (Inr (timed_out s))
      else case processPackets env (resetProxyError s) of
          None \<Rightarrow> if al = None then None else Some (Inr (timed_out s))
        | Some r \<Rightarrow> (case r of
              Inl f \<Rightarrow> Some (Inl f)
            | Inr p \<Rightarrow> if isErrorCode (lastCode (snd p)) then Some (Inr (snd p))
                       else loop env (map_option (\<lambda>k. k - 1) al) (snd p))) = Some r"
    and a: "al = None" "unlimited (px_mem env)" "px_dead s"
  obtain s' where s': "processPackets env (resetProxyError s) = Some (Inr (False, s'))" "px_dead s'" "\<not> isErrorCode (lastCode s')" by (rule dead_round [OF a(3,2)])
  then have "loop env None s' = Some r" using body a(1) dead_not_connected [OF a(3)] by simp
  from IH [OF this] show False using a(2) s'(2) by blast
qed

lemma handshake_times_out:
  assumes "px_dead s" "unlimited (px_mem env)"
  shows "\<exists>s'. handshake_loop env (Some k) s = Some (Inr s') \<and> px_dead s'"
  using assms(1)
proof (induction k arbitrary: s)
  case 0
  then have "handshake_loop env (Some 0) s = Some (Inr (timed_out s))" using dead_not_connected [of s] by (subst handshake_loop.simps) simp
  moreover have "px_dead (timed_out s)" using 0 by (auto simp: px_dead_def timed_out_def resetProxyError_def on_handler_def)
  ultimately show ?case by blast
next
  case (Suc k)
  obtain s' where s': "processPackets env (resetProxyError s) = Some (Inr (False, s'))" "px_dead s'" "\<not> isErrorCode (lastCode s')" by (rule dead_round [OF Suc.prems assms(2)])
  then have "handshake_loop env (Some (Suc k)) s = handshake_loop env (Some k) s'" using dead_not_connected [OF Suc.prems] by (subst handshake_loop.simps) simp
  then show ?case using Suc.IH [OF s'(2)] by simp
qed

text \<open>The end of the stream before an answer makes the connection dead after one round.\<close>

lemma lost_round:
  assumes "connHandler s = Some h" "clientFD (ch_sock h) \<noteq> -1" "\<not> ch_established h" "unlimited (px_mem env)" "rxq (px_wire s) = z # zs" "z = RxData [] \<or> z = RxError"
  obtains s' b where "processPackets env (resetProxyError s) = Some (Inr (b, s'))" "px_dead s'" "\<not> isErrorCode (lastCode s')"
proof -
  obtain g where g: "px_mem env 12 = Some g" using assms(4) by (rule unlimitedE)
  have "buffer_ok (map g [0..<12], 0)" by (simp add: buffer_ok_def)
  then obtain b' where "receive_packet (px_mem env) (clientFD (ch_sock h)) (px_wire s) (map g [0..<12], 0) = Some (Inr (RcvLost, -1, (px_wire s)\<lparr>rxq := zs\<rparr>, b'))"
    using receive_packet_lost [OF assms(5,6,2)] by blast
  then have "processPackets env (resetProxyError s) =
      Some (Inr (False, (resetProxyError s)\<lparr>connHandler := Some (h\<lparr>ch_sock := (ch_sock h)\<lparr>clientFD := -1\<rparr>\<rparr>), px_wire := (px_wire s)\<lparr>rxq := zs\<rparr>\<rparr>))"
    using assms(1) g by (simp add: processPackets_def resetProxyError_def new_buffer_def)
  then show thesis using assms(3) by (intro that) (auto simp: px_dead_def resetProxyError_def isErrorCode_def)
qed

text \<open>C36. A handshake that never ends. When the hello can be sent and the server closes the connection before it answers it, the loop of the handshake reads again and again from the closed
  socket: without a timeout \<open>handshakeWithServer\<close> never returns. With a timeout it spins until the alarm and fails.\<close>

theorem handshake_never_ends:
  assumes h: "connHandler s = Some h" "clientFD (ch_sock h) \<noteq> -1" "\<not> ch_established h" "TxError \<notin> set (txq (px_wire s))" "2 \<le> length pdu"
    and lost: "rxq (px_wire s) = z # zs" "z = RxData [] \<or> z = RxError" and mem: "unlimited (px_mem env)"
  shows "(handshake_timeout h = 0 \<longrightarrow> handshakeWithServer env pdu s = None) \<and>
    (handshake_timeout h \<noteq> 0 \<longrightarrow> (\<exists>s'. handshakeWithServer env pdu s = Some (Inr (False, s'))))"
proof -
  obtain ts e where ts: "px_send env pdu s = Inr (True, s\<lparr>px_wire := (px_wire s)\<lparr>txq := ts, txd := txd (px_wire s) @ pdu\<rparr>, sockSendError := e\<rparr>)"
    by (rule px_send_ok [OF h(1,2,4,5), of env])
  define t where "t = s\<lparr>px_wire := (px_wire s)\<lparr>txq := ts, txd := txd (px_wire s) @ pdu\<rparr>, sockSendError := e\<rparr>"
  have t: "connHandler t = Some h" "rxq (px_wire t) = z # zs" "\<not> isConnected t" using h(1,3) lost(1) by (simp_all add: t_def isConnected_def)
  obtain s' b where s': "processPackets env (resetProxyError t) = Some (Inr (b, s'))" "px_dead s'" "\<not> isErrorCode (lastCode s')"
    by (rule lost_round [OF t(1) h(2,3) mem t(2) lost(2)])
  have loop: "handshake_loop env al t = handshake_loop env (map_option (\<lambda>k. k - 1) al) s'" if "al \<noteq> Some 0" for al
    using that s'(1,3) t(3) by (subst handshake_loop.simps) simp
  have "handshake_loop env None t = None" using loop [of None] handshake_spins [of env None s'] s'(2) mem by (cases "handshake_loop env None s'") auto
  moreover have "\<exists>u g. handshake_loop env (Some k) t = Some (Inr u) \<and> connHandler u = Some g \<and> \<not> ch_established g" for k
  proof (cases k)
    case 0
    then have "handshake_loop env (Some k) t = Some (Inr (timed_out t))" using t(3) by (subst handshake_loop.simps) simp
    then show ?thesis by (auto simp: timed_out_def resetProxyError_def on_handler_def t(1))
  next
    case (Suc j)
    then show ?thesis using loop [of "Some k"] handshake_times_out [OF s'(2) mem, of j] by (auto simp: px_dead_def)
  qed
  then obtain u g where "handshake_loop env (Some (alarm_round env)) t = Some (Inr u)" "connHandler u = Some g" "\<not> ch_established g" by blast
  ultimately show ?thesis using ts handler_simps(1) [OF t(1)] by (auto simp: handshakeWithServer_def t_def [symmetric])
qed

text \<open>The socket is closed, the proxy counts as connected, and the send queue is full; the last packet was sent without an error.\<close>

definition queue_full :: "'u SRxProxy \<Rightarrow> bool" where
  "queue_full s \<longleftrightarrow> (\<exists>h. connHandler s = Some h \<and> clientFD (ch_sock h) = -1 \<and> ch_established h \<and> length (sendQueue h) = MAX_SEND_QUEUE \<and>
     queueLock h = Unlocked) \<and> sockSendError s = 0"

lemma queue_full_round:
  assumes "queue_full s"
  shows "\<exists>s'. sendPacketToServer env b s = Inr (False, s') \<and> queue_full s'"
  using assms by (auto simp: queue_full_def sendPacketToServer_def isConnectedToServer_def)

lemma send_attempts_spins:
  assumes "send_attempts env m a b s = Some r"
  shows "queue_full s \<longrightarrow> False"
proof (rule send_attempts.raw_induct [where P = "\<lambda>env m a b s r. queue_full s \<longrightarrow> False", OF _ assms], intro impI)
  fix loop env m a b r and s :: "'a SRxProxy"
  assume IH: "\<And>env m a b (s :: 'a SRxProxy) r. loop env m a b s = Some r \<Longrightarrow> queue_full s \<longrightarrow> False"
    and body: "tbind (Some (sendPacketToServer env b s)) (\<lambda>r.
       if fst r then Some (Inr (a + 1, 0, count_success (snd r)))
       else if sockSendError (snd r) = 0 \<or> sockSendError (snd r) = EAGAIN \<and> a + 1 < m then loop env m (a + 1) b (snd r)
       else Some (Inr (a + 1, sockSendError (snd r), snd r))) = Some r"
    and full: "queue_full s"
  obtain s' where s': "sendPacketToServer env b s = Inr (False, s')" "queue_full s'" using queue_full_round [OF full] by blast
  then have "loop env m (a + 1) b s' = Some r" using body by (simp add: queue_full_def)
  from IH [OF this] s'(2) show False by blast
qed

text \<open>C37. A request that never returns. While the socket is closed and the proxy still counts as connected, requests are put into the send queue, which is never emptied. When it
  has 100000 packets, and the last \<open>send\<close> before was without an error, the next \<open>verifyUpdate\<close> with a well-formed IPv4 request tries to send forever: the failure of the queue leaves
  no error code, which the loop takes for a reason to try again, without a limit and without a pause.\<close>

theorem verifyUpdate_never_returns:
  assumes "queue_full s" "isConnected s" "version (ip pfx) = 4" "4 \<le> length (addr (ip pfx))" "bgpsec_fits d" "\<forall>n. n \<le> reserved env n"
  shows "verifyUpdate env localID roa sec aspa dflt pfx as32 (Some d) pl s = None"
proof -
  let ?n = "60 + bgpsec_size (Some d)"
  have "unat (of_nat (bgpsec_size (Some d)) :: u16) = bgpsec_size (Some d)" using assms(5) by (simp add: unat_of_nat bgpsec_fits_def)
  moreover have "createV4Request env ?n m t dflt pfx as32 (Some d) pl = Inr (v4_header m t dflt pfx as32 d pl @ bgpsec_payload d)" for m t
    using assms(6) by (intro createV4Request_bytes [OF assms(5,4) refl]) blast
  moreover have "send_attempts env m a b s = None" for m a b using send_attempts_spins [of env m a b s] assms(1) by (cases "send_attempts env m a b s") auto
  ultimately show ?thesis using assms(2,3) by (simp add: verifyUpdate_def Let_def)
qed

section \<open>Examples\<close>

definition new_px :: "con \<Rightarrow> nat SRxProxy" where
  "new_px c = sample_px\<lparr>connHandler := Some createClientConnectionHandler, px_wire := sample_wire\<lparr>attempts := [(5, c)]\<rparr>\<rparr>"

lemma new_px_simps [simp]:
  "px_fresh sample_penv (new_px c)" "attempts (px_wire (new_px c)) = [(5, c)]" "txq (px_wire (new_px c)) = []" "peers (new_px c) = [(1, 65002), (2, 65003)]"
  by (simp_all add: new_px_def px_fresh_def sample_penv_def sample_wire_def sample_px_def)

text \<open>A proxy with the peers 65002 and 65003: only the first one is sent.\<close>

theorem connectToSRx_handshake_witness:
  "\<exists>s'. connectToSRx sample_penv 30 False (new_px (ConOk [RxData (msg_bytes (HelloResponse (htons 3) 7))])) = Some (Inr (True, s')) \<and> isConnected s' \<and>
    drop 24 (txd (px_wire s')) = enc32 65002"
proof -
  let ?x = "[RxData (msg_bytes (HelloResponse (htons 3) 7))]"
  let ?s = "new_px (ConOk ?x)"
  have "px_online s' \<Longrightarrow> isConnected s'" for s' :: "nat SRxProxy" by (simp add: px_online_def)
  moreover have "txd (px_wire ?s) = []" by (simp add: new_px_def sample_wire_def)
  moreover have "chunks ?x" "content ?x = msg_bytes (HelloResponse (htons SRX_PROTOCOL_VER) 7) @ []" by simp_all
  moreover have "0 < alarm_round sample_penv" by (simp add: sample_penv_def)
  ultimately show ?thesis
    using connectToSRx_handshake [of sample_penv ?s 5 ?x "[]" "[]" 30 7 "[]" False] by auto
qed

theorem connectToSRx_overruns_witness:
  "connectToSRx (sample_penv\<lparr>reserved := (\<lambda>n. n)\<rparr>) 30 False (new_px (ConOk [])) = Some (Inl BufferOverflow)"
  by (rule connectToSRx_overruns [of _ _ 5 "[]" "[]"]) (simp_all add: new_px_def px_fresh_def sample_penv_def sample_wire_def sample_px_def)

text \<open>A proxy that is disconnected and tries to connect to a server that is there.\<close>

theorem disconnect_is_final_witness:
  "\<exists>s'. disconnectFromSRx sample_penv 900 sample_px = Inr s' \<and>
    connectToSRx sample_penv 30 False (s'\<lparr>px_wire := sample_wire\<lparr>attempts := [(5, ConOk [])]\<rparr>\<rparr>) = Some (Inr (False, s'\<lparr>px_wire := sample_wire\<lparr>attempts := [(5, ConOk [])]\<rparr>\<rparr>))"
proof -
  obtain s' where s': "disconnectFromSRx sample_penv 900 sample_px = Inr s'"
    by (simp add: disconnectFromSRx_def px_sendGoodbye_def releaseClientConnectionHandler_def px_send_def sendData_def sendNum_def handler_def on_handler_def
      sample_px_def sample_wire_def createClientConnectionHandler_def isConnectedToServer_def isConnected_def Let_def split: prod.splits)
  then show ?thesis using disconnect_is_final [OF sample_px_simps(2), of sample_penv 900 s' "[]"] by blast
qed

text \<open>The server closes the connection after the hello.\<close>

definition closed_px :: "u32 \<Rightarrow> nat SRxProxy" where
  "closed_px tmo = opened tmo 5 [RxData []] [] sample_px"

theorem handshake_never_ends_witness:
  "handshakeWithServer sample_penv [0, 0] (closed_px 0) = None \<and> (\<exists>s'. handshakeWithServer sample_penv [0, 0] (closed_px 30) = Some (Inr (False, s')))"
proof -
  obtain h k where h: "connHandler (closed_px 0) = Some h" "clientFD (ch_sock h) \<noteq> -1" "\<not> ch_established h" "handshake_timeout h = 0"
    and k: "connHandler (closed_px 30) = Some k" "clientFD (ch_sock k) \<noteq> -1" "\<not> ch_established k" "handshake_timeout k = 30"
    by (simp add: closed_px_def opened_def createClientConnectionHandler_def)
  have s: "TxError \<notin> set (txq (px_wire (closed_px t)))" "rxq (px_wire (closed_px t)) = RxData [] # []" for t
    by (simp_all add: closed_px_def opened_def sample_px_def sample_wire_def)
  have two: "2 \<le> length [0, 0 :: u8]" and z: "RxData [] = RxData [] \<or> RxData [] = RxError" by simp_all
  show ?thesis
    using handshake_never_ends [OF h(1-3) s(1) two s(2) z sample_px_simps(3)] handshake_never_ends [OF k(1-3) s(1) two s(2) z sample_px_simps(3)] h(4) k(4) by simp
qed

definition full_px :: "nat SRxProxy" where
  "full_px = on_handler (\<lambda>h. h\<lparr>ch_sock := (ch_sock h)\<lparr>clientFD := -1\<rparr>, sendQueue := replicate 100000 None\<rparr>) sample_px"

theorem verifyUpdate_never_returns_witness:
  "verifyUpdate sample_penv 9 True False True sample_dflt (sample_pfx 4) 65001 (Some (sample_hops [1, 2])) \<lparr>spl_asType = 2, spl_asRelationship = 1\<rparr> full_px = None"
proof (rule verifyUpdate_never_returns [OF _ _ _ _ sample_hops_fits(1) sample_px_simps(4)])
  show "queue_full full_px" "isConnected full_px" by (simp_all add: full_px_def queue_full_def isConnected_def on_handler_def sample_px_def createClientConnectionHandler_def)
qed (simp_all add: sample_pfx_def)

end
