(* ===== verification/Router_Receipt.thy ===== *)
theory Router_Receipt
  imports Proxy_Session
begin

text \<open>
  A request on its way through both programs: from the call of the router through the library to the server, where the update is stored and
  the validation queued, and back to the callback of the router.
\<close>

lemma request_method_bits:
  "bit (request_method roa sec aspa localID) 0 = roa" "bit (request_method roa sec aspa localID) 1 = sec" "bit (request_method roa sec aspa localID) 2 = aspa"
  "bit (request_method roa sec aspa localID) 7 \<longleftrightarrow> localID \<noteq> 0"
  by (cases roa; cases sec; cases aspa; simp add: request_method_def bit_simps)+

lemma receipt_bits:
  "bit (receipt_flags r) 7" "bit (receipt_flags r) 0 = bit (vr_flags r) 0" "bit (receipt_flags r) 1 = bit (vr_flags r) 1" "bit (receipt_flags r) 2 = bit (vr_flags r) 2"
  "receipt_flags r AND 7 = vr_flags r AND 7"
proof -
  show "receipt_flags r AND 7 = vr_flags r AND 7" using answer_flags_validation [of "vr_flags r"] by (simp add: receipt_flags_def)
qed (simp_all add: receipt_flags_def bit_simps)

section \<open>A turn of the server\<close>

text \<open>What the threads of the server do with the packets of one connection, one after the other: the thread of the connection receives them, the thread of the receiver queue,
  if the server has one, does a round, and the thread of the send queue, unless the server runs without it, does a round. By default the server has both queues.\<close>

definition server_turn ::
  "'t uthash \<Rightarrow> request_env \<Rightarrow> allocator \<Rightarrow> addr \<Rightarrow> addr \<Rightarrow> int \<Rightarrow> wire \<Rightarrow> ('p, 't) ConnectionHandler \<Rightarrow> (int \<times> wire \<times> ('p, 't) ConnectionHandler) cres option" where
  "server_turn T env mem sock client fd w self =
     tbind (single_receive T env mem sock client fd w self) (\<lambda>(res, w, self).
     tbind (if receiverQueue self = None then Some (Inr ((), self)) else receiver_step T env self) (\<lambda>(_, self).
       if mode_no_sendqueue env then Some (Inr (res, w, self))
       else tbind (sendQueue_step (net (base env)) (sender (server self))) (\<lambda>sd. Some (Inr (res, w, self\<lparr>server := (server self)\<lparr>sender := sd\<rparr>\<rparr>)))))"

text \<open>No packet waits in the queues that the server uses, and the receiver queue is in order and has free memory.\<close>

definition queues_idle :: "request_env \<Rightarrow> ('p, 't) ConnectionHandler \<Rightarrow> bool" where
  "queues_idle env self \<longleftrightarrow>
     (case receiverQueue self of None \<Rightarrow> True | Some q \<Rightarrow> pq_items q = [] \<and> rq_data_ok env \<and> queue_ready (rq_elem env) (Some q)) \<and>
     (mode_no_sendqueue env \<or> outbox (sender (server self)) = [])"

lemma new_request_receiverQueue:
  "new_request T env r sock client (self\<lparr>receiverQueue := q\<rparr>) t uc uid pid \<longleftrightarrow> new_request T env r sock client self t uc uid pid"
  by (simp add: new_request_def cong: option.case_cong)

text \<open>The update is stored, its validation queued, and the receipt is the next packet of the server.\<close>

definition request_stored ::
  "'t uthash \<Rightarrow> request_env \<Rightarrow> VerifyRequest \<Rightarrow> addr \<Rightarrow> addr \<Rightarrow> ('p, 't) ConnectionHandler \<Rightarrow> ClientThread \<Rightarrow> 't UpdateCache \<Rightarrow> u32 \<Rightarrow> ('p, 't) ConnectionHandler \<Rightarrow> bool" where
  "request_stored T env r sock client self t uc uid self' \<longleftrightarrow>
     (\<exists>uc' e. updateCache (pcache (server self')) = Some uc' \<and> uc_entry T uc' = (uc_entry T uc)(uid \<mapsto> e) \<and> entry_clients e = [routerID t]) \<and>
     cq_pending (cmdQueue self') = cq_pending (cmdQueue self) @ [validation_command r sock client uid]"

lemma request_processed:
  assumes T: "uthash_laws T" and new: "new_request T env r sock client self t uc uid pid" and t: "initialized t" and len: "\<not> len < 12"
    and rc: "bit (vr_flags r) 7" and nt: "net (base env) client"
  obtains self' where "handlePacket_now T env sock client (VerifyPDU r) len self = Some (Inr ((), self'))"
    "request_stored T env r sock client self t uc uid self'" "receiverQueue self' = receiverQueue self"
    "sent (sender (server self')) = sent (sender (server self)) @ (if mode_no_sendqueue env then [(client, receipt r uid)] else [])"
    "outbox (sender (server self')) = outbox (sender (server self)) @ (if mode_no_sendqueue env then [] else [(sock, client, receipt r uid)])"
    "\<not> mode_no_sendqueue env \<longrightarrow> (\<exists>p. SEND_QUEUE (sender (server self')) = Some p \<and> pq_ok p)"
proof -
  have thr: "threads (server self) client = Some t" using new by (simp add: new_request_def)
  obtain self' uc' e where ok: "processValidationRequest T env sock client r self = Some (Inr (True, self'))"
    and uc': "pcache (server self') = (pcache (server self))\<lparr>updateCache := Some uc'\<rparr>" "uc_entry T uc' = (uc_entry T uc)(uid \<mapsto> e)" "entry_clients e = [routerID t]"
    and q: "cq_pending (cmdQueue self') = cq_pending (cmdQueue self) @ [validation_command r sock client uid]" "receiverQueue self' = receiverQueue self"
      "sent (sender (server self')) = sent (sender (server self)) @ (if mode_no_sendqueue env then [(client, receipt r uid)] else [])"
      "outbox (sender (server self')) = outbox (sender (server self)) @ (if mode_no_sendqueue env then [] else [(sock, client, receipt r uid)])"
      "\<not> mode_no_sendqueue env \<longrightarrow> (\<exists>p. SEND_QUEUE (sender (server self')) = Some p \<and> pq_ok p)"
    using processValidationRequest_ok [OF T new] rc nt by (cases "mode_no_sendqueue env") auto
  have "handlePacket_now T env sock client (VerifyPDU r) len self = Some (Inr ((), self'))"
    using ok thr t len by (simp add: handlePacket_now_def thread_at_def or_refuse_def)
  moreover have "request_stored T env r sock client self t uc uid self'" using uc' q(1) by (auto simp: request_stored_def)
  ultimately show thesis using q(2-5) that by blast
qed

text \<open>The packet goes through the receiver queue, if there is one.\<close>

lemma request_received:
  assumes T: "uthash_laws T" and new: "new_request T env r sock client self t uc uid pid" and t: "initialized t" and len: "\<not> len < 12"
    and rc: "bit (vr_flags r) 7" and nt: "net (base env) client" and idle: "queues_idle env self"
  obtains self1 self' where "handlePacket T env sock client (VerifyPDU r) len self = Some (Inr ((), self1))"
    "(if receiverQueue self1 = None then Some (Inr ((), self1)) else receiver_step T env self1) = Some (Inr ((), self'))"
    "request_stored T env r sock client self t uc uid self'"
    "sent (sender (server self')) = sent (sender (server self)) @ (if mode_no_sendqueue env then [(client, receipt r uid)] else [])"
    "outbox (sender (server self')) = outbox (sender (server self)) @ (if mode_no_sendqueue env then [] else [(sock, client, receipt r uid)])"
    "\<not> mode_no_sendqueue env \<longrightarrow> (\<exists>p. SEND_QUEUE (sender (server self')) = Some p \<and> pq_ok p)"
proof (cases "receiverQueue self")
  case None
  obtain self' where self': "handlePacket_now T env sock client (VerifyPDU r) len self = Some (Inr ((), self'))"
    "request_stored T env r sock client self t uc uid self'" "receiverQueue self' = receiverQueue self"
    "sent (sender (server self')) = sent (sender (server self)) @ (if mode_no_sendqueue env then [(client, receipt r uid)] else [])"
    "outbox (sender (server self')) = outbox (sender (server self)) @ (if mode_no_sendqueue env then [] else [(sock, client, receipt r uid)])"
    "\<not> mode_no_sendqueue env \<longrightarrow> (\<exists>p. SEND_QUEUE (sender (server self')) = Some p \<and> pq_ok p)"
    by (rule request_processed [OF T new t len rc nt])
  then show thesis by (intro that [of self' self']) (simp_all add: handlePacket_def None)
next
  case (Some q)
  then have ready: "queue_ready (rq_elem env) (Some q)" and q: "pq_items q = []" and d: "rq_data_ok env" using idle by (simp_all add: queues_idle_def)
  obtain p q1 where "Some q = Some p" "pq_add (rq_elem env) True (Some q) (sock, client, VerifyPDU r, len) = Inr (True, Some q1)" "pq_ok q1"
    "pq_items q1 = pq_items p @ [(sock, client, VerifyPDU r, len)]" by (rule queue_ready_add [OF ready])
  then have q1: "pq_add (rq_elem env) True (Some q) (sock, client, VerifyPDU r, len) = Inr (True, Some q1)" "pq_ok q1"
    "pq_items q1 = [(sock, client, VerifyPDU r, len)]" using q by simp_all
  obtain q2 where q2: "pq_fetch (Some q1) = Some (Inr (Some (sock, client, VerifyPDU r, len), Some q2))" using queue_fetch [OF q1(2,3)] by blast
  have "handlePacket T env sock client (VerifyPDU r) len self = Some (Inr ((), self\<lparr>receiverQueue := Some q1\<rparr>))"
    using Some q1(1) d by (simp add: handlePacket_def addToSCHReceiverQueue_def)
  moreover have "receiver_step T env (self\<lparr>receiverQueue := Some q1\<rparr>) = handlePacket_now T env sock client (VerifyPDU r) len (self\<lparr>receiverQueue := Some q2\<rparr>)"
    using q2 by (simp add: receiver_step_def fetchSCHReceiverPacket_def)
  moreover obtain self' where self': "handlePacket_now T env sock client (VerifyPDU r) len (self\<lparr>receiverQueue := Some q2\<rparr>) = Some (Inr ((), self'))"
    "request_stored T env r sock client (self\<lparr>receiverQueue := Some q2\<rparr>) t uc uid self'" "receiverQueue self' = receiverQueue (self\<lparr>receiverQueue := Some q2\<rparr>)"
    "sent (sender (server self')) = sent (sender (server (self\<lparr>receiverQueue := Some q2\<rparr>))) @ (if mode_no_sendqueue env then [(client, receipt r uid)] else [])"
    "outbox (sender (server self')) = outbox (sender (server (self\<lparr>receiverQueue := Some q2\<rparr>))) @ (if mode_no_sendqueue env then [] else [(sock, client, receipt r uid)])"
    "\<not> mode_no_sendqueue env \<longrightarrow> (\<exists>p. SEND_QUEUE (sender (server self')) = Some p \<and> pq_ok p)"
    by (rule request_processed [OF T iffD2 [OF new_request_receiverQueue new, of "Some q2"] t len rc nt])
  ultimately show thesis
    by (intro that [of "self\<lparr>receiverQueue := Some q1\<rparr>" self']) (simp_all add: request_stored_def)
qed

lemma server_turn_answers:
  assumes T: "uthash_laws T" and new: "new_request T env r sock client self t uc uid pid" and t: "initialized t" and len: "\<not> len < 12"
    and rc: "bit (vr_flags r) 7" and nt: "net (base env) client" and idle: "queues_idle env self"
  obtains self' where "request_stored T env r sock client self t uc uid self'" "sent (sender (server self')) = sent (sender (server self)) @ [(client, receipt r uid)]"
    "\<forall>mem fd w w'. single_receive T env mem sock client fd w self =
        tbind (handlePacket T env sock client (VerifyPDU r) len self) (\<lambda>(_, self). Some (Inr (-1, w', self))) \<longrightarrow>
      server_turn T env mem sock client fd w self = Some (Inr (-1, w', self'))"
proof -
  obtain self1 self2 where s: "handlePacket T env sock client (VerifyPDU r) len self = Some (Inr ((), self1))"
    "(if receiverQueue self1 = None then Some (Inr ((), self1)) else receiver_step T env self1) = Some (Inr ((), self2))"
    "request_stored T env r sock client self t uc uid self2"
    "sent (sender (server self2)) = sent (sender (server self)) @ (if mode_no_sendqueue env then [(client, receipt r uid)] else [])"
    "outbox (sender (server self2)) = outbox (sender (server self)) @ (if mode_no_sendqueue env then [] else [(sock, client, receipt r uid)])"
    "\<not> mode_no_sendqueue env \<longrightarrow> (\<exists>p. SEND_QUEUE (sender (server self2)) = Some p \<and> pq_ok p)"
    by (rule request_received [OF T new t len rc nt idle])
  show thesis
  proof (cases "mode_no_sendqueue env")
    case True
    then show thesis using s by (intro that [of self2]) (simp_all add: server_turn_def)
  next
    case False
    then have out: "outbox (sender (server self2)) = [(sock, client, receipt r uid)]" using s(5) idle by (simp add: queues_idle_def)
    obtain p where p: "SEND_QUEUE (sender (server self2)) = Some p" "pq_ok p" using s(6) False by blast
    obtain sd where "sendQueue_step (net (base env)) (sender (server self2)) = Some (Inr sd)"
      "sent sd = sent (sender (server self2)) @ (if net (base env) client then [(client, receipt r uid)] else [])" "outbox sd = []"
      by (rule sendQueue_step_sends [OF p out])
    then have sd: "sendQueue_step (net (base env)) (sender (server self2)) = Some (Inr sd)" "sent sd = sent (sender (server self2)) @ [(client, receipt r uid)]"
      using nt by simp_all
    define self' where "self' = self2\<lparr>server := (server self2)\<lparr>sender := sd\<rparr>\<rparr>"
    have "request_stored T env r sock client self t uc uid self'" "sent (sender (server self')) = sent (sender (server self)) @ [(client, receipt r uid)]"
      using s(3,4) sd(2) False by (simp_all add: request_stored_def self'_def)
    then show thesis using that [of self'] s(1,2) sd(1) False by (simp add: server_turn_def self'_def)
  qed
qed

section \<open>Properties\<close>

text \<open>C6. From the router to the server and back. A router with a connected proxy and a callback for results asks with \<open>verifyUpdate\<close> and a local identifier for the validation of an
  update with an IPv4 prefix, whose path data fits a packet. The server is in the situation \<open>new_request\<close> for this request, of a client that did the handshake and can be reached; the server may use a receiver queue and a send
  queue, its default, or run without either one, but no packet waits in the queues that it uses; memory, and room on the stack for the text of the update, are available. Then the bytes that the library sends,
  in whatever pieces they arrive, make a turn of the server store the update, append exactly one command for its validation to the command queue, and send exactly one packet, to this client.
  When that packet arrives at the proxy, in whatever pieces, one call of \<open>processPackets\<close> calls the router back, with the identifier that the server gave to the update, the local identifier
  of the call, the flags of the validations that were asked for, and for each of them the default result that the router had passed.\<close>

theorem router_gets_receipt:
  fixes self :: "('p, 't) ConnectionHandler"
  assumes on: "px_online s" "resCallback s = Some f" and pfx: "version (ip pfx) = 4" "length (addr (ip pfx)) = 16" and d: "bgpsec_fits d"
    and env: "\<forall>n. n \<le> reserved env n" "unlimited (px_mem env)" and id: "localID \<noteq> 0"
    and r: "r = v4_request (request_method roa sec aspa localID) localID dflt pfx as32 d pl"
    and T: "uthash_laws T" and new: "new_request T renv r sock client self t uc uid pid" and srv: "initialized t" "queues_idle renv self" "net (base renv) client"
  shows "\<exists>s' b self' msg. verifyUpdate env localID roa sec aspa dflt pfx as32 (Some d) pl s = Some (Inr s') \<and> txd (px_wire s') = txd (px_wire s) @ b \<and> b \<noteq> [] \<and>
    (\<forall>mem fd w xs z zs. fd \<noteq> -1 \<and> unlimited mem \<and> rxq w = xs @ z # zs \<and> chunks xs \<and> content xs = b \<and> (z = RxData [] \<or> z = RxError) \<longrightarrow>
       server_turn T renv mem sock client fd w self = Some (Inr (-1, w\<lparr>rxq := zs\<rparr>, self'))) \<and>
    (\<exists>uc' e. updateCache (pcache (server self')) = Some uc' \<and> uc_entry T uc' = (uc_entry T uc)(uid \<mapsto> e) \<and> entry_clients e = [routerID t]) \<and>
    cq_pending (cmdQueue self') = cq_pending (cmdQueue self) @ [validation_command r sock client uid] \<and>
    sent (sender (server self')) = sent (sender (server self)) @ [(client, msg)] \<and> msg_bytes msg \<noteq> [] \<and>
    (\<forall>xs zs rest. chunks xs \<and> content xs = msg_bytes msg @ rest \<longrightarrow>
       (\<exists>ys. processPackets env (s'\<lparr>px_wire := (px_wire s')\<lparr>rxq := xs @ zs\<rparr>\<rparr>) =
          Some (Inr (True, s'\<lparr>px_wire := (px_wire s')\<lparr>rxq := ys @ zs\<rparr>, router := f uid localID (request_method roa sec aspa localID AND 7)
            (if roa then roaResult (defResult dflt) else SRx_RESULT_UNDEFINED) (if sec then bgpsecResult (defResult dflt) else SRx_RESULT_UNDEFINED)
            (if aspa then aspaResult (defResult dflt) else SRx_RESULT_UNDEFINED) (router s)\<rparr>)) \<and> chunks ys \<and> content ys = rest))"
proof -
  let ?m = "request_method roa sec aspa localID"
  obtain s' b where s': "verifyUpdate env localID roa sec aspa dflt pfx as32 (Some d) pl s = Some (Inr s')" "txd (px_wire s') = txd (px_wire s) @ b" "b \<noteq> []"
    "px_online s'" "router s' = router s" "resCallback s' = resCallback s" and b: "srx_framed b" "\<And>pad. read_pdu (b @ pad) = Inr (VerifyPDU r)"
    unfolding r using v4_request_sent [OF on(1) pfx d env(1), of localID roa sec aspa dflt as32 pl] by metis
  have fl: "vr_flags r = ?m" "roaDefRes r = roaResult (defResult dflt)" "bgpsecDefRes r = bgpsecResult (defResult dflt)" "aspaDefRes r = aspaResult (defResult dflt)"
    "ntohl (requestToken r) = localID" by (simp_all add: r v4_request_def)
  have rc: "bit (vr_flags r) 7" using id by (simp add: fl(1) request_method_bits)
  have len: "\<not> (of_nat (length b) :: u32) < 12" using b(1) by (simp add: srx_framed_def word_less_nat_alt unat_of_nat)
  obtain self' where stored: "request_stored T renv r sock client self t uc uid self'"
    and q: "sent (sender (server self')) = sent (sender (server self)) @ [(client, receipt r uid)]"
    and turn: "\<forall>mem fd w w'. single_receive T renv mem sock client fd w self =
        tbind (handlePacket T renv sock client (VerifyPDU r) (of_nat (length b)) self) (\<lambda>(_, self). Some (Inr (-1, w', self))) \<longrightarrow>
      server_turn T renv mem sock client fd w self = Some (Inr (-1, w', self'))"
    by (rule server_turn_answers [OF T new srv(1) len rc srv(3,2)])
  have server: "server_turn T renv mem sock client fd w self = Some (Inr (-1, w\<lparr>rxq := zs\<rparr>, self'))"
    if "fd \<noteq> -1 \<and> unlimited mem \<and> rxq w = xs @ z # zs \<and> chunks xs \<and> content xs = b \<and> (z = RxData [] \<or> z = RxError)" for mem fd w xs z zs
    using that by (intro turn [rule_format], elim conjE) (rule single_packet_received [OF b])
  have tell: "tell_router f (receipt_flags r) localID (roaDefRes r) (bgpsecDefRes r) (aspaDefRes r) uid = f uid localID (?m AND 7)
      (if roa then roaResult (defResult dflt) else SRx_RESULT_UNDEFINED) (if sec then bgpsecResult (defResult dflt) else SRx_RESULT_UNDEFINED)
      (if aspa then aspaResult (defResult dflt) else SRx_RESULT_UNDEFINED)"
    by (simp only: tell_router_def receipt_bits fl request_method_bits if_True)
  have router: "\<exists>ys. processPackets env (s'\<lparr>px_wire := (px_wire s')\<lparr>rxq := xs @ zs\<rparr>\<rparr>) =
      Some (Inr (True, s'\<lparr>px_wire := (px_wire s')\<lparr>rxq := ys @ zs\<rparr>, router := f uid localID (?m AND 7)
        (if roa then roaResult (defResult dflt) else SRx_RESULT_UNDEFINED) (if sec then bgpsecResult (defResult dflt) else SRx_RESULT_UNDEFINED)
        (if aspa then aspaResult (defResult dflt) else SRx_RESULT_UNDEFINED) (router s)\<rparr>)) \<and> chunks ys \<and> content ys = rest"
    if "chunks xs \<and> content xs = msg_bytes (receipt r uid) @ rest" for xs zs rest
  proof -
    let ?s = "s'\<lparr>px_wire := (px_wire s')\<lparr>rxq := xs @ zs\<rparr>\<rparr>"
    have "px_online ?s" "resCallback ?s = Some f" "rxq (px_wire ?s) = xs @ zs" using s'(4,6) on(2) by (simp_all add: px_online_def isConnected_def)
    moreover have "content xs = msg_bytes (VerifyNotification (receipt_flags r) (htonl localID) (roaDefRes r) (bgpsecDefRes r) (aspaDefRes r) (htonl uid)) @ rest"
      using that by (simp add: receipt_def fl(5))
    ultimately show ?thesis
      using notification_processed [of ?s f env xs zs "receipt_flags r" localID "roaDefRes r" "bgpsecDefRes r" "aspaDefRes r" uid rest] env(2) that s'(5) by (simp add: tell)
  qed
  have ne: "msg_bytes (receipt r uid) \<noteq> []" by (simp add: receipt_def)
  show ?thesis
    by (intro exI [of _ s'] exI [of _ b] exI [of _ self'] exI [of _ "receipt r uid"] conjI allI impI;
        (rule s' q ne stored [unfolded request_stored_def, THEN conjunct1] stored [unfolded request_stored_def, THEN conjunct2] | erule server router)?)
qed

section \<open>A request that is answered\<close>

text \<open>A router asks for the origin and the ASPA validation of 10.1.2.0/24 with the AS path 65001, under the local identifier 9. The server knows
  no update yet.\<close>

definition sent_path :: BGPSecData where
  "sent_path = \<lparr>numberHops = 1, asPath = [ntohl 65001], attr_length = 0, bafi = 0, bsafi = 0, breserved = 0, local_as = 0, bgpsec_path_attr = None\<rparr>"

definition no_results :: SRxDefaultResult where
  "no_results = \<lparr>resSourceROA = 0, resSourceBGPSEC = 0, resSourceASPA = 0, defResult = \<lparr>roaResult = 3, bgpsecResult = 3, aspaResult = 3\<rparr>\<rparr>"

definition sent_request :: VerifyRequest where
  "sent_request = v4_request (request_method True False True 9) 9 no_results sample_prefix 65001 sent_path \<lparr>spl_asType = 2, spl_asRelationship = 1\<rparr>"

lemma sent_path_fits: "bgpsec_fits sent_path"
  by (simp add: sent_path_def bgpsec_fits_def bgpsec_size_def)

lemma sent_request_hops: "sent_request = hops_request\<lparr>vr_length := htonl 64, requestToken := htonl 9\<rparr>"
  by (simp add: sent_request_def v4_request_def request_method_def no_results_def sent_path_def hops_request_def sample_request_def bgpsec_size_def bgpsec_payload_def
    sample_prefix_def mem_bytes32_def ntohl_def ntohs_def)

lemma sent_new_request: "\<exists>uid pid. new_request fun_table sample_renv sent_request 0 5 sample_handler proxy_thread no_updates uid pid"
proof -
  obtain uid pid where new: "new_request fun_table sample_renv hops_request 0 5 sample_handler proxy_thread no_updates uid pid"
    using sample_new_request by blast
  have same: "request_bgpsec sent_request = request_bgpsec hops_request" "request_prefix sent_request = request_prefix hops_request"
    "vr_originAS sent_request = vr_originAS hops_request" "request_complete sent_request = request_complete hops_request" "numHops sent_request = numHops hops_request"
    "vr_flags sent_request = vr_flags hops_request" "vr_v4 sent_request = vr_v4 hops_request" "vr_asType sent_request = vr_asType hops_request"
    by (simp_all add: sent_request_hops request_bgpsec_def request_prefix_def request_complete_def Let_def)
  have "request_pathID sample_renv sent_request = request_pathID sample_renv hops_request"
    by (simp add: request_pathID_def same request_path_def request_asType_def)
  moreover have "cq_usable (10, 20) (validation_command sent_request 0 5 uid) new_queue"
    using new_queue_inv by (auto simp: cq_usable_def validation_command_def new_queue_def sent_request_hops)
  ultimately have "new_request fun_table sample_renv sent_request 0 5 sample_handler proxy_thread no_updates uid pid"
    using new by (simp add: new_request_def same sample_renv_def sample_handler_def)
  then show ?thesis by blast
qed

theorem router_gets_receipt_witness:
  "\<exists>(uid :: u32) s' b self' msg.
    verifyUpdate sample_penv 9 True False True no_results sample_prefix 65001 (Some sent_path) \<lparr>spl_asType = 2, spl_asRelationship = 1\<rparr> sample_px = Some (Inr s') \<and>
    server_turn fun_table sample_renv (\<lambda>_. Some (\<lambda>_. 0)) 0 5 5 (sample_wire\<lparr>rxq := [RxData b, RxData []]\<rparr>) sample_handler = Some (Inr (-1, sample_wire, self')) \<and>
    txd (px_wire s') = b \<and> sent (sender (server self')) = [(5, msg)] \<and>
    (\<exists>s''. processPackets sample_penv (s'\<lparr>px_wire := (px_wire s')\<lparr>rxq := [RxData (msg_bytes msg)]\<rparr>\<rparr>) = Some (Inr (True, s'')) \<and> router s'' = unat uid)"
proof -
  obtain uid pid where new: "new_request fun_table sample_renv sent_request 0 5 sample_handler proxy_thread no_updates uid pid"
    using sent_new_request by blast
  have cb: "resCallback sample_px = Some (\<lambda>uid _ _ _ _ _ n. n + unat uid)" by (simp add: sample_px_def)
  have pfx: "version (ip sample_prefix) = 4" "length (addr (ip sample_prefix)) = 16" by (simp_all add: sample_prefix_def)
  have srv: "initialized proxy_thread" "queues_idle sample_renv sample_handler" "net (base sample_renv) 5"
    by (simp_all add: queues_idle_def queue_ready_def outbox_def idle_queue_ok proxy_thread_def sample_handler_def sample_renv_def sample_env_def)
  have z: "txd (px_wire sample_px) = []" "router sample_px = 0" "sent (sender (server sample_handler)) = []" "(9 :: u32) \<noteq> 0" "sample_wire\<lparr>rxq := []\<rparr> = sample_wire"
    by (simp_all add: sample_px_def sample_wire_def sample_handler_def sample_server_def)
  obtain s' b self' msg where ok: "verifyUpdate sample_penv 9 True False True no_results sample_prefix 65001 (Some sent_path) \<lparr>spl_asType = 2, spl_asRelationship = 1\<rparr> sample_px = Some (Inr s')"
    "txd (px_wire s') = b" "b \<noteq> []" "sent (sender (server self')) = [(5, msg)]" "msg_bytes msg \<noteq> []"
    and srv': "\<forall>mem fd w xs z zs. fd \<noteq> -1 \<and> unlimited mem \<and> rxq w = xs @ z # zs \<and> chunks xs \<and> content xs = b \<and> (z = RxData [] \<or> z = RxError) \<longrightarrow>
       server_turn fun_table sample_renv mem 0 5 fd w sample_handler = Some (Inr (-1, w\<lparr>rxq := zs\<rparr>, self'))"
    and rt: "\<forall>xs zs rest. chunks xs \<and> content xs = msg_bytes msg @ rest \<longrightarrow>
       (\<exists>ys. processPackets sample_penv (s'\<lparr>px_wire := (px_wire s')\<lparr>rxq := xs @ zs\<rparr>\<rparr>) =
          Some (Inr (True, s'\<lparr>px_wire := (px_wire s')\<lparr>rxq := ys @ zs\<rparr>, router := 0 + unat uid\<rparr>)) \<and> chunks ys \<and> content ys = rest)"
    using router_gets_receipt [OF sample_px_simps(1) cb pfx sent_path_fits sample_px_simps(4,3) z(4) sent_request_def fun_table_laws new srv] unfolding z append_Nil by (elim exE conjE) (rule that)
  have "server_turn fun_table sample_renv (\<lambda>_. Some (\<lambda>_. 0)) 0 5 5 (sample_wire\<lparr>rxq := [RxData b, RxData []]\<rparr>) sample_handler = Some (Inr (-1, sample_wire, self'))"
    using srv' [rule_format, of 5 "\<lambda>_. Some (\<lambda>_. 0)" "sample_wire\<lparr>rxq := [RxData b, RxData []]\<rparr>" "[RxData b]" "RxData []" "[]"] ok(3) z(5) by (simp add: unlimited_def)
  moreover have "\<exists>s''. processPackets sample_penv (s'\<lparr>px_wire := (px_wire s')\<lparr>rxq := [RxData (msg_bytes msg)]\<rparr>\<rparr>) = Some (Inr (True, s'')) \<and> router s'' = unat uid"
    using rt [rule_format, of "[RxData (msg_bytes msg)]" "[]" "[]"] ok(5) by auto
  ultimately show ?thesis using ok(1,2,4) by - (rule exI [of _ uid], rule exI [of _ s'], rule exI [of _ b], rule exI [of _ self'], rule exI [of _ msg], intro conjI)
qed

end
