(* ===== verification/Spec2Isabelle.thy ===== *)
theory Spec2Isabelle
  imports Srx_Identifier Rpki_Queue SList Aspa_Validation Origin_Validation Aspath_Cache Update_Processing Handshake Requests Validation_Cache
    Proxy_Connection Router_Receipt
begin

text \<open>
  Verification of the BGP-SRx server and of the library that routers use to talk to it (\<open>src/srx-server/src\<close>).

  \<^bold>\<open>The program.\<close> Routers (the proxies) connect to the server and ask for the validation of BGP updates. The server checks the origin of
  an update against the ROAs, its AS path against the ASPA objects, and knows the router keys its BGPsec path depends on. ROAs, ASPA
  objects and keys come from a validation cache by the RPKI to router protocol. A result that changes is sent to all routers that asked.
  A router calls \<open>verifyUpdate\<close> of the library (\<open>client/srx_api.c\<close>), which sends a packet to the server; the results come back as packets that call the router.
  A packet travels as follows: \<open>server_connection_handler.c\<close> receives it, stores an unknown update in \<open>update_cache.c\<close> (results and clients)
  and its path in \<open>aspath_cache.c\<close>, answers with the known results, and appends a command to \<open>command_queue.c\<close>; \<open>command_handler.c\<close> takes the
  commands, asks \<open>prefix_cache.c\<close> and \<open>validateASPA\<close> (with the database \<open>aspa_trie.c\<close>), and stores the results. \<open>rpki_handler.c\<close> is called
  for the data of the validation cache; changed data puts updates into \<open>rpki_queue.c\<close> (through \<open>prefix_cache.c\<close>, \<open>ski_cache.c\<close> or the end of data),
  and at the end of data the queue is worked off and the clients are told (\<open>broadcastResult\<close>, \<open>srx_packet_sender.c\<close>).

  \<^bold>\<open>Conventions.\<close> C integers are words of their width. An operation that may crash, block forever or overrun memory returns a sum whose
  left side is a \<open>fault\<close> of \<open>Prelude\<close>; such behaviour is a value, and the theorems that an operation succeeds show that it is not a fault. The state is
  passed explicitly; linked structures whose aliasing matters (\<open>slist.c\<close>, the packet queues) live in an explicit heap, the other ones are
  lists or trees in the order of the code. Locks are seen from one thread (\<open>Rw_Lock\<close>); a wait that this thread cannot end is \<open>LockBlocked\<close>.
  Allocation, sockets, the clock and random numbers are inputs of the definitions that use them; so is the number of bytes that the compiler reserves on the stack for an array of variable
  length (\<open>stack_room\<close>, \<open>reserved\<close>): writing behind them is the fault \<open>BufferOverflow\<close>. The conditional code of \<open>USE_GRPC\<close> is left out.

  \<^bold>\<open>Theories.\<close>
  \<^item> \<open>Prelude\<close>, \<open>SRx_Defs\<close>: words, faults, byte order, \<open>memcmp\<close>, shared lemmas; \<open>shared/srx_defs.h\<close>.
  \<^item> \<open>Srx_Identifier\<close>: \<open>shared/crc32.c\<close>, \<open>shared/srx_identifier.c\<close>. The table-driven loop computes the CRC by bits; the identifier is the CRC
    of the text of the update; every call writes behind the array for the text, which is a fault unless the stack has room behind it.
  \<^item> \<open>Fifo_Store\<close>, \<open>SList\<close>, \<open>Packet_Queue\<close>, \<open>Command_Queue\<close>: \<open>util/slist.c\<close>, the receiver and send queues, \<open>server/command_queue.c\<close>.
    The locales \<open>fifo_store\<close>, \<open>sequence_store\<close> and \<open>work_queue\<close> are the contracts of the queues; they are interpreted on the heap structures.
  \<^item> \<open>Rw_Lock\<close>: \<open>util/rwlock.c\<close>, \<open>util/mutex.c\<close>.
  \<^item> \<open>Rpki_Queue\<close>: \<open>server/rpki_queue.c\<close>; the locale \<open>coalescing_queue\<close>: no update is lost, a notification that waits is not doubled.
  \<^item> \<open>Uthash\<close>, \<open>Update_Cache\<close>, \<open>Aspath_Cache\<close>: \<open>server/update_cache.c\<close>, \<open>server/aspath_cache.c\<close>. The hash table library is a record of operations with
    the laws of its documentation; over them the caches are finite maps and every operation refines an operation on the map.
  \<^item> \<open>Aspa_Trie\<close>, \<open>Aspa_Validation\<close>: \<open>server/aspa_trie.c\<close>, \<open>handleAspaPdu\<close>, \<open>validateASPA\<close>. The trie is a map (locale \<open>key_store\<close>); the invariant holds
    for every sequence of PDUs; the verdict is the one of the ASPA draft, stated over the hops (locale \<open>hop_relation\<close>).
  \<^item> \<open>Prefix_Cache\<close>, \<open>Origin_Validation\<close>: \<open>server/prefix_cache.c\<close>. The patricia tree is a record of operations; the request computes the state of RFC 6811.
  \<^item> \<open>Srx_Packets\<close>: \<open>shared/srx_packets.h\<close>, \<open>server/srx_packet_sender.c\<close>. A packet is sent at once or waits in the send queue (\<open>outbox\<close>) for a round of its thread.
  \<^item> \<open>Proxy_Map\<close>, \<open>Connection_Handler\<close>, \<open>Requests\<close>: \<open>server/server_connection_handler.c\<close>. The invariant of the proxy map; the search for an identifier ends;
    what a request for a new update does, with the send queue (the default) and without it.
  \<^item> \<open>Command_Handler\<close>, \<open>Handshake\<close>, \<open>Update_Processing\<close>, \<open>Notifications\<close>: \<open>server/command_handler.c\<close>. The handshake, the validation of an update, the order of the
    commands, and which clients are told about a result.
  \<^item> \<open>Rpki_Handler\<close>, \<open>End_Of_Data\<close>: \<open>server/rpki_handler.c\<close>, \<open>process_ASPA_EndOfData\<close>. After the end of data every update has the verdict of its path,
    the changed ones are reported, and the queue is empty.
  \<^item> \<open>Bgpsec_Path\<close>, \<open>Ordered_List\<close>, \<open>Ski_Cache\<close>, \<open>Ski_Registry\<close>, \<open>Ski_Updates\<close>, \<open>Router_Keys\<close>: \<open>server/ski_cache.c\<close>, \<open>handleRouterKey\<close>. The parser reads what an encoder of
    RFC 8205 writes; the four nested ordered lists (locale \<open>ordered_list\<close>) are a map from keys to entries; an announced key puts the updates that use it into the queue
    and the next end of data tells their clients.
  \<^item> \<open>Client_Socket\<close>, \<open>Rpki_Router_Client\<close>, \<open>Rpki_Session\<close>, \<open>Validation_Cache\<close>: \<open>util/socket.c\<close>, \<open>util/client_socket.c\<close>, \<open>server/rpki_router_client.c\<close>, \<open>createRPKIHandler\<close>. The
    network is a value with the answers of \<open>recv\<close>, \<open>send\<close> and \<open>connect\<close>; the receive loop decodes a stream of PDUs however it is cut into pieces and calls the callbacks in
    order; connections that end early, in the middle of a PDU or with a new session; and the way of the ASPA objects from the stream to the routers.
  \<^item> \<open>Packet_Receiver\<close>, \<open>Srx_Wire\<close>: \<open>util/packet.c\<close>, the packed structures of \<open>shared/srx_packets.h\<close> as bytes, the thread of one client in \<open>util/server_socket.c\<close>. A stream of
    complete packets is handed to the dispatcher packet by packet, however it is cut into pieces.
  \<^item> \<open>Proxy_Client\<close>, \<open>Proxy_Session\<close>, \<open>Proxy_Connection\<close>, \<open>Router_Receipt\<close>: \<open>client/srx_api.c\<close>, \<open>client/client_connection_handler.c\<close>. The state of the router is a parameter that the callbacks change.
    A request for an IPv4 prefix reaches the server with its content, a notification reaches the router; together, a request is answered with a receipt (\<open>server_turn\<close>: the rounds of the three threads of the server, with and without the queues). The handshake; the
    overrun of the hello packet, the shifted path of IPv6 requests, the proxy that can not connect again, and two calls that do not return.
  \<^item> \<open>Spec2Isabelle\<close>: from the packet of a router to the stored result.

  \<^bold>\<open>Loops.\<close> Loops over data are structural recursions or functions with a measure. Loops that follow pointers, wait for work or search for a free
  identifier, and the thread of the protocol client, are partial functions without fuel, where not returning is \<open>None\<close>; that they return is proved with what they return: \<open>free_updateID_ends\<close> when an
  identifier is free within the reach of the search, \<open>handleEndOfData_reports\<close> for the loop over the RPKI queue, \<open>exchange_delivers\<close> for the receive loop, \<open>connectToSRx_handshake\<close> for the handshake, the interpretations of the queues for the
  linked lists. \<open>handshake_never_ends\<close> and \<open>verifyUpdate_never_returns\<close> show when two loops of the library do not return. The loops of the threads are modelled by their rounds.

  \<^bold>\<open>Not modelled.\<close> The accept and poll loops of the server socket, logging and timers: input and output. The configuration file, the console and XML output, \<open>main.c\<close>. The key
  cache, which the server does not call. In the library of the routers the code for logging, and the waiting between threads, which nothing calls. Concurrency between threads beyond
  the queues and locks. The crypto plugins, of which the server calls two functions that are parameters. Quagga with its patch is a third-party program.
\<close>

section \<open>From the request to the result\<close>

lemma validation_command_process:
  "process_command T P envs (validation_command r sock client uid) (k, s) =
     cbind (processUpdateValidation T P (envs k) uid (r\<lparr>vr_flags := vr_flags r AND SRX_FLAG_ROA_BGPSEC_ASPA\<rparr>) s) (\<lambda>(_, s). Inr (Suc k, s))"
  by (simp add: process_command_def validation_command_def process_pdu_def) (simp add: cbind_def split: sum.splits prod.splits)

lemma masked_flags:
  "isSet8 (f AND SRX_FLAG_ROA_BGPSEC_ASPA) SRX_FLAG_ROA \<longleftrightarrow> bit f 0" "isSet8 (f AND SRX_FLAG_ROA_BGPSEC_ASPA) SRX_FLAG_BGPSEC \<longleftrightarrow> bit f 1"
  "isSet8 (f AND SRX_FLAG_ROA_BGPSEC_ASPA) SRX_FLAG_ASPA \<longleftrightarrow> bit f 2"
  unfolding isSet8_bits by (simp_all add: bit_simps)

text \<open>C1. From the packet to the result. A known client asks, with a receipt, for the origin and the ASPA validation (not BGPsec) of an update that is not
  stored yet, with undefined as default ASPA result. The situation is \<open>new_request\<close>: the caches and queues are in order and have free memory, the packet is complete
  and has 1 to 255 hops, neither the update nor its path is stored, and the stack has room for the text that \<open>generateIdentifier\<close> writes; the receipt
  goes through the send queue, or, in the mode without that queue, straight to the client, which can then be reached. If the prefix cache is consistent on the path of the
  prefix, memory is available, and \<open>validateASPA\<close> gives the verdict \<open>v\<close> for the AS path of the packet, then: \<open>processValidationRequest\<close> succeeds and appends exactly
  one command to the queue; and when the command handler processes that command, the update is stored with the origin state of RFC 6811
  and the verdict \<open>v\<close>, no other update changes, and the AS path cache has the verdict as well.\<close>

theorem request_to_result:
  fixes P :: "'p patricia" and self :: "('p, 't) ConnectionHandler"
  assumes T: "uthash_laws T" and new: "new_request T env r sock client self t uc uid pid" and net: "mode_no_sendqueue env \<Longrightarrow> net (base env) client"
    and flags: "bit (vr_flags r) 7" "bit (vr_flags r) 0" "bit (vr_flags r) 2" "\<not> bit (vr_flags r) 1" and def: "aspaDefRes r = SRx_RESULT_UNDEFINED"
    and env: "upd_malloc (envs k) = (\<lambda>_. True)"
    and tree: "prefixTree (pcache (server self)) = Some tr" "patricia_lookup P tr (ipPrefixToPrefix_t (request_prefix r)) = (Some (n, fresh), tr')"
    and known: "fresh \<longleftrightarrow> node_data (pcache (server self)) n = None" and n: "n \<notin> set (node_parents P tr' n)"
    and lists: "\<And>p. node_data (pcache (server self)) n = Some p \<Longrightarrow> lost (valid p) = 0 \<and> lost (other p) = 0"
    and states: "states_ok (node_data (pcache (server self))) (n # node_parents P tr' n)"
    and cover: "coverage_ok (node_bitlen P tr') (pc_roas (pcache (server self))) (node_data (pcache (server self))) (n # node_parents P tr' n)"
    and roas: "roas_ok (pc_roas (pcache (server self))) (node_bitlen P tr' n) (ntohl (vr_originAS r))
      (roas_on (node_data (pcache (server self))) (n # node_parents P tr' n))"
    and v: "path_verdict (aspaDB (server self)) (request_path_entry env r pid) = Inr v"
  shows "\<exists>self' s' uc'. processValidationRequest T env sock client r self = Some (Inr (True, self')) \<and>
    cq_pending (cmdQueue self') = cq_pending (cmdQueue self) @ [validation_command r sock client uid] \<and>
    process_command T P envs (validation_command r sock client uid) (k, server self') = Inr (Suc k, s') \<and>
    updateCache (pcache s') = Some uc' \<and> (\<forall>j. j \<noteq> uid \<longrightarrow> uc_entry T uc' j = uc_entry T uc j) \<and>
    map_option srxResult (uc_entry T uc' uid) = Some \<lparr>roaResult = origin_state (pc_roas (pcache (server self))) (node_bitlen P tr' n) (ntohl (vr_originAS r))
        (roas_on (node_data (pcache (server self))) (n # node_parents P tr' n)), bgpsecResult = SRx_RESULT_UNDEFINED, aspaResult = v\<rparr> \<and>
    map_option pl_aspaResult (ac_entry T (apcache s') pid) = Some v"
proof -
  obtain self' uc1 e where ok: "processValidationRequest T env sock client r self = Some (Inr (True, self'))"
    and s': "pcache (server self') = (pcache (server self))\<lparr>updateCache := Some uc1\<rparr>" "aspaDB (server self') = aspaDB (server self)"
    and uc1: "uc_ok T uc1" "uc_entry T uc1 = (uc_entry T uc)(uid \<mapsto> e)"
    and e: "aspathCacheID e = pid" "srxResult e = undefined_result" "defaultResult e = request_default r"
    and ac: "ac_ok T (apcache (server self'))"
      "ac_entry T (apcache (server self')) = (ac_entry T (apcache (server self)))(pid \<mapsto> request_path_entry env r pid)"
    and q: "cq_pending (cmdQueue self') = cq_pending (cmdQueue self) @ [validation_command r sock client uid]"
    using processValidationRequest_ok [OF T new] net flags(1) by (cases "mode_no_sendqueue env") auto
  define r7 where "r7 = r\<lparr>vr_flags := vr_flags r AND SRX_FLAG_ROA_BGPSEC_ASPA\<rparr>"
  have r7: "vr_flags r7 = vr_flags r AND SRX_FLAG_ROA_BGPSEC_ASPA" "request_prefix r7 = request_prefix r" "vr_originAS r7 = vr_originAS r"
    "vr_asType r7 = vr_asType r" by (simp_all add: r7_def request_prefix_def)
  have f7: "isSet8 (vr_flags r7) SRX_FLAG_ROA" "isSet8 (vr_flags r7) SRX_FLAG_ASPA" "\<not> isSet8 (vr_flags r7) SRX_FLAG_BGPSEC"
    unfolding r7 masked_flags using flags by simp_all
  have pc: "prefixTree (pcache (server self')) = prefixTree (pcache (server self))" "node_data (pcache (server self')) = node_data (pcache (server self))"
    "pc_roas (pcache (server self')) = pc_roas (pcache (server self))" "updateCache (pcache (server self')) = Some uc1" using s'(1) by simp_all
  have ent: "uc_entry T uc1 uid = Some e" "roaResult (srxResult e) = SRx_RESULT_UNDEFINED" "aspaResult (srxResult e) = SRx_RESULT_UNDEFINED"
    "aspaResult (defResult (defaultResult e)) \<noteq> SRx_RESULT_INVALID"
    using uc1(2) e def by (simp_all add: undefined_result_def request_default_def)
  have "pid \<noteq> 0" using new by (simp add: new_request_def)
  then have path: "ac_entry T (apcache (server self')) (aspathCacheID e) = Some (request_path_entry env r pid)" "aspathCacheID e \<noteq> 0"
    "pl_aspaResult (request_path_entry env r pid) = SRx_RESULT_UNDEFINED"
    using ac(2) e(1) def by (simp_all add: request_path_entry_def path_entry_def)
  then have "pl_aspaResult (request_path_entry env r pid) \<noteq> SRx_RESULT_DONOTUSE" by simp
  note main = processUpdateValidation_ok [of r7 "envs k" "server self'", OF f7 env, unfolded r7 pc s'(2), OF tree known n lists states cover roas
      refl uc1(1) ent(1-3) ac(1) path(1,2) this v, unfolded if_not_P [OF ent(4)]]
  have rec: "recorded_aspa v (vr_asType r) (request_path_entry env r pid) = v" using path(3) by (simp add: recorded_aspa_def)
  obtain s2 uc2 where s2: "processUpdateValidation T P (envs k) uid r7 (server self') = Inr (True, s2)" "updateCache (pcache s2) = Some uc2"
    "uc_entry T uc2 = (uc_entry T uc1)(uid \<mapsto> e\<lparr>srxResult := (srxResult e)\<lparr>
      roaResult := origin_state (pc_roas (pcache (server self))) (node_bitlen P tr' n) (ntohl (vr_originAS r)) (roas_on (node_data (pcache (server self))) (n # node_parents P tr' n)),
      aspaResult := v\<rparr>\<rparr>)"
    "ac_entry T (apcache s2) = (ac_entry T (apcache (server self')))(aspathCacheID e \<mapsto> revalidated (now_sec (envs k)) v (request_path_entry env r pid))"
    using main unfolding rec by blast
  have "process_command T P envs (validation_command r sock client uid) (k, server self') = Inr (Suc k, s2)"
    unfolding validation_command_process r7_def [symmetric] s2(1) by simp
  then show ?thesis using ok q s2(2-4) uc1(2) e(1,2)
    by (intro exI [of _ self'] exI [of _ s2] exI [of _ uc2]) (simp add: undefined_result_def revalidated_def)
qed

lemma hops_path_entry: "request_path_entry sample_renv hops_request pid = one_hop\<lparr>pl_pathId := pid, pl_afi := 0\<rparr>"
proof -
  have "ntohs (numHops hops_request) = 1" "val_afi hops_request = 0" "aspaDefRes hops_request = 3" "vr_v4 hops_request" "vr_asType hops_request = 2"
    "vr_asRelType hops_request = 1" by (simp_all add: hops_request_def sample_request_def ntohs_def)
  then show ?thesis
    by (simp add: request_path_entry_def path_entry_def hops_data one_hop_def ntohl_ntohl request_asType_def request_asRelDir_def ntohs_def)
qed

theorem request_to_result_witness:
  "\<exists>uid self' s' uc'. processValidationRequest fun_table sample_renv 0 5 hops_request sample_handler = Some (Inr (True, self')) \<and>
    process_command fun_table list_patricia (\<lambda>_. sample_env) (validation_command hops_request 0 5 uid) (0, server self') = Inr (1, s') \<and>
    updateCache (pcache s') = Some uc' \<and>
    map_option srxResult (uc_entry fun_table uc' uid) =
      Some \<lparr>roaResult = SRx_RESULT_VALID, bgpsecResult = SRx_RESULT_UNDEFINED, aspaResult = SRx_RESULT_VALID\<rparr>"
proof -
  obtain uid pid where new: "new_request fun_table sample_renv hops_request 0 5 sample_handler proxy_thread no_updates uid pid"
    using sample_new_request by blast
  have req: "net (base sample_renv) 5" "bit (vr_flags hops_request) 7" "bit (vr_flags hops_request) 0" "bit (vr_flags hops_request) 2"
    "\<not> bit (vr_flags hops_request) 1" "aspaDefRes hops_request = SRx_RESULT_UNDEFINED" "upd_malloc sample_env = (\<lambda>_. True)"
    by (simp_all add: sample_renv_def sample_env_def hops_request_def sample_request_def)
  have origin: "ntohl (vr_originAS hops_request) = 65001" by (simp add: hops_request_def sample_request_def ntohl_ntohl)
  have srv: "prefixTree (pcache (server sample_handler)) = Some [p8]" "node_data (pcache (server sample_handler)) = [1 \<mapsto> roa_node]"
    "pc_roas (pcache (server sample_handler)) = [1 \<mapsto> sample_roa]" by (simp_all add: sample_handler_def sample_pc_def)
  have look: "patricia_lookup list_patricia [p8] (ipPrefixToPrefix_t (request_prefix hops_request)) = (Some (2, True), [p8, ipPrefixToPrefix_t sample_prefix])"
    unfolding hops_prefix by (rule sample_lookup(1))
  have verdict: "path_verdict (aspaDB (server sample_handler)) (request_path_entry sample_renv hops_request pid) = Inr SRx_RESULT_VALID"
    unfolding hops_path_entry
    by (simp add: path_verdict_def one_hop_def path_hops_def validateASPA_def reverse_arr.simps initial_result_def final_result_def)
  note main = request_to_result [OF fun_table_laws new req(1-6) _ srv(1) look, of "\<lambda>_. sample_env" 0, unfolded srv sample_lookup origin, OF req(7) _ _ _ _ _ _ verdict]
  show ?thesis using main sample_origin
    by (intro exI [of _ uid])
      (auto simp: sample_origin simp del: SRx_RESULT_VALID_def SRx_RESULT_UNDEFINED_def states_ok.simps coverage_ok.simps roas_on_simps)
qed

end
